(* ===== verification/Prelude.thy ===== *)
theory Prelude
  imports Main "HOL-Library.Char_ord" "HOL-Library.Sublist" "HOL-Library.Signed_Division"
begin

text \<open>
  Shared vocabulary of the development: results of fallible Go functions as sums, the 64-bit
  two's complement range of Go's \<^verbatim>\<open>int\<close> and \<^verbatim>\<open>int64\<close>, and the functions of Go's
  \<^verbatim>\<open>strings\<close> and \<^verbatim>\<open>strconv\<close> packages that the sources call.  A Go string is the list of its
  bytes (type \<open>string\<close>); \<^verbatim>\<open>ToLower\<close> is modelled on ASCII, other bytes are left alone.
\<close>

named_theorems go_int "range and wrap-around of 64-bit integers"
named_theorems go_str "string functions of the Go library"

section \<open>Results\<close>

type_synonym ('e, 'a) res = "'e + 'a"

abbreviation Err :: "'e \<Rightarrow> ('e, 'a) res" where "Err \<equiv> Inl"
abbreviation Ok :: "'a \<Rightarrow> ('e, 'a) res" where "Ok \<equiv> Inr"

definition bind_res :: "('e, 'a) res \<Rightarrow> ('a \<Rightarrow> ('e, 'b) res) \<Rightarrow> ('e, 'b) res" where
  "bind_res r f = (case r of Inl e \<Rightarrow> Inl e | Inr a \<Rightarrow> f a)"

lemma bind_res_simps [simp]:
  "bind_res (Inl e) f = Inl e" "bind_res (Inr a) f = f a"
  by (simp_all add: bind_res_def)

lemma bind_res_ok: "bind_res r f = Inr b \<longleftrightarrow> (\<exists>a. r = Inr a \<and> f a = Inr b)"
  by (cases r) auto

definition guard_res :: "bool \<Rightarrow> 'e \<Rightarrow> ('e, unit) res" where
  "guard_res b e = (if b then Inr () else Inl e)"

lemma guard_res_ok [simp]: "guard_res b e = Inr u \<longleftrightarrow> b"
  by (simp add: guard_res_def)

text \<open>The loop \<^verbatim>\<open>for _, x := range xs { if err := f(x); err != nil { return err } }\<close>.\<close>

primrec check_all :: "('a \<Rightarrow> ('e, unit) res) \<Rightarrow> 'a list \<Rightarrow> ('e, unit) res" where
  "check_all f [] = Inr ()"
| "check_all f (x # xs) = (case f x of Inl e \<Rightarrow> Inl e | Inr _ \<Rightarrow> check_all f xs)"

lemma check_all_ok: "check_all f xs = Inr u \<longleftrightarrow> (\<forall>x\<in>set xs. f x = Inr ())"
  by (induction xs) (auto split: sum.splits)

lemma check_all_err:
  "check_all f xs = Inl e \<Longrightarrow> \<exists>ys x zs. xs = ys @ x # zs \<and> f x = Inl e \<and> (\<forall>y\<in>set ys. f y = Inr ())"
proof (induction xs)
  case (Cons a xs)
  show ?case
  proof (cases "f a")
    case (Inl e')
    then have "a # xs = [] @ a # xs \<and> f a = Inl e" using Cons.prems by simp
    then show ?thesis by (metis empty_iff list.set(1))
  next
    case (Inr u)
    then have "check_all f xs = Inl e" using Cons.prems by simp
    then obtain ys x zs where "xs = ys @ x # zs \<and> f x = Inl e \<and> (\<forall>y\<in>set ys. f y = Inr ())"
      using Cons.IH by blast
    with Inr have "a # xs = (a # ys) @ x # zs \<and> f x = Inl e \<and> (\<forall>y\<in>set (a # ys). f y = Inr ())"
      by simp
    then show ?thesis by blast
  qed
qed simp

lemma case_res_err [simp]:
  "(case r of Inl e \<Rightarrow> Inl (f e) | Inr _ \<Rightarrow> Inr (v::unit)) = Inr u \<longleftrightarrow> r = Inr (u'::unit)"
  by (cases r) simp_all

lemma case_res_ok [simp]:
  "(case r of Inl e \<Rightarrow> Inl (f e) | Inr _ \<Rightarrow> k) = Inr u \<longleftrightarrow> r = Inr () \<and> k = Inr u"
  by (cases r) simp_all

section \<open>64-bit integers\<close>

definition in64 :: "int \<Rightarrow> bool" where
  "in64 x \<longleftrightarrow> - 9223372036854775808 \<le> x \<and> x \<le> 9223372036854775807"

definition wrap64 :: "int \<Rightarrow> int" where
  "wrap64 x = (x + 9223372036854775808) mod 18446744073709551616 - 9223372036854775808"

abbreviation MaxInt64 :: int where "MaxInt64 \<equiv> 9223372036854775807"

lemma wrap64_id [simp, go_int]: "in64 x \<Longrightarrow> wrap64 x = x"
  by (simp add: in64_def wrap64_def)

lemma wrap64_in64 [simp, go_int]: "in64 (wrap64 x)"
proof -
  have "0 \<le> (x + 9223372036854775808) mod 18446744073709551616"
    "(x + 9223372036854775808) mod 18446744073709551616 < 18446744073709551616"
    by simp_all
  then show ?thesis unfolding in64_def wrap64_def by linarith
qed

lemma in64I [go_int]: "0 \<le> x \<Longrightarrow> x \<le> 9223372036854775807 \<Longrightarrow> in64 x"
  by (simp add: in64_def)

lemma div_square_less [go_int]:
  assumes "0 \<le> m" "0 < B" "m < B * B"
  shows "m div B < (B::int)"
proof -
  have "m div B * B \<le> m"
    using assms(2) div_mult_mod_eq[of m B] pos_mod_sign[of B m] by linarith
  then have "m div B * B < B * B" using assms(3) by linarith
  then show ?thesis using assms(2) by simp
qed

section \<open>Strings\<close>

definition has_prefix :: "string \<Rightarrow> string \<Rightarrow> bool" where
  "has_prefix s p \<longleftrightarrow> take (length p) s = p"

definition has_suffix :: "string \<Rightarrow> string \<Rightarrow> bool" where
  "has_suffix s p \<longleftrightarrow> length p \<le> length s \<and> drop (length s - length p) s = p"

definition trim_suffix :: "string \<Rightarrow> string \<Rightarrow> string" where
  "trim_suffix s p = (if has_suffix s p then take (length s - length p) s else s)"

definition trim_prefix :: "string \<Rightarrow> string \<Rightarrow> string" where
  "trim_prefix s p = (if has_prefix s p then drop (length p) s else s)"

primrec contains_sub :: "string \<Rightarrow> string \<Rightarrow> bool" where
  "contains_sub [] p \<longleftrightarrow> p = []"
| "contains_sub (c # s) p \<longleftrightarrow> has_prefix (c # s) p \<or> contains_sub s p"

primrec split_on :: "char \<Rightarrow> string \<Rightarrow> string list" where
  "split_on c [] = [[]]"
| "split_on c (x # xs) = (if x = c then [] # split_on c xs
     else (case split_on c xs of [] \<Rightarrow> [[x]] | y # ys \<Rightarrow> (x # y) # ys))"

fun join_on :: "string \<Rightarrow> string list \<Rightarrow> string" where
  "join_on sep [] = []"
| "join_on sep [x] = x"
| "join_on sep (x # y # ys) = x @ sep @ join_on sep (y # ys)"

definition byte_of :: "char \<Rightarrow> nat" where
  "byte_of c = of_char c"

definition lower_char :: "char \<Rightarrow> char" where
  "lower_char c = (if 65 \<le> byte_of c \<and> byte_of c \<le> 90 then char_of (byte_of c + 32) else c)"

definition to_lower :: "string \<Rightarrow> string" where
  "to_lower s = map lower_char s"

lemma has_prefix_append [simp, go_str]: "has_prefix (p @ s) p"
  by (simp add: has_prefix_def)

lemma has_prefix_iff [go_str]: "has_prefix s p \<longleftrightarrow> prefix p s"
  by (metis has_prefix_def append_take_drop_id append_eq_conv_conj prefix_def)

lemma has_suffix_iff [go_str]: "has_suffix s p \<longleftrightarrow> suffix p s"
  by (auto simp: has_suffix_def suffix_def)
     (metis append_take_drop_id)

lemma trim_suffix_append [simp, go_str]: "trim_suffix (s @ p) p = s"
  by (simp add: trim_suffix_def has_suffix_def)

lemma split_on_nonempty [simp]: "split_on c s \<noteq> []"
  by (induction s) (auto split: list.splits)

lemma split_on_no_sep [go_str]: "c \<notin> set s \<Longrightarrow> split_on c s = [s]"
  by (induction s) auto

lemma split_on_append [go_str]: "c \<notin> set s \<Longrightarrow> split_on c (s @ c # t) = s # split_on c t"
  by (induction s) auto

lemma join_split_on: "join_on [c] (split_on c s) = s"
proof (induction s)
  case (Cons x s)
  then show ?case by (cases "split_on c s"; cases "tl (split_on c s)") auto
qed simp

lemma split_on_parts: "p \<in> set (split_on c s) \<Longrightarrow> c \<notin> set p"
  by (induction s arbitrary: p) (auto split: list.splits if_splits)

lemma contains_sub_iff [go_str]: "contains_sub s p \<longleftrightarrow> (\<exists>xs ys. s = xs @ p @ ys)"
proof (induction s)
  case (Cons c s)
  show ?case
  proof
    assume "contains_sub (c # s) p"
    then consider "has_prefix (c # s) p" | "contains_sub s p" by auto
    then show "\<exists>xs ys. c # s = xs @ p @ ys"
    proof cases
      case 1
      then show ?thesis by (metis append_Nil has_prefix_iff prefix_def)
    next
      case 2
      then obtain xs ys where "s = xs @ p @ ys" using Cons.IH by blast
      then have "c # s = (c # xs) @ p @ ys" by simp
      then show ?thesis by blast
    qed
  next
    assume "\<exists>xs ys. c # s = xs @ p @ ys"
    then obtain xs ys where e: "c # s = xs @ p @ ys" by blast
    show "contains_sub (c # s) p"
    proof (cases xs)
      case Nil
      then have "has_prefix (c # s) p" using e by simp
      then show ?thesis by simp
    next
      case (Cons d ds)
      then show ?thesis using e Cons.IH by auto
    qed
  qed
qed auto

lemma contains_sub_self [simp]: "contains_sub s s"
  unfolding contains_sub_iff by (rule exI[of _ "[]"], rule exI[of _ "[]"]) simp

lemma byte_of_lt [simp]: "byte_of c < 256"
  unfolding byte_of_def using of_char_of[of "of_char c :: nat"]
  by (metis of_char_mod_256 mod_less_divisor zero_less_numeral)

lemma byte_of_char_of [simp]: "n < 256 \<Longrightarrow> byte_of (char_of n) = n"
  by (simp add: byte_of_def)

lemma byte_of_inject [simp]: "byte_of c = byte_of d \<longleftrightarrow> c = d"
  by (simp add: byte_of_def)

lemma lower_char_idem [simp]: "lower_char (lower_char c) = lower_char c"
  by (auto simp: lower_char_def)

lemma to_lower_idem [simp, go_str]: "to_lower (to_lower s) = to_lower s"
  by (simp add: to_lower_def)

lemma length_to_lower [simp]: "length (to_lower s) = length s"
  by (simp add: to_lower_def)

section \<open>Decimal numbers\<close>

definition is_digit :: "char \<Rightarrow> bool" where
  "is_digit c \<longleftrightarrow> 48 \<le> byte_of c \<and> byte_of c \<le> 57"

definition is_letter :: "char \<Rightarrow> bool" where
  "is_letter c \<longleftrightarrow> 97 \<le> byte_of c \<and> byte_of c \<le> 122"

definition digit_val :: "char \<Rightarrow> nat" where
  "digit_val c = byte_of c - 48"

definition digit_char :: "nat \<Rightarrow> char" where
  "digit_char n = char_of (48 + n)"

fun show_nat :: "nat \<Rightarrow> string" where
  "show_nat n = (if n < 10 then [digit_char n] else show_nat (n div 10) @ [digit_char (n mod 10)])"

declare show_nat.simps [simp del]

definition show_int :: "int \<Rightarrow> string" where
  "show_int i = (if i < 0 then CHR ''-'' # show_nat (nat (- i)) else show_nat (nat i))"

definition dec_val :: "string \<Rightarrow> nat" where
  "dec_val s = foldl (\<lambda>a c. a * 10 + digit_val c) 0 s"

definition all_digits :: "string \<Rightarrow> bool" where
  "all_digits s \<longleftrightarrow> s \<noteq> [] \<and> list_all is_digit s"

text \<open>
  \<^verbatim>\<open>strconv.ParseInt(s, 10, 64)\<close> and, on a 64-bit platform, \<^verbatim>\<open>strconv.Atoi\<close>: an optional sign, at
  least one digit, nothing else, and a value in range; any other input is an error.
\<close>

definition parse_int64 :: "string \<Rightarrow> int option" where
  "parse_int64 s = (case s of
       [] \<Rightarrow> None
     | c # cs \<Rightarrow>
         (let ds = (if c = CHR ''-'' \<or> c = CHR ''+'' then cs else s);
              v = (if c = CHR ''-'' then - int (dec_val ds) else int (dec_val ds))
          in if all_digits ds \<and> in64 v then Some v else None))"

lemma digit_char_digit [simp]: "n < 10 \<Longrightarrow> is_digit (digit_char n)"
  by (simp add: is_digit_def digit_char_def)

lemma digit_val_char [simp]: "n < 10 \<Longrightarrow> digit_val (digit_char n) = n"
  by (simp add: digit_val_def digit_char_def)

lemma dec_val_snoc [simp]: "dec_val (s @ [c]) = dec_val s * 10 + digit_val c"
  by (simp add: dec_val_def)

lemma dec_val_show_nat [simp, go_str]: "dec_val (show_nat n) = n"
proof (induction n rule: show_nat.induct)
  case (1 n)
  show ?case
  proof (cases "n < 10")
    case True
    then show ?thesis by (simp add: show_nat.simps[of n] dec_val_def)
  next
    case False
    then have "dec_val (show_nat n) = n div 10 * 10 + n mod 10"
      using 1 by (simp add: show_nat.simps[of n])
    then show ?thesis by simp
  qed
qed

lemma show_nat_digits [simp, go_str]: "list_all is_digit (show_nat n)"
proof (induction n rule: show_nat.induct)
  case (1 n)
  then show ?case by (cases "n < 10") (simp_all add: show_nat.simps[of n])
qed

lemma show_nat_nonempty [simp]: "show_nat n \<noteq> []"
  by (subst show_nat.simps) simp

lemma all_digits_show_nat [simp, go_str]: "all_digits (show_nat n)"
  by (simp add: all_digits_def)

lemma digit_not_sign [simp]: "is_digit c \<Longrightarrow> c \<noteq> CHR ''-'' \<and> c \<noteq> CHR ''+'' \<and> c \<noteq> CHR ''.''"
  by (auto simp: is_digit_def byte_of_def)

lemma letter_not_digit [simp]: "is_letter c \<Longrightarrow> \<not> is_digit c \<and> c \<noteq> CHR ''.''"
  by (auto simp: is_digit_def is_letter_def byte_of_def)

lemma parse_digits:
  assumes "all_digits s" "in64 (int (dec_val s))"
  shows "parse_int64 s = Some (int (dec_val s))"
proof (cases s)
  case (Cons c cs)
  then have "is_digit c" using assms(1) by (simp add: all_digits_def)
  then have "c \<noteq> CHR ''-'' \<and> c \<noteq> CHR ''+''" by simp
  then show ?thesis using assms Cons by (simp add: parse_int64_def)
qed (use assms in \<open>simp add: all_digits_def\<close>)

lemma parse_show_nat [simp, go_str]:
  "int n \<le> 9223372036854775807 \<Longrightarrow> parse_int64 (show_nat n) = Some (int n)"
  using parse_digits[of "show_nat n"] by (simp add: in64I)

lemma parse_show_int [go_str]: "in64 i \<Longrightarrow> parse_int64 (show_int i) = Some i"
proof (cases "i < 0")
  case False
  then show "in64 i \<Longrightarrow> parse_int64 (show_int i) = Some i"
    using parse_show_nat[of "nat i"] by (simp add: show_int_def in64_def)
qed (simp add: show_int_def parse_int64_def)

lemma parse_int64_range: "parse_int64 s = Some v \<Longrightarrow> in64 v"
  by (auto simp: parse_int64_def Let_def split: list.splits if_splits)

lemma show_nat_no_dot [simp]: "CHR ''.'' \<notin> set (show_nat n)"
  using show_nat_digits[of n] digit_not_sign[of "CHR ''.''"] unfolding list_all_iff by metis

lemma show_int_no_dot [simp]: "CHR ''.'' \<notin> set (show_int n)"
  by (simp add: show_int_def)

end
