(* ===== verification/Tables.thy ===== *)
theory Tables
  imports Prelude "HOL-Library.Multiset"
begin

text \<open>
  SQL tables as lists of rows in rowid order, and the statements the sources use on them.  A
  uniqueness constraint (a primary key or a \<^verbatim>\<open>UNIQUE\<close> clause, or several) is the relation \<open>clash\<close>
  of rows that may not be in the table together.  \<^verbatim>\<open>INSERT OR REPLACE\<close> deletes the clashing rows
  first, \<^verbatim>\<open>INSERT OR IGNORE\<close> does nothing when there is one.  The locale \<open>unique_table\<close> says what
  they keep; every table of \<open>Database\<close> interprets it.  Where a query has \<^verbatim>\<open>LIMIT 1\<close> and leaves
  the choice to SQLite, the model takes the first row in rowid order.
\<close>

definition insert_or_replace :: "('r \<Rightarrow> 'r \<Rightarrow> bool) \<Rightarrow> 'r \<Rightarrow> 'r list \<Rightarrow> 'r list" where
  "insert_or_replace clash r t = filter (\<lambda>s. \<not> clash r s) t @ [r]"

definition insert_or_ignore :: "('r \<Rightarrow> 'r \<Rightarrow> bool) \<Rightarrow> 'r \<Rightarrow> 'r list \<Rightarrow> 'r list" where
  "insert_or_ignore clash r t = (if list_ex (clash r) t then t else t @ [r])"

definition update_where :: "('r \<Rightarrow> bool) \<Rightarrow> ('r \<Rightarrow> 'r) \<Rightarrow> 'r list \<Rightarrow> 'r list" where
  "update_where P f t = map (\<lambda>r. if P r then f r else r) t"

definition delete_where :: "('r \<Rightarrow> bool) \<Rightarrow> 'r list \<Rightarrow> 'r list" where
  "delete_where P t = filter (\<lambda>r. \<not> P r) t"

definition count_where :: "('r \<Rightarrow> bool) \<Rightarrow> 'r list \<Rightarrow> nat" where
  "count_where P t = length (filter P t)"

definition unique_rows :: "('r \<Rightarrow> 'r \<Rightarrow> bool) \<Rightarrow> 'r list \<Rightarrow> bool" where
  "unique_rows clash t \<longleftrightarrow> sorted_wrt (\<lambda>r s. \<not> clash r s) t"

section \<open>Ordering\<close>

text \<open>\<^verbatim>\<open>ORDER BY k ASC\<close> as a stable insertion sort; \<^verbatim>\<open>LIMIT n\<close> is \<open>take n\<close>.\<close>

fun insert_by :: "('r \<Rightarrow> int) \<Rightarrow> 'r \<Rightarrow> 'r list \<Rightarrow> 'r list" where
  "insert_by k r [] = [r]"
| "insert_by k r (s # t) = (if k r \<le> k s then r # s # t else s # insert_by k r t)"

definition order_by :: "('r \<Rightarrow> int) \<Rightarrow> 'r list \<Rightarrow> 'r list" where
  "order_by k t = foldr (insert_by k) t []"

lemma insert_by_set [simp]: "set (insert_by k r t) = insert r (set t)"
  by (induction t) auto

lemma insert_by_length [simp]: "length (insert_by k r t) = Suc (length t)"
  by (induction t) auto

lemma insert_by_sorted: "sorted (map k t) \<Longrightarrow> sorted (map k (insert_by k r t))"
  by (induction t) auto

lemma order_by_Nil [simp]: "order_by k [] = []"
  by (simp add: order_by_def)

lemma order_by_set [simp]: "set (order_by k t) = set t"
  by (induction t) (simp_all add: order_by_def)

lemma order_by_length [simp]: "length (order_by k t) = length t"
  by (induction t) (simp_all add: order_by_def)

lemma order_by_mset [simp]: "mset (order_by k t) = mset t"
proof -
  have "mset (insert_by k r u) = add_mset r (mset u)" for r u by (induction u) auto
  then show ?thesis by (induction t) (simp_all add: order_by_def)
qed

lemma order_by_distinct_map: "distinct (map f (order_by k t)) \<longleftrightarrow> distinct (map f t)"
  using mset_eq_imp_distinct_iff[of "map f (order_by k t)" "map f t"] by (simp add: mset_map)

lemma order_by_sorted [simp]: "sorted (map k (order_by k t))"
  by (induction t) (simp_all add: order_by_def insert_by_sorted)

lemma order_by_empty [simp]: "order_by k t = [] \<longleftrightarrow> t = []"
  using order_by_length[of k t] by (metis length_0_conv)

lemma order_by_hd: "t \<noteq> [] \<Longrightarrow> hd (order_by k t) \<in> set t"
  using order_by_set[of k t] hd_in_set[of "order_by k t"] by simp

lemma order_by_Cons: "order_by k t = x # xs \<Longrightarrow> x \<in> set t"
  using order_by_set[of k t] by auto

lemma order_by_min: "t \<noteq> [] \<Longrightarrow> r \<in> set t \<Longrightarrow> k (hd (order_by k t)) \<le> k r"
proof -
  assume t: "t \<noteq> []" "r \<in> set t"
  then obtain x xs where x: "order_by k t = x # xs" by (cases "order_by k t") auto
  have "r \<in> set (order_by k t)" using t by simp
  then show ?thesis using order_by_sorted[of k t] x by auto
qed

section \<open>What the statements keep\<close>

locale unique_table =
  fixes clash :: "'r \<Rightarrow> 'r \<Rightarrow> bool"
  assumes clash_sym: "clash r s \<Longrightarrow> clash s r"
begin

lemma unique_empty: "unique_rows clash []"
  by (simp add: unique_rows_def)

lemma unique_filter: "unique_rows clash t \<Longrightarrow> unique_rows clash (filter P t)"
  by (simp add: unique_rows_def sorted_wrt_filter)

lemma unique_delete: "unique_rows clash t \<Longrightarrow> unique_rows clash (delete_where P t)"
  unfolding delete_where_def by (rule unique_filter)

lemma unique_snoc: "unique_rows clash (t @ [r]) \<longleftrightarrow> unique_rows clash t \<and> (\<forall>s\<in>set t. \<not> clash r s)"
  using clash_sym by (auto simp: unique_rows_def sorted_wrt_append)

lemma unique_replace: "unique_rows clash t \<Longrightarrow> unique_rows clash (insert_or_replace clash r t)"
  by (simp add: insert_or_replace_def unique_snoc unique_filter)

lemma unique_ignore: "unique_rows clash t \<Longrightarrow> unique_rows clash (insert_or_ignore clash r t)"
  by (auto simp: insert_or_ignore_def unique_snoc list_ex_iff)

lemma unique_update:
  assumes "unique_rows clash t" "\<And>r s. clash (f r) (f s) \<longleftrightarrow> clash r s"
    "\<And>r s. clash (f r) s \<longleftrightarrow> clash r s"
  shows "unique_rows clash (update_where P f t)"
proof -
  have "clash r (f s) \<longleftrightarrow> clash r s" for r s using assms(3) clash_sym by blast
  then have "clash (if P r then f r else r) (if P s then f s else s) \<longleftrightarrow> clash r s" for r s
    using assms(2,3) by simp
  then show ?thesis using assms(1) by (simp add: unique_rows_def update_where_def sorted_wrt_map)
qed

lemma unique_pair:
  assumes "unique_rows clash t" "r \<in> set t" "s \<in> set t" "clash r s"
  shows "r = s"
proof (rule ccontr)
  assume ne: "r \<noteq> s"
  obtain i j where ij: "i < length t" "t ! i = r" "j < length t" "t ! j = s"
    using assms(2,3) by (auto simp: in_set_conv_nth)
  then have "i \<noteq> j" using ne by auto
  then consider "i < j" | "j < i" by linarith
  then show False
    using assms(1,4) ij clash_sym unfolding unique_rows_def
    by cases (metis sorted_wrt_nth_less)+
qed

lemma replace_in: "r \<in> set (insert_or_replace clash r t)"
  by (simp add: insert_or_replace_def)

lemma replace_set: "set (insert_or_replace clash r t) = insert r {s \<in> set t. \<not> clash r s}"
  by (auto simp: insert_or_replace_def)

lemma ignore_set:
  "set (insert_or_ignore clash r t) = (if \<exists>s\<in>set t. clash r s then set t else insert r (set t))"
  by (auto simp: insert_or_ignore_def list_ex_iff)

end

end
