(* ===== verification/Constants.thy ===== *)
theory Constants
  imports Prelude
begin

text \<open>
  The protocol constants of \<^verbatim>\<open>src/internal/constants/constants.go\<close>: network modes, genesis
  blocks, fee rates, size limits, reorganisation policy, rate limits and reserved names.
\<close>

definition NetworkMainnet :: string where "NetworkMainnet = ''mainnet''"
definition NetworkTestnet :: string where "NetworkTestnet = ''testnet''"
definition NetworkDev :: string where "NetworkDev = ''dev''"

definition GenesisBlockMainnet :: int where "GenesisBlockMainnet = 940000"
definition GenesisBlockTestnet :: int where "GenesisBlockTestnet = 940000"
definition GenesisBlockDev :: int where "GenesisBlockDev = 940000"

definition MinFeeRateMainnet :: int where "MinFeeRateMainnet = 1"
definition MinFeeRateTestnet :: int where "MinFeeRateTestnet = 1"
definition MinFeeRateDev :: int where "MinFeeRateDev = 1"

definition MaxSizeKind60600 :: nat where "MaxSizeKind60600 = 10 * 1024"
definition MaxSizeKind61600 :: nat where "MaxSizeKind61600 = 10 * 1024"
definition MaxSizeKind62600 :: nat where "MaxSizeKind62600 = 10 * 1024"
definition MaxSizeKind63600 :: nat where "MaxSizeKind63600 = 50 * 1024"

definition ReorgCheckInterval :: int where "ReorgCheckInterval = 144"
definition ReorgLookback :: int where "ReorgLookback = 1008"

definition MaxVersionsPerDTag :: nat where "MaxVersionsPerDTag = 10"
definition MaxDTagsPerKind :: nat where "MaxDTagsPerKind = 5"

definition DefaultBlocksPerBatch :: int where "DefaultBlocksPerBatch = 5"
definition DefaultTxMax :: int where "DefaultTxMax = 1000000"

definition ReservedPrefixes :: "string \<rightharpoonup> string" where
  "ReservedPrefixes = [''n'' \<mapsto> ''DNN'', ''b'' \<mapsto> ''Bitcoin'']"

definition ReservedAddresses :: "string \<rightharpoonup> string" where
  "ReservedAddresses = [''n0.0'' \<mapsto> ''DNN Node Registry'', ''b1m.0'' \<mapsto> ''Bitcoin Node Registry'',
     ''b1000000.0'' \<mapsto> ''Bitcoin Node Registry'']"

definition GetGenesisBlock :: "string \<Rightarrow> int" where
  "GetGenesisBlock network =
     (if network = NetworkMainnet then GenesisBlockMainnet
      else if network = NetworkTestnet then GenesisBlockTestnet
      else if network = NetworkDev then GenesisBlockDev
      else GenesisBlockTestnet)"

definition GetMinFeeRate :: "string \<Rightarrow> int" where
  "GetMinFeeRate network =
     (if network = NetworkMainnet then MinFeeRateMainnet
      else if network = NetworkTestnet then MinFeeRateTestnet
      else if network = NetworkDev then MinFeeRateDev
      else MinFeeRateTestnet)"

named_theorems const_defs "unfolding of the protocol constants"

lemmas [const_defs] =
  NetworkMainnet_def NetworkTestnet_def NetworkDev_def GenesisBlockMainnet_def
  GenesisBlockTestnet_def GenesisBlockDev_def MinFeeRateMainnet_def MinFeeRateTestnet_def
  MinFeeRateDev_def MaxSizeKind60600_def MaxSizeKind61600_def MaxSizeKind62600_def
  MaxSizeKind63600_def ReorgCheckInterval_def ReorgLookback_def MaxVersionsPerDTag_def
  MaxDTagsPerKind_def DefaultBlocksPerBatch_def DefaultTxMax_def

lemma GetGenesisBlock_const [simp]: "GetGenesisBlock network = 940000"
  by (simp add: GetGenesisBlock_def const_defs)

lemma GetMinFeeRate_const [simp]: "GetMinFeeRate network = 1"
  by (simp add: GetMinFeeRate_def const_defs)

end
