(* ===== verification/Json.thy ===== *)
theory Json
  imports Prelude
begin

text \<open>
  Go's \<^verbatim>\<open>encoding/json\<close> as the sources use it: \<^verbatim>\<open>json.Unmarshal\<close> into \<^verbatim>\<open>interface{}\<close> values.  A
  document is parsed from its bytes.  Objects keep the last value of a repeated key, as the
  assignment to a Go map does; a number keeps its literal.  The parser runs on fuel and
  \<open>parse_json\<close> gives it enough for every input (\<open>fuel_enough\<close>).  A byte that is not
  part of a valid UTF-8 sequence inside a string literal becomes U+FFFD, as in Go.  The nesting
  limit of the Go decoder (10000) is not modelled.
\<close>

datatype json =
    JNull
  | JBool bool
  | JNum string
  | JStr string
  | JArr "json list"
  | JObj "(string \<times> json) list"

datatype json_error = JSyntax | JFuel

section \<open>Lexical level\<close>

definition is_ws :: "char \<Rightarrow> bool" where
  "is_ws c \<longleftrightarrow> byte_of c \<in> {32, 9, 10, 13}"

definition skip_ws :: "string \<Rightarrow> string" where
  "skip_ws s = dropWhile is_ws s"

definition hex_val :: "char \<Rightarrow> nat option" where
  "hex_val c = (let n = byte_of c in
     if 48 \<le> n \<and> n \<le> 57 then Some (n - 48)
     else if 97 \<le> n \<and> n \<le> 102 then Some (n - 87)
     else if 65 \<le> n \<and> n \<le> 70 then Some (n - 55) else None)"

definition hex4 :: "char \<Rightarrow> char \<Rightarrow> char \<Rightarrow> char \<Rightarrow> nat option" where
  "hex4 a b c d = (case (hex_val a, hex_val b, hex_val c, hex_val d) of
     (Some w, Some x, Some y, Some z) \<Rightarrow> Some (((w * 16 + x) * 16 + y) * 16 + z) | _ \<Rightarrow> None)"

definition utf8 :: "nat \<Rightarrow> string" where
  "utf8 n = map char_of
     (if n < 128 then [n]
      else if n < 2048 then [192 + n div 64, 128 + n mod 64]
      else if n < 65536 then [224 + n div 4096, 128 + n div 64 mod 64, 128 + n mod 64]
      else [240 + n div 262144, 128 + n div 4096 mod 64, 128 + n div 64 mod 64, 128 + n mod 64])"

definition simple_escape :: "char \<Rightarrow> nat option" where
  "simple_escape c = map_of [(CHR ''b'', 8), (CHR ''f'', 12), (CHR ''n'', 10), (CHR ''r'', 13),
     (CHR ''t'', 9), (CHR 0x22, 34), (CHR 0x5C, 92), (CHR ''/'', 47)] c"

text \<open>
  \<open>unescape\<close> reads what follows a backslash: the bytes it stands for and how many bytes of the
  input it takes.  A lone surrogate becomes U+FFFD, a pair the character it encodes.
\<close>

definition hex_at :: "nat \<Rightarrow> string \<Rightarrow> nat option" where
  "hex_at i s = (if i + 4 \<le> length s then hex4 (s ! i) (s ! (i + 1)) (s ! (i + 2)) (s ! (i + 3)) else None)"

definition low_surrogate :: "string \<Rightarrow> nat option" where
  "low_surrogate s = (if 7 \<le> length s \<and> s ! 5 = CHR 0x5C \<and> s ! 6 = CHR ''u'' then
     (case hex_at 7 s of Some m \<Rightarrow> if 56320 \<le> m \<and> m < 57344 then Some m else None | None \<Rightarrow> None)
     else None)"

definition unescape :: "string \<Rightarrow> (string \<times> nat) option" where
  "unescape s =
     (if s = [] then None
      else if hd s = CHR ''u'' then
        (case hex_at 1 s of
           None \<Rightarrow> None
         | Some n \<Rightarrow>
             if 55296 \<le> n \<and> n < 57344 then
               (case (n < 56320, low_surrogate s) of
                  (True, Some m) \<Rightarrow> Some (utf8 (65536 + (n - 55296) * 1024 + (m - 56320)), 11)
                | _ \<Rightarrow> Some (utf8 65533, 5))
             else Some (utf8 n, 5))
      else (case simple_escape (hd s) of None \<Rightarrow> None | Some n \<Rightarrow> Some ([char_of n], 1)))"

text \<open>
  The length of the valid UTF-8 sequence at the head of the input, 0 when there is none
  (\<^verbatim>\<open>utf8.DecodeRune\<close>).
\<close>

definition byte_in :: "nat \<Rightarrow> nat \<Rightarrow> nat \<Rightarrow> string \<Rightarrow> bool" where
  "byte_in i lo hi s \<longleftrightarrow> i < length s \<and> lo \<le> byte_of (s ! i) \<and> byte_of (s ! i) \<le> hi"

definition seq2 :: "string \<Rightarrow> bool" where
  "seq2 s \<longleftrightarrow> byte_in 0 194 223 s \<and> byte_in 1 128 191 s"

definition seq3 :: "string \<Rightarrow> bool" where
  "seq3 s \<longleftrightarrow> byte_in 0 224 239 s \<and> byte_in 1 128 191 s \<and> byte_in 2 128 191 s
     \<and> (byte_of (s ! 0) = 224 \<longrightarrow> 160 \<le> byte_of (s ! 1)) \<and> (byte_of (s ! 0) = 237 \<longrightarrow> byte_of (s ! 1) \<le> 159)"

definition seq4 :: "string \<Rightarrow> bool" where
  "seq4 s \<longleftrightarrow> byte_in 0 240 244 s \<and> byte_in 1 128 191 s \<and> byte_in 2 128 191 s \<and> byte_in 3 128 191 s
     \<and> (byte_of (s ! 0) = 240 \<longrightarrow> 144 \<le> byte_of (s ! 1)) \<and> (byte_of (s ! 0) = 244 \<longrightarrow> byte_of (s ! 1) \<le> 143)"

definition utf8_len :: "string \<Rightarrow> nat" where
  "utf8_len s = (if byte_in 0 0 127 s then 1 else if seq2 s then 2 else if seq3 s then 3
     else if seq4 s then 4 else 0)"

text \<open>
  One character of a string literal: the bytes it stands for and the number of bytes it takes
  after its first one.
\<close>

definition chunk :: "char \<Rightarrow> string \<Rightarrow> (string \<times> nat) option" where
  "chunk c r =
     (if c = CHR 0x5C then unescape r
      else if byte_of c < 32 then None
      else let n = utf8_len (c # r)
           in Some (if n = 0 then (utf8 65533, 0) else (take n (c # r), n - 1)))"

text \<open>The rest of a string literal, after its opening quote.\<close>

fun p_string :: "string \<Rightarrow> string \<Rightarrow> (string \<times> string) option" where
  "p_string [] acc = None"
| "p_string (c # r) acc =
     (if c = CHR 0x22 then Some (acc, r)
      else case chunk c r of None \<Rightarrow> None | Some (bs, n) \<Rightarrow> p_string (drop n r) (acc @ bs))"

definition next_is :: "char \<Rightarrow> string \<Rightarrow> bool" where
  "next_is c s \<longleftrightarrow> s \<noteq> [] \<and> hd s = c"

definition digits_part :: "string \<Rightarrow> (string \<times> string) option" where
  "digits_part s = (let d = takeWhile is_digit s in if d = [] then None else Some (d, dropWhile is_digit s))"

definition int_part :: "string \<Rightarrow> (string \<times> string) option" where
  "int_part s = (if next_is (CHR ''0'') s then Some (''0'', tl s) else digits_part s)"

definition frac_part :: "string \<Rightarrow> (string \<times> string) option" where
  "frac_part s = (if next_is (CHR ''.'') s
     then (case digits_part (tl s) of None \<Rightarrow> None | Some (d, r) \<Rightarrow> Some (CHR ''.'' # d, r))
     else Some ([], s))"

definition exp_part :: "string \<Rightarrow> (string \<times> string) option" where
  "exp_part s = (case s of
     c # r \<Rightarrow>
       if c = CHR ''e'' \<or> c = CHR ''E'' then
         (let (sg, r') = (case r of x # xs \<Rightarrow> if x = CHR ''+'' \<or> x = CHR ''-'' then ([x], xs) else ([], r)
                          | [] \<Rightarrow> ([], r))
          in case digits_part r' of None \<Rightarrow> None | Some (d, r'') \<Rightarrow> Some (c # sg @ d, r''))
       else Some ([], s)
   | [] \<Rightarrow> Some ([], s))"

definition p_number :: "string \<Rightarrow> (string \<times> string) option" where
  "p_number s =
     (let (sg, s1) = (if next_is (CHR ''-'') s then (''-'', tl s) else ('''', s)) in
      case int_part s1 of None \<Rightarrow> None | Some (i, s2) \<Rightarrow>
      (case frac_part s2 of None \<Rightarrow> None | Some (f, s3) \<Rightarrow>
      (case exp_part s3 of None \<Rightarrow> None | Some (x, s4) \<Rightarrow> Some (sg @ i @ f @ x, s4))))"

definition p_literal :: "string \<Rightarrow> json \<Rightarrow> string \<Rightarrow> (json_error, json \<times> string) res" where
  "p_literal w v s = (if has_prefix s w then Ok (v, drop (length w) s) else Err JSyntax)"

section \<open>Values\<close>

definition put :: "string \<Rightarrow> json \<Rightarrow> (string \<times> json) list \<Rightarrow> (string \<times> json) list" where
  "put k v kvs = filter (\<lambda>p. fst p \<noteq> k) kvs @ [(k, v)]"

fun p_value :: "nat \<Rightarrow> string \<Rightarrow> (json_error, json \<times> string) res"
and p_elems :: "nat \<Rightarrow> string \<Rightarrow> json list \<Rightarrow> (json_error, json \<times> string) res"
and p_members :: "nat \<Rightarrow> string \<Rightarrow> (string \<times> json) list \<Rightarrow> (json_error, json \<times> string) res"
where
  "p_value 0 s = Err JFuel"
| "p_value (Suc k) s =
     (case skip_ws s of
        [] \<Rightarrow> Err JSyntax
      | c # r \<Rightarrow>
          if c = CHR ''{'' then
            (if next_is (CHR ''}'') (skip_ws r) then Ok (JObj [], tl (skip_ws r)) else p_members k r [])
          else if c = CHR ''['' then
            (if next_is (CHR '']'') (skip_ws r) then Ok (JArr [], tl (skip_ws r)) else p_elems k r [])
          else if c = CHR 0x22 then
            (case p_string r [] of None \<Rightarrow> Err JSyntax | Some (t, r') \<Rightarrow> Ok (JStr t, r'))
          else if c = CHR ''t'' then p_literal ''true'' (JBool True) (c # r)
          else if c = CHR ''f'' then p_literal ''false'' (JBool False) (c # r)
          else if c = CHR ''n'' then p_literal ''null'' JNull (c # r)
          else (case p_number (c # r) of None \<Rightarrow> Err JSyntax | Some (t, r') \<Rightarrow> Ok (JNum t, r')))"
| "p_elems 0 s acc = Err JFuel"
| "p_elems (Suc k) s acc =
     (case p_value k s of
        Inl e \<Rightarrow> Inl e
      | Inr (v, r) \<Rightarrow>
          (case skip_ws r of
             c # r' \<Rightarrow>
               if c = CHR '','' then p_elems k r' (acc @ [v])
               else if c = CHR '']'' then Ok (JArr (acc @ [v]), r')
               else Err JSyntax
           | [] \<Rightarrow> Err JSyntax))"
| "p_members 0 s acc = Err JFuel"
| "p_members (Suc k) s acc =
     (if next_is (CHR 0x22) (skip_ws s) then
        (case p_string (tl (skip_ws s)) [] of
           None \<Rightarrow> Err JSyntax
         | Some (key, r1) \<Rightarrow>
             if next_is (CHR '':'') (skip_ws r1) then
               (case p_value k (tl (skip_ws r1)) of
                  Inl e \<Rightarrow> Inl e
                | Inr (v, r3) \<Rightarrow>
                    (case skip_ws r3 of
                       c # r4 \<Rightarrow>
                         if c = CHR '','' then p_members k r4 (put key v acc)
                         else if c = CHR ''}'' then Ok (JObj (put key v acc), r4)
                         else Err JSyntax
                     | [] \<Rightarrow> Err JSyntax))
             else Err JSyntax)
      else Err JSyntax)"

definition parse_json :: "string \<Rightarrow> json option" where
  "parse_json s = (case p_value (Suc (2 * length s)) s of
     Inr (v, r) \<Rightarrow> if skip_ws r = [] then Some v else None | Inl _ \<Rightarrow> None)"

text \<open>
  \<^verbatim>\<open>json.Unmarshal\<close> into a \<^verbatim>\<open>map[string]interface{}\<close>: only an object, or \<^verbatim>\<open>null\<close>, which leaves the
  map nil (no keys), is accepted.
\<close>

definition unmarshal_map :: "string \<Rightarrow> (string \<times> json) list option" where
  "unmarshal_map s = (case parse_json s of Some (JObj kvs) \<Rightarrow> Some kvs | Some JNull \<Rightarrow> Some [] | _ \<Rightarrow> None)"

section \<open>The fuel is enough\<close>

lemma skip_ws_length: "length (skip_ws s) \<le> length s"
  by (simp add: skip_ws_def length_dropWhile_le)

lemma skip_ws_Cons: "skip_ws s = c # r \<Longrightarrow> length r < length s"
  using skip_ws_length[of s] by simp

lemma next_is_tl: "next_is c (skip_ws s) \<Longrightarrow> length (tl (skip_ws s)) < length s"
  using skip_ws_length[of s] by (cases "skip_ws s") (auto simp: next_is_def)

lemma p_string_length: "p_string s acc = Some (t, r) \<Longrightarrow> length r < length s"
proof (induction s acc rule: p_string.induct)
  case (2 c s acc)
  then show ?case by (fastforce split: if_splits option.splits)
qed simp

lemma digits_part_length: "digits_part s = Some (d, r) \<Longrightarrow> length r < length s"
  by (cases s) (auto simp: digits_part_def Let_def less_Suc_eq_le length_dropWhile_le split: if_splits)

lemma p_number_length: "p_number s = Some (t, r) \<Longrightarrow> length r < length s"
proof -
  have i: "int_part s = Some (d, r) \<Longrightarrow> length r < length s" for s d r
    by (cases s) (auto simp: int_part_def next_is_def dest: digits_part_length split: if_splits)
  have f: "frac_part s = Some (d, r) \<Longrightarrow> length r \<le> length s" for s d r
    by (cases s) (auto simp: frac_part_def next_is_def dest!: digits_part_length split: if_splits option.splits)
  have x: "exp_part s = Some (d, r) \<Longrightarrow> length r \<le> length s" for s d r
    by (auto simp: exp_part_def dest!: digits_part_length split: list.splits if_splits option.splits)
  show "p_number s = Some (t, r) \<Longrightarrow> length r < length s"
    unfolding p_number_def Let_def
    by (cases s) (auto simp: next_is_def dest!: i f x split: option.splits if_splits)
qed

lemma p_literal_length: "w \<noteq> [] \<Longrightarrow> p_literal w v s = Inr (u, r) \<Longrightarrow> length r < length s"
  by (auto simp: p_literal_def has_prefix_iff prefix_def split: if_splits)

lemma p_literal_no_fuel: "p_literal w v s \<noteq> Inl JFuel"
  by (simp add: p_literal_def)

lemma p_atom_length:
  assumes "p_string r0 [] = Some (t, r) \<or> p_literal w v (c # r0) = Inr (u, r) \<and> w \<noteq> []
    \<or> p_number (c # r0) = Some (t, r)"
  shows "length r \<le> length r0"
  using assms by (auto dest: p_string_length p_number_length p_literal_length)

lemma parser_consumes:
  "p_value k s = Inr (v, r) \<Longrightarrow> length r < length s"
  "p_elems k s acc = Inr (v, r) \<Longrightarrow> length r < length s"
  "p_members k s acc' = Inr (v, r) \<Longrightarrow> length r < length s"
proof (induction k s and k s acc and k s acc' arbitrary: v r and v r and v r
    rule: p_value_p_elems_p_members.induct)
  case (2 k s)
  then obtain c r0 where c: "skip_ws s = c # r0" by (auto split: list.splits)
  note l = skip_ws_Cons[OF c] and nt = next_is_tl[of _ r0]
  show ?case
  proof (cases "c = CHR ''{'' \<or> c = CHR ''[''")
    case True
    then show ?thesis using 2(3) 2(1,2)[OF c] c l nt by (fastforce split: if_splits)
  next
    case False
    then have "length r \<le> length r0"
      using 2(3) c by (auto split: if_splits option.splits intro: p_atom_length)
    then show ?thesis using l by simp
  qed
next
  case (4 k s acc)
  then show ?case
    by (fastforce split: list.splits if_splits sum.splits dest: skip_ws_Cons)
next
  case (6 k s acc)
  then show ?case
    by (fastforce split: list.splits if_splits sum.splits option.splits
        dest: skip_ws_Cons next_is_tl p_string_length)
qed auto

lemma fuel_enough:
  "2 * length s + 1 \<le> k \<Longrightarrow> p_value k s \<noteq> Inl JFuel"
  "2 * length s + 2 \<le> k \<Longrightarrow> p_elems k s acc \<noteq> Inl JFuel"
  "2 * length s + 2 \<le> k \<Longrightarrow> p_members k s acc' \<noteq> Inl JFuel"
proof (induction k s and k s acc and k s acc' rule: p_value_p_elems_p_members.induct)
  case (2 k s)
  show ?case
  proof (cases "skip_ws s")
    case (Cons c r0)
    note l = skip_ws_Cons[OF Cons]
    show ?thesis
    proof (cases "c = CHR ''{'' \<or> c = CHR ''[''")
      case True
      then show ?thesis using 2(3) 2(1,2)[OF Cons] Cons l by auto
    next
      case False
      then show ?thesis using Cons p_literal_no_fuel by (auto split: option.splits)
    qed
  qed simp
next
  case (4 k s acc)
  show ?case
  proof (cases "p_value k s")
    case (Inl e)
    then show ?thesis using 4 by auto
  next
    case (Inr a)
    then obtain v r where a: "p_value k s = Inr (v, r)" by (cases a) auto
    then have "length r < length s" by (rule parser_consumes)
    then show ?thesis using 4(2)[OF a refl _ refl] 4(3) a
      by (cases "skip_ws r") (auto dest: skip_ws_Cons)
  qed
next
  case (6 k s acc)
  show ?case
  proof (cases "next_is (CHR 0x22) (skip_ws s)")
    case True
    note l1 = next_is_tl[OF True]
    show ?thesis
    proof (cases "p_string (tl (skip_ws s)) []")
      case (Some a)
      then obtain key r1 where k: "p_string (tl (skip_ws s)) [] = Some (key, r1)" by (cases a) auto
      note l2 = p_string_length[OF k]
      show ?thesis
      proof (cases "next_is (CHR '':'') (skip_ws r1)")
        case c: True
        note l3 = next_is_tl[OF c]
        show ?thesis
        proof (cases "p_value k (tl (skip_ws r1))")
          case (Inl e)
          then show ?thesis using 6 True k c l1 l2 l3 by auto
        next
          case (Inr a)
          then obtain v r3 where v: "p_value k (tl (skip_ws r1)) = Inr (v, r3)" by (cases a) auto
          note l4 = parser_consumes(1)[OF v]
          show ?thesis using 6(2)[OF True k refl c v refl _ refl] 6(3) True k c v l1 l2 l3 l4
            by (cases "skip_ws r3") (auto dest: skip_ws_Cons)
        qed
      qed (use True k in simp)
    qed (use True in simp)
  qed simp
qed auto

lemma parse_json_fuel: "p_value (Suc (2 * length s)) s \<noteq> Inl JFuel"
  using fuel_enough(1)[of s "Suc (2 * length s)"] by simp

section \<open>Objects as maps\<close>

definition jlookup :: "(string \<times> json) list \<Rightarrow> string \<Rightarrow> json option" where
  "jlookup kvs k = map_of kvs k"

lemma put_lookup: "jlookup (put k v kvs) = (jlookup kvs)(k \<mapsto> v)"
proof
  fix x
  have "map_of (filter (\<lambda>p. fst p \<noteq> k) kvs) x = (if x = k then None else map_of kvs x)"
    by (induction kvs) auto
  then show "jlookup (put k v kvs) x = ((jlookup kvs)(k \<mapsto> v)) x"
    by (simp add: jlookup_def put_def map_add_def split: option.splits)
qed

lemma put_distinct: "distinct (map fst kvs) \<Longrightarrow> distinct (map fst (put k v kvs))"
  by (auto simp: put_def distinct_map_filter)

section \<open>Decoded strings are UTF-8\<close>

text \<open>What the policy check needs of it: a byte above 244 occurs in no decoded string.\<close>

lemma utf8_bytes: "n < 1114112 \<Longrightarrow> c \<in> set (utf8 n) \<Longrightarrow> byte_of c \<le> 244"
proof -
  assume n: "n < 1114112"
  have "n div 64 mod 64 < 64" "n mod 64 < 64" "n div 4096 mod 64 < 64" by simp_all
  moreover have "n < 2048 \<Longrightarrow> n div 64 < 32" "n < 65536 \<Longrightarrow> n div 4096 < 16" "n div 262144 < 5"
    using n by simp_all
  ultimately show "c \<in> set (utf8 n) \<Longrightarrow> byte_of c \<le> 244"
    by (auto simp: utf8_def byte_of_char_of split: if_splits)
qed

lemma hex4_lt: "hex4 a b c d = Some n \<Longrightarrow> n < 65536"
proof -
  have "hex_val c = Some n \<Longrightarrow> n < 16" for c n
    by (auto simp: hex_val_def Let_def split: if_splits)
  then have "hex_val a = Some w \<Longrightarrow> hex_val b = Some x \<Longrightarrow> hex_val c = Some y \<Longrightarrow> hex_val d = Some z \<Longrightarrow>
     w < 16 \<and> x < 16 \<and> y < 16 \<and> z < 16" for w x y z by blast
  then show "hex4 a b c d = Some n \<Longrightarrow> n < 65536"
    by (fastforce simp: hex4_def split: option.splits)
qed

lemma unescape_bytes: "unescape s = Some (bs, n) \<Longrightarrow> c \<in> set bs \<Longrightarrow> byte_of c \<le> 244"
proof -
  assume u: "unescape s = Some (bs, n)" and c: "c \<in> set bs"
  have h: "hex_at i s = Some m \<Longrightarrow> m < 65536" for i m
    by (auto simp: hex_at_def dest: hex4_lt split: if_splits)
  have l: "low_surrogate s = Some m \<Longrightarrow> 56320 \<le> m \<and> m < 57344" for m
    by (auto simp: low_surrogate_def split: if_splits option.splits)
  show ?thesis
  proof (cases "hd s = CHR ''u''")
    case True
    then obtain m where m: "hex_at 1 s = Some m" using u by (auto simp: unescape_def split: if_splits option.splits)
    have "\<exists>k < 1114112. bs = utf8 k"
    proof (cases "55296 \<le> m \<and> m < 56320 \<and> low_surrogate s \<noteq> None")
      case hl: True
      then obtain k where k: "low_surrogate s = Some k" by blast
      then have "bs = utf8 (65536 + (m - 55296) * 1024 + (k - 56320))"
        using True m u hl by (auto simp: unescape_def split: if_splits)
      moreover have "65536 + (m - 55296) * 1024 + (k - 56320) < 1114112" using l[OF k] hl by linarith
      ultimately show ?thesis by blast
    next
      case False
      then have "bs = utf8 65533 \<or> bs = utf8 m"
        using True m u by (auto simp: unescape_def split: if_splits option.splits bool.splits)
      moreover have "m < 1114112" using h[OF m] by simp
      ultimately show ?thesis by (elim disjE) (rule exI[of _ 65533], simp, blast)
    qed
    then show ?thesis using utf8_bytes c by blast
  next
    case False
    then obtain k where k: "simple_escape (hd s) = Some k" "bs = [char_of k]"
      using u by (auto simp: unescape_def split: if_splits option.splits)
    then have "k < 244" by (auto simp: simple_escape_def split: if_splits)
    then show ?thesis using k c by simp
  qed
qed

lemma utf8_len_bytes: "c \<in> set (take (utf8_len s) s) \<Longrightarrow> byte_of c \<le> 244"
proof -
  have le: "utf8_len s \<le> 4" by (simp add: utf8_len_def)
  have "0 < utf8_len s \<Longrightarrow> byte_of (s ! 0) \<le> 244" "1 < utf8_len s \<Longrightarrow> byte_of (s ! 1) \<le> 244"
    "2 < utf8_len s \<Longrightarrow> byte_of (s ! 2) \<le> 244" "3 < utf8_len s \<Longrightarrow> byte_of (s ! 3) \<le> 244"
    by (auto simp: utf8_len_def seq2_def seq3_def seq4_def byte_in_def split: if_splits)
  moreover have "i < utf8_len s \<Longrightarrow> i = 0 \<or> i = 1 \<or> i = 2 \<or> i = 3" for i using le by linarith
  ultimately have "i < utf8_len s \<Longrightarrow> byte_of (s ! i) \<le> 244" for i by metis
  then show "c \<in> set (take (utf8_len s) s) \<Longrightarrow> byte_of c \<le> 244"
    by (auto simp: in_set_conv_nth)
qed

lemma chunk_bytes: "chunk c r = Some (bs, n) \<Longrightarrow> x \<in> set bs \<Longrightarrow> byte_of x \<le> 244"
  using utf8_len_bytes[of x "c # r"] utf8_bytes[of 65533 x] unescape_bytes[of r bs n x]
  by (auto simp del: take_Cons' simp: chunk_def Let_def split: if_splits)

lemma p_string_bytes:
  "p_string s acc = Some (t, r) \<Longrightarrow> \<forall>c\<in>set acc. byte_of c \<le> 244 \<Longrightarrow> \<forall>c\<in>set t. byte_of c \<le> 244"
proof (induction s acc rule: p_string.induct)
  case (2 c s acc)
  then show ?case by (fastforce dest: chunk_bytes split: if_splits option.splits)
qed simp

end
