(* ===== verification/Events.thy ===== *)
theory Events
  imports Constants Json
begin

text \<open>
  The Nostr event as the sources use it (\<^verbatim>\<open>nostr.Event\<close> of the go-nostr package is a struct of
  seven fields; a tag is a list of strings), and the scans over tags that several packages
  share.  Signatures, bech32 decoding and hashing belong to third-party packages and are
  parameters of the definitions that use them.
\<close>

type_synonym tag = "string list"

record event =
  ev_id :: string
  ev_pubkey :: string
  ev_created_at :: int
  ev_kind :: int
  ev_tags :: "tag list"
  ev_content :: string
  ev_sig :: string

text \<open>The test \<^verbatim>\<open>len(tag) >= 2 && tag[0] == k\<close> and the value it guards.\<close>

definition tag_is :: "string \<Rightarrow> tag \<Rightarrow> bool" where
  "tag_is k t \<longleftrightarrow> length t \<ge> 2 \<and> t ! 0 = k"

definition tag_vals :: "string \<Rightarrow> tag list \<Rightarrow> string list" where
  "tag_vals k ts = map (\<lambda>t. t ! 1) (filter (tag_is k) ts)"

text \<open>A variable that every matching tag overwrites, and one that the first match sets.\<close>

definition last_tag :: "string \<Rightarrow> tag list \<Rightarrow> string" where
  "last_tag k ts = (if tag_vals k ts = [] then [] else last (tag_vals k ts))"

definition first_tag :: "string \<Rightarrow> tag list \<Rightarrow> string" where
  "first_tag k ts = (case tag_vals k ts of [] \<Rightarrow> [] | v # _ \<Rightarrow> v)"

definition has_dnn_tag :: "tag list \<Rightarrow> bool" where
  "has_dnn_tag ts \<longleftrightarrow> list_ex (\<lambda>t. tag_is ''t'' t \<and> t ! 1 = ''DNN'') ts"

lemma tag_vals_append [simp]: "tag_vals k (ts @ us) = tag_vals k ts @ tag_vals k us"
  by (simp add: tag_vals_def)

lemma tag_vals_Nil [simp]: "tag_vals k [] = []"
  by (simp add: tag_vals_def)

lemma tag_vals_Cons [simp]:
  "tag_vals k (t # ts) = (if tag_is k t then t ! 1 # tag_vals k ts else tag_vals k ts)"
  by (simp add: tag_vals_def)

lemma in_tag_vals: "v \<in> set (tag_vals k ts) \<longleftrightarrow> (\<exists>t\<in>set ts. tag_is k t \<and> t ! 1 = v)"
  by (auto simp: tag_vals_def)

lemma has_dnn_tag_vals: "has_dnn_tag ts \<longleftrightarrow> ''DNN'' \<in> set (tag_vals ''t'' ts)"
  by (auto simp: has_dnn_tag_def in_tag_vals list_ex_iff)

lemma last_tag_in: "last_tag k ts \<noteq> [] \<Longrightarrow> last_tag k ts \<in> set (tag_vals k ts)"
  by (auto simp: last_tag_def split: if_splits)

end
