(* ===== verification/Wordlist.thy ===== *)
theory Wordlist
  imports Prelude
begin

text \<open>
  The word list of \<^verbatim>\<open>src/internal/encoder/bip39_wordlist.go\<close> in twenty blocks of at most a
  hundred words, and the one fact the codec needs of it: between neighbouring words there is
  a first byte at which they differ, and there the earlier word has the smaller byte.  That
  relation is transitive, so no word of the list is a prefix of another one.
\<close>

definition bip39_01 :: "string list" where
  "bip39_01 = [
     ''abandon'', ''ability'', ''able'', ''about'', ''above'', ''absent'', ''absorb'', ''abstract'',
     ''absurd'', ''abuse'', ''access'', ''accident'', ''account'', ''accuse'', ''achieve'', ''acid'',
     ''acoustic'', ''acquire'', ''across'', ''action'', ''actor'', ''actress'', ''actual'', ''adapt'',
     ''addict'', ''address'', ''adjust'', ''admit'', ''adult'', ''advance'', ''advice'', ''aerobic'',
     ''affair'', ''afford'', ''afraid'', ''again'', ''agent'', ''agree'', ''ahead'', ''aim'',
     ''airport'', ''aisle'', ''alarm'', ''album'', ''alcohol'', ''alert'', ''alien'', ''alley'',
     ''allow'', ''almost'', ''alone'', ''alpha'', ''already'', ''also'', ''alter'', ''always'',
     ''amateur'', ''amazing'', ''among'', ''amount'', ''amused'', ''analyst'', ''anchor'', ''ancient'',
     ''anger'', ''angle'', ''angry'', ''animal'', ''ankle'', ''announce'', ''annual'', ''another'',
     ''answer'', ''antenna'', ''antique'', ''anxiety'', ''any'', ''apart'', ''apology'', ''appear'',
     ''apple'', ''approve'', ''april'', ''arch'', ''arctic'', ''area'', ''arena'', ''argue'',
     ''armed'', ''armor'', ''army'', ''around'', ''arrange'', ''arrest'', ''arrive'', ''arrow'',
     ''artefact'', ''artist'', ''artwork'', ''ask'']"

definition bip39_02 :: "string list" where
  "bip39_02 = [
     ''aspect'', ''assault'', ''asset'', ''assist'', ''assume'', ''asthma'', ''athlete'', ''atom'',
     ''attack'', ''attend'', ''attitude'', ''attract'', ''auction'', ''audit'', ''august'', ''aunt'',
     ''author'', ''auto'', ''autumn'', ''average'', ''avocado'', ''avoid'', ''awake'', ''aware'',
     ''away'', ''awesome'', ''awful'', ''awkward'', ''axis'', ''baby'', ''bachelor'', ''bacon'',
     ''badge'', ''bag'', ''balance'', ''balcony'', ''ball'', ''bamboo'', ''banana'', ''banner'',
     ''barely'', ''bargain'', ''barrel'', ''base'', ''basic'', ''basket'', ''battle'', ''beach'',
     ''bean'', ''beauty'', ''because'', ''become'', ''beef'', ''before'', ''begin'', ''behave'',
     ''behind'', ''believe'', ''below'', ''belt'', ''bench'', ''benefit'', ''best'', ''betray'',
     ''better'', ''between'', ''beyond'', ''bicycle'', ''bid'', ''bike'', ''bind'', ''biology'',
     ''bird'', ''birth'', ''bitter'', ''black'', ''blade'', ''blame'', ''blanket'', ''blast'',
     ''bleak'', ''bless'', ''blind'', ''blood'', ''blossom'', ''blouse'', ''blue'', ''blur'',
     ''blush'', ''board'', ''boat'', ''body'', ''boil'', ''bomb'', ''bone'', ''bonus'',
     ''book'', ''boost'', ''border'', ''boring'']"

definition bip39_03 :: "string list" where
  "bip39_03 = [
     ''borrow'', ''boss'', ''bottom'', ''bounce'', ''box'', ''boy'', ''bracket'', ''brain'',
     ''brand'', ''brass'', ''brave'', ''bread'', ''breeze'', ''brick'', ''bridge'', ''brief'',
     ''bright'', ''bring'', ''brisk'', ''broccoli'', ''broken'', ''bronze'', ''broom'', ''brother'',
     ''brown'', ''brush'', ''bubble'', ''buddy'', ''budget'', ''buffalo'', ''build'', ''bulb'',
     ''bulk'', ''bullet'', ''bundle'', ''bunker'', ''burden'', ''burger'', ''burst'', ''business'',
     ''busy'', ''butter'', ''buyer'', ''buzz'', ''cabbage'', ''cabin'', ''cable'', ''cactus'',
     ''cage'', ''cake'', ''call'', ''calm'', ''camera'', ''camp'', ''canal'', ''cancel'',
     ''candy'', ''cannon'', ''canoe'', ''canvas'', ''canyon'', ''capable'', ''capital'', ''captain'',
     ''carbon'', ''card'', ''cargo'', ''carpet'', ''carry'', ''cart'', ''case'', ''cash'',
     ''casino'', ''castle'', ''casual'', ''catalog'', ''catch'', ''category'', ''cattle'', ''caught'',
     ''cause'', ''caution'', ''cave'', ''ceiling'', ''celery'', ''cement'', ''census'', ''century'',
     ''cereal'', ''certain'', ''chair'', ''chalk'', ''champion'', ''change'', ''chaos'', ''chapter'',
     ''charge'', ''chase'', ''chat'', ''cheap'']"

definition bip39_04 :: "string list" where
  "bip39_04 = [
     ''check'', ''cheese'', ''chef'', ''cherry'', ''chest'', ''chicken'', ''chief'', ''child'',
     ''chimney'', ''choice'', ''choose'', ''chronic'', ''chuckle'', ''chunk'', ''churn'', ''cigar'',
     ''cinnamon'', ''circle'', ''citizen'', ''city'', ''civil'', ''claim'', ''clap'', ''clarify'',
     ''claw'', ''clay'', ''clean'', ''clerk'', ''clever'', ''click'', ''client'', ''cliff'',
     ''climb'', ''clinic'', ''clip'', ''clock'', ''clog'', ''close'', ''cloth'', ''cloud'',
     ''clown'', ''club'', ''clump'', ''cluster'', ''clutch'', ''coach'', ''coast'', ''coconut'',
     ''code'', ''coffee'', ''coil'', ''coin'', ''collect'', ''color'', ''column'', ''combine'',
     ''come'', ''comfort'', ''comic'', ''common'', ''company'', ''concert'', ''conduct'', ''confirm'',
     ''congress'', ''connect'', ''consider'', ''control'', ''convince'', ''cook'', ''cool'', ''copper'',
     ''copy'', ''coral'', ''core'', ''corn'', ''correct'', ''cost'', ''cotton'', ''couch'',
     ''country'', ''couple'', ''course'', ''cousin'', ''cover'', ''coyote'', ''crack'', ''cradle'',
     ''craft'', ''cram'', ''crane'', ''crash'', ''crater'', ''crawl'', ''crazy'', ''cream'',
     ''credit'', ''creek'', ''crew'', ''cricket'']"

definition bip39_05 :: "string list" where
  "bip39_05 = [
     ''crime'', ''crisp'', ''critic'', ''crop'', ''cross'', ''crouch'', ''crowd'', ''crucial'',
     ''cruel'', ''cruise'', ''crumble'', ''crunch'', ''crush'', ''crystal'', ''cube'', ''culture'',
     ''cupboard'', ''curious'', ''current'', ''curtain'', ''curve'', ''cushion'', ''custom'', ''cute'',
     ''cycle'', ''dad'', ''damage'', ''damp'', ''dance'', ''danger'', ''daring'', ''dash'',
     ''daughter'', ''dawn'', ''day'', ''deal'', ''debate'', ''debris'', ''decade'', ''december'',
     ''decide'', ''decline'', ''decorate'', ''decrease'', ''deer'', ''defense'', ''define'', ''defy'',
     ''degree'', ''delay'', ''deliver'', ''demand'', ''demise'', ''denial'', ''dentist'', ''deny'',
     ''depart'', ''depend'', ''deposit'', ''depth'', ''deputy'', ''derive'', ''describe'', ''desert'',
     ''design'', ''desk'', ''despair'', ''destroy'', ''detail'', ''detect'', ''develop'', ''device'',
     ''devote'', ''diagram'', ''dial'', ''diamond'', ''diary'', ''dice'', ''diesel'', ''diet'',
     ''differ'', ''digital'', ''dignity'', ''dilemma'', ''dinner'', ''dinosaur'', ''direct'', ''dirt'',
     ''disagree'', ''discover'', ''disease'', ''dish'', ''dismiss'', ''disorder'', ''display'', ''distance'',
     ''divert'', ''divide'', ''divorce'', ''dizzy'']"

definition bip39_06 :: "string list" where
  "bip39_06 = [
     ''doctor'', ''document'', ''dog'', ''doll'', ''dolphin'', ''domain'', ''donate'', ''donkey'',
     ''donor'', ''door'', ''dose'', ''double'', ''dove'', ''draft'', ''dragon'', ''drama'',
     ''drastic'', ''draw'', ''dream'', ''dress'', ''drift'', ''drill'', ''drink'', ''drip'',
     ''drive'', ''drop'', ''drum'', ''dry'', ''duck'', ''dumb'', ''dune'', ''during'',
     ''dust'', ''dutch'', ''duty'', ''dwarf'', ''dynamic'', ''eager'', ''eagle'', ''early'',
     ''earn'', ''earth'', ''easily'', ''east'', ''easy'', ''echo'', ''ecology'', ''economy'',
     ''edge'', ''edit'', ''educate'', ''effort'', ''egg'', ''eight'', ''either'', ''elbow'',
     ''elder'', ''electric'', ''elegant'', ''element'', ''elephant'', ''elevator'', ''elite'', ''else'',
     ''embark'', ''embody'', ''embrace'', ''emerge'', ''emotion'', ''employ'', ''empower'', ''empty'',
     ''enable'', ''enact'', ''endless'', ''endorse'', ''enemy'', ''energy'', ''enforce'', ''engage'',
     ''engine'', ''enhance'', ''enjoy'', ''enlist'', ''enough'', ''enrich'', ''enroll'', ''ensure'',
     ''enter'', ''entire'', ''entry'', ''envelope'', ''episode'', ''equal'', ''equip'', ''erase'',
     ''erode'', ''erosion'', ''error'', ''erupt'']"

definition bip39_07 :: "string list" where
  "bip39_07 = [
     ''escape'', ''essay'', ''essence'', ''estate'', ''eternal'', ''ethics'', ''evidence'', ''evil'',
     ''evoke'', ''evolve'', ''exact'', ''example'', ''excess'', ''exchange'', ''excite'', ''exclude'',
     ''excuse'', ''execute'', ''exercise'', ''exhaust'', ''exhibit'', ''exile'', ''exist'', ''exit'',
     ''exotic'', ''expand'', ''expect'', ''expire'', ''explain'', ''expose'', ''express'', ''extend'',
     ''extra'', ''eyebrow'', ''fabric'', ''face'', ''faculty'', ''fade'', ''faint'', ''faith'',
     ''fall'', ''false'', ''fame'', ''family'', ''famous'', ''fancy'', ''fantasy'', ''farm'',
     ''fashion'', ''fatal'', ''father'', ''fatigue'', ''fault'', ''favorite'', ''feature'', ''february'',
     ''federal'', ''feed'', ''feel'', ''female'', ''fence'', ''festival'', ''fetch'', ''fever'',
     ''few'', ''fiber'', ''fiction'', ''field'', ''figure'', ''file'', ''film'', ''filter'',
     ''final'', ''find'', ''fine'', ''finger'', ''finish'', ''fire'', ''firm'', ''first'',
     ''fiscal'', ''fish'', ''fitness'', ''fix'', ''flag'', ''flame'', ''flash'', ''flat'',
     ''flavor'', ''flee'', ''flight'', ''flip'', ''float'', ''flock'', ''floor'', ''flower'',
     ''fluid'', ''flush'', ''fly'', ''foam'']"

definition bip39_08 :: "string list" where
  "bip39_08 = [
     ''focus'', ''fog'', ''foil'', ''fold'', ''follow'', ''food'', ''foot'', ''force'',
     ''forest'', ''forget'', ''fork'', ''fortune'', ''forum'', ''forward'', ''fossil'', ''foster'',
     ''found'', ''fox'', ''fragile'', ''frame'', ''frequent'', ''fresh'', ''friend'', ''fringe'',
     ''frog'', ''front'', ''frost'', ''frown'', ''frozen'', ''fruit'', ''fuel'', ''funny'',
     ''furnace'', ''fury'', ''future'', ''gadget'', ''gain'', ''galaxy'', ''gallery'', ''game'',
     ''gap'', ''garage'', ''garbage'', ''garden'', ''garlic'', ''garment'', ''gasp'', ''gate'',
     ''gather'', ''gauge'', ''gaze'', ''general'', ''genius'', ''genre'', ''gentle'', ''genuine'',
     ''gesture'', ''ghost'', ''giant'', ''gift'', ''giggle'', ''ginger'', ''giraffe'', ''girl'',
     ''give'', ''glad'', ''glance'', ''glare'', ''glass'', ''glide'', ''glimpse'', ''globe'',
     ''gloom'', ''glory'', ''glove'', ''glow'', ''glue'', ''goat'', ''goddess'', ''gold'',
     ''good'', ''goose'', ''gorilla'', ''gospel'', ''gossip'', ''govern'', ''gown'', ''grab'',
     ''grace'', ''grain'', ''grant'', ''grape'', ''grass'', ''gravity'', ''great'', ''green'',
     ''grid'', ''grief'', ''grit'', ''grocery'']"

definition bip39_09 :: "string list" where
  "bip39_09 = [
     ''group'', ''grow'', ''grunt'', ''guard'', ''guess'', ''guide'', ''guilt'', ''guitar'',
     ''gun'', ''gym'', ''habit'', ''hair'', ''half'', ''hammer'', ''hamster'', ''hand'',
     ''happy'', ''harbor'', ''hard'', ''harsh'', ''harvest'', ''hat'', ''have'', ''hawk'',
     ''hazard'', ''head'', ''health'', ''heart'', ''heavy'', ''hedgehog'', ''height'', ''hello'',
     ''helmet'', ''help'', ''hen'', ''hero'', ''hidden'', ''high'', ''hill'', ''hint'',
     ''hip'', ''hire'', ''history'', ''hobby'', ''hockey'', ''hold'', ''hole'', ''holiday'',
     ''hollow'', ''home'', ''honey'', ''hood'', ''hope'', ''horn'', ''horror'', ''horse'',
     ''hospital'', ''host'', ''hotel'', ''hour'', ''hover'', ''hub'', ''huge'', ''human'',
     ''humble'', ''humor'', ''hundred'', ''hungry'', ''hunt'', ''hurdle'', ''hurry'', ''hurt'',
     ''husband'', ''hybrid'', ''ice'', ''icon'', ''idea'', ''identify'', ''idle'', ''ignore'',
     ''illegal'', ''illness'', ''image'', ''imitate'', ''immense'', ''immune'', ''impact'', ''impose'',
     ''improve'', ''impulse'', ''inch'', ''include'', ''income'', ''increase'', ''index'', ''indicate'',
     ''indoor'', ''industry'', ''infant'', ''inflict'']"

definition bip39_10 :: "string list" where
  "bip39_10 = [
     ''inform'', ''inhale'', ''inherit'', ''initial'', ''inject'', ''injury'', ''inmate'', ''inner'',
     ''innocent'', ''input'', ''inquiry'', ''insane'', ''insect'', ''inside'', ''inspire'', ''install'',
     ''intact'', ''interest'', ''into'', ''invest'', ''invite'', ''involve'', ''iron'', ''island'',
     ''isolate'', ''issue'', ''item'', ''ivory'', ''jacket'', ''jaguar'', ''jar'', ''jazz'',
     ''jealous'', ''jeans'', ''jelly'', ''jewel'', ''job'', ''join'', ''joke'', ''journey'',
     ''joy'', ''judge'', ''juice'', ''jump'', ''jungle'', ''junior'', ''junk'', ''just'',
     ''kangaroo'', ''keen'', ''keep'', ''ketchup'', ''key'', ''kick'', ''kidney'', ''kind'',
     ''kingdom'', ''kiss'', ''kitchen'', ''kite'', ''kitten'', ''kiwi'', ''knee'', ''knife'',
     ''knock'', ''know'', ''label'', ''labor'', ''ladder'', ''lady'', ''lake'', ''lamp'',
     ''language'', ''laptop'', ''large'', ''later'', ''latin'', ''laugh'', ''laundry'', ''lava'',
     ''lawn'', ''lawsuit'', ''layer'', ''lazy'', ''leader'', ''leaf'', ''learn'', ''leave'',
     ''lecture'', ''left'', ''legal'', ''legend'', ''leisure'', ''lemon'', ''lend'', ''length'',
     ''lens'', ''leopard'', ''lesson'', ''letter'']"

definition bip39_11 :: "string list" where
  "bip39_11 = [
     ''level'', ''liar'', ''liberty'', ''library'', ''license'', ''life'', ''lift'', ''light'',
     ''like'', ''limb'', ''limit'', ''link'', ''lion'', ''liquid'', ''list'', ''little'',
     ''live'', ''lizard'', ''load'', ''loan'', ''lobster'', ''local'', ''lock'', ''logic'',
     ''lonely'', ''long'', ''loop'', ''lottery'', ''loud'', ''lounge'', ''love'', ''loyal'',
     ''lucky'', ''luggage'', ''lumber'', ''lunar'', ''lunch'', ''luxury'', ''lyrics'', ''machine'',
     ''mad'', ''magic'', ''magnet'', ''maid'', ''mail'', ''main'', ''major'', ''make'',
     ''mammal'', ''manage'', ''mandate'', ''mango'', ''mansion'', ''manual'', ''maple'', ''marble'',
     ''march'', ''margin'', ''marine'', ''market'', ''marriage'', ''mask'', ''mass'', ''master'',
     ''match'', ''material'', ''math'', ''matrix'', ''matter'', ''maximum'', ''maze'', ''meadow'',
     ''mean'', ''measure'', ''meat'', ''mechanic'', ''medal'', ''media'', ''melody'', ''melt'',
     ''member'', ''memory'', ''mention'', ''menu'', ''mercy'', ''merge'', ''merit'', ''merry'',
     ''mesh'', ''message'', ''metal'', ''method'', ''middle'', ''midnight'', ''milk'', ''million'',
     ''mimic'', ''mind'', ''minimum'', ''minor'']"

definition bip39_12 :: "string list" where
  "bip39_12 = [
     ''minute'', ''miracle'', ''mirror'', ''misery'', ''miss'', ''mistake'', ''mixed'', ''mixture'',
     ''mobile'', ''model'', ''modify'', ''moment'', ''monitor'', ''monkey'', ''monster'', ''month'',
     ''moon'', ''moral'', ''more'', ''morning'', ''mosquito'', ''mother'', ''motion'', ''motor'',
     ''mountain'', ''mouse'', ''move'', ''movie'', ''much'', ''muffin'', ''mule'', ''multiply'',
     ''muscle'', ''museum'', ''mushroom'', ''music'', ''must'', ''mutual'', ''myself'', ''mystery'',
     ''myth'', ''naive'', ''name'', ''napkin'', ''narrow'', ''nasty'', ''nation'', ''nature'',
     ''near'', ''neck'', ''need'', ''negative'', ''neglect'', ''neither'', ''nephew'', ''nerve'',
     ''nest'', ''network'', ''neutral'', ''never'', ''news'', ''next'', ''nice'', ''night'',
     ''noble'', ''noise'', ''nominee'', ''noodle'', ''normal'', ''north'', ''nose'', ''notable'',
     ''note'', ''nothing'', ''notice'', ''novel'', ''now'', ''nuclear'', ''number'', ''nurse'',
     ''nut'', ''oak'', ''obey'', ''object'', ''oblige'', ''obscure'', ''observe'', ''obtain'',
     ''obvious'', ''occur'', ''ocean'', ''october'', ''odor'', ''offer'', ''office'', ''often'',
     ''oil'', ''okay'', ''old'', ''olive'']"

definition bip39_13 :: "string list" where
  "bip39_13 = [
     ''olympic'', ''omit'', ''once'', ''one'', ''onion'', ''online'', ''only'', ''open'',
     ''opera'', ''opinion'', ''oppose'', ''option'', ''orange'', ''orbit'', ''orchard'', ''order'',
     ''ordinary'', ''organ'', ''orient'', ''original'', ''orphan'', ''ostrich'', ''other'', ''outdoor'',
     ''outer'', ''output'', ''outside'', ''oval'', ''oven'', ''over'', ''owner'', ''oxygen'',
     ''oyster'', ''ozone'', ''pact'', ''paddle'', ''page'', ''pair'', ''palace'', ''palm'',
     ''panda'', ''panel'', ''panic'', ''panther'', ''paper'', ''parade'', ''parent'', ''park'',
     ''parrot'', ''party'', ''pass'', ''patch'', ''path'', ''patient'', ''patrol'', ''pattern'',
     ''pause'', ''pave'', ''payment'', ''peace'', ''peanut'', ''pear'', ''peasant'', ''pelican'',
     ''penalty'', ''pencil'', ''people'', ''pepper'', ''perfect'', ''permit'', ''person'', ''pet'',
     ''phone'', ''photo'', ''phrase'', ''physical'', ''piano'', ''picnic'', ''picture'', ''piece'',
     ''pigeon'', ''pill'', ''pilot'', ''pink'', ''pioneer'', ''pipe'', ''pistol'', ''pitch'',
     ''pizza'', ''place'', ''planet'', ''plastic'', ''plate'', ''play'', ''please'', ''pledge'',
     ''pluck'', ''plug'', ''plunge'', ''poem'']"

definition bip39_14 :: "string list" where
  "bip39_14 = [
     ''poet'', ''point'', ''polar'', ''pole'', ''police'', ''pond'', ''pony'', ''pool'',
     ''popular'', ''portion'', ''position'', ''possible'', ''post'', ''potato'', ''pottery'', ''poverty'',
     ''powder'', ''power'', ''practice'', ''praise'', ''predict'', ''prefer'', ''prepare'', ''present'',
     ''pretty'', ''prevent'', ''price'', ''pride'', ''primary'', ''print'', ''priority'', ''prison'',
     ''private'', ''prize'', ''problem'', ''process'', ''produce'', ''profit'', ''program'', ''project'',
     ''promote'', ''proof'', ''property'', ''prosper'', ''protect'', ''proud'', ''provide'', ''public'',
     ''pudding'', ''pull'', ''pulp'', ''pulse'', ''pumpkin'', ''punch'', ''pupil'', ''puppy'',
     ''purchase'', ''purity'', ''purpose'', ''purse'', ''push'', ''put'', ''puzzle'', ''pyramid'',
     ''quality'', ''quantum'', ''quarter'', ''question'', ''quick'', ''quit'', ''quiz'', ''quote'',
     ''rabbit'', ''raccoon'', ''race'', ''rack'', ''radar'', ''radio'', ''rail'', ''rain'',
     ''raise'', ''rally'', ''ramp'', ''ranch'', ''random'', ''range'', ''rapid'', ''rare'',
     ''rate'', ''rather'', ''raven'', ''raw'', ''razor'', ''ready'', ''real'', ''reason'',
     ''rebel'', ''rebuild'', ''recall'', ''receive'']"

definition bip39_15 :: "string list" where
  "bip39_15 = [
     ''recipe'', ''record'', ''recycle'', ''reduce'', ''reflect'', ''reform'', ''refuse'', ''region'',
     ''regret'', ''regular'', ''reject'', ''relax'', ''release'', ''relief'', ''rely'', ''remain'',
     ''remember'', ''remind'', ''remove'', ''render'', ''renew'', ''rent'', ''reopen'', ''repair'',
     ''repeat'', ''replace'', ''report'', ''require'', ''rescue'', ''resemble'', ''resist'', ''resource'',
     ''response'', ''result'', ''retire'', ''retreat'', ''return'', ''reunion'', ''reveal'', ''review'',
     ''reward'', ''rhythm'', ''ribbon'', ''rice'', ''rich'', ''ride'', ''ridge'', ''rifle'',
     ''right'', ''rigid'', ''ring'', ''riot'', ''ripple'', ''risk'', ''ritual'', ''rival'',
     ''river'', ''road'', ''roast'', ''robot'', ''robust'', ''rocket'', ''romance'', ''roof'',
     ''rookie'', ''room'', ''rose'', ''rotate'', ''rough'', ''round'', ''route'', ''royal'',
     ''rubber'', ''rude'', ''rug'', ''rule'', ''runway'', ''rural'', ''saddle'', ''sadness'',
     ''safe'', ''sail'', ''salad'', ''salmon'', ''salon'', ''salt'', ''salute'', ''same'',
     ''sample'', ''sand'', ''satisfy'', ''satoshi'', ''sauce'', ''sausage'', ''save'', ''say'',
     ''scale'', ''scan'', ''scare'', ''scatter'']"

definition bip39_16 :: "string list" where
  "bip39_16 = [
     ''scene'', ''scheme'', ''school'', ''science'', ''scissors'', ''scorpion'', ''scout'', ''scrap'',
     ''screen'', ''script'', ''scrub'', ''search'', ''season'', ''seat'', ''second'', ''secret'',
     ''section'', ''security'', ''seed'', ''seek'', ''segment'', ''select'', ''sell'', ''seminar'',
     ''senior'', ''sense'', ''sentence'', ''series'', ''service'', ''session'', ''settle'', ''setup'',
     ''seven'', ''shadow'', ''shaft'', ''shallow'', ''share'', ''shed'', ''shell'', ''sheriff'',
     ''shield'', ''shift'', ''shine'', ''ship'', ''shiver'', ''shock'', ''shoe'', ''shoot'',
     ''shop'', ''short'', ''shoulder'', ''shove'', ''shrimp'', ''shrug'', ''shuffle'', ''shy'',
     ''sibling'', ''sick'', ''side'', ''siege'', ''sight'', ''sign'', ''silent'', ''silk'',
     ''silly'', ''silver'', ''similar'', ''simple'', ''since'', ''sing'', ''siren'', ''sister'',
     ''situate'', ''six'', ''size'', ''skate'', ''sketch'', ''skill'', ''skin'', ''skirt'',
     ''skull'', ''slab'', ''slam'', ''sleep'', ''slender'', ''slice'', ''slide'', ''slight'',
     ''slim'', ''slogan'', ''slot'', ''slow'', ''slush'', ''small'', ''smart'', ''smile'',
     ''smoke'', ''smooth'', ''snack'', ''snake'']"

definition bip39_17 :: "string list" where
  "bip39_17 = [
     ''snap'', ''sniff'', ''snow'', ''soap'', ''soccer'', ''social'', ''sock'', ''soda'',
     ''soft'', ''solar'', ''soldier'', ''solid'', ''solution'', ''solve'', ''someone'', ''song'',
     ''soon'', ''sorry'', ''sort'', ''soul'', ''sound'', ''soup'', ''source'', ''south'',
     ''space'', ''spare'', ''spatial'', ''spawn'', ''speak'', ''special'', ''speed'', ''spell'',
     ''spend'', ''sphere'', ''spice'', ''spider'', ''spike'', ''spin'', ''spirit'', ''split'',
     ''spoil'', ''sponsor'', ''spoon'', ''sport'', ''spot'', ''spray'', ''spread'', ''spring'',
     ''spy'', ''square'', ''squeeze'', ''squirrel'', ''stable'', ''stadium'', ''staff'', ''stage'',
     ''stairs'', ''stamp'', ''stand'', ''start'', ''state'', ''stay'', ''steak'', ''steel'',
     ''stem'', ''step'', ''stereo'', ''stick'', ''still'', ''sting'', ''stock'', ''stomach'',
     ''stone'', ''stool'', ''story'', ''stove'', ''strategy'', ''street'', ''strike'', ''strong'',
     ''struggle'', ''student'', ''stuff'', ''stumble'', ''style'', ''subject'', ''submit'', ''subway'',
     ''success'', ''such'', ''sudden'', ''suffer'', ''sugar'', ''suggest'', ''suit'', ''summer'',
     ''sunny'', ''sunset'', ''super'', ''supply'']"

definition bip39_18 :: "string list" where
  "bip39_18 = [
     ''supreme'', ''sure'', ''surface'', ''surge'', ''surprise'', ''surround'', ''survey'', ''suspect'',
     ''sustain'', ''swallow'', ''swamp'', ''swap'', ''swarm'', ''swear'', ''sweet'', ''swift'',
     ''swim'', ''swing'', ''switch'', ''sword'', ''symbol'', ''symptom'', ''syrup'', ''system'',
     ''table'', ''tackle'', ''tag'', ''tail'', ''talent'', ''talk'', ''tank'', ''tape'',
     ''target'', ''task'', ''taste'', ''tattoo'', ''taxi'', ''teach'', ''team'', ''tell'',
     ''tenant'', ''tennis'', ''tent'', ''term'', ''test'', ''text'', ''thank'', ''that'',
     ''theme'', ''then'', ''theory'', ''there'', ''they'', ''thing'', ''this'', ''thought'',
     ''three'', ''thrive'', ''throw'', ''thumb'', ''thunder'', ''ticket'', ''tide'', ''tiger'',
     ''tilt'', ''timber'', ''time'', ''tiny'', ''tip'', ''tired'', ''tissue'', ''title'',
     ''toast'', ''tobacco'', ''today'', ''toddler'', ''toe'', ''together'', ''toilet'', ''token'',
     ''tomato'', ''tomorrow'', ''tone'', ''tongue'', ''tonight'', ''tool'', ''tooth'', ''topic'',
     ''topple'', ''torch'', ''tornado'', ''tortoise'', ''toss'', ''total'', ''tourist'', ''toward'',
     ''tower'', ''town'', ''toy'', ''track'']"

definition bip39_19 :: "string list" where
  "bip39_19 = [
     ''trade'', ''traffic'', ''tragic'', ''train'', ''transfer'', ''trap'', ''trash'', ''travel'',
     ''tray'', ''treat'', ''tree'', ''trend'', ''trial'', ''tribe'', ''trick'', ''trigger'',
     ''trim'', ''trip'', ''trophy'', ''trouble'', ''truck'', ''true'', ''truly'', ''trumpet'',
     ''trust'', ''truth'', ''try'', ''tube'', ''tuition'', ''tumble'', ''tuna'', ''tunnel'',
     ''turkey'', ''turn'', ''turtle'', ''twelve'', ''twenty'', ''twice'', ''twin'', ''twist'',
     ''two'', ''type'', ''typical'', ''ugly'', ''umbrella'', ''unable'', ''unaware'', ''uncle'',
     ''uncover'', ''under'', ''undo'', ''unfair'', ''unfold'', ''unhappy'', ''uniform'', ''unique'',
     ''unit'', ''universe'', ''unknown'', ''unlock'', ''until'', ''unusual'', ''unveil'', ''update'',
     ''upgrade'', ''uphold'', ''upon'', ''upper'', ''upset'', ''urban'', ''urge'', ''usage'',
     ''used'', ''useful'', ''useless'', ''usual'', ''utility'', ''vacant'', ''vacuum'', ''vague'',
     ''valid'', ''valley'', ''valve'', ''vanish'', ''vapor'', ''various'', ''vast'', ''vault'',
     ''vehicle'', ''velvet'', ''vendor'', ''venture'', ''venue'', ''verb'', ''verify'', ''version'',
     ''very'', ''vessel'', ''veteran'', ''viable'']"

definition bip39_20 :: "string list" where
  "bip39_20 = [
     ''vibrant'', ''vicious'', ''victory'', ''video'', ''view'', ''village'', ''vintage'', ''violin'',
     ''virtual'', ''virus'', ''visa'', ''visit'', ''visual'', ''vital'', ''vivid'', ''vocal'',
     ''voice'', ''void'', ''volcano'', ''volume'', ''vote'', ''voyage'', ''wage'', ''wagon'',
     ''wait'', ''walk'', ''wall'', ''walnut'', ''want'', ''warfare'', ''warm'', ''warrior'',
     ''wash'', ''wasp'', ''waste'', ''water'', ''wave'', ''way'', ''wealth'', ''weapon'',
     ''wear'', ''weasel'', ''weather'', ''web'', ''wedding'', ''weekend'', ''weird'', ''welcome'',
     ''west'', ''wet'', ''whale'', ''what'', ''wheat'', ''wheel'', ''when'', ''where'',
     ''whip'', ''whisper'', ''wide'', ''width'', ''wife'', ''wild'', ''will'', ''window'',
     ''wine'', ''wing'', ''wink'', ''winner'', ''winter'', ''wire'', ''wisdom'', ''wise'',
     ''wish'', ''witness'', ''wolf'', ''woman'', ''wonder'', ''wood'', ''wool'', ''word'',
     ''work'', ''world'', ''worry'', ''worth'', ''wrap'', ''wreck'', ''wrestle'', ''wrist'',
     ''write'', ''wrong'', ''yard'', ''year'', ''yellow'', ''young'', ''youth'', ''zebra'',
     ''zero'', ''zone'', ''zoo'']"

definition BIP39EnglishWordlist :: "string list" where
  "BIP39EnglishWordlist = concat [
     bip39_01, bip39_02, bip39_03, bip39_04, bip39_05,
     bip39_06, bip39_07, bip39_08, bip39_09, bip39_10,
     bip39_11, bip39_12, bip39_13, bip39_14, bip39_15,
     bip39_16, bip39_17, bip39_18, bip39_19, bip39_20]"

section \<open>Separated words\<close>

fun sep_less :: "string \<Rightarrow> string \<Rightarrow> bool" where
  "sep_less (c # cs) (d # ds) = (if c = d then sep_less cs ds else byte_of c < byte_of d)"
| "sep_less cs ds = False"

lemma sep_less_trans: "sep_less u v \<Longrightarrow> sep_less v w \<Longrightarrow> sep_less u w"
proof (induction u v arbitrary: w rule: sep_less.induct)
  case (1 c cs d ds)
  then show ?case by (cases w) (auto split: if_splits)
qed auto

lemma transp_sep_less [simp]: "transp sep_less"
  using sep_less_trans by (auto intro: transpI)

lemma sep_less_not_prefix: "sep_less u v \<Longrightarrow> \<not> prefix u v \<and> \<not> prefix v u \<and> u \<noteq> v"
  by (induction u v rule: sep_less.induct) (auto split: if_splits)

lemma successively_append_sep:
  "xs \<noteq> [] \<Longrightarrow> ys \<noteq> [] \<Longrightarrow>
     successively R (xs @ ys) \<longleftrightarrow> successively R xs \<and> R (last xs) (hd ys) \<and> successively R ys"
  by (auto simp: successively_append_iff)

section \<open>The blocks are separated\<close>

lemma block_01: "successively sep_less bip39_01" "bip39_01 \<noteq> []"
  "hd bip39_01 = ''abandon''" "last bip39_01 = ''ask''" "length bip39_01 = 100"
  "list_all (list_all is_letter) bip39_01"
  by (simp_all add: bip39_01_def byte_of_def is_letter_def)

lemma block_02: "successively sep_less bip39_02" "bip39_02 \<noteq> []"
  "hd bip39_02 = ''aspect''" "last bip39_02 = ''boring''" "length bip39_02 = 100"
  "list_all (list_all is_letter) bip39_02"
  by (simp_all add: bip39_02_def byte_of_def is_letter_def)

lemma block_03: "successively sep_less bip39_03" "bip39_03 \<noteq> []"
  "hd bip39_03 = ''borrow''" "last bip39_03 = ''cheap''" "length bip39_03 = 100"
  "list_all (list_all is_letter) bip39_03"
  by (simp_all add: bip39_03_def byte_of_def is_letter_def)

lemma block_04: "successively sep_less bip39_04" "bip39_04 \<noteq> []"
  "hd bip39_04 = ''check''" "last bip39_04 = ''cricket''" "length bip39_04 = 100"
  "list_all (list_all is_letter) bip39_04"
  by (simp_all add: bip39_04_def byte_of_def is_letter_def)

lemma block_05: "successively sep_less bip39_05" "bip39_05 \<noteq> []"
  "hd bip39_05 = ''crime''" "last bip39_05 = ''dizzy''" "length bip39_05 = 100"
  "list_all (list_all is_letter) bip39_05"
  by (simp_all add: bip39_05_def byte_of_def is_letter_def)

lemma block_06: "successively sep_less bip39_06" "bip39_06 \<noteq> []"
  "hd bip39_06 = ''doctor''" "last bip39_06 = ''erupt''" "length bip39_06 = 100"
  "list_all (list_all is_letter) bip39_06"
  by (simp_all add: bip39_06_def byte_of_def is_letter_def)

lemma block_07: "successively sep_less bip39_07" "bip39_07 \<noteq> []"
  "hd bip39_07 = ''escape''" "last bip39_07 = ''foam''" "length bip39_07 = 100"
  "list_all (list_all is_letter) bip39_07"
  by (simp_all add: bip39_07_def byte_of_def is_letter_def)

lemma block_08: "successively sep_less bip39_08" "bip39_08 \<noteq> []"
  "hd bip39_08 = ''focus''" "last bip39_08 = ''grocery''" "length bip39_08 = 100"
  "list_all (list_all is_letter) bip39_08"
  by (simp_all add: bip39_08_def byte_of_def is_letter_def)

lemma block_09: "successively sep_less bip39_09" "bip39_09 \<noteq> []"
  "hd bip39_09 = ''group''" "last bip39_09 = ''inflict''" "length bip39_09 = 100"
  "list_all (list_all is_letter) bip39_09"
  by (simp_all add: bip39_09_def byte_of_def is_letter_def)

lemma block_10: "successively sep_less bip39_10" "bip39_10 \<noteq> []"
  "hd bip39_10 = ''inform''" "last bip39_10 = ''letter''" "length bip39_10 = 100"
  "list_all (list_all is_letter) bip39_10"
  by (simp_all add: bip39_10_def byte_of_def is_letter_def)

lemma block_11: "successively sep_less bip39_11" "bip39_11 \<noteq> []"
  "hd bip39_11 = ''level''" "last bip39_11 = ''minor''" "length bip39_11 = 100"
  "list_all (list_all is_letter) bip39_11"
  by (simp_all add: bip39_11_def byte_of_def is_letter_def)

lemma block_12: "successively sep_less bip39_12" "bip39_12 \<noteq> []"
  "hd bip39_12 = ''minute''" "last bip39_12 = ''olive''" "length bip39_12 = 100"
  "list_all (list_all is_letter) bip39_12"
  by (simp_all add: bip39_12_def byte_of_def is_letter_def)

lemma block_13: "successively sep_less bip39_13" "bip39_13 \<noteq> []"
  "hd bip39_13 = ''olympic''" "last bip39_13 = ''poem''" "length bip39_13 = 100"
  "list_all (list_all is_letter) bip39_13"
  by (simp_all add: bip39_13_def byte_of_def is_letter_def)

lemma block_14: "successively sep_less bip39_14" "bip39_14 \<noteq> []"
  "hd bip39_14 = ''poet''" "last bip39_14 = ''receive''" "length bip39_14 = 100"
  "list_all (list_all is_letter) bip39_14"
  by (simp_all add: bip39_14_def byte_of_def is_letter_def)

lemma block_15: "successively sep_less bip39_15" "bip39_15 \<noteq> []"
  "hd bip39_15 = ''recipe''" "last bip39_15 = ''scatter''" "length bip39_15 = 100"
  "list_all (list_all is_letter) bip39_15"
  by (simp_all add: bip39_15_def byte_of_def is_letter_def)

lemma block_16: "successively sep_less bip39_16" "bip39_16 \<noteq> []"
  "hd bip39_16 = ''scene''" "last bip39_16 = ''snake''" "length bip39_16 = 100"
  "list_all (list_all is_letter) bip39_16"
  by (simp_all add: bip39_16_def byte_of_def is_letter_def)

lemma block_17: "successively sep_less bip39_17" "bip39_17 \<noteq> []"
  "hd bip39_17 = ''snap''" "last bip39_17 = ''supply''" "length bip39_17 = 100"
  "list_all (list_all is_letter) bip39_17"
  by (simp_all add: bip39_17_def byte_of_def is_letter_def)

lemma block_18: "successively sep_less bip39_18" "bip39_18 \<noteq> []"
  "hd bip39_18 = ''supreme''" "last bip39_18 = ''track''" "length bip39_18 = 100"
  "list_all (list_all is_letter) bip39_18"
  by (simp_all add: bip39_18_def byte_of_def is_letter_def)

lemma block_19: "successively sep_less bip39_19" "bip39_19 \<noteq> []"
  "hd bip39_19 = ''trade''" "last bip39_19 = ''viable''" "length bip39_19 = 100"
  "list_all (list_all is_letter) bip39_19"
  by (simp_all add: bip39_19_def byte_of_def is_letter_def)

lemma block_20: "successively sep_less bip39_20" "bip39_20 \<noteq> []"
  "hd bip39_20 = ''vibrant''" "last bip39_20 = ''zoo''" "length bip39_20 = 99"
  "list_all (list_all is_letter) bip39_20"
  by (simp_all add: bip39_20_def byte_of_def is_letter_def)

lemmas block_facts =
  block_01 block_02 block_03 block_04 block_05
  block_06 block_07 block_08 block_09 block_10
  block_11 block_12 block_13 block_14 block_15
  block_16 block_17 block_18 block_19 block_20

lemma length_BIP39 [simp]: "length BIP39EnglishWordlist = 1999"
  by (simp add: BIP39EnglishWordlist_def block_facts)

lemma BIP39_letters: "w \<in> set BIP39EnglishWordlist \<Longrightarrow> list_all is_letter w"
proof -
  have "list_all (list_all is_letter) BIP39EnglishWordlist"
    by (simp add: BIP39EnglishWordlist_def block_facts)
  then show "w \<in> set BIP39EnglishWordlist \<Longrightarrow> list_all is_letter w"
    by (simp add: list_all_iff)
qed

fun joined :: "string list list \<Rightarrow> bool" where
  "joined [] = True"
| "joined [b] = (b \<noteq> [] \<and> successively sep_less b)"
| "joined (b # c # bs) =
     (b \<noteq> [] \<and> successively sep_less b \<and> sep_less (last b) (hd c) \<and> joined (c # bs))"

lemma joined_concat: "joined bs \<Longrightarrow> successively sep_less (concat bs)"
proof (induction bs rule: joined.induct)
  case (3 b c bs)
  then have "c \<noteq> []" by (cases bs) auto
  with 3 show ?case by (auto simp: successively_append_iff)
qed auto

lemma BIP39_separated: "sorted_wrt sep_less BIP39EnglishWordlist"
proof -
  have "successively sep_less BIP39EnglishWordlist"
    unfolding BIP39EnglishWordlist_def
    by (rule joined_concat) (simp add: block_facts byte_of_def)
  then show ?thesis by (simp add: successively_conv_sorted_wrt)
qed

end
