(* ===== verification/Encoder.thy ===== *)
theory Encoder
  imports Constants Wordlist
begin

text \<open>
  \<^verbatim>\<open>src/internal/encoder/encoder.go\<close>: the V2 name codec (\<^verbatim>\<open>Encode\<close>, \<^verbatim>\<open>Decode\<close> and their helpers) and
  the notation parser (\<^verbatim>\<open>ParseNotation\<close>, \<^verbatim>\<open>expandShorthand\<close>).  The codec is proved correct in the
  locale \<open>codebook\<close>, over any word list no word of which is a prefix of another one; the locale
  is interpreted on the BIP-39 list of the program.
\<close>

section \<open>State and construction\<close>

record encoder =
  blocksPerBatch :: int
  txMax :: int
  genesisBlock :: int
  wordlist :: "string list"
  prefixes :: "string list"
  bip39Base :: int
  cycleSize :: int

definition alph :: string where "alph = ''abcdefghijklmnopqrstuvwxyz''"

text \<open>The three nested loops over the alphabet, with the two \<^verbatim>\<open>continue\<close> guards.\<close>

definition generatePrefixes :: "string list" where
  "generatePrefixes =
     concat (map (\<lambda>i. concat (map (\<lambda>j. if j = i then [] else
       concat (map (\<lambda>k. if k = i \<or> k = j then [] else [[alph ! i, alph ! j, alph ! k]])
         [0..<length alph])) [0..<length alph])) [0..<length alph])"

definition NewEncoderWithParams :: "int \<Rightarrow> int \<Rightarrow> int \<Rightarrow> encoder" where
  "NewEncoderWithParams bpb txm genesis =
     (let base = int (length BIP39EnglishWordlist) in
      \<lparr> blocksPerBatch = bpb, txMax = txm, genesisBlock = genesis,
        wordlist = BIP39EnglishWordlist, prefixes = generatePrefixes,
        bip39Base = base, cycleSize = base * base \<rparr>)"

definition NewEncoderWithNetwork :: "string \<Rightarrow> encoder" where
  "NewEncoderWithNetwork networkMode =
     NewEncoderWithParams DefaultBlocksPerBatch DefaultTxMax (GetGenesisBlock networkMode)"

definition NewEncoder :: encoder where
  "NewEncoder = NewEncoderWithNetwork NetworkTestnet"

section \<open>Encoding\<close>

datatype encode_error = NegativeBlock | PositionBelowOne

definition pos_letter :: "int \<Rightarrow> char" where
  "pos_letter d = char_of (97 + nat d)"

text \<open>The loop of \<^verbatim>\<open>encodePosition\<close>; \<open>acc\<close> is the string built so far.\<close>

function encodePosition_loop :: "int \<Rightarrow> string \<Rightarrow> string" where
  "encodePosition_loop n acc =
     (if n > 0 then encodePosition_loop ((n - 1) div 26) (pos_letter ((n - 1) mod 26) # acc)
      else acc)"
  by auto
termination by (relation "measure (nat \<circ> fst)") auto

declare encodePosition_loop.simps [simp del]

definition encodePosition :: "int \<Rightarrow> string" where
  "encodePosition pos = encodePosition_loop (if pos < 1 then 1 else pos) []"

definition Encode :: "encoder \<Rightarrow> int \<Rightarrow> int \<Rightarrow> (encode_error, string) res" where
  "Encode e blockNumber transactionPosition =
     (if blockNumber < 0 then Err NegativeBlock
      else if transactionPosition < 1 then Err PositionBelowOne
      else
        let cycle = blockNumber div cycleSize e;
            blockInCycle = blockNumber mod cycleSize e;
            word1 = wordlist e ! nat (blockInCycle div bip39Base e);
            word2 = wordlist e ! nat (blockInCycle mod bip39Base e);
            posStr = encodePosition transactionPosition
        in if cycle > 0 then Ok (''n'' @ word1 @ word2 @ show_int cycle @ posStr)
           else Ok (''n'' @ word1 @ word2 @ posStr))"

section \<open>Decoding\<close>

datatype decode_error = BadPrefix | NoFirstWord | NoSecondWord | BadCycle | NoPosition
  | BadPosition | UnknownWord

text \<open>
  \<^verbatim>\<open>decodePosition\<close>: the value wraps as Go's \<^verbatim>\<open>int\<close> does; a byte outside \<open>a..z\<close> is an error.
\<close>

fun decodePosition_loop :: "string \<Rightarrow> int \<Rightarrow> int option" where
  "decodePosition_loop [] result = Some result"
| "decodePosition_loop (c # s) result =
     (if byte_of c < 97 \<or> byte_of c > 122 then None
      else decodePosition_loop s (wrap64 (result * 26 + int (byte_of c - 97) + 1)))"

definition decodePosition :: "string \<Rightarrow> int option" where
  "decodePosition s = (if s = [] then None else decodePosition_loop s 0)"

definition best_match :: "string list \<Rightarrow> string \<Rightarrow> string" where
  "best_match ws s =
     foldl (\<lambda>best w. if has_prefix s w \<and> length w > length best then w else best) [] ws"

definition matchBIP39Word :: "encoder \<Rightarrow> string \<Rightarrow> (string \<times> string) option" where
  "matchBIP39Word e s =
     (if s = [] then None
      else let bestMatch = best_match (wordlist e) s
           in if bestMatch = [] then None else Some (bestMatch, drop (length bestMatch) s))"

fun find_index :: "'a list \<Rightarrow> 'a \<Rightarrow> int \<Rightarrow> int" where
  "find_index [] x i = -1"
| "find_index (w # ws) x i = (if w = x then i else find_index ws x (i + 1))"

definition findWordIndex :: "encoder \<Rightarrow> string \<Rightarrow> int" where
  "findWordIndex e word = find_index (wordlist e) word 0"

definition Decode :: "encoder \<Rightarrow> string \<Rightarrow> (decode_error, int \<times> int) res" where
  "Decode e codeStr =
     (if length codeStr < 2 \<or> hd codeStr \<noteq> CHR ''n'' then Err BadPrefix
      else case matchBIP39Word e (tl codeStr) of
        None \<Rightarrow> Err NoFirstWord
      | Some (word1, rest1) \<Rightarrow>
          (case matchBIP39Word e rest1 of
             None \<Rightarrow> Err NoSecondWord
           | Some (word2, rest2) \<Rightarrow>
               (let digits = takeWhile is_digit rest2;
                    rest = dropWhile is_digit rest2
                in case (if digits = [] then Some 0 else parse_int64 digits) of
                     None \<Rightarrow> Err BadCycle
                   | Some cycle \<Rightarrow>
                       if rest = [] then Err NoPosition
                       else (case decodePosition rest of
                               None \<Rightarrow> Err BadPosition
                             | Some position \<Rightarrow>
                                 (let i1 = findWordIndex e word1; i2 = findWordIndex e word2
                                  in if i1 = -1 \<or> i2 = -1 then Err UnknownWord
                                     else Ok (wrap64 (wrap64 (cycle * cycleSize e)
                                                + (i1 * bip39Base e + i2)), position))))))"

section \<open>Notations\<close>

datatype notation_error = InvalidNotation | InvalidPosition | BeforeGenesis | Unrecognized

text \<open>
  \<^verbatim>\<open>expandShorthand\<close> ranges over a Go map, whose iteration order is unspecified; the model takes
  the order of the run as its first argument, a permutation of \<open>multipliers\<close>.
\<close>

definition multipliers :: "(string \<times> int) list" where
  "multipliers = [(''h'', 100), (''k'', 1000), (''m'', 1000000), (''b'', 1000000000),
     (''t'', 1000000000000), (''qd'', 1000000000000000), (''qt'', 1000000000000000000)]"

definition suffix_value :: "string \<Rightarrow> string \<times> int \<Rightarrow> int" where
  "suffix_value s m =
     (let numStr = (if trim_suffix s (fst m) = [] then ''1'' else trim_suffix s (fst m))
      in case parse_int64 numStr of None \<Rightarrow> 0 | Some num \<Rightarrow> wrap64 (num * snd m))"

fun expand_suffix :: "(string \<times> int) list \<Rightarrow> string \<Rightarrow> int" where
  "expand_suffix [] s = (case parse_int64 s of None \<Rightarrow> 0 | Some num \<Rightarrow> num)"
| "expand_suffix (m # ms) s =
     (if has_suffix s (fst m) then suffix_value s m else expand_suffix ms s)"

definition expandShorthand :: "(string \<times> int) list \<Rightarrow> string \<Rightarrow> int" where
  "expandShorthand order s =
     (if has_suffix s ''sp'' then MaxInt64
      else if has_suffix s ''o'' then MaxInt64
      else expand_suffix order s)"

definition parseBlockNotation ::
  "(string \<times> int) list \<Rightarrow> encoder \<Rightarrow> string \<Rightarrow> string \<Rightarrow> (notation_error, string \<times> int \<times> int) res"
where
  "parseBlockNotation order e name notn =
     (let pre = take 1 notn;
          parts = split_on CHR ''.'' (drop 1 notn);
          position = (case parts of _ # p # _ \<Rightarrow> parse_int64 p | _ \<Rightarrow> Some 1)
      in case position of
           None \<Rightarrow> Err InvalidPosition
         | Some pos \<Rightarrow>
             (let blockNum = expandShorthand order (hd parts)
              in if pre = ''b'' then
                   (let b = wrap64 (blockNum - genesisBlock e)
                    in if b < 0 then Err BeforeGenesis else Ok (name, b, pos))
                 else Ok (name, blockNum, pos)))"

definition ParseNotation ::
  "(string \<times> int) list \<Rightarrow> encoder \<Rightarrow> string \<Rightarrow> (notation_error, string \<times> int \<times> int) res"
where
  "ParseNotation order e notn =
     (case split_on CHR ''.'' notn of
        name # part # parts \<Rightarrow>
          (let remaining = join_on ''.'' (part # parts)
           in if length remaining > 1 \<and> hd remaining = CHR ''n'' then
                (case Decode e remaining of
                   Inr (block, pos) \<Rightarrow> Ok (name, block, pos)
                 | Inl _ \<Rightarrow> parseBlockNotation order e name remaining)
              else if has_prefix remaining ''b'' then parseBlockNotation order e name remaining
              else Err Unrecognized)
      | _ \<Rightarrow> Err InvalidNotation)"

definition FormatDNNBlock :: "int \<Rightarrow> int \<Rightarrow> string" where
  "FormatDNNBlock blockNum position =
     (if position = 1 then ''n'' @ show_int blockNum
      else ''n'' @ show_int blockNum @ ''.'' @ show_int position)"

definition FormatBitcoinBlock :: "encoder \<Rightarrow> int \<Rightarrow> int \<Rightarrow> string" where
  "FormatBitcoinBlock e blockNum position =
     (let bitcoinBlock = wrap64 (blockNum + genesisBlock e)
      in if position = 1 then ''b'' @ show_int bitcoinBlock
         else ''b'' @ show_int bitcoinBlock @ ''.'' @ show_int position)"

section \<open>Positions\<close>

lemma pos_letter_byte [simp]: "0 \<le> d \<Longrightarrow> d < 26 \<Longrightarrow> byte_of (pos_letter d) = 97 + nat d"
  by (simp add: pos_letter_def nat_less_iff)

lemma encodePosition_letters:
  "list_all is_letter acc \<Longrightarrow> list_all is_letter (encodePosition_loop n acc)"
proof (induction n acc rule: encodePosition_loop.induct)
  case (1 n acc)
  then show ?case
    by (cases "n > 0") (auto simp: encodePosition_loop.simps[of n] is_letter_def nat_less_iff
        pos_letter_byte[of "(n - 1) mod 26"])
qed

lemma encodePosition_loop_nonempty:
  "n > 0 \<or> acc \<noteq> [] \<Longrightarrow> encodePosition_loop n acc \<noteq> []"
proof (induction n acc rule: encodePosition_loop.induct)
  case (1 n acc)
  then show ?case by (cases "n > 0") (auto simp: encodePosition_loop.simps[of n])
qed

lemma encodePosition_shape [simp, go_str]:
  "list_all is_letter (encodePosition n)" "encodePosition n \<noteq> []"
  by (simp_all add: encodePosition_def encodePosition_letters encodePosition_loop_nonempty)

lemma decode_loop_encode_loop:
  "0 \<le> n \<Longrightarrow> n \<le> MaxInt64 \<Longrightarrow>
     decodePosition_loop (encodePosition_loop n acc) 0 = decodePosition_loop acc n"
proof (induction n acc rule: encodePosition_loop.induct)
  case (1 n acc)
  show ?case
  proof (cases "n > 0")
    case True
    let ?q = "(n - 1) div 26" and ?d = "(n - 1) mod 26"
    have q: "0 \<le> ?q" "?q \<le> MaxInt64" and d: "0 \<le> ?d" "?d < 26"
      using True 1(3) by (auto simp: pos_imp_zdiv_nonneg_iff)
    have v: "?q * 26 + ?d + 1 = n" by simp
    have "decodePosition_loop (encodePosition_loop n acc) 0
        = decodePosition_loop (pos_letter ?d # acc) ?q"
      using 1(1)[OF True q] True by (simp add: encodePosition_loop.simps[of n])
    also have "\<dots> = decodePosition_loop acc (wrap64 (?q * 26 + ?d + 1))"
      using d nat_less_iff[of ?d 26] by simp
    finally show ?thesis using True 1(3) unfolding v by (simp add: in64I)
  next
    case False
    with 1(2) have "n = 0" by simp
    then show ?thesis by (simp add: encodePosition_loop.simps[of 0])
  qed
qed

lemma decodePosition_encodePosition [simp]:
  "1 \<le> n \<Longrightarrow> n \<le> MaxInt64 \<Longrightarrow> decodePosition (encodePosition n) = Some n"
  using decode_loop_encode_loop[of n "[]"] encodePosition_shape(2)[of n]
  by (simp add: decodePosition_def encodePosition_def)

lemma decodePosition_loop_letters: "decodePosition_loop s r \<noteq> None \<longleftrightarrow> list_all is_letter s"
  by (induction s arbitrary: r) (auto simp: is_letter_def)

lemma decodePosition_total: "decodePosition s \<noteq> None \<longleftrightarrow> s \<noteq> [] \<and> list_all is_letter s"
  using decodePosition_loop_letters[of s 0] by (auto simp: decodePosition_def)

section \<open>Word matching over a codebook\<close>

locale codebook =
  fixes words :: "string list"
  assumes separated: "i < length words \<Longrightarrow> j < length words \<Longrightarrow> prefix (words ! i) (words ! j) \<Longrightarrow> i = j"
    and no_empty: "[] \<notin> set words"
begin

lemma match_only:
  assumes "w \<in> set words" "v \<in> set words" "has_prefix (w @ r) v"
  shows "v = w"
proof -
  have "prefix v w \<or> prefix w v"
    using assms(3) prefix_same_cases[of v "w @ r" w] by (auto simp: has_prefix_iff)
  then show ?thesis using assms(1,2) separated by (metis in_set_conv_nth)
qed

lemma foldl_best:
  assumes "w \<in> set words" "set ws \<subseteq> set words" "b = [] \<or> b = w"
  shows "foldl (\<lambda>best v. if has_prefix (w @ r) v \<and> length v > length best then v else best) b ws
    = (if w \<in> set ws then w else b)"
  using assms(2,3)
proof (induction ws arbitrary: b)
  case (Cons v ws)
  have "w \<noteq> []" using assms(1) no_empty by auto
  then show ?case using Cons match_only[OF assms(1), of v r] by auto
qed simp

lemma best_match_word: "w \<in> set words \<Longrightarrow> best_match words (w @ r) = w"
  by (simp add: best_match_def foldl_best)

lemma find_index_nth: "i < length words \<Longrightarrow> find_index words (words ! i) k = k + int i"
proof -
  have "distinct ws \<Longrightarrow> i < length ws \<Longrightarrow> find_index ws (ws ! i) k = k + int i" for ws :: "string list"
  proof (induction ws arbitrary: i k)
    case (Cons w ws)
    then show ?case by (cases i) auto
  qed simp
  moreover have "distinct words"
    using separated by (metis distinct_conv_nth prefix_order.order_refl)
  ultimately show "i < length words \<Longrightarrow> ?thesis" by blast
qed

end

text \<open>An encoder over a codebook: the constructor's invariant.\<close>

definition encoder_ok :: "encoder \<Rightarrow> bool" where
  "encoder_ok e \<longleftrightarrow> wordlist e \<noteq> [] \<and> bip39Base e = int (length (wordlist e))
     \<and> cycleSize e = bip39Base e * bip39Base e \<and> cycleSize e \<le> MaxInt64"

locale encoder_codebook = codebook "wordlist e" for e :: encoder +
  assumes ok: "encoder_ok e"
    and letters: "w \<in> set (wordlist e) \<Longrightarrow> list_all is_letter w"
begin

lemma match_word: "w \<in> set (wordlist e) \<Longrightarrow> matchBIP39Word e (w @ r) = Some (w, r)"
  using best_match_word[of w r] no_empty by (auto simp: matchBIP39Word_def)

lemma index_of_nth: "i < length (wordlist e) \<Longrightarrow> findWordIndex e (wordlist e ! i) = int i"
  using find_index_nth[of i 0] by (simp add: findWordIndex_def)

lemma match_none:
  assumes "\<not> is_letter c"
  shows "matchBIP39Word e (c # r) = None"
proof -
  have no: "\<not> has_prefix (c # r) w" if "w \<in> set (wordlist e)" for w
  proof (cases w)
    case (Cons d ds)
    then show ?thesis using letters[OF that] assms by (auto simp: has_prefix_def)
  qed (use that no_empty in simp)
  have "set ws \<subseteq> set (wordlist e) \<Longrightarrow>
      foldl (\<lambda>best w. if has_prefix (c # r) w \<and> length w > length best then w else best) [] ws = []"
    for ws by (induction ws) (use no in auto)
  then show ?thesis by (simp add: matchBIP39Word_def best_match_def)
qed

lemma decode_numeric: "\<not> is_letter c \<Longrightarrow> Decode e (CHR ''n'' # c # r) = Err NoFirstWord"
  by (simp add: Decode_def match_none)

lemma base_pos: "0 < bip39Base e" "0 < cycleSize e"
  using ok by (simp_all add: encoder_ok_def)

lemma word_indices:
  assumes "0 \<le> b"
  shows "nat ((b mod cycleSize e) div bip39Base e) < length (wordlist e)"
    and "nat ((b mod cycleSize e) mod bip39Base e) < length (wordlist e)"
    and "b mod cycleSize e = (b mod cycleSize e) div bip39Base e * bip39Base e
           + (b mod cycleSize e) mod bip39Base e"
    and "0 \<le> (b mod cycleSize e) div bip39Base e" "0 \<le> (b mod cycleSize e) mod bip39Base e"
proof -
  let ?m = "b mod cycleSize e" and ?B = "bip39Base e"
  have m: "0 \<le> ?m" "?m < ?B * ?B" using base_pos ok by (auto simp: encoder_ok_def)
  have L: "?B = int (length (wordlist e))" using ok by (simp add: encoder_ok_def)
  show pos: "0 \<le> ?m div ?B" "0 \<le> ?m mod ?B" using m base_pos by (auto simp: pos_imp_zdiv_nonneg_iff)
  have "?m div ?B < ?B" using m base_pos(1) div_square_less by blast
  then show "nat (?m div ?B) < length (wordlist e)" using L pos(1) by linarith
  have "?m mod ?B < ?B" using base_pos by simp
  then show "nat (?m mod ?B) < length (wordlist e)" using L pos(2) by linarith
  show "?m = ?m div ?B * ?B + ?m mod ?B" by simp
qed

lemma takeWhile_digits:
  assumes "list_all is_letter t"
  shows "takeWhile is_digit t = []" "dropWhile is_digit t = t"
    "takeWhile is_digit (show_nat n @ t) = show_nat n" "dropWhile is_digit (show_nat n @ t) = t"
proof -
  show t: "takeWhile is_digit t = []" "dropWhile is_digit t = t"
    using assms by (cases t; simp)+
  show "takeWhile is_digit (show_nat n @ t) = show_nat n" "dropWhile is_digit (show_nat n @ t) = t"
    using show_nat_digits[of n] t by (auto simp: list_all_iff takeWhile_append dropWhile_append)
qed

lemma decode_parts:
  assumes "i < length (wordlist e)" "j < length (wordlist e)" "1 \<le> p" "p \<le> MaxInt64"
    and "d = [] \<and> c = 0 \<or> d = show_nat (nat c) \<and> 0 \<le> c \<and> c \<le> MaxInt64"
  shows "Decode e (''n'' @ wordlist e ! i @ wordlist e ! j @ d @ encodePosition p)
    = Ok (wrap64 (wrap64 (c * cycleSize e) + (int i * bip39Base e + int j)), p)"
proof -
  let ?t = "encodePosition p"
  have tw: "takeWhile is_digit (d @ ?t) = d" "dropWhile is_digit (d @ ?t) = ?t"
    using assms(5) takeWhile_digits[of ?t] by auto
  have cyc: "(if d = [] then Some 0 else parse_int64 d) = Some c" using assms(5) by auto
  have "wordlist e ! i \<noteq> []" using no_empty assms(1) by (metis nth_mem)
  then have len: "\<not> length (''n'' @ wordlist e ! i @ wordlist e ! j @ d @ ?t) < 2"
    by (cases "wordlist e ! i") auto
  show ?thesis
    unfolding Decode_def using len assms(1-4)
    by (simp add: match_word index_of_nth tw cyc)
qed

lemma encode_parts:
  assumes "0 \<le> b" "1 \<le> p"
  shows "Encode e b p = Ok (''n'' @ wordlist e ! nat ((b mod cycleSize e) div bip39Base e)
    @ wordlist e ! nat ((b mod cycleSize e) mod bip39Base e)
    @ (if b div cycleSize e > 0 then show_int (b div cycleSize e) else []) @ encodePosition p)"
  using assms by (simp add: Encode_def Let_def)

lemma decode_encode:
  assumes "0 \<le> b" "b \<le> MaxInt64" "1 \<le> p" "p \<le> MaxInt64"
  shows "\<exists>s. Encode e b p = Ok s \<and> Decode e s = Ok (b, p)"
proof -
  let ?c = "b div cycleSize e" and ?m = "b mod cycleSize e" and ?B = "bip39Base e"
  let ?i = "nat (?m div ?B)" and ?j = "nat (?m mod ?B)"
  let ?d = "if ?c > 0 then show_int ?c else []"
  have c: "0 \<le> ?c" "?c \<le> MaxInt64"
    using assms base_pos zdiv_mono2[of b 1 "cycleSize e"] by (auto simp: pos_imp_zdiv_nonneg_iff)
  have d: "?d = [] \<and> ?c = 0 \<or> ?d = show_nat (nat ?c) \<and> 0 \<le> ?c \<and> ?c \<le> MaxInt64"
    using c by (auto simp: show_int_def)
  note w = word_indices[OF assms(1)]
  have m: "int ?i * ?B + int ?j = ?m" using w(3-5) by simp
  have "0 \<le> ?c * cycleSize e" "?c * cycleSize e \<le> b"
    using c base_pos assms(1) div_mult_mod_eq[of b "cycleSize e"] pos_mod_sign[of "cycleSize e" b]
    by (simp_all, linarith)
  then have "wrap64 (wrap64 (?c * cycleSize e) + ?m) = b"
    using assms by (simp add: in64I)
  then have "Decode e (''n'' @ wordlist e ! ?i @ wordlist e ! ?j @ ?d @ encodePosition p) = Ok (b, p)"
    using decode_parts[OF w(1,2) assms(3,4) d] m by simp
  then show ?thesis using encode_parts[OF assms(1,3)] by blast
qed

end

section \<open>Shorthand\<close>

lemma expand_suffix_find:
  "expand_suffix ms s = (case find (\<lambda>m. has_suffix s (fst m)) ms of
     None \<Rightarrow> (case parse_int64 s of None \<Rightarrow> 0 | Some num \<Rightarrow> num)
   | Some m \<Rightarrow> suffix_value s m)"
  by (induction ms) auto

lemma find_unique:
  assumes "\<And>x y. x \<in> set xs \<Longrightarrow> y \<in> set xs \<Longrightarrow> P x \<Longrightarrow> P y \<Longrightarrow> x = y" "set xs = set ys"
  shows "find P xs = find P ys"
proof (cases "find P xs")
  case None
  then show ?thesis using assms(2) find_None_iff[of P xs] find_None_iff[of P ys] by metis
next
  case (Some x)
  then have x: "x \<in> set xs" "P x" by (auto simp: find_Some_iff)
  then have "find P ys \<noteq> None" using assms(2) by (auto simp: find_None_iff)
  then obtain y where y: "find P ys = Some y" by blast
  then have "y \<in> set ys" "P y" by (auto simp: find_Some_iff)
  then show ?thesis using assms x Some y by metis
qed

lemma has_suffix_last:
  assumes "has_suffix s p" "p \<noteq> []"
  shows "last s = last p"
  using assms by (auto simp: has_suffix_iff suffix_def)

lemma multipliers_last:
  assumes "m \<in> set multipliers" "m' \<in> set multipliers"
    "last (fst m) = last (fst m')" "last (fst m) \<noteq> CHR ''t''"
  shows "m = m'"
  using assms by (auto simp: multipliers_def)

lemma has_suffix_t:
  "has_suffix s ''t'' \<Longrightarrow> last s = CHR ''t''" "has_suffix s ''qt'' \<Longrightarrow> last s = CHR ''t''"
  using has_suffix_last by fastforce+

lemma multipliers_unique:
  assumes "\<not> has_suffix s ''qt''" "m \<in> set multipliers" "m' \<in> set multipliers"
    "has_suffix s (fst m)" "has_suffix s (fst m')"
  shows "m = m'"
proof (cases "last s = CHR ''t''")
  case True
  have "fst m = ''t''" if "m \<in> set multipliers" "has_suffix s (fst m)" for m
    using that True assms(1) has_suffix_last[of s "fst m"] by (auto simp: multipliers_def)
  then have "fst m = ''t''" "fst m' = ''t''" using assms by blast+
  then show ?thesis using assms(2,3) by (auto simp: multipliers_def)
next
  case False
  have "fst x \<noteq> []" if "x \<in> set multipliers" for x using that by (auto simp: multipliers_def)
  then have "last (fst m) = last s" "last (fst m') = last s"
    using assms has_suffix_last by metis+
  then show ?thesis using False assms(2,3) multipliers_last by metis
qed

lemma expandShorthand_order:
  assumes "set order = set multipliers" "\<not> has_suffix s ''qt''"
  shows "expandShorthand order s = expandShorthand multipliers s"
  using find_unique[of order "\<lambda>m. has_suffix s (fst m)" multipliers] assms multipliers_unique
  unfolding expandShorthand_def expand_suffix_find by auto

lemma show_nat_last: "is_digit (last (show_nat n))"
  using show_nat_digits[of n] by (simp add: list_all_iff)

lemma show_int_last: "is_digit (last (show_int i))"
  by (simp add: show_int_def show_nat_last)

lemma no_letter_suffix:
  assumes "is_digit (last s)" "p \<noteq> []" "is_letter (last p)"
  shows "\<not> has_suffix s p"
  using has_suffix_last[of s p] assms letter_not_digit by metis

lemma multipliers_letters: "list_all (\<lambda>m. fst m \<noteq> [] \<and> is_letter (last (fst m))) multipliers"
  by (simp add: multipliers_def is_letter_def byte_of_def)

lemma expand_show_int:
  assumes "in64 i" "set order = set multipliers"
  shows "expandShorthand order (show_int i) = i"
proof -
  have n: "\<not> has_suffix (show_int i) p" if "p \<noteq> []" "is_letter (last p)" for p
    using no_letter_suffix[OF show_int_last] that by blast
  have "\<not> has_suffix (show_int i) (fst m)" if "m \<in> set order" for m
    using n multipliers_letters that assms(2) by (simp add: list_all_iff)
  then have "find (\<lambda>m. has_suffix (show_int i) (fst m)) order = None"
    unfolding find_None_iff by blast
  moreover have "\<not> has_suffix (show_int i) ''sp''" "\<not> has_suffix (show_int i) ''o''"
    by (rule n; simp add: is_letter_def byte_of_def)+
  ultimately show ?thesis
    unfolding expandShorthand_def expand_suffix_find by (simp add: parse_show_int[OF assms(1)])
qed

section \<open>Parsing what the formatters print\<close>

lemma ParseNotation_dot:
  assumes "CHR ''.'' \<notin> set name"
  shows "ParseNotation order e (name @ CHR ''.'' # r) =
    (if length r > 1 \<and> hd r = CHR ''n'' then
       (case Decode e r of Inr (block, pos) \<Rightarrow> Ok (name, block, pos)
        | Inl _ \<Rightarrow> parseBlockNotation order e name r)
     else if has_prefix r ''b'' then parseBlockNotation order e name r
     else Err Unrecognized)"
proof -
  obtain p ps where "split_on CHR ''.'' r = p # ps" by (cases "split_on CHR ''.'' r") auto
  moreover have "join_on ''.'' (p # ps) = r" using join_split_on[of "CHR ''.''" r] calculation by simp
  ultimately show ?thesis by (simp add: ParseNotation_def split_on_append[OF assms])
qed

lemma split_block_position:
  "split_on CHR ''.'' (show_int b) = [show_int b]"
  "split_on CHR ''.'' (show_int b @ CHR ''.'' # show_int p) = [show_int b, show_int p]"
  by (simp_all add: split_on_append split_on_no_sep)

lemma parseBlockNotation_numbers:
  assumes "in64 b" "in64 p" "set order = set multipliers"
  shows "parseBlockNotation order e name (c # show_int b) =
      (if c = CHR ''b'' then (let d = wrap64 (b - genesisBlock e)
         in if d < 0 then Err BeforeGenesis else Ok (name, d, 1)) else Ok (name, b, 1))"
    and "parseBlockNotation order e name (c # show_int b @ CHR ''.'' # show_int p) =
      (if c = CHR ''b'' then (let d = wrap64 (b - genesisBlock e)
         in if d < 0 then Err BeforeGenesis else Ok (name, d, p)) else Ok (name, b, p))"
  using assms
  by (simp_all add: parseBlockNotation_def split_block_position expand_show_int parse_show_int Let_def)

lemma show_int_head: "\<exists>c r. show_int i = c # r \<and> \<not> is_letter c"
proof (cases "i < 0")
  case True
  then show ?thesis by (simp add: show_int_def is_letter_def byte_of_def)
next
  case False
  obtain c r where c: "show_nat (nat i) = c # r" by (cases "show_nat (nat i)") auto
  then have "is_digit c" using show_nat_digits[of "nat i"] by simp
  then show ?thesis using c False letter_not_digit by (auto simp: show_int_def)
qed

section \<open>The BIP-39 codebook\<close>

lemma NewEncoder_ok: "encoder_ok (NewEncoderWithParams bpb txm g)"
  by (simp add: encoder_ok_def NewEncoderWithParams_def Let_def flip: length_greater_0_conv)

lemma BIP39_no_empty: "[] \<notin> set BIP39EnglishWordlist"
proof
  assume "[] \<in> set BIP39EnglishWordlist"
  then obtain i where i: "i < 1999" "BIP39EnglishWordlist ! i = []"
    by (metis in_set_conv_nth length_BIP39)
  show False
  proof (cases "i = 0")
    case True
    then show False using i BIP39_separated[THEN sorted_wrt_nth_less, of 0 1] by simp
  next
    case False
    then show False using i BIP39_separated[THEN sorted_wrt_nth_less, of 0 i] by (cases "BIP39EnglishWordlist ! 0") auto
  qed
qed

lemma BIP39_prefix_free:
  assumes "i < 1999" "j < 1999" "prefix (BIP39EnglishWordlist ! i) (BIP39EnglishWordlist ! j)"
  shows "i = j"
  using assms sep_less_not_prefix BIP39_separated[THEN sorted_wrt_nth_less]
  by (metis length_BIP39 linorder_neqE_nat)

interpretation bip39: codebook BIP39EnglishWordlist
  using BIP39_prefix_free BIP39_no_empty by unfold_locales auto

interpretation enc: encoder_codebook "NewEncoderWithParams bpb txm g" for bpb txm g
proof -
  have w: "wordlist (NewEncoderWithParams bpb txm g) = BIP39EnglishWordlist"
    by (simp add: NewEncoderWithParams_def Let_def)
  show "encoder_codebook (NewEncoderWithParams bpb txm g)"
    unfolding encoder_codebook_def encoder_codebook_axioms_def w
    using bip39.codebook_axioms NewEncoder_ok BIP39_letters by auto
qed

section \<open>Properties of the codec\<close>

text \<open>
  C7.  The codec round-trips: for every block and every position that a 64-bit integer can hold,
  \<open>Encode\<close> returns a name and \<open>Decode\<close> of that name returns the same block and position.
\<close>

theorem encode_decode_roundtrip:
  assumes "0 \<le> block" "block \<le> MaxInt64" "1 \<le> position" "position \<le> MaxInt64"
  shows "\<exists>code. Encode (NewEncoderWithNetwork network) block position = Ok code
           \<and> Decode (NewEncoderWithNetwork network) code = Ok (block, position)"
  unfolding NewEncoderWithNetwork_def using enc.decode_encode[OF assms] .

theorem encode_decode_roundtrip_witness:
  "\<exists>code. Encode (NewEncoderWithNetwork ''testnet'') 4000000 703 = Ok code
      \<and> Decode (NewEncoderWithNetwork ''testnet'') code = Ok (4000000, 703)"
  by (rule encode_decode_roundtrip) simp_all

text \<open>
  Notations round-trip through the formatters: the block notation that \<open>FormatDNNBlock\<close>
  prints, after a label with no dot, is read back by \<open>ParseNotation\<close> with the same label, block
  and position, whatever the iteration order of the multiplier map; it is never mistaken for
  a word-encoded name.
\<close>

lemma parse_formatted_dnn:
  assumes "CHR ''.'' \<notin> set name" "in64 block" "in64 position" "set order = set multipliers"
  shows "ParseNotation order (NewEncoderWithNetwork network)
           (name @ ''.'' @ FormatDNNBlock block position) = Ok (name, block, position)"
proof -
  obtain c r where c: "show_int block = c # r" "\<not> is_letter c" using show_int_head by blast
  have "Decode (NewEncoderWithNetwork network) (FormatDNNBlock block position) = Err NoFirstWord"
    using enc.decode_numeric[OF c(2)] c(1) by (simp add: FormatDNNBlock_def NewEncoderWithNetwork_def)
  then show ?thesis
    using parseBlockNotation_numbers[OF assms(2,3,4)] c(1)
    by (simp add: ParseNotation_dot[OF assms(1)]) (simp add: FormatDNNBlock_def)
qed

lemma parse_formatted_dnn_example:
  "ParseNotation multipliers (NewEncoderWithNetwork ''mainnet'')
     (''alice'' @ ''.'' @ FormatDNNBlock 47 3) = Ok (''alice'', 47, 3)"
  by (rule parse_formatted_dnn) (simp_all add: in64_def)

text \<open>
  The Bitcoin form of the same block, printed by \<open>FormatBitcoinBlock\<close> with the genesis
  offset added, parses back to the DNN block: the two spellings name the same place.
\<close>

lemma parse_formatted_bitcoin:
  assumes "CHR ''.'' \<notin> set name" "0 \<le> block" "block \<le> MaxInt64 - 940000" "in64 position"
    "set order = set multipliers"
  shows "ParseNotation order (NewEncoderWithNetwork network)
           (name @ ''.'' @ FormatBitcoinBlock (NewEncoderWithNetwork network) block position)
         = Ok (name, block, position)"
proof -
  have g: "genesisBlock (NewEncoderWithNetwork network) = 940000"
    by (simp add: NewEncoderWithNetwork_def NewEncoderWithParams_def Let_def)
  have i: "in64 (block + 940000)" "in64 block" using assms by (simp_all add: in64_def)
  show ?thesis
    using parseBlockNotation_numbers[OF i(1) assms(4,5)] i assms(2)
    by (simp add: ParseNotation_dot[OF assms(1)] FormatBitcoinBlock_def has_prefix_def g Let_def)
qed

lemma parse_formatted_bitcoin_example:
  "ParseNotation multipliers (NewEncoderWithNetwork ''dev'')
     (''bob'' @ ''.'' @ FormatBitcoinBlock (NewEncoderWithNetwork ''dev'') 12 1) = Ok (''bob'', 12, 1)"
  by (rule parse_formatted_bitcoin) (simp_all add: in64_def)

text \<open>
  The suffix search of \<open>expandShorthand\<close> ranges over a map: its result depends on the
  iteration order only for inputs ending in \<open>qt\<close>.  On every other input all orders give the
  same number; on \<open>5qt\<close> the run may give 0 or 5 * 10^18.
\<close>

lemma shorthand_order_dependence:
  "(\<forall>order s. set order = set multipliers \<longrightarrow> \<not> has_suffix s ''qt'' \<longrightarrow>
      expandShorthand order s = expandShorthand multipliers s)
   \<and> expandShorthand multipliers ''5qt'' = 0
   \<and> expandShorthand (rev multipliers) ''5qt'' = 5000000000000000000"
proof (intro conjI allI impI)
  show "expandShorthand multipliers ''5qt'' = 0"
    by (simp add: expandShorthand_def multipliers_def suffix_value_def has_suffix_def trim_suffix_def
        parse_int64_def all_digits_def is_digit_def byte_of_def)
  show "expandShorthand (rev multipliers) ''5qt'' = 5000000000000000000"
    by (simp add: expandShorthand_def multipliers_def suffix_value_def has_suffix_def trim_suffix_def
        parse_int64_def all_digits_def is_digit_def byte_of_def dec_val_def digit_val_def in64_def)
qed (rule expandShorthand_order)

lemma shorthand_order_dependence_example:
  "expandShorthand (rev multipliers) ''3k'' = expandShorthand multipliers ''3k''"
  by (rule conjunct1[OF shorthand_order_dependence, rule_format]) (simp_all add: has_suffix_def)

text \<open>
  \<open>decodePosition\<close> accepts exactly the non-empty strings of lower-case letters and inverts
  \<open>encodePosition\<close> on every position from 1 on.
\<close>

lemma position_codec:
  "(decodePosition s \<noteq> None \<longleftrightarrow> s \<noteq> [] \<and> list_all is_letter s)
   \<and> (1 \<le> n \<and> n \<le> MaxInt64 \<longrightarrow> decodePosition (encodePosition n) = Some n)"
  using decodePosition_total by simp

lemma position_codec_example: "decodePosition (encodePosition 27) = Some 27"
  using position_codec[of "[]" 27] by simp

end
