(* ===== verification/Validation.thy ===== *)
theory Validation
  imports Events Encoder
begin

text \<open>
  \<^verbatim>\<open>src/internal/validation/validator.go\<close>: the checks every DNN event passes before it is stored.
  The regular expression is written out as a test on the bytes; JSON content goes through the
  parser of \<open>Json\<close>; the signature check of go-nostr is a parameter.  Go map iteration
  (over the keys of a connection document) is iteration over the association list.
\<close>

datatype validation_error =
    NameTooShort | NameTooLong | NameFormat | NameHyphens | NameReserved
  | WrongKind | NoDNNTag | NoDTag | NoNTag | NoCTag | NoMTag | NoXTag
  | BadPrimaryName validation_error | BadOtherName string validation_error | DuplicateName string
  | EmptyContent | BadJSON | NoDomainKey | BadConnection string | BadRecords string
  | BadRecord string validation_error | RecordFormat | RecordType | RecordUnsupported string
  | BadCert string validation_error | CertFormat | ChainFormat | CertObject | CertNoType | CertNoPem
  | CertPem | BadSignature | UnsupportedKind

section \<open>Names\<close>

definition alnum :: "char \<Rightarrow> bool" where
  "alnum c \<longleftrightarrow> is_letter c \<or> is_digit c"

text \<open>The pattern \<^verbatim>\<open>^[a-z0-9][a-z0-9-]{0,61}[a-z0-9]$\<close>.\<close>

definition namePattern :: "string \<Rightarrow> bool" where
  "namePattern s \<longleftrightarrow> 2 \<le> length s \<and> length s \<le> 63 \<and> alnum (hd s) \<and> alnum (last s)
     \<and> list_all (\<lambda>c. alnum c \<or> c = CHR ''-'') s"

definition reservedNames :: "string list" where
  "reservedNames = [''admin'', ''root'', ''system'', ''api'', ''www'', ''mail'', ''ftp'', ''localhost'']"

definition ValidateName :: "string \<Rightarrow> (validation_error, unit) res" where
  "ValidateName name0 =
     (let name = to_lower name0 in
      if length name < 2 then Err NameTooShort
      else if length name > 63 then Err NameTooLong
      else if \<not> namePattern name then Err NameFormat
      else if contains_sub name ''--'' then Err NameHyphens
      else if list_ex (\<lambda>r. name = r) reservedNames then Err NameReserved
      else Ok ())"

section \<open>Name events\<close>

text \<open>The loop over \<^verbatim>\<open>otherNames\<close> with the map of the names seen so far.\<close>

fun check_duplicates :: "string set \<Rightarrow> string list \<Rightarrow> (validation_error, unit) res" where
  "check_duplicates seen [] = Ok ()"
| "check_duplicates seen (n # ns) =
     (if n \<in> seen then Err (DuplicateName n) else check_duplicates (insert n seen) ns)"

definition ValidateNameEvent :: "event \<Rightarrow> (validation_error, unit) res" where
  "ValidateNameEvent ev =
     (if ev_kind ev \<noteq> 61600 then Err WrongKind
      else
        let dTag = last_tag ''d'' (ev_tags ev);
            primaryName = last_tag ''n'' (ev_tags ev);
            otherNames = tag_vals ''o'' (ev_tags ev)
        in if \<not> has_dnn_tag (ev_tags ev) then Err NoDNNTag
           else if dTag = [] then Err NoDTag
           else if primaryName = [] then Err NoNTag
           else case ValidateName primaryName of
             Inl e \<Rightarrow> Err (BadPrimaryName e)
           | Inr _ \<Rightarrow>
               (case check_all (\<lambda>n. case ValidateName n of Inl e \<Rightarrow> Err (BadOtherName n e) | Inr _ \<Rightarrow> Ok ())
                       otherNames of
                  Inl e \<Rightarrow> Err e
                | Inr _ \<Rightarrow> check_duplicates {primaryName} otherNames))"

section \<open>Connection events\<close>

definition validTypes :: "string list" where
  "validTypes = [''A'', ''AAAA'', ''CNAME'', ''MX'', ''TXT'', ''SRV'', ''NS'', ''PTR'', ''SOA'', ''CAA'']"

definition validateDNSRecord :: "json \<Rightarrow> (validation_error, unit) res" where
  "validateDNSRecord record =
     (case record of
        JArr recordArray \<Rightarrow>
          if length recordArray < 3 then Err RecordFormat
          else (case recordArray ! 0 of
                  JStr recordType \<Rightarrow>
                    if list_ex (\<lambda>valid. recordType = valid) validTypes then Ok ()
                    else Err (RecordUnsupported recordType)
                | _ \<Rightarrow> Err RecordType)
      | _ \<Rightarrow> Err RecordFormat)"

definition pemMarker :: string where
  "pemMarker = ''-----BEGIN CERTIFICATE-----''"

definition validateCertObject :: "json \<Rightarrow> (validation_error, unit) res" where
  "validateCertObject certObj =
     (case certObj of
        JObj certData \<Rightarrow>
          if jlookup certData ''type'' = None then Err CertNoType
          else (case jlookup certData ''pem'' of
                  None \<Rightarrow> Err CertNoPem
                | Some (JStr pem) \<Rightarrow> if contains_sub pem pemMarker then Ok () else Err CertPem
                | Some _ \<Rightarrow> Err CertPem)
      | _ \<Rightarrow> Err CertObject)"

definition validateCertificates :: "json \<Rightarrow> (validation_error, unit) res" where
  "validateCertificates cert =
     (case cert of
        JObj certMap \<Rightarrow>
          (case jlookup certMap ''chain'' of
             None \<Rightarrow> Ok ()
           | Some (JArr chainArray) \<Rightarrow> check_all validateCertObject chainArray
           | Some _ \<Rightarrow> Err ChainFormat)
      | _ \<Rightarrow> Err CertFormat)"

text \<open>One iteration of the loop over the keys of the document.\<close>

definition validateConnEntry :: "string \<times> json \<Rightarrow> (validation_error, unit) res" where
  "validateConnEntry entry =
     (case snd entry of
        JObj conn \<Rightarrow>
          (case (case jlookup conn ''records'' of
                   None \<Rightarrow> Ok ()
                 | Some (JArr recordsArray) \<Rightarrow>
                     (case check_all validateDNSRecord recordsArray of
                        Inl e \<Rightarrow> Err (BadRecord (fst entry) e) | Inr _ \<Rightarrow> Ok ())
                 | Some _ \<Rightarrow> Err (BadRecords (fst entry))) of
             Inl e \<Rightarrow> Err e
           | Inr _ \<Rightarrow>
               (case jlookup conn ''cert'' of
                  None \<Rightarrow> Ok ()
                | Some cert \<Rightarrow> (case validateCertificates cert of
                    Inl e \<Rightarrow> Err (BadCert (fst entry) e) | Inr _ \<Rightarrow> Ok ())))
      | _ \<Rightarrow> Err (BadConnection (fst entry)))"

definition ValidateConnectionEvent :: "event \<Rightarrow> (validation_error, unit) res" where
  "ValidateConnectionEvent ev =
     (if ev_kind ev \<noteq> 62600 then Err WrongKind
      else if \<not> has_dnn_tag (ev_tags ev) then Err NoDNNTag
      else if ev_content ev = [] then Err EmptyContent
      else case unmarshal_map (ev_content ev) of
        None \<Rightarrow> Err BadJSON
      | Some content \<Rightarrow>
          if content = [] then Err NoDomainKey else check_all validateConnEntry content)"

section \<open>Metadata, anchors and the dispatcher\<close>

definition ValidateMetadataEvent :: "event \<Rightarrow> (validation_error, unit) res" where
  "ValidateMetadataEvent ev =
     (if ev_kind ev \<noteq> 63600 then Err WrongKind
      else if \<not> has_dnn_tag (ev_tags ev) then Err NoDNNTag
      else if ev_content ev = [] then Err EmptyContent
      else if unmarshal_map (ev_content ev) = None then Err BadJSON
      else Ok ())"

text \<open>The flags \<^verbatim>\<open>hasDTag\<close> .. \<^verbatim>\<open>hasTransaction\<close> of the tag loop.\<close>

definition has_tag :: "string \<Rightarrow> tag list \<Rightarrow> bool" where
  "has_tag k ts \<longleftrightarrow> list_ex (tag_is k) ts"

definition ValidateAnchorEvent :: "event \<Rightarrow> (validation_error, unit) res" where
  "ValidateAnchorEvent ev =
     (if ev_kind ev \<noteq> 60600 then Err WrongKind
      else if \<not> has_dnn_tag (ev_tags ev) then Err NoDNNTag
      else if \<not> has_tag ''d'' (ev_tags ev) then Err NoDTag
      else if \<not> has_tag ''n'' (ev_tags ev) then Err NoNTag
      else if \<not> has_tag ''c'' (ev_tags ev) then Err NoCTag
      else if \<not> has_tag ''m'' (ev_tags ev) then Err NoMTag
      else if \<not> has_tag ''x'' (ev_tags ev) then Err NoXTag
      else Ok ())"

definition ValidateDNNEvent :: "(event \<Rightarrow> bool) \<Rightarrow> event \<Rightarrow> (validation_error, unit) res" where
  "ValidateDNNEvent checkSignature ev =
     (if \<not> checkSignature ev then Err BadSignature
      else if ev_kind ev = 61600 then ValidateNameEvent ev
      else if ev_kind ev = 62600 then ValidateConnectionEvent ev
      else if ev_kind ev = 63600 then ValidateMetadataEvent ev
      else if ev_kind ev = 60600 then ValidateAnchorEvent ev
      else Err UnsupportedKind)"

section \<open>Facts about accepted names\<close>

lemma ValidateName_case: "ValidateName (to_lower n) = ValidateName n"
  by (simp add: ValidateName_def)

lemma ValidateName_ok:
  "ValidateName n = Inr u \<longleftrightarrow> namePattern (to_lower n) \<and> \<not> contains_sub (to_lower n) ''--''
     \<and> to_lower n \<notin> set reservedNames"
  by (auto simp: ValidateName_def Let_def namePattern_def list_ex_iff)

lemma lower_char_dot [simp]: "lower_char (CHR ''.'') = CHR ''.''"
  by (simp add: lower_char_def byte_of_def)

lemma alnum_no_dot: "alnum c \<or> c = CHR ''-'' \<Longrightarrow> c \<noteq> CHR ''.''"
  by (auto simp: alnum_def is_letter_def is_digit_def byte_of_def)

lemma ValidateName_no_dot:
  assumes "ValidateName n = Inr u"
  shows "CHR ''.'' \<notin> set n"
proof
  assume "CHR ''.'' \<in> set n"
  then have "CHR ''.'' \<in> set (to_lower n)" unfolding to_lower_def by force
  moreover have "list_all (\<lambda>c. alnum c \<or> c = CHR ''-'') (to_lower n)"
    using assms by (simp add: ValidateName_ok namePattern_def)
  ultimately show False using alnum_no_dot by (auto simp: list_all_iff)
qed

lemma check_duplicates_ok:
  "check_duplicates seen ns = Inr u \<longleftrightarrow> distinct ns \<and> set ns \<inter> seen = {}"
  by (induction seen ns rule: check_duplicates.induct) auto

lemma ValidateNameEvent_ok:
  "ValidateNameEvent ev = Inr u \<longleftrightarrow>
     ev_kind ev = 61600 \<and> has_dnn_tag (ev_tags ev) \<and> last_tag ''d'' (ev_tags ev) \<noteq> []
     \<and> last_tag ''n'' (ev_tags ev) \<noteq> []
     \<and> (\<forall>n \<in> set (last_tag ''n'' (ev_tags ev) # tag_vals ''o'' (ev_tags ev)). ValidateName n = Inr ())
     \<and> distinct (last_tag ''n'' (ev_tags ev) # tag_vals ''o'' (ev_tags ev))"
  by (simp add: ValidateNameEvent_def Let_def check_all_ok check_duplicates_ok) blast

section \<open>Facts about connection documents\<close>

definition record_ok :: "json \<Rightarrow> bool" where
  "record_ok r \<longleftrightarrow> (\<exists>ty xs. r = JArr (JStr ty # xs) \<and> 2 \<le> length xs \<and> ty \<in> set validTypes)"

definition cert_object_ok :: "json \<Rightarrow> bool" where
  "cert_object_ok c \<longleftrightarrow> (\<exists>kvs pem. c = JObj kvs \<and> jlookup kvs ''type'' \<noteq> None
     \<and> jlookup kvs ''pem'' = Some (JStr pem) \<and> contains_sub pem pemMarker)"

definition entry_ok :: "json \<Rightarrow> bool" where
  "entry_ok v \<longleftrightarrow> (\<exists>conn. v = JObj conn
     \<and> (\<forall>rs. jlookup conn ''records'' = Some rs \<longrightarrow> (\<exists>xs. rs = JArr xs \<and> (\<forall>r\<in>set xs. record_ok r)))
     \<and> (\<forall>cert. jlookup conn ''cert'' = Some cert \<longrightarrow> (\<exists>cm. cert = JObj cm
          \<and> (\<forall>ch. jlookup cm ''chain'' = Some ch \<longrightarrow> (\<exists>xs. ch = JArr xs \<and> (\<forall>c\<in>set xs. cert_object_ok c))))))"

lemma validateDNSRecord_ok: "validateDNSRecord r = Inr () \<longleftrightarrow> record_ok r"
proof (cases r)
  case (JArr xs)
  then show ?thesis
    by (cases xs; cases "hd xs") (auto simp: validateDNSRecord_def record_ok_def list_ex_iff)
qed (auto simp: validateDNSRecord_def record_ok_def)

lemma validateCertObject_ok: "validateCertObject c = Inr () \<longleftrightarrow> cert_object_ok c"
  by (auto simp: validateCertObject_def cert_object_ok_def split: json.splits option.splits)

lemma validateCertificates_ok:
  "validateCertificates c = Inr () \<longleftrightarrow> (\<exists>cm. c = JObj cm
     \<and> (\<forall>ch. jlookup cm ''chain'' = Some ch \<longrightarrow> (\<exists>xs. ch = JArr xs \<and> (\<forall>c\<in>set xs. cert_object_ok c))))"
  by (auto simp: validateCertificates_def check_all_ok validateCertObject_ok
      split: json.splits option.splits)

lemma validateConnEntry_ok: "validateConnEntry (k, v) = Inr () \<longleftrightarrow> entry_ok v"
proof (cases v)
  case (JObj conn)
  have r: "(case jlookup conn ''records'' of None \<Rightarrow> Ok ()
      | Some (JArr rs) \<Rightarrow> (case check_all validateDNSRecord rs of Inl e \<Rightarrow> Err (BadRecord k e) | Inr _ \<Rightarrow> Ok ())
      | Some _ \<Rightarrow> Err (BadRecords k)) = Inr () \<longleftrightarrow>
    (\<forall>rs. jlookup conn ''records'' = Some rs \<longrightarrow> (\<exists>xs. rs = JArr xs \<and> (\<forall>r\<in>set xs. record_ok r)))"
    by (auto simp: check_all_ok validateDNSRecord_ok split: option.splits json.splits)
  have c: "(case jlookup conn ''cert'' of None \<Rightarrow> Ok ()
      | Some cert \<Rightarrow> (case validateCertificates cert of Inl e \<Rightarrow> Err (BadCert k e) | Inr _ \<Rightarrow> Ok ())) = Inr () \<longleftrightarrow>
    (\<forall>cert. jlookup conn ''cert'' = Some cert \<longrightarrow> validateCertificates cert = Inr ())"
    by (auto split: option.splits)
  show ?thesis
    using JObj r c
    unfolding validateConnEntry_def entry_ok_def validateCertificates_ok[symmetric] fst_conv snd_conv
    by simp
qed (auto simp: validateConnEntry_def entry_ok_def)

section \<open>Properties of the validator\<close>

text \<open>
  \<open>ValidateNameEvent\<close> accepts exactly the events of kind 61600 with a DNN tag, a non-empty d
  tag and a non-empty primary name, all of whose names (the primary one and the others) are,
  in lower case, labels of 2 to 63 letters, digits and inner single hyphens that are not
  reserved, and are pairwise different as byte strings.
\<close>

lemma name_event_accepted_iff:
  "ValidateNameEvent ev = Ok () \<longleftrightarrow>
     ev_kind ev = 61600 \<and> ''DNN'' \<in> set (tag_vals ''t'' (ev_tags ev))
     \<and> last_tag ''d'' (ev_tags ev) \<noteq> [] \<and> last_tag ''n'' (ev_tags ev) \<noteq> []
     \<and> distinct (last_tag ''n'' (ev_tags ev) # tag_vals ''o'' (ev_tags ev))
     \<and> list_all (\<lambda>n. namePattern (to_lower n) \<and> \<not> contains_sub (to_lower n) ''--''
          \<and> to_lower n \<notin> set reservedNames) (last_tag ''n'' (ev_tags ev) # tag_vals ''o'' (ev_tags ev))"
  by (auto simp: ValidateNameEvent_ok ValidateName_ok has_dnn_tag_vals list_all_iff)

definition bob_event :: event where
  "bob_event = \<lparr> ev_id = ''bob-name-1'', ev_pubkey = ''bob-pubkey'', ev_created_at = 1, ev_kind = 61600,
     ev_tags = [[''t'', ''DNN''], [''d'', ''names''], [''n'', ''Bob''], [''o'', ''bob'']],
     ev_content = [], ev_sig = [] \<rparr>"

text \<open>
  The duplicate check compares bytes while names are stored in lower case: an event whose
  primary name is \<open>Bob\<close> and whose other name is \<open>bob\<close> is accepted.
\<close>

lemma duplicate_names_modulo_case:
  "ValidateNameEvent bob_event = Ok ()
   \<and> last_tag ''n'' (ev_tags bob_event) = ''Bob'' \<and> tag_vals ''o'' (ev_tags bob_event) = [''bob'']
   \<and> to_lower ''Bob'' = ''bob''"
  by code_simp




end
