(* ===== verification/Policy.thy ===== *)
theory Policy
  imports Validation
begin

text \<open>
  \<^verbatim>\<open>src/internal/policy/policy.go\<close>: size limits, metadata content, anchor tag references, the
  reorganisation schedule, transaction and author checks, and the rate limits.  The interface
  \<^verbatim>\<open>RateLimitChecker\<close> is a record of functions; what it promises is the locale
  \<open>rate_limit_db\<close>, interpreted on the database in \<open>Database\<close>.  Parameters: the length of
  \<^verbatim>\<open>json.Marshal(event)\<close> (go-nostr's own marshaller) and whether \<^verbatim>\<open>nip19.Decode\<close> succeeds.
\<close>

datatype policy_error =
    MarshalFailed | TooLarge nat | UnsupportedEventKind | NotSelfTransfer | FeeTooLow | AddressMismatch
  | ContentNotJSON | NoMetadataField | Prohibited policy_error | DataURL | Base64File | BinarySignature
  | InField string policy_error | InIndex nat policy_error | EmptyTag string | NotNaddr string
  | BadNaddr string | BadTxLength | MissingTag string | DerivationMissing | AuthorUnknown | DBFailed

section \<open>Construction\<close>

datatype bitcoin_network = MainNetParams | TestNet3Params

record policy_enforcer =
  pe_network :: bitcoin_network
  pe_networkMode :: string
  pe_genesisBlock :: int
  pe_minFeeRate :: int
  pe_binaryPatterns :: "nat list list"

definition NewPolicyEnforcer :: "string \<Rightarrow> policy_enforcer" where
  "NewPolicyEnforcer networkMode =
     \<lparr> pe_network = (if networkMode = NetworkTestnet \<or> networkMode = NetworkDev
                     then TestNet3Params else MainNetParams),
       pe_networkMode = networkMode,
       pe_genesisBlock = GetGenesisBlock networkMode,
       pe_minFeeRate = GetMinFeeRate networkMode,
       pe_binaryPatterns = [[255, 216], [137, 80, 78], [71, 73, 70], [37, 80, 68], [80, 75]] \<rparr>"

section \<open>Event size\<close>

definition size_limit :: "int \<Rightarrow> nat option" where
  "size_limit kind =
     (if kind = 60600 then Some MaxSizeKind60600
      else if kind = 61600 then Some MaxSizeKind61600
      else if kind = 62600 then Some MaxSizeKind62600
      else if kind = 63600 then Some MaxSizeKind63600
      else if kind = 64600 then Some MaxSizeKind60600
      else if kind = 65600 then Some MaxSizeKind60600
      else None)"

definition ValidateEventSize :: "(event \<Rightarrow> nat option) \<Rightarrow> event \<Rightarrow> (policy_error, unit) res" where
  "ValidateEventSize marshal_length ev =
     (case marshal_length ev of
        None \<Rightarrow> Err MarshalFailed
      | Some sz \<Rightarrow>
          (case size_limit (ev_kind ev) of
             None \<Rightarrow> Err UnsupportedEventKind
           | Some lim \<Rightarrow> if sz > lim then Err (TooLarge (lim div 1024)) else Ok ()))"

section \<open>Anchor transactions\<close>

record policy_tx =
  pt_TxID :: string
  pt_InputAddresses :: "string list"
  pt_OutputAddresses :: "string list"
  pt_FeeRate :: int
  pt_Address :: string
  pt_EventPubkey :: string

definition policy_isSelfTransfer :: "policy_tx \<Rightarrow> bool" where
  "policy_isSelfTransfer tx \<longleftrightarrow>
     length (remdups (pt_InputAddresses tx @ pt_OutputAddresses tx)) = 1
     \<and> length (pt_InputAddresses tx) > 0 \<and> length (pt_OutputAddresses tx) > 0"

definition deriveBitcoinAddress :: "string \<Rightarrow> (policy_error, string) res" where
  "deriveBitcoinAddress pubkeyHex = Err DerivationMissing"

definition verifyAddressMatch :: "string \<Rightarrow> string \<Rightarrow> bool" where
  "verifyAddressMatch bitcoinAddr nostrPubkey =
     (case deriveBitcoinAddress nostrPubkey of Inl _ \<Rightarrow> False | Inr derivedAddr \<Rightarrow> derivedAddr = bitcoinAddr)"

definition ValidateAnchorTransaction :: "policy_enforcer \<Rightarrow> policy_tx \<Rightarrow> (policy_error, unit) res" where
  "ValidateAnchorTransaction pe tx =
     (if \<not> policy_isSelfTransfer tx then Err NotSelfTransfer
      else if pt_FeeRate tx < pe_minFeeRate pe then Err FeeTooLow
      else if \<not> verifyAddressMatch (pt_Address tx) (pt_EventPubkey tx) then Err AddressMismatch
      else Ok ())"

section \<open>Metadata content\<close>

definition is_upper :: "char \<Rightarrow> bool" where
  "is_upper c \<longleftrightarrow> 65 \<le> byte_of c \<and> byte_of c \<le> 90"

definition is_alpha :: "char \<Rightarrow> bool" where
  "is_alpha c \<longleftrightarrow> is_letter c \<or> is_upper c"

text \<open>The pattern \<^verbatim>\<open>^data:[a-zA-Z]+/[a-zA-Z0-9.+-]+;base64,\<close>.\<close>

definition mime_char :: "char \<Rightarrow> bool" where
  "mime_char c \<longleftrightarrow> is_alpha c \<or> is_digit c \<or> c \<in> {CHR ''.'', CHR ''+'', CHR ''-''}"

definition dataURLPattern :: "string \<Rightarrow> bool" where
  "dataURLPattern s =
     (has_prefix s ''data:'' \<and>
      (let s1 = drop 5 s; s2 = dropWhile is_alpha s1 in
       takeWhile is_alpha s1 \<noteq> [] \<and> has_prefix s2 ''/'' \<and>
       (let s3 = drop 1 s2 in
        takeWhile mime_char s3 \<noteq> [] \<and> has_prefix (dropWhile mime_char s3) '';base64,'')))"

text \<open>The pattern \<^verbatim>\<open>^[A-Za-z0-9+/]{100,}={0,2}$\<close>.\<close>

definition base64_char :: "char \<Rightarrow> bool" where
  "base64_char c \<longleftrightarrow> is_alpha c \<or> is_digit c \<or> c \<in> {CHR ''+'', CHR ''/''}"

definition base64Pattern :: "string \<Rightarrow> bool" where
  "base64Pattern s \<longleftrightarrow> length (takeWhile base64_char s) \<ge> 100
     \<and> dropWhile base64_char s \<in> {'''', ''='', ''==''}"

definition check_string :: "policy_enforcer \<Rightarrow> string \<Rightarrow> (policy_error, unit) res" where
  "check_string pe v =
     (if dataURLPattern v then Err DataURL
      else if length v > 2048 \<and> base64Pattern v then Err Base64File
      else if list_ex (\<lambda>sg. contains_sub v (map char_of sg)) (pe_binaryPatterns pe)
        then Err BinarySignature
      else Ok ())"

fun checkForBinaryData :: "policy_enforcer \<Rightarrow> json \<Rightarrow> (policy_error, unit) res"
and check_fields :: "policy_enforcer \<Rightarrow> (string \<times> json) list \<Rightarrow> (policy_error, unit) res"
and check_items :: "policy_enforcer \<Rightarrow> nat \<Rightarrow> json list \<Rightarrow> (policy_error, unit) res"
where
  "checkForBinaryData pe (JStr v) = check_string pe v"
| "checkForBinaryData pe (JObj kvs) = check_fields pe kvs"
| "checkForBinaryData pe (JArr xs) = check_items pe 0 xs"
| "checkForBinaryData pe JNull = Ok ()"
| "checkForBinaryData pe (JBool b) = Ok ()"
| "checkForBinaryData pe (JNum n) = Ok ()"
| "check_fields pe [] = Ok ()"
| "check_fields pe ((k, v) # kvs) =
     (case checkForBinaryData pe v of Inl e \<Rightarrow> Err (InField k e) | Inr _ \<Rightarrow> check_fields pe kvs)"
| "check_items pe i [] = Ok ()"
| "check_items pe i (x # xs) =
     (case checkForBinaryData pe x of Inl e \<Rightarrow> Err (InIndex i e) | Inr _ \<Rightarrow> check_items pe (i + 1) xs)"

definition ValidateMetadataContent :: "policy_enforcer \<Rightarrow> event \<Rightarrow> (policy_error, unit) res" where
  "ValidateMetadataContent pe ev =
     (if ev_kind ev \<noteq> 63600 then Ok ()
      else case unmarshal_map (ev_content ev) of
        None \<Rightarrow> Err ContentNotJSON
      | Some content \<Rightarrow>
          (case jlookup content ''metadata'' of
             None \<Rightarrow> Err NoMetadataField
           | Some metadata \<Rightarrow>
               (case checkForBinaryData pe metadata of Inl e \<Rightarrow> Err (Prohibited e) | Inr _ \<Rightarrow> Ok ())))"

section \<open>Reserved names\<close>

definition IsReservedAddress :: "string \<Rightarrow> bool" where
  "IsReservedAddress address \<longleftrightarrow> ReservedAddresses address \<noteq> None"

definition IsReservedPrefix :: "string \<Rightarrow> bool" where
  "IsReservedPrefix p \<longleftrightarrow> ReservedPrefixes (to_lower p) \<noteq> None"

definition GetReservedPrefixOwner :: "string \<Rightarrow> string" where
  "GetReservedPrefixOwner p = (case ReservedPrefixes (to_lower p) of None \<Rightarrow> [] | Some v \<Rightarrow> v)"

section \<open>Anchor tag references\<close>

text \<open>One iteration of the tag loop: its early returns.\<close>

definition check_ref :: "(string \<Rightarrow> bool) \<Rightarrow> string \<Rightarrow> string \<Rightarrow> (policy_error, unit) res" where
  "check_ref nip19_ok k v =
     (if v = [] then Err (EmptyTag k)
      else if \<not> has_prefix v ''naddr1'' then Err (NotNaddr k)
      else if \<not> nip19_ok v then Err (BadNaddr k)
      else Ok ())"

definition check_anchor_tag :: "(string \<Rightarrow> bool) \<Rightarrow> tag \<Rightarrow> (policy_error, unit) res" where
  "check_anchor_tag nip19_ok t =
     (if length t < 2 then Ok ()
      else if t ! 0 = ''d'' then (if t ! 1 = [] then Err (EmptyTag ''d'') else Ok ())
      else if t ! 0 = ''n'' then check_ref nip19_ok ''n'' (t ! 1)
      else if t ! 0 = ''c'' then check_ref nip19_ok ''c'' (t ! 1)
      else if t ! 0 = ''m'' then check_ref nip19_ok ''m'' (t ! 1)
      else if t ! 0 = ''x'' then
        (if t ! 1 = [] then Err (EmptyTag ''x'')
         else if length (t ! 1) \<noteq> 64 then Err BadTxLength else Ok ())
      else Ok ())"

definition ValidateTagReferences :: "(string \<Rightarrow> bool) \<Rightarrow> event \<Rightarrow> (policy_error, unit) res" where
  "ValidateTagReferences nip19_ok ev =
     (if ev_kind ev \<noteq> 60600 then Ok ()
      else case check_all (check_anchor_tag nip19_ok) (ev_tags ev) of
        Inl e \<Rightarrow> Err e
      | Inr _ \<Rightarrow>
          if \<not> has_tag ''d'' (ev_tags ev) then Err (MissingTag ''d'')
          else if \<not> has_tag ''n'' (ev_tags ev) then Err (MissingTag ''n'')
          else if \<not> has_tag ''c'' (ev_tags ev) then Err (MissingTag ''c'')
          else if \<not> has_tag ''m'' (ev_tags ev) then Err (MissingTag ''m'')
          else if \<not> has_tag ''x'' (ev_tags ev) then Err (MissingTag ''x'')
          else Ok ())"

section \<open>Reorganisation schedule\<close>

definition ShouldCheckReorg :: "int \<Rightarrow> bool" where
  "ShouldCheckReorg currentDNNBlock \<longleftrightarrow> currentDNNBlock > 0 \<and> currentDNNBlock mod ReorgCheckInterval = 0"

definition GetReorgCheckRange :: "policy_enforcer \<Rightarrow> int \<Rightarrow> int \<times> int" where
  "GetReorgCheckRange pe currentBitcoinBlock =
     (let start = wrap64 (currentBitcoinBlock - ReorgLookback)
      in (if start < pe_genesisBlock pe then pe_genesisBlock pe else start, currentBitcoinBlock))"

section \<open>Authors\<close>

record stored_address =
  sa_Address :: string
  sa_Pubkey :: string
  sa_CreatedAt :: int

definition ValidateEventAuthor :: "event \<Rightarrow> stored_address list \<Rightarrow> (policy_error, unit) res" where
  "ValidateEventAuthor ev storedAddresses =
     (if ev_kind ev \<noteq> 61600 \<and> ev_kind ev \<noteq> 62600 \<and> ev_kind ev \<noteq> 63600 then Ok ()
      else if list_ex (\<lambda>stored. sa_Pubkey stored = ev_pubkey ev) storedAddresses then Ok ()
      else Err AuthorUnknown)"

section \<open>Rate limits\<close>

record RateLimitResult =
  EventsToDelete :: "string list"
  DTagsToDelete :: "string list"
  VersionExceeded :: bool
  DTagExceeded :: bool

record RateLimitChecker =
  rl_CountEventVersions :: "string \<Rightarrow> int \<Rightarrow> string \<Rightarrow> (unit, nat) res"
  rl_CountDTagsForKind :: "string \<Rightarrow> int \<Rightarrow> (unit, nat) res"
  rl_GetOldestEventVersion :: "string \<Rightarrow> int \<Rightarrow> string \<Rightarrow> (unit, string) res"
  rl_GetOldestDTagForKind :: "string \<Rightarrow> int \<Rightarrow> (unit, string) res"
  rl_IsDTagReferencedByAnchor :: "string \<Rightarrow> int \<Rightarrow> string \<Rightarrow> (unit, bool) res"

definition extractDTag :: "event \<Rightarrow> string" where
  "extractDTag ev = first_tag ''d'' (ev_tags ev)"

definition empty_result :: RateLimitResult where
  "empty_result = \<lparr> EventsToDelete = [], DTagsToDelete = [], VersionExceeded = False, DTagExceeded = False \<rparr>"

text \<open>
  The two checks.  The Go function returns its result together with an error; on an error the
  callers only look at the error, so a failing query is \<open>Err\<close> here.  The error of the second
  \<^verbatim>\<open>CountEventVersions\<close> is discarded by the code, its count is then 0.
\<close>

definition version_check ::
  "RateLimitChecker \<Rightarrow> string \<Rightarrow> int \<Rightarrow> string \<Rightarrow> (unit, RateLimitResult) res" where
  "version_check db pubkey kind dTag =
     (case rl_CountEventVersions db pubkey kind dTag of
        Inl e \<Rightarrow> Err e
      | Inr versionCount \<Rightarrow>
          if versionCount \<ge> MaxVersionsPerDTag then
            (case rl_GetOldestEventVersion db pubkey kind dTag of
               Inl e \<Rightarrow> Err e
             | Inr oldestID \<Rightarrow>
                 Ok (if oldestID \<noteq> [] then empty_result \<lparr> EventsToDelete := [oldestID], VersionExceeded := True \<rparr>
                     else empty_result))
          else Ok empty_result)"

definition dtag_check ::
  "RateLimitChecker \<Rightarrow> string \<Rightarrow> int \<Rightarrow> string \<Rightarrow> RateLimitResult \<Rightarrow> (unit, RateLimitResult) res" where
  "dtag_check db pubkey kind dTag result =
     (let existingCount = (case rl_CountEventVersions db pubkey kind dTag of Inl _ \<Rightarrow> 0 | Inr n \<Rightarrow> n) in
      if existingCount = 0 then
        (case rl_CountDTagsForKind db pubkey kind of
           Inl e \<Rightarrow> Err e
         | Inr dTagCount \<Rightarrow>
             if dTagCount \<ge> MaxDTagsPerKind then
               (case rl_GetOldestDTagForKind db pubkey kind of
                  Inl e \<Rightarrow> Err e
                | Inr oldestDTag \<Rightarrow>
                    if oldestDTag \<noteq> [] then
                      (case rl_IsDTagReferencedByAnchor db pubkey kind oldestDTag of
                         Inl e \<Rightarrow> Err e
                       | Inr isReferenced \<Rightarrow>
                           Ok (if \<not> isReferenced
                               then result \<lparr> DTagsToDelete := DTagsToDelete result @ [oldestDTag], DTagExceeded := True \<rparr>
                               else result))
                    else Ok result)
             else Ok result)
      else Ok result)"

definition EnforceRateLimits :: "event \<Rightarrow> RateLimitChecker \<Rightarrow> (unit, RateLimitResult) res" where
  "EnforceRateLimits ev db =
     (if ev_kind ev < 60600 \<or> ev_kind ev > 65600 then Ok empty_result
      else
        let dTag = extractDTag ev in
        if dTag = [] then Ok empty_result
        else case version_check db (ev_pubkey ev) (ev_kind ev) dTag of
          Inl e \<Rightarrow> Err e
        | Inr result \<Rightarrow> dtag_check db (ev_pubkey ev) (ev_kind ev) dTag result)"

end
