(* ===== verification/Database.thy ===== *)
theory Database
  imports Tables Policy
begin

text \<open>
  \<^verbatim>\<open>src/internal/database/database.go\<close>: the tables of the node (after the migrations) and the
  operations that store events, anchors, transactions, blocks and the sync state.  A table is a
  list of rows in rowid order.  SQL statements are assumed to succeed (a failing statement is
  I/O).  Log statements slice identifiers; ids and public keys have at least eight bytes, and
  the one slice that an event can break, \<^verbatim>\<open>dTag[:16]\<close> in \<open>StoreAnchorEvent\<close>, is the error \<open>DPanic\<close>.
  Parameters: the clock, and \<^verbatim>\<open>nip19.Decode\<close> on naddr strings.
\<close>

section \<open>Tables\<close>

record ev_row =
  r_id :: string
  r_pubkey :: string
  r_created_at :: int
  r_updated_at :: int
  r_d_tag :: string
  r_content :: string
  r_sig :: string

record name_row = ev_row +
  r_primary_name :: string
  r_other_names :: string

record tagged_row = ev_row +
  r_tags :: "tag list"

record anchor_row = ev_row +
  a_name_ref :: string
  a_conn_ref :: string
  a_meta_ref :: string
  a_txid :: string
  a_bitcoin_block :: int
  a_dnn_block :: int
  a_position :: int
  a_tags :: "tag list"

record btx_row =
  t_id :: string
  t_bitcoin_block :: int
  t_dnn_block :: int
  t_position :: int
  t_address :: string
  t_fee_rate :: int
  t_tie_position :: int
  t_tie_digit :: int
  t_discovered_at :: int
  t_has_anchor :: bool
  t_anchor_id :: "string option"
  t_checked_at :: "int option"

record block_row =
  b_number :: int
  b_bitcoin :: int
  b_hash :: string
  b_timestamp :: int
  b_created_at :: int
  b_synced_at :: int

record database =
  name_events :: "name_row list"
  connection_events :: "tagged_row list"
  metadata_events :: "ev_row list"
  anchor_events :: "anchor_row list"
  bitcoin_transactions :: "btx_row list"
  dnn_blocks :: "block_row list"
  sync_state :: "(string \<times> string) list"
  tx_block_index :: "(string \<times> string) list"

datatype db_error = DPanic | DOldTags | DMissingTags | DNewerExists | DNewerForTx | DLostTie
  | DBlockNotFound | DNoRows | DBadNaddr | DUnsupportedKind | DEventNotFound | DNoSuchColumn

definition empty_db :: database where
  "empty_db = \<lparr> name_events = [], connection_events = [], metadata_events = [], anchor_events = [],
     bitcoin_transactions = [], dnn_blocks = [],
     sync_state = [(''last_bitcoin_block'', ''930129''), (''last_dnn_block'', ''-1''),
       (''last_sync_time'', ''0''), (''last_reorg_check'', ''0'')],
     tx_block_index = [] \<rparr>"

text \<open>The uniqueness constraints of the schema.\<close>

definition id_clash :: "('a ev_row_scheme) \<Rightarrow> ('a ev_row_scheme) \<Rightarrow> bool" where
  "id_clash r s \<longleftrightarrow> r_id r = r_id s"

definition anchor_clash :: "anchor_row \<Rightarrow> anchor_row \<Rightarrow> bool" where
  "anchor_clash r s \<longleftrightarrow> r_id r = r_id s \<or> a_txid r = a_txid s"

definition btx_clash :: "btx_row \<Rightarrow> btx_row \<Rightarrow> bool" where
  "btx_clash r s \<longleftrightarrow> t_id r = t_id s
     \<or> t_bitcoin_block r = t_bitcoin_block s \<and> t_position r = t_position s"

definition block_clash :: "block_row \<Rightarrow> block_row \<Rightarrow> bool" where
  "block_clash r s \<longleftrightarrow> b_number r = b_number s \<or> b_bitcoin r = b_bitcoin s"

definition key_clash :: "(string \<times> string) \<Rightarrow> (string \<times> string) \<Rightarrow> bool" where
  "key_clash r s \<longleftrightarrow> fst r = fst s"

interpretation id_table: unique_table id_clash
  by unfold_locales (simp add: id_clash_def)

interpretation anchor_table: unique_table anchor_clash
  by unfold_locales (auto simp: anchor_clash_def)

interpretation btx_table: unique_table btx_clash
  by unfold_locales (auto simp: btx_clash_def)

interpretation block_table: unique_table block_clash
  by unfold_locales (auto simp: block_clash_def)

interpretation key_table: unique_table key_clash
  by unfold_locales (simp add: key_clash_def)

text \<open>The invariant of the database.\<close>

definition db_keys :: "database \<Rightarrow> bool" where
  "db_keys d \<longleftrightarrow> unique_rows id_clash (name_events d) \<and> unique_rows id_clash (connection_events d)
     \<and> unique_rows id_clash (metadata_events d) \<and> unique_rows anchor_clash (anchor_events d)
     \<and> unique_rows btx_clash (bitcoin_transactions d) \<and> unique_rows block_clash (dnn_blocks d)
     \<and> unique_rows key_clash (sync_state d) \<and> unique_rows key_clash (tx_block_index d)"

section \<open>Storing name, connection and metadata events\<close>

text \<open>
  The addressable-event replacement that the three functions spell out on their tables: skip an
  event that is already there, skip an older one, delete the older versions, insert.
\<close>

definition nip33_store :: "('a ev_row_scheme) \<Rightarrow> ('a ev_row_scheme) list \<Rightarrow> ('a ev_row_scheme) list" where
  "nip33_store row t =
     (if list_ex (\<lambda>r. r_id r = r_id row) t then t
      else if r_d_tag row = [] then t @ [row]
      else if list_ex (\<lambda>r. r_pubkey r = r_pubkey row \<and> r_d_tag r = r_d_tag row
                 \<and> r_created_at r > r_created_at row) t then t
      else delete_where (\<lambda>r. r_pubkey r = r_pubkey row \<and> r_d_tag r = r_d_tag row
             \<and> r_created_at r < r_created_at row) t @ [row])"

definition otherNamesJSON :: "string list \<Rightarrow> string" where
  "otherNamesJSON names =
     (case names of
        [] \<Rightarrow> ''[]''
      | n # ns \<Rightarrow> foldl (\<lambda>s m. s @ '','' @ [CHR 0x22] @ m @ [CHR 0x22]) ([CHR ''['', CHR 0x22] @ n @ [CHR 0x22]) ns @ '']'')"

definition name_row_of :: "event \<Rightarrow> name_row" where
  "name_row_of ev = \<lparr> r_id = ev_id ev, r_pubkey = ev_pubkey ev, r_created_at = ev_created_at ev,
     r_updated_at = ev_created_at ev, r_d_tag = last_tag ''d'' (ev_tags ev), r_content = ev_content ev,
     r_sig = ev_sig ev, r_primary_name = to_lower (last_tag ''n'' (ev_tags ev)),
     r_other_names = otherNamesJSON (map to_lower (tag_vals ''o'' (ev_tags ev))) \<rparr>"

definition StoreNameEvent :: "event \<Rightarrow> database \<Rightarrow> database" where
  "StoreNameEvent ev d = d \<lparr> name_events := nip33_store (name_row_of ev) (name_events d) \<rparr>"

definition conn_row_of :: "event \<Rightarrow> tagged_row" where
  "conn_row_of ev = \<lparr> r_id = ev_id ev, r_pubkey = ev_pubkey ev, r_created_at = ev_created_at ev,
     r_updated_at = ev_created_at ev, r_d_tag = first_tag ''d'' (ev_tags ev), r_content = ev_content ev,
     r_sig = ev_sig ev, r_tags = ev_tags ev \<rparr>"

definition StoreConnectionEvent :: "event \<Rightarrow> database \<Rightarrow> database" where
  "StoreConnectionEvent ev d =
     d \<lparr> connection_events := nip33_store (conn_row_of ev) (connection_events d) \<rparr>"

definition meta_row_of :: "event \<Rightarrow> ev_row" where
  "meta_row_of ev = \<lparr> r_id = ev_id ev, r_pubkey = ev_pubkey ev, r_created_at = ev_created_at ev,
     r_updated_at = ev_created_at ev, r_d_tag = first_tag ''d'' (ev_tags ev), r_content = ev_content ev,
     r_sig = ev_sig ev \<rparr>"

definition StoreMetadataEvent :: "event \<Rightarrow> database \<Rightarrow> database" where
  "StoreMetadataEvent ev d =
     d \<lparr> metadata_events := nip33_store (meta_row_of ev) (metadata_events d) \<rparr>"

section \<open>Storing anchors\<close>

definition UpdateBitcoinTransactionWithAnchor :: "string \<Rightarrow> string \<Rightarrow> database \<Rightarrow> database" where
  "UpdateBitcoinTransactionWithAnchor txID anchorEventID d =
     d \<lparr> bitcoin_transactions := update_where (\<lambda>r. t_id r = txID)
           (\<lambda>r. r \<lparr> t_has_anchor := True, t_anchor_id := Some anchorEventID \<rparr>) (bitcoin_transactions d) \<rparr>"

text \<open>
  \<^verbatim>\<open>json.Unmarshal\<close> of the content into a struct with the one field \<^verbatim>\<open>updated_at\<close> (matched without
  regard to case); any error keeps the creation time.
\<close>

definition content_updated_at :: "string \<Rightarrow> int option" where
  "content_updated_at content =
     (case parse_json content of
        Some (JObj kvs) \<Rightarrow>
          (case rev (filter (\<lambda>p. to_lower (fst p) = ''updated_at'') kvs) of
             (_, JNum n) # _ \<Rightarrow> parse_int64 n
           | _ \<Rightarrow> None)
      | _ \<Rightarrow> None)"

definition anchor_updated_at :: "event \<Rightarrow> int" where
  "anchor_updated_at ev =
     (if ev_content ev = [] then ev_created_at ev
      else case content_updated_at (ev_content ev) of
        Some u \<Rightarrow> if u > 0 then u else ev_created_at ev
      | None \<Rightarrow> ev_created_at ev)"

definition old_anchor_tags :: "string list" where
  "old_anchor_tags = [''names'', ''connection'', ''metadata'', ''transaction'']"

definition anchor_row_of :: "event \<Rightarrow> int \<Rightarrow> int \<Rightarrow> int \<Rightarrow> anchor_row" where
  "anchor_row_of ev bitcoinBlock dnnBlock position =
     \<lparr> r_id = ev_id ev, r_pubkey = ev_pubkey ev, r_created_at = ev_created_at ev,
       r_updated_at = anchor_updated_at ev, r_d_tag = last_tag ''d'' (ev_tags ev),
       r_content = ev_content ev, r_sig = ev_sig ev,
       a_name_ref = last_tag ''n'' (ev_tags ev), a_conn_ref = last_tag ''c'' (ev_tags ev),
       a_meta_ref = last_tag ''m'' (ev_tags ev), a_txid = last_tag ''x'' (ev_tags ev),
       a_bitcoin_block = bitcoinBlock, a_dnn_block = dnnBlock, a_position = position,
       a_tags = ev_tags ev \<rparr>"

text \<open>The existing anchor at the same address: the one with the largest \<^verbatim>\<open>updated_at\<close>.\<close>

definition existing_anchor :: "anchor_row \<Rightarrow> database \<Rightarrow> anchor_row option" where
  "existing_anchor row d =
     (case order_by (\<lambda>r. - r_updated_at r)
        (filter (\<lambda>r. r_pubkey r = r_pubkey row \<and> r_d_tag r = r_d_tag row) (anchor_events d)) of
        [] \<Rightarrow> None | r # _ \<Rightarrow> Some r)"

definition same_refs :: "anchor_row \<Rightarrow> anchor_row \<Rightarrow> bool" where
  "same_refs r s \<longleftrightarrow> a_name_ref r = a_name_ref s \<and> a_conn_ref r = a_conn_ref s
     \<and> a_meta_ref r = a_meta_ref s"

text \<open>The conflict query looks only at anchors of the same public key.\<close>

definition tx_conflict :: "anchor_row \<Rightarrow> database \<Rightarrow> anchor_row option" where
  "tx_conflict row d = find (\<lambda>r. a_txid r = a_txid row \<and> r_pubkey r = r_pubkey row) (anchor_events d)"

definition put_anchor :: "anchor_row \<Rightarrow> database \<Rightarrow> database" where
  "put_anchor row d =
     UpdateBitcoinTransactionWithAnchor (a_txid row) (r_id row)
       (d \<lparr> anchor_events := insert_or_replace anchor_clash row (anchor_events d) \<rparr>)"

text \<open>Byte-wise order of SQL text and Go strings.\<close>

fun str_less :: "string \<Rightarrow> string \<Rightarrow> bool" where
  "str_less [] [] = False"
| "str_less [] (d # ds) = True"
| "str_less (c # cs) [] = False"
| "str_less (c # cs) (d # ds) = (byte_of c < byte_of d \<or> c = d \<and> str_less cs ds)"

text \<open>The conflict branch: the log slices, then latest wins, then the higher id.\<close>

definition resolve_tx_conflict :: "anchor_row \<Rightarrow> anchor_row \<Rightarrow> database \<Rightarrow> (db_error, database) res" where
  "resolve_tx_conflict row conflict d =
     (if length (r_d_tag conflict) < 16 \<or> length (r_d_tag row) < 16 then Err DPanic
      else if r_created_at conflict > r_created_at row then Err DNewerForTx
      else if r_created_at conflict = r_created_at row \<and> str_less (r_id row) (r_id conflict) then Err DLostTie
      else if length (a_txid row) < 16 then Err DPanic
      else Ok (d \<lparr> anchor_events := delete_where (\<lambda>r. r_id r = r_id conflict) (anchor_events d) \<rparr>))"

definition StoreAnchorEvent :: "event \<Rightarrow> int \<Rightarrow> int \<Rightarrow> int \<Rightarrow> database \<Rightarrow> (db_error, database) res" where
  "StoreAnchorEvent ev bitcoinBlock dnnBlock position d =
     (let row = anchor_row_of ev bitcoinBlock dnnBlock position in
      if list_ex (\<lambda>k. has_tag k (ev_tags ev)) old_anchor_tags then Err DOldTags
      else if r_d_tag row = [] \<or> a_name_ref row = [] \<or> a_conn_ref row = [] \<or> a_meta_ref row = []
           \<or> a_txid row = [] then Err DMissingTags
      else
        let proceed = (case tx_conflict row d of
              Some conflict \<Rightarrow>
                if r_d_tag conflict \<noteq> r_d_tag row
                then bind_res (resolve_tx_conflict row conflict d) (\<lambda>d'. Ok (put_anchor row d'))
                else Ok (put_anchor row d)
            | None \<Rightarrow> Ok (put_anchor row d))
        in case existing_anchor row d of
             None \<Rightarrow> proceed
           | Some old \<Rightarrow>
               if r_updated_at old > r_updated_at row then Err DNewerExists
               else if r_updated_at old = r_updated_at row \<and> r_id old = r_id row \<and> same_refs old row then Ok d
               else proceed)"

section \<open>Transactions, blocks and the sync state\<close>

definition StoreBitcoinTransaction ::
  "int \<Rightarrow> string \<Rightarrow> int \<Rightarrow> int \<Rightarrow> int \<Rightarrow> string \<Rightarrow> int \<Rightarrow> int \<Rightarrow> int \<Rightarrow> database \<Rightarrow> database" where
  "StoreBitcoinTransaction now txID bitcoinBlock dnnBlock position address feeRate tiePosition tieDigit d =
     d \<lparr> bitcoin_transactions := insert_or_ignore btx_clash
           \<lparr> t_id = txID, t_bitcoin_block = bitcoinBlock, t_dnn_block = dnnBlock, t_position = position,
             t_address = address, t_fee_rate = feeRate, t_tie_position = tiePosition, t_tie_digit = tieDigit,
             t_discovered_at = now, t_has_anchor = False, t_anchor_id = None, t_checked_at = None \<rparr>
           (bitcoin_transactions d) \<rparr>"

definition GetBitcoinTransaction :: "string \<Rightarrow> database \<Rightarrow> btx_row option" where
  "GetBitcoinTransaction txID d = find (\<lambda>r. t_id r = txID) (bitcoin_transactions d)"

definition HasValidTransactionForAddresses :: "string list \<Rightarrow> database \<Rightarrow> bool" where
  "HasValidTransactionForAddresses addresses d =
     (if addresses = [] then False
      else count_where (\<lambda>r. t_address r \<in> set addresses) (bitcoin_transactions d) > 0)"

definition block_created :: "int \<Rightarrow> int \<Rightarrow> database \<Rightarrow> int" where
  "block_created dnnBlockNum now d =
     (case find (\<lambda>r. b_number r = dnnBlockNum) (dnn_blocks d) of Some r \<Rightarrow> b_created_at r | None \<Rightarrow> now)"

definition CreateOrUpdateDNNBlock ::
  "int \<Rightarrow> int \<Rightarrow> int \<Rightarrow> string \<Rightarrow> int \<Rightarrow> database \<Rightarrow> database" where
  "CreateOrUpdateDNNBlock now dnnBlockNum bitcoinBlockNum blockHash blockTimestamp d =
     d \<lparr> dnn_blocks := insert_or_replace block_clash
           \<lparr> b_number = dnnBlockNum, b_bitcoin = bitcoinBlockNum, b_hash = blockHash,
             b_timestamp = blockTimestamp, b_created_at = block_created dnnBlockNum now d,
             b_synced_at = now \<rparr> (dnn_blocks d) \<rparr>"

text \<open>Inside the transaction of a reorganisation; the creation time takes its default, now.\<close>

definition UpdateDNNBlock :: "int \<Rightarrow> int \<Rightarrow> int \<Rightarrow> string \<Rightarrow> int \<Rightarrow> database \<Rightarrow> database" where
  "UpdateDNNBlock now dnnBlockNum bitcoinBlockNum blockHash blockTimestamp d =
     d \<lparr> dnn_blocks := insert_or_replace block_clash
           \<lparr> b_number = dnnBlockNum, b_bitcoin = bitcoinBlockNum, b_hash = blockHash,
             b_timestamp = blockTimestamp, b_created_at = now, b_synced_at = now \<rparr> (dnn_blocks d) \<rparr>"

definition GetBitcoinBlockHash :: "int \<Rightarrow> database \<Rightarrow> (db_error, string) res" where
  "GetBitcoinBlockHash blockNumber d =
     (case find (\<lambda>r. b_bitcoin r = blockNumber) (dnn_blocks d) of
        None \<Rightarrow> Err DBlockNotFound | Some r \<Rightarrow> Ok (b_hash r))"

definition InvalidateDNNBlocksAfter :: "int \<Rightarrow> database \<Rightarrow> database" where
  "InvalidateDNNBlocksAfter dnnBlockNum d =
     d \<lparr> dnn_blocks := delete_where (\<lambda>r. b_number r > dnnBlockNum) (dnn_blocks d) \<rparr>"

definition RemoveAnchorsAfterBlock :: "int \<Rightarrow> database \<Rightarrow> database" where
  "RemoveAnchorsAfterBlock dnnBlockNum d =
     d \<lparr> anchor_events := delete_where (\<lambda>r. a_dnn_block r > dnnBlockNum) (anchor_events d) \<rparr>"

text \<open>
  The query of \<^verbatim>\<open>GetAnchorByTransactionID\<close> joins on \<^verbatim>\<open>a.name_event_id\<close>, \<^verbatim>\<open>a.connection_event_id\<close> and
  \<^verbatim>\<open>a.metadata_event_id\<close>, which \<^verbatim>\<open>anchor_events\<close> does not have (its columns are listed below):
  SQLite rejects the statement, so the function always returns an error.
\<close>

definition anchor_columns :: "string list" where
  "anchor_columns = [''id'', ''pubkey'', ''created_at'', ''updated_at'', ''d_tag'', ''name_event_ref'',
     ''connection_event_ref'', ''metadata_event_ref'', ''transaction_id'', ''bitcoin_block_number'',
     ''dnn_block_number'', ''position'', ''content'', ''sig'', ''tags_json'']"

definition GetAnchorByTransactionID :: "string \<Rightarrow> database \<Rightarrow> (db_error, anchor_row option) res" where
  "GetAnchorByTransactionID txID d =
     (if list_all (\<lambda>c. c \<in> set anchor_columns) [''name_event_id'', ''connection_event_id'', ''metadata_event_id'']
      then Ok (find (\<lambda>r. a_txid r = txID) (anchor_events d))
      else Err DNoSuchColumn)"

definition UpdateAnchorPosition :: "string \<Rightarrow> int \<Rightarrow> int \<Rightarrow> int \<Rightarrow> database \<Rightarrow> database" where
  "UpdateAnchorPosition anchorID dnnBlock bitcoinBlock position d =
     d \<lparr> anchor_events := update_where (\<lambda>r. r_id r = anchorID)
           (\<lambda>r. r \<lparr> a_dnn_block := dnnBlock, a_bitcoin_block := bitcoinBlock, a_position := position \<rparr>)
           (anchor_events d) \<rparr>"

definition GetAnchorBlockPosition :: "string \<Rightarrow> string \<Rightarrow> database \<Rightarrow> (db_error, int \<times> int \<times> int) res" where
  "GetAnchorBlockPosition pubkey dTag d =
     (case find (\<lambda>r. r_pubkey r = pubkey \<and> r_d_tag r = dTag) (anchor_events d) of
        None \<Rightarrow> Err DNoRows | Some r \<Rightarrow> Ok (a_bitcoin_block r, a_dnn_block r, a_position r))"

definition GetSyncState :: "string \<Rightarrow> database \<Rightarrow> string" where
  "GetSyncState k d = (case map_of (sync_state d) k of None \<Rightarrow> [] | Some v \<Rightarrow> v)"

definition UpdateSyncState :: "string \<Rightarrow> string \<Rightarrow> database \<Rightarrow> database" where
  "UpdateSyncState k v d = d \<lparr> sync_state := insert_or_replace key_clash (k, v) (sync_state d) \<rparr>"

definition UpdateReorgCheckTime :: "string \<Rightarrow> database \<Rightarrow> database" where
  "UpdateReorgCheckTime checkTime d = UpdateSyncState ''last_reorg_check'' checkTime d"

definition StoreTxBlockIndexBatch :: "string list \<Rightarrow> string \<Rightarrow> database \<Rightarrow> database" where
  "StoreTxBlockIndexBatch txids blockHash d =
     d \<lparr> tx_block_index := foldl (\<lambda>t txid. insert_or_replace key_clash (txid, blockHash) t)
           (tx_block_index d) txids \<rparr>"

definition GetBlockHashForTx :: "string \<Rightarrow> database \<Rightarrow> string" where
  "GetBlockHashForTx txid d = (case map_of (tx_block_index d) txid of None \<Rightarrow> [] | Some h \<Rightarrow> h)"

end
