(* ===== verification/DatabaseFacts.thy ===== *)
theory DatabaseFacts
  imports Database
begin

text \<open>
  What the database operations keep and what they achieve: the key constraints, the
  latest-wins contract of addressable events as a refinement to "the newest of the events seen",
  and the behaviour of \<open>StoreAnchorEvent\<close> on conflicts.
\<close>

section \<open>Latest wins\<close>

definition same_addr :: "('a ev_row_scheme) \<Rightarrow> ('a ev_row_scheme) \<Rightarrow> bool" where
  "same_addr r s \<longleftrightarrow> r_pubkey r = r_pubkey s \<and> r_d_tag r = r_d_tag s"

definition newest :: "('a ev_row_scheme) set \<Rightarrow> ('a ev_row_scheme) set" where
  "newest S = {r \<in> S. \<forall>s\<in>S. same_addr r s \<longrightarrow> r_created_at s \<le> r_created_at r}"

lemma same_addr_sym: "same_addr r s \<longleftrightarrow> same_addr s r"
  by (auto simp: same_addr_def)

lemma same_addr_trans: "same_addr r s \<Longrightarrow> same_addr s u \<Longrightarrow> same_addr r u"
  by (simp add: same_addr_def)

lemma newest_above:
  assumes "finite S" "s \<in> S"
  shows "\<exists>r\<in>newest S. same_addr r s \<and> r_created_at s \<le> r_created_at r"
proof -
  let ?A = "{r \<in> S. same_addr r s}"
  have "finite ?A" "?A \<noteq> {}" using assms by (auto simp: same_addr_def)
  then have "Max (r_created_at ` ?A) \<in> r_created_at ` ?A" by (intro Max_in) auto
  then obtain m where "m \<in> ?A" "r_created_at m = Max (r_created_at ` ?A)" by auto
  then have m: "m \<in> ?A" "\<forall>x\<in>?A. r_created_at x \<le> r_created_at m"
    using \<open>finite ?A\<close> by simp_all
  have "r_created_at x \<le> r_created_at m" if "x \<in> S" "same_addr m x" for x
  proof -
    have "same_addr x s" using that(2) m(1) by (simp add: same_addr_def)
    then show ?thesis using m(2) that(1) by simp
  qed
  then have "m \<in> newest S" using m(1) by (simp add: newest_def)
  moreover have "s \<in> ?A" using assms(2) by (simp add: same_addr_def)
  ultimately show ?thesis using m by blast
qed

lemma nip33_store_set:
  assumes "r_d_tag row \<noteq> []"
  shows "set (nip33_store row t) =
    (if \<exists>r\<in>set t. r_id r = r_id row then set t
     else if \<exists>r\<in>set t. same_addr r row \<and> r_created_at r > r_created_at row then set t
     else insert row {r \<in> set t. \<not> (same_addr r row \<and> r_created_at r < r_created_at row)})"
  using assms by (auto simp: nip33_store_def delete_where_def list_ex_iff same_addr_def)

lemma nip33_store_newest:
  assumes "r_d_tag row \<noteq> []" "finite S" "set t = newest S"
    and inj: "\<And>r. r \<in> S \<Longrightarrow> r_id r = r_id row \<Longrightarrow> r = row"
  shows "set (nip33_store row t) = newest (insert row S)"
proof (cases "\<exists>r\<in>set t. r_id r = r_id row")
  case True
  then have "row \<in> S" using inj assms(3) by (auto simp: newest_def)
  then show ?thesis using True assms by (simp add: nip33_store_set insert_absorb)
next
  case no: False
  show ?thesis
  proof (cases "\<exists>r\<in>set t. same_addr r row \<and> r_created_at r > r_created_at row")
    case True
    then obtain m where m: "m \<in> newest S" "same_addr m row" "r_created_at m > r_created_at row"
      using assms(3) by blast
    have "newest (insert row S) = newest S"
    proof (rule set_eqI)
      fix x
      have le: "x \<in> newest S \<Longrightarrow> same_addr x row \<Longrightarrow> r_created_at row \<le> r_created_at x"
      proof -
        assume x: "x \<in> newest S" "same_addr x row"
        then have "same_addr x m" using m(2) same_addr_trans same_addr_sym by metis
        then have "r_created_at m \<le> r_created_at x" using x(1) m(1) by (simp add: newest_def)
        then show "r_created_at row \<le> r_created_at x" using m(3) by simp
      qed
      have "m \<in> S" using m(1) by (simp add: newest_def)
      then have "row \<notin> newest (insert row S)"
        using m(2,3) same_addr_sym unfolding newest_def by force
      then show "x \<in> newest (insert row S) \<longleftrightarrow> x \<in> newest S"
        using le unfolding newest_def by blast
    qed
    then show ?thesis using no True assms by (simp add: nip33_store_set)
  next
    case False
    have top: "r_created_at s \<le> r_created_at row" if s: "s \<in> S" "same_addr s row" for s
    proof -
      obtain r where "r \<in> newest S" "same_addr r s" "r_created_at s \<le> r_created_at r"
        using newest_above[OF assms(2) s(1)] by blast
      moreover have "same_addr r row" using calculation(2) s(2) by (simp add: same_addr_def)
      ultimately show ?thesis using False assms(3) by fastforce
    qed
    have "newest (insert row S) = insert row {r \<in> newest S. \<not> (same_addr r row \<and> r_created_at r < r_created_at row)}"
      using top same_addr_sym by (fastforce simp: newest_def same_addr_def)
    then show ?thesis
      using assms(3) unfolding nip33_store_set[OF assms(1)] if_not_P[OF no] if_not_P[OF False] by simp
  qed
qed

lemma nip33_fold:
  assumes "\<forall>r\<in>set rows. r_d_tag r \<noteq> []" "inj_on r_id (set rows)"
  shows "set (foldl (\<lambda>t r. nip33_store r t) [] rows) = newest (set rows)"
  using assms
proof (induction rows rule: rev_induct)
  case (snoc row rows)
  then have "set (foldl (\<lambda>t r. nip33_store r t) [] rows) = newest (set rows)"
    by (simp add: inj_on_def)
  moreover have "r \<in> set rows \<Longrightarrow> r_id r = r_id row \<Longrightarrow> r = row" for r
    using snoc.prems(2) by (simp add: inj_on_def)
  ultimately show ?case
    using nip33_store_newest[of row "set rows"] snoc.prems(1) by simp
qed (simp add: newest_def)

lemma nip33_store_keys: "unique_rows id_clash t \<Longrightarrow> unique_rows id_clash (nip33_store row t)"
proof -
  assume t: "unique_rows id_clash t"
  have "unique_rows id_clash (delete_where P t @ [row])" if "\<forall>r\<in>set t. r_id r \<noteq> r_id row" for P
    using that t id_table.unique_delete[OF t, of P]
    by (auto simp: id_table.unique_snoc delete_where_def id_clash_def)
  moreover have "unique_rows id_clash (t @ [row])" if "\<forall>r\<in>set t. r_id r \<noteq> r_id row"
    using that t by (auto simp: id_table.unique_snoc id_clash_def)
  ultimately show ?thesis using t by (auto simp: nip33_store_def list_ex_iff)
qed

section \<open>The key constraints\<close>

lemma put_anchor_keys: "db_keys d \<Longrightarrow> db_keys (put_anchor row d)"
  by (auto simp: db_keys_def put_anchor_def UpdateBitcoinTransactionWithAnchor_def btx_clash_def
      anchor_table.unique_replace intro!: btx_table.unique_update)

lemma delete_anchor_keys: "db_keys d \<Longrightarrow> db_keys (d\<lparr>anchor_events := delete_where P (anchor_events d)\<rparr>)"
  by (simp add: db_keys_def anchor_table.unique_delete)

lemma StoreAnchorEvent_cases:
  assumes "StoreAnchorEvent ev bb db pos d = Inr d'"
  defines "row \<equiv> anchor_row_of ev bb db pos"
  obtains "d' = d" "existing_anchor row d \<noteq> None"
      "\<exists>old. existing_anchor row d = Some old \<and> r_id old = r_id row \<and> same_refs old row"
  | "d' = put_anchor row d"
      "tx_conflict row d = None \<or> (\<exists>c. tx_conflict row d = Some c \<and> r_d_tag c = r_d_tag row)"
  | c where "tx_conflict row d = Some c" "r_d_tag c \<noteq> r_d_tag row"
      "r_created_at c \<le> r_created_at row"
      "r_created_at c = r_created_at row \<Longrightarrow> \<not> str_less (r_id row) (r_id c)"
      "d' = put_anchor row (d\<lparr>anchor_events := delete_where (\<lambda>r. r_id r = r_id c) (anchor_events d)\<rparr>)"
proof -
  let ?proceed = "case tx_conflict row d of
      Some conflict \<Rightarrow> if r_d_tag conflict \<noteq> r_d_tag row
        then bind_res (resolve_tx_conflict row conflict d) (\<lambda>d'. Ok (put_anchor row d'))
        else Ok (put_anchor row d)
    | None \<Rightarrow> Ok (put_anchor row d)"
  have "(\<exists>old. d' = d \<and> existing_anchor row d = Some old \<and> r_id old = r_id row \<and> same_refs old row)
      \<or> ?proceed = Inr d'"
    using assms(1) unfolding StoreAnchorEvent_def Let_def row_def[symmetric]
    by (cases "existing_anchor row d") (auto split: if_splits)
  then show thesis
  proof (elim disjE exE)
    fix old
    assume "d' = d \<and> existing_anchor row d = Some old \<and> r_id old = r_id row \<and> same_refs old row"
    then show thesis using that(1) by auto
  next
    assume p: "?proceed = Inr d'"
    show thesis
    proof (cases "tx_conflict row d")
      case None
      then show thesis using p that(2) by simp
    next
      case (Some c)
      show thesis
      proof (cases "r_d_tag c = r_d_tag row")
        case True
        then show thesis using p Some that(2) by simp
      next
        case False
        then show thesis using p Some that(3)[of c]
          by (auto simp: bind_res_ok resolve_tx_conflict_def split: if_splits)
      qed
    qed
  qed
qed

lemma StoreAnchorEvent_keys:
  assumes "db_keys d" "StoreAnchorEvent ev bb db pos d = Inr d'"
  shows "db_keys d'"
  using assms(2) by (rule StoreAnchorEvent_cases) (use assms(1) put_anchor_keys delete_anchor_keys in auto)

lemma store_event_keys:
  assumes "db_keys d"
  shows "db_keys (StoreNameEvent ev d)" "db_keys (StoreConnectionEvent ev d)" "db_keys (StoreMetadataEvent ev d)"
  using assms
  by (auto simp: db_keys_def StoreNameEvent_def StoreConnectionEvent_def StoreMetadataEvent_def nip33_store_keys)

lemma StoreBitcoinTransaction_keys:
  "db_keys d \<Longrightarrow> db_keys (StoreBitcoinTransaction now x bb db p a f tp td d)"
  by (simp add: db_keys_def StoreBitcoinTransaction_def btx_table.unique_ignore)

lemma block_keys:
  assumes "db_keys d"
  shows "db_keys (CreateOrUpdateDNNBlock now n b h ts d)" "db_keys (UpdateDNNBlock now n b h ts d)"
    "db_keys (InvalidateDNNBlocksAfter n d)" "db_keys (RemoveAnchorsAfterBlock n d)"
  using assms
  by (auto simp: db_keys_def CreateOrUpdateDNNBlock_def UpdateDNNBlock_def InvalidateDNNBlocksAfter_def
      RemoveAnchorsAfterBlock_def block_table.unique_replace block_table.unique_delete anchor_table.unique_delete)

lemma UpdateAnchorPosition_keys: "db_keys d \<Longrightarrow> db_keys (UpdateAnchorPosition a n b p d)"
  by (auto simp: db_keys_def UpdateAnchorPosition_def anchor_clash_def intro!: anchor_table.unique_update)

lemma state_keys:
  assumes "db_keys d"
  shows "db_keys (UpdateSyncState k v d)" "db_keys (StoreTxBlockIndexBatch txids h d)"
proof -
  have "unique_rows key_clash t \<Longrightarrow>
      unique_rows key_clash (foldl (\<lambda>t txid. insert_or_replace key_clash (txid, h) t) t txids)" for t
    by (induction txids arbitrary: t) (simp_all add: key_table.unique_replace)
  then show "db_keys (UpdateSyncState k v d)" "db_keys (StoreTxBlockIndexBatch txids h d)"
    using assms by (simp_all add: db_keys_def UpdateSyncState_def StoreTxBlockIndexBatch_def key_table.unique_replace)
qed

lemmas db_keys_intros [intro] =
  StoreAnchorEvent_keys store_event_keys StoreBitcoinTransaction_keys block_keys
  UpdateAnchorPosition_keys state_keys

lemma empty_db_keys: "db_keys empty_db"
  by (simp add: db_keys_def empty_db_def unique_rows_def key_clash_def)

section \<open>Key-value tables as maps\<close>

lemma replace_lookup: "map_of (insert_or_replace key_clash (k, v) t) = (map_of t)(k \<mapsto> v)"
proof
  fix x
  have "map_of (filter (\<lambda>s. \<not> key_clash (k, v) s) t) x = (if x = k then None else map_of t x)"
    by (induction t) (auto simp: key_clash_def)
  then show "map_of (insert_or_replace key_clash (k, v) t) x = ((map_of t)(k \<mapsto> v)) x"
    by (simp add: insert_or_replace_def map_add_def split: option.splits)
qed

lemma GetSyncState_update [simp]:
  "GetSyncState k (UpdateSyncState k' v d) = (if k = k' then v else GetSyncState k d)"
  by (simp add: GetSyncState_def UpdateSyncState_def replace_lookup)

section \<open>Reachable databases\<close>

text \<open>The states that the operations can produce from a fresh schema.\<close>

inductive db_reach :: "database \<Rightarrow> bool" where
  reach_empty: "db_reach empty_db"
| reach_name: "db_reach d \<Longrightarrow> db_reach (StoreNameEvent ev d)"
| reach_conn: "db_reach d \<Longrightarrow> db_reach (StoreConnectionEvent ev d)"
| reach_meta: "db_reach d \<Longrightarrow> db_reach (StoreMetadataEvent ev d)"
| reach_anchor: "db_reach d \<Longrightarrow> StoreAnchorEvent ev bb n p d = Inr d' \<Longrightarrow> db_reach d'"
| reach_tx: "db_reach d \<Longrightarrow> db_reach (StoreBitcoinTransaction now x bb n p a f tp td d)"
| reach_block: "db_reach d \<Longrightarrow> db_reach (CreateOrUpdateDNNBlock now n b h ts d)"
| reach_reblock: "db_reach d \<Longrightarrow> db_reach (UpdateDNNBlock now n b h ts d)"
| reach_invalidate: "db_reach d \<Longrightarrow> db_reach (InvalidateDNNBlocksAfter n d)"
| reach_remove: "db_reach d \<Longrightarrow> db_reach (RemoveAnchorsAfterBlock n d)"
| reach_position: "db_reach d \<Longrightarrow> db_reach (UpdateAnchorPosition a n b p d)"
| reach_state: "db_reach d \<Longrightarrow> db_reach (UpdateSyncState k v d)"
| reach_index: "db_reach d \<Longrightarrow> db_reach (StoreTxBlockIndexBatch txids h d)"

lemma db_reach_keys: "db_reach d \<Longrightarrow> db_keys d"
  by (induction rule: db_reach.induct) (auto simp: empty_db_keys)

section \<open>Properties of the store\<close>

text \<open>
  C4.  Addressable events obey latest-wins whatever the order of arrival: after any sequence of
  stores into empty tables (events with a d tag, an id naming one event), the rows of each of
  the three tables are exactly those of the newest events of their address (public key, d tag).
\<close>

theorem stores_keep_the_newest:
  assumes "\<forall>e\<in>set evs. tag_vals ''d'' (ev_tags e) \<noteq> [] \<and> [] \<notin> set (tag_vals ''d'' (ev_tags e))"
    and "inj_on ev_id (set evs)"
  shows "set (name_events (foldl (\<lambda>d e. StoreNameEvent e d) empty_db evs)) = newest (name_row_of ` set evs)
    \<and> set (connection_events (foldl (\<lambda>d e. StoreConnectionEvent e d) empty_db evs)) = newest (conn_row_of ` set evs)
    \<and> set (metadata_events (foldl (\<lambda>d e. StoreMetadataEvent e d) empty_db evs)) = newest (meta_row_of ` set evs)"
proof -
  have n: "name_events (foldl (\<lambda>d e. StoreNameEvent e d) d evs)
      = foldl (\<lambda>t r. nip33_store r t) (name_events d) (map name_row_of evs)" for d
    by (induction evs arbitrary: d) (simp_all add: StoreNameEvent_def)
  have c: "connection_events (foldl (\<lambda>d e. StoreConnectionEvent e d) d evs)
      = foldl (\<lambda>t r. nip33_store r t) (connection_events d) (map conn_row_of evs)" for d
    by (induction evs arbitrary: d) (simp_all add: StoreConnectionEvent_def)
  have m: "metadata_events (foldl (\<lambda>d e. StoreMetadataEvent e d) d evs)
      = foldl (\<lambda>t r. nip33_store r t) (metadata_events d) (map meta_row_of evs)" for d
    by (induction evs arbitrary: d) (simp_all add: StoreMetadataEvent_def)
  have ft: "tag_vals ''d'' ts \<noteq> [] \<Longrightarrow> [] \<notin> set (tag_vals ''d'' ts) \<Longrightarrow> first_tag ''d'' ts \<noteq> [] \<and> last_tag ''d'' ts \<noteq> []" for ts
    using last_in_set[of "tag_vals ''d'' ts"]
    by (cases "tag_vals ''d'' ts") (auto simp: first_tag_def last_tag_def simp del: last.simps)
  have e: "name_events empty_db = []" "connection_events empty_db = []" "metadata_events empty_db = []"
    by (simp_all add: empty_db_def)
  have 1: "set (name_events (foldl (\<lambda>d e. StoreNameEvent e d) empty_db evs)) = newest (name_row_of ` set evs)"
    unfolding n e set_map[symmetric]
    by (rule nip33_fold) (use assms ft in \<open>auto simp: name_row_of_def inj_on_def\<close>)
  have 2: "set (connection_events (foldl (\<lambda>d e. StoreConnectionEvent e d) empty_db evs)) = newest (conn_row_of ` set evs)"
    unfolding c e set_map[symmetric]
    by (rule nip33_fold) (use assms ft in \<open>auto simp: conn_row_of_def inj_on_def\<close>)
  have 3: "set (metadata_events (foldl (\<lambda>d e. StoreMetadataEvent e d) empty_db evs)) = newest (meta_row_of ` set evs)"
    unfolding m e set_map[symmetric]
    by (rule nip33_fold) (use assms ft in \<open>auto simp: meta_row_of_def inj_on_def\<close>)
  show ?thesis using 1 2 3 by blast
qed

definition meta_event :: "string \<Rightarrow> int \<Rightarrow> event" where
  "meta_event i t = \<lparr> ev_id = i, ev_pubkey = ''p1'', ev_created_at = t, ev_kind = 63600,
     ev_tags = [[''t'', ''DNN''], [''d'', ''profile'']], ev_content = ''{}'', ev_sig = [] \<rparr>"

theorem stores_keep_the_newest_witness:
  "set (metadata_events (foldl (\<lambda>d e. StoreMetadataEvent e d) empty_db
      [meta_event ''e2'' 20, meta_event ''e1'' 10])) = {meta_row_of (meta_event ''e2'' 20)}"
proof -
  let ?evs = "[meta_event ''e2'' 20, meta_event ''e1'' 10]"
  have "set (metadata_events (foldl (\<lambda>d e. StoreMetadataEvent e d) empty_db ?evs)) = newest (meta_row_of ` set ?evs)"
    using stores_keep_the_newest[of ?evs] by (simp add: meta_event_def tag_is_def)
  also have "\<dots> = {meta_row_of (meta_event ''e2'' 20)}"
    by (auto simp: newest_def meta_row_of_def meta_event_def same_addr_def)
  finally show ?thesis .
qed

text \<open>
  In every database the operations can reach, a Bitcoin transaction carries at most one
  anchor, a transaction id has one row, and no two transactions share a block and position.
\<close>

lemma reachable_database_keys:
  assumes "db_reach d"
  shows "(\<forall>r\<in>set (anchor_events d). \<forall>s\<in>set (anchor_events d). a_txid r = a_txid s \<longrightarrow> r = s)
    \<and> (\<forall>r\<in>set (bitcoin_transactions d). \<forall>s\<in>set (bitcoin_transactions d).
         t_id r = t_id s \<or> t_bitcoin_block r = t_bitcoin_block s \<and> t_position r = t_position s \<longrightarrow> r = s)
    \<and> (\<forall>r\<in>set (dnn_blocks d). \<forall>s\<in>set (dnn_blocks d).
         b_number r = b_number s \<or> b_bitcoin r = b_bitcoin s \<longrightarrow> r = s)"
  using db_reach_keys[OF assms] anchor_table.unique_pair[of "anchor_events d"]
    btx_table.unique_pair[of "bitcoin_transactions d"] block_table.unique_pair[of "dnn_blocks d"]
  unfolding db_keys_def anchor_clash_def btx_clash_def block_clash_def by blast

lemma reachable_database_keys_example:
  "\<not> (\<exists>r s. r \<in> set (dnn_blocks (CreateOrUpdateDNNBlock 5 0 940000 ''h'' 1 empty_db))
      \<and> s \<in> set (dnn_blocks (CreateOrUpdateDNNBlock 5 0 940000 ''h'' 1 empty_db))
      \<and> b_bitcoin r = b_bitcoin s \<and> r \<noteq> s)"
  using reachable_database_keys[OF reach_block[OF reach_empty]] by blast

text \<open>
  When \<open>StoreAnchorEvent\<close> succeeds, either the same event was already stored and nothing
  changes, or its row is in the table, it is the only anchor of its transaction, and the
  transaction is marked with it.
\<close>

lemma stored_anchor_is_unique:
  assumes "StoreAnchorEvent ev bitcoinBlock dnnBlock position d = Ok d'"
  defines "row \<equiv> anchor_row_of ev bitcoinBlock dnnBlock position"
  shows "d' = d \<and> (\<exists>old\<in>set (anchor_events d). r_id old = ev_id ev \<and> same_refs old row)
    \<or> row \<in> set (anchor_events d')
      \<and> (\<forall>r\<in>set (anchor_events d'). a_txid r = a_txid row \<longrightarrow> r = row)
      \<and> (\<forall>t\<in>set (bitcoin_transactions d'). t_id t = a_txid row \<longrightarrow> t_has_anchor t \<and> t_anchor_id t = Some (ev_id ev))"
proof -
  have put: "row \<in> set (anchor_events (put_anchor row e))
      \<and> (\<forall>r\<in>set (anchor_events (put_anchor row e)). a_txid r = a_txid row \<longrightarrow> r = row)
      \<and> (\<forall>t\<in>set (bitcoin_transactions (put_anchor row e)). t_id t = a_txid row \<longrightarrow>
           t_has_anchor t \<and> t_anchor_id t = Some (ev_id ev))" for e
    by (auto simp: put_anchor_def UpdateBitcoinTransactionWithAnchor_def anchor_table.replace_set
        update_where_def anchor_clash_def row_def anchor_row_of_def)
  have old: "existing_anchor row d = Some o' \<Longrightarrow> o' \<in> set (anchor_events d)" for o'
    unfolding existing_anchor_def by (auto split: list.splits dest!: order_by_Cons)
  show ?thesis
    using assms(1)
  proof (cases rule: StoreAnchorEvent_cases)
    case 1
    then show ?thesis using old unfolding row_def by (auto simp: anchor_row_of_def)
  qed (use put in \<open>auto simp: row_def\<close>)
qed

definition anchor_event :: "string \<Rightarrow> string \<Rightarrow> int \<Rightarrow> string \<Rightarrow> event" where
  "anchor_event i pk t dt = \<lparr> ev_id = i, ev_pubkey = pk, ev_created_at = t, ev_kind = 60600,
     ev_tags = [[''t'', ''DNN''], [''d'', dt], [''n'', ''naddr1n''], [''c'', ''naddr1c''], [''m'', ''naddr1m''],
       [''x'', ''feedfacefeedface'']],
     ev_content = [], ev_sig = [] \<rparr>"

definition owner_db :: database where
  "owner_db = (case StoreAnchorEvent (anchor_event ''e1'' ''owner'' 10 ''names'') 940007 7 1 empty_db of
     Inr d \<Rightarrow> d | Inl _ \<Rightarrow> empty_db)"

lemma stored_anchor_is_unique_example:
  "\<not> (\<exists>r. r \<in> set (anchor_events owner_db) \<and> a_txid r = ''feedfacefeedface'' \<and> r_pubkey r \<noteq> ''owner'')"
proof -
  have e: "StoreAnchorEvent (anchor_event ''e1'' ''owner'' 10 ''names'') 940007 7 1 empty_db = Ok owner_db"
    unfolding owner_db_def by code_simp
  have n: "owner_db \<noteq> empty_db" unfolding owner_db_def by code_simp
  have a: "a_txid (anchor_row_of (anchor_event ''e1'' ''owner'' 10 ''names'') 940007 7 1) = ''feedfacefeedface''"
    "r_pubkey (anchor_row_of (anchor_event ''e1'' ''owner'' 10 ''names'') 940007 7 1) = ''owner''"
    by code_simp+
  show ?thesis using stored_anchor_is_unique[OF e] n a by metis
qed

text \<open>
  The conflict check of \<open>StoreAnchorEvent\<close> looks only at anchors of the same public key, and
  the insert replaces any row with the same transaction: a first anchor for somebody else's
  transaction succeeds and takes the transaction over, the owner's anchor is gone.
\<close>

lemma anchor_takeover:
  assumes "existing_anchor (anchor_row_of ev bb n p) d = None"
    and "\<forall>r\<in>set (anchor_events d). a_txid r = last_tag ''x'' (ev_tags ev) \<longrightarrow> r_pubkey r \<noteq> ev_pubkey ev"
    and "list_all (\<lambda>k. last_tag k (ev_tags ev) \<noteq> []) [''d'', ''n'', ''c'', ''m'', ''x'']"
    and "list_all (\<lambda>k. \<not> has_tag k (ev_tags ev)) old_anchor_tags"
  shows "\<exists>d'. StoreAnchorEvent ev bb n p d = Ok d'
    \<and> (\<exists>r\<in>set (anchor_events d'). a_txid r = last_tag ''x'' (ev_tags ev) \<and> r_pubkey r = ev_pubkey ev)
    \<and> (\<forall>r\<in>set (anchor_events d'). a_txid r = last_tag ''x'' (ev_tags ev) \<longrightarrow> r_pubkey r = ev_pubkey ev)"
proof -
  let ?row = "anchor_row_of ev bb n p"
  have "tx_conflict ?row d = None"
    using assms(2) unfolding tx_conflict_def find_None_iff by (auto simp: anchor_row_of_def)
  then have "StoreAnchorEvent ev bb n p d = Ok (put_anchor ?row d)"
    using assms(1,3,4)
    by (auto simp: StoreAnchorEvent_def Let_def list_ex_iff list_all_iff)
      (simp_all add: anchor_row_of_def)
  then show ?thesis
    by (auto simp: put_anchor_def UpdateBitcoinTransactionWithAnchor_def anchor_table.replace_set
        anchor_clash_def anchor_row_of_def)
qed

lemma anchor_takeover_example:
  "(\<exists>r\<in>set (anchor_events owner_db). a_txid r = ''feedfacefeedface'' \<and> r_pubkey r = ''owner'')
   \<and> (\<exists>d'. StoreAnchorEvent (anchor_event ''e2'' ''other'' 1 ''mine'') 940007 7 1 owner_db = Ok d'
       \<and> (\<exists>r\<in>set (anchor_events d'). a_txid r = ''feedfacefeedface'' \<and> r_pubkey r = ''other'')
       \<and> \<not> (\<exists>r. r \<in> set (anchor_events d') \<and> a_txid r = ''feedfacefeedface'' \<and> r_pubkey r = ''owner''))"
proof -
  let ?ev = "anchor_event ''e2'' ''other'' 1 ''mine''"
  have x: "last_tag ''x'' (ev_tags ?ev) = ''feedfacefeedface''" "ev_pubkey ?ev = ''other''" by code_simp+
  have 1: "existing_anchor (anchor_row_of ?ev 940007 7 1) owner_db = None" by code_simp
  have 2: "\<forall>r\<in>set (anchor_events owner_db). a_txid r = last_tag ''x'' (ev_tags ?ev) \<longrightarrow> r_pubkey r \<noteq> ev_pubkey ?ev"
    by code_simp
  have 3: "list_all (\<lambda>k. last_tag k (ev_tags ?ev) \<noteq> []) [''d'', ''n'', ''c'', ''m'', ''x'']" by code_simp
  have 4: "list_all (\<lambda>k. \<not> has_tag k (ev_tags ?ev)) old_anchor_tags" by code_simp
  have "\<exists>r\<in>set (anchor_events owner_db). a_txid r = ''feedfacefeedface'' \<and> r_pubkey r = ''owner''" by code_simp
  moreover have "''other'' \<noteq> ''owner''" by simp
  ultimately show ?thesis using anchor_takeover[OF 1 2 3 4] unfolding x by metis
qed

text \<open>
  When the same owner publishes a second anchor for a transaction under another d tag,
  the conflict branch slices both d tags to sixteen bytes for its log: a shorter d tag, which
  every validator accepts, makes \<open>StoreAnchorEvent\<close> panic instead of applying latest-wins.
\<close>

lemma short_dtag_panics:
  assumes "existing_anchor (anchor_row_of ev bb n p) d = None"
    and "tx_conflict (anchor_row_of ev bb n p) d = Some c" "r_d_tag c \<noteq> last_tag ''d'' (ev_tags ev)"
    and "length (r_d_tag c) < 16 \<or> length (last_tag ''d'' (ev_tags ev)) < 16"
    and "list_all (\<lambda>k. last_tag k (ev_tags ev) \<noteq> []) [''d'', ''n'', ''c'', ''m'', ''x'']"
    and "list_all (\<lambda>k. \<not> has_tag k (ev_tags ev)) old_anchor_tags"
  shows "StoreAnchorEvent ev bb n p d = Err DPanic"
proof -
  have t: "r_d_tag (anchor_row_of ev bb n p) = last_tag ''d'' (ev_tags ev)" by (simp add: anchor_row_of_def)
  have "resolve_tx_conflict (anchor_row_of ev bb n p) c d = Err DPanic"
    using assms(4) t by (auto simp: resolve_tx_conflict_def)
  then show ?thesis
    using assms(1,2,3,5,6) t
    by (auto simp: StoreAnchorEvent_def Let_def list_ex_iff list_all_iff)
      (simp_all add: anchor_row_of_def)
qed

lemma short_dtag_panics_example:
  "StoreAnchorEvent (anchor_event ''e3'' ''owner'' 20 ''names-v2'') 940007 7 1 owner_db = Err DPanic"
proof -
  obtain c where c: "tx_conflict (anchor_row_of (anchor_event ''e3'' ''owner'' 20 ''names-v2'') 940007 7 1) owner_db = Some c"
    "r_d_tag c = ''names''"
  proof -
    have "map_option r_d_tag (tx_conflict (anchor_row_of (anchor_event ''e3'' ''owner'' 20 ''names-v2'') 940007 7 1) owner_db)
      = Some ''names''" by code_simp
    then show thesis using that by auto
  qed
  show ?thesis
  proof (rule short_dtag_panics[OF _ c(1)])
    show "existing_anchor (anchor_row_of (anchor_event ''e3'' ''owner'' 20 ''names-v2'') 940007 7 1) owner_db = None"
      by code_simp
    show "r_d_tag c \<noteq> last_tag ''d'' (ev_tags (anchor_event ''e3'' ''owner'' 20 ''names-v2''))"
      unfolding c(2) by code_simp
  qed (use c(2) in simp, code_simp, code_simp)
qed

end
