(* ===== verification/RelayQueries.thy ===== *)
theory RelayQueries
  imports DatabaseFacts
begin

text \<open>
  \<^verbatim>\<open>src/internal/database/relay_queries.go\<close>: the queries behind a relay subscription, and the
  counts, look-ups and deletions of the rate limiter; from \<^verbatim>\<open>queries.go\<close> the block marks.  The
  interface \<^verbatim>\<open>RateLimitChecker\<close> of the policy is implemented by \<open>checker\<close>; its contract is the
  locale \<open>rate_limit_db\<close>, in which \<open>EnforceRateLimits\<close> is proved to make room.
\<close>

section \<open>Filters\<close>

record nostr_filter =
  f_IDs :: "string list"
  f_Kinds :: "int list"
  f_Authors :: "string list"
  f_Tags :: "(string \<times> string list) list"
  f_Since :: "int option"
  f_Until :: "int option"
  f_Limit :: int

definition containsKind :: "int list \<Rightarrow> int \<Rightarrow> bool" where
  "containsKind kinds kind \<longleftrightarrow> list_ex (\<lambda>k. k = kind) kinds"

definition sql_in :: "string list \<Rightarrow> string \<Rightarrow> bool" where
  "sql_in vs v \<longleftrightarrow> vs = [] \<or> v \<in> set vs"

definition d_filter :: "nostr_filter \<Rightarrow> string list" where
  "d_filter f = (case map_of (f_Tags f) ''d'' of None \<Rightarrow> [] | Some vs \<Rightarrow> vs)"

text \<open>The \<^verbatim>\<open>WHERE\<close> clause that the four queries build, with or without the time bounds.\<close>

definition row_matches :: "bool \<Rightarrow> nostr_filter \<Rightarrow> ('a ev_row_scheme) \<Rightarrow> bool" where
  "row_matches timed f r \<longleftrightarrow> sql_in (f_IDs f) (r_id r) \<and> sql_in (f_Authors f) (r_pubkey r)
     \<and> (timed \<longrightarrow> (case f_Since f of None \<Rightarrow> True | Some s \<Rightarrow> r_created_at r \<ge> s))
     \<and> (timed \<longrightarrow> (case f_Until f of None \<Rightarrow> True | Some u \<Rightarrow> r_created_at r \<le> u))
     \<and> sql_in (d_filter f) (r_d_tag r)"

definition limited :: "nostr_filter \<Rightarrow> 'r list \<Rightarrow> 'r list" where
  "limited f rs = (if f_Limit f > 0 then take (nat (f_Limit f)) rs else rs)"

definition select_rows :: "bool \<Rightarrow> nostr_filter \<Rightarrow> ('a ev_row_scheme) list \<Rightarrow> ('a ev_row_scheme) list" where
  "select_rows timed f t = limited f (order_by (\<lambda>r. - r_created_at r) (filter (row_matches timed f) t))"

section \<open>Rows as events\<close>

definition event_of_row :: "int \<Rightarrow> tag list \<Rightarrow> ('a ev_row_scheme) \<Rightarrow> event" where
  "event_of_row kind tags r = \<lparr> ev_id = r_id r, ev_pubkey = r_pubkey r, ev_created_at = r_created_at r,
     ev_kind = kind, ev_tags = tags, ev_content = r_content r, ev_sig = r_sig r \<rparr>"

text \<open>\<^verbatim>\<open>json.Unmarshal\<close> into a slice of strings; a \<^verbatim>\<open>null\<close> element is the empty string.\<close>

definition json_strings :: "string \<Rightarrow> string list option" where
  "json_strings s =
     (case parse_json s of
        Some (JArr xs) \<Rightarrow>
          (if list_all (\<lambda>x. case x of JStr _ \<Rightarrow> True | JNull \<Rightarrow> True | _ \<Rightarrow> False) xs
           then Some (map (\<lambda>x. case x of JStr t \<Rightarrow> t | _ \<Rightarrow> []) xs) else None)
      | Some JNull \<Rightarrow> Some []
      | _ \<Rightarrow> None)"

definition name_tags :: "name_row \<Rightarrow> tag list" where
  "name_tags r =
     [[''t'', ''DNN''], [''d'', r_d_tag r]]
     @ (if r_primary_name r \<noteq> [] then [[''n'', r_primary_name r]] else [])
     @ (if r_other_names r \<noteq> [] \<and> r_other_names r \<noteq> ''[]'' then
          (case json_strings (r_other_names r) of None \<Rightarrow> [] | Some ns \<Rightarrow> map (\<lambda>n. [''o'', n]) ns)
        else [])"

definition basic_tags :: "('a ev_row_scheme) \<Rightarrow> tag list" where
  "basic_tags r = [''t'', ''DNN''] # (if r_d_tag r \<noteq> [] then [[''d'', r_d_tag r]] else [])"

definition conn_tags :: "tagged_row \<Rightarrow> tag list" where
  "conn_tags r = (if r_tags r = [] then basic_tags r else r_tags r)"

definition anchor_tags :: "anchor_row \<Rightarrow> tag list" where
  "anchor_tags r = (if a_tags r = [] then
     [[''d'', r_d_tag r], [''n'', a_name_ref r], [''c'', a_conn_ref r], [''m'', a_meta_ref r],
      [''x'', a_txid r], [''t'', ''DNN'']] else a_tags r)"

definition queryNameEvents :: "nostr_filter \<Rightarrow> database \<Rightarrow> event list" where
  "queryNameEvents f d = map (\<lambda>r. event_of_row 61600 (name_tags r) r) (select_rows True f (name_events d))"

definition queryConnectionEvents :: "nostr_filter \<Rightarrow> database \<Rightarrow> event list" where
  "queryConnectionEvents f d =
     map (\<lambda>r. event_of_row 62600 (conn_tags r) r) (select_rows True f (connection_events d))"

definition queryMetadataEvents :: "nostr_filter \<Rightarrow> database \<Rightarrow> event list" where
  "queryMetadataEvents f d =
     map (\<lambda>r. event_of_row 63600 (basic_tags r) r) (select_rows True f (metadata_events d))"

text \<open>Anchors: no time bounds, and only rows with the largest \<^verbatim>\<open>created_at\<close> of their address.\<close>

definition anchor_latest :: "anchor_row list \<Rightarrow> anchor_row \<Rightarrow> bool" where
  "anchor_latest t r \<longleftrightarrow> list_all (\<lambda>s. r_pubkey s = r_pubkey r \<and> r_d_tag s = r_d_tag r \<longrightarrow>
     r_created_at s \<le> r_created_at r) t"

definition queryAnchorEvents :: "nostr_filter \<Rightarrow> database \<Rightarrow> event list" where
  "queryAnchorEvents f d =
     map (\<lambda>r. event_of_row 60600 (anchor_tags r) r)
       (select_rows False f (filter (anchor_latest (anchor_events d)) (anchor_events d)))"

definition QueryEvents :: "nostr_filter \<Rightarrow> database \<Rightarrow> event list" where
  "QueryEvents f d =
     (let wants = (\<lambda>k. f_Kinds f = [] \<or> containsKind (f_Kinds f) k);
          events = (if wants 61600 then queryNameEvents f d else [])
            @ (if wants 62600 then queryConnectionEvents f d else [])
            @ (if wants 63600 then queryMetadataEvents f d else [])
            @ (if wants 60600 then queryAnchorEvents f d else [])
      in limited f events)"

section \<open>Queries of the rate limiter\<close>

definition kind_rows :: "int \<Rightarrow> database \<Rightarrow> ev_row list" where
  "kind_rows kind d =
     (if kind = 60600 then map ev_row.truncate (anchor_events d)
      else if kind = 61600 then map ev_row.truncate (name_events d)
      else if kind = 62600 then map ev_row.truncate (connection_events d)
      else if kind = 63600 then metadata_events d
      else [])"

definition kindToTable :: "int \<Rightarrow> string" where
  "kindToTable kind = (if kind = 60600 then ''anchor_events'' else if kind = 61600 then ''name_events''
     else if kind = 62600 then ''connection_events'' else if kind = 63600 then ''metadata_events'' else [])"

definition at_addr :: "string \<Rightarrow> string \<Rightarrow> ('a ev_row_scheme) \<Rightarrow> bool" where
  "at_addr pubkey dTag r \<longleftrightarrow> r_pubkey r = pubkey \<and> r_d_tag r = dTag"

definition CountEventVersions :: "string \<Rightarrow> int \<Rightarrow> string \<Rightarrow> database \<Rightarrow> (unit, nat) res" where
  "CountEventVersions pubkey kind dTag d =
     (if kindToTable kind = [] then Ok 0 else Ok (count_where (at_addr pubkey dTag) (kind_rows kind d)))"

definition dtags_of :: "string \<Rightarrow> ('a ev_row_scheme) list \<Rightarrow> string list" where
  "dtags_of pubkey t = remdups (map r_d_tag (filter (\<lambda>r. r_pubkey r = pubkey) t))"

definition CountDTagsForKind :: "string \<Rightarrow> int \<Rightarrow> database \<Rightarrow> (unit, nat) res" where
  "CountDTagsForKind pubkey kind d =
     (if kindToTable kind = [] then Ok 0 else Ok (length (dtags_of pubkey (kind_rows kind d))))"

definition GetOldestEventVersion :: "string \<Rightarrow> int \<Rightarrow> string \<Rightarrow> database \<Rightarrow> (unit, string) res" where
  "GetOldestEventVersion pubkey kind dTag d =
     (if kindToTable kind = [] then Ok []
      else case order_by r_created_at (filter (at_addr pubkey dTag) (kind_rows kind d)) of
        [] \<Rightarrow> Err () | r # _ \<Rightarrow> Ok (r_id r))"

definition latest_at :: "string \<Rightarrow> ('a ev_row_scheme) list \<Rightarrow> string \<Rightarrow> int" where
  "latest_at pubkey t dTag = Max (r_created_at ` set (filter (at_addr pubkey dTag) t))"

definition GetOldestDTagForKind :: "string \<Rightarrow> int \<Rightarrow> database \<Rightarrow> (unit, string) res" where
  "GetOldestDTagForKind pubkey kind d =
     (if kindToTable kind = [] then Ok []
      else case order_by (latest_at pubkey (kind_rows kind d)) (dtags_of pubkey (kind_rows kind d)) of
        [] \<Rightarrow> Err () | t # _ \<Rightarrow> Ok t)"

definition DeleteEventByID :: "int \<Rightarrow> string \<Rightarrow> database \<Rightarrow> database" where
  "DeleteEventByID kind eventID d =
     (if kind = 60600 then d\<lparr>anchor_events := delete_where (\<lambda>r. r_id r = eventID) (anchor_events d)\<rparr>
      else if kind = 61600 then d\<lparr>name_events := delete_where (\<lambda>r. r_id r = eventID) (name_events d)\<rparr>
      else if kind = 62600 then d\<lparr>connection_events := delete_where (\<lambda>r. r_id r = eventID) (connection_events d)\<rparr>
      else if kind = 63600 then d\<lparr>metadata_events := delete_where (\<lambda>r. r_id r = eventID) (metadata_events d)\<rparr>
      else d)"

definition DeleteEventsByDTag :: "string \<Rightarrow> int \<Rightarrow> string \<Rightarrow> database \<Rightarrow> database" where
  "DeleteEventsByDTag pubkey kind dTag d =
     (if kind = 60600 then d\<lparr>anchor_events := delete_where (at_addr pubkey dTag) (anchor_events d)\<rparr>
      else if kind = 61600 then d\<lparr>name_events := delete_where (at_addr pubkey dTag) (name_events d)\<rparr>
      else if kind = 62600 then d\<lparr>connection_events := delete_where (at_addr pubkey dTag) (connection_events d)\<rparr>
      else if kind = 63600 then d\<lparr>metadata_events := delete_where (at_addr pubkey dTag) (metadata_events d)\<rparr>
      else d)"

text \<open>
  SQLite's \<^verbatim>\<open>LIKE\<close>: \<^verbatim>\<open>%\<close> stands for any bytes, \<^verbatim>\<open>_\<close> for one, letters match without regard to
  ASCII case.  The d tag is pasted into the pattern as it is.
\<close>

fun like_match :: "string \<Rightarrow> string \<Rightarrow> bool" where
  "like_match [] s \<longleftrightarrow> s = []"
| "like_match (p # ps) s \<longleftrightarrow>
     (if p = CHR ''%'' then like_match ps s \<or> (case s of [] \<Rightarrow> False | c # s' \<Rightarrow> like_match (p # ps) s')
      else (case s of [] \<Rightarrow> False
            | c # s' \<Rightarrow> (p = CHR ''_'' \<or> lower_char p = lower_char c) \<and> like_match ps s'))"

definition like_containing :: "string \<Rightarrow> string \<Rightarrow> bool" where
  "like_containing s sub \<longleftrightarrow> like_match (''%'' @ sub @ ''%'') s"

definition ref_of :: "int \<Rightarrow> anchor_row \<Rightarrow> string" where
  "ref_of kind r = (if kind = 61600 then a_name_ref r else if kind = 62600 then a_conn_ref r else a_meta_ref r)"

definition IsDTagReferencedByAnchor :: "string \<Rightarrow> int \<Rightarrow> string \<Rightarrow> database \<Rightarrow> (unit, bool) res" where
  "IsDTagReferencedByAnchor pubkey kind dTag d =
     (if kind \<noteq> 61600 \<and> kind \<noteq> 62600 \<and> kind \<noteq> 63600 then Ok False
      else Ok (count_where (\<lambda>r. r_pubkey r = pubkey \<and> like_containing (ref_of kind r) dTag) (anchor_events d) > 0))"

definition checker :: "database \<Rightarrow> RateLimitChecker" where
  "checker d = \<lparr> rl_CountEventVersions = (\<lambda>p k t. CountEventVersions p k t d),
     rl_CountDTagsForKind = (\<lambda>p k. CountDTagsForKind p k d),
     rl_GetOldestEventVersion = (\<lambda>p k t. GetOldestEventVersion p k t d),
     rl_GetOldestDTagForKind = (\<lambda>p k. GetOldestDTagForKind p k d),
     rl_IsDTagReferencedByAnchor = (\<lambda>p k t. IsDTagReferencedByAnchor p k t d) \<rparr>"

text \<open>The deletions that the callers of \<open>EnforceRateLimits\<close> perform before they store the event.\<close>

definition apply_limits ::
  "(int \<Rightarrow> string \<Rightarrow> 'd \<Rightarrow> 'd) \<Rightarrow> (string \<Rightarrow> int \<Rightarrow> string \<Rightarrow> 'd \<Rightarrow> 'd) \<Rightarrow> string \<Rightarrow> int \<Rightarrow> RateLimitResult \<Rightarrow> 'd \<Rightarrow> 'd"
where
  "apply_limits del_id del_dtag p k res d =
     foldl (\<lambda>d t. del_dtag p k t d) (foldl (\<lambda>d i. del_id k i d) d (EventsToDelete res)) (DTagsToDelete res)"

section \<open>The contract of the rate limiter\<close>

text \<open>
  What the limiter relies on, over an abstract state: the versions stored at an address, the d
  tags of an owner, and deletions that remove exactly what they name.
\<close>

locale rate_limit_db =
  fixes chk :: "'d \<Rightarrow> RateLimitChecker"
    and versions :: "'d \<Rightarrow> string \<Rightarrow> int \<Rightarrow> string \<Rightarrow> string list"
    and dtags :: "'d \<Rightarrow> string \<Rightarrow> int \<Rightarrow> string list"
    and del_id :: "int \<Rightarrow> string \<Rightarrow> 'd \<Rightarrow> 'd"
    and del_dtag :: "string \<Rightarrow> int \<Rightarrow> string \<Rightarrow> 'd \<Rightarrow> 'd"
    and wf :: "'d \<Rightarrow> bool"
  assumes count_versions: "rl_CountEventVersions (chk d) p k t = Inr (length (versions d p k t))"
    and count_dtags: "rl_CountDTagsForKind (chk d) p k = Inr (length (dtags d p k))"
    and oldest_version: "versions d p k t \<noteq> [] \<Longrightarrow>
      \<exists>i\<in>set (versions d p k t). rl_GetOldestEventVersion (chk d) p k t = Inr i"
    and oldest_dtag: "dtags d p k \<noteq> [] \<Longrightarrow>
      \<exists>t\<in>set (dtags d p k). rl_GetOldestDTagForKind (chk d) p k = Inr t"
    and referenced: "\<exists>b. rl_IsDTagReferencedByAnchor (chk d) p k t = Inr b"
    and del_id_versions: "versions (del_id k i d) p k t = filter (\<lambda>j. j \<noteq> i) (versions d p k t)"
    and del_dtag_dtags: "dtags (del_dtag p k t d) p k = filter (\<lambda>u. u \<noteq> t) (dtags d p k)"
    and del_dtag_versions: "t \<noteq> u \<Longrightarrow> versions (del_dtag p k t d) p k u = versions d p k u"
    and has_dtag: "versions d p k t \<noteq> [] \<longleftrightarrow> t \<in> set (dtags d p k)"
    and wf_ids: "wf d \<Longrightarrow> distinct (versions d p k t) \<and> [] \<notin> set (versions d p k t)"
begin

lemma remove_one:
  "i \<in> set xs \<Longrightarrow> length (filter (\<lambda>j. j \<noteq> i) xs) < length xs"
  by (induction xs) (auto simp: less_Suc_eq_le)

lemma limits_total:
  "\<exists>res. EnforceRateLimits ev (chk d) = Inr res"
proof (cases "ev_kind ev < 60600 \<or> ev_kind ev > 65600 \<or> extractDTag ev = []")
  case True
  then show ?thesis by (auto simp: EnforceRateLimits_def Let_def)
next
  case False
  let ?p = "ev_pubkey ev" and ?k = "ev_kind ev" and ?t = "extractDTag ev"
  have v: "\<exists>r. version_check (chk d) ?p ?k ?t = Inr r"
    using oldest_version[of d ?p ?k ?t]
    by (cases "versions d ?p ?k ?t = []") (auto simp: version_check_def count_versions const_defs)
  have "\<exists>r'. dtag_check (chk d) ?p ?k ?t r = Inr r'" for r
  proof (cases "dtags d ?p ?k = []")
    case True
    then show ?thesis by (simp add: dtag_check_def count_versions count_dtags const_defs)
  next
    case ne: False
    then obtain u where u: "rl_GetOldestDTagForKind (chk d) ?p ?k = Inr u" using oldest_dtag by blast
    obtain b where "rl_IsDTagReferencedByAnchor (chk d) ?p ?k u = Inr b" using referenced by blast
    then show ?thesis using u by (simp add: dtag_check_def count_versions count_dtags)
  qed
  then show ?thesis using v False by (auto simp: EnforceRateLimits_def Let_def)
qed

lemma version_check_result:
  assumes "wf d" "version_check (chk d) p k t = Inr res"
  shows "DTagsToDelete res = []"
    and "length (versions d p k t) < MaxVersionsPerDTag \<Longrightarrow> EventsToDelete res = []"
    and "MaxVersionsPerDTag \<le> length (versions d p k t) \<Longrightarrow> \<exists>i\<in>set (versions d p k t). EventsToDelete res = [i]"
proof -
  have o: "MaxVersionsPerDTag \<le> length (versions d p k t) \<Longrightarrow>
      \<exists>i\<in>set (versions d p k t). i \<noteq> [] \<and> rl_GetOldestEventVersion (chk d) p k t = Inr i"
    using oldest_version[of d p k t] wf_ids[OF assms(1), of p k t]
    by (cases "versions d p k t") (auto simp: const_defs)
  show "DTagsToDelete res = []"
    "length (versions d p k t) < MaxVersionsPerDTag \<Longrightarrow> EventsToDelete res = []"
    "MaxVersionsPerDTag \<le> length (versions d p k t) \<Longrightarrow> \<exists>i\<in>set (versions d p k t). EventsToDelete res = [i]"
    using assms(2) o by (auto simp: version_check_def count_versions empty_result_def split: if_splits sum.splits)
qed

lemma dtag_check_result:
  assumes "dtag_check (chk d) p k t res = Inr res'" "DTagsToDelete res = []"
  shows "EventsToDelete res' = EventsToDelete res"
    and "\<forall>u\<in>set (DTagsToDelete res'). versions d p k t = [] \<and> u \<in> set (dtags d p k)"
    and "versions d p k t = [] \<Longrightarrow> MaxDTagsPerKind \<le> length (dtags d p k) \<Longrightarrow>
      (\<exists>u\<in>set (dtags d p k). rl_GetOldestDTagForKind (chk d) p k = Inr u \<and>
         (DTagsToDelete res' = [u] \<or> u = [] \<or> rl_IsDTagReferencedByAnchor (chk d) p k u = Inr True))"
proof -
  obtain b where b: "\<And>u. rl_IsDTagReferencedByAnchor (chk d) p k u = Inr (b u)"
    using referenced[of d p k] by metis
  have ne: "MaxDTagsPerKind \<le> length (dtags d p k) \<Longrightarrow> dtags d p k \<noteq> []" by (auto simp: const_defs)
  have od: "MaxDTagsPerKind \<le> length (dtags d p k) \<Longrightarrow>
      \<exists>u\<in>set (dtags d p k). rl_GetOldestDTagForKind (chk d) p k = Inr u"
    using oldest_dtag ne by blast
  show "EventsToDelete res' = EventsToDelete res"
    using assms(1) od b
    by (auto simp: dtag_check_def count_versions count_dtags Let_def split: if_splits sum.splits)
  show "\<forall>u\<in>set (DTagsToDelete res'). versions d p k t = [] \<and> u \<in> set (dtags d p k)"
    using assms od b
    by (auto simp: dtag_check_def count_versions count_dtags Let_def split: if_splits sum.splits)
  show "versions d p k t = [] \<Longrightarrow> MaxDTagsPerKind \<le> length (dtags d p k) \<Longrightarrow>
      (\<exists>u\<in>set (dtags d p k). rl_GetOldestDTagForKind (chk d) p k = Inr u \<and>
         (DTagsToDelete res' = [u] \<or> u = [] \<or> rl_IsDTagReferencedByAnchor (chk d) p k u = Inr True))"
    using assms od b
    by (auto simp: dtag_check_def count_versions count_dtags Let_def split: if_splits sum.splits)
qed

lemma enforce_parts:
  assumes "60600 \<le> ev_kind ev" "ev_kind ev \<le> 65600" "extractDTag ev \<noteq> []"
    "EnforceRateLimits ev (chk d) = Inr res"
  obtains r where "version_check (chk d) (ev_pubkey ev) (ev_kind ev) (extractDTag ev) = Inr r"
    "dtag_check (chk d) (ev_pubkey ev) (ev_kind ev) (extractDTag ev) r = Inr res"
  using assms by (auto simp: EnforceRateLimits_def Let_def split: sum.splits)

lemma versions_after_dtags:
  "t \<notin> set ts \<Longrightarrow> versions (foldl (\<lambda>d u. del_dtag p k u d) d ts) p k t = versions d p k t"
  by (induction ts arbitrary: d) (auto simp: del_dtag_versions)

lemma dtags_shrink: "length (dtags (foldl (\<lambda>d u. del_dtag p k u d) d us) p k) \<le> length (dtags d p k)"
proof (induction us arbitrary: d)
  case (Cons a us)
  have "length (dtags (del_dtag p k a d) p k) \<le> length (dtags d p k)" by (simp add: del_dtag_dtags)
  then show ?case using Cons.IH[of "del_dtag p k a d"] by simp
qed simp

lemma room_for_version:
  assumes "wf d" "60600 \<le> ev_kind ev" "ev_kind ev \<le> 65600" "extractDTag ev \<noteq> []"
    and "EnforceRateLimits ev (chk d) = Inr res"
    and "length (versions d (ev_pubkey ev) (ev_kind ev) (extractDTag ev)) \<le> MaxVersionsPerDTag"
  shows "length (versions (apply_limits del_id del_dtag (ev_pubkey ev) (ev_kind ev) res d)
           (ev_pubkey ev) (ev_kind ev) (extractDTag ev)) < MaxVersionsPerDTag"
proof -
  let ?p = "ev_pubkey ev" and ?k = "ev_kind ev" and ?t = "extractDTag ev"
  obtain r where r: "version_check (chk d) ?p ?k ?t = Inr r" "dtag_check (chk d) ?p ?k ?t r = Inr res"
    using enforce_parts[OF assms(2-5)] .
  note v = version_check_result[OF assms(1) r(1)]
  note t = dtag_check_result[OF r(2) v(1)]
  have "?t \<notin> set (DTagsToDelete res)" using t(2) has_dtag by blast
  then have eq: "versions (apply_limits del_id del_dtag ?p ?k res d) ?p ?k ?t
      = versions (foldl (\<lambda>d i. del_id ?k i d) d (EventsToDelete r)) ?p ?k ?t"
    by (simp add: apply_limits_def versions_after_dtags t(1))
  show ?thesis
  proof (cases "length (versions d ?p ?k ?t) < MaxVersionsPerDTag")
    case True
    then show ?thesis using eq v(2) by simp
  next
    case False
    then obtain i where "i \<in> set (versions d ?p ?k ?t)" "EventsToDelete r = [i]" using v(3) by auto
    then have "length (versions (apply_limits del_id del_dtag ?p ?k res d) ?p ?k ?t) < length (versions d ?p ?k ?t)"
      using eq remove_one[of i] by (simp add: del_id_versions)
    then show ?thesis using assms(6) by simp
  qed
qed

lemma room_for_dtag:
  assumes "wf d" "60600 \<le> ev_kind ev" "ev_kind ev \<le> 65600" "extractDTag ev \<noteq> []"
    and "EnforceRateLimits ev (chk d) = Inr res"
    and "extractDTag ev \<notin> set (dtags d (ev_pubkey ev) (ev_kind ev))"
    and "length (dtags d (ev_pubkey ev) (ev_kind ev)) \<le> MaxDTagsPerKind"
  shows "length (dtags (apply_limits del_id del_dtag (ev_pubkey ev) (ev_kind ev) res d) (ev_pubkey ev) (ev_kind ev)) < MaxDTagsPerKind
    \<or> (\<exists>u. rl_GetOldestDTagForKind (chk d) (ev_pubkey ev) (ev_kind ev) = Inr u \<and>
         (u = [] \<or> rl_IsDTagReferencedByAnchor (chk d) (ev_pubkey ev) (ev_kind ev) u = Inr True))"
proof -
  let ?p = "ev_pubkey ev" and ?k = "ev_kind ev" and ?t = "extractDTag ev"
  obtain r where r: "version_check (chk d) ?p ?k ?t = Inr r" "dtag_check (chk d) ?p ?k ?t r = Inr res"
    using enforce_parts[OF assms(2-5)] .
  note v = version_check_result[OF assms(1) r(1)]
  note t = dtag_check_result[OF r(2) v(1)]
  have none: "versions d ?p ?k ?t = []" using assms(6) has_dtag by blast
  then have e: "EventsToDelete res = []" using t(1) v(2) by (simp add: const_defs)
  show ?thesis
  proof (cases "length (dtags d ?p ?k) < MaxDTagsPerKind")
    case True
    have "length (dtags (apply_limits del_id del_dtag ?p ?k res d) ?p ?k) \<le> length (dtags d ?p ?k)"
      using e by (simp add: apply_limits_def dtags_shrink)
    then show ?thesis using True by simp
  next
    case False
    then obtain u where u: "u \<in> set (dtags d ?p ?k)" "rl_GetOldestDTagForKind (chk d) ?p ?k = Inr u"
      "DTagsToDelete res = [u] \<or> u = [] \<or> rl_IsDTagReferencedByAnchor (chk d) ?p ?k u = Inr True"
      using t(3)[OF none] by auto
    have "DTagsToDelete res = [u] \<Longrightarrow> length (dtags (apply_limits del_id del_dtag ?p ?k res d) ?p ?k) < length (dtags d ?p ?k)"
      using u(1) e remove_one[of u] by (simp add: apply_limits_def del_dtag_dtags)
    then show ?thesis using u assms(7) by auto
  qed
qed

end

section \<open>The database is a rate-limit store\<close>

definition version_ids :: "database \<Rightarrow> string \<Rightarrow> int \<Rightarrow> string \<Rightarrow> string list" where
  "version_ids d p k t = map r_id (filter (at_addr p t) (kind_rows k d))"

definition owner_dtags :: "database \<Rightarrow> string \<Rightarrow> int \<Rightarrow> string list" where
  "owner_dtags d p k = dtags_of p (kind_rows k d)"

definition ids_ok :: "database \<Rightarrow> bool" where
  "ids_ok d \<longleftrightarrow> db_keys d \<and> (\<forall>k. \<forall>r\<in>set (kind_rows k d). r_id r \<noteq> [])"

lemma truncate_fields [simp]:
  "r_id (ev_row.truncate r) = r_id r" "r_pubkey (ev_row.truncate r) = r_pubkey r"
  "r_d_tag (ev_row.truncate r) = r_d_tag r" "r_created_at (ev_row.truncate r) = r_created_at r"
  "at_addr p t (ev_row.truncate r) = at_addr p t r"
  by (simp_all add: ev_row.defs at_addr_def)

lemma kindToTable_empty: "kindToTable k = [] \<Longrightarrow> kind_rows k d = []"
  by (auto simp: kindToTable_def kind_rows_def split: if_splits)

lemma filter_truncate:
  "filter P (map ev_row.truncate t) = map ev_row.truncate (filter (\<lambda>r. P (ev_row.truncate r)) t)"
  by (simp add: filter_map comp_def)

lemma kind_rows_delete_id: "kind_rows k (DeleteEventByID k i d) = filter (\<lambda>r. r_id r \<noteq> i) (kind_rows k d)"
  by (simp add: kind_rows_def DeleteEventByID_def delete_where_def filter_truncate)

lemma kind_rows_delete_dtag:
  "kind_rows k (DeleteEventsByDTag p k t d) = filter (\<lambda>r. \<not> at_addr p t r) (kind_rows k d)"
  by (simp add: kind_rows_def DeleteEventsByDTag_def delete_where_def filter_truncate)

lemma unique_ids_distinct: "unique_rows id_clash t \<Longrightarrow> distinct (map r_id t)"
  by (induction t) (auto simp: unique_rows_def id_clash_def)

lemma kind_rows_distinct: "db_keys d \<Longrightarrow> distinct (map r_id (kind_rows k d))"
proof -
  assume d: "db_keys d"
  have "unique_rows anchor_clash t \<Longrightarrow> distinct (map r_id t)" for t :: "anchor_row list"
    by (induction t) (auto simp: unique_rows_def anchor_clash_def)
  then show ?thesis using d by (auto simp: db_keys_def kind_rows_def comp_def unique_ids_distinct)
qed

lemma in_dtags_of: "t \<in> set (dtags_of p rs) \<longleftrightarrow> filter (at_addr p t) rs \<noteq> []"
  by (auto simp: dtags_of_def at_addr_def filter_empty_conv)

lemma dtags_of_filter: "dtags_of p (filter (\<lambda>r. \<not> at_addr p t r) rs) = filter (\<lambda>u. u \<noteq> t) (dtags_of p rs)"
proof -
  have "map r_d_tag (filter (\<lambda>r. r_pubkey r = p) (filter (\<lambda>r. \<not> at_addr p t r) rs))
      = filter (\<lambda>u. u \<noteq> t) (map r_d_tag (filter (\<lambda>r. r_pubkey r = p) rs))"
    by (induction rs) (auto simp: at_addr_def)
  then show ?thesis by (simp add: dtags_of_def remdups_filter)
qed

interpretation limiter: rate_limit_db checker version_ids owner_dtags DeleteEventByID DeleteEventsByDTag ids_ok
proof (unfold_locales, goal_cases)
  case (1 d p k t)
  then show ?case
    by (auto simp: checker_def CountEventVersions_def version_ids_def count_where_def kindToTable_empty)
next
  case (2 d p k)
  then show ?case
    by (auto simp: checker_def CountDTagsForKind_def owner_dtags_def dtags_of_def kindToTable_empty)
next
  case (3 d p k t)
  then obtain r rs where o: "order_by r_created_at (filter (at_addr p t) (kind_rows k d)) = r # rs"
    by (cases "order_by r_created_at (filter (at_addr p t) (kind_rows k d))") (auto simp: version_ids_def)
  then have "r \<in> set (filter (at_addr p t) (kind_rows k d))" by (rule order_by_Cons)
  moreover have "kindToTable k \<noteq> []" using calculation kindToTable_empty by force
  ultimately show ?case using o by (auto simp: checker_def GetOldestEventVersion_def version_ids_def)
next
  case (4 d p k)
  then obtain t ts where o: "order_by (latest_at p (kind_rows k d)) (dtags_of p (kind_rows k d)) = t # ts"
    by (cases "order_by (latest_at p (kind_rows k d)) (dtags_of p (kind_rows k d))") (auto simp: owner_dtags_def)
  then have "t \<in> set (dtags_of p (kind_rows k d))" by (rule order_by_Cons)
  moreover have "kindToTable k \<noteq> []" using calculation kindToTable_empty by (force simp: dtags_of_def)
  ultimately show ?case using o by (auto simp: checker_def GetOldestDTagForKind_def owner_dtags_def)
next
  case (5 d p k t)
  show ?case
    by (cases "k \<noteq> 61600 \<and> k \<noteq> 62600 \<and> k \<noteq> 63600")
      (simp_all add: checker_def IsDTagReferencedByAnchor_def exI[of _ False])
next
  case (6 k i d p t)
  show ?case by (simp add: version_ids_def kind_rows_delete_id filter_map comp_def conj_commute)
next
  case (7 p k t d)
  show ?case by (simp add: owner_dtags_def kind_rows_delete_dtag dtags_of_filter)
next
  case (8 t u p k d)
  then have "filter (at_addr p u) (filter (\<lambda>r. \<not> at_addr p t r) rs) = filter (at_addr p u) rs" for rs :: "ev_row list"
    by (induction rs) (auto simp: at_addr_def)
  then show ?case by (simp only: version_ids_def kind_rows_delete_dtag)
next
  case (9 d p k t)
  show ?case by (simp add: version_ids_def owner_dtags_def in_dtags_of)
next
  case (10 d p k t)
  then have "\<forall>r\<in>set (kind_rows k d). [] \<noteq> r_id r" by (metis ids_ok_def)
  then show ?case
    using 10 kind_rows_distinct[of d k] by (auto simp: ids_ok_def version_ids_def distinct_map_filter)
qed

section \<open>Properties of the rate limiter\<close>

text \<open>
  On a database within its limits, \<open>EnforceRateLimits\<close> never fails, and after the deletions
  it asks for there is room for the new event: fewer than ten versions at its address, and, when
  its d tag is new, fewer than five d tags of the author and kind, unless the oldest d tag is
  empty or taken to be referenced by an anchor.
\<close>

lemma rate_limits_make_room:
  assumes "db_keys d" "\<forall>k. \<forall>r\<in>set (kind_rows k d). r_id r \<noteq> []"
    and "60600 \<le> ev_kind ev" "ev_kind ev \<le> 65600" "extractDTag ev \<noteq> []"
    and "length (version_ids d (ev_pubkey ev) (ev_kind ev) (extractDTag ev)) \<le> MaxVersionsPerDTag"
    and "length (owner_dtags d (ev_pubkey ev) (ev_kind ev)) \<le> MaxDTagsPerKind"
  shows "\<exists>res. EnforceRateLimits ev (checker d) = Ok res
    \<and> (let d' = apply_limits DeleteEventByID DeleteEventsByDTag (ev_pubkey ev) (ev_kind ev) res d in
        length (version_ids d' (ev_pubkey ev) (ev_kind ev) (extractDTag ev)) < MaxVersionsPerDTag
        \<and> (extractDTag ev \<notin> set (owner_dtags d (ev_pubkey ev) (ev_kind ev)) \<longrightarrow>
            length (owner_dtags d' (ev_pubkey ev) (ev_kind ev)) < MaxDTagsPerKind
            \<or> (\<exists>u. GetOldestDTagForKind (ev_pubkey ev) (ev_kind ev) d = Ok u \<and>
                 (u = [] \<or> IsDTagReferencedByAnchor (ev_pubkey ev) (ev_kind ev) u d = Ok True))))"
proof -
  have ok: "ids_ok d" using assms(1,2) by (simp add: ids_ok_def)
  obtain res where res: "EnforceRateLimits ev (checker d) = Inr res" using limiter.limits_total by blast
  show ?thesis
    using res limiter.room_for_version[OF ok assms(3-5) res assms(6)]
      limiter.room_for_dtag[OF ok assms(3-5) res _ assms(7)]
    by (auto simp: Let_def checker_def)
qed

lemma rate_limits_make_room_example:
  "\<exists>res. EnforceRateLimits (meta_event ''e9'' 9) (checker empty_db) = Ok res"
proof -
  have k: "kind_rows k empty_db = []" for k by (simp add: kind_rows_def empty_db_def)
  have t: "extractDTag (meta_event ''e9'' 9) = ''profile''" "ev_kind (meta_event ''e9'' 9) = 63600" by code_simp+
  let ?e = "meta_event ''e9'' 9"
  have p: "\<forall>k. \<forall>r\<in>set (kind_rows k empty_db). r_id r \<noteq> []" "60600 \<le> ev_kind ?e" "ev_kind ?e \<le> 65600"
    "extractDTag ?e \<noteq> []" "length (version_ids empty_db (ev_pubkey ?e) (ev_kind ?e) (extractDTag ?e)) \<le> MaxVersionsPerDTag"
    "length (owner_dtags empty_db (ev_pubkey ?e) (ev_kind ?e)) \<le> MaxDTagsPerKind"
    by (simp_all add: t k version_ids_def owner_dtags_def dtags_of_def)
  show ?thesis using rate_limits_make_room[OF empty_db_keys p] by blast
qed

end
