(* ===== verification/Awareness.thy ===== *)
theory Awareness
  imports Tables Events
begin

text \<open>
  Awareness marks and peer nodes: the tables \<^verbatim>\<open>awareness_marks_local\<close>, \<^verbatim>\<open>awareness_marks_peers\<close> and
  \<^verbatim>\<open>peer_nodes\<close> with their operations in \<^verbatim>\<open>src/internal/database/queries.go\<close>, the import of a
  NIP-51 awareness list (\<^verbatim>\<open>parseDNNAwarenessEvent\<close>, \<^verbatim>\<open>syncPeerAwareness\<close> in \<^verbatim>\<open>syncer.go\<close> and
  \<^verbatim>\<open>handleAwarenessSync\<close> in \<^verbatim>\<open>node.go\<close>), and the peer health checks.  The HTTP probe of a peer is
  a parameter.
\<close>

section \<open>Tables\<close>

record local_mark =
  lm_block :: int
  lm_position :: int
  lm_name :: string
  lm_mark :: string
  lm_category :: string
  lm_reason :: string
  lm_updated_at :: int

record peer_mark =
  pm_block :: int
  pm_position :: int
  pm_name :: string
  pm_peer :: string
  pm_mark :: string
  pm_category :: string
  pm_reason :: string
  pm_received_at :: int

record peer_node =
  pn_address :: string
  pn_node_npub :: string
  pn_node_pubkey :: string
  pn_admin_pubkey :: string
  pn_announced_by :: string
  pn_is_verified :: bool
  pn_fail_count :: nat
  pn_last_checked :: "int option"
  pn_last_seen :: "int option"
  pn_discovered_at :: int

record awareness_db =
  local_marks :: "local_mark list"
  peer_marks :: "peer_mark list"
  peer_nodes :: "peer_node list"

datatype mark_error = InvalidMark | InvalidCategory

definition lm_clash :: "local_mark \<Rightarrow> local_mark \<Rightarrow> bool" where
  "lm_clash r s \<longleftrightarrow> lm_block r = lm_block s \<and> lm_position r = lm_position s \<and> lm_name r = lm_name s"

definition pm_clash :: "peer_mark \<Rightarrow> peer_mark \<Rightarrow> bool" where
  "pm_clash r s \<longleftrightarrow> pm_block r = pm_block s \<and> pm_position r = pm_position s \<and> pm_name r = pm_name s
     \<and> pm_peer r = pm_peer s"

definition pn_clash :: "peer_node \<Rightarrow> peer_node \<Rightarrow> bool" where
  "pn_clash r s \<longleftrightarrow> pn_address r = pn_address s"

interpretation lm_table: unique_table lm_clash
  by unfold_locales (auto simp: lm_clash_def)

interpretation pm_table: unique_table pm_clash
  by unfold_locales (auto simp: pm_clash_def)

interpretation pn_table: unique_table pn_clash
  by unfold_locales (auto simp: pn_clash_def)

section \<open>Local marks\<close>

definition validMarks :: "string list" where
  "validMarks = [''allow'', ''neutral'', ''block'']"

definition validCategories :: "string list" where
  "validCategories = [[], ''malware'', ''phishing'', ''scam'', ''adult'', ''other'']"

definition AddLocalMark ::
  "int \<Rightarrow> int \<Rightarrow> int \<Rightarrow> string \<Rightarrow> string \<Rightarrow> string \<Rightarrow> string \<Rightarrow> awareness_db \<Rightarrow> (mark_error, awareness_db) res"
where
  "AddLocalMark now dnnBlock position name mark category reason d =
     (if mark \<notin> set validMarks then Err InvalidMark
      else if category \<notin> set validCategories then Err InvalidCategory
      else Ok (d\<lparr>local_marks := insert_or_replace lm_clash
             \<lparr> lm_block = dnnBlock, lm_position = position, lm_name = name, lm_mark = mark,
               lm_category = category, lm_reason = reason, lm_updated_at = now \<rparr> (local_marks d)\<rparr>))"

definition at_mark :: "int \<Rightarrow> int \<Rightarrow> string \<Rightarrow> local_mark \<Rightarrow> bool" where
  "at_mark dnnBlock position name r \<longleftrightarrow> lm_block r = dnnBlock \<and> lm_position r = position \<and> lm_name r = name"

definition DeleteLocalMark :: "int \<Rightarrow> int \<Rightarrow> string \<Rightarrow> awareness_db \<Rightarrow> awareness_db" where
  "DeleteLocalMark dnnBlock position name d =
     d\<lparr>local_marks := delete_where (at_mark dnnBlock position name) (local_marks d)\<rparr>"

definition GetLocalMarkByID :: "int \<Rightarrow> int \<Rightarrow> string \<Rightarrow> awareness_db \<Rightarrow> local_mark option" where
  "GetLocalMarkByID dnnBlock position name d = find (at_mark dnnBlock position name) (local_marks d)"

definition ClearLocalMarks :: "awareness_db \<Rightarrow> awareness_db" where
  "ClearLocalMarks d = d\<lparr>local_marks := []\<rparr>"

definition GetLocalMarks :: "awareness_db \<Rightarrow> local_mark list" where
  "GetLocalMarks d = order_by (\<lambda>r. - lm_updated_at r) (local_marks d)"

definition IsBlocked :: "int \<Rightarrow> int \<Rightarrow> string \<Rightarrow> awareness_db \<Rightarrow> bool" where
  "IsBlocked dnnBlock position name d =
     (case GetLocalMarkByID dnnBlock position [] d of
        Some m \<Rightarrow> if lm_mark m = ''block'' then True
                  else (if name \<noteq> [] then (case GetLocalMarkByID dnnBlock position name d of
                          Some m' \<Rightarrow> lm_mark m' = ''block'' | None \<Rightarrow> False) else False)
      | None \<Rightarrow> (if name \<noteq> [] then (case GetLocalMarkByID dnnBlock position name d of
                          Some m' \<Rightarrow> lm_mark m' = ''block'' | None \<Rightarrow> False) else False))"

definition shouldBlock :: "string \<Rightarrow> string \<Rightarrow> string \<Rightarrow> bool" where
  "shouldBlock mark category filterLevel =
     (if mark = ''block'' then True
      else if mark = ''allow'' then False
      else if mark = ''neutral'' then
        (if filterLevel = ''security'' then category \<in> {''malware'', ''phishing'', ''scam''}
         else if filterLevel = ''strict'' then category \<noteq> []
         else False)
      else False)"

section \<open>Peer marks\<close>

definition AddPeerMark ::
  "int \<Rightarrow> int \<Rightarrow> int \<Rightarrow> string \<Rightarrow> string \<Rightarrow> string \<Rightarrow> string \<Rightarrow> string \<Rightarrow> awareness_db \<Rightarrow> (mark_error, awareness_db) res"
where
  "AddPeerMark now dnnBlock position name peerPubkey mark category reason d =
     (if mark \<notin> set validMarks then Err InvalidMark
      else Ok (d\<lparr>peer_marks := insert_or_replace pm_clash
             \<lparr> pm_block = dnnBlock, pm_position = position, pm_name = name, pm_peer = peerPubkey,
               pm_mark = mark, pm_category = category, pm_reason = reason, pm_received_at = now \<rparr>
             (peer_marks d)\<rparr>))"

definition ClearPeerMarksForPeer :: "string \<Rightarrow> awareness_db \<Rightarrow> awareness_db" where
  "ClearPeerMarksForPeer peerPubkey d =
     d\<lparr>peer_marks := delete_where (\<lambda>r. pm_peer r = peerPubkey) (peer_marks d)\<rparr>"

definition GetPeerMarks :: "int \<Rightarrow> int \<Rightarrow> awareness_db \<Rightarrow> peer_mark list" where
  "GetPeerMarks dnnBlock position d = order_by (\<lambda>r. - pm_received_at r)
     (filter (\<lambda>r. pm_block r = dnnBlock \<and> pm_position r = position) (peer_marks d))"

record peer_consensus =
  pc_allow :: nat
  pc_neutral :: nat
  pc_block :: nat
  pc_total :: nat
  pc_categories :: "(string \<times> nat) list"

definition GetPeerConsensus :: "int \<Rightarrow> int \<Rightarrow> string \<Rightarrow> awareness_db \<Rightarrow> peer_consensus" where
  "GetPeerConsensus dnnBlock position name d =
     (let rs = filter (\<lambda>r. pm_block r = dnnBlock \<and> pm_position r = position \<and> pm_name r = name) (peer_marks d);
          blocked = filter (\<lambda>r. pm_mark r = ''block'' \<and> pm_category r \<noteq> []) rs
      in \<lparr> pc_allow = count_where (\<lambda>r. pm_mark r = ''allow'') rs,
           pc_neutral = count_where (\<lambda>r. pm_mark r = ''neutral'') rs,
           pc_block = count_where (\<lambda>r. pm_mark r = ''block'') rs,
           pc_total = length rs,
           pc_categories = (if rs = [] then []
             else map (\<lambda>c. (c, count_where (\<lambda>r. pm_category r = c) blocked)) (remdups (map pm_category blocked))) \<rparr>)"

section \<open>Awareness lists\<close>

text \<open>
  \<^verbatim>\<open>fmt.Sscanf(s, "n%d.%d", ...)\<close>: the literal, a decimal with optional leading blanks and sign,
  a dot, a second decimal; what follows is not looked at.
\<close>

definition scan_int :: "string \<Rightarrow> (int \<times> string) option" where
  "scan_int s0 =
     (let s = dropWhile (\<lambda>c. c = CHR '' '' \<or> byte_of c = 9 \<or> byte_of c = 13) s0;
          sg = (if s \<noteq> [] \<and> (hd s = CHR ''-'' \<or> hd s = CHR ''+'') then [hd s] else []);
          r = drop (length sg) s
      in case parse_int64 (sg @ takeWhile is_digit r) of
           None \<Rightarrow> None | Some v \<Rightarrow> Some (v, dropWhile is_digit r))"

definition scan_block_position :: "string \<Rightarrow> (int \<times> int) option" where
  "scan_block_position s =
     (if has_prefix s ''n'' then
        (case scan_int (drop 1 s) of
           None \<Rightarrow> None
         | Some (b, r) \<Rightarrow>
             if has_prefix r ''.'' then
               (case scan_int (drop 1 r) of None \<Rightarrow> None | Some (p, _) \<Rightarrow> Some (b, p))
             else None)
      else None)"

definition split_first_dot :: "string \<Rightarrow> (string \<times> string) option" where
  "split_first_dot s = (let a = takeWhile (\<lambda>c. c \<noteq> CHR ''.'') s in
     if a = s then None else Some (a, drop (Suc (length a)) s))"

definition parse_dnn_id :: "string \<Rightarrow> (string \<times> int \<times> int) option" where
  "parse_dnn_id dnnID =
     (case split_first_dot dnnID of
        None \<Rightarrow> None
      | Some (a, b) \<Rightarrow>
          (case scan_block_position b of
             Some (block, pos) \<Rightarrow> Some (a, block, pos)
           | None \<Rightarrow>
               (case scan_block_position dnnID of
                  Some (block, pos) \<Rightarrow> Some ([], block, pos) | None \<Rightarrow> None)))"

definition nth_or_empty :: "nat \<Rightarrow> tag \<Rightarrow> string" where
  "nth_or_empty i t = (if i < length t then t ! i else [])"

text \<open>One tag of a list: the number of marks stored and the new state.\<close>

definition peer_mark_step ::
  "int \<Rightarrow> string \<Rightarrow> tag \<Rightarrow> nat \<times> awareness_db \<Rightarrow> nat \<times> awareness_db"
where
  "peer_mark_step now peerPubkey t st =
     (if length t < 3 \<or> t ! 0 \<noteq> ''dnn'' then st
      else case parse_dnn_id (t ! 1) of
        None \<Rightarrow> st
      | Some (name, block, pos) \<Rightarrow>
          (case AddPeerMark now block pos name peerPubkey (t ! 2) (nth_or_empty 3 t) (nth_or_empty 4 t) (snd st) of
             Inl _ \<Rightarrow> st
           | Inr d \<Rightarrow> (fst st + 1, d)))"

definition parseDNNAwarenessEvent :: "int \<Rightarrow> event \<Rightarrow> string \<Rightarrow> awareness_db \<Rightarrow> nat \<times> awareness_db" where
  "parseDNNAwarenessEvent now ev peerPubkey d =
     foldl (\<lambda>st t. peer_mark_step now peerPubkey t st) (0, ClearPeerMarksForPeer peerPubkey d) (ev_tags ev)"

text \<open>The newest list of each author; the map is walked in the order of the list \<open>authors\<close>.\<close>

definition newer_list :: "event option \<Rightarrow> event \<Rightarrow> event option" where
  "newer_list old ev = (case old of None \<Rightarrow> Some ev
     | Some o' \<Rightarrow> if ev_created_at ev > ev_created_at o' then Some ev else Some o')"

definition newest_by_author :: "event list \<Rightarrow> string \<Rightarrow> event option" where
  "newest_by_author evs pk = foldl newer_list None (filter (\<lambda>e. ev_pubkey e = pk) evs)"

definition syncPeerAwareness :: "int \<Rightarrow> event list \<Rightarrow> string list \<Rightarrow> awareness_db \<Rightarrow> awareness_db" where
  "syncPeerAwareness now foundEvents authors d =
     foldl (\<lambda>d pk. case newest_by_author foundEvents pk of
                     None \<Rightarrow> d | Some ev \<Rightarrow> snd (parseDNNAwarenessEvent now ev pk d)) d authors"

definition local_mark_step :: "int \<Rightarrow> tag \<Rightarrow> nat \<times> awareness_db \<Rightarrow> nat \<times> awareness_db" where
  "local_mark_step now t st =
     (if length t \<ge> 3 \<and> t ! 0 = ''dnn'' then
        (case parse_dnn_id (t ! 1) of
           None \<Rightarrow> st
         | Some (name, block, pos) \<Rightarrow>
             (case AddLocalMark now block pos name (t ! 2) (nth_or_empty 3 t) (nth_or_empty 4 t) (snd st) of
                Inl _ \<Rightarrow> st
              | Inr d \<Rightarrow> (fst st + 1, d)))
      else st)"

definition handleAwarenessSync :: "int \<Rightarrow> event option list \<Rightarrow> awareness_db \<Rightarrow> (nat \<times> awareness_db) option" where
  "handleAwarenessSync now firstEvents d =
     (case foldl (\<lambda>acc e. case e of None \<Rightarrow> acc | Some ev \<Rightarrow> newer_list acc ev) None firstEvents of
        None \<Rightarrow> None
      | Some ev \<Rightarrow> Some (foldl (\<lambda>st t. local_mark_step now t st) (0, ClearLocalMarks d) (ev_tags ev)))"

section \<open>Peer nodes\<close>

definition PeerAddressExists :: "string \<Rightarrow> awareness_db \<Rightarrow> bool" where
  "PeerAddressExists address d \<longleftrightarrow> count_where (\<lambda>r. pn_address r = address) (peer_nodes d) > 0"

definition StorePeerNode :: "int \<Rightarrow> peer_node \<Rightarrow> awareness_db \<Rightarrow> awareness_db" where
  "StorePeerNode now node d =
     d\<lparr>peer_nodes := insert_or_replace pn_clash
        (node\<lparr> pn_is_verified := True, pn_fail_count := 0, pn_last_checked := None, pn_last_seen := Some now,
              pn_discovered_at := (case find (\<lambda>r. pn_address r = pn_address node) (peer_nodes d) of
                 Some r \<Rightarrow> pn_discovered_at r | None \<Rightarrow> now) \<rparr>) (peer_nodes d)\<rparr>"

definition UpdatePeerHealthCheck ::
  "int \<Rightarrow> string \<Rightarrow> (string \<times> string \<times> string) option \<Rightarrow> awareness_db \<Rightarrow> awareness_db" where
  "UpdatePeerHealthCheck now address result d =
     d\<lparr>peer_nodes := update_where (\<lambda>r. pn_address r = address)
        (\<lambda>r. case result of
           Some (npub, pubkey, admin) \<Rightarrow>
             r\<lparr> pn_last_checked := Some now, pn_last_seen := Some now, pn_fail_count := 0, pn_is_verified := True,
               pn_node_npub := npub, pn_node_pubkey := pubkey, pn_admin_pubkey := admin \<rparr>
         | None \<Rightarrow> r\<lparr> pn_last_checked := Some now, pn_fail_count := pn_fail_count r + 1 \<rparr>) (peer_nodes d)\<rparr>"

definition RemoveDeadPeers :: "nat \<Rightarrow> awareness_db \<Rightarrow> awareness_db" where
  "RemoveDeadPeers maxFailCount d =
     d\<lparr>peer_nodes := delete_where (\<lambda>r. pn_fail_count r \<ge> maxFailCount) (peer_nodes d)\<rparr>"

definition GetAllPeerAddresses :: "awareness_db \<Rightarrow> peer_node list" where
  "GetAllPeerAddresses d = order_by pn_discovered_at (peer_nodes d)"

text \<open>
  \<^verbatim>\<open>admin_pubkey\<close> is never NULL (its default is the empty string), so the \<^verbatim>\<open>COALESCE\<close> of the \<^verbatim>\<open>WHERE\<close>
  clause is \<^verbatim>\<open>admin_pubkey\<close>.
\<close>

definition GetPeerAdminPubkeys :: "awareness_db \<Rightarrow> string list" where
  "GetPeerAdminPubkeys d =
     filter (\<lambda>pk. pk \<noteq> []) (map (\<lambda>r. if pn_admin_pubkey r \<noteq> [] then pn_admin_pubkey r else pn_node_pubkey r)
       (filter (\<lambda>r. pn_is_verified r \<and> pn_fail_count r < 4 \<and> pn_admin_pubkey r \<noteq> []) (peer_nodes d)))"

definition GetPeerNodeCount :: "awareness_db \<Rightarrow> nat \<times> nat" where
  "GetPeerNodeCount d = (length (peer_nodes d), count_where pn_is_verified (peer_nodes d))"

text \<open>One round of health checks; \<open>probe\<close> is the outcome of \<^verbatim>\<open>verifyNodeEndpoint\<close> in this round.\<close>

definition runPeerHealthChecks ::
  "int \<Rightarrow> (string \<Rightarrow> (string \<times> string \<times> string) option) \<Rightarrow> awareness_db \<Rightarrow> awareness_db" where
  "runPeerHealthChecks now probe d =
     (let peers = GetAllPeerAddresses d in
      if peers = [] then d
      else RemoveDeadPeers 4
        (foldl (\<lambda>d peer. UpdatePeerHealthCheck now (pn_address peer) (probe (pn_address peer)) d) d peers))"

section \<open>Scanning identifiers\<close>

lemma scan_int_show:
  assumes "in64 v" "r = [] \<or> \<not> is_digit (hd r)"
  shows "scan_int (show_int v @ r) = Some (v, r)"
proof -
  have d: "takeWhile is_digit (show_nat n @ r) = show_nat n" "dropWhile is_digit (show_nat n @ r) = r" for n
    using show_nat_digits[of n] assms(2) by (cases r; auto simp: list_all_iff takeWhile_append dropWhile_append)+
  obtain c cs where c: "show_nat (nat v) = c # cs" "is_digit c"
    using show_nat_digits[of "nat v"] by (cases "show_nat (nat v)") auto
  have nb: "\<not> (c = CHR '' '' \<or> byte_of c = 9 \<or> byte_of c = 13)" "c \<noteq> CHR ''-''" "c \<noteq> CHR ''+''"
    using c(2) by (auto simp: is_digit_def byte_of_def)
  show ?thesis
  proof (cases "v < 0")
    case True
    then show ?thesis using d[of "nat (- v)"] parse_show_int[OF assms(1)]
      by (simp add: scan_int_def show_int_def byte_of_def Let_def)
  next
    case False
    then have s: "show_int v @ r = c # cs @ r" using c by (simp add: show_int_def)
    have "dropWhile (\<lambda>c. c = CHR '' '' \<or> byte_of c = 9 \<or> byte_of c = 13) (c # cs @ r) = c # cs @ r"
      using nb by simp
    then show ?thesis using nb d[of "nat v"] parse_show_int[OF assms(1)] False c(1)
      unfolding s scan_int_def by (simp add: show_int_def Let_def)
  qed
qed

lemma scan_block_position_show:
  assumes "in64 b" "in64 p"
  shows "scan_block_position (CHR ''n'' # show_int b @ CHR ''.'' # show_int p) = Some (b, p)"
proof -
  have "\<not> is_digit (CHR ''.'')" by (simp add: is_digit_def byte_of_def)
  then show ?thesis
    using scan_int_show[OF assms(1), of "CHR ''.'' # show_int p"] scan_int_show[OF assms(2), of "[]"]
    by (simp add: scan_block_position_def has_prefix_def)
qed

lemma split_first_dot_append:
  "CHR ''.'' \<notin> set a \<Longrightarrow> split_first_dot (a @ CHR ''.'' # b) = Some (a, b)"
proof -
  assume a: "CHR ''.'' \<notin> set a"
  then have "takeWhile (\<lambda>c. c \<noteq> CHR ''.'') (a @ CHR ''.'' # b) = a"
    by (induction a) auto
  then show ?thesis by (simp add: split_first_dot_def)
qed

section \<open>What an import changes\<close>

lemma peer_mark_step_others:
  "filter (\<lambda>r. pm_peer r \<noteq> pk) (peer_marks (snd (peer_mark_step now pk t st)))
     = filter (\<lambda>r. pm_peer r \<noteq> pk) (peer_marks (snd st))"
proof -
  have "filter (\<lambda>s. \<not> pm_clash r s \<and> pm_peer s \<noteq> pk) rs = filter (\<lambda>s. pm_peer s \<noteq> pk) rs"
    if "pm_peer r = pk" for r rs
    using that by (intro filter_cong) (auto simp: pm_clash_def)
  then show ?thesis
    by (auto simp: peer_mark_step_def AddPeerMark_def insert_or_replace_def
        split: option.splits sum.splits if_splits)
qed

lemma import_others:
  "filter (\<lambda>r. pm_peer r \<noteq> pk) (peer_marks (snd (foldl (\<lambda>st t. peer_mark_step now pk t st) st ts)))
     = filter (\<lambda>r. pm_peer r \<noteq> pk) (peer_marks (snd st))"
  by (induction ts arbitrary: st) (simp_all add: peer_mark_step_others)

definition mark_from :: "tag \<Rightarrow> peer_mark \<Rightarrow> bool" where
  "mark_from t r \<longleftrightarrow> length t \<ge> 3 \<and> t ! 0 = ''dnn'' \<and> pm_mark r = t ! 2 \<and> t ! 2 \<in> set validMarks
     \<and> parse_dnn_id (t ! 1) = Some (pm_name r, pm_block r, pm_position r)"

lemma peer_mark_step_own:
  "r \<in> set (peer_marks (snd (peer_mark_step now pk t st))) \<Longrightarrow> r \<in> set (peer_marks (snd st)) \<or> mark_from t r"
  by (auto simp: peer_mark_step_def AddPeerMark_def pm_table.replace_set mark_from_def
      split: option.splits sum.splits if_splits)

lemma import_own:
  "r \<in> set (peer_marks (snd (foldl (\<lambda>st t. peer_mark_step now pk t st) st ts))) \<Longrightarrow>
     r \<in> set (peer_marks (snd st)) \<or> (\<exists>t\<in>set ts. mark_from t r)"
proof (induction ts arbitrary: st)
  case (Cons t ts)
  then show ?case using peer_mark_step_own[of r now pk t st] by fastforce
qed simp

section \<open>Health checks\<close>

definition check_peer :: "int \<Rightarrow> (string \<Rightarrow> (string \<times> string \<times> string) option) \<Rightarrow> peer_node \<Rightarrow> peer_node" where
  "check_peer now probe r = (case probe (pn_address r) of
     Some (npub, pubkey, admin) \<Rightarrow>
       r\<lparr> pn_last_checked := Some now, pn_last_seen := Some now, pn_fail_count := 0, pn_is_verified := True,
          pn_node_npub := npub, pn_node_pubkey := pubkey, pn_admin_pubkey := admin \<rparr>
   | None \<Rightarrow> r\<lparr> pn_last_checked := Some now, pn_fail_count := pn_fail_count r + 1 \<rparr>)"

lemma check_peer_address [simp]: "pn_address (check_peer now probe r) = pn_address r"
  by (auto simp: check_peer_def split: option.splits prod.splits)

lemma check_peer_fails:
  "probe (pn_address r) = None \<Longrightarrow> pn_fail_count (check_peer now probe r) = pn_fail_count r + 1"
  by (simp add: check_peer_def)

lemma update_health:
  "peer_nodes (UpdatePeerHealthCheck now a (probe a) d)
     = map (\<lambda>r. if pn_address r = a then check_peer now probe r else r) (peer_nodes d)"
  by (auto simp: UpdatePeerHealthCheck_def update_where_def check_peer_def split: option.splits)

lemma fold_health:
  "distinct as \<Longrightarrow> peer_nodes (foldl (\<lambda>d a. UpdatePeerHealthCheck now a (probe a) d) d as)
     = map (\<lambda>r. if pn_address r \<in> set as then check_peer now probe r else r) (peer_nodes d)"
  by (induction as arbitrary: d) (auto simp: update_health)

lemma unique_addresses: "unique_rows pn_clash t \<Longrightarrow> distinct (map pn_address t)"
  by (induction t) (auto simp: unique_rows_def pn_clash_def)

lemma runPeerHealthChecks_peers:
  assumes "unique_rows pn_clash (peer_nodes d)"
  shows "peer_nodes (runPeerHealthChecks now probe d)
    = filter (\<lambda>r. pn_fail_count r < 4) (map (check_peer now probe) (peer_nodes d))"
proof -
  let ?as = "map pn_address (GetAllPeerAddresses d)"
  have "distinct ?as"
    using unique_addresses[OF assms] by (simp add: GetAllPeerAddresses_def order_by_distinct_map)
  then have "peer_nodes (foldl (\<lambda>d a. UpdatePeerHealthCheck now a (probe a) d) d ?as)
      = map (check_peer now probe) (peer_nodes d)"
    by (subst fold_health) (auto simp: GetAllPeerAddresses_def)
  then have "peer_nodes (foldl (\<lambda>d peer. UpdatePeerHealthCheck now (pn_address peer) (probe (pn_address peer)) d) d
      (GetAllPeerAddresses d)) = map (check_peer now probe) (peer_nodes d)"
    by (simp add: foldl_map)
  then show ?thesis
    by (auto simp: runPeerHealthChecks_def RemoveDeadPeers_def delete_where_def not_le GetAllPeerAddresses_def Let_def)
qed

lemma health_unique:
  assumes "unique_rows pn_clash (peer_nodes d)"
  shows "unique_rows pn_clash (peer_nodes (runPeerHealthChecks now probe d))"
  unfolding runPeerHealthChecks_peers[OF assms]
  by (rule pn_table.unique_filter) (use assms in \<open>simp add: unique_rows_def sorted_wrt_map pn_clash_def\<close>)

section \<open>Properties\<close>

text \<open>
  The identifiers of awareness lists are read exactly: \<open>name.nBLOCK.POS\<close> and \<open>nBLOCK.POS\<close>,
  printed in decimal, parse to their name, block and position, for every dot-free name and all
  64-bit numbers.
\<close>

lemma dnn_id_roundtrip:
  assumes "CHR ''.'' \<notin> set name" "in64 block" "in64 pos"
  shows "parse_dnn_id (name @ ''.n'' @ show_int block @ ''.'' @ show_int pos) = Some (name, block, pos)
    \<and> parse_dnn_id (''n'' @ show_int block @ ''.'' @ show_int pos) = Some ([], block, pos)"
proof -
  have 1: "parse_dnn_id (name @ ''.n'' @ show_int block @ ''.'' @ show_int pos) = Some (name, block, pos)"
    using split_first_dot_append[OF assms(1)] scan_block_position_show[OF assms(2,3)]
    by (simp add: parse_dnn_id_def)
  have nd: "CHR ''.'' \<notin> set (CHR ''n'' # show_int block)" by simp
  have "show_int pos \<noteq> [] \<and> hd (show_int pos) \<noteq> CHR ''n''"
  proof (cases "pos < 0")
    case False
    then show ?thesis using show_nat_digits[of "nat pos"]
      by (cases "show_nat (nat pos)") (auto simp: show_int_def is_digit_def byte_of_def)
  qed (simp add: show_int_def)
  then have "scan_block_position (show_int pos) = None"
    by (cases "show_int pos") (auto simp: scan_block_position_def has_prefix_def)
  then show ?thesis
    using 1 split_first_dot_append[OF nd, of "show_int pos"] scan_block_position_show[OF assms(2,3)]
    by (simp add: parse_dnn_id_def)
qed

lemma dnn_id_roundtrip_example:
  "parse_dnn_id (''alice'' @ ''.n'' @ show_int 47 @ ''.'' @ show_int 3) = Some (''alice'', 47, 3)"
  using dnn_id_roundtrip[of "''alice''" 47 3] by (simp add: in64_def)

text \<open>
  Importing a peer's awareness list replaces that peer's marks and nobody else's: the
  marks of other peers stay as they were, and every mark the peer has afterwards comes from a
  well-formed tag of the imported list.
\<close>

lemma awareness_import_is_isolated:
  "filter (\<lambda>r. pm_peer r \<noteq> pk) (peer_marks (snd (parseDNNAwarenessEvent now ev pk d)))
     = filter (\<lambda>r. pm_peer r \<noteq> pk) (peer_marks d)
   \<and> list_all (\<lambda>r. list_ex (\<lambda>t. mark_from t r) (ev_tags ev))
       (filter (\<lambda>r. pm_peer r = pk) (peer_marks (snd (parseDNNAwarenessEvent now ev pk d))))"
proof -
  have "\<exists>t\<in>set (ev_tags ev). mark_from t r"
    if "r \<in> set (peer_marks (snd (parseDNNAwarenessEvent now ev pk d)))" "pm_peer r = pk" for r
    using import_own[OF that(1)[unfolded parseDNNAwarenessEvent_def]] that(2)
    by (auto simp: ClearPeerMarksForPeer_def delete_where_def)
  then show ?thesis
    by (auto simp: parseDNNAwarenessEvent_def import_others ClearPeerMarksForPeer_def delete_where_def
        list_all_iff list_ex_iff)
qed

text \<open>
  A block mark on a DNN id blocks every name under it: after \<open>AddLocalMark\<close> with the empty
  name and mark \<open>block\<close>, \<open>IsBlocked\<close> holds for all names, whatever name-level marks there are.
\<close>

lemma tld_block_wins:
  assumes "AddLocalMark now block pos [] ''block'' category reason d = Ok d'"
  shows "IsBlocked block pos name d'"
proof -
  let ?r = "\<lparr> lm_block = block, lm_position = pos, lm_name = [], lm_mark = ''block'', lm_category = category,
    lm_reason = reason, lm_updated_at = now \<rparr>"
  have d': "local_marks d' = insert_or_replace lm_clash ?r (local_marks d)"
    using assms by (auto simp: AddLocalMark_def split: if_splits)
  have "find (at_mark block pos []) (filter (\<lambda>s. \<not> lm_clash ?r s) t @ [?r]) = Some ?r" for t
    by (induction t) (auto simp: at_mark_def lm_clash_def)
  then have "GetLocalMarkByID block pos [] d' = Some ?r"
    by (simp add: GetLocalMarkByID_def d' insert_or_replace_def)
  then show ?thesis by (simp add: IsBlocked_def)
qed

lemma tld_block_wins_example:
  "\<exists>d'. AddLocalMark 5 47 3 [] ''block'' ''scam'' [] \<lparr> local_marks = [], peer_marks = [], peer_nodes = [] \<rparr> = Ok d'
     \<and> IsBlocked 47 3 ''shop'' d'"
proof -
  obtain d' where d: "AddLocalMark 5 47 3 [] ''block'' ''scam'' [] \<lparr> local_marks = [], peer_marks = [], peer_nodes = [] \<rparr> = Ok d'"
    by (simp add: AddLocalMark_def validMarks_def validCategories_def)
  then show ?thesis using tld_block_wins[OF d] by blast
qed

text \<open>
  A round of health checks is exact: with unique addresses, each peer is checked once, its
  counter is reset by an answer and incremented by a failure, and exactly the peers that then
  have four failures in a row are removed; a peer that never answers is gone after four rounds.
\<close>

lemma health_checks:
  assumes "unique_rows pn_clash (peer_nodes d)"
  shows "peer_nodes (runPeerHealthChecks now probe d)
      = filter (\<lambda>r. pn_fail_count r < 4) (map (check_peer now probe) (peer_nodes d))
    \<and> (probe1 a = None \<and> probe2 a = None \<and> probe3 a = None \<and> probe4 a = None \<longrightarrow>
        \<not> PeerAddressExists a (runPeerHealthChecks t4 probe4 (runPeerHealthChecks t3 probe3
            (runPeerHealthChecks t2 probe2 (runPeerHealthChecks t1 probe1 d)))))"
proof -
  let ?d1 = "runPeerHealthChecks t1 probe1 d"
  let ?d2 = "runPeerHealthChecks t2 probe2 ?d1"
  let ?d3 = "runPeerHealthChecks t3 probe3 ?d2"
  let ?d4 = "runPeerHealthChecks t4 probe4 ?d3"
  have u: "unique_rows pn_clash (peer_nodes ?d1)" "unique_rows pn_clash (peer_nodes ?d2)"
    "unique_rows pn_clash (peer_nodes ?d3)"
    using assms health_unique by blast+
  have step: "\<forall>r\<in>set (peer_nodes (runPeerHealthChecks t probe e)). pn_address r = a \<longrightarrow> m \<le> pn_fail_count r"
    if "unique_rows pn_clash (peer_nodes e)" "probe a = None" "m = n + 1"
      "\<forall>r\<in>set (peer_nodes e). pn_address r = a \<longrightarrow> n \<le> pn_fail_count r" for t probe e n m
    unfolding runPeerHealthChecks_peers[OF that(1)] using that(2-4)
    by (auto simp: check_peer_fails)
  have "probe1 a = None \<and> probe2 a = None \<and> probe3 a = None \<and> probe4 a = None \<Longrightarrow>
      \<forall>r\<in>set (peer_nodes ?d4). pn_address r = a \<longrightarrow> 4 \<le> pn_fail_count r"
    using step[OF assms, of probe1 1 0 t1] step[OF u(1), of probe2 2 1 t2] step[OF u(2), of probe3 3 2 t3]
      step[OF u(3), of probe4 4 3 t4] by simp
  moreover have "\<forall>r\<in>set (peer_nodes ?d4). pn_fail_count r < 4"
    unfolding runPeerHealthChecks_peers[OF u(3)] by simp
  ultimately show ?thesis
    using runPeerHealthChecks_peers[OF assms]
    by (fastforce simp: PeerAddressExists_def count_where_def filter_empty_conv)
qed

lemma health_checks_example:
  "peer_nodes (runPeerHealthChecks 9 (\<lambda>_. None) \<lparr> local_marks = [], peer_marks = [], peer_nodes =
     [\<lparr> pn_address = ''a'', pn_node_npub = [], pn_node_pubkey = [], pn_admin_pubkey = [], pn_announced_by = [],
        pn_is_verified = True, pn_fail_count = 3, pn_last_checked = None, pn_last_seen = None, pn_discovered_at = 1 \<rparr>] \<rparr>) = []"
  by (subst conjunct1[OF health_checks]) (simp_all add: unique_rows_def check_peer_def)

text \<open>
  Only peers with an admin key of their own take part in awareness sync: the \<open>COALESCE\<close> of
  the query sees the empty admin key, not NULL, so the fallback to the node key never happens.
\<close>

lemma no_node_key_fallback:
  "GetPeerAdminPubkeys d
     = map pn_admin_pubkey (filter (\<lambda>r. pn_is_verified r \<and> pn_fail_count r < 4 \<and> pn_admin_pubkey r \<noteq> []) (peer_nodes d))"
proof -
  have "filter (\<lambda>pk. pk \<noteq> []) (map (\<lambda>r. if pn_admin_pubkey r \<noteq> [] then pn_admin_pubkey r else pn_node_pubkey r) rs)
      = map pn_admin_pubkey rs" if "\<forall>r\<in>set rs. pn_admin_pubkey r \<noteq> []" for rs
    using that by (induction rs) auto
  then show ?thesis unfolding GetPeerAdminPubkeys_def by simp
qed

end
