(* ===== verification/Relay.thy ===== *)
theory Relay
  imports RelayQueries Awareness
begin

text \<open>
  \<^verbatim>\<open>src/internal/relay/relay.go\<close>: the WebSocket relay.  A handler takes the relay's state (the
  database, the awareness tables and the subscription map) to a new state and the messages it
  sends.  Third-party code is in \<open>relay_env\<close>: the signature check, the event marshaller, bech32
  decoding, address derivation, and what a lookup of a referenced event over other relays finds.
  Iteration over the subscription map is in list order.
\<close>

text \<open>
  What \<^verbatim>\<open>nip19.Decode\<close> returns for an \<^verbatim>\<open>naddr\<close>, as the fields the code takes from it.
\<close>

record naddr_data =
  na_kind :: int
  na_pubkey :: string
  na_identifier :: string

record relay_env =
  env_checkSignature :: "event \<Rightarrow> bool"
  env_marshal_length :: "event \<Rightarrow> nat option"
  env_nip19 :: "string \<Rightarrow> naddr_data option"
  env_derive :: "string \<Rightarrow> string list option"
  env_fetch :: "string \<Rightarrow> string \<Rightarrow> int \<Rightarrow> event option"
  env_enableAwareness :: bool

record subscription =
  sub_id :: string
  sub_filters :: "nostr_filter list"
  sub_conn :: nat

record relay_state =
  rs_db :: database
  rs_marks :: awareness_db
  rs_subs :: "(string \<times> subscription) list"

datatype relay_msg = Notice string | OkMsg string bool | EventMsg string event | Eose string

section \<open>Filters on live events\<close>

definition matches_list :: "'a list \<Rightarrow> 'a \<Rightarrow> bool" where
  "matches_list xs x \<longleftrightarrow> xs = [] \<or> list_ex (\<lambda>y. x = y) xs"

definition tag_filter_ok :: "event \<Rightarrow> string \<times> string list \<Rightarrow> bool" where
  "tag_filter_ok ev tf \<longleftrightarrow> snd tf = []
     \<or> list_ex (\<lambda>t. length t \<ge> 2 \<and> t ! 0 = fst tf \<and> list_ex (\<lambda>v. t ! 1 = v) (snd tf)) (ev_tags ev)"

definition eventMatchesFilter :: "event \<Rightarrow> nostr_filter \<Rightarrow> bool" where
  "eventMatchesFilter ev f \<longleftrightarrow>
     matches_list (f_IDs f) (ev_id ev) \<and> matches_list (f_Kinds f) (ev_kind ev)
     \<and> matches_list (f_Authors f) (ev_pubkey ev) \<and> list_all (tag_filter_ok ev) (f_Tags f)
     \<and> \<not> (case f_Since f of None \<Rightarrow> False | Some s \<Rightarrow> ev_created_at ev < s)
     \<and> \<not> (case f_Until f of None \<Rightarrow> False | Some u \<Rightarrow> ev_created_at ev > u)"

definition broadcastEvent :: "event \<Rightarrow> relay_state \<Rightarrow> (nat \<times> relay_msg) list" where
  "broadcastEvent ev st =
     concat (map (\<lambda>(k, sub). if list_ex (eventMatchesFilter ev) (sub_filters sub)
                    then [(sub_conn sub, EventMsg (sub_id sub) ev)] else []) (rs_subs st))"

section \<open>Publishing\<close>

definition store_opt :: "(event \<Rightarrow> database \<Rightarrow> database) \<Rightarrow> event option \<Rightarrow> database \<Rightarrow> database" where
  "store_opt store e d = (case e of None \<Rightarrow> d | Some ev \<Rightarrow> store ev d)"

text \<open>
  A referenced event is looked up in the local database first and on the other relays after
  that; \<open>remote\<close> is what they answer.
\<close>

definition fetchEventByDTag ::
  "(string \<Rightarrow> string \<Rightarrow> int \<Rightarrow> event option) \<Rightarrow> database \<Rightarrow> string \<Rightarrow> string \<Rightarrow> int \<Rightarrow> event option" where
  "fetchEventByDTag remote d dTag pubkey kind =
     (case QueryEvents \<lparr> f_IDs = [], f_Kinds = [kind], f_Authors = [pubkey], f_Tags = [(''d'', [dTag])],
             f_Since = None, f_Until = None, f_Limit = 1 \<rparr> d of
        e # _ \<Rightarrow> Some e
      | [] \<Rightarrow> remote dTag pubkey kind)"

text \<open>The expected kind is an argument of the closure that its body does not use.\<close>

definition fetchEventFromNaddr ::
  "(string \<Rightarrow> naddr_data option) \<Rightarrow> (string \<Rightarrow> string \<Rightarrow> int \<Rightarrow> event option) \<Rightarrow> database \<Rightarrow> string \<Rightarrow> int \<Rightarrow> event option"
where
  "fetchEventFromNaddr decode remote d naddr expectedKind =
     (if naddr = [] \<or> \<not> has_prefix naddr ''naddr1'' then None
      else case decode naddr of
        None \<Rightarrow> None
      | Some p \<Rightarrow> fetchEventByDTag remote d (na_identifier p) (na_pubkey p) (na_kind p))"

definition fetchAndStoreReferencedEvents ::
  "(string \<Rightarrow> naddr_data option) \<Rightarrow> (string \<Rightarrow> string \<Rightarrow> int \<Rightarrow> event option) \<Rightarrow> event \<Rightarrow> database \<Rightarrow> database" where
  "fetchAndStoreReferencedEvents decode remote anchor d =
     (let nameEvent = fetchEventFromNaddr decode remote d (last_tag ''n'' (ev_tags anchor)) 61600;
          connectionEvent = fetchEventFromNaddr decode remote d (last_tag ''c'' (ev_tags anchor)) 62600;
          metadataEvent = fetchEventFromNaddr decode remote d (last_tag ''m'' (ev_tags anchor)) 63600
      in store_opt StoreMetadataEvent metadataEvent
           (store_opt StoreConnectionEvent connectionEvent (store_opt StoreNameEvent nameEvent d)))"

text \<open>
  The hook of \<^verbatim>\<open>internal/database/hooks.go\<close>: \<open>StoreAnchorEvent\<close> ends by calling the registered
  \<^verbatim>\<open>AnchorFetchHook\<close>, which fetches the references; the branch that finds the same event
  already stored returns before it.
\<close>

definition already_stored :: "anchor_row \<Rightarrow> database \<Rightarrow> bool" where
  "already_stored row d = (case existing_anchor row d of None \<Rightarrow> False
     | Some old \<Rightarrow> r_updated_at old = r_updated_at row \<and> r_id old = r_id row \<and> same_refs old row)"

definition StoreAnchorEventHooked ::
  "(event \<Rightarrow> database \<Rightarrow> database) \<Rightarrow> event \<Rightarrow> int \<Rightarrow> int \<Rightarrow> int \<Rightarrow> database \<Rightarrow> (db_error, database) res" where
  "StoreAnchorEventHooked hook ev bitcoinBlock dnnBlock position d =
     (case StoreAnchorEvent ev bitcoinBlock dnnBlock position d of
        Inl e \<Rightarrow> Err e
      | Inr d' \<Rightarrow> Ok (if already_stored (anchor_row_of ev bitcoinBlock dnnBlock position) d then d' else hook ev d'))"

datatype anchor_error = NoTxTag | TxUnknown | StoreFailed db_error

definition handleAnchorEvent :: "relay_env \<Rightarrow> event \<Rightarrow> database \<Rightarrow> (anchor_error, database) res" where
  "handleAnchorEvent env ev d =
     (let txID = first_tag ''x'' (ev_tags ev) in
      if txID = [] then Err NoTxTag
      else case GetBitcoinTransaction txID d of
        None \<Rightarrow> Err TxUnknown
      | Some tx \<Rightarrow>
          (case StoreAnchorEventHooked (fetchAndStoreReferencedEvents (env_nip19 env) (env_fetch env)) ev
                  (t_bitcoin_block tx) (t_dnn_block tx) (t_position tx) d of
             Inl e \<Rightarrow> Err (StoreFailed e)
           | Inr d' \<Rightarrow> Ok (fetchAndStoreReferencedEvents (env_nip19 env) (env_fetch env) ev d')))"

text \<open>The author check of the kinds that need a transaction.\<close>

definition author_has_tx :: "relay_env \<Rightarrow> event \<Rightarrow> database \<Rightarrow> bool" where
  "author_has_tx env ev d = (case env_derive env (ev_pubkey ev) of
     None \<Rightarrow> False | Some addresses \<Rightarrow> HasValidTransactionForAddresses addresses d)"

definition policy_checks :: "relay_env \<Rightarrow> policy_enforcer \<Rightarrow> event \<Rightarrow> database \<Rightarrow> bool" where
  "policy_checks env pe ev d =
     (if \<not> env_checkSignature env ev then False
      else if \<not> has_dnn_tag (ev_tags ev) then False
      else if ValidateEventSize (env_marshal_length env) ev \<noteq> Ok () then False
      else if ValidateDNNEvent (env_checkSignature env) ev \<noteq> Ok () then False
      else if ev_kind ev = 63600 \<and> ValidateMetadataContent pe ev \<noteq> Ok () then False
      else if ev_kind ev = 60600 \<and> ValidateTagReferences (\<lambda>s. env_nip19 env s \<noteq> None) ev \<noteq> Ok () then False
      else if ev_kind ev \<in> {61600, 62600, 63600} \<and> \<not> author_has_tx env ev d then False
      else True)"

definition store_by_kind :: "relay_env \<Rightarrow> event \<Rightarrow> database \<Rightarrow> (anchor_error, database) res option" where
  "store_by_kind env ev d =
     (if ev_kind ev = 61600 then Some (Ok (StoreNameEvent ev d))
      else if ev_kind ev = 62600 then Some (Ok (StoreConnectionEvent ev d))
      else if ev_kind ev = 63600 then Some (Ok (StoreMetadataEvent ev d))
      else if ev_kind ev = 60600 then Some (handleAnchorEvent env ev d)
      else None)"

text \<open>
  The handler.  The first log line slices the id and the public key before anything is checked:
  a short one panics.  A rejected event answers \<open>OK false\<close>; a panic (there or in the store's log
  slice) ends the connection's goroutine without an answer; a stored event is acknowledged and
  broadcast.
\<close>

definition handleEvent ::
  "relay_env \<Rightarrow> policy_enforcer \<Rightarrow> nat \<Rightarrow> event \<Rightarrow> relay_state \<Rightarrow> (nat \<times> relay_msg) list \<times> relay_state" where
  "handleEvent env pe conn ev st =
     (if length (ev_id ev) < 8 \<or> length (ev_pubkey ev) < 8 then ([], st)
      else if \<not> policy_checks env pe ev (rs_db st) then ([(conn, OkMsg (ev_id ev) False)], st)
      else case store_by_kind env ev (rs_db st) of
        None \<Rightarrow> ([(conn, OkMsg (ev_id ev) False)], st)
      | Some (Inl (StoreFailed DPanic)) \<Rightarrow> ([], st)
      | Some (Inl e) \<Rightarrow> ([(conn, OkMsg (ev_id ev) False)], st)
      | Some (Inr d) \<Rightarrow>
          (let st' = st\<lparr>rs_db := d\<rparr> in ((conn, OkMsg (ev_id ev) True) # broadcastEvent ev st', st')))"

section \<open>Subscribing\<close>

text \<open>The anchor that names the author in a reference, and its block mark.\<close>

definition isEventBlocked :: "event \<Rightarrow> relay_state \<Rightarrow> bool" where
  "isEventBlocked ev st =
     (case find (\<lambda>r. like_containing (a_conn_ref r) (ev_pubkey ev) \<or> like_containing (a_meta_ref r) (ev_pubkey ev))
        (anchor_events (rs_db st)) of
        None \<Rightarrow> False
      | Some r \<Rightarrow> a_dnn_block r > 0 \<and> IsBlocked (a_dnn_block r) (a_position r) [] (rs_marks st))"

definition map_put :: "string \<Rightarrow> 'v \<Rightarrow> (string \<times> 'v) list \<Rightarrow> (string \<times> 'v) list" where
  "map_put k v m = filter (\<lambda>p. fst p \<noteq> k) m @ [(k, v)]"

definition filter_blocked :: "relay_env \<Rightarrow> relay_state \<Rightarrow> event list \<Rightarrow> event list" where
  "filter_blocked env st evs = filter (\<lambda>ev. \<not> (env_enableAwareness env \<and> (ev_kind ev = 62600 \<or> ev_kind ev = 63600)
     \<and> isEventBlocked ev st)) evs"

definition handleRequest ::
  "relay_env \<Rightarrow> nat \<Rightarrow> string \<Rightarrow> nostr_filter list \<Rightarrow> relay_state \<Rightarrow> (nat \<times> relay_msg) list \<times> relay_state" where
  "handleRequest env conn subID filters st =
     (let st' = st\<lparr>rs_subs := map_put subID \<lparr> sub_id = subID, sub_filters = filters, sub_conn = conn \<rparr> (rs_subs st)\<rparr>
      in (concat (map (\<lambda>f. map (\<lambda>ev. (conn, EventMsg subID ev)) (filter_blocked env st' (QueryEvents f (rs_db st')))) filters)
            @ [(conn, Eose subID)], st'))"

definition handleClose :: "string \<Rightarrow> relay_state \<Rightarrow> relay_state" where
  "handleClose subID st = st\<lparr>rs_subs := filter (\<lambda>p. fst p \<noteq> subID) (rs_subs st)\<rparr>"

section \<open>Lemmas\<close>

lemma limited_subset: "set (limited f xs) \<subseteq> set xs"
  by (auto simp: limited_def dest: in_set_takeD)

lemma limited_length: "f_Limit f > 0 \<Longrightarrow> length (limited f xs) \<le> nat (f_Limit f)"
  by (simp add: limited_def)

lemma select_rows_sound: "r \<in> set (select_rows timed f t) \<Longrightarrow> r \<in> set t \<and> row_matches timed f r"
  using limited_subset[of f "order_by (\<lambda>r. - r_created_at r) (filter (row_matches timed f) t)"]
  by (auto simp: select_rows_def)

lemma sql_in_matches: "sql_in vs v \<longleftrightarrow> matches_list vs v"
  by (auto simp: sql_in_def matches_list_def list_ex_iff)

lemma row_event_matches:
  assumes "row_matches timed f r" "kind \<in> set (f_Kinds f) \<or> f_Kinds f = []"
    "timed \<or> f_Since f = None \<and> f_Until f = None" "f_Tags f = []"
  shows "eventMatchesFilter (event_of_row kind tags r) f"
  using assms
  by (auto simp: row_matches_def eventMatchesFilter_def event_of_row_def sql_in_matches matches_list_def
      list_ex_iff split: option.splits)

lemma containsKind_in: "containsKind ks k \<longleftrightarrow> k \<in> set ks"
  by (auto simp: containsKind_def list_ex_iff)

lemma query_cases:
  assumes "ev \<in> set (QueryEvents f d)"
  obtains (name) r where "r \<in> set (name_events d)" "ev = event_of_row 61600 (name_tags r) r"
      "row_matches True f r" "f_Kinds f = [] \<or> 61600 \<in> set (f_Kinds f)"
  | (conn) r where "r \<in> set (connection_events d)" "ev = event_of_row 62600 (conn_tags r) r"
      "row_matches True f r" "f_Kinds f = [] \<or> 62600 \<in> set (f_Kinds f)"
  | (meta) r where "r \<in> set (metadata_events d)" "ev = event_of_row 63600 (basic_tags r) r"
      "row_matches True f r" "f_Kinds f = [] \<or> 63600 \<in> set (f_Kinds f)"
  | (anchor) r where "r \<in> set (anchor_events d)" "ev = event_of_row 60600 (anchor_tags r) r"
      "row_matches False f r" "f_Kinds f = [] \<or> 60600 \<in> set (f_Kinds f)" "anchor_latest (anchor_events d) r"
proof -
  let ?w = "\<lambda>k. f_Kinds f = [] \<or> containsKind (f_Kinds f) k"
  have "ev \<in> set ((if ?w 61600 then queryNameEvents f d else []) @ (if ?w 62600 then queryConnectionEvents f d else [])
      @ (if ?w 63600 then queryMetadataEvents f d else []) @ (if ?w 60600 then queryAnchorEvents f d else []))"
    using assms limited_subset unfolding QueryEvents_def Let_def by fast
  then consider "?w 61600" "ev \<in> set (queryNameEvents f d)" | "?w 62600" "ev \<in> set (queryConnectionEvents f d)"
    | "?w 63600" "ev \<in> set (queryMetadataEvents f d)" | "?w 60600" "ev \<in> set (queryAnchorEvents f d)"
    by (auto split: if_splits)
  then show thesis
  proof cases
    case 1
    then show thesis using name select_rows_sound by (fastforce simp: queryNameEvents_def containsKind_in)
  next
    case 2
    then show thesis using conn select_rows_sound by (fastforce simp: queryConnectionEvents_def containsKind_in)
  next
    case 3
    then show thesis using meta select_rows_sound by (fastforce simp: queryMetadataEvents_def containsKind_in)
  next
    case 4
    then obtain r where r: "ev = event_of_row 60600 (anchor_tags r) r"
      "r \<in> set (select_rows False f (filter (anchor_latest (anchor_events d)) (anchor_events d)))"
      by (auto simp: queryAnchorEvents_def)
    then show thesis using anchor[of r] select_rows_sound[OF r(2)] 4(1) by (auto simp: containsKind_in)
  qed
qed

lemma QueryEvents_cong:
  assumes "d_filter f = d_filter g" "f_IDs f = f_IDs g" "f_Authors f = f_Authors g" "f_Kinds f = f_Kinds g"
    "f_Since f = f_Since g" "f_Until f = f_Until g" "f_Limit f = f_Limit g"
  shows "QueryEvents f d = QueryEvents g d"
proof -
  have m: "row_matches timed f = row_matches timed g" for timed
    by (rule ext) (simp only: row_matches_def assms)
  have l: "limited f = limited g" by (rule ext) (simp only: limited_def assms)
  show ?thesis
    unfolding QueryEvents_def queryNameEvents_def queryConnectionEvents_def queryMetadataEvents_def
      queryAnchorEvents_def select_rows_def m l assms ..
qed

lemma handleEvent_accepts:
  assumes "(conn, OkMsg (ev_id ev) True) \<in> set (fst (handleEvent env pe conn ev st)) \<or> snd (handleEvent env pe conn ev st) \<noteq> st"
  shows "policy_checks env pe ev (rs_db st) \<and> (\<exists>d. store_by_kind env ev (rs_db st) = Some (Inr d)
    \<and> snd (handleEvent env pe conn ev st) = st\<lparr>rs_db := d\<rparr>
    \<and> fst (handleEvent env pe conn ev st) = (conn, OkMsg (ev_id ev) True) # broadcastEvent ev (st\<lparr>rs_db := d\<rparr>))"
  using assms unfolding handleEvent_def Let_def
  by (auto split: if_splits option.splits sum.splits anchor_error.splits db_error.splits)

lemma fetch_keeps:
  "anchor_events (fetchAndStoreReferencedEvents decode remote a d) = anchor_events d"
  "bitcoin_transactions (fetchAndStoreReferencedEvents decode remote a d) = bitcoin_transactions d"
  by (auto simp: fetchAndStoreReferencedEvents_def Let_def store_opt_def StoreMetadataEvent_def
      StoreConnectionEvent_def StoreNameEvent_def split: option.splits)

lemma StoreAnchorEventHooked_ok:
  assumes "StoreAnchorEventHooked hook ev b n p d = Inr d'"
  obtains d1 where "StoreAnchorEvent ev b n p d = Inr d1" "d' = d1 \<or> d' = hook ev d1"
  using assms by (auto simp: StoreAnchorEventHooked_def split: sum.splits if_splits)

lemma ValidateDNNEvent_kind: "ValidateDNNEvent c ev = Ok () \<Longrightarrow> ev_kind ev \<in> {60600, 61600, 62600, 63600}"
  by (auto simp: ValidateDNNEvent_def split: if_splits)

lemma ValidateEventSize_ok:
  "ValidateEventSize m ev = Ok () \<longleftrightarrow> (\<exists>n l. m ev = Some n \<and> size_limit (ev_kind ev) = Some l \<and> n \<le> l)"
  by (auto simp: ValidateEventSize_def split: option.splits)

section \<open>Properties of the relay\<close>

text \<open>
  C1.  Admission: whenever the relay acknowledges an event or its database changes, the event
  was signed, carried the DNN tag, was within the size limit of its kind and passed the
  validator; its author had a transaction at a derived address (name, connection and metadata
  events), or the transaction it names first was already known (anchors).
\<close>

theorem relay_admission:
  assumes "(conn, OkMsg (ev_id ev) True) \<in> set (fst (handleEvent env pe conn ev st))
    \<or> snd (handleEvent env pe conn ev st) \<noteq> st"
  shows "env_checkSignature env ev \<and> ''DNN'' \<in> set (tag_vals ''t'' (ev_tags ev))
    \<and> (\<exists>n l. env_marshal_length env ev = Some n \<and> size_limit (ev_kind ev) = Some l \<and> n \<le> l)
    \<and> ValidateDNNEvent (env_checkSignature env) ev = Ok ()
    \<and> (ev_kind ev \<in> {61600, 62600, 63600} \<and> author_has_tx env ev (rs_db st)
        \<or> ev_kind ev = 60600 \<and> GetBitcoinTransaction (first_tag ''x'' (ev_tags ev)) (rs_db st) \<noteq> None)"
proof -
  have c: "policy_checks env pe ev (rs_db st)" and s: "\<exists>d. store_by_kind env ev (rs_db st) = Some (Inr d)"
    using handleEvent_accepts[OF assms] by blast+
  have v: "env_checkSignature env ev" "has_dnn_tag (ev_tags ev)"
    "ValidateEventSize (env_marshal_length env) ev = Ok ()" "ValidateDNNEvent (env_checkSignature env) ev = Ok ()"
    "ev_kind ev \<in> {61600, 62600, 63600} \<Longrightarrow> author_has_tx env ev (rs_db st)"
    using c by (auto simp: policy_checks_def split: if_splits)
  have "ev_kind ev = 60600 \<Longrightarrow> GetBitcoinTransaction (first_tag ''x'' (ev_tags ev)) (rs_db st) \<noteq> None"
    using s by (auto simp: store_by_kind_def handleAnchorEvent_def Let_def split: if_splits option.splits)
  then show ?thesis
    using v ValidateDNNEvent_kind[OF v(4)] by (auto simp: has_dnn_tag_vals ValidateEventSize_ok)
qed

definition open_env :: relay_env where
  "open_env = \<lparr> env_checkSignature = (\<lambda>_. True), env_marshal_length = (\<lambda>_. Some 200), env_nip19 = (\<lambda>_. Some \<lparr> na_kind = 61600, na_pubkey = ''p1'', na_identifier = ''names'' \<rparr>),
     env_derive = (\<lambda>pk. Some [''addr-'' @ pk]), env_fetch = (\<lambda>_ _ _. None), env_enableAwareness = True \<rparr>"

definition paid_db :: database where
  "paid_db = StoreBitcoinTransaction 5 ''feedfacefeedface'' 940007 7 1 ''addr-bob-pubkey'' 90 0 0 empty_db"

definition relay0 :: relay_state where
  "relay0 = \<lparr> rs_db = paid_db, rs_marks = \<lparr> local_marks = [], peer_marks = [], peer_nodes = [] \<rparr>, rs_subs = [] \<rparr>"

theorem relay_admission_witness:
  "author_has_tx open_env bob_event (rs_db relay0)"
proof -
  have "(3, OkMsg (ev_id bob_event) True) \<in> set (fst (handleEvent open_env (NewPolicyEnforcer ''dev'') 3 bob_event relay0))"
    by code_simp
  then have "ev_kind bob_event \<in> {61600, 62600, 63600} \<and> author_has_tx open_env bob_event (rs_db relay0)
    \<or> ev_kind bob_event = 60600 \<and> GetBitcoinTransaction (first_tag ''x'' (ev_tags bob_event)) (rs_db relay0) \<noteq> None"
    using relay_admission[of 3 bob_event open_env "NewPolicyEnforcer ''dev''" relay0] by blast
  then show ?thesis by (simp add: bob_event_def)
qed

text \<open>
  Delivery: an accepted event goes to exactly the subscriptions one of whose filters it
  matches, once each, in the order of the subscription map, and to nobody otherwise.
\<close>

lemma broadcast_exact:
  "broadcastEvent ev st = map (\<lambda>(k, sub). (sub_conn sub, EventMsg (sub_id sub) ev))
     (filter (\<lambda>(k, sub). list_ex (eventMatchesFilter ev) (sub_filters sub)) (rs_subs st))
   \<and> (fst (handleEvent env pe conn ev st) = (conn, OkMsg (ev_id ev) True) # broadcastEvent ev (snd (handleEvent env pe conn ev st))
      \<or> snd (handleEvent env pe conn ev st) = st
        \<and> (fst (handleEvent env pe conn ev st) = [] \<or> fst (handleEvent env pe conn ev st) = [(conn, OkMsg (ev_id ev) False)]))"
proof
  have "concat (map (\<lambda>(k, sub). if P sub then [g sub] else []) ss) = map (\<lambda>(k, sub). g sub) (filter (\<lambda>(k, sub). P sub) ss)"
    for P and g :: "subscription \<Rightarrow> nat \<times> relay_msg" and ss :: "(string \<times> subscription) list"
    by (induction ss) auto
  then show "broadcastEvent ev st = map (\<lambda>(k, sub). (sub_conn sub, EventMsg (sub_id sub) ev))
     (filter (\<lambda>(k, sub). list_ex (eventMatchesFilter ev) (sub_filters sub)) (rs_subs st))"
    by (simp add: broadcastEvent_def)
  show "fst (handleEvent env pe conn ev st) = (conn, OkMsg (ev_id ev) True) # broadcastEvent ev (snd (handleEvent env pe conn ev st))
      \<or> snd (handleEvent env pe conn ev st) = st
        \<and> (fst (handleEvent env pe conn ev st) = [] \<or> fst (handleEvent env pe conn ev st) = [(conn, OkMsg (ev_id ev) False)])"
    unfolding handleEvent_def Let_def
    by (auto split: if_splits option.splits sum.splits anchor_error.splits db_error.splits)
qed

text \<open>
  Subscriptions are keyed by the client's id alone: a request by another connection with
  the same id takes the first client's subscription away, and nothing is broadcast to it any more.
\<close>

lemma subscription_ids_collide:
  assumes "c1 \<noteq> c2"
  shows "\<not> (\<exists>ev'. (c1, EventMsg sid ev') \<in> set (broadcastEvent ev
    (snd (handleRequest env c2 sid fs2 (snd (handleRequest env c1 sid fs1 \<lparr> rs_db = d, rs_marks = m, rs_subs = [] \<rparr>))))))"
  using assms by (auto simp: broadcastEvent_def handleRequest_def Let_def map_put_def)

lemma subscription_ids_collide_example:
  "\<not> (\<exists>ev'. (1, EventMsg ''s'' ev') \<in> set (broadcastEvent bob_event
    (snd (handleRequest open_env 2 ''s'' [] (snd (handleRequest open_env 1 ''s''
      [\<lparr> f_IDs = [], f_Kinds = [61600], f_Authors = [], f_Tags = [], f_Since = None, f_Until = None, f_Limit = 0 \<rparr>]
      \<lparr> rs_db = empty_db, rs_marks = rs_marks relay0, rs_subs = [] \<rparr>))))))"
  by (rule subscription_ids_collide) simp



text \<open>
  Connection events are served verbatim; metadata events lose every tag but DNN and the
  d tag, under the original id and signature.
\<close>

lemma served_tags:
  assumes "ev_kind c = 62600" "ev_tags c \<noteq> []" "ev_kind m = 63600"
  shows "set (queryConnectionEvents f (StoreConnectionEvent c empty_db)) \<subseteq> {c}
    \<and> (\<forall>e\<in>set (queryMetadataEvents f (StoreMetadataEvent m empty_db)).
         ev_id e = ev_id m \<and> ev_sig e = ev_sig m \<and> set (ev_tags e) \<subseteq> {[''t'', ''DNN''], [''d'', first_tag ''d'' (ev_tags m)]})"
proof
  have e: "connection_events empty_db = []" "metadata_events empty_db = []" by (simp_all add: empty_db_def)
  have n: "nip33_store row [] = [row]" for row :: "'a ev_row_scheme"
    by (simp add: nip33_store_def delete_where_def)
  show "set (queryConnectionEvents f (StoreConnectionEvent c empty_db)) \<subseteq> {c}"
    using assms(1,2) by (auto simp: queryConnectionEvents_def StoreConnectionEvent_def e n
        dest!: select_rows_sound) (simp add: event_of_row_def conn_tags_def conn_row_of_def)
  show "\<forall>e\<in>set (queryMetadataEvents f (StoreMetadataEvent m empty_db)).
         ev_id e = ev_id m \<and> ev_sig e = ev_sig m \<and> set (ev_tags e) \<subseteq> {[''t'', ''DNN''], [''d'', first_tag ''d'' (ev_tags m)]}"
    by (auto simp: queryMetadataEvents_def StoreMetadataEvent_def e n event_of_row_def basic_tags_def
        meta_row_of_def dest!: select_rows_sound split: if_splits)
qed

lemma served_tags_example:
  "set (queryConnectionEvents \<lparr> f_IDs = [], f_Kinds = [], f_Authors = [], f_Tags = [], f_Since = None, f_Until = None, f_Limit = 0 \<rparr>
      (StoreConnectionEvent (bob_event\<lparr>ev_kind := 62600\<rparr>) empty_db)) \<subseteq> {bob_event\<lparr>ev_kind := 62600\<rparr>}"
  using served_tags[of "bob_event\<lparr>ev_kind := 62600\<rparr>" "bob_event\<lparr>ev_kind := 63600\<rparr>"] by (simp add: bob_event_def)

definition two_x_event :: event where
  "two_x_event = (anchor_event ''e5'' ''p1'' 10 ''names'')\<lparr>ev_tags :=
     [[''t'', ''DNN''], [''d'', ''names''], [''n'', ''naddr1n''], [''c'', ''naddr1c''], [''m'', ''naddr1m''],
      [''x'', ''feedfacefeedface''], [''x'', ''0123456789abcdef'']]\<rparr>"

definition two_x_db :: database where
  "two_x_db = (case handleAnchorEvent open_env two_x_event paid_db of Inr d \<Rightarrow> d | Inl _ \<Rightarrow> empty_db)"

text \<open>
  The relay looks up block and position by the first x tag, the store records the last
  one: a new anchor with two x tags is filed for the second transaction at the first one's place.
\<close>

lemma two_x_tags:
  assumes "GetBitcoinTransaction (first_tag ''x'' (ev_tags ev)) d = Some tx"
    and "existing_anchor (anchor_row_of ev (t_bitcoin_block tx) (t_dnn_block tx) (t_position tx)) d = None"
    and "handleAnchorEvent env ev d = Ok d'"
  shows "\<exists>r\<in>set (anchor_events d'). a_txid r = last_tag ''x'' (ev_tags ev)
    \<and> a_dnn_block r = t_dnn_block tx \<and> a_position r = t_position tx"
proof -
  let ?row = "anchor_row_of ev (t_bitcoin_block tx) (t_dnn_block tx) (t_position tx)"
  let ?hook = "fetchAndStoreReferencedEvents (env_nip19 env) (env_fetch env)"
  obtain d2 where h: "StoreAnchorEventHooked ?hook ev (t_bitcoin_block tx) (t_dnn_block tx) (t_position tx) d = Inr d2"
    and d': "d' = ?hook ev d2"
    using assms(1,3) by (auto simp: handleAnchorEvent_def Let_def split: if_splits sum.splits)
  from h obtain d1 where s: "StoreAnchorEvent ev (t_bitcoin_block tx) (t_dnn_block tx) (t_position tx) d = Inr d1"
    and k: "anchor_events d2 = anchor_events d1"
    by (elim StoreAnchorEventHooked_ok) (auto simp: fetch_keeps)
  from s have "?row \<in> set (anchor_events d1)"
  proof (cases rule: StoreAnchorEvent_cases)
    case 1
    then show ?thesis using assms(2) by simp
  qed (auto simp: put_anchor_def UpdateBitcoinTransactionWithAnchor_def anchor_table.replace_in)
  then show ?thesis unfolding d' fetch_keeps k by (rule bexI[rotated]) (simp add: anchor_row_of_def)
qed

lemma two_x_tags_example:
  "\<exists>r. r \<in> set (anchor_events two_x_db) \<and> a_txid r = ''0123456789abcdef'' \<and> a_position r = 1"
proof -
  obtain tx where tx: "GetBitcoinTransaction (first_tag ''x'' (ev_tags two_x_event)) paid_db = Some tx"
    "t_position tx = 1" "t_bitcoin_block tx = 940007" "t_dnn_block tx = 7"
  proof -
    have "map_option (\<lambda>t. (t_position t, t_bitcoin_block t, t_dnn_block t))
        (GetBitcoinTransaction (first_tag ''x'' (ev_tags two_x_event)) paid_db) = Some (1, 940007, 7)" by code_simp
    then show thesis using that by auto
  qed
  have n: "existing_anchor (anchor_row_of two_x_event (t_bitcoin_block tx) (t_dnn_block tx) (t_position tx)) paid_db = None"
    unfolding tx by code_simp
  have h: "handleAnchorEvent open_env two_x_event paid_db = Ok two_x_db"
    unfolding two_x_db_def by code_simp
  have l: "last_tag ''x'' (ev_tags two_x_event) = ''0123456789abcdef''" by code_simp
  show ?thesis using two_x_tags[OF tx(1) n h] unfolding l tx by blast
qed

text \<open>
  What an anchor refers to is stored without a check: with nothing local, the event that
  another relay returns for the address in the n tag enters the table of names, whatever its
  kind, its signature or its tags; later the relay serves it as a name event.
\<close>

lemma references_are_not_checked:
  assumes "has_prefix (last_tag ''n'' (ev_tags a)) ''naddr1''"
    and "decode (last_tag ''n'' (ev_tags a)) = Some p"
    and "QueryEvents \<lparr> f_IDs = [], f_Kinds = [na_kind p], f_Authors = [na_pubkey p],
      f_Tags = [(''d'', [na_identifier p])], f_Since = None, f_Until = None, f_Limit = 1 \<rparr> d = []"
    and "remote (na_identifier p) (na_pubkey p) (na_kind p) = Some e"
    and "name_events d = []"
  shows "name_events (fetchAndStoreReferencedEvents decode remote a d) = [name_row_of e]
    \<and> map ev_id (queryNameEvents \<lparr> f_IDs = [], f_Kinds = [], f_Authors = [], f_Tags = [], f_Since = None, f_Until = None,
        f_Limit = 0 \<rparr>
      (fetchAndStoreReferencedEvents decode remote a d)) = [ev_id e]"
proof -
  have ne: "last_tag ''n'' (ev_tags a) \<noteq> []" using assms(1) by (auto simp: has_prefix_def)
  then have "fetchEventFromNaddr decode remote d (last_tag ''n'' (ev_tags a)) 61600 = Some e"
    using assms(1-4) by (simp add: fetchEventFromNaddr_def fetchEventByDTag_def)
  then have n: "name_events (fetchAndStoreReferencedEvents decode remote a d) = [name_row_of e]"
    using assms(5) by (auto simp: fetchAndStoreReferencedEvents_def Let_def store_opt_def StoreMetadataEvent_def
      StoreConnectionEvent_def StoreNameEvent_def nip33_store_def delete_where_def split: option.splits)
  then show ?thesis
    by (auto simp: queryNameEvents_def select_rows_def limited_def order_by_def row_matches_def sql_in_def
        d_filter_def event_of_row_def name_row_of_def)
qed

lemma references_are_not_checked_example:
  "name_events (fetchAndStoreReferencedEvents (env_nip19 open_env) (\<lambda>_ _ _. Some (meta_event ''evil'' 3))
      (anchor_event ''e5'' ''p1'' 10 ''names'') paid_db) = [name_row_of (meta_event ''evil'' 3)]"
proof -
  let ?a = "anchor_event ''e5'' ''p1'' 10 ''names''"
  let ?p = "\<lparr> na_kind = 61600, na_pubkey = ''p1'', na_identifier = ''names'' \<rparr>"
  have h: "has_prefix (last_tag ''n'' (ev_tags ?a)) ''naddr1''" by code_simp
  have n: "env_nip19 open_env (last_tag ''n'' (ev_tags ?a)) = Some ?p" by (simp add: open_env_def)
  have q: "QueryEvents \<lparr> f_IDs = [], f_Kinds = [na_kind ?p], f_Authors = [na_pubkey ?p],
      f_Tags = [(''d'', [na_identifier ?p])], f_Since = None, f_Until = None, f_Limit = 1 \<rparr> paid_db = []" by code_simp
  have z: "name_events paid_db = []" by code_simp
  show ?thesis
    by (rule conjunct1[OF references_are_not_checked[where remote = "\<lambda>_ _ _. Some (meta_event ''evil'' 3)"
      and decode = "env_nip19 open_env" and p = ?p and d = paid_db and a = ?a and e = "meta_event ''evil'' 3",
      OF h n q refl z]])
qed

end
