(* ===== verification/Ordering.thy ===== *)
theory Ordering
  imports Constants "HOL-Library.List_Lexorder" "HOL-Library.Multiset"
begin

text \<open>
  The part of \<^verbatim>\<open>src/internal/sync/syncer.go\<close> that decides which transactions of a Bitcoin block are
  DNN transactions and in which order they are numbered, on the block data of
  \<^verbatim>\<open>src/internal/bitcoin/client.go\<close>.  Transaction ids are taken to have at least 16 characters (the
  debug log slices them); the client computes them as 64 hexadecimal digits.
\<close>

section \<open>Blocks\<close>

record tx_input =
  in_TxID :: string
  in_Vout :: int
  in_Address :: string

record script_pub_key =
  spk_Type :: string
  spk_Addresses :: "string list"
  spk_Address :: string

record btc_tx =
  tx_TxID :: string
  tx_Inputs :: "tx_input list"
  tx_Outputs :: "script_pub_key list"

record btc_block =
  bk_Hash :: string
  bk_Height :: int
  bk_Time :: int
  bk_Transactions :: "btc_tx list"

section \<open>Self-transfers\<close>

text \<open>The addresses an output contributes: the list when it is not empty, else the single field.\<close>

definition output_addresses :: "script_pub_key \<Rightarrow> string list" where
  "output_addresses out =
     (if spk_Addresses out \<noteq> [] then spk_Addresses out
      else if spk_Address out \<noteq> [] then [spk_Address out] else [])"

text \<open>The sets of addresses are Go maps; \<open>remdups\<close> lists their keys.\<close>

definition isValidDNNTransaction :: "btc_tx \<Rightarrow> string option" where
  "isValidDNNTransaction tx =
     (if tx_Inputs tx = [] \<or> tx_Outputs tx = [] then None
      else if list_ex (\<lambda>i. in_Address i = []) (tx_Inputs tx) then None
      else if list_ex (\<lambda>out. to_lower (spk_Type out) \<noteq> ''witness_v0_keyhash'') (tx_Outputs tx) then None
      else
        let inputAddresses = remdups (map in_Address (tx_Inputs tx));
            outputAddresses = remdups (concat (map output_addresses (tx_Outputs tx)));
            allAddresses = remdups (inputAddresses @ outputAddresses)
        in if length allAddresses \<noteq> 1 then None
           else if inputAddresses = [] \<or> outputAddresses = [] then None
           else if \<not> has_prefix (to_lower (hd outputAddresses)) ''bc1q'' then None
           else Some (hd outputAddresses))"

section \<open>The order of transactions\<close>

definition hexCharToInt :: "char \<Rightarrow> nat" where
  "hexCharToInt c = (let n = byte_of c in
     if 48 \<le> n \<and> n \<le> 57 then n - 48 else if 97 \<le> n \<and> n \<le> 102 then n - 97 + 10 else 0)"

definition txidDigitSum :: "string \<Rightarrow> nat" where
  "txidDigitSum txid = foldl (\<lambda>sum c. sum + hexCharToInt c) 0 (to_lower txid)"

text \<open>The loop of \<open>compareTxidsByDigit\<close>: the first place where the digits differ.\<close>

fun first_difference :: "int \<Rightarrow> string \<Rightarrow> string \<Rightarrow> (int \<times> int \<times> int \<times> int) option" where
  "first_difference i (a # as) (b # bs) =
     (if hexCharToInt a \<noteq> hexCharToInt b
      then Some (int (hexCharToInt a) - int (hexCharToInt b), i + 1, int (hexCharToInt a), int (hexCharToInt b))
      else first_difference (i + 1) as bs)"
| "first_difference i [] bs = None"
| "first_difference i (a # as) [] = None"

definition compareTxidsByDigit :: "string \<Rightarrow> string \<Rightarrow> int \<times> int \<times> int \<times> int" where
  "compareTxidsByDigit a b =
     (case first_difference 0 (to_lower a) (to_lower b) of
        Some r \<Rightarrow> r
      | None \<Rightarrow> (int (length a) - int (length b), 0, 0, 0))"

record valid_tx =
  v_TxID :: string
  v_Address :: string
  v_Sum :: nat
  v_TiePosition :: int
  v_TieDigit :: int
  v_BlockPosition :: nat

text \<open>
  The comparison closure given to \<^verbatim>\<open>sort.Slice\<close>: it also writes the place and the digits of a
  tie into the two records it compares.
\<close>

definition tx_less :: "valid_tx \<Rightarrow> valid_tx \<Rightarrow> valid_tx \<times> valid_tx \<times> bool" where
  "tx_less a b =
     (if v_Sum a \<noteq> v_Sum b then (a, b, v_Sum a > v_Sum b)
      else case compareTxidsByDigit (v_TxID a) (v_TxID b) of
        (cmp, pos, aDigit, bDigit) \<Rightarrow>
          if cmp \<noteq> 0
          then (a\<lparr>v_TiePosition := pos, v_TieDigit := aDigit\<rparr>, b\<lparr>v_TiePosition := pos, v_TieDigit := bDigit\<rparr>, cmp > 0)
          else (a, b, False))"

text \<open>
  \<^verbatim>\<open>sort.Slice\<close> on a slice of up to twelve elements: an insertion sort that moves each element
  down while it is less than its predecessor.  \<open>sift x ys\<close> inserts \<open>x\<close> into a sorted prefix that
  is held back to front.
\<close>

fun sift :: "valid_tx \<Rightarrow> valid_tx list \<Rightarrow> valid_tx list" where
  "sift x [] = [x]"
| "sift x (y # ys) = (case tx_less x y of (x', y', lt) \<Rightarrow> if lt then y' # sift x' ys else x' # y' # ys)"

definition sort_Slice :: "valid_tx list \<Rightarrow> valid_tx list" where
  "sort_Slice xs = rev (foldl (\<lambda>ys x. sift x ys) [] xs)"

definition collect_valid :: "(nat \<times> btc_tx) \<Rightarrow> valid_tx list" where
  "collect_valid p = (case isValidDNNTransaction (snd p) of
     None \<Rightarrow> []
   | Some addr \<Rightarrow> [\<lparr> v_TxID = tx_TxID (snd p), v_Address = addr, v_Sum = txidDigitSum (tx_TxID (snd p)),
                      v_TiePosition = 0, v_TieDigit = 0, v_BlockPosition = fst p \<rparr>])"

definition findValidDNNTransactions :: "btc_block \<Rightarrow> valid_tx list" where
  "findValidDNNTransactions block =
     sort_Slice (concat (map collect_valid (enumerate 0 (bk_Transactions block))))"

definition formatTxIDNS :: "valid_tx \<Rightarrow> string" where
  "formatTxIDNS ns =
     (if v_TiePosition ns = 0 then show_int (int (v_Sum ns))
      else show_int (int (v_Sum ns)) @ '' ('' @ show_int (v_TiePosition ns) @ ''-'' @ show_int (v_TieDigit ns) @ '')'')"

section \<open>The order as a linear order of keys\<close>

definition txid_digits :: "string \<Rightarrow> nat list" where
  "txid_digits s = map hexCharToInt (to_lower s)"

definition rank_key :: "string \<Rightarrow> nat list" where
  "rank_key s = txidDigitSum s # txid_digits s"

definition ranks_before :: "string \<Rightarrow> string \<Rightarrow> bool" where
  "ranks_before a b \<longleftrightarrow> rank_key b < rank_key a"

lemma foldl_plus_sum: "foldl (\<lambda>n c. n + (g c :: nat)) k xs = k + sum_list (map g xs)"
  by (induction xs arbitrary: k) auto

lemma txidDigitSum_alt: "txidDigitSum s = sum_list (txid_digits s)"
  by (simp add: txidDigitSum_def txid_digits_def foldl_plus_sum)

lemma first_difference_None:
  "first_difference i as bs = None \<longleftrightarrow> (\<forall>k < min (length as) (length bs). hexCharToInt (as ! k) = hexCharToInt (bs ! k))"
  by (induction i as bs rule: first_difference.induct) (auto simp: less_Suc_eq_0_disj)

lemma first_difference_less:
  "first_difference i as bs = Some (r, p, u, v) \<Longrightarrow>
    (r > 0 \<longleftrightarrow> map hexCharToInt bs < map hexCharToInt as) \<and> (r < 0 \<longleftrightarrow> map hexCharToInt as < map hexCharToInt bs)
    \<and> r \<noteq> 0 \<and> i < p \<and> p \<le> i + int (length as)"
  by (induction i as bs rule: first_difference.induct) (auto split: if_splits)

lemma first_difference_tie:
  "first_difference i as bs = None \<Longrightarrow>
    (length as > length bs \<longleftrightarrow> map hexCharToInt bs < map hexCharToInt as)"
  by (induction i as bs rule: first_difference.induct) (auto split: if_splits)

lemma compare_positive:
  "fst (compareTxidsByDigit a b) > 0 \<longleftrightarrow> txid_digits b < txid_digits a"
proof (cases "first_difference 0 (to_lower a) (to_lower b)")
  case None
  then show ?thesis using first_difference_tie[OF None]
    by (simp add: compareTxidsByDigit_def txid_digits_def length_to_lower)
next
  case (Some r)
  then show ?thesis using first_difference_less[of 0 "to_lower a" "to_lower b"]
    by (cases r) (auto simp: compareTxidsByDigit_def txid_digits_def)
qed

text \<open>The records the sort moves: the sum field is the digit sum of the id.\<close>

definition summed :: "valid_tx \<Rightarrow> bool" where
  "summed v \<longleftrightarrow> v_Sum v = txidDigitSum (v_TxID v)"

definition unmarked :: "valid_tx \<Rightarrow> valid_tx" where
  "unmarked v = v\<lparr>v_TiePosition := 0, v_TieDigit := 0\<rparr>"

lemma tx_less_spec:
  assumes "tx_less a b = (a', b', l)" "summed a" "summed b"
  shows "l \<longleftrightarrow> ranks_before (v_TxID a) (v_TxID b)" "unmarked a' = unmarked a" "unmarked b' = unmarked b"
    "summed a'" "summed b'" "v_TxID a' = v_TxID a" "v_TxID b' = v_TxID b"
  using assms compare_positive[of "v_TxID a" "v_TxID b"]
  by (auto simp: tx_less_def ranks_before_def rank_key_def summed_def unmarked_def split: if_splits prod.splits)

section \<open>Sorting by a ranking\<close>

text \<open>
  What an insertion sort needs of its comparison: a strict weak order.  The lemmas carry a
  projection \<open>f\<close> from the sorted elements to what is ranked.
\<close>

fun place :: "('a \<Rightarrow> 'a \<Rightarrow> bool) \<Rightarrow> 'a \<Rightarrow> 'a list \<Rightarrow> 'a list" where
  "place before x [] = [x]"
| "place before x (y # ys) = (if before x y then y # place before x ys else x # y # ys)"

locale ranking =
  fixes before :: "'k \<Rightarrow> 'k \<Rightarrow> bool"
  assumes irrefl: "\<not> before a a"
    and trans: "before a b \<Longrightarrow> before b c \<Longrightarrow> before a c"
    and neg_trans: "\<not> before a b \<Longrightarrow> \<not> before b c \<Longrightarrow> \<not> before a c"
begin

lemma asym: "before a b \<Longrightarrow> \<not> before b a"
  using irrefl trans by blast

lemma mset_place: "mset (place r x ys) = add_mset x (mset ys)"
  by (induction ys) auto

lemma place_sorted:
  assumes "sorted_wrt (\<lambda>a b. \<not> before (f a) (f b)) ys"
  shows "sorted_wrt (\<lambda>a b. \<not> before (f a) (f b)) (place (\<lambda>a b. before (f a) (f b)) x ys)"
  using assms
proof (induction ys)
  case (Cons y ys)
  let ?p = "place (\<lambda>a b. before (f a) (f b)) x ys"
  have set_p: "set ?p = insert x (set ys)"
    using arg_cong[OF mset_place, of set_mset "\<lambda>a b. before (f a) (f b)" x ys] by simp
  have IH: "sorted_wrt (\<lambda>a b. \<not> before (f a) (f b)) ?p" using Cons by simp
  have y: "\<And>z. z \<in> set ys \<Longrightarrow> \<not> before (f y) (f z)" using Cons.prems by simp
  show ?case
  proof (cases "before (f x) (f y)")
    case True
    then have "\<not> before (f y) (f x)" by (rule asym)
    then show ?thesis using True IH y set_p by simp
  next
    case False
    then have "\<not> before (f x) (f z)" if "z \<in> set ys" for z using neg_trans y[OF that] by blast
    then show ?thesis using False Cons.prems by simp
  qed
qed simp

lemma arranged:
  "sorted_wrt (\<lambda>a b. \<not> before (f b) (f a)) (rev (foldl (\<lambda>ys x. place (\<lambda>a b. before (f a) (f b)) x ys) ys xs))
    \<and> mset (foldl (\<lambda>ys x. place (\<lambda>a b. before (f a) (f b)) x ys) ys xs) = mset xs + mset ys"
  if "sorted_wrt (\<lambda>a b. \<not> before (f a) (f b)) ys"
  using that
proof (induction xs arbitrary: ys)
  case Nil
  then show ?case by (simp add: sorted_wrt_rev)
next
  case (Cons x xs)
  from Cons.IH[OF place_sorted[OF Cons.prems, of x]] show ?case by (simp add: mset_place)
qed

lemma best_of:
  "case foldl (\<lambda>o' e. case o' of None \<Rightarrow> Some e | Some x \<Rightarrow> if before e x then Some e else Some x) acc es of
     None \<Rightarrow> acc = None \<and> es = []
   | Some b \<Rightarrow> (b \<in> set es \<or> acc = Some b) \<and> (\<forall>e\<in>set es. \<not> before e b) \<and> (\<forall>a. acc = Some a \<longrightarrow> \<not> before a b)"
proof (induction es arbitrary: acc)
  case Nil
  show ?case using irrefl by (cases acc) auto
next
  case (Cons e es)
  let ?f = "\<lambda>o' e. case o' of None \<Rightarrow> Some e | Some x \<Rightarrow> if before e x then Some e else Some x"
  obtain a where a: "?f acc e = Some a" "a = e \<or> acc = Some a" "\<not> before e a" "\<And>x. acc = Some x \<Longrightarrow> \<not> before x a"
  proof (cases acc)
    case None
    then show thesis using irrefl by (intro that[of e]) auto
  next
    case (Some x)
    then show thesis using irrefl asym by (intro that[of "if before e x then e else x"]) auto
  qed
  obtain b where b: "foldl ?f (Some a) es = Some b"
    using Cons.IH[of "Some a"] by (cases "foldl ?f (Some a) es") auto
  have IH: "b \<in> set es \<or> a = b" "\<And>x. x \<in> set es \<Longrightarrow> \<not> before x b" "\<not> before a b"
    using Cons.IH[of "Some a"] by (auto simp: b)
  have "foldl ?f acc (e # es) = Some b" using a(1) b by simp
  moreover have "b \<in> set (e # es) \<or> acc = Some b" using IH(1) a(2) by auto
  moreover have "\<not> before e b" using neg_trans a(3) IH(3) by blast
  moreover have "\<not> before x b" if "acc = Some x" for x using neg_trans a(4)[OF that] IH(3) by blast
  ultimately show ?case using IH(2) by simp
qed

lemma arrangement_unique:
  assumes "sorted_wrt (\<lambda>a b. \<not> before (f b) (f a)) xs" "sorted_wrt (\<lambda>a b. \<not> before (f b) (f a)) ys"
    and "mset xs = mset ys"
    and "\<And>a b. a \<in> set xs \<Longrightarrow> b \<in> set xs \<Longrightarrow> a \<noteq> b \<Longrightarrow> before (f a) (f b) \<or> before (f b) (f a)"
  shows "xs = ys"
  using assms
proof (induction xs arbitrary: ys)
  case (Cons x xs)
  then obtain y zs where ys: "ys = y # zs" by (cases ys) auto
  have "x = y"
  proof (rule ccontr)
    assume ne: "x \<noteq> y"
    have "set ys = set (x # xs)" using Cons.prems(3) by (metis set_mset_mset)
    then have "y \<in> set xs" "x \<in> set zs" using ne ys by auto
    then show False using Cons.prems(1,2,4) ne unfolding ys by auto
  qed
  moreover have "xs = zs"
    using Cons.prems \<open>x = y\<close> unfolding ys by (intro Cons.IH) auto
  ultimately show ?case by (simp add: ys)
qed simp

end

interpretation digit_order: ranking ranks_before
  by unfold_locales (auto simp: ranks_before_def)

lemma ranks_before_total:
  "txid_digits a \<noteq> txid_digits b \<Longrightarrow> ranks_before a b \<or> ranks_before b a"
  by (auto simp: ranks_before_def rank_key_def)

section \<open>The sort of the comparison closure is an insertion sort\<close>

abbreviation tx_before :: "valid_tx \<Rightarrow> valid_tx \<Rightarrow> bool" where
  "tx_before a b \<equiv> ranks_before (v_TxID a) (v_TxID b)"

lemma v_TxID_unmarked [simp]: "v_TxID (unmarked v) = v_TxID v" "v_Address (unmarked v) = v_Address v"
    "v_Sum (unmarked v) = v_Sum v" "v_BlockPosition (unmarked v) = v_BlockPosition v"
  by (simp_all add: unmarked_def)

lemma sift_place:
  assumes "summed x" "list_all summed ys"
  shows "map unmarked (sift x ys) = place tx_before (unmarked x) (map unmarked ys) \<and> list_all summed (sift x ys)"
  using assms
proof (induction ys arbitrary: x)
  case (Cons y ys)
  obtain x' y' l where t: "tx_less x y = (x', y', l)" by (cases "tx_less x y")
  have s: "l \<longleftrightarrow> ranks_before (v_TxID x) (v_TxID y)" "unmarked x' = unmarked x" "unmarked y' = unmarked y"
    "summed x'" "summed y'"
    using tx_less_spec[OF t] Cons.prems by auto
  have IH: "map unmarked (sift x' ys) = place tx_before (unmarked x) (map unmarked ys)" "list_all summed (sift x' ys)"
    using Cons.IH[OF s(4)] Cons.prems s(2) by auto
  show ?case
    using IH s Cons.prems by (cases l) (simp_all add: t)
qed simp

lemma foldl_sift:
  assumes "list_all summed xs" "list_all summed ys"
  shows "map unmarked (foldl (\<lambda>ys x. sift x ys) ys xs)
      = foldl (\<lambda>ys x. place tx_before x ys) (map unmarked ys) (map unmarked xs)
    \<and> list_all summed (foldl (\<lambda>ys x. sift x ys) ys xs)"
  using assms
proof (induction xs arbitrary: ys)
  case (Cons x xs)
  have "list_all summed (sift x ys)" "map unmarked (sift x ys) = place tx_before (unmarked x) (map unmarked ys)"
    using sift_place[of x ys] Cons.prems by auto
  then show ?case using Cons.IH[of "sift x ys"] Cons.prems by simp
qed simp

lemma sort_Slice_spec:
  assumes "list_all summed xs"
  shows "mset (map unmarked (sort_Slice xs)) = mset (map unmarked xs)"
    and "sorted_wrt (\<lambda>a b. \<not> ranks_before b a) (map v_TxID (sort_Slice xs))"
    and "list_all summed (sort_Slice xs)"
proof -
  let ?ys = "foldl (\<lambda>ys x. place tx_before x ys) [] (map unmarked xs)"
  have m: "map unmarked (sort_Slice xs) = rev ?ys" and s: "list_all summed (sort_Slice xs)"
    using foldl_sift[OF assms, of "[]"] by (simp_all add: sort_Slice_def rev_map[symmetric])
  have a: "sorted_wrt (\<lambda>a b. \<not> tx_before b a) (rev ?ys) \<and> mset ?ys = mset (map unmarked xs) + mset []"
    by (rule digit_order.arranged) simp
  show "mset (map unmarked (sort_Slice xs)) = mset (map unmarked xs)" using a by (simp add: m)
  have "map v_TxID (sort_Slice xs) = map v_TxID (map unmarked (sort_Slice xs))" by simp
  then show "sorted_wrt (\<lambda>a b. \<not> ranks_before b a) (map v_TxID (sort_Slice xs))"
    using a by (simp only: m sorted_wrt_map)
  show "list_all summed (sort_Slice xs)" by (rule s)
qed

text \<open>What a block contributes, without the places and the ties.\<close>

definition claim_of :: "valid_tx \<Rightarrow> string \<times> string \<times> nat" where
  "claim_of v = (v_TxID v, v_Address v, v_Sum v)"

definition claims :: "btc_tx list \<Rightarrow> (string \<times> string \<times> nat) list" where
  "claims txs = concat (map (\<lambda>tx. case isValidDNNTransaction tx of None \<Rightarrow> []
     | Some addr \<Rightarrow> [(tx_TxID tx, addr, txidDigitSum (tx_TxID tx))]) txs)"

lemma collect_claims:
  "map claim_of (concat (map collect_valid (enumerate n txs))) = claims txs"
  "list_all summed (concat (map collect_valid (enumerate n txs)))"
  by (induction txs arbitrary: n)
     (auto simp: claims_def collect_valid_def claim_of_def summed_def split: option.splits)

lemma claim_of_unmarked: "claim_of (unmarked v) = claim_of v"
  by (simp add: claim_of_def)

lemma findValid_spec:
  "mset (map claim_of (findValidDNNTransactions b)) = mset (claims (bk_Transactions b))"
  "sorted_wrt (\<lambda>x y. \<not> ranks_before (fst y) (fst x)) (map claim_of (findValidDNNTransactions b))"
  "list_all summed (findValidDNNTransactions b)"
proof -
  let ?xs = "concat (map collect_valid (enumerate 0 (bk_Transactions b)))"
  note s = sort_Slice_spec[OF collect_claims(2)[of 0 "bk_Transactions b"]]
  have "map claim_of vs = map claim_of (map unmarked vs)" for vs by (simp add: claim_of_unmarked)
  then show "mset (map claim_of (findValidDNNTransactions b)) = mset (claims (bk_Transactions b))"
    using s(1) unfolding findValidDNNTransactions_def collect_claims(1)[of 0, symmetric] mset_map[of claim_of]
    by (metis image_mset_cong mset_map)
  show "sorted_wrt (\<lambda>x y. \<not> ranks_before (fst y) (fst x)) (map claim_of (findValidDNNTransactions b))"
    using s(2) by (simp add: findValidDNNTransactions_def sorted_wrt_map claim_of_def)
  show "list_all summed (findValidDNNTransactions b)" using s(3) by (simp add: findValidDNNTransactions_def)
qed

section \<open>Hexadecimal ids\<close>

definition hex_chars :: string where
  "hex_chars = ''0123456789abcdef''"

definition hex_id :: "string \<Rightarrow> bool" where
  "hex_id s \<longleftrightarrow> length s = 64 \<and> list_all (\<lambda>c. c \<in> set hex_chars) s"

lemma hex_char_values: "map (\<lambda>c. hexCharToInt (lower_char c)) hex_chars = [0..<16]"
  by (simp add: hex_chars_def hexCharToInt_def lower_char_def byte_of_def upt_rec)

lemma hex_char_inj: "inj_on (\<lambda>c. hexCharToInt (lower_char c)) (set hex_chars)"
proof -
  have "distinct (map (\<lambda>c. hexCharToInt (lower_char c)) hex_chars)" unfolding hex_char_values by simp
  then show ?thesis by (simp only: distinct_map)
qed

lemma hex_id_digits:
  assumes "hex_id a" "hex_id b" "txid_digits a = txid_digits b"
  shows "a = b"
proof (rule map_inj_on)
  show "map (\<lambda>c. hexCharToInt (lower_char c)) a = map (\<lambda>c. hexCharToInt (lower_char c)) b"
    using assms(3) by (simp add: txid_digits_def to_lower_def comp_def)
  show "inj_on (\<lambda>c. hexCharToInt (lower_char c)) (set a \<union> set b)"
    using assms(1,2) by (intro inj_on_subset[OF hex_char_inj]) (auto simp: hex_id_def list_all_iff)
qed

section \<open>Properties of the numbering\<close>

lemma mem_claims:
  "c \<in> set (claims txs) \<longleftrightarrow> (\<exists>tx\<in>set txs. \<exists>addr. isValidDNNTransaction tx = Some addr
     \<and> c = (tx_TxID tx, addr, txidDigitSum (tx_TxID tx)))"
proof -
  have "set (case isValidDNNTransaction tx of None \<Rightarrow> [] | Some addr \<Rightarrow> [(tx_TxID tx, addr, txidDigitSum (tx_TxID tx))])
      = {c. \<exists>addr. isValidDNNTransaction tx = Some addr \<and> c = (tx_TxID tx, addr, txidDigitSum (tx_TxID tx))}" for tx
    by (cases "isValidDNNTransaction tx") auto
  then show ?thesis by (simp add: claims_def)
qed

lemma mset_claims: "mset txs = mset txs' \<Longrightarrow> mset (claims txs) = mset (claims txs')"
  by (simp add: claims_def mset_concat flip: sum_mset_sum_list)

lemma only_digits_type: "isValidDNNTransaction tx = Some a \<Longrightarrow> has_prefix (to_lower a) ''bc1q''"
  by (auto simp: isValidDNNTransaction_def Let_def split: if_splits)

lemma remdups_single: "length (remdups xs) = 1 \<longleftrightarrow> (\<exists>x. set xs = {x})"
  by (metis card_1_singleton_iff length_remdups_card_conv One_nat_def)

lemma self_transfer:
  "isValidDNNTransaction tx = Some a \<longleftrightarrow>
     tx_Inputs tx \<noteq> [] \<and> in_Address ` set (tx_Inputs tx) \<subseteq> {a} \<and> a \<noteq> []
     \<and> set (concat (map output_addresses (tx_Outputs tx))) = {a}
     \<and> (to_lower \<circ> spk_Type) ` set (tx_Outputs tx) = {''witness_v0_keyhash''}
     \<and> has_prefix (to_lower a) ''bc1q''"
  (is "?l \<longleftrightarrow> ?r")
proof
  let ?ins = "map in_Address (tx_Inputs tx)" and ?outs = "concat (map output_addresses (tx_Outputs tx))"
  assume ?l
  then have b: "tx_Inputs tx \<noteq> []" "tx_Outputs tx \<noteq> []" "[] \<notin> set ?ins"
    "\<forall>out\<in>set (tx_Outputs tx). to_lower (spk_Type out) = ''witness_v0_keyhash''"
    "length (remdups (remdups ?ins @ remdups ?outs)) = 1" "remdups ?outs \<noteq> []"
    "a = hd (remdups ?outs)" "has_prefix (to_lower a) ''bc1q''"
    by (auto simp: isValidDNNTransaction_def Let_def list_ex_iff split: if_splits)
  from b(5) obtain x where x: "set ?ins \<union> set ?outs = {x}" unfolding remdups_single by auto
  have "hd (remdups ?outs) \<in> set (remdups ?outs)" using b(6) by (rule hd_in_set)
  then have "a \<in> set ?outs" using b(7) by simp
  moreover have "set ?outs \<subseteq> {x}" using x by (metis Un_upper2)
  ultimately have "x = a" "set ?outs = {a}" by blast+
  moreover have "set ?ins = {a}" using b(1) x \<open>x = a\<close> by (cases "tx_Inputs tx") auto
  ultimately show ?r using b by (cases "tx_Outputs tx") auto
next
  let ?ins = "map in_Address (tx_Inputs tx)" and ?outs = "concat (map output_addresses (tx_Outputs tx))"
  assume r: ?r
  then have i: "set ?ins = {a}" by (cases "tx_Inputs tx") auto
  have o: "set ?outs = {a}" "tx_Outputs tx \<noteq> []" using r by auto
  have "length (remdups (remdups ?ins @ remdups ?outs)) = 1" unfolding remdups_single using i o by auto
  moreover have "set (remdups ?outs) \<noteq> {}" unfolding set_remdups o(1) by (rule insert_not_empty)
  then have ro: "remdups ?outs \<noteq> []" by (simp only: set_empty not_False_eq_True)
  moreover have "hd (remdups ?outs) = a" using hd_in_set[OF ro] o(1) by (simp only: set_remdups singleton_iff)
  moreover have "\<not> list_ex (\<lambda>i. in_Address i = []) (tx_Inputs tx)"
    "\<not> list_ex (\<lambda>out. to_lower (spk_Type out) \<noteq> ''witness_v0_keyhash'') (tx_Outputs tx)"
    using r by (auto simp: list_ex_iff)
  moreover have "remdups ?ins \<noteq> []" using r by simp
  ultimately show ?l using r o(2) unfolding isValidDNNTransaction_def Let_def by simp
qed


definition addr_a :: string where "addr_a = ''bc1qalice''"

definition pay_tx :: "string \<Rightarrow> btc_tx" where
  "pay_tx i = \<lparr> tx_TxID = i, tx_Inputs = [\<lparr> in_TxID = ''00'', in_Vout = 0, in_Address = addr_a \<rparr>],
     tx_Outputs = [\<lparr> spk_Type = ''witness_v0_keyhash'', spk_Addresses = [], spk_Address = addr_a \<rparr>] \<rparr>"

text \<open>
  C5.  Numbering: \<open>findValidDNNTransactions\<close> returns every self-transfer of the block once, with
  its address and digit sum, in an order in which no transaction ranks before an earlier one:
  larger digit sum first, then the larger first differing digit.
\<close>

theorem numbering_is_the_ranking:
  "mset (map claim_of (findValidDNNTransactions b))
     = mset (map (\<lambda>tx. (tx_TxID tx, the (isValidDNNTransaction tx), txidDigitSum (tx_TxID tx)))
         (filter (\<lambda>tx. isValidDNNTransaction tx \<noteq> None) (bk_Transactions b)))
   \<and> sorted_wrt (\<lambda>v w. v_Sum v > v_Sum w
         \<or> v_Sum v = v_Sum w \<and> fst (compareTxidsByDigit (v_TxID w) (v_TxID v)) \<le> 0) (findValidDNNTransactions b)"
proof
  have "claims txs = map (\<lambda>tx. (tx_TxID tx, the (isValidDNNTransaction tx), txidDigitSum (tx_TxID tx)))
         (filter (\<lambda>tx. isValidDNNTransaction tx \<noteq> None) txs)" for txs
    by (induction txs) (auto simp: claims_def)
  then show "mset (map claim_of (findValidDNNTransactions b))
     = mset (map (\<lambda>tx. (tx_TxID tx, the (isValidDNNTransaction tx), txidDigitSum (tx_TxID tx)))
         (filter (\<lambda>tx. isValidDNNTransaction tx \<noteq> None) (bk_Transactions b)))"
    using findValid_spec(1)[of b] by simp
  have sums: "summed v" if "v \<in> set (findValidDNNTransactions b)" for v
    using findValid_spec(3)[of b] that by (simp add: list_all_iff)
  have "sorted_wrt (\<lambda>v w. \<not> ranks_before (v_TxID w) (v_TxID v)) (findValidDNNTransactions b)"
    using findValid_spec(2)[of b] by (simp add: sorted_wrt_map claim_of_def)
  then show "sorted_wrt (\<lambda>v w. v_Sum v > v_Sum w
         \<or> v_Sum v = v_Sum w \<and> fst (compareTxidsByDigit (v_TxID w) (v_TxID v)) \<le> 0) (findValidDNNTransactions b)"
  proof (rule sorted_wrt_mono_rel[rotated])
    fix v w
    assume m: "v \<in> set (findValidDNNTransactions b)" "w \<in> set (findValidDNNTransactions b)"
      and n: "\<not> ranks_before (v_TxID w) (v_TxID v)"
    have "\<not> fst (compareTxidsByDigit (v_TxID w) (v_TxID v)) > 0 \<or> v_Sum v \<noteq> v_Sum w" "v_Sum v \<ge> v_Sum w"
      using n sums[OF m(1)] sums[OF m(2)] unfolding compare_positive
      by (auto simp: ranks_before_def rank_key_def summed_def)
    then show "v_Sum v > v_Sum w
         \<or> v_Sum v = v_Sum w \<and> fst (compareTxidsByDigit (v_TxID w) (v_TxID v)) \<le> 0" by auto
  qed
qed

text \<open>
  C6.  Positions are canonical: two nodes that see the transactions of a block in a different
  order number its DNN transactions in the same way, as long as ids are distinct hexadecimal
  strings.
\<close>

theorem positions_are_canonical:
  assumes "mset (bk_Transactions b1) = mset (bk_Transactions b2)"
    and "\<forall>tx\<in>set (bk_Transactions b1). hex_id (tx_TxID tx)"
    and "distinct (map tx_TxID (bk_Transactions b1))"
  shows "map claim_of (findValidDNNTransactions b1) = map claim_of (findValidDNNTransactions b2)"
proof (rule digit_order.arrangement_unique[where f = fst])
  show "mset (map claim_of (findValidDNNTransactions b1)) = mset (map claim_of (findValidDNNTransactions b2))"
    unfolding findValid_spec(1) by (rule mset_claims[OF assms(1)])
  fix c c' assume "c \<in> set (map claim_of (findValidDNNTransactions b1))" "c' \<in> set (map claim_of (findValidDNNTransactions b1))"
    "c \<noteq> c'"
  then have "c \<in> set (claims (bk_Transactions b1))" "c' \<in> set (claims (bk_Transactions b1))"
    using findValid_spec(1)[of b1] by (metis set_mset_mset)+
  then obtain tx a tx' a' where t: "tx \<in> set (bk_Transactions b1)" "tx' \<in> set (bk_Transactions b1)"
    "isValidDNNTransaction tx = Some a" "isValidDNNTransaction tx' = Some a'"
    "c = (tx_TxID tx, a, txidDigitSum (tx_TxID tx))" "c' = (tx_TxID tx', a', txidDigitSum (tx_TxID tx'))"
    unfolding mem_claims by blast
  then have "fst c = tx_TxID tx" "fst c' = tx_TxID tx'" "tx = tx' \<Longrightarrow> c = c'" by auto
  with t(1,2) have "fst c \<noteq> fst c'" "hex_id (fst c)" "hex_id (fst c')"
    using assms(2,3) \<open>c \<noteq> c'\<close> by (auto simp: distinct_map inj_on_def)
  then show "ranks_before (fst c) (fst c') \<or> ranks_before (fst c') (fst c)"
    using hex_id_digits ranks_before_total by blast
qed (rule findValid_spec(2))+

definition id_of :: "char \<Rightarrow> char \<Rightarrow> string" where
  "id_of c e = replicate 62 CHR ''0'' @ [c, e]"

definition block_of :: "btc_tx list \<Rightarrow> btc_block" where
  "block_of txs = \<lparr> bk_Hash = ''h1'', bk_Height = 940007, bk_Time = 3, bk_Transactions = txs \<rparr>"

theorem positions_are_canonical_witness:
  "map claim_of (findValidDNNTransactions (block_of [pay_tx (id_of CHR ''1'' CHR ''2''), pay_tx (id_of CHR ''2'' CHR ''1'')]))
     = map claim_of (findValidDNNTransactions (block_of [pay_tx (id_of CHR ''2'' CHR ''1''), pay_tx (id_of CHR ''1'' CHR ''2'')]))"
proof (rule positions_are_canonical)
  have h: "hex_id (id_of CHR ''1'' CHR ''2'')" "hex_id (id_of CHR ''2'' CHR ''1'')"
    by (simp_all add: hex_id_def id_of_def hex_chars_def list_all_iff)
  show "\<forall>tx\<in>set (bk_Transactions (block_of [pay_tx (id_of CHR ''1'' CHR ''2''), pay_tx (id_of CHR ''2'' CHR ''1'')])).
      hex_id (tx_TxID tx)"
    using h by (simp add: block_of_def pay_tx_def)
qed (simp_all add: block_of_def pay_tx_def id_of_def add_mset_commute)

section \<open>What the sort writes about ties\<close>

definition tied :: "valid_tx \<Rightarrow> bool" where
  "tied v \<longleftrightarrow> v_TiePosition v \<noteq> 0"

definition shares_sum :: "valid_tx set \<Rightarrow> valid_tx \<Rightarrow> bool" where
  "shares_sum V v \<longleftrightarrow> (\<exists>w\<in>V. v_TxID w \<noteq> v_TxID v \<and> v_Sum w = v_Sum v)"

lemma tx_less_ties:
  assumes "tx_less a b = (a', b', l)" "hex_id (v_TxID a)" "hex_id (v_TxID b)" "v_TxID a \<noteq> v_TxID b"
  shows "unmarked a' = unmarked a" "unmarked b' = unmarked b"
    "tied a' \<longleftrightarrow> tied a \<or> v_Sum a = v_Sum b" "tied b' \<longleftrightarrow> tied b \<or> v_Sum a = v_Sum b"
proof -
  have d: "txid_digits (v_TxID a) \<noteq> txid_digits (v_TxID b)" using assms(2-4) hex_id_digits by blast
  have len: "length (to_lower (v_TxID a)) = length (to_lower (v_TxID b))"
    using assms(2,3) by (simp add: hex_id_def length_to_lower)
  have "first_difference 0 (to_lower (v_TxID a)) (to_lower (v_TxID b)) \<noteq> None"
    using d len unfolding first_difference_None txid_digits_def
    by (auto intro!: nth_equalityI simp: length_to_lower)
  then obtain r p u v where f: "first_difference 0 (to_lower (v_TxID a)) (to_lower (v_TxID b)) = Some (r, p, u, v)"
    by (metis option.exhaust prod_cases4)
  then have "r \<noteq> 0" "p > 0" using first_difference_less[OF f] by auto
  then show "unmarked a' = unmarked a" "unmarked b' = unmarked b"
    "tied a' \<longleftrightarrow> tied a \<or> v_Sum a = v_Sum b" "tied b' \<longleftrightarrow> tied b \<or> v_Sum a = v_Sum b"
    using assms(1) f by (auto simp: tx_less_def compareTxidsByDigit_def unmarked_def tied_def split: if_splits)
qed

lemma unmarked_fields:
  "unmarked a = unmarked b \<Longrightarrow> v_TxID a = v_TxID b \<and> v_Sum a = v_Sum b"
  by (metis v_TxID_unmarked(1,3))

lemma sift_sound:
  assumes "z \<in> set (sift x ys)" "\<And>v. v \<in> set (x # ys) \<Longrightarrow> hex_id (v_TxID v)"
    "v_TxID x \<notin> v_TxID ` set ys"
  shows "\<exists>u\<in>set (x # ys). unmarked z = unmarked u \<and> (tied z \<longrightarrow> tied u \<or> shares_sum (set (x # ys)) u)"
  using assms
proof (induction ys arbitrary: x)
  case (Cons y ys)
  obtain x' y' l where t: "tx_less x y = (x', y', l)" by (cases "tx_less x y")
  have ne: "v_TxID x \<noteq> v_TxID y" using Cons.prems(3) by auto
  note T = tx_less_ties[OF t Cons.prems(2)[of x] Cons.prems(2)[of y] ne, simplified]
  note X = unmarked_fields[OF T(1)]
  have sx: "v_Sum x = v_Sum y \<Longrightarrow> shares_sum (set (x # y # ys)) x"
    and sy: "v_Sum x = v_Sum y \<Longrightarrow> shares_sum (set (x # y # ys)) y"
    using ne by (auto simp: shares_sum_def)
  have X': "\<exists>u\<in>set (x # y # ys). unmarked x' = unmarked u \<and> (tied x' \<longrightarrow> tied u \<or> shares_sum (set (x # y # ys)) u)"
    using T sx by (intro bexI[of _ x]) auto
  have Y': "\<exists>u\<in>set (x # y # ys). unmarked y' = unmarked u \<and> (tied y' \<longrightarrow> tied u \<or> shares_sum (set (x # y # ys)) u)"
    using T sy by (intro bexI[of _ y]) auto
  show ?case
  proof (cases l)
    case False
    then have "z = x' \<or> z = y' \<or> z \<in> set ys" using Cons.prems(1) by (auto simp: t)
    then show ?thesis using X' Y' by auto
  next
    case True
    then have "z = y' \<or> z \<in> set (sift x' ys)" using Cons.prems(1) by (auto simp: t)
    then show ?thesis
    proof
      assume zin: "z \<in> set (sift x' ys)"
      have h: "\<And>v. v \<in> set (x' # ys) \<Longrightarrow> hex_id (v_TxID v)" "v_TxID x' \<notin> v_TxID ` set ys"
        using Cons.prems(2,3) X by auto
      from zin obtain u where u: "u \<in> set (x' # ys)" "unmarked z = unmarked u" "tied z \<longrightarrow> tied u \<or> shares_sum (set (x' # ys)) u"
        using Cons.IH[OF _ h] by blast
      have sub: "shares_sum (set (x' # ys)) w \<Longrightarrow> shares_sum (set (x # y # ys)) w" for w
        using X by (auto simp: shares_sum_def)
      have same: "shares_sum V x' \<longleftrightarrow> shares_sum V x" for V using X by (simp add: shares_sum_def)
      from u(1) consider "u = x'" | "u \<in> set ys" by auto
      then show ?thesis
      proof cases
        case 1
        then show ?thesis using u T sx sub[of x'] same by (intro bexI[of _ x]) auto
      next
        case 2
        then show ?thesis using u sub[of u] by (intro bexI[of _ u]) auto
      qed
    qed (use Y' in simp)
  qed
qed auto

lemma hd_sift:
  assumes "\<And>v. v \<in> set (x # ys) \<Longrightarrow> hex_id (v_TxID v)" "v_TxID x \<notin> v_TxID ` set ys" "sift x ys = z # zs"
  shows "unmarked z = unmarked x \<and> (tied x \<longrightarrow> tied z)
    \<or> (\<exists>y ys'. ys = y # ys' \<and> unmarked z = unmarked y \<and> (tied y \<longrightarrow> tied z))"
proof (cases ys)
  case (Cons y ys')
  obtain x' y' l where t: "tx_less x y = (x', y', l)" by (cases "tx_less x y")
  have "v_TxID x \<noteq> v_TxID y" using assms(2) Cons by auto
  note T = tx_less_ties[OF t assms(1)[of x] assms(1)[of y] this]
  show ?thesis using assms(3) T Cons by (cases l) (auto simp: t)
qed (use assms(3) in auto)

abbreviation tie_step :: "valid_tx \<Rightarrow> valid_tx \<Rightarrow> bool" where
  "tie_step v w \<equiv> v_Sum v = v_Sum w \<longrightarrow> tied v \<and> tied w"

lemma sift_complete:
  assumes "successively tie_step ys" "\<And>v. v \<in> set (x # ys) \<Longrightarrow> hex_id (v_TxID v)"
    "v_TxID x \<notin> v_TxID ` set ys" "distinct (map v_TxID ys)"
  shows "successively tie_step (sift x ys)"
  using assms
proof (induction ys arbitrary: x)
  case (Cons y ys)
  obtain x' y' l where t: "tx_less x y = (x', y', l)" by (cases "tx_less x y")
  have ne: "v_TxID x \<noteq> v_TxID y" using Cons.prems(3) by auto
  note T = tx_less_ties[OF t Cons.prems(2)[of x] Cons.prems(2)[of y] ne, simplified]
  note X = unmarked_fields[OF T(1)] and Y = unmarked_fields[OF T(2)]
  have tail: "successively tie_step ys" using Cons.prems(1) by (cases ys) auto
  show ?case
  proof (cases l)
    case False
    have "successively tie_step (y' # ys)"
      using Cons.prems(1) T Y by (cases ys) auto
    then show ?thesis using False T X Y by (auto simp: t)
  next
    case True
    have h: "\<And>v. v \<in> set (x' # ys) \<Longrightarrow> hex_id (v_TxID v)" "v_TxID x' \<notin> v_TxID ` set ys"
      using Cons.prems(2,3) X by auto
    have IH: "successively tie_step (sift x' ys)"
      using Cons.IH[OF tail h] Cons.prems(4) by simp
    obtain z zs where z: "sift x' ys = z # zs" by (cases "sift x' ys"; cases ys) (auto split: prod.splits if_splits)
    from hd_sift[OF h z] have "tie_step y' z"
    proof
      assume a: "unmarked z = unmarked x' \<and> (tied x' \<longrightarrow> tied z)"
      then show ?thesis using T X Y unmarked_fields[of z x'] by auto
    next
      assume "\<exists>w ys'. ys = w # ys' \<and> unmarked z = unmarked w \<and> (tied w \<longrightarrow> tied z)"
      then obtain w ys' where w: "ys = w # ys'" "unmarked z = unmarked w" "tied w \<longrightarrow> tied z" by blast
      then show ?thesis using Cons.prems(1) T Y unmarked_fields[OF w(2)] by auto
    qed
    then show ?thesis using True IH z by (simp add: t)
  qed
qed simp

lemma shares_sum_unmarked:
  assumes "unmarked ` V = unmarked ` W" "unmarked v = unmarked w"
  shows "shares_sum V v = shares_sum W w"
proof -
  have e: "shares_sum V v \<longleftrightarrow> (\<exists>u\<in>unmarked ` V. v_TxID u \<noteq> v_TxID (unmarked v) \<and> v_Sum u = v_Sum (unmarked v))" for V v
    by (auto simp: shares_sum_def)
  show ?thesis unfolding e[of V v] e[of W w] assms ..
qed

lemma foldl_sift_ties:
  assumes "list_all summed xs" "list_all summed ys" "\<And>v. v \<in> set (xs @ ys) \<Longrightarrow> hex_id (v_TxID v)"
    "distinct (map v_TxID (xs @ ys))" "\<And>x. x \<in> set xs \<Longrightarrow> \<not> tied x"
    "successively tie_step ys" "\<And>y. y \<in> set ys \<Longrightarrow> tied y \<Longrightarrow> shares_sum (set ys) y"
  shows "successively tie_step (foldl (\<lambda>ys x. sift x ys) ys xs)
    \<and> (\<forall>z\<in>set (foldl (\<lambda>ys x. sift x ys) ys xs). tied z \<longrightarrow> shares_sum (set (foldl (\<lambda>ys x. sift x ys) ys xs)) z)"
  using assms
proof (induction xs arbitrary: ys)
  case (Cons x xs)
  have h: "\<And>v. v \<in> set (x # ys) \<Longrightarrow> hex_id (v_TxID v)" by (rule Cons.prems(3)) auto
  have n: "v_TxID x \<notin> v_TxID ` set ys" using Cons.prems(4) by auto
  have s: "summed x" "list_all summed ys" using Cons.prems(1,2) by auto
  note P = sift_place[OF s]
  have "mset (map unmarked (sift x ys)) = mset (map unmarked (x # ys))"
    using P by (simp add: digit_order.mset_place)
  then have ms: "mset (map v_TxID (sift x ys)) = mset (map v_TxID (x # ys))" "unmarked ` set (sift x ys) = unmarked ` set (x # ys)"
    by (metis (no_types, lifting) list.map_comp map_cong mset_map comp_def v_TxID_unmarked(1)
        multiset.map_comp image_mset_cong)
       (metis \<open>mset (map unmarked (sift x ys)) = mset (map unmarked (x # ys))\<close> list.set_map set_mset_mset)
  have ids: "v_TxID ` set (sift x ys) = v_TxID ` set (x # ys)"
    using ms(1) by (metis list.set_map set_mset_mset)
  have hs: "\<And>v. v \<in> set (sift x ys) \<Longrightarrow> hex_id (v_TxID v)"
    using h ids by (metis (no_types, lifting) image_iff)
  have dy: "distinct (map v_TxID (xs @ sift x ys))"
  proof -
    have "mset (map v_TxID (xs @ sift x ys)) = mset (map v_TxID (x # xs @ ys))" using ms(1) by simp
    then show ?thesis using Cons.prems(4) by (metis append_Cons distinct_count_atmost_1 mset_eq_imp_distinct_iff)
  qed
  have sound: "shares_sum (set (sift x ys)) z" if z: "z \<in> set (sift x ys)" "tied z" for z
  proof -
    obtain u where u: "u \<in> set (x # ys)" "unmarked z = unmarked u" "tied u \<or> shares_sum (set (x # ys)) u"
      using sift_sound[OF z(1) h n] z(2) by blast
    have "shares_sum (set (x # ys)) u"
      using u(1,3) Cons.prems(5)[of x] Cons.prems(7)[of u] by (auto simp: shares_sum_def)
    then show ?thesis using shares_sum_unmarked[OF ms(2) u(2)] by simp
  qed
  have "successively tie_step (sift x ys)"
    using sift_complete[OF Cons.prems(6) h n] Cons.prems(4) by simp
  then have "successively tie_step (foldl (\<lambda>ys x. sift x ys) (sift x ys) xs)
    \<and> (\<forall>z\<in>set (foldl (\<lambda>ys x. sift x ys) (sift x ys) xs). tied z \<longrightarrow> shares_sum (set (foldl (\<lambda>ys x. sift x ys) (sift x ys) xs)) z)"
    using Cons.prems P hs dy sound by (intro Cons.IH) auto
  then show ?case by simp
qed auto

lemma tied_neighbours:
  assumes "sorted_wrt (\<lambda>v w. v_Sum v \<ge> v_Sum w) xs" "successively tie_step xs"
    "v \<in> set xs" "w \<in> set xs" "v \<noteq> w" "v_Sum v = v_Sum w"
  shows "tied v"
  using assms
proof (induction xs arbitrary: w rule: induct_list012)
  case (3 x y zs)
  show ?case
  proof (cases "v = x")
    case True
    then have "v_Sum y = v_Sum x" using 3 by (auto intro: antisym)
    then show ?thesis using True 3 by simp
  next
    case vx: False
    show ?thesis
    proof (cases "w = x")
      case True
      then have e: "v_Sum y = v_Sum x" using 3 vx by (auto intro: antisym)
      show ?thesis
      proof (cases "v = y")
        case False
        then show ?thesis using 3 vx e True by (intro "3.IH"(2)[of y]) auto
      qed (use 3 e in simp)
    next
      case False
      then show ?thesis using 3 vx by (intro "3.IH"(2)[of w]) auto
    qed
  qed
qed auto

text \<open>
  Ties: in a block whose ids are distinct hexadecimal strings the tie position that the
  node stores and displays is set exactly for the transactions whose digit sum another DNN
  transaction of the block has too.
\<close>

lemma ties_are_recorded:
  assumes "\<forall>tx\<in>set (bk_Transactions b). hex_id (tx_TxID tx)"
    and "distinct (map tx_TxID (bk_Transactions b))"
    and "v \<in> set (findValidDNNTransactions b)"
  shows "v_TiePosition v \<noteq> 0 \<longleftrightarrow>
    (\<exists>w\<in>set (findValidDNNTransactions b). v_TxID w \<noteq> v_TxID v \<and> v_Sum w = v_Sum v)"
proof -
  let ?xs = "concat (map collect_valid (enumerate 0 (bk_Transactions b)))"
  let ?ys = "foldl (\<lambda>ys x. sift x ys) [] ?xs"
  have f: "findValidDNNTransactions b = rev ?ys" by (simp add: findValidDNNTransactions_def sort_Slice_def)
  have ids: "map v_TxID ?xs = map fst (claims (bk_Transactions b))"
    unfolding collect_claims(1)[of 0, symmetric] by (simp add: claim_of_def)
  have sub: "map fst (claims txs) = map tx_TxID (filter (\<lambda>tx. isValidDNNTransaction tx \<noteq> None) txs)" for txs
    by (induction txs) (auto simp: claims_def)
  have hex: "hex_id (v_TxID x)" if "x \<in> set ?xs" for x
  proof -
    have "v_TxID x \<in> set (map v_TxID ?xs)" using that by simp
    then show ?thesis using assms(1) unfolding ids sub by auto
  qed
  have dist: "distinct (map v_TxID ?xs)" unfolding ids sub using assms(2) by (simp add: distinct_map_filter)
  have fresh: "\<not> tied x" if "x \<in> set ?xs" for x
    using that by (auto simp: collect_valid_def tied_def split: option.splits)
  have T: "successively tie_step ?ys \<and> (\<forall>z\<in>set ?ys. tied z \<longrightarrow> shares_sum (set ?ys) z)"
    using collect_claims(2) hex dist fresh by (intro foldl_sift_ties) auto
  have "successively tie_step (findValidDNNTransactions b)"
    unfolding f successively_rev using T by (auto elim: successively_mono)
  moreover have "sorted_wrt (\<lambda>v w. v_Sum v \<ge> v_Sum w) (findValidDNNTransactions b)"
  proof -
    have "sorted_wrt (\<lambda>v w. \<not> ranks_before (v_TxID w) (v_TxID v)) (findValidDNNTransactions b)"
      using findValid_spec(2)[of b] by (simp add: sorted_wrt_map claim_of_def)
    then show ?thesis
      using findValid_spec(3)[of b]
      by (elim sorted_wrt_mono_rel[rotated]) (auto simp: ranks_before_def rank_key_def summed_def list_all_iff)
  qed
  ultimately have "tied v" if "w \<in> set (findValidDNNTransactions b)" "v_TxID w \<noteq> v_TxID v" "v_Sum w = v_Sum v" for w
    using tied_neighbours[OF _ _ assms(3) that(1)] that by metis
  moreover have "shares_sum (set (findValidDNNTransactions b)) v" if "tied v"
    using T that assms(3) by (simp add: f)
  ultimately show ?thesis unfolding tied_def[symmetric] by (auto simp: shares_sum_def)
qed

lemma ties_are_recorded_example:
  "map (\<lambda>v. v_TiePosition v) (findValidDNNTransactions
      (block_of [pay_tx (id_of CHR ''1'' CHR ''2''), pay_tx (id_of CHR ''2'' CHR ''1'')])) \<noteq> [0, 0]"
proof
  let ?b = "block_of [pay_tx (id_of CHR ''1'' CHR ''2''), pay_tx (id_of CHR ''2'' CHR ''1'')]"
  let ?vs = "findValidDNNTransactions ?b"
  assume z: "map (\<lambda>v. v_TiePosition v) ?vs = [0, 0]"
  have h: "hex_id (id_of CHR ''1'' CHR ''2'')" "hex_id (id_of CHR ''2'' CHR ''1'')"
    by (simp_all add: hex_id_def id_of_def hex_chars_def list_all_iff)
  have ids: "map v_TxID ?vs = [id_of CHR ''2'' CHR ''1'', id_of CHR ''1'' CHR ''2'']" and sums: "map v_Sum ?vs = [3, 3]"
    by code_simp+
  obtain v w where vs: "?vs = [v, w]" using z by (auto simp: map_eq_Cons_conv)
  have "v_TiePosition v \<noteq> 0 \<longleftrightarrow> (\<exists>w\<in>set ?vs. v_TxID w \<noteq> v_TxID v \<and> v_Sum w = v_Sum v)"
  proof (rule ties_are_recorded)
    show "\<forall>tx\<in>set (bk_Transactions ?b). hex_id (tx_TxID tx)" using h by (simp add: block_of_def pay_tx_def)
    show "distinct (map tx_TxID (bk_Transactions ?b))" by (simp add: block_of_def pay_tx_def id_of_def)
    show "v \<in> set ?vs" by (simp add: vs)
  qed
  moreover have "v_TiePosition v = 0" using z by (simp add: vs)
  moreover have "v_TxID w \<noteq> v_TxID v" "v_Sum w = v_Sum v" using ids sums unfolding vs by (simp_all add: id_of_def)
  ultimately show False by (simp add: vs)
qed

end
