(* ===== verification/Reorg.thy ===== *)
theory Reorg
  imports Relay Ordering
begin

text \<open>
  \<^verbatim>\<open>src/internal/reorg/reorg.go\<close>: detection of a chain reorganisation and recovery from it.  The
  Bitcoin client and the REST validator are in \<open>chain_env\<close>: their answers during one run, where
  \<open>None\<close> is an error.  The database work of a recovery is one SQL transaction: an error returns
  the state before it.
\<close>

record chain_env =
  ch_network :: string
  ch_now :: int
  ch_time :: string
  ch_GetBlockCount :: "int option"
  ch_GetBlockHash :: "int \<Rightarrow> string option"
  ch_GetBlock :: "string \<Rightarrow> btc_block option"
  ch_GetBlockWithInputs :: "string \<Rightarrow> btc_block option"
  ch_rest :: "(int \<Rightarrow> string option) option"

section \<open>Detection\<close>

text \<open>The REST answer when there is one that is not empty, else the client's.\<close>

definition current_hash :: "('a chain_env_scheme) \<Rightarrow> int \<Rightarrow> string option" where
  "current_hash env blockNum =
     (case ch_rest env of
        None \<Rightarrow> ch_GetBlockHash env blockNum
      | Some rest \<Rightarrow> (case rest blockNum of
            None \<Rightarrow> ch_GetBlockHash env blockNum
          | Some h \<Rightarrow> if h = [] then ch_GetBlockHash env blockNum else Some h))"

definition hash_differs :: "('a chain_env_scheme) \<Rightarrow> database \<Rightarrow> int \<Rightarrow> bool" where
  "hash_differs env d blockNum =
     (case GetBitcoinBlockHash blockNum d of
        Inl _ \<Rightarrow> False
      | Inr storedHash \<Rightarrow> (case current_hash env blockNum of None \<Rightarrow> False | Some h \<Rightarrow> storedHash \<noteq> h))"

definition scan_step :: "('a chain_env_scheme) \<Rightarrow> database \<Rightarrow> bool \<times> int \<Rightarrow> int \<Rightarrow> bool \<times> int" where
  "scan_step env d st blockNum =
     (if hash_differs env d blockNum
      then (True, if snd st = 0 \<or> blockNum < snd st then blockNum else snd st)
      else st)"

definition scan_range :: "('a chain_env_scheme) \<Rightarrow> database \<Rightarrow> int \<Rightarrow> int \<Rightarrow> bool \<times> int" where
  "scan_range env d startBlock endBlock = foldl (scan_step env d) (False, 0) [startBlock..endBlock]"

section \<open>Recovery\<close>

definition reorg_isValidDNNTransaction :: "btc_tx \<Rightarrow> bool" where
  "reorg_isValidDNNTransaction tx = (if tx_Inputs tx = [] \<or> tx_Outputs tx = [] then False else True)"

definition process_tx :: "int \<Rightarrow> int \<Rightarrow> int \<times> database \<Rightarrow> btc_tx \<Rightarrow> int \<times> database" where
  "process_tx dnnBlockNum height st tx =
     (if reorg_isValidDNNTransaction tx then
        (let position = fst st + 1 in
         case GetAnchorByTransactionID (tx_TxID tx) (snd st) of
           Inl _ \<Rightarrow> (position, snd st)
         | Inr None \<Rightarrow> (position, snd st)
         | Inr (Some anchor) \<Rightarrow> (position, UpdateAnchorPosition (r_id anchor) dnnBlockNum height position (snd st)))
      else st)"

definition processBlockTransactions :: "btc_block \<Rightarrow> int \<Rightarrow> database \<Rightarrow> database" where
  "processBlockTransactions block dnnBlockNum d =
     snd (foldl (process_tx dnnBlockNum (bk_Height block)) (0, d) (bk_Transactions block))"

datatype reorg_error = NoBlockCount | NoBlockHash int | NoBlock int

fun rescan :: "('a chain_env_scheme) \<Rightarrow> int \<Rightarrow> int list \<Rightarrow> database \<Rightarrow> (reorg_error, database) res" where
  "rescan env genesis [] d = Ok d"
| "rescan env genesis (b # bs) d =
     (case ch_GetBlockHash env b of
        None \<Rightarrow> Err (NoBlockHash b)
      | Some blockHash \<Rightarrow>
          (case ch_GetBlock env blockHash of
             None \<Rightarrow> Err (NoBlock b)
           | Some block \<Rightarrow>
               let dnnBlockNum = b - genesis in
               rescan env genesis bs
                 (if dnnBlockNum \<ge> 0
                  then processBlockTransactions block dnnBlockNum
                         (UpdateDNNBlock (ch_now env) dnnBlockNum b blockHash (bk_Time block) d)
                  else d)))"

definition dnn_start :: "('a chain_env_scheme) \<Rightarrow> int \<Rightarrow> int" where
  "dnn_start env startBlock = (let n = startBlock - GetGenesisBlock (ch_network env) in if n < 0 then 0 else n)"

text \<open>
  The check time is written after the commit; the deferred \<^verbatim>\<open>Rollback\<close> undoes everything when a
  step before the commit fails.
\<close>

definition handleReorg :: "('a chain_env_scheme) \<Rightarrow> int \<Rightarrow> database \<Rightarrow> (reorg_error, unit) res \<times> database" where
  "handleReorg env startBlock d =
     (let dnnStartBlock = dnn_start env startBlock;
          d1 = RemoveAnchorsAfterBlock dnnStartBlock (InvalidateDNNBlocksAfter dnnStartBlock d)
      in case ch_GetBlockCount env of
           None \<Rightarrow> (Err NoBlockCount, d)
         | Some currentHeight \<Rightarrow>
             (case rescan env (GetGenesisBlock (ch_network env)) [startBlock..currentHeight] d1 of
                Inl e \<Rightarrow> (Err e, d)
              | Inr d2 \<Rightarrow> (Ok (), UpdateReorgCheckTime (ch_time env) d2)))"

definition CheckAndHandleReorg :: "('a chain_env_scheme) \<Rightarrow> int \<Rightarrow> database \<Rightarrow> (reorg_error, unit) res \<times> database" where
  "CheckAndHandleReorg env currentDNNBlock d =
     (if \<not> ShouldCheckReorg currentDNNBlock then (Ok (), d)
      else case ch_GetBlockCount env of
        None \<Rightarrow> (Err NoBlockCount, d)
      | Some currentBitcoinBlock \<Rightarrow>
          (case GetReorgCheckRange (NewPolicyEnforcer (ch_network env)) currentBitcoinBlock of
             (startBlock, endBlock) \<Rightarrow>
               (case scan_range env d startBlock endBlock of
                  (reorgDetected, reorgStartBlock) \<Rightarrow>
                    if \<not> reorgDetected then (Ok (), UpdateReorgCheckTime (ch_time env) d)
                    else handleReorg env reorgStartBlock d)))"

section \<open>Detection finds the first difference\<close>

lemma scan_foldl:
  assumes "sorted bs" "\<And>b. b \<in> set bs \<Longrightarrow> b > 0" "fst st \<longrightarrow> (\<forall>b\<in>set bs. snd st \<le> b)" "fst st \<longleftrightarrow> snd st \<noteq> 0"
  shows "foldl (scan_step env d) st bs =
    (if fst st then st else case filter (hash_differs env d) bs of [] \<Rightarrow> st | b # _ \<Rightarrow> (True, b))"
  using assms
proof (induction bs arbitrary: st)
  case (Cons b bs)
  have s: "sorted bs" "\<And>b. b \<in> set bs \<Longrightarrow> b > 0" "\<And>c. c \<in> set bs \<Longrightarrow> b \<le> c" "b > 0" using Cons.prems by auto
  show ?case
  proof (cases "hash_differs env d b \<and> \<not> fst st")
    case True
    then have st: "scan_step env d st b = (True, b)" using Cons.prems(4) by (simp add: scan_step_def)
    have "foldl (scan_step env d) (True, b) bs = (True, b)"
      using Cons.IH[of "(True, b)"] s by simp
    then show ?thesis using True st by simp
  next
    case False
    have "scan_step env d st b = st"
    proof (cases "hash_differs env d b")
      case True
      then have "fst st" "snd st \<le> b" "snd st \<noteq> 0" using False Cons.prems(3,4) by auto
      then show ?thesis by (cases st) (simp add: scan_step_def True)
    qed (simp add: scan_step_def)
    then show ?thesis using Cons.IH[of st] Cons.prems s False by auto
  qed
qed simp

lemma scan_range_first:
  assumes "startBlock > 0"
  shows "scan_range env d startBlock endBlock =
    (case filter (hash_differs env d) [startBlock..endBlock] of [] \<Rightarrow> (False, 0) | b # _ \<Rightarrow> (True, b))"
  unfolding scan_range_def using assms by (subst scan_foldl) auto

lemma genesis_positive: "GetGenesisBlock n > 0"
  by (simp add: GetGenesisBlock_def GenesisBlockMainnet_def GenesisBlockTestnet_def GenesisBlockDev_def)

lemma filter_upto_first:
  "filter P [a..b] = x # xs \<Longrightarrow> P x \<and> a \<le> x \<and> x \<le> b \<and> (\<forall>y. a \<le> y \<and> y < x \<longrightarrow> \<not> P y)"
proof -
  assume f: "filter P [a..b] = x # xs"
  then have x: "x \<in> set (filter P [a..b])" by simp
  have "sorted (x # xs)" unfolding f[symmetric] by (rule sorted_wrt_filter) simp
  moreover have "y \<in> set (x # xs)" if "a \<le> y" "y < x" "P y" for y
    using that x unfolding f[symmetric] by auto
  ultimately show "P x \<and> a \<le> x \<and> x \<le> b \<and> (\<forall>y. a \<le> y \<and> y < x \<longrightarrow> \<not> P y)"
    using x by fastforce
qed

section \<open>The block table\<close>

text \<open>Every row of the table has the DNN number of its Bitcoin height.\<close>

definition aligned :: "int \<Rightarrow> database \<Rightarrow> bool" where
  "aligned genesis d \<longleftrightarrow> list_all (\<lambda>r. b_number r = b_bitcoin r - genesis) (dnn_blocks d)"

lemma GetBitcoinBlockHash_put:
  assumes "aligned g d" "dnn_blocks d' = insert_or_replace block_clash r (dnn_blocks d)" "b_number r = b_bitcoin r - g"
  shows "GetBitcoinBlockHash c d' = (if c = b_bitcoin r then Ok (b_hash r) else GetBitcoinBlockHash c d)" "aligned g d'"
proof -
  have clash: "filter (\<lambda>s. \<not> block_clash r s) (dnn_blocks d) = filter (\<lambda>s. b_bitcoin s \<noteq> b_bitcoin r) (dnn_blocks d)"
    using assms(1,3) by (intro filter_cong) (auto simp: aligned_def block_clash_def list_all_iff)
  have f: "find P (xs @ [x]) = (case find P xs of None \<Rightarrow> if P x then Some x else None | Some y \<Rightarrow> Some y)" for P xs and x :: block_row
    by (induction xs) auto
  have 1: "find (\<lambda>s. b_bitcoin s = b_bitcoin r) (filter (\<lambda>s. b_bitcoin s \<noteq> b_bitcoin r) xs) = None" for xs :: "block_row list"
    by (auto simp: find_None_iff)
  have 2: "c \<noteq> b_bitcoin r \<Longrightarrow> find (\<lambda>s. b_bitcoin s = c) (filter (\<lambda>s. b_bitcoin s \<noteq> b_bitcoin r) xs) = find (\<lambda>s. b_bitcoin s = c) xs"
    for xs :: "block_row list"
    by (induction xs) auto
  show "GetBitcoinBlockHash c d' = (if c = b_bitcoin r then Ok (b_hash r) else GetBitcoinBlockHash c d)"
    unfolding GetBitcoinBlockHash_def assms(2) insert_or_replace_def clash f
    using 1[of "dnn_blocks d"] 2[of "dnn_blocks d"] by (auto split: option.splits)
  show "aligned g d'" using assms(1,3) by (auto simp: aligned_def assms(2) insert_or_replace_def list_all_iff)
qed

lemma GetAnchorByTransactionID_fails: "GetAnchorByTransactionID txID d = Inl DNoSuchColumn"
  by (simp add: GetAnchorByTransactionID_def anchor_columns_def)

lemma processBlockTransactions_id: "processBlockTransactions block n d = d"
proof -
  have "snd (foldl (process_tx n h) st txs) = snd st" for h txs and st :: "int \<times> database"
    by (induction txs arbitrary: st) (auto simp: process_tx_def GetAnchorByTransactionID_fails)
  then show ?thesis by (simp add: processBlockTransactions_def)
qed

lemma rescan_ok:
  assumes "rescan env g bs d = Inr d'" "aligned g d"
  shows "(\<forall>c. GetBitcoinBlockHash c d' =
      (if c \<in> set bs \<and> c \<ge> g then (case ch_GetBlockHash env c of Some h \<Rightarrow> Ok h | None \<Rightarrow> GetBitcoinBlockHash c d)
       else GetBitcoinBlockHash c d))
    \<and> aligned g d' \<and> (\<forall>c\<in>set bs. ch_GetBlockHash env c \<noteq> None)"
  using assms
proof (induction bs arbitrary: d)
  case (Cons b bs)
  obtain h blk where hb: "ch_GetBlockHash env b = Some h" "ch_GetBlock env h = Some blk"
    using Cons.prems(1) by (auto split: option.splits)
  let ?r = "\<lparr> b_number = b - g, b_bitcoin = b, b_hash = h, b_timestamp = bk_Time blk, b_created_at = ch_now env, b_synced_at = ch_now env \<rparr>"
  let ?d1 = "if b - g \<ge> 0 then UpdateDNNBlock (ch_now env) (b - g) b h (bk_Time blk) d else d"
  have r: "rescan env g bs ?d1 = Inr d'"
    using Cons.prems(1) hb by (simp add: Let_def processBlockTransactions_id split: if_splits)
  have put: "GetBitcoinBlockHash c (UpdateDNNBlock (ch_now env) (b - g) b h (bk_Time blk) d)
      = (if c = b then Ok h else GetBitcoinBlockHash c d)" "aligned g (UpdateDNNBlock (ch_now env) (b - g) b h (bk_Time blk) d)" for c
    using GetBitcoinBlockHash_put[OF Cons.prems(2), where d' = "UpdateDNNBlock (ch_now env) (b - g) b h (bk_Time blk) d" and r = ?r]
    by (simp_all add: UpdateDNNBlock_def)
  have "aligned g ?d1" using put(2) Cons.prems(2) by simp
  from Cons.IH[OF r this] show ?case
    using put(1) hb(1) by (auto simp: UpdateDNNBlock_def split: if_splits)
qed simp

lemma rescan_keeps:
  assumes "rescan env g bs d = Inr d'"
  shows "bitcoin_transactions d' = bitcoin_transactions d \<and> anchor_events d' = anchor_events d \<and> sync_state d' = sync_state d"
  using assms
proof (induction bs arbitrary: d)
  case (Cons b bs)
  obtain d1 where "rescan env g bs d1 = Inr d'" "bitcoin_transactions d1 = bitcoin_transactions d"
    "anchor_events d1 = anchor_events d" "sync_state d1 = sync_state d"
    using Cons.prems by (fastforce simp: Let_def processBlockTransactions_id UpdateDNNBlock_def split: option.splits if_splits)
  then show ?case using Cons.IH by metis
qed simp

lemma invalidate_lookup:
  assumes "aligned g d"
  shows "GetBitcoinBlockHash c (RemoveAnchorsAfterBlock m (InvalidateDNNBlocksAfter n d))
    = (if c - g > n then Err DBlockNotFound else GetBitcoinBlockHash c d)"
    "aligned g (RemoveAnchorsAfterBlock m (InvalidateDNNBlocksAfter n d))"
proof -
  have "list_all (\<lambda>r. b_number r = b_bitcoin r - g) xs \<Longrightarrow>
      find (\<lambda>r. b_bitcoin r = c) (filter (\<lambda>r. \<not> n < b_number r) xs) = (if c - g > n then None else find (\<lambda>r. b_bitcoin r = c) xs)" for xs :: "block_row list"
    by (induction xs) auto
  then show "GetBitcoinBlockHash c (RemoveAnchorsAfterBlock m (InvalidateDNNBlocksAfter n d))
    = (if c - g > n then Err DBlockNotFound else GetBitcoinBlockHash c d)"
    using assms by (simp add: GetBitcoinBlockHash_def RemoveAnchorsAfterBlock_def InvalidateDNNBlocksAfter_def
      delete_where_def aligned_def)
  show "aligned g (RemoveAnchorsAfterBlock m (InvalidateDNNBlocksAfter n d))"
    using assms by (auto simp: aligned_def RemoveAnchorsAfterBlock_def InvalidateDNNBlocksAfter_def delete_where_def list_all_iff)
qed

lemma handleReorg_ok:
  assumes "handleReorg env startBlock d = (Ok (), d')"
  obtains height d2 where "ch_GetBlockCount env = Some height"
    "rescan env (GetGenesisBlock (ch_network env)) [startBlock..height]
       (RemoveAnchorsAfterBlock (dnn_start env startBlock) (InvalidateDNNBlocksAfter (dnn_start env startBlock) d)) = Inr d2"
    "d' = UpdateReorgCheckTime (ch_time env) d2"
  using assms by (auto simp: handleReorg_def Let_def split: option.splits sum.splits)

lemma GetBitcoinBlockHash_state: "GetBitcoinBlockHash c (UpdateSyncState k v d) = GetBitcoinBlockHash c d"
  by (simp add: GetBitcoinBlockHash_def UpdateSyncState_def)

lemma recovery_facts:
  assumes "handleReorg env startBlock d = (Ok (), d')" "aligned (GetGenesisBlock (ch_network env)) d"
    and "GetGenesisBlock (ch_network env) \<le> startBlock" "ch_GetBlockCount env = Some height" "startBlock \<le> height"
  shows "\<And>b. startBlock \<le> b \<Longrightarrow> b \<le> height \<Longrightarrow> \<exists>h. ch_GetBlockHash env b = Some h \<and> GetBitcoinBlockHash b d' = Ok h"
    and "\<And>b. b < startBlock \<Longrightarrow> GetBitcoinBlockHash b d' = GetBitcoinBlockHash b d"
    and "\<And>b. b > height \<Longrightarrow> GetBitcoinBlockHash b d' = Err DBlockNotFound"
    and "aligned (GetGenesisBlock (ch_network env)) d'"
    and "GetSyncState ''last_synced_block'' d' = GetSyncState ''last_synced_block'' d"
proof -
  let ?g = "GetGenesisBlock (ch_network env)"
  let ?d1 = "RemoveAnchorsAfterBlock (dnn_start env startBlock) (InvalidateDNNBlocksAfter (dnn_start env startBlock) d)"
  from assms(1) obtain d2 where r: "rescan env ?g [startBlock..height] ?d1 = Inr d2" and d': "d' = UpdateReorgCheckTime (ch_time env) d2"
    using assms(4) by (elim handleReorg_ok) auto
  have st: "dnn_start env startBlock = startBlock - ?g" using assms(3) by (simp add: dnn_start_def Let_def)
  note inv = invalidate_lookup[OF assms(2), where m = "dnn_start env startBlock" and n = "dnn_start env startBlock"]
  note R = rescan_ok[OF r inv(2)]
  have look: "GetBitcoinBlockHash c d' = GetBitcoinBlockHash c d2" for c
    by (simp add: d' UpdateReorgCheckTime_def GetBitcoinBlockHash_state)
  show "\<exists>h. ch_GetBlockHash env b = Some h \<and> GetBitcoinBlockHash b d' = Ok h" if rng: "startBlock \<le> b" "b \<le> height" for b
  proof -
    obtain h where "ch_GetBlockHash env b = Some h" using R rng by fastforce
    then show ?thesis using R assms(3) rng by (auto simp: look)
  qed
  show "GetBitcoinBlockHash b d' = GetBitcoinBlockHash b d" if "b < startBlock" for b
    using R inv(1) that by (auto simp: look st)
  show "GetBitcoinBlockHash b d' = Err DBlockNotFound" if "b > height" for b
    using R inv(1) assms(5) that by (auto simp: look st)
  show "aligned ?g d'" using R by (simp add: d' UpdateReorgCheckTime_def UpdateSyncState_def aligned_def)
  have "GetSyncState k d2 = GetSyncState k d" for k
    using rescan_keeps[OF r] by (simp add: GetSyncState_def RemoveAnchorsAfterBlock_def InvalidateDNNBlocksAfter_def)
  then show "GetSyncState ''last_synced_block'' d' = GetSyncState ''last_synced_block'' d"
    by (simp add: d' UpdateReorgCheckTime_def)
qed

section \<open>Properties of the reorganisation handler\<close>

definition fork_env :: chain_env where
  "fork_env = \<lparr> ch_network = ''dev'', ch_now = 9, ch_time = ''now'', ch_GetBlockCount = Some 940003,
     ch_GetBlockHash = (\<lambda>b. Some ''new''), ch_GetBlock = (\<lambda>h. Some \<lparr> bk_Hash = h, bk_Height = 0, bk_Time = 5,
       bk_Transactions = [] \<rparr>), ch_GetBlockWithInputs = (\<lambda>h. None), ch_rest = None \<rparr>"

definition fork_db :: database where
  "fork_db = CreateOrUpdateDNNBlock 1 2 940002 ''old'' 3 (CreateOrUpdateDNNBlock 1 1 940001 ''new'' 3 empty_db)"

text \<open>
  Detection: when a check is due and the height is known, a run in which no stored height
  of the range has a different hash now only records the time of the check; otherwise recovery
  starts at the least height of the range that differs.
\<close>

lemma reorg_starts_at_first_difference:
  assumes "ShouldCheckReorg n" "ch_GetBlockCount env = Some height"
    and "GetReorgCheckRange (NewPolicyEnforcer (ch_network env)) height = (s, e)"
  shows "if \<exists>b\<in>{s..e}. hash_differs env d b
    then \<exists>b\<in>{s..e}. hash_differs env d b \<and> \<not> (\<exists>c\<in>{s..<b}. hash_differs env d c)
           \<and> CheckAndHandleReorg env n d = handleReorg env b d
    else CheckAndHandleReorg env n d = (Ok (), UpdateReorgCheckTime (ch_time env) d)"
proof -
  have s0: "s > 0" using assms(3) genesis_positive[of "ch_network env"]
    by (auto simp: GetReorgCheckRange_def Let_def NewPolicyEnforcer_def split: if_splits)
  note scan = scan_range_first[OF s0, of env d e]
  show ?thesis
  proof (cases "filter (hash_differs env d) [s..e]")
    case Nil
    then have "\<not> (\<exists>b\<in>{s..e}. hash_differs env d b)" by (auto simp: filter_empty_conv)
    then show ?thesis using Nil scan assms by (simp add: CheckAndHandleReorg_def)
  next
    case (Cons b bs)
    note f = filter_upto_first[OF Cons]
    then have "\<exists>b\<in>{s..e}. hash_differs env d b" by auto
    moreover have "CheckAndHandleReorg env n d = handleReorg env b d"
      using Cons scan assms by (simp add: CheckAndHandleReorg_def)
    ultimately show ?thesis using f by (auto intro!: bexI[of _ b])
  qed
qed

lemma reorg_starts_at_first_difference_example:
  "\<exists>b. hash_differs fork_env fork_db b \<and> CheckAndHandleReorg fork_env 144 fork_db = handleReorg fork_env b fork_db"
proof -
  have 1: "ShouldCheckReorg 144" by (simp add: ShouldCheckReorg_def ReorgCheckInterval_def)
  have 2: "ch_GetBlockCount fork_env = Some 940003" by (simp add: fork_env_def)
  have 3: "GetReorgCheckRange (NewPolicyEnforcer (ch_network fork_env)) 940003 = (940000, 940003)" by code_simp
  have "hash_differs fork_env fork_db 940002" by code_simp
  then have "\<exists>b\<in>{940000..940003}. hash_differs fork_env fork_db b" by (intro bexI[of _ 940002]) auto
  then show ?thesis using reorg_starts_at_first_difference[OF 1 2 3, of fork_db] by auto
qed



text \<open>
  What recovery leaves: whether it succeeds or not, the stored transactions with their
  positions and the height the sync continues from stay as they were, so transactions of the
  orphaned blocks keep their identifiers and those of the new blocks are not scanned; on
  success exactly the anchors of DNN blocks beyond the first changed one are dropped and no
  anchor is renumbered, on an error nothing changes.
\<close>

lemma recovery_keeps_transactions:
  "bitcoin_transactions (snd (handleReorg env startBlock d)) = bitcoin_transactions d
    \<and> GetSyncState ''last_synced_block'' (snd (handleReorg env startBlock d)) = GetSyncState ''last_synced_block'' d
    \<and> (if fst (handleReorg env startBlock d) = Ok () then
          anchor_events (snd (handleReorg env startBlock d))
            = filter (\<lambda>a. a_dnn_block a \<le> dnn_start env startBlock) (anchor_events d)
       else snd (handleReorg env startBlock d) = d)"
proof (cases "fst (handleReorg env startBlock d) = Ok ()")
  case True
  let ?d1 = "RemoveAnchorsAfterBlock (dnn_start env startBlock) (InvalidateDNNBlocksAfter (dnn_start env startBlock) d)"
  obtain d' where h: "handleReorg env startBlock d = (Ok (), d')" using True by (metis prod.collapse)
  then obtain height d2 where r: "rescan env (GetGenesisBlock (ch_network env)) [startBlock..height] ?d1 = Inr d2"
    and d': "d' = UpdateReorgCheckTime (ch_time env) d2"
    by (elim handleReorg_ok) auto
  note K = rescan_keeps[OF r]
  have "GetSyncState k d2 = GetSyncState k d" for k
    using K by (simp add: GetSyncState_def RemoveAnchorsAfterBlock_def InvalidateDNNBlocksAfter_def)
  then have "GetSyncState ''last_synced_block'' d' = GetSyncState ''last_synced_block'' d"
    by (simp add: d' UpdateReorgCheckTime_def)
  then show ?thesis
    using K True unfolding h by (simp add: d' UpdateReorgCheckTime_def RemoveAnchorsAfterBlock_def InvalidateDNNBlocksAfter_def
        delete_where_def UpdateSyncState_def not_less)
next
  case False
  then have "snd (handleReorg env startBlock d) = d"
    by (auto simp: handleReorg_def Let_def split: option.splits sum.splits)
  then show ?thesis using False by simp
qed

end
