(* ===== verification/Sync.thy ===== *)
theory Sync
  imports Reorg
begin

text \<open>
  \<^verbatim>\<open>src/internal/sync/syncer.go\<close>: the synchronisation of the database with the Bitcoin chain and
  with the anchors found on other relays.  \<open>sync_env\<close> extends the chain with what the relays
  answer; \<open>sy_answers\<close> gives for a list of transaction ids the events each relay returns, in the
  order in which the workers handle them.  A panic in the store ends the process (no goroutine
  recovers): such a run is \<open>Inl d\<close>, with the database it leaves on disk.
\<close>

record sync_env = chain_env +
  sy_BlockBatchSize :: int
  sy_answers :: "string list \<Rightarrow> event list list"
  sy_nip19 :: "string \<Rightarrow> naddr_data option"
  sy_remote :: "string \<Rightarrow> string \<Rightarrow> int \<Rightarrow> event option"
  sy_BlockHashForTx :: "string \<Rightarrow> string option"
  sy_HeightForHash :: "string \<Rightarrow> int option"

section \<open>Anchors for transactions\<close>

text \<open>The later event of a transaction replaces the earlier one, on a tie the larger id.\<close>

definition replaces :: "event \<Rightarrow> event \<Rightarrow> bool" where
  "replaces ev old \<longleftrightarrow> ev_created_at ev > ev_created_at old
     \<or> ev_created_at ev = ev_created_at old \<and> str_less (ev_id old) (ev_id ev)"

definition batch_step :: "string list \<Rightarrow> (string \<Rightarrow> event option) \<Rightarrow> event \<Rightarrow> (string \<Rightarrow> event option)" where
  "batch_step txIDs results ev =
     (let eventTxID = first_tag ''x'' (ev_tags ev) in
      if eventTxID = [] then results
      else if eventTxID \<notin> set txIDs then results
      else case results eventTxID of
        None \<Rightarrow> results(eventTxID \<mapsto> ev)
      | Some old \<Rightarrow> if replaces ev old then results(eventTxID \<mapsto> ev) else results)"

definition queryRelayForBatch :: "string list \<Rightarrow> (string \<Rightarrow> event option) \<Rightarrow> event list \<Rightarrow> (string \<Rightarrow> event option)" where
  "queryRelayForBatch txIDs results events = foldl (batch_step txIDs) results events"

definition findAnchorEventsForTransactionsBatch :: "sync_env \<Rightarrow> string list \<Rightarrow> (string \<Rightarrow> event option)" where
  "findAnchorEventsForTransactionsBatch env txIDs =
     (if txIDs = [] then (\<lambda>_. None)
      else foldl (queryRelayForBatch txIDs) (\<lambda>_. None) (sy_answers env txIDs))"

abbreviation fetch_refs :: "sync_env \<Rightarrow> event \<Rightarrow> database \<Rightarrow> database" where
  "fetch_refs env \<equiv> fetchAndStoreReferencedEvents (sy_nip19 env) (sy_remote env)"

text \<open>One found anchor: reject, store, and (in \<open>syncBitcoin\<close>) fetch the references once more.\<close>

definition store_found :: "sync_env \<Rightarrow> bool \<Rightarrow> int \<Rightarrow> int \<Rightarrow> int \<Rightarrow> event \<Rightarrow> database \<Rightarrow> (database, database) res" where
  "store_found env explicitly bitcoinBlock dnnBlock position ev d =
     (if ValidateTagReferences (\<lambda>s. sy_nip19 env s \<noteq> None) ev \<noteq> Ok () then Ok d
      else case StoreAnchorEventHooked (fetch_refs env) ev bitcoinBlock dnnBlock position d of
        Inl DPanic \<Rightarrow> Inl d
      | Inl _ \<Rightarrow> Ok d
      | Inr d' \<Rightarrow> Ok (if explicitly then fetch_refs env ev d' else d'))"

section \<open>One block\<close>

definition store_tx :: "sync_env \<Rightarrow> int \<Rightarrow> int \<Rightarrow> database \<Rightarrow> nat \<times> valid_tx \<Rightarrow> database" where
  "store_tx env blockNum dnnBlockNum d p =
     StoreBitcoinTransaction (ch_now env) (v_TxID (snd p)) blockNum dnnBlockNum (int (fst p) + 1) (v_Address (snd p))
       (int (v_Sum (snd p))) (v_TiePosition (snd p)) (v_TieDigit (snd p)) d"

definition store_txs :: "sync_env \<Rightarrow> int \<Rightarrow> int \<Rightarrow> valid_tx list \<Rightarrow> database \<Rightarrow> database" where
  "store_txs env blockNum dnnBlockNum vs d = foldl (store_tx env blockNum dnnBlockNum) d (enumerate 0 vs)"

fun store_anchors ::
  "sync_env \<Rightarrow> bool \<Rightarrow> (string \<Rightarrow> event option) \<Rightarrow> int \<Rightarrow> int \<Rightarrow> (nat \<times> valid_tx) list \<Rightarrow> database \<Rightarrow> (database, database) res" where
  "store_anchors env explicitly found blockNum dnnBlockNum [] d = Ok d"
| "store_anchors env explicitly found blockNum dnnBlockNum (p # ps) d =
     (case found (v_TxID (snd p)) of
        None \<Rightarrow> store_anchors env explicitly found blockNum dnnBlockNum ps d
      | Some ev \<Rightarrow>
          (case store_found env explicitly blockNum dnnBlockNum (int (fst p) + 1) ev d of
             Inl c \<Rightarrow> Inl c
           | Inr d' \<Rightarrow> store_anchors env explicitly found blockNum dnnBlockNum ps d'))"

definition process_block :: "sync_env \<Rightarrow> bool \<Rightarrow> int \<Rightarrow> string \<Rightarrow> btc_block \<Rightarrow> database \<Rightarrow> (database, database) res" where
  "process_block env explicitly blockNum blockHash block d =
     (let dnnBlockNum = blockNum - GetGenesisBlock (ch_network env);
          d1 = CreateOrUpdateDNNBlock (ch_now env) dnnBlockNum blockNum blockHash (bk_Time block) d;
          validTxs = findValidDNNTransactions block
      in if validTxs = [] then Ok d1
         else store_anchors env explicitly (findAnchorEventsForTransactionsBatch env (map v_TxID validTxs))
                blockNum dnnBlockNum (enumerate 0 validTxs) (store_txs env blockNum dnnBlockNum validTxs d1))"

section \<open>The chain\<close>

definition diverges :: "sync_env \<Rightarrow> int \<Rightarrow> int \<Rightarrow> string \<Rightarrow> bool" where
  "diverges env lastSyncedBlock blockNum blockHash =
     (case ch_rest env of
        None \<Rightarrow> False
      | Some rest \<Rightarrow> (blockNum = lastSyncedBlock + 1 \<or> blockNum mod 100 = 0)
          \<and> (case rest blockNum of None \<Rightarrow> False | Some restHash \<Rightarrow> restHash \<noteq> blockHash))"

datatype loop_end = Stopped | Diverged | Crashed

fun sync_blocks :: "sync_env \<Rightarrow> int \<Rightarrow> int list \<Rightarrow> database \<Rightarrow> loop_end \<times> database" where
  "sync_blocks env lastSyncedBlock [] d = (Stopped, d)"
| "sync_blocks env lastSyncedBlock (blockNum # bs) d =
     (case ch_GetBlockHash env blockNum of
        None \<Rightarrow> (Stopped, d)
      | Some blockHash \<Rightarrow>
          if diverges env lastSyncedBlock blockNum blockHash then (Diverged, d)
          else case ch_GetBlockWithInputs env blockHash of
            None \<Rightarrow> (Stopped, d)
          | Some block \<Rightarrow>
              (case process_block env True blockNum blockHash block d of
                 Inl d' \<Rightarrow> (Crashed, d')
               | Inr d' \<Rightarrow> sync_blocks env lastSyncedBlock bs
                             (UpdateSyncState ''last_synced_block'' (show_int blockNum) d')))"

definition last_synced :: "('a chain_env_scheme) \<Rightarrow> database \<Rightarrow> int" where
  "last_synced env d =
     (let lastSyncedStr = GetSyncState ''last_synced_block'' d;
          start = GetGenesisBlock (ch_network env) - 1
      in if lastSyncedStr \<noteq> [] then (case parse_int64 lastSyncedStr of Some n \<Rightarrow> n | None \<Rightarrow> start) else start)"

datatype sync_result = SyncDone | SyncError | SyncDiverged | SyncCrashed

definition batch_end :: "sync_env \<Rightarrow> int \<Rightarrow> database \<Rightarrow> int" where
  "batch_end env blockHeight d =
     (let e = last_synced env d + sy_BlockBatchSize env in if e > blockHeight then blockHeight else e)"

definition syncBitcoin :: "sync_env \<Rightarrow> database \<Rightarrow> sync_result \<times> database" where
  "syncBitcoin env d =
     (case ch_GetBlockCount env of
        None \<Rightarrow> (SyncError, d)
      | Some blockHeight \<Rightarrow>
          let lastSyncedBlock = last_synced env d; endBlock = batch_end env blockHeight d in
          if lastSyncedBlock \<ge> blockHeight then (SyncDone, d)
          else case sync_blocks env lastSyncedBlock [lastSyncedBlock + 1..endBlock] d of
            (Diverged, d') \<Rightarrow> (SyncDiverged, d')
          | (Crashed, d') \<Rightarrow> (SyncCrashed, d')
          | (Stopped, d') \<Rightarrow>
              (SyncDone, snd (CheckAndHandleReorg env (endBlock - GetGenesisBlock (ch_network env))
                 (UpdateSyncState ''last_sync_time'' (ch_time env) d'))))"

section \<open>Manual synchronisation\<close>

definition SyncSpecificBlock :: "sync_env \<Rightarrow> int \<Rightarrow> database \<Rightarrow> sync_result \<times> database" where
  "SyncSpecificBlock env blockNum d =
     (case ch_GetBlockHash env blockNum of
        None \<Rightarrow> (SyncError, d)
      | Some blockHash \<Rightarrow>
          (case ch_GetBlockWithInputs env blockHash of
             None \<Rightarrow> (SyncError, d)
           | Some block \<Rightarrow>
               (case process_block env False blockNum blockHash block d of
                  Inl d' \<Rightarrow> (SyncCrashed, d')
                | Inr d' \<Rightarrow>
                    let currentLast = (case parse_int64 (GetSyncState ''last_synced_block'' d') of
                          Some n \<Rightarrow> n | None \<Rightarrow> 0)
                    in (SyncDone, if blockNum > currentLast
                          then UpdateSyncState ''last_synced_block'' (show_int blockNum) d' else d'))))"

definition SyncSpecificTransaction :: "sync_env \<Rightarrow> string \<Rightarrow> database \<Rightarrow> sync_result \<times> database" where
  "SyncSpecificTransaction env txID d =
     (case sy_BlockHashForTx env txID of
        None \<Rightarrow> (SyncError, d)
      | Some blockHash \<Rightarrow>
          (case sy_HeightForHash env blockHash of
             None \<Rightarrow> (SyncError, d)
           | Some blockHeight \<Rightarrow>
               (case ch_GetBlockWithInputs env blockHash of
                  None \<Rightarrow> (SyncError, d)
                | Some block \<Rightarrow>
                    (case find (\<lambda>tx. tx_TxID tx = txID) (bk_Transactions block) of
                       None \<Rightarrow> (SyncError, d)
                     | Some tx \<Rightarrow>
                         (case isValidDNNTransaction tx of
                            None \<Rightarrow> (SyncError, d)
                          | Some addr \<Rightarrow>
                              if blockHeight = 0 \<or> blockHash = [] then (SyncError, d)
                              else
                                let position = 1;
                                    dnnBlockNum = blockHeight - GetGenesisBlock (ch_network env)
                                in (SyncDone,
                                    StoreBitcoinTransaction (ch_now env) txID blockHeight dnnBlockNum (position + 1) addr
                                      (int (txidDigitSum txID)) 0 0
                                      (CreateOrUpdateDNNBlock (ch_now env) dnnBlockNum blockHeight blockHash 0 d)))))))"

section \<open>Which anchor a transaction gets\<close>

lemma str_less_iff: "str_less a b \<longleftrightarrow> map byte_of a < map byte_of b"
  by (induction a b rule: str_less.induct) auto

interpretation later_claim: ranking replaces
  by unfold_locales (auto simp: replaces_def str_less_iff)

definition eligible :: "string list \<Rightarrow> string \<Rightarrow> event list \<Rightarrow> event list" where
  "eligible txIDs x evs = (if x \<noteq> [] \<and> x \<in> set txIDs then filter (\<lambda>e. first_tag ''x'' (ev_tags e) = x) evs else [])"

lemma batch_foldl:
  "foldl (batch_step txIDs) m evs x
    = foldl (\<lambda>o' e. case o' of None \<Rightarrow> Some e | Some y \<Rightarrow> if replaces e y then Some e else Some y) (m x) (eligible txIDs x evs)"
proof (induction evs arbitrary: m)
  case (Cons e evs)
  have "batch_step txIDs m e x = (if x \<noteq> [] \<and> x \<in> set txIDs \<and> first_tag ''x'' (ev_tags e) = x
      then (case m x of None \<Rightarrow> Some e | Some y \<Rightarrow> if replaces e y then Some e else Some y) else m x)"
    by (auto simp: batch_step_def Let_def split: option.splits)
  then show ?case using Cons.IH[of "batch_step txIDs m e"] by (simp add: eligible_def)
qed (simp add: eligible_def)

lemma batch_concat:
  "foldl (queryRelayForBatch txIDs) m evss = foldl (batch_step txIDs) m (concat evss)"
  by (induction evss arbitrary: m) (simp_all add: queryRelayForBatch_def)

lemma batch_best:
  "case findAnchorEventsForTransactionsBatch env txIDs x of
     None \<Rightarrow> eligible txIDs x (concat (sy_answers env txIDs)) = []
   | Some b \<Rightarrow> b \<in> set (eligible txIDs x (concat (sy_answers env txIDs)))
       \<and> (\<forall>e\<in>set (eligible txIDs x (concat (sy_answers env txIDs))). \<not> replaces e b)"
proof (cases "txIDs = []")
  case False
  then show ?thesis
    using later_claim.best_of[of None "eligible txIDs x (concat (sy_answers env txIDs))"]
    by (auto simp: findAnchorEventsForTransactionsBatch_def batch_concat batch_foldl split: option.splits)
qed (simp add: findAnchorEventsForTransactionsBatch_def eligible_def)

lemma batch_some:
  "findAnchorEventsForTransactionsBatch env txIDs x = Some b \<Longrightarrow>
     b \<in> set (concat (sy_answers env txIDs)) \<and> first_tag ''x'' (ev_tags b) = x \<and> x \<in> set txIDs"
  using batch_best[where env = env and txIDs = txIDs and x = x] by (auto simp: eligible_def split: if_splits)

text \<open>
  C17.  Latest claim wins, whatever the interleaving of the relay workers: when an id and a time
  name one event, the anchor taken for a transaction is the event, of all that any relay
  returned and whose first x tag names it, that is later than every other one or equally old
  with a larger id.
\<close>

theorem latest_claim_wins:
  assumes "inj_on (\<lambda>e. (ev_created_at e, ev_id e)) (set (concat (sy_answers env txIDs)))"
  shows "findAnchorEventsForTransactionsBatch env txIDs x = Some ev \<longleftrightarrow>
     x \<noteq> [] \<and> x \<in> set txIDs \<and> ev \<in> set (concat (sy_answers env txIDs)) \<and> first_tag ''x'' (ev_tags ev) = x
     \<and> (\<forall>e\<in>set (concat (sy_answers env txIDs)). first_tag ''x'' (ev_tags e) = x \<longrightarrow> e \<noteq> ev \<longrightarrow>
          ev_created_at e < ev_created_at ev \<or> ev_created_at e = ev_created_at ev \<and> str_less (ev_id e) (ev_id ev))"
proof -
  let ?E = "eligible txIDs x (concat (sy_answers env txIDs))"
  have total: "replaces e f \<or> replaces f e" if m: "e \<in> set ?E" "f \<in> set ?E" "e \<noteq> f" for e f
  proof -
    have "(ev_created_at e, ev_id e) \<noteq> (ev_created_at f, ev_id f)"
      using m inj_onD[OF assms, of e f] by (auto simp: eligible_def split: if_splits)
    moreover have "inj byte_of" by (simp add: inj_def)
    then have "map byte_of a = map byte_of b \<longleftrightarrow> a = b" for a b by (rule inj_map_eq_map)
    ultimately show ?thesis using linorder_less_linear[of "map byte_of (ev_id e)" "map byte_of (ev_id f)"]
      by (auto simp: replaces_def str_less_iff)
  qed
  have rep: "replaces ev e \<longleftrightarrow> ev_created_at e < ev_created_at ev \<or> ev_created_at e = ev_created_at ev \<and> str_less (ev_id e) (ev_id ev)" for e
    by (auto simp: replaces_def)
  have "findAnchorEventsForTransactionsBatch env txIDs x = Some ev \<longleftrightarrow> ev \<in> set ?E \<and> (\<forall>e\<in>set ?E. e \<noteq> ev \<longrightarrow> replaces ev e)"
    (is "?m = Some ev \<longleftrightarrow> ?r")
  proof
    assume "?m = Some ev"
    then show ?r using batch_best[where env = env and txIDs = txIDs and x = x] total by auto
  next
    assume r: ?r
    then obtain b where b: "?m = Some b" "b \<in> set ?E" "\<forall>e\<in>set ?E. \<not> replaces e b"
      using batch_best[where env = env and txIDs = txIDs and x = x] by (cases ?m) auto
    then show "?m = Some ev" using r by auto
  qed
  then show ?thesis unfolding rep[symmetric] by (auto simp: eligible_def split: if_splits)
qed

section \<open>What storing anchors keeps\<close>

text \<open>The database a run leaves, whether it ends or panics.\<close>

definition outcome_db :: "(database, database) res \<Rightarrow> database" where
  "outcome_db r = (case r of Inl d \<Rightarrow> d | Inr d \<Rightarrow> d)"

lemma outcome_db_simps [simp]: "outcome_db (Inl d) = d" "outcome_db (Inr d) = d"
  by (simp_all add: outcome_db_def)

text \<open>A row of the transaction table changes only by being marked as anchored.\<close>

definition anchored_from :: "btx_row \<Rightarrow> btx_row \<Rightarrow> bool" where
  "anchored_from r s \<longleftrightarrow> s = r \<or> (\<exists>a. s = r\<lparr>t_has_anchor := True, t_anchor_id := Some a\<rparr>)"

lemma anchored_from_refl: "list_all2 anchored_from t t"
  by (simp add: list_all2_refl anchored_from_def)

lemma anchored_from_trans:
  "list_all2 anchored_from t u \<Longrightarrow> list_all2 anchored_from u v \<Longrightarrow> list_all2 anchored_from t v"
  by (rule list_all2_trans[of anchored_from anchored_from]) (auto simp: anchored_from_def)

lemma anchored_from_fields:
  "anchored_from r s \<Longrightarrow> t_id s = t_id r \<and> t_bitcoin_block s = t_bitcoin_block r \<and> t_dnn_block s = t_dnn_block r
    \<and> t_position s = t_position r \<and> t_address s = t_address r \<and> t_fee_rate s = t_fee_rate r
    \<and> t_checked_at s = t_checked_at r \<and> t_discovered_at s = t_discovered_at r \<and> (t_has_anchor r \<longrightarrow> t_has_anchor s)"
  by (auto simp: anchored_from_def)

lemma mark_anchored:
  "list_all2 anchored_from t (update_where P (\<lambda>r. r\<lparr>t_has_anchor := True, t_anchor_id := Some a\<rparr>) t)"
  by (induction t) (auto simp: update_where_def anchored_from_def)

text \<open>Everything but the transactions' marks and the four event tables stays.\<close>

definition chain_kept :: "database \<Rightarrow> database \<Rightarrow> bool" where
  "chain_kept d d' \<longleftrightarrow> dnn_blocks d' = dnn_blocks d \<and> sync_state d' = sync_state d \<and> tx_block_index d' = tx_block_index d
     \<and> list_all2 anchored_from (bitcoin_transactions d) (bitcoin_transactions d')"

lemma chain_kept_refl [simp]: "chain_kept d d"
  by (simp add: chain_kept_def anchored_from_refl)

lemma chain_kept_trans: "chain_kept d e \<Longrightarrow> chain_kept e f \<Longrightarrow> chain_kept d f"
  using anchored_from_trans by (auto simp: chain_kept_def)

lemma put_anchor_kept: "chain_kept d (put_anchor row d)"
  by (simp add: chain_kept_def put_anchor_def UpdateBitcoinTransactionWithAnchor_def mark_anchored)

lemma StoreAnchorEvent_kept: "StoreAnchorEvent ev b n p d = Inr d' \<Longrightarrow> chain_kept d d'"
proof (elim StoreAnchorEvent_cases)
  fix c
  let ?row = "anchor_row_of ev b n p"
  let ?d1 = "d\<lparr>anchor_events := delete_where (\<lambda>r. r_id r = r_id c) (anchor_events d)\<rparr>"
  assume "d' = put_anchor ?row ?d1"
  moreover have "chain_kept d ?d1" by (simp add: chain_kept_def anchored_from_refl)
  ultimately show "chain_kept d d'" using put_anchor_kept chain_kept_trans by blast
qed (simp_all add: put_anchor_kept)

lemma fetch_kept: "chain_kept d (fetchAndStoreReferencedEvents decode remote ev d)"
  by (auto simp: chain_kept_def fetchAndStoreReferencedEvents_def Let_def store_opt_def StoreMetadataEvent_def
      StoreConnectionEvent_def StoreNameEvent_def anchored_from_refl split: option.splits)

lemma store_found_kept: "chain_kept d (outcome_db (store_found env e b n p ev d))"
proof (cases "StoreAnchorEventHooked (fetch_refs env) ev b n p d")
  case (Inl x)
  then show ?thesis by (auto simp: store_found_def split: db_error.splits)
next
  case (Inr d')
  then obtain d1 where "StoreAnchorEvent ev b n p d = Inr d1" "d' = d1 \<or> d' = fetch_refs env ev d1"
    by (rule StoreAnchorEventHooked_ok)
  then have "chain_kept d d'" using StoreAnchorEvent_kept fetch_kept chain_kept_trans by blast
  then show ?thesis using Inr fetch_kept chain_kept_trans by (auto simp: store_found_def)
qed

lemma store_anchors_kept: "chain_kept d (outcome_db (store_anchors env e found b n ps d))"
proof (induction ps arbitrary: d)
  case (Cons p ps)
  show ?case
  proof (cases "found (v_TxID (snd p))")
    case (Some ev)
    note k = store_found_kept[of d env e b n "int (fst p) + 1" ev]
    show ?thesis
      using k Cons.IH chain_kept_trans Some by (cases "store_found env e b n (int (fst p) + 1) ev d") fastforce+
  qed (simp add: Cons.IH)
qed simp

section \<open>The height of the synchronisation\<close>

lemma kept_lookup:
  "chain_kept d d' \<Longrightarrow> GetBitcoinBlockHash b d' = GetBitcoinBlockHash b d"
  "chain_kept d d' \<Longrightarrow> aligned g d' = aligned g d"
  "chain_kept d d' \<Longrightarrow> GetSyncState k d' = GetSyncState k d"
  by (simp_all add: chain_kept_def GetBitcoinBlockHash_def aligned_def GetSyncState_def)

lemma store_txs_frame [simp]:
  "dnn_blocks (store_txs env b n vs d) = dnn_blocks d" "sync_state (store_txs env b n vs d) = sync_state d"
proof -
  have "dnn_blocks (foldl (store_tx env b n) d ps) = dnn_blocks d \<and> sync_state (foldl (store_tx env b n) d ps) = sync_state d" for ps
    by (induction ps arbitrary: d) (simp_all add: store_tx_def StoreBitcoinTransaction_def)
  then show "dnn_blocks (store_txs env b n vs d) = dnn_blocks d" "sync_state (store_txs env b n vs d) = sync_state d"
    by (simp_all add: store_txs_def)
qed

lemma process_block_chain:
  assumes "aligned (GetGenesisBlock (ch_network env)) d"
    and d'_def: "d' = outcome_db (process_block env e b h block d)"
  shows "GetBitcoinBlockHash c d' = (if c = b then Ok h else GetBitcoinBlockHash c d)"
    and "aligned (GetGenesisBlock (ch_network env)) d'" and "GetSyncState k d' = GetSyncState k d"
proof -
  let ?g = "GetGenesisBlock (ch_network env)"
  let ?d1 = "CreateOrUpdateDNNBlock (ch_now env) (b - ?g) b h (bk_Time block) d"
  let ?r = "\<lparr> b_number = b - ?g, b_bitcoin = b, b_hash = h, b_timestamp = bk_Time block,
      b_created_at = block_created (b - ?g) (ch_now env) d, b_synced_at = ch_now env \<rparr>"
  have put: "GetBitcoinBlockHash c ?d1 = (if c = b then Ok h else GetBitcoinBlockHash c d)" "aligned ?g ?d1" for c
    using GetBitcoinBlockHash_put[OF assms(1), where d' = ?d1 and r = ?r] by (simp_all add: CreateOrUpdateDNNBlock_def)
  have st: "GetSyncState k ?d1 = GetSyncState k d" for k
    by (simp add: GetSyncState_def CreateOrUpdateDNNBlock_def)
  show "GetBitcoinBlockHash c d' = (if c = b then Ok h else GetBitcoinBlockHash c d)"
    "aligned ?g d'" "GetSyncState k d' = GetSyncState k d"
  proof (atomize(full), cases "findValidDNNTransactions block = []")
    case True
    then show "GetBitcoinBlockHash c d' = (if c = b then Ok h else GetBitcoinBlockHash c d) \<and> aligned ?g d' \<and> GetSyncState k d' = GetSyncState k d"
      using put st by (simp add: d'_def process_block_def Let_def)
  next
    case False
    let ?d2 = "store_txs env b (b - ?g) (findValidDNNTransactions block) ?d1"
    have k: "chain_kept ?d2 d'"
      using False store_anchors_kept by (simp add: d'_def process_block_def Let_def)
    have "GetBitcoinBlockHash c ?d2 = GetBitcoinBlockHash c ?d1" "aligned ?g ?d2 = aligned ?g ?d1" "GetSyncState k ?d2 = GetSyncState k ?d1"
      by (simp_all add: GetBitcoinBlockHash_def aligned_def GetSyncState_def)
    then show "GetBitcoinBlockHash c d' = (if c = b then Ok h else GetBitcoinBlockHash c d) \<and> aligned ?g d' \<and> GetSyncState k d' = GetSyncState k d"
      using kept_lookup[OF k] put st by metis
  qed
qed

text \<open>No height between the genesis block and the recorded one is missing from the block table.\<close>

definition gap_free :: "('a chain_env_scheme) \<Rightarrow> database \<Rightarrow> bool" where
  "gap_free env d \<longleftrightarrow> list_all (\<lambda>b. GetBitcoinBlockHash b d \<noteq> Err DBlockNotFound)
     [GetGenesisBlock (ch_network env)..last_synced env d]"

lemma gap_free_iff:
  "gap_free env d \<longleftrightarrow> (\<forall>b. GetGenesisBlock (ch_network env) \<le> b \<and> b \<le> last_synced env d \<longrightarrow> GetBitcoinBlockHash b d \<noteq> Err DBlockNotFound)"
  by (auto simp: gap_free_def list_all_iff)

lemma show_int_nonempty [simp]: "show_int i \<noteq> []"
  by (simp add: show_int_def)

lemma last_synced_update: "in64 b \<Longrightarrow> last_synced env (UpdateSyncState ''last_synced_block'' (show_int b) d) = b"
  by (simp add: last_synced_def parse_show_int)

lemma last_synced_cong:
  "GetSyncState ''last_synced_block'' d' = GetSyncState ''last_synced_block'' d \<Longrightarrow> last_synced env d' = last_synced env d"
  by (simp add: last_synced_def)

lemma aligned_state: "aligned g (UpdateSyncState k v d) = aligned g d"
  by (simp add: aligned_def UpdateSyncState_def)

lemma sync_blocks_chain:
  assumes "aligned (GetGenesisBlock (ch_network env)) d" "last_synced env d = b - 1" "in64 e" "- 9223372036854775808 \<le> b"
    "sync_blocks env l [b..e] d = (r, d')"
  shows "aligned (GetGenesisBlock (ch_network env)) d' \<and> b - 1 \<le> last_synced env d' \<and> last_synced env d' \<le> max (b - 1) e
    \<and> (\<forall>c. b \<le> c \<and> c \<le> last_synced env d' \<longrightarrow> (\<exists>h. ch_GetBlockHash env c = Some h \<and> GetBitcoinBlockHash c d' = Ok h))
    \<and> (\<forall>c<b. GetBitcoinBlockHash c d' = GetBitcoinBlockHash c d)"
  using assms
proof (induction "nat (e - b + 1)" arbitrary: b d)
  case 0
  then have "[b..e] = []" by simp
  then show ?case using 0 by auto
next
  case (Suc n)
  let ?g = "GetGenesisBlock (ch_network env)"
  have be: "b \<le> e" using Suc.hyps(2) by simp
  then have list: "[b..e] = b # [b + 1..e]" by (rule upto_rec1)
  have b64: "in64 b" using be Suc.prems(3,4) by (auto simp: in64_def)
  show ?case
  proof (cases "ch_GetBlockHash env b")
    case (Some h)
    show ?thesis
    proof (cases "diverges env l b h \<or> ch_GetBlockWithInputs env h = None")
      case False
      then obtain block where blk: "ch_GetBlockWithInputs env h = Some block" "\<not> diverges env l b h" by auto
      let ?p = "process_block env True b h block d"
      note P = process_block_chain[OF Suc.prems(1) refl, where e = True and b = b and h = h and block = block]
      have ls: "last_synced env (outcome_db ?p) = b - 1"
        using P(3) last_synced_cong Suc.prems(2) by metis
      show ?thesis
      proof (cases ?p)
        case (Inl d1)
        then have "d' = d1" using Suc.prems(5) Some blk by (simp add: list)
        then show ?thesis using P ls be Inl by auto
      next
        case (Inr d1)
        let ?d2 = "UpdateSyncState ''last_synced_block'' (show_int b) d1"
        have rest: "sync_blocks env l [b + 1..e] ?d2 = (r, d')" using Suc.prems(5) Some blk Inr by (simp add: list)
        have a: "aligned ?g ?d2" "last_synced env ?d2 = (b + 1) - 1" "- 9223372036854775808 \<le> b + 1"
          using P(2) Inr b64 Suc.prems(4) by (simp_all add: aligned_state last_synced_update)
        have n: "n = nat (e - (b + 1) + 1)" using Suc.hyps(2) by simp
        note IH = Suc.hyps(1)[OF n a(1,2) Suc.prems(3) a(3) rest]
        have "GetBitcoinBlockHash b d' = Ok h" "\<And>c. c < b \<Longrightarrow> GetBitcoinBlockHash c d' = GetBitcoinBlockHash c d"
          using IH P(1) Inr by (simp_all add: GetBitcoinBlockHash_state)
        moreover have "\<exists>h. ch_GetBlockHash env c = Some h \<and> GetBitcoinBlockHash c d' = Ok h"
          if "b \<le> c" "c \<le> last_synced env d'" for c
          using IH Some calculation(1) that by (cases "c = b") auto
        ultimately show ?thesis using IH be by auto
      qed
    next
      case True
      then have "d' = d" using Suc.prems(5) Some by (auto simp: list split: if_splits)
      then show ?thesis using Suc.prems be by auto
    qed
  next
    case None
    then have "d' = d" using Suc.prems(5) by (simp add: list)
    then show ?thesis using Suc.prems be by auto
  qed
qed

lemma reorg_range: "GetReorgCheckRange (NewPolicyEnforcer n) height = (s, e) \<Longrightarrow> e = height \<and> GetGenesisBlock n \<le> s"
  by (auto simp: GetReorgCheckRange_def Let_def NewPolicyEnforcer_def split: if_splits)

lemma CheckAndHandleReorg_chain:
  fixes env :: "('a) chain_env_scheme"
  assumes "aligned (GetGenesisBlock (ch_network env)) d" "ch_GetBlockCount env = Some height"
    and d'_def: "d' = snd (CheckAndHandleReorg env n d)"
  shows "aligned (GetGenesisBlock (ch_network env)) d'" "last_synced env d' = last_synced env d"
    "\<And>b. b \<le> height \<Longrightarrow> GetBitcoinBlockHash b d \<noteq> Err DBlockNotFound \<Longrightarrow> GetBitcoinBlockHash b d' \<noteq> Err DBlockNotFound"
    "\<not> ShouldCheckReorg n \<Longrightarrow> GetBitcoinBlockHash b d' = GetBitcoinBlockHash b d"
proof (atomize(full), goal_cases)
  case 1
  let ?g = "GetGenesisBlock (ch_network env)"
  let ?P = "\<lambda>d'. aligned ?g d' \<and> last_synced env d' = last_synced env d
    \<and> (\<forall>b\<le>height. GetBitcoinBlockHash b d \<noteq> Err DBlockNotFound \<longrightarrow> GetBitcoinBlockHash b d' \<noteq> Err DBlockNotFound)"
  have time: "?P (UpdateReorgCheckTime t d)" for t
    using assms(1) by (simp add: UpdateReorgCheckTime_def aligned_state last_synced_def GetBitcoinBlockHash_state)
  have main: "?P d' \<and> (\<not> ShouldCheckReorg n \<longrightarrow> d' = d)"
  proof (cases "ShouldCheckReorg n")
    case True
    obtain s e where se: "GetReorgCheckRange (NewPolicyEnforcer (ch_network env)) height = (s, e)" by force
    note r = reorg_range[OF se]
    have "s > 0" using r genesis_positive[of "ch_network env"] by linarith
    note scan = scan_range_first[OF this, of env d e]
    show ?thesis
    proof (cases "filter (hash_differs env d) [s..e]")
      case Nil
      then have "d' = UpdateReorgCheckTime (ch_time env) d"
        using scan se assms(2) True by (simp add: d'_def CheckAndHandleReorg_def)
      then show ?thesis using time True by simp
    next
      case (Cons b bs)
      note f = filter_upto_first[OF Cons]
      have dd: "d' = snd (handleReorg env b d)"
        using Cons scan se assms(2) True by (simp add: d'_def CheckAndHandleReorg_def)
      show ?thesis
      proof (cases "fst (handleReorg env b d)")
        case (Inl x)
        then have "d' = d" unfolding dd by (auto simp: handleReorg_def Let_def split: option.splits sum.splits)
        then show ?thesis using assms(1) by simp
      next
        case (Inr u)
        then have h: "handleReorg env b d = (Ok (), d')" unfolding dd by (metis prod.collapse old.unit.exhaust)
        have "?g \<le> b" "b \<le> height" using f r by auto
        note F = recovery_facts[OF h assms(1) this(1) assms(2) this(2)]
        have "GetBitcoinBlockHash c d' \<noteq> Err DBlockNotFound"
          if "c \<le> height" "GetBitcoinBlockHash c d \<noteq> Err DBlockNotFound" for c
          using F(1)[of c] F(2)[of c] that by (cases "c < b") auto
        then show ?thesis using F(4) last_synced_cong[OF F(5), of env] True by blast
      qed
    qed
  next
    case False
    then show ?thesis using assms(1) by (simp add: d'_def CheckAndHandleReorg_def)
  qed
  then show ?case by auto
qed

section \<open>Properties of the synchronisation\<close>

lemma batch_leaves_no_gap:
  assumes "aligned (GetGenesisBlock (ch_network env)) d" "gap_free env d" "0 \<le> sy_BlockBatchSize env"
    and "in64 (last_synced env d)" "in64 height" "last_synced env d < height"
    and s: "sync_blocks env (last_synced env d) [last_synced env d + 1..batch_end env height d] d = (r, d1)"
  shows "gap_free env d1" "aligned (GetGenesisBlock (ch_network env)) d1"
    "last_synced env d \<le> last_synced env d1" "last_synced env d1 \<le> height"
proof -
  let ?g = "GetGenesisBlock (ch_network env)" and ?L = "last_synced env d" and ?e = "batch_end env height d"
  have e: "?e \<le> height" "?L \<le> ?e" using assms(3,6) by (simp_all add: batch_end_def Let_def)
  then have e64: "in64 ?e" using assms(4,5) by (simp add: in64_def)
  have "last_synced env d = (?L + 1) - 1" "- 9223372036854775808 \<le> ?L + 1" using assms(4) by (simp_all add: in64_def)
  note S = sync_blocks_chain[OF assms(1) this(1) e64 this(2) s]
  show "gap_free env d1"
  proof (unfold gap_free_iff, intro allI impI)
    fix b assume b: "?g \<le> b \<and> b \<le> last_synced env d1"
    show "GetBitcoinBlockHash b d1 \<noteq> Err DBlockNotFound"
    proof (cases "b \<le> ?L")
      case True
      then have "GetBitcoinBlockHash b d1 = GetBitcoinBlockHash b d" using S by simp
      then show ?thesis using True b assms(2) by (simp add: gap_free_iff)
    next
      case False
      then have "\<exists>h. ch_GetBlockHash env b = Some h \<and> GetBitcoinBlockHash b d1 = Ok h" using S b by auto
      then show ?thesis by auto
    qed
  qed
  show "aligned ?g d1" "?L \<le> last_synced env d1" "last_synced env d1 \<le> height" using S e assms(6) by auto
qed

text \<open>The end of a batch that was not interrupted: the time, and the check for a reorganisation.\<close>

lemma batch_end_leaves_no_gap:
  assumes "aligned (GetGenesisBlock (ch_network env)) d1" "gap_free env d1" "ch_GetBlockCount env = Some height"
    and "last_synced env d1 \<le> height"
    and "d' = snd (CheckAndHandleReorg env n (UpdateSyncState ''last_sync_time'' (ch_time env) d1))"
  shows "gap_free env d'" "aligned (GetGenesisBlock (ch_network env)) d'" "last_synced env d' = last_synced env d1"
proof -
  let ?d2 = "UpdateSyncState ''last_sync_time'' (ch_time env) d1"
  have a: "aligned (GetGenesisBlock (ch_network env)) ?d2" "last_synced env ?d2 = last_synced env d1"
    "GetBitcoinBlockHash b ?d2 = GetBitcoinBlockHash b d1" for b
    using assms(1) by (simp_all add: aligned_state last_synced_def GetBitcoinBlockHash_state)
  note C = CheckAndHandleReorg_chain[OF a(1) assms(3) refl, where n = n]
  show "gap_free env d'"
    unfolding assms(5) gap_free_iff C(2) a(2)
    using C(3) assms(2,4) unfolding gap_free_iff a(3) by (meson order_trans)
  show "aligned (GetGenesisBlock (ch_network env)) d'" "last_synced env d' = last_synced env d1"
    unfolding assms(5) using C(1,2) a(2) by simp_all
qed

text \<open>
  C15.  The sync leaves no gap: from a database without gaps \<open>syncBitcoin\<close> ends, whatever fails on
  the way (the client, the validator, a panic, a reorganisation found at the end), in a database
  without gaps whose recorded height has not gone down and is at most the chain's.
\<close>

theorem sync_leaves_no_gap:
  assumes "aligned (GetGenesisBlock (ch_network env)) d" "gap_free env d"
    and "0 \<le> sy_BlockBatchSize env" "in64 (last_synced env d)"
    and "\<forall>height. ch_GetBlockCount env = Some height \<longrightarrow> in64 height"
  shows "gap_free env (snd (syncBitcoin env d)) \<and> aligned (GetGenesisBlock (ch_network env)) (snd (syncBitcoin env d))
    \<and> last_synced env d \<le> last_synced env (snd (syncBitcoin env d))
    \<and> (last_synced env d < last_synced env (snd (syncBitcoin env d)) \<longrightarrow>
        (\<exists>height. ch_GetBlockCount env = Some height \<and> last_synced env (snd (syncBitcoin env d)) \<le> height))"
proof (cases "\<exists>height. ch_GetBlockCount env = Some height \<and> last_synced env d < height")
  case False
  then have "snd (syncBitcoin env d) = d" by (auto simp: syncBitcoin_def Let_def split: option.splits)
  then show ?thesis using assms by simp
next
  case True
  then obtain height where h: "ch_GetBlockCount env = Some height" "last_synced env d < height" by blast
  obtain r d1 where s: "sync_blocks env (last_synced env d) [last_synced env d + 1..batch_end env height d] d = (r, d1)" by fastforce
  have "in64 height" using assms(5) h(1) by blast
  note B = batch_leaves_no_gap[OF assms(1-4) this h(2) s]
  show ?thesis
  proof (cases r)
    case Stopped
    then have "snd (syncBitcoin env d) = snd (CheckAndHandleReorg env (batch_end env height d - GetGenesisBlock (ch_network env))
        (UpdateSyncState ''last_sync_time'' (ch_time env) d1))"
      using h s by (simp add: syncBitcoin_def Let_def)
    from batch_end_leaves_no_gap[OF B(2,1) h(1) B(4) this] show ?thesis using B(3,4) h(1) by auto
  qed (use B h s in \<open>auto simp: syncBitcoin_def Let_def\<close>)
qed

definition quiet_env :: sync_env where
  "quiet_env = \<lparr> ch_network = ''dev'', ch_now = 9, ch_time = ''now'', ch_GetBlockCount = Some 940002,
     ch_GetBlockHash = (\<lambda>b. Some ''h''), ch_GetBlock = (\<lambda>h. None),
     ch_GetBlockWithInputs = (\<lambda>h. Some \<lparr> bk_Hash = h, bk_Height = 0, bk_Time = 5, bk_Transactions = [] \<rparr>),
     ch_rest = None, sy_BlockBatchSize = 10, sy_answers = (\<lambda>_. []), sy_nip19 = (\<lambda>_. None), sy_remote = (\<lambda>_ _ _. None),
     sy_BlockHashForTx = (\<lambda>_. Some ''h''), sy_HeightForHash = (\<lambda>_. Some 940001) \<rparr>"

definition claim_event :: "string \<Rightarrow> int \<Rightarrow> event" where
  "claim_event i t = \<lparr> ev_id = i, ev_pubkey = ''p1'', ev_created_at = t, ev_kind = 60600, ev_tags = [[''x'', ''ab'']],
     ev_content = [], ev_sig = [] \<rparr>"

theorem latest_claim_wins_witness:
  "findAnchorEventsForTransactionsBatch (quiet_env\<lparr>sy_answers := (\<lambda>_. [[claim_event ''e1'' 5], [claim_event ''e2'' 6]])\<rparr>) [''ab''] ''ab''
     = Some (claim_event ''e2'' 6)"
  by (rule latest_claim_wins[THEN iffD2]) (auto simp: claim_event_def first_tag_def tag_is_def)

lemma quiet_env_start: "last_synced quiet_env empty_db = 939999" "aligned (GetGenesisBlock (ch_network quiet_env)) empty_db"
  "gap_free quiet_env empty_db"
  by code_simp+

theorem sync_leaves_no_gap_witness:
  "gap_free quiet_env (snd (syncBitcoin quiet_env empty_db))"
proof -
  have "\<forall>height. ch_GetBlockCount quiet_env = Some height \<longrightarrow> in64 height" by (simp add: quiet_env_def in64_def)
  moreover have "0 \<le> sy_BlockBatchSize quiet_env" by (simp add: quiet_env_def)
  ultimately show ?thesis
    using sync_leaves_no_gap[OF quiet_env_start(2,3)] quiet_env_start(1) by (simp add: in64_def)
qed

text \<open>
  \<open>SyncSpecificBlock\<close> breaks this: synchronising a block beyond the next one by hand moves the
  recorded height to it although the next height is not stored, and the sync never goes back
  for it: after any further \<open>syncBitcoin\<close> in which no reorganisation check is due it is still
  missing.
\<close>

lemma manual_sync_skips_blocks:
  assumes "aligned (GetGenesisBlock (ch_network env)) d" "GetBitcoinBlockHash (last_synced env d + 1) d = Err DBlockNotFound"
    and "parse_int64 (GetSyncState ''last_synced_block'' d) = Some (last_synced env d)"
    and "GetGenesisBlock (ch_network env) \<le> last_synced env d + 1" "last_synced env d + 1 < b" "in64 b" "SyncSpecificBlock env b d = (SyncDone, d')"
    and "ch_network env' = ch_network env" "ch_GetBlockCount env' = Some height" "in64 height" "0 \<le> sy_BlockBatchSize env'"
    and "\<not> ShouldCheckReorg (batch_end env' height d' - GetGenesisBlock (ch_network env'))"
  shows "last_synced env d' = b \<and> \<not> gap_free env d'
    \<and> GetBitcoinBlockHash (last_synced env d + 1) (snd (syncBitcoin env' d')) = Err DBlockNotFound"
proof -
  let ?g = "GetGenesisBlock (ch_network env)" and ?m = "last_synced env d + 1"
  obtain h block d1 where p: "process_block env False b h block d = Inr d1"
    and cur: "d' = (if b > (case parse_int64 (GetSyncState ''last_synced_block'' d1) of Some n \<Rightarrow> n | None \<Rightarrow> 0)
       then UpdateSyncState ''last_synced_block'' (show_int b) d1 else d1)"
    using assms(7) by (auto simp: SyncSpecificBlock_def Let_def split: option.splits sum.splits)
  note P = process_block_chain[OF assms(1) refl, where e = False and b = b and h = h and block = block, unfolded p outcome_db_simps]
  have d': "d' = UpdateSyncState ''last_synced_block'' (show_int b) d1"
    using cur P(3)[of "''last_synced_block''"] assms(3,5) by simp
  have last: "last_synced env d' = b" and last': "last_synced env' d' = b"
    using assms(6) by (simp_all add: d' last_synced_update)
  have miss: "GetBitcoinBlockHash ?m d' = Err DBlockNotFound"
    using P(1)[of ?m] assms(2,5) by (simp add: d' GetBitcoinBlockHash_state)
  have al: "aligned (GetGenesisBlock (ch_network env')) d'" using P(2) by (simp add: d' aligned_state assms(8))
  have "GetBitcoinBlockHash ?m (snd (syncBitcoin env' d')) = Err DBlockNotFound"
  proof (cases "b < height")
    case True
    let ?e = "batch_end env' height d'"
    obtain r d2 where s: "sync_blocks env' b [b + 1..?e] d' = (r, d2)" by fastforce
    have e64: "in64 ?e"
      using True assms(6,10,11) last' by (auto simp: batch_end_def Let_def in64_def)
    have "last_synced env' d' = (b + 1) - 1" "- 9223372036854775808 \<le> b + 1" using last' assms(6) by (simp_all add: in64_def)
    note S = sync_blocks_chain[OF al this(1) e64 this(2) s]
    have m2: "GetBitcoinBlockHash ?m d2 = Err DBlockNotFound" using S miss assms(5) by simp
    show ?thesis
    proof (cases r)
      case Stopped
      let ?d3 = "UpdateSyncState ''last_sync_time'' (ch_time env') d2"
      have "snd (syncBitcoin env' d') = snd (CheckAndHandleReorg env' (?e - GetGenesisBlock (ch_network env')) ?d3)"
        using True s Stopped assms(9) last' by (simp add: syncBitcoin_def Let_def)
      moreover have "CheckAndHandleReorg env' (?e - GetGenesisBlock (ch_network env')) ?d3 = (Ok (), ?d3)"
        using assms(12) by (simp add: CheckAndHandleReorg_def)
      ultimately show ?thesis using m2 by (simp add: GetBitcoinBlockHash_state)
    qed (use True s assms(9) last' m2 in \<open>simp_all add: syncBitcoin_def Let_def\<close>)
  next
    case False
    then have "snd (syncBitcoin env' d') = d'" using assms(9) last' by (simp add: syncBitcoin_def Let_def)
    then show ?thesis using miss by simp
  qed
  moreover have "\<not> gap_free env d'"
    unfolding gap_free_iff last using miss assms(4,5) by (metis order.strict_implies_order)
  ultimately show ?thesis using last by blast
qed

definition after_first :: database where
  "after_first = UpdateSyncState ''last_synced_block'' (show_int 940000) empty_db"

lemma manual_sync_skips_blocks_example:
  "\<not> gap_free quiet_env (snd (SyncSpecificBlock quiet_env 940002 after_first))"
proof -
  have l: "last_synced quiet_env after_first = 940000"
    by (simp add: after_first_def last_synced_update in64_def)
  have a: "aligned (GetGenesisBlock (ch_network quiet_env)) after_first"
    unfolding after_first_def aligned_state by (rule quiet_env_start(2))
  have m: "GetBitcoinBlockHash (last_synced quiet_env after_first + 1) after_first = Err DBlockNotFound"
    unfolding l unfolding after_first_def GetBitcoinBlockHash_state by code_simp
  have p: "parse_int64 (GetSyncState ''last_synced_block'' after_first) = Some (last_synced quiet_env after_first)"
    unfolding l by (simp add: after_first_def parse_show_int in64_def)
  have r: "fst (SyncSpecificBlock quiet_env 940002 after_first) = SyncDone"
    by (simp add: SyncSpecificBlock_def quiet_env_def process_block_def findValidDNNTransactions_def sort_Slice_def Let_def)
  then have s: "SyncSpecificBlock quiet_env 940002 after_first = (SyncDone, snd (SyncSpecificBlock quiet_env 940002 after_first))"
    by (metis prod.collapse)
  have g: "GetGenesisBlock (ch_network quiet_env) \<le> last_synced quiet_env after_first + 1" unfolding l by code_simp
  let ?env = "quiet_env\<lparr>ch_GetBlockCount := Some 940000\<rparr>"
  have "batch_end ?env 940000 d \<le> 940000" for d by (simp add: batch_end_def Let_def)
  moreover have "GetGenesisBlock (ch_network ?env) = 940000" by code_simp
  ultimately have n: "\<not> ShouldCheckReorg (batch_end ?env 940000 d - GetGenesisBlock (ch_network ?env))" for d
    by (simp add: ShouldCheckReorg_def not_less)
  have "last_synced quiet_env after_first + 1 < 940002" "in64 940002" "in64 940000" by (simp_all add: l in64_def)
  then show ?thesis
    using manual_sync_skips_blocks[OF a m p g _ _ s _ _ _ _ n] by (simp add: quiet_env_def)
qed

section \<open>The rows of a block\<close>

lemma findValid_ids:
  "set (map v_TxID (findValidDNNTransactions block)) \<subseteq> set (map tx_TxID (bk_Transactions block))"
  "distinct (map tx_TxID (bk_Transactions block)) \<Longrightarrow> distinct (map v_TxID (findValidDNNTransactions block))"
proof -
  have c: "map fst (claims txs) = map tx_TxID (filter (\<lambda>tx. isValidDNNTransaction tx \<noteq> None) txs)" for txs
    by (induction txs) (auto simp: claims_def)
  have "mset (map v_TxID (findValidDNNTransactions block)) = mset (map fst (claims (bk_Transactions block)))"
    using arg_cong[OF findValid_spec(1)[of block], of "image_mset fst"]
    by (simp add: multiset.map_comp comp_def claim_of_def)
  then have m: "mset (map v_TxID (findValidDNNTransactions block))
      = mset (map tx_TxID (filter (\<lambda>tx. isValidDNNTransaction tx \<noteq> None) (bk_Transactions block)))" unfolding c .
  show "set (map v_TxID (findValidDNNTransactions block)) \<subseteq> set (map tx_TxID (bk_Transactions block))"
    using mset_eq_setD[OF m] by auto
  show "distinct (map tx_TxID (bk_Transactions block)) \<Longrightarrow> distinct (map v_TxID (findValidDNNTransactions block))"
    using mset_eq_imp_distinct_iff[OF m] by (simp add: distinct_map_filter)
qed

definition new_row :: "sync_env \<Rightarrow> int \<Rightarrow> int \<Rightarrow> nat \<times> valid_tx \<Rightarrow> btx_row" where
  "new_row env b n p = \<lparr> t_id = v_TxID (snd p), t_bitcoin_block = b, t_dnn_block = n, t_position = int (fst p) + 1,
     t_address = v_Address (snd p), t_fee_rate = int (v_Sum (snd p)), t_tie_position = v_TiePosition (snd p),
     t_tie_digit = v_TieDigit (snd p), t_discovered_at = ch_now env, t_has_anchor = False, t_anchor_id = None, t_checked_at = None \<rparr>"

lemma store_tx_rows: "bitcoin_transactions (store_tx env b n d p) = insert_or_ignore btx_clash (new_row env b n p) (bitcoin_transactions d)"
  by (simp add: store_tx_def StoreBitcoinTransaction_def new_row_def)

lemma store_txs_new:
  assumes "distinct (map v_TxID vs)" "\<And>r. r \<in> set (bitcoin_transactions d) \<Longrightarrow> t_id r \<notin> v_TxID ` set vs"
    "\<And>r. r \<in> set (bitcoin_transactions d) \<Longrightarrow> t_bitcoin_block r = b \<Longrightarrow> t_position r \<le> int k"
  shows "bitcoin_transactions (foldl (store_tx env b n) d (enumerate k vs))
    = bitcoin_transactions d @ map (new_row env b n) (enumerate k vs)"
  using assms
proof (induction vs arbitrary: d k)
  case (Cons v vs)
  have "\<not> list_ex (btx_clash (new_row env b n (k, v))) (bitcoin_transactions d)"
    using Cons.prems(2,3) by (fastforce simp: list_ex_iff btx_clash_def new_row_def)
  then have step: "bitcoin_transactions (store_tx env b n d (k, v)) = bitcoin_transactions d @ [new_row env b n (k, v)]"
    by (simp add: store_tx_rows insert_or_ignore_def)
  have "bitcoin_transactions (foldl (store_tx env b n) (store_tx env b n d (k, v)) (enumerate (Suc k) vs))
      = bitcoin_transactions (store_tx env b n d (k, v)) @ map (new_row env b n) (enumerate (Suc k) vs)"
  proof (rule Cons.IH)
    show "distinct (map v_TxID vs)" using Cons.prems(1) by simp
    fix r assume "r \<in> set (bitcoin_transactions (store_tx env b n d (k, v)))"
    then have r: "r \<in> set (bitcoin_transactions d) \<or> r = new_row env b n (k, v)" by (auto simp: step)
    then show "t_id r \<notin> v_TxID ` set vs"
      using Cons.prems(1,2) by (auto simp: new_row_def)
    have "t_position (new_row env b n (k, v)) = int (Suc k)" by (simp add: new_row_def)
    then show "t_position r \<le> int (Suc k)" if "t_bitcoin_block r = b"
      using r Cons.prems(3)[of r] that by (elim disjE) auto
  qed
  then show ?case by (simp add: step)
qed simp

lemma store_txs_subset:
  "set (bitcoin_transactions (foldl (store_tx env b n) d ps)) \<subseteq> set (bitcoin_transactions d)
     \<union> {r. \<exists>p\<in>set ps. r = new_row env b n p \<and> \<not> (\<exists>s\<in>set (bitcoin_transactions d). btx_clash r s)}
   \<and> set (bitcoin_transactions d) \<subseteq> set (bitcoin_transactions (foldl (store_tx env b n) d ps))"
proof (induction ps arbitrary: d)
  case (Cons p ps)
  have "set (bitcoin_transactions (store_tx env b n d p)) =
      (if \<exists>s\<in>set (bitcoin_transactions d). btx_clash (new_row env b n p) s then set (bitcoin_transactions d)
       else insert (new_row env b n p) (set (bitcoin_transactions d)))"
    by (simp add: store_tx_rows btx_table.ignore_set)
  then show ?case using Cons.IH[of "store_tx env b n d p"] by (auto split: if_splits)
qed simp

lemma find_append:
  "find P (xs @ ys) = (case find P xs of None \<Rightarrow> find P ys | Some x \<Rightarrow> Some x)"
  by (induction xs) auto

lemma find_list_all2:
  "list_all2 R t u \<Longrightarrow> (\<And>r s. R r s \<Longrightarrow> P r \<longleftrightarrow> P s) \<Longrightarrow> rel_option R (find P t) (find P u)"
  by (induction rule: list_all2_induct) auto

lemma kept_transaction:
  assumes "chain_kept d d'"
  shows "rel_option anchored_from (GetBitcoinTransaction x d) (GetBitcoinTransaction x d')"
  unfolding GetBitcoinTransaction_def
  using assms by (intro find_list_all2) (auto simp: chain_kept_def dest: anchored_from_fields)

lemma process_block_rows:
  "chain_kept (store_txs env b (b - GetGenesisBlock (ch_network env)) (findValidDNNTransactions block)
       (CreateOrUpdateDNNBlock (ch_now env) (b - GetGenesisBlock (ch_network env)) b h (bk_Time block) d))
     (outcome_db (process_block env e b h block d))"
proof (cases "findValidDNNTransactions block = []")
  case True
  then show ?thesis unfolding process_block_def Let_def by (simp add: store_txs_def)
next
  case False
  then show ?thesis unfolding process_block_def Let_def by (simp add: store_anchors_kept)
qed

text \<open>
  A block synchronised for the first time is numbered in the database as it is ranked: the
  transaction of rank \<open>i\<close> (from zero) has a row with position \<open>i + 1\<close> in the block and its DNN
  number, with its address and digit sum.
\<close>

lemma block_positions_are_stored:
  assumes "distinct (map tx_TxID (bk_Transactions block))" "i < length (findValidDNNTransactions block)"
    and "\<forall>r\<in>set (bitcoin_transactions d). t_bitcoin_block r \<noteq> b \<and> t_id r \<notin> set (map tx_TxID (bk_Transactions block))"
  shows "\<exists>r. GetBitcoinTransaction (v_TxID (findValidDNNTransactions block ! i)) (outcome_db (process_block env e b h block d)) = Some r
    \<and> t_bitcoin_block r = b \<and> t_dnn_block r = b - GetGenesisBlock (ch_network env) \<and> t_position r = int i + 1
    \<and> t_address r = v_Address (findValidDNNTransactions block ! i) \<and> t_fee_rate r = int (v_Sum (findValidDNNTransactions block ! i))"
proof -
  let ?vs = "findValidDNNTransactions block" and ?n = "b - GetGenesisBlock (ch_network env)"
  let ?d1 = "CreateOrUpdateDNNBlock (ch_now env) ?n b h (bk_Time block) d"
  let ?d2 = "store_txs env b ?n ?vs ?d1"
  have tx1: "bitcoin_transactions ?d1 = bitcoin_transactions d" by (simp add: CreateOrUpdateDNNBlock_def)
  have dist: "distinct (map v_TxID ?vs)" by (rule findValid_ids(2)[OF assms(1)])
  have fresh: "t_id r \<notin> v_TxID ` set ?vs" if "r \<in> set (bitcoin_transactions ?d1)" for r
    using assms(3) that findValid_ids(1)[of block] unfolding tx1 set_map by (metis subsetD)
  have rows: "bitcoin_transactions ?d2 = bitcoin_transactions d @ map (new_row env b ?n) (enumerate 0 ?vs)"
    unfolding store_txs_def tx1[symmetric]
    by (rule store_txs_new[OF dist]) (use fresh assms(3) tx1 in auto)
  let ?x = "v_TxID (?vs ! i)"
  have none: "find (\<lambda>r. t_id r = ?x) (bitcoin_transactions d) = None"
    unfolding find_None_iff using fresh nth_mem[OF assms(2)] unfolding tx1 by (metis imageI)
  have "find (\<lambda>r. t_id r = ?x) (map (new_row env b ?n) (enumerate 0 ?vs)) = Some (new_row env b ?n (i, ?vs ! i))"
  proof (rule find_Some_iff[THEN iffD2], intro exI[of _ i] conjI allI impI)
    fix j assume j: "j < i"
    then have "v_TxID (?vs ! j) \<noteq> ?x" using dist assms(2) by (simp add: distinct_conv_nth)
    then show "t_id (map (new_row env b ?n) (enumerate 0 ?vs) ! j) \<noteq> ?x"
      using j assms(2) by (simp add: new_row_def nth_enumerate_eq)
  qed (use assms(2) in \<open>simp_all add: nth_enumerate_eq new_row_def\<close>)
  then have "GetBitcoinTransaction ?x ?d2 = Some (new_row env b ?n (i, ?vs ! i))"
    using none unfolding GetBitcoinTransaction_def rows by (simp add: find_append)
  then obtain r where "GetBitcoinTransaction ?x (outcome_db (process_block env e b h block d)) = Some r"
    "anchored_from (new_row env b ?n (i, ?vs ! i)) r"
    using kept_transaction[OF process_block_rows, of ?x env b block h d e] by (auto simp: option_rel_Some1)
  then show ?thesis by (auto dest!: anchored_from_fields simp: new_row_def)
qed

definition two_txs :: btc_block where
  "two_txs = block_of [pay_tx (id_of CHR ''1'' CHR ''2''), pay_tx (id_of CHR ''2'' CHR ''1'')]"

lemma block_positions_are_stored_example:
  "\<exists>r. GetBitcoinTransaction (id_of CHR ''1'' CHR ''2'') (outcome_db (process_block quiet_env True 940007 ''h1'' two_txs empty_db)) = Some r
    \<and> t_position r = 2"
proof -
  have v: "map v_TxID (findValidDNNTransactions two_txs) = [id_of CHR ''2'' CHR ''1'', id_of CHR ''1'' CHR ''2'']" by code_simp
  then have l: "1 < length (findValidDNNTransactions two_txs)" by (metis One_nat_def Suc_1 length_Cons length_map lessI list.size(3))
  have x: "v_TxID (findValidDNNTransactions two_txs ! 1) = id_of CHR ''1'' CHR ''2''"
    using arg_cong[OF v, of "\<lambda>xs. xs ! 1"] l by simp
  have "distinct (map tx_TxID (bk_Transactions two_txs))" by (simp add: two_txs_def block_of_def pay_tx_def id_of_def)
  moreover have "bitcoin_transactions empty_db = []" by (simp add: empty_db_def)
  ultimately show ?thesis
    using block_positions_are_stored[OF _ l, of empty_db 940007 quiet_env True "''h1''"] unfolding x by auto
qed

lemma transaction_unique_row:
  assumes "GetBitcoinTransaction x d \<noteq> None \<Longrightarrow> \<forall>r\<in>set (bitcoin_transactions d). t_id r = x \<longrightarrow> r = s"
    "s \<in> set (bitcoin_transactions d)" "t_id s = x"
  shows "GetBitcoinTransaction x d = Some s"
proof (cases "GetBitcoinTransaction x d")
  case None
  then show ?thesis using assms(2,3) by (auto simp: GetBitcoinTransaction_def find_None_iff)
next
  case (Some r)
  then have "r \<in> set (bitcoin_transactions d)" "t_id r = x"
    by (auto simp: GetBitcoinTransaction_def find_Some_iff)
  then show ?thesis using assms(1) Some by simp
qed

text \<open>
  Synchronising one transaction first costs another its identifier:
  \<open>SyncSpecificTransaction\<close> files it at position 2, and the insertion of the block's real second
  transaction is then ignored; after the block has been synchronised that transaction has no
  row, and the first keeps position 2 whatever its rank.
\<close>

lemma single_sync_displaces:
  assumes "distinct (map tx_TxID (bk_Transactions block))" "2 \<le> length (findValidDNNTransactions block)"
    and "\<forall>r\<in>set (bitcoin_transactions d). t_bitcoin_block r \<noteq> b \<and> t_id r \<notin> set (map tx_TxID (bk_Transactions block))"
    and "sy_BlockHashForTx env x = Some h" "sy_HeightForHash env h = Some b" "ch_GetBlockWithInputs env h = Some block"
    and "SyncSpecificTransaction env x d = (SyncDone, d1)" "x \<noteq> v_TxID (findValidDNNTransactions block ! 1)"
  shows "GetBitcoinTransaction (v_TxID (findValidDNNTransactions block ! 1)) (outcome_db (process_block env e b h block d1)) = None
    \<and> (\<exists>r. GetBitcoinTransaction x (outcome_db (process_block env e b h block d1)) = Some r \<and> t_position r = 2)"
proof -
  let ?vs = "findValidDNNTransactions block" and ?n = "b - GetGenesisBlock (ch_network env)"
  let ?y = "v_TxID (?vs ! 1)"
  obtain tx addr where tx: "find (\<lambda>tx. tx_TxID tx = x) (bk_Transactions block) = Some tx" "isValidDNNTransaction tx = Some addr"
    and d1: "d1 = StoreBitcoinTransaction (ch_now env) x b ?n 2 addr (int (txidDigitSum x)) 0 0
        (CreateOrUpdateDNNBlock (ch_now env) ?n b h 0 d)"
    using assms(4-7) by (auto simp: SyncSpecificTransaction_def Let_def split: option.splits if_splits)
  have xin: "x \<in> set (map tx_TxID (bk_Transactions block))" using tx(1) by (auto simp: find_Some_iff)
  define s where "s = \<lparr> t_id = x, t_bitcoin_block = b, t_dnn_block = ?n, t_position = 2, t_address = addr,
      t_fee_rate = int (txidDigitSum x), t_tie_position = 0, t_tie_digit = 0, t_discovered_at = ch_now env,
      t_has_anchor = False, t_anchor_id = None, t_checked_at = None \<rparr>"
  have "bitcoin_transactions d1 = insert_or_ignore btx_clash s (bitcoin_transactions d)"
    by (simp add: d1 StoreBitcoinTransaction_def CreateOrUpdateDNNBlock_def s_def)
  moreover have "\<not> btx_clash s r" if "r \<in> set (bitcoin_transactions d)" for r
  proof -
    have "t_bitcoin_block r \<noteq> b" "t_id r \<noteq> x" using assms(3)[THEN bspec, OF that] xin by metis+
    then show ?thesis by (simp add: btx_clash_def s_def)
  qed
  then have "\<not> list_ex (btx_clash s) (bitcoin_transactions d)" by (auto simp: list_ex_iff)
  ultimately have T1: "bitcoin_transactions d1 = bitcoin_transactions d @ [s]" by (simp add: insert_or_ignore_def)
  let ?d1 = "CreateOrUpdateDNNBlock (ch_now env) ?n b h (bk_Time block) d1"
  let ?d2 = "store_txs env b ?n ?vs ?d1"
  have T1': "bitcoin_transactions ?d1 = bitcoin_transactions d @ [s]" by (simp add: CreateOrUpdateDNNBlock_def T1)
  note S = store_txs_subset[of env b ?n ?d1 "enumerate 0 ?vs", folded store_txs_def, unfolded T1']
  have yin: "?y \<in> set (map tx_TxID (bk_Transactions block))"
    using findValid_ids(1)[of block] nth_mem[of 1 ?vs] assms(2) by auto
  have dist: "distinct (map v_TxID ?vs)" by (rule findValid_ids(2)[OF assms(1)])
  have no_y: "t_id r \<noteq> ?y" if r: "r \<in> set (bitcoin_transactions ?d2)" for r
  proof
    assume y: "t_id r = ?y"
    have "r \<notin> set (bitcoin_transactions d @ [s])" using y yin assms(3,8) by (auto simp: s_def)
    then obtain p where p: "p \<in> set (enumerate 0 ?vs)" "r = new_row env b ?n p" "\<not> btx_clash r s"
      using S r by auto
    then obtain j where j: "j < length ?vs" "p = (j, ?vs ! j)" by (auto simp: in_set_enumerate_eq)
    then have "v_TxID (?vs ! j) = v_TxID (?vs ! 1)" using y p(2) by (simp add: new_row_def)
    then have "j = 1" using dist j(1) assms(2) nth_eq_iff_index_eq[OF dist, of j 1] by simp
    then show False using p(2,3) j(2) by (simp add: btx_clash_def new_row_def s_def)
  qed
  have "GetBitcoinTransaction ?y ?d2 = None" using no_y by (auto simp: GetBitcoinTransaction_def find_None_iff)
  then have 1: "GetBitcoinTransaction ?y (outcome_db (process_block env e b h block d1)) = None"
    using kept_transaction[OF process_block_rows, of ?y env b block h d1 e] by simp
  have "r = s" if "r \<in> set (bitcoin_transactions ?d2)" "t_id r = x" for r
  proof -
    have "r \<notin> set (bitcoin_transactions d)" using assms(3) xin that(2) by metis
    moreover have "\<not> btx_clash r s \<Longrightarrow> False" using that(2) by (simp add: btx_clash_def s_def)
    ultimately show ?thesis using S that by (auto simp: btx_clash_def)
  qed
  moreover have "s \<in> set (bitcoin_transactions ?d2)" using S by auto
  moreover have "t_id s = x" by (simp add: s_def)
  ultimately have "GetBitcoinTransaction x ?d2 = Some s"
    using transaction_unique_row[of x ?d2 s] by blast
  then have "\<exists>r. GetBitcoinTransaction x (outcome_db (process_block env e b h block d1)) = Some r \<and> anchored_from s r"
    using kept_transaction[OF process_block_rows, of x env b block h d1 e] by (auto simp: option_rel_Some1)
  then obtain r where r: "GetBitcoinTransaction x (outcome_db (process_block env e b h block d1)) = Some r" "anchored_from s r"
    by blast
  then have "t_position r = 2" using anchored_from_fields[OF r(2)] by (simp add: s_def)
  then show ?thesis using 1 r(1) by blast
qed

lemma single_sync_displaces_example:
  "GetBitcoinTransaction (id_of CHR ''1'' CHR ''2'')
     (outcome_db (process_block (quiet_env\<lparr>ch_GetBlockWithInputs := (\<lambda>_. Some two_txs)\<rparr>) True 940001 ''h'' two_txs
       (snd (SyncSpecificTransaction (quiet_env\<lparr>ch_GetBlockWithInputs := (\<lambda>_. Some two_txs)\<rparr>)
          (id_of CHR ''2'' CHR ''1'') empty_db)))) = None"
proof -
  let ?env = "quiet_env\<lparr>ch_GetBlockWithInputs := (\<lambda>_. Some two_txs)\<rparr>"
  have v: "map v_TxID (findValidDNNTransactions two_txs) = [id_of CHR ''2'' CHR ''1'', id_of CHR ''1'' CHR ''2'']" by code_simp
  then have l: "2 \<le> length (findValidDNNTransactions two_txs)" by (metis Suc_1 length_Cons length_map le_refl list.size(3) One_nat_def)
  have x: "v_TxID (findValidDNNTransactions two_txs ! 1) = id_of CHR ''1'' CHR ''2''"
    using arg_cong[OF v, of "\<lambda>xs. xs ! 1"] l by simp
  have "distinct (map tx_TxID (bk_Transactions two_txs))" by (simp add: two_txs_def block_of_def pay_tx_def id_of_def)
  moreover have "bitcoin_transactions empty_db = []" by (simp add: empty_db_def)
  moreover have "fst (SyncSpecificTransaction ?env (id_of CHR ''2'' CHR ''1'') empty_db) = SyncDone" by code_simp
  then have "SyncSpecificTransaction ?env (id_of CHR ''2'' CHR ''1'') empty_db
      = (SyncDone, snd (SyncSpecificTransaction ?env (id_of CHR ''2'' CHR ''1'') empty_db))" by (metis prod.collapse)
  moreover have "sy_BlockHashForTx ?env (id_of CHR ''2'' CHR ''1'') = Some ''h''" "sy_HeightForHash ?env ''h'' = Some 940001"
    "ch_GetBlockWithInputs ?env ''h'' = Some two_txs" by (simp_all add: quiet_env_def)
  moreover have "id_of CHR ''2'' CHR ''1'' \<noteq> v_TxID (findValidDNNTransactions two_txs ! 1)" unfolding x by (simp add: id_of_def)
  ultimately show ?thesis
    using single_sync_displaces[OF _ l, of empty_db 940001 ?env "id_of CHR ''2'' CHR ''1''" "''h''" _ True] unfolding x by auto
qed

end
