(* ===== verification/Content.thy ===== *)
theory Content
  imports Awareness
begin

text \<open>
  \<^verbatim>\<open>src/internal/node/parsers.go\<close>: the structured form of connection and metadata content, and
  \<^verbatim>\<open>json.Unmarshal\<close> into typed values, which the DNS server uses too.  A value of the wrong type
  anywhere in the decoded fields makes the whole call fail; \<^verbatim>\<open>null\<close> gives the zero value.
\<close>

section \<open>Typed decoding\<close>

text \<open>All results, or none.\<close>

fun all_some :: "'a option list \<Rightarrow> 'a list option" where
  "all_some [] = Some []"
| "all_some (None # xs) = None"
| "all_some (Some x # xs) = map_option (Cons x) (all_some xs)"

definition as_string :: "json \<Rightarrow> string option" where
  "as_string j = (case j of JStr s \<Rightarrow> Some s | JNull \<Rightarrow> Some [] | _ \<Rightarrow> None)"

definition as_list :: "(json \<Rightarrow> 'a option) \<Rightarrow> json \<Rightarrow> 'a list option" where
  "as_list f j = (case j of JArr xs \<Rightarrow> all_some (map f xs) | JNull \<Rightarrow> Some [] | _ \<Rightarrow> None)"

definition as_matrix :: "json \<Rightarrow> string list list option" where
  "as_matrix = as_list (as_list as_string)"

definition as_int64 :: "json \<Rightarrow> int option" where
  "as_int64 j = (case j of JNum s \<Rightarrow> parse_int64 s | JNull \<Rightarrow> Some 0 | _ \<Rightarrow> None)"

definition as_map :: "json \<Rightarrow> (string \<times> json) list option option" where
  "as_map j = (case j of JObj kvs \<Rightarrow> Some (Some kvs) | JNull \<Rightarrow> Some None | _ \<Rightarrow> None)"

definition as_object :: "((string \<times> json) list \<Rightarrow> 'a option) \<Rightarrow> json \<Rightarrow> 'a option" where
  "as_object f j = (case j of JObj kvs \<Rightarrow> f kvs | JNull \<Rightarrow> f [] | _ \<Rightarrow> None)"

definition as_pointer :: "((string \<times> json) list \<Rightarrow> 'a option) \<Rightarrow> json \<Rightarrow> 'a option option" where
  "as_pointer f j = (case j of JObj kvs \<Rightarrow> map_option Some (f kvs) | JNull \<Rightarrow> Some None | _ \<Rightarrow> None)"

text \<open>
  A struct field takes the members whose key equals its name up to case (\<^verbatim>\<open>s\<close> also matches the
  long s, U+017F, and \<^verbatim>\<open>k\<close> the Kelvin sign, U+212A, as in Go); every such member must decode and
  the last one counts.
\<close>

fun fold_name :: "string \<Rightarrow> string" where
  "fold_name [] = []"
| "fold_name (c # s) =
     (if map byte_of (take 2 (c # s)) = [197, 191] then CHR ''s'' # fold_name (drop 1 s)
      else if map byte_of (take 3 (c # s)) = [226, 132, 170] then CHR ''k'' # fold_name (drop 2 s)
      else lower_char c # fold_name s)"

definition members :: "string \<Rightarrow> (string \<times> json) list \<Rightarrow> json list" where
  "members name kvs = map snd (filter (\<lambda>p. fold_name (fst p) = fold_name name) kvs)"

definition field :: "'a \<Rightarrow> (json \<Rightarrow> 'a option) \<Rightarrow> string \<Rightarrow> (string \<times> json) list \<Rightarrow> 'a option" where
  "field zero f name kvs = map_option (\<lambda>vs. if vs = [] then zero else last vs) (all_some (map f (members name kvs)))"

section \<open>Connections\<close>

record DNSRecord =
  dr_Type :: string
  dr_Name :: string
  dr_Values :: "string list"
  dr_TTL :: int
  dr_Priority :: "int option"
  dr_Weight :: "int option"
  dr_Port :: "int option"

record CertSignature =
  cs_Hash :: string
  cs_Signature :: string
  cs_Pubkey :: string
  cs_SignedAt :: int

record CertInfo =
  ci_PEM :: string
  ci_CertSignature :: "CertSignature option"
  ci_Expires :: int

record Transports =
  tr_Relay :: "string list"
  tr_Direct :: "string option"
  tr_Tor :: "string list"
  tr_TollgateID :: "string list"
  tr_DHT :: "string list"
  tr_Ethereum :: "string list"

record ParsedConnection =
  pc_Records :: "DNSRecord list"
  pc_Cert :: "CertInfo option"
  pc_Meta :: "(string \<times> json) list option"
  pc_Delegation :: string
  pc_Npub :: "string list"
  pc_Transports :: "Transports option"
  pc_Capabilities :: "string list"

definition empty_connection :: ParsedConnection where
  "empty_connection = \<lparr> pc_Records = [], pc_Cert = None, pc_Meta = None, pc_Delegation = [], pc_Npub = [],
     pc_Transports = None, pc_Capabilities = [] \<rparr>"

text \<open>\<^verbatim>\<open>fmt.Sscanf(s, "%d", &x)\<close> leaves \<open>x\<close> as it was when nothing can be read.\<close>

definition sscanf_d :: "int \<Rightarrow> string \<Rightarrow> int" where
  "sscanf_d x s = (case scan_int s of Some (v, _) \<Rightarrow> v | None \<Rightarrow> x)"

definition ttl_at :: "nat \<Rightarrow> string list \<Rightarrow> int" where
  "ttl_at i raw = (if length raw > i then sscanf_d 3600 (raw ! i) else 3600)"

definition convert_record :: "string list \<Rightarrow> DNSRecord" where
  "convert_record raw =
     (let record = \<lparr> dr_Type = raw ! 0, dr_Name = raw ! 1, dr_Values = [], dr_TTL = 3600,
                     dr_Priority = None, dr_Weight = None, dr_Port = None \<rparr>
      in if raw ! 0 \<in> {''A'', ''AAAA'', ''CNAME'', ''TXT''} then
           record\<lparr>dr_Values := [raw ! 2], dr_TTL := ttl_at 3 raw\<rparr>
         else if raw ! 0 = ''MX'' then
           (if length raw \<ge> 4 then
              record\<lparr>dr_Priority := Some (sscanf_d 0 (raw ! 2)), dr_Values := [raw ! 3], dr_TTL := ttl_at 4 raw\<rparr>
            else record)
         else if raw ! 0 = ''SRV'' then
           (if length raw \<ge> 6 then
              record\<lparr>dr_Priority := Some (sscanf_d 0 (raw ! 2)), dr_Weight := Some (sscanf_d 0 (raw ! 3)),
                dr_Port := Some (sscanf_d 0 (raw ! 4)), dr_Values := [raw ! 5], dr_TTL := ttl_at 6 raw\<rparr>
            else record)
         else record)"

definition convert_records :: "string list list \<Rightarrow> DNSRecord list" where
  "convert_records raws = map convert_record (filter (\<lambda>raw. length raw \<ge> 3) raws)"

record cert_json =
  cj_Chain :: "(string \<times> string) list"
  cj_PEM :: string
  cj_CertSignature :: "CertSignature option"
  cj_Expires :: int

definition chain_entry :: "(string \<times> json) list \<Rightarrow> (string \<times> string) option" where
  "chain_entry kvs =
     (case (field [] as_string ''type'' kvs, field [] as_string ''pem'' kvs) of
        (Some t, Some p) \<Rightarrow> Some (t, p) | _ \<Rightarrow> None)"

definition signature_json :: "(string \<times> json) list \<Rightarrow> CertSignature option" where
  "signature_json kvs =
     (case (field [] as_string ''hash'' kvs, field [] as_string ''signature'' kvs,
            field [] as_string ''pubkey'' kvs, field 0 as_int64 ''signed_at'' kvs) of
        (Some h, Some s, Some p, Some t) \<Rightarrow>
          Some \<lparr> cs_Hash = h, cs_Signature = s, cs_Pubkey = p, cs_SignedAt = t \<rparr>
      | _ \<Rightarrow> None)"

definition cert_of_json :: "(string \<times> json) list \<Rightarrow> cert_json option" where
  "cert_of_json kvs =
     (case (field [] (as_list (as_object chain_entry)) ''chain'' kvs, field [] as_string ''pem'' kvs,
            field None (as_pointer signature_json) ''cert_signature'' kvs, field 0 as_int64 ''expires'' kvs) of
        (Some c, Some p, Some s, Some e) \<Rightarrow>
          Some \<lparr> cj_Chain = c, cj_PEM = p, cj_CertSignature = s, cj_Expires = e \<rparr>
      | _ \<Rightarrow> None)"

definition certPEM :: "cert_json \<Rightarrow> string" where
  "certPEM c =
     (let leaf = (case find (\<lambda>e. fst e = ''leaf'' \<and> snd e \<noteq> []) (cj_Chain c) of Some e \<Rightarrow> snd e | None \<Rightarrow> []);
          first = (if leaf = [] \<and> cj_Chain c \<noteq> [] then snd (hd (cj_Chain c)) else leaf)
      in if first = [] then cj_PEM c else first)"

definition cert_info :: "cert_json option \<Rightarrow> CertInfo option" where
  "cert_info cert =
     (case cert of
        None \<Rightarrow> None
      | Some c \<Rightarrow> if certPEM c = [] then None
          else Some \<lparr> ci_PEM = certPEM c, ci_CertSignature = cj_CertSignature c, ci_Expires = cj_Expires c \<rparr>)"

definition transports_json :: "(string \<times> json) list \<Rightarrow> Transports option" where
  "transports_json kvs =
     (let strings = (\<lambda>name. field [] (as_list as_string) name kvs) in
      case (strings ''relay'', field None (as_pointer (field [] as_string ''ipv6'')) ''direct'' kvs, strings ''tor'',
            strings ''tollgate-id'', strings ''dht'', strings ''ethereum'') of
        (Some r, Some d, Some t, Some g, Some h, Some e) \<Rightarrow>
          Some \<lparr> tr_Relay = r, tr_Direct = d, tr_Tor = t, tr_TollgateID = g, tr_DHT = h, tr_Ethereum = e \<rparr>
      | _ \<Rightarrow> None)"

text \<open>
  The \<^verbatim>\<open>npub\<close> field is kept raw and decoded twice: as a list of strings, whose other elements
  become empty although the call reports an error, or as one string.
\<close>

definition parse_npub :: "json option \<Rightarrow> string list" where
  "parse_npub raw =
     (case raw of
        Some (JArr xs) \<Rightarrow> map (\<lambda>x. case x of JStr s \<Rightarrow> s | _ \<Rightarrow> []) xs
      | Some (JStr s) \<Rightarrow> (if s \<noteq> [] then [s] else [])
      | _ \<Rightarrow> [])"

definition parseDomainConnectionData :: "json \<Rightarrow> ParsedConnection option" where
  "parseDomainConnectionData data =
     as_object (\<lambda>kvs.
       case (field [] as_matrix ''records'' kvs, field None as_map ''meta'' kvs, field [] as_string ''delegation'' kvs,
             field None (as_pointer cert_of_json) ''cert'' kvs, field None (\<lambda>j. Some (Some j)) ''npub'' kvs,
             field None (as_pointer transports_json) ''transports'' kvs,
             field [] (as_list as_string) ''capabilities'' kvs) of
         (Some r, Some m, Some d, Some c, Some n, Some t, Some cap) \<Rightarrow>
           Some \<lparr> pc_Records = convert_records r, pc_Cert = cert_info c, pc_Meta = m, pc_Delegation = d,
             pc_Npub = parse_npub n, pc_Transports = t, pc_Capabilities = cap \<rparr>
       | _ \<Rightarrow> None) data"

text \<open>
  \<^verbatim>\<open>parseConnectionContent\<close>; when the name is missing it takes the first key of a map iteration, in
  whatever order \<open>iter\<close> the runtime picks.
\<close>

definition parseConnectionContent ::
  "((string \<times> json) list \<Rightarrow> (string \<times> json) list) \<Rightarrow> string \<Rightarrow> string \<Rightarrow> ParsedConnection option" where
  "parseConnectionContent iter content domainName =
     (if content = [] then Some empty_connection
      else case unmarshal_map content of
        None \<Rightarrow> None
      | Some raw \<Rightarrow>
          (case (if domainName \<noteq> [] then jlookup raw domainName else None) of
             Some domainData \<Rightarrow> parseDomainConnectionData domainData
           | None \<Rightarrow>
               (case iter raw of
                  [] \<Rightarrow> Some empty_connection
                | (_, v) # _ \<Rightarrow> parseDomainConnectionData v)))"

definition parseSubdomainConnectionContent :: "string \<Rightarrow> string \<Rightarrow> ParsedConnection option" where
  "parseSubdomainConnectionContent content subdomain =
     (if content = [] \<or> subdomain = [] then None
      else case unmarshal_map content of
        None \<Rightarrow> None
      | Some raw \<Rightarrow>
          (case jlookup raw subdomain of None \<Rightarrow> None | Some v \<Rightarrow> parseDomainConnectionData v))"

section \<open>Metadata\<close>

record ParsedMetadata =
  md_Description :: string
  md_Relays :: "string list"
  md_Currencies :: "(string \<times> json) list list"
  md_Addresses :: "(string \<times> string) list"
  md_Links :: "(string \<times> string) list"
  md_UpdatedAt :: int
  md_Raw :: "(string \<times> json) list"

definition empty_metadata :: ParsedMetadata where
  "empty_metadata = \<lparr> md_Description = [], md_Relays = [], md_Currencies = [], md_Addresses = [], md_Links = [],
     md_UpdatedAt = 0, md_Raw = [] \<rparr>"

definition strings_of :: "json list \<Rightarrow> string list" where
  "strings_of xs = concat (map (\<lambda>x. case x of JStr s \<Rightarrow> [s] | _ \<Rightarrow> []) xs)"

definition string_members :: "(string \<times> json) list \<Rightarrow> (string \<times> string) list" where
  "string_members kvs = concat (map (\<lambda>(k, v). case v of JStr s \<Rightarrow> [(k, s)] | _ \<Rightarrow> []) kvs)"

text \<open>
  \<^verbatim>\<open>updated_at\<close> goes through a \<^verbatim>\<open>float64\<close>; here an integer literal, for which that is exact below
  2^53, or else zero.
\<close>

definition parseMetadataContent :: "string \<Rightarrow> ParsedMetadata option" where
  "parseMetadataContent content =
     (if content = [] then Some empty_metadata
      else case unmarshal_map content of
        None \<Rightarrow> None
      | Some raw \<Rightarrow>
          (let fields = (case jlookup raw ''metadata'' of Some (JObj m) \<Rightarrow> m | _ \<Rightarrow> raw)
           in Some \<lparr> md_Description = (case jlookup fields ''description'' of Some (JStr s) \<Rightarrow> s | _ \<Rightarrow> []),
                md_Relays = (case jlookup fields ''relays'' of Some (JArr xs) \<Rightarrow> strings_of xs | _ \<Rightarrow> []),
                md_Currencies = (case jlookup fields ''currencies'' of
                    Some (JArr xs) \<Rightarrow> concat (map (\<lambda>x. case x of JObj c \<Rightarrow> [c] | _ \<Rightarrow> []) xs) | _ \<Rightarrow> []),
                md_Addresses = (case jlookup fields ''addresses'' of Some (JObj m) \<Rightarrow> string_members m | _ \<Rightarrow> []),
                md_Links = (case jlookup fields ''links'' of Some (JObj m) \<Rightarrow> string_members m | _ \<Rightarrow> []),
                md_UpdatedAt = (case jlookup raw ''updated_at'' of
                    Some (JNum n) \<Rightarrow> (case parse_int64 n of Some v \<Rightarrow> v | None \<Rightarrow> 0) | _ \<Rightarrow> 0),
                md_Raw = raw \<rparr>))"

section \<open>Lemmas\<close>

lemma all_some_Some: "all_some xs = Some ys \<longleftrightarrow> xs = map Some ys"
proof (induction xs arbitrary: ys)
  case (Cons x xs)
  then show ?case by (cases x; cases ys) auto
qed auto

lemma all_some_None: "all_some xs = None \<longleftrightarrow> None \<in> set xs"
proof (induction xs)
  case (Cons x xs)
  then show ?case by (cases x) auto
qed simp

lemma as_list_None: "as_list f (JArr xs) = None \<longleftrightarrow> (\<exists>x\<in>set xs. f x = None)"
  by (force simp: as_list_def all_some_None)

lemma field_single: "members name kvs = [v] \<Longrightarrow> field zero f name kvs = f v"
  by (cases "f v") (simp_all add: field_def)

lemma field_None: "v \<in> set (members name kvs) \<Longrightarrow> f v = None \<Longrightarrow> field zero f name kvs = None"
  by (force simp: field_def all_some_None)

lemma member_in: "jlookup kvs name = Some v \<Longrightarrow> v \<in> set (members name kvs)"
  by (force simp: jlookup_def members_def dest: map_of_SomeD)

end
