(* ===== verification/Updates.thy ===== *)
theory Updates
  imports Sync Content
begin

text \<open>
  The real-time side of \<^verbatim>\<open>src/internal/sync/syncer.go\<close>: what the subscriptions to other relays
  deliver, the discovery of peers with its checks, propagation requests, and the rebroadcasting of
  events.  \<open>update_env\<close> adds to \<open>sync_env\<close> the configuration and what the network answers: the two
  HTTP requests to a peer, the relay queries, and \<^verbatim>\<open>nip19.Decode\<close> on an \<^verbatim>\<open>npub\<close> (\<open>Some None\<close>: it
  decodes to something that is not a string).  Times are in seconds.  No goroutine recovers from a
  panic: a run that panics is \<open>Inl\<close> of the state it leaves on disk.
\<close>

section \<open>Discovered relays\<close>

record relay_row =
  dr_url :: string
  dr_source :: string
  dr_discovered_by :: string
  dr_discovered_at :: int
  dr_last_seen :: int
  dr_is_active :: bool

definition store_relay :: "int \<Rightarrow> string \<Rightarrow> string \<Rightarrow> relay_row list \<Rightarrow> string \<Rightarrow> relay_row list" where
  "store_relay now source discoveredBy t url =
     (if list_ex (\<lambda>r. dr_url r = url) t
      then map (\<lambda>r. if dr_url r = url then r\<lparr>dr_last_seen := now, dr_is_active := True\<rparr> else r) t
      else t @ [\<lparr> dr_url = url, dr_source = source, dr_discovered_by = discoveredBy, dr_discovered_at = now,
                  dr_last_seen = now, dr_is_active = True \<rparr>])"

definition StoreDiscoveredRelays :: "int \<Rightarrow> string list \<Rightarrow> string \<Rightarrow> string \<Rightarrow> relay_row list \<Rightarrow> relay_row list" where
  "StoreDiscoveredRelays now urls source discoveredBy t = foldl (store_relay now source discoveredBy) t urls"

definition GetDiscoveredRelays :: "relay_row list \<Rightarrow> string list" where
  "GetDiscoveredRelays t = map dr_url (order_by (\<lambda>r. - dr_last_seen r) (filter dr_is_active t))"

section \<open>The state\<close>

record update_env = sync_env +
  su_AnnounceAddresses :: "string list"
  su_RelayURLs :: "string list"
  su_npub :: "string \<Rightarrow> string option option"
  su_node_info :: "string \<Rightarrow> nat \<Rightarrow> (nat \<times> string) option"
  su_search :: "string \<Rightarrow> (nat \<times> string) option"
  su_random :: nat
  su_query :: "string \<Rightarrow> nostr_filter \<Rightarrow> event list option"
  su_parse_time :: "string \<Rightarrow> int option"

record syncer_state =
  sn_db :: database
  sn_marks :: awareness_db
  sn_relays :: "relay_row list"
  sn_cache :: "(string \<times> int) list"

text \<open>The state after a run, also after one that panicked.\<close>

fun ended :: "('s, 's) res \<Rightarrow> 's" where
  "ended (Inl st) = st"
| "ended (Inr st) = st"

section \<open>Verification of a peer\<close>

record node_info =
  ni_NodeNpub :: string
  ni_NodePubkey :: string
  ni_AdminNpub :: string
  ni_GenesisBlock :: int

definition node_info_json :: "(string \<times> json) list \<Rightarrow> node_info option" where
  "node_info_json kvs =
     (case (field [] as_string ''node_npub'' kvs, field [] as_string ''node_pubkey'' kvs, field [] as_string ''admin_npub'' kvs,
            field 0 as_int64 ''genesis_block'' kvs, field [] as_string ''network'' kvs) of
        (Some npub, Some pubkey, Some admin, Some genesis, Some _) \<Rightarrow>
          Some \<lparr> ni_NodeNpub = npub, ni_NodePubkey = pubkey, ni_AdminNpub = admin, ni_GenesisBlock = genesis \<rparr>
      | _ \<Rightarrow> None)"

definition unmarshal :: "(json \<Rightarrow> 'a option) \<Rightarrow> string \<Rightarrow> 'a option" where
  "unmarshal f body = Option.bind (parse_json body) f"

text \<open>An item of the answer of a peer: transaction, Bitcoin block and address.\<close>

definition peer_tx_json :: "(string \<times> json) list \<Rightarrow> (string \<times> int \<times> string) option" where
  "peer_tx_json kvs =
     (case (field [] as_string ''transaction_id'' kvs, field 0 as_int64 ''bitcoin_block'' kvs, field [] as_string ''bitcoin_address'' kvs,
            field 0 as_int64 ''dnn_block'' kvs, field 0 as_int64 ''position'' kvs) of
        (Some tx, Some block, Some address, Some _, Some _) \<Rightarrow> Some (tx, block, address) | _ \<Rightarrow> None)"

definition peer_items_json :: "(string \<times> json) list \<Rightarrow> ((string \<times> int \<times> string) list \<times> int) option" where
  "peer_items_json kvs =
     (case (field [] (as_list (as_object peer_tx_json)) ''items'' kvs, field 0 as_int64 ''total'' kvs) of
        (Some items, Some n) \<Rightarrow> Some (items, n) | _ \<Rightarrow> None)"

fun drop_slashes :: "string \<Rightarrow> string" where
  "drop_slashes [] = []"
| "drop_slashes (c # s) = (if c = CHR ''/'' then drop_slashes s else c # s)"

definition trim_slashes :: "string \<Rightarrow> string" where
  "trim_slashes s = rev (drop_slashes (rev s))"

text \<open>\<^verbatim>\<open>ORDER BY RANDOM() LIMIT 1\<close> picks any row.\<close>

definition GetRandomBitcoinTransaction :: "nat \<Rightarrow> database \<Rightarrow> btx_row option" where
  "GetRandomBitcoinTransaction n d =
     (let t = bitcoin_transactions d in if t = [] then None else Some (t ! (n mod length t)))"

definition spotCheckPeerData :: "update_env \<Rightarrow> string \<Rightarrow> database \<Rightarrow> bool" where
  "spotCheckPeerData env address d =
     (case GetRandomBitcoinTransaction (su_random env) d of
        None \<Rightarrow> True
      | Some ourTx \<Rightarrow>
          (case su_search env (trim_slashes address @ ''/dnn/anchors?search='' @ t_id ourTx @ ''&limit=1'') of
             None \<Rightarrow> False
           | Some (status, body) \<Rightarrow>
               if status \<noteq> 200 then False
               else case unmarshal (as_object peer_items_json) body of
                 None \<Rightarrow> False
               | Some (items, n) \<Rightarrow>
                   if n = 0 \<or> items = [] then True
                   else case hd items of (tx, block, addr) \<Rightarrow>
                     tx = t_id ourTx \<and> block = t_bitcoin_block ourTx \<and> addr = t_address ourTx))"

datatype verification = Unverified | VerifyPanic | Verified string string string

text \<open>One attempt; \<open>None\<close> asks again.\<close>

definition verify_attempt :: "update_env \<Rightarrow> string \<Rightarrow> database \<Rightarrow> nat \<Rightarrow> verification option" where
  "verify_attempt env address d attempt =
     (case su_node_info env (trim_slashes address @ ''/dnn/node-info'') attempt of
        None \<Rightarrow> None
      | Some (status, body) \<Rightarrow>
          if status \<noteq> 200 then None
          else case unmarshal (as_object node_info_json) body of
            None \<Rightarrow> None
          | Some info \<Rightarrow>
              if ni_NodeNpub info = [] \<and> ni_NodePubkey info = [] then None
              else if ni_GenesisBlock info = 0 then Some Unverified
              else if ni_GenesisBlock info \<noteq> GetGenesisBlock (ch_network env) then Some Unverified
              else if \<not> spotCheckPeerData env address d then Some Unverified
              else if ni_AdminNpub info = [] then Some (Verified (ni_NodeNpub info) (ni_NodePubkey info) [])
              else case su_npub env (ni_AdminNpub info) of
                None \<Rightarrow> Some (Verified (ni_NodeNpub info) (ni_NodePubkey info) [])
              | Some None \<Rightarrow> Some VerifyPanic
              | Some (Some hex) \<Rightarrow> Some (Verified (ni_NodeNpub info) (ni_NodePubkey info) hex))"

definition verifyNodeEndpoint :: "update_env \<Rightarrow> string \<Rightarrow> database \<Rightarrow> verification" where
  "verifyNodeEndpoint env address d =
     (case verify_attempt env address d 1 of
        Some v \<Rightarrow> v
      | None \<Rightarrow> (case verify_attempt env address d 2 of
          Some v \<Rightarrow> v
        | None \<Rightarrow> (case verify_attempt env address d 3 of Some v \<Rightarrow> v | None \<Rightarrow> Unverified)))"

section \<open>Node discovery\<close>

definition discovery_json :: "(string \<times> json) list \<Rightarrow> (string list \<times> string list) option" where
  "discovery_json kvs =
     (case (field [] (as_list as_string) ''dns_addresses'' kvs, field [] (as_list as_string) ''tor'' kvs,
            field [] (as_list as_string) ''relays'' kvs) of
        (Some dns, Some tor, Some relays) \<Rightarrow> Some (dns @ tor, relays) | _ \<Rightarrow> None)"

text \<open>The addresses in turn; the endpoint is only asked for a new address that is not our own.\<close>

fun discover_addresses :: "update_env \<Rightarrow> string \<Rightarrow> string list \<Rightarrow> syncer_state \<Rightarrow> (syncer_state, syncer_state) res" where
  "discover_addresses env announcer [] st = Ok st"
| "discover_addresses env announcer (address # addresses) st =
     (if to_lower address \<in> set (map to_lower (su_AnnounceAddresses env)) \<or> PeerAddressExists address (sn_marks st)
      then discover_addresses env announcer addresses st
      else case verifyNodeEndpoint env address (sn_db st) of
        Unverified \<Rightarrow> discover_addresses env announcer addresses st
      | VerifyPanic \<Rightarrow> Err st
      | Verified npub pubkey admin \<Rightarrow>
          discover_addresses env announcer addresses
            (st\<lparr>sn_marks := StorePeerNode (ch_now env) \<lparr> pn_address = address, pn_node_npub = npub, pn_node_pubkey = pubkey,
                 pn_admin_pubkey = admin, pn_announced_by = announcer, pn_is_verified = False, pn_fail_count = 0,
                 pn_last_checked = None, pn_last_seen = None, pn_discovered_at = 0 \<rparr> (sn_marks st)\<rparr>))"

definition handleNodeDiscoveryEvent :: "update_env \<Rightarrow> event \<Rightarrow> syncer_state \<Rightarrow> (syncer_state, syncer_state) res" where
  "handleNodeDiscoveryEvent env ev st =
     (case unmarshal (as_object discovery_json) (ev_content ev) of
        None \<Rightarrow> Ok st
      | Some (addresses, relays) \<Rightarrow>
          if addresses = [] then Ok st
          else case discover_addresses env (ev_pubkey ev) addresses st of
            Inl st1 \<Rightarrow> Err st1
          | Inr st1 \<Rightarrow>
              let relaysToStore = filter (\<lambda>r. to_lower r \<notin> set (map to_lower (su_RelayURLs env))) relays in
              Ok (if relaysToStore = [] then st1
                  else st1\<lparr>sn_relays := StoreDiscoveredRelays (ch_now env) relaysToStore ''peer'' (ev_pubkey ev) (sn_relays st1)\<rparr>))"

section \<open>Anchors from other relays\<close>

text \<open>
  The common end of both ways an anchor can come in.  The log line of an unknown transaction slices
  the id to sixteen bytes.
\<close>

definition store_for_transaction :: "update_env \<Rightarrow> bool \<Rightarrow> event \<Rightarrow> database \<Rightarrow> (database, bool \<times> database) res" where
  "store_for_transaction env explicitly ev d =
     (let txID = first_tag ''x'' (ev_tags ev);
          hook = fetchAndStoreReferencedEvents (sy_nip19 env) (sy_remote env) in
      if txID = [] then Ok (False, d)
      else case GetBitcoinTransaction txID d of
        None \<Rightarrow> if length txID < 16 then Err d else Ok (False, d)
      | Some tx \<Rightarrow>
          (case StoreAnchorEventHooked hook ev (t_bitcoin_block tx) (t_dnn_block tx) (t_position tx) d of
             Inl DPanic \<Rightarrow> Err d
           | Inl _ \<Rightarrow> Ok (True, d)
           | Inr d' \<Rightarrow> Ok (True, if explicitly then hook ev d' else d')))"

definition propagation_json :: "(string \<times> json) list \<Rightarrow> (string \<times> string) option" where
  "propagation_json kvs =
     (case (field [] as_string ''anchor_naddr'' kvs, field [] as_string ''dnn_id'' kvs) of
        (Some naddr, Some dnnID) \<Rightarrow> Some (naddr, dnnID) | _ \<Rightarrow> None)"

text \<open>The first relay that returns something for the filter.\<close>

fun query_in_turn :: "(string \<Rightarrow> nostr_filter \<Rightarrow> event list option) \<Rightarrow> nostr_filter \<Rightarrow> string list \<Rightarrow> event option" where
  "query_in_turn query f [] = None"
| "query_in_turn query f (relay # relays) =
     (case query relay f of Some (e # _) \<Rightarrow> Some e | _ \<Rightarrow> query_in_turn query f relays)"

definition handlePropagationEvent :: "update_env \<Rightarrow> event \<Rightarrow> database \<Rightarrow> (database, database) res" where
  "handlePropagationEvent env ev d =
     (case unmarshal (as_object propagation_json) (ev_content ev) of
        None \<Rightarrow> Ok d
      | Some (naddr, dnnID) \<Rightarrow>
          if naddr = [] \<or> dnnID = [] then Ok d
          else case sy_nip19 env naddr of
            None \<Rightarrow> Ok d
          | Some p \<Rightarrow>
              if na_pubkey p \<noteq> ev_pubkey ev then Ok d
              else case query_in_turn (su_query env)
                  \<lparr> f_IDs = [], f_Kinds = [60600], f_Authors = [na_pubkey p], f_Tags = [(''d'', [na_identifier p])],
                    f_Since = None, f_Until = None, f_Limit = 1 \<rparr> (su_RelayURLs env) of
                None \<Rightarrow> Ok d
              | Some anchor \<Rightarrow>
                  if ValidateTagReferences (\<lambda>s. sy_nip19 env s \<noteq> None) anchor \<noteq> Ok () then Ok d
                  else map_sum id snd (store_for_transaction env False anchor d))"

section \<open>Rebroadcasting\<close>

definition rebroadcastFreshness :: int where
  "rebroadcastFreshness = 10 * 60"

definition rebroadcastCacheTTL :: int where
  "rebroadcastCacheTTL = 15 * 60"

definition cleanupRebroadcastCache :: "int \<Rightarrow> (string \<times> int) list \<Rightarrow> (string \<times> int) list" where
  "cleanupRebroadcastCache now cache = filter (\<lambda>e. \<not> now - snd e > rebroadcastCacheTTL) cache"

text \<open>The relays an event is sent to, and the state afterwards.\<close>

definition rebroadcastEvent :: "update_env \<Rightarrow> event \<Rightarrow> syncer_state \<Rightarrow> string list \<times> syncer_state" where
  "rebroadcastEvent env ev st =
     (if (case map_of (sn_cache st) (ev_id ev) of None \<Rightarrow> False | Some lastSeen \<Rightarrow> ch_now env - lastSeen < rebroadcastCacheTTL)
      then ([], st)
      else
        let cache = map_put (ev_id ev) (ch_now env) (sn_cache st);
            relaySet = remdups (map to_lower (su_RelayURLs env) @ map to_lower (GetDiscoveredRelays (sn_relays st)))
        in if relaySet = [] then ([], st\<lparr>sn_cache := cache\<rparr>)
           else (relaySet, st\<lparr>sn_cache := cleanupRebroadcastCache (ch_now env) cache\<rparr>))"

definition RebroadcastEvent :: "update_env \<Rightarrow> event \<Rightarrow> syncer_state \<Rightarrow> string list \<times> syncer_state" where
  "RebroadcastEvent env ev st =
     (if ch_now env - ev_created_at ev > rebroadcastFreshness then ([], st) else rebroadcastEvent env ev st)"

section \<open>Events of the subscriptions\<close>

text \<open>
  What the subscriptions ask for; \<open>su_parse_time\<close> is \<^verbatim>\<open>time.Parse\<close>.  Beyond five hundred authors the
  query keeps those it meets first.
\<close>

definition GetKnownDNNAuthors :: "database \<Rightarrow> string list" where
  "GetKnownDNNAuthors d = take 500 (remdups (map r_pubkey (order_by (\<lambda>r. - r_created_at r) (anchor_events d))))"

definition dnn_filter :: "int list \<Rightarrow> string list \<Rightarrow> int option \<Rightarrow> nostr_filter" where
  "dnn_filter kinds authors since = \<lparr> f_IDs = [], f_Kinds = kinds, f_Authors = authors, f_Tags = [(''t'', [''DNN''])],
     f_Since = since, f_Until = None, f_Limit = 0 \<rparr>"

definition buildSubscriptionFilters :: "update_env \<Rightarrow> database \<Rightarrow> nostr_filter list" where
  "buildSubscriptionFilters env d =
     (let now = ch_now env; since48h = now - 48 * 60 * 60; authors = GetKnownDNNAuthors d;
          lastSyncStr = GetSyncState ''last_sync_time'' d;
          sinceProp = (if lastSyncStr = [] then since48h
            else case su_parse_time env lastSyncStr of
              None \<Rightarrow> since48h | Some lastSync \<Rightarrow> if now - lastSync > 48 * 60 * 60 then lastSync else since48h)
      in [dnn_filter [60600] [] (Some (now - 60))]
         @ (if authors = [] then [] else [dnn_filter [61600, 62600, 63600] authors None])
         @ [dnn_filter [64600] [] (Some since48h), dnn_filter [65600] [] (Some sinceProp)])"

definition newest_filter :: "event \<Rightarrow> nostr_filter" where
  "newest_filter ev = \<lparr> f_IDs = [], f_Kinds = [ev_kind ev], f_Authors = [ev_pubkey ev],
     f_Tags = [(''d'', [first_tag ''d'' (ev_tags ev)])], f_Since = None, f_Until = None, f_Limit = 1 \<rparr>"

text \<open>The switch on the kind; the flag says whether the function goes on to rebroadcast.\<close>

definition store_update :: "update_env \<Rightarrow> event \<Rightarrow> syncer_state \<Rightarrow> (syncer_state, bool \<times> syncer_state) res" where
  "store_update env ev st =
     (if ev_kind ev = 60600 then
        (case store_for_transaction env True ev (sn_db st) of
           Inl d \<Rightarrow> Err (st\<lparr>sn_db := d\<rparr>) | Inr (goOn, d) \<Rightarrow> Ok (goOn, st\<lparr>sn_db := d\<rparr>))
      else if ev_kind ev = 61600 then Ok (True, st\<lparr>sn_db := StoreNameEvent ev (sn_db st)\<rparr>)
      else if ev_kind ev = 62600 then Ok (True, st\<lparr>sn_db := StoreConnectionEvent ev (sn_db st)\<rparr>)
      else if ev_kind ev = 63600 then Ok (True, st\<lparr>sn_db := StoreMetadataEvent ev (sn_db st)\<rparr>)
      else if ev_kind ev = 64600 then
        (case handleNodeDiscoveryEvent env ev st of Inl st1 \<Rightarrow> Err st1 | Inr st1 \<Rightarrow> Ok (True, st1))
      else if ev_kind ev = 65600 then
        (case handlePropagationEvent env ev (sn_db st) of
           Inl d \<Rightarrow> Err (st\<lparr>sn_db := d\<rparr>) | Inr d \<Rightarrow> Ok (True, st\<lparr>sn_db := d\<rparr>))
      else Ok (True, st))"

definition handleEventUpdate :: "update_env \<Rightarrow> event \<Rightarrow> syncer_state \<Rightarrow> (syncer_state, string list \<times> syncer_state) res" where
  "handleEventUpdate env ev st =
     (if (case QueryEvents (newest_filter ev) (sn_db st) of
            existing # _ \<Rightarrow> ev_created_at ev \<le> ev_created_at existing | [] \<Rightarrow> False) then Ok ([], st)
      else case store_update env ev st of
        Inl st1 \<Rightarrow> Err st1
      | Inr (goOn, st1) \<Rightarrow>
          Ok (if goOn \<and> ch_now env - ev_created_at ev < rebroadcastFreshness then rebroadcastEvent env ev st1 else ([], st1)))"

section \<open>Rebroadcasts of an event\<close>

text \<open>
  A sequence of rebroadcasts on one cache: the clock, the relays known then and the event are given
  for each; the result lists the time, the id and the relays of each.
\<close>

fun rebroadcasts ::
  "update_env \<Rightarrow> (int \<times> relay_row list \<times> event) list \<Rightarrow> syncer_state \<Rightarrow> (int \<times> string \<times> string list) list" where
  "rebroadcasts env [] st = []"
| "rebroadcasts env ((now, rows, ev) # xs) st =
     (let (relays, st') = rebroadcastEvent (env\<lparr>ch_now := now\<rparr>) ev (st\<lparr>sn_relays := rows\<rparr>)
      in (now, ev_id ev, relays) # rebroadcasts env xs st')"

text \<open>The cache remembers a broadcast at \<open>t\<close> as long as it counts.\<close>

definition remembers :: "int \<Rightarrow> string \<Rightarrow> int \<Rightarrow> (string \<times> int) list \<Rightarrow> bool" where
  "remembers now i t cache \<longleftrightarrow> (now - t < rebroadcastCacheTTL \<longrightarrow> (\<exists>t'. map_of cache i = Some t' \<and> t \<le> t'))"

lemma map_put_lookup: "map_of (map_put k v m) i = (if i = k then Some v else map_of m i)"
proof -
  have "map_of (filter (\<lambda>p. fst p \<noteq> k) m) i = (if i = k then None else map_of m i)" by (induction m) auto
  then show ?thesis by (auto simp: map_put_def map_add_def split: option.splits)
qed

lemma map_put_distinct: "distinct (map fst m) \<Longrightarrow> distinct (map fst (map_put k v m))"
  by (induction m) (auto simp: map_put_def)

lemma map_of_filter_keep: "distinct (map fst m) \<Longrightarrow> map_of m i = Some v \<Longrightarrow> P (i, v) \<Longrightarrow> map_of (filter P m) i = Some v"
  by (induction m) (auto split: if_splits dest: map_of_SomeD)

lemma cache_distinct: "distinct (map fst (sn_cache st)) \<Longrightarrow> distinct (map fst (sn_cache (snd (rebroadcastEvent env ev st))))"
proof -
  have "distinct (map fst (filter P m))" if "distinct (map fst m)" for P and m :: "(string \<times> int) list"
    using that by (induction m) auto
  then show "distinct (map fst (sn_cache st)) \<Longrightarrow> ?thesis"
    by (simp add: rebroadcastEvent_def Let_def cleanupRebroadcastCache_def map_put_distinct)
qed

lemma remembers_step:
  assumes "remembers now0 i t (sn_cache st)" "now0 \<le> ch_now env" "t \<le> ch_now env" "distinct (map fst (sn_cache st))"
  shows "remembers (ch_now env) i t (sn_cache (snd (rebroadcastEvent env ev st)))"
proof (cases "ch_now env - t < rebroadcastCacheTTL")
  case True
  then obtain t' where t': "map_of (sn_cache st) i = Some t'" "t \<le> t'" using assms(1,2) by (auto simp: remembers_def)
  let ?put = "map_put (ev_id ev) (ch_now env) (sn_cache st)"
  let ?v = "if i = ev_id ev then ch_now env else t'"
  have p: "map_of ?put i = Some ?v" "t \<le> ?v" using t' assms(3) by (simp_all add: map_put_lookup)
  moreover have "map_of (cleanupRebroadcastCache (ch_now env) ?put) i = Some ?v"
    unfolding cleanupRebroadcastCache_def using p True
    by (intro map_of_filter_keep[OF map_put_distinct[OF assms(4)]]) auto
  ultimately show ?thesis using t' by (auto simp: remembers_def rebroadcastEvent_def Let_def)
qed (simp add: remembers_def)

lemma rebroadcast_remembers:
  assumes "fst (rebroadcastEvent env ev st) \<noteq> []" "distinct (map fst (sn_cache st))"
  shows "remembers (ch_now env) (ev_id ev) (ch_now env) (sn_cache (snd (rebroadcastEvent env ev st)))"
proof -
  let ?put = "map_put (ev_id ev) (ch_now env) (sn_cache st)"
  have "map_of (cleanupRebroadcastCache (ch_now env) ?put) (ev_id ev) = Some (ch_now env)"
    unfolding cleanupRebroadcastCache_def
    by (intro map_of_filter_keep[OF map_put_distinct[OF assms(2)]]) (auto simp: map_put_lookup rebroadcastCacheTTL_def)
  then show ?thesis using assms(1) by (auto simp: remembers_def rebroadcastEvent_def Let_def split: if_splits)
qed

lemma not_again:
  assumes "remembers now0 (ev_id ev) t (sn_cache st)" "now0 \<le> ch_now env" "fst (rebroadcastEvent env ev st) \<noteq> []"
  shows "ch_now env - t \<ge> rebroadcastCacheTTL"
  using assms by (auto simp: remembers_def rebroadcastEvent_def split: if_splits option.splits)

lemma rebroadcasts_from:
  "sorted (now0 # map fst xs) \<Longrightarrow> t \<le> now0 \<Longrightarrow> distinct (map fst (sn_cache st)) \<Longrightarrow> remembers now0 i t (sn_cache st) \<Longrightarrow>
   \<forall>(t', i', relays)\<in>set (rebroadcasts env xs st). i' = i \<and> relays \<noteq> [] \<longrightarrow> t' - t \<ge> rebroadcastCacheTTL"
proof (induction xs arbitrary: now0 st)
  case (Cons x xs)
  obtain now rows ev where x: "x = (now, rows, ev)" by (metis prod_cases3)
  let ?env = "env\<lparr>ch_now := now\<rparr>" and ?st = "st\<lparr>sn_relays := rows\<rparr>"
  obtain relays st' where r: "rebroadcastEvent ?env ev ?st = (relays, st')" by fastforce
  have n: "now0 \<le> now" "sorted (now # map fst xs)" using Cons.prems(1) x by auto
  have "remembers now i t (sn_cache st')"
    using remembers_step[of now0 i t ?st ?env ev] Cons.prems(2-4) n r by simp
  moreover have "distinct (map fst (sn_cache st'))" using cache_distinct[of ?st ?env ev] Cons.prems(3) r by simp
  ultimately have "\<forall>(t', i', relays)\<in>set (rebroadcasts env xs st'). i' = i \<and> relays \<noteq> [] \<longrightarrow> t' - t \<ge> rebroadcastCacheTTL"
    using Cons.IH[OF n(2)] Cons.prems(2) n(1) by auto
  moreover have "now - t \<ge> rebroadcastCacheTTL" if "ev_id ev = i" "relays \<noteq> []"
    using not_again[of now0 ev t ?st ?env] Cons.prems(4) n(1) that r by simp
  ultimately show ?case using x r by (auto simp: Let_def)
qed simp

section \<open>Properties\<close>

text \<open>
  C24. An event is sent on at most once in fifteen minutes: in every sequence of rebroadcasts whose
  clock does not run backwards, whatever other events and relays come in between, two that send the
  same event id to some relay are at least the time to live of the cache apart.
\<close>

theorem rebroadcast_once:
  assumes "sorted (map fst xs)" "distinct (map fst (sn_cache st))"
  shows "sorted_wrt (\<lambda>(t, i, relays) (t', i', relays'). i = i' \<and> relays \<noteq> [] \<and> relays' \<noteq> [] \<longrightarrow> t' - t \<ge> 900)
    (rebroadcasts env xs st)"
  using assms
proof (induction xs arbitrary: st)
  case (Cons x xs)
  obtain now rows ev where x: "x = (now, rows, ev)" by (metis prod_cases3)
  let ?env = "env\<lparr>ch_now := now\<rparr>" and ?st = "st\<lparr>sn_relays := rows\<rparr>"
  obtain relays st' where r: "rebroadcastEvent ?env ev ?st = (relays, st')" by fastforce
  have d: "distinct (map fst (sn_cache st'))" using cache_distinct[of ?st ?env ev] Cons.prems(2) r by simp
  have "\<forall>(t', i', relays')\<in>set (rebroadcasts env xs st'). i' = ev_id ev \<and> relays' \<noteq> [] \<longrightarrow> t' - now \<ge> rebroadcastCacheTTL"
    if "relays \<noteq> []"
    using rebroadcasts_from[of now xs now st' "ev_id ev" env] rebroadcast_remembers[of ?env ev ?st] that r d Cons.prems x by simp
  moreover have "sorted_wrt (\<lambda>(t, i, relays) (t', i', relays'). i = i' \<and> relays \<noteq> [] \<and> relays' \<noteq> [] \<longrightarrow> t' - t \<ge> 900)
      (rebroadcasts env xs st')"
    using Cons.IH[OF _ d] Cons.prems(1) by simp
  ultimately show ?case using x r by (fastforce simp: Let_def rebroadcastCacheTTL_def)
qed simp

text \<open>
  C38.  One event stops the node: an anchor that a subscription delivers with a transaction id of fewer
  than sixteen characters that is not stored makes \<open>handleEventUpdate\<close> panic, whatever else it holds
  and whoever signed it, unless a newer event of its author has the same d tag.
\<close>

theorem short_transaction_id_crashes:
  assumes "ev_kind ev = 60600" "first_tag ''x'' (ev_tags ev) \<noteq> []" "length (first_tag ''x'' (ev_tags ev)) < 16"
    and "GetBitcoinTransaction (first_tag ''x'' (ev_tags ev)) (sn_db st) = None"
    and "\<forall>e\<in>set (QueryEvents (newest_filter ev) (sn_db st)). ev_created_at e < ev_created_at ev"
  shows "handleEventUpdate env ev st = Err st"
  using assms by (auto simp: handleEventUpdate_def store_update_def store_for_transaction_def Let_def split: list.splits)

definition vouched :: "update_env \<Rightarrow> database \<Rightarrow> string \<Rightarrow> bool" where
  "vouched env d address \<longleftrightarrow> spotCheckPeerData env address d
     \<and> (\<exists>attempt body info. su_node_info env (trim_slashes address @ ''/dnn/node-info'') attempt = Some (200, body)
          \<and> attempt \<in> {1, 2, 3} \<and> unmarshal (as_object node_info_json) body = Some info
          \<and> ni_GenesisBlock info = GetGenesisBlock (ch_network env) \<and> (ni_NodeNpub info \<noteq> [] \<or> ni_NodePubkey info \<noteq> []))"

lemma attempt_vouched: "verify_attempt env address d k = Some (Verified n p a) \<Longrightarrow> k \<in> {1, 2, 3} \<Longrightarrow> vouched env d address"
  by (auto simp: verify_attempt_def vouched_def split: option.splits prod.splits if_splits)

lemma verified_vouched: "verifyNodeEndpoint env address d = Verified n p a \<Longrightarrow> vouched env d address"
  using attempt_vouched[of env address d] by (auto simp: verifyNodeEndpoint_def split: option.splits)

lemma discover_addresses_new:
  "discover_addresses env announcer as st = Inr st' \<Longrightarrow> r \<in> set (peer_nodes (sn_marks st')) \<Longrightarrow>
   r \<in> set (peer_nodes (sn_marks st)) \<or>
   pn_announced_by r = announcer \<and> to_lower (pn_address r) \<notin> set (map to_lower (su_AnnounceAddresses env))
   \<and> vouched env (sn_db st) (pn_address r)"
proof (induction as arbitrary: st)
  case (Cons x as)
  show ?case
  proof (cases "to_lower x \<in> set (map to_lower (su_AnnounceAddresses env)) \<or> PeerAddressExists x (sn_marks st)")
    case True
    then show ?thesis using Cons by simp
  next
    case False
    show ?thesis
    proof (cases "verifyNodeEndpoint env x (sn_db st)")
      case (Verified npub pubkey admin)
      let ?st = "st\<lparr>sn_marks := StorePeerNode (ch_now env) \<lparr> pn_address = x, pn_node_npub = npub, pn_node_pubkey = pubkey,
        pn_admin_pubkey = admin, pn_announced_by = announcer, pn_is_verified = False, pn_fail_count = 0,
        pn_last_checked = None, pn_last_seen = None, pn_discovered_at = 0 \<rparr> (sn_marks st)\<rparr>"
      have "discover_addresses env announcer as ?st = Inr st'" using Cons.prems(1) False Verified by simp
      note ih = Cons.IH[OF this Cons.prems(2)]
      have "r \<in> set (peer_nodes (sn_marks st)) \<or> pn_address r = x \<and> pn_announced_by r = announcer"
        if "r \<in> set (peer_nodes (sn_marks ?st))"
        using that by (auto simp: StorePeerNode_def pn_table.replace_set)
      then show ?thesis using ih False verified_vouched[OF Verified] by auto
    qed (use Cons False in auto)
  qed
qed auto

text \<open>
  C23. A peer is only added when it answered for the node's own chain: after a discovery event that
  did not panic, a peer whose address was not known before was announced by the author of the event,
  is not one of the node's own addresses, and in one of three attempts its node information named an
  identity and the genesis block of the network, and its answer for a stored transaction did not
  contradict the database.
\<close>

theorem peers_are_vouched_for:
  assumes "handleNodeDiscoveryEvent env ev st = Ok st'" "r \<in> set (peer_nodes (sn_marks st'))" "r \<notin> set (peer_nodes (sn_marks st))"
  shows "pn_announced_by r = ev_pubkey ev \<and> to_lower (pn_address r) \<notin> set (map to_lower (su_AnnounceAddresses env))
    \<and> vouched env (sn_db st) (pn_address r)"
proof -
  obtain addresses st1 where "discover_addresses env (ev_pubkey ev) addresses st = Inr st1" "sn_marks st' = sn_marks st1"
    using assms by (auto simp: handleNodeDiscoveryEvent_def Let_def split: option.splits if_splits sum.splits)
  then show ?thesis using discover_addresses_new assms(2,3) by metis
qed

section \<open>Examples\<close>

text \<open>\<^verbatim>\<open>{"node_npub":"npub1peer","genesis_block":940000}\<close> and \<^verbatim>\<open>{"dns_addresses":["https://peer"]}\<close>\<close>

definition peer_info :: string where
  "peer_info = (let q = (\<lambda>s. [CHR 0x22] @ s @ [CHR 0x22]) in
     ''{'' @ q ''node_npub'' @ '':'' @ q ''npub1peer'' @ '','' @ q ''genesis_block'' @ '':940000}'')"

definition announcement :: event where
  "announcement = (let q = (\<lambda>s. [CHR 0x22] @ s @ [CHR 0x22]) in
     \<lparr> ev_id = ''announcement'', ev_pubkey = ''announcer'', ev_created_at = 5, ev_kind = 64600, ev_tags = [[''t'', ''DNN'']],
       ev_content = ''{'' @ q ''dns_addresses'' @ '':['' @ q ''https://peer'' @ '']}'', ev_sig = ''s'' \<rparr>)"

definition peer_env :: update_env where
  "peer_env = sync_env.extend quiet_env (update_env.fields [''https://me''] [''wss://Relay''] (\<lambda>_. None)
     (\<lambda>_ n. if n = 2 then Some (200, peer_info) else None) (\<lambda>_. None) 0 (\<lambda>_ _. None) (\<lambda>_. None))"

definition fresh_syncer :: syncer_state where
  "fresh_syncer = \<lparr> sn_db = empty_db, sn_marks = \<lparr> local_marks = [], peer_marks = [], peer_nodes = [] \<rparr>, sn_relays = [], sn_cache = [] \<rparr>"

theorem rebroadcast_once_witness:
  "\<exists>a b c. rebroadcasts peer_env [(1000, [], announcement), (1100, [], announcement), (1900, [], announcement)] fresh_syncer = [a, b, c]
     \<and> snd (snd a) \<noteq> [] \<and> snd (snd b) = [] \<and> snd (snd c) \<noteq> [] \<and> fst c - fst a \<ge> 900"
proof -
  let ?xs = "[(1000 :: int, [], announcement), (1100, [], announcement), (1900, [], announcement)]"
  let ?a = "(1000, ''announcement'', [''wss://relay''])" and ?c = "(1900, ''announcement'', [''wss://relay''])"
  have e: "rebroadcasts peer_env ?xs fresh_syncer = [?a, (1100, ''announcement'', []), ?c]" by code_simp
  have "sorted (map fst ?xs)" "distinct (map fst (sn_cache fresh_syncer))" by (simp_all add: fresh_syncer_def)
  from rebroadcast_once[OF this, of peer_env] show ?thesis unfolding e by simp
qed

definition short_anchor :: event where
  "short_anchor = announcement\<lparr>ev_kind := 60600, ev_tags := [[''t'', ''DNN''], [''x'', ''deadbeef'']]\<rparr>"

theorem short_transaction_id_crashes_witness:
  "handleEventUpdate peer_env short_anchor fresh_syncer = Err fresh_syncer"
proof (rule short_transaction_id_crashes)
  have "QueryEvents (newest_filter short_anchor) (sn_db fresh_syncer) = []" by code_simp
  then show "\<forall>e\<in>set (QueryEvents (newest_filter short_anchor) (sn_db fresh_syncer)). ev_created_at e < ev_created_at short_anchor"
    by simp
qed (code_simp+)


lemma genesis_text: "parse_int64 ''940000'' = Some 940000"
  by (simp add: parse_int64_def dec_val_def all_digits_def in64_def digit_val_def is_digit_def Let_def byte_of_def)

lemma peer_answer:
  "unmarshal (as_object node_info_json) peer_info
     = Some \<lparr> ni_NodeNpub = ''npub1peer'', ni_NodePubkey = [], ni_AdminNpub = [], ni_GenesisBlock = 940000 \<rparr>"
proof -
  have "parse_json peer_info = Some (JObj [(''node_npub'', JStr ''npub1peer''), (''genesis_block'', JNum ''940000'')])" by code_simp
  moreover have "map (\<lambda>n. members n [(''node_npub'', JStr ''npub1peer''), (''genesis_block'', JNum ''940000'')])
      [''node_npub'', ''node_pubkey'', ''admin_npub'', ''genesis_block'', ''network''] = [[JStr ''npub1peer''], [], [], [JNum ''940000''], []]"
    by code_simp
  ultimately show ?thesis
    by (simp add: unmarshal_def as_object_def node_info_json_def field_def as_string_def as_int64_def genesis_text)
qed

lemma peer_verified: "verifyNodeEndpoint peer_env ''https://peer'' empty_db = Verified ''npub1peer'' [] []"
proof -
  have "verify_attempt peer_env ''https://peer'' empty_db 1 = None" by (simp add: verify_attempt_def peer_env_def sync_env.defs update_env.defs)
  moreover have "verify_attempt peer_env ''https://peer'' empty_db 2 = Some (Verified ''npub1peer'' [] [])"
    by (simp add: verify_attempt_def peer_answer peer_env_def sync_env.defs update_env.defs quiet_env_def
        spotCheckPeerData_def GetRandomBitcoinTransaction_def empty_db_def)
  ultimately show ?thesis by (simp add: verifyNodeEndpoint_def)
qed

theorem peers_are_vouched_for_witness:
  "\<exists>st' r. handleNodeDiscoveryEvent peer_env announcement fresh_syncer = Ok st' \<and> r \<in> set (peer_nodes (sn_marks st'))
     \<and> pn_address r = ''https://peer'' \<and> vouched peer_env (sn_db fresh_syncer) ''https://peer''"
proof -
  have c: "unmarshal (as_object discovery_json) (ev_content announcement) = Some ([''https://peer''], [])" by code_simp
  have "to_lower ''https://peer'' \<notin> set (map to_lower (su_AnnounceAddresses peer_env))"
    "\<not> PeerAddressExists ''https://peer'' (sn_marks fresh_syncer)" by code_simp+
  then obtain st' r where st': "handleNodeDiscoveryEvent peer_env announcement fresh_syncer = Ok st'"
    and r: "r \<in> set (peer_nodes (sn_marks st'))" "pn_address r = ''https://peer''"
    by (simp add: handleNodeDiscoveryEvent_def c peer_verified fresh_syncer_def StorePeerNode_def pn_table.replace_set)
  moreover have "r \<notin> set (peer_nodes (sn_marks fresh_syncer))" by (simp add: fresh_syncer_def)
  ultimately show ?thesis using peers_are_vouched_for[OF st'] by metis
qed

end
