(* ===== verification/Pending.thy ===== *)
theory Pending
  imports Sync
begin

text \<open>
  \<open>SyncPendingTransactions\<close> of \<^verbatim>\<open>src/internal/sync/syncer.go\<close> and its queries in
  \<^verbatim>\<open>src/internal/database/queries.go\<close>: the loop that asks the relays for the anchors of stored
  transactions, and what it does and does not reach.
\<close>

section \<open>Pending transactions\<close>

definition GetUncheckedBitcoinTransactions :: "nat \<Rightarrow> database \<Rightarrow> btx_row list" where
  "GetUncheckedBitcoinTransactions limit d =
     take limit (order_by (\<lambda>r. - t_discovered_at r)
       (filter (\<lambda>r. t_checked_at r = None \<and> \<not> t_has_anchor r) (bitcoin_transactions d)))"

definition GetCheckedTransactionsWithoutAnchor :: "nat \<Rightarrow> database \<Rightarrow> btx_row list" where
  "GetCheckedTransactionsWithoutAnchor limit d =
     take limit (order_by t_discovered_at
       (filter (\<lambda>r. t_checked_at r \<noteq> None \<and> \<not> t_has_anchor r) (bitcoin_transactions d)))"

definition MarkTransactionsRelayChecked :: "int \<Rightarrow> string list \<Rightarrow> database \<Rightarrow> database" where
  "MarkTransactionsRelayChecked now txIDs d =
     foldl (\<lambda>d txID. d\<lparr>bitcoin_transactions := update_where (\<lambda>r. t_id r = txID)
       (\<lambda>r. r\<lparr>t_checked_at := Some now\<rparr>) (bitcoin_transactions d)\<rparr>) d txIDs"

fun store_pending :: "sync_env \<Rightarrow> (string \<Rightarrow> event option) \<Rightarrow> btx_row list \<Rightarrow> nat \<Rightarrow> database \<Rightarrow> (database, nat \<times> database) res" where
  "store_pending env found [] n d = Ok (n, d)"
| "store_pending env found (tx # txs) n d =
     (case found (t_id tx) of
        None \<Rightarrow> store_pending env found txs n d
      | Some ev \<Rightarrow>
          (case store_found env False (t_bitcoin_block tx) (t_bitcoin_block tx - GetGenesisBlock (ch_network env))
                  (t_position tx) ev d of
             Inl c \<Rightarrow> Inl c
           | Inr d' \<Rightarrow> store_pending env found txs (n + 1) d'))"

definition batchSize :: nat where "batchSize = 200"

definition maxIterations :: nat where "maxIterations = 100"

fun pending_loop :: "nat \<Rightarrow> sync_env \<Rightarrow> database \<Rightarrow> (database, database) res" where
  "pending_loop 0 env d = Ok d"
| "pending_loop (Suc n) env d =
     (let unchecked = GetUncheckedBitcoinTransactions batchSize d;
          allToCheck = unchecked @ GetCheckedTransactionsWithoutAnchor batchSize d
      in if allToCheck = [] then Ok d
         else case store_pending env (findAnchorEventsForTransactionsBatch env (map t_id allToCheck)) allToCheck 0 d of
           Inl c \<Rightarrow> Inl c
         | Inr (foundCount, d') \<Rightarrow>
             let d'' = MarkTransactionsRelayChecked (ch_now env) (map t_id unchecked) d'
             in if foundCount = 0 \<and> unchecked = [] then Ok d'' else pending_loop n env d'')"

definition SyncPendingTransactions :: "sync_env \<Rightarrow> database \<Rightarrow> (database, database) res" where
  "SyncPendingTransactions env d = pending_loop maxIterations env d"

section \<open>Progress\<close>

lemma store_pending_kept:
  "case store_pending env found txs n d of Inl d' \<Rightarrow> chain_kept d d' | Inr (m, d') \<Rightarrow> chain_kept d d'"
proof (induction txs arbitrary: n d)
  case (Cons tx txs)
  show ?case
  proof (cases "found (t_id tx)")
    case (Some ev)
    let ?r = "store_found env False (t_bitcoin_block tx) (t_bitcoin_block tx - GetGenesisBlock (ch_network env)) (t_position tx) ev d"
    have k: "chain_kept d (outcome_db ?r)" by (rule store_found_kept)
    show ?thesis
    proof (cases ?r)
      case (Inr d')
      then show ?thesis using k Cons.IH[where n = "n + 1" and d = d'] Some chain_kept_trans
        by (auto split: sum.splits prod.splits)
    qed (use k Some in simp)
  qed (simp add: Cons.IH)
qed simp

definition unchecked_rows :: "database \<Rightarrow> btx_row list" where
  "unchecked_rows d = filter (\<lambda>r. t_checked_at r = None \<and> \<not> t_has_anchor r) (bitcoin_transactions d)"

text \<open>Marking as a map over the rows.\<close>

lemma mark_rows:
  "bitcoin_transactions (MarkTransactionsRelayChecked now ids d)
     = map (\<lambda>r. if t_id r \<in> set ids then r\<lparr>t_checked_at := Some now\<rparr> else r) (bitcoin_transactions d)"
proof -
  have "bitcoin_transactions (foldl (\<lambda>d txID. d\<lparr>bitcoin_transactions := update_where (\<lambda>r. t_id r = txID)
       (\<lambda>r. r\<lparr>t_checked_at := Some now\<rparr>) (bitcoin_transactions d)\<rparr>) d ids)
     = map (\<lambda>r. if t_id r \<in> set ids then r\<lparr>t_checked_at := Some now\<rparr> else r) (bitcoin_transactions d)" for d
    by (induction ids arbitrary: d) (auto simp: update_where_def)
  then show ?thesis by (simp add: MarkTransactionsRelayChecked_def)
qed

lemma filter_length_list_all2:
  "list_all2 anchored_from t u \<Longrightarrow>
    length (filter (\<lambda>r. t_checked_at r = None \<and> \<not> t_has_anchor r \<and> P (t_id r)) u)
      \<le> length (filter (\<lambda>r. t_checked_at r = None \<and> \<not> t_has_anchor r \<and> P (t_id r)) t)"
  by (induction rule: list_all2_induct) (auto simp: anchored_from_def)

lemma length_filter_split: "length (filter P xs) = length (filter (\<lambda>x. P x \<and> Q x) xs) + length (filter (\<lambda>x. P x \<and> \<not> Q x) xs)"
  by (induction xs) auto

lemma marked_unchecked:
  "length (unchecked_rows (MarkTransactionsRelayChecked now ids d))
     = length (filter (\<lambda>r. t_checked_at r = None \<and> \<not> t_has_anchor r \<and> t_id r \<notin> set ids) (bitcoin_transactions d))"
proof -
  have "length (filter (\<lambda>r. t_checked_at r = None \<and> \<not> t_has_anchor r)
        (map (\<lambda>r. if t_id r \<in> set ids then r\<lparr>t_checked_at := Some now\<rparr> else r) t))
      = length (filter (\<lambda>r. t_checked_at r = None \<and> \<not> t_has_anchor r \<and> t_id r \<notin> set ids) t)" for t :: "btx_row list"
    by (induction t) auto
  then show ?thesis unfolding unchecked_rows_def mark_rows .
qed

lemma asked_first:
  assumes "ids = map t_id (GetUncheckedBitcoinTransactions n d)"
  shows "length (filter (\<lambda>r. t_checked_at r = None \<and> \<not> t_has_anchor r \<and> t_id r \<notin> set ids) (bitcoin_transactions d))
    + min n (length (unchecked_rows d)) \<le> length (unchecked_rows d)"
proof -
  let ?u = "GetUncheckedBitcoinTransactions n d" and ?P = "\<lambda>r. t_id r \<in> set ids"
  have u: "?u = take n (order_by (\<lambda>r. - t_discovered_at r) (unchecked_rows d))"
    by (simp add: GetUncheckedBitcoinTransactions_def unchecked_rows_def)
  have "mset ?u \<subseteq># mset (unchecked_rows d)"
    unfolding u using mset_subset_eq_add_left[of "mset (take n (order_by (\<lambda>r. - t_discovered_at r) (unchecked_rows d)))"
        "mset (drop n (order_by (\<lambda>r. - t_discovered_at r) (unchecked_rows d)))"]
    by (simp flip: mset_append)
  then have "filter_mset ?P (mset ?u) \<subseteq># filter_mset ?P (mset (unchecked_rows d))" by (rule multiset_filter_mono)
  moreover have "filter ?P ?u = ?u" by (rule filter_True) (simp add: assms)
  then have "filter_mset ?P (mset ?u) = mset ?u" by (metis mset_filter)
  ultimately have "length ?u \<le> length (filter ?P (unchecked_rows d))"
    using size_mset_mono[of "mset ?u" "filter_mset ?P (mset (unchecked_rows d))"] by (simp flip: mset_filter)
  moreover have "length ?u = min n (length (unchecked_rows d))" by (simp add: u min.commute)
  moreover have "filter (\<lambda>r. \<not> ?P r) (unchecked_rows d)
      = filter (\<lambda>r. t_checked_at r = None \<and> \<not> t_has_anchor r \<and> t_id r \<notin> set ids) (bitcoin_transactions d)"
    by (simp add: unchecked_rows_def conj_commute conj_left_commute)
  ultimately show ?thesis
    using sum_length_filter_compl[of ?P "unchecked_rows d"] by simp
qed

lemma kept_unchecked:
  assumes "chain_kept d d'"
  shows "length (filter (\<lambda>r. t_checked_at r = None \<and> \<not> t_has_anchor r \<and> P (t_id r)) (bitcoin_transactions d'))
    \<le> length (filter (\<lambda>r. t_checked_at r = None \<and> \<not> t_has_anchor r \<and> P (t_id r)) (bitcoin_transactions d))"
  using assms by (intro filter_length_list_all2) (simp add: chain_kept_def)

lemma iteration_progress:
  assumes "store_pending env found txs k d = Inr (m, d')"
  shows "length (unchecked_rows (MarkTransactionsRelayChecked now (map t_id (GetUncheckedBitcoinTransactions n d)) d'))
    + min n (length (unchecked_rows d)) \<le> length (unchecked_rows d)"
proof -
  have k: "chain_kept d d'" using store_pending_kept[where env = env and found = found and txs = txs and n = k and d = d] assms by simp
  show ?thesis
    unfolding marked_unchecked
    using kept_unchecked[OF k, of "\<lambda>i. i \<notin> set (map t_id (GetUncheckedBitcoinTransactions n d))"]
      asked_first[OF refl, where n = n and d = d] by linarith
qed

lemma GetUnchecked_empty: "n > 0 \<Longrightarrow> GetUncheckedBitcoinTransactions n d = [] \<longleftrightarrow> unchecked_rows d = []"
  by (auto simp: GetUncheckedBitcoinTransactions_def unchecked_rows_def)

lemma pending_loop_marks:
  "pending_loop n env d = Inr d' \<Longrightarrow> length (unchecked_rows d) \<le> batchSize * n \<Longrightarrow> unchecked_rows d' = []"
proof (induction n arbitrary: d)
  case (Suc n)
  let ?u = "GetUncheckedBitcoinTransactions batchSize d"
  let ?all = "?u @ GetCheckedTransactionsWithoutAnchor batchSize d"
  have pos: "batchSize > 0" by (simp add: batchSize_def)
  show ?case
  proof (cases "?all = []")
    case True
    then have "unchecked_rows d = []" using GetUnchecked_empty[OF pos] by simp
    then show ?thesis using Suc.prems(1) True by simp
  next
    case False
    obtain m d1 where s: "store_pending env (findAnchorEventsForTransactionsBatch env (map t_id ?all)) ?all 0 d = Inr (m, d1)"
      using Suc.prems(1) False by (auto simp: Let_def split: sum.splits)
    let ?d2 = "MarkTransactionsRelayChecked (ch_now env) (map t_id ?u) d1"
    note P = iteration_progress[OF s, of "ch_now env" batchSize]
    have r: "(if m = 0 \<and> ?u = [] then Inr ?d2 else pending_loop n env ?d2) = Inr d'"
      using Suc.prems(1) False s by (auto simp: Let_def)
    show ?thesis
    proof (cases "m = 0 \<and> ?u = []")
      case True
      then have "unchecked_rows d = []" using GetUnchecked_empty[OF pos] by simp
      then have "unchecked_rows ?d2 = []" using P by simp
      then show ?thesis using r True by simp
    next
      case False
      have "length (unchecked_rows ?d2) \<le> batchSize * n" using P Suc.prems(2) by (auto simp: min_def split: if_splits)
      then show ?thesis using r False Suc.IH[of ?d2] by auto
    qed
  qed
qed simp

section \<open>Properties\<close>

text \<open>
  C31.  Every new transaction is asked for: with at most 20000 unchecked transactions, a run of
  \<open>SyncPendingTransactions\<close> that does not panic ends with every stored transaction checked on
  the relays or anchored.
\<close>

theorem new_transactions_are_asked_for:
  assumes "length (unchecked_rows d) \<le> 20000" "SyncPendingTransactions env d = Ok d'"
  shows "\<forall>r\<in>set (bitcoin_transactions d'). t_checked_at r \<noteq> None \<or> t_has_anchor r"
proof -
  have "unchecked_rows d' = []"
    using pending_loop_marks[of maxIterations env d d'] assms
    by (simp add: SyncPendingTransactions_def batchSize_def maxIterations_def)
  then show ?thesis by (auto simp: unchecked_rows_def filter_empty_conv)
qed

definition one_tx_db :: database where
  "one_tx_db = StoreBitcoinTransaction 5 ''t1'' 940007 7 1 ''bc1qa'' 90 0 0 empty_db"

theorem new_transactions_are_asked_for_witness:
  "\<exists>d'. SyncPendingTransactions quiet_env one_tx_db = Ok d'
    \<and> list_all (\<lambda>r. t_checked_at r \<noteq> None \<or> t_has_anchor r) (bitcoin_transactions d')"
proof -
  have "case SyncPendingTransactions quiet_env one_tx_db of Inl _ \<Rightarrow> False | Inr _ \<Rightarrow> True" by code_simp
  then obtain d' where d': "SyncPendingTransactions quiet_env one_tx_db = Ok d'" by (auto split: sum.splits)
  have "length (unchecked_rows one_tx_db) \<le> 20000" by code_simp
  from new_transactions_are_asked_for[OF this d'] show ?thesis using d' by (simp add: list_all_iff)
qed

text \<open>
  Late anchors can starve: once nothing is unchecked, only the oldest 200 transactions
  without an anchor are asked for; when none of those has one the run ends at once, and a
  younger transaction is not asked for, whatever the relays hold for it.
\<close>

lemma younger_transactions_starve:
  assumes "unchecked_rows d = []"
    and "\<forall>r\<in>set (GetCheckedTransactionsWithoutAnchor 200 d).
      findAnchorEventsForTransactionsBatch env (map t_id (GetCheckedTransactionsWithoutAnchor 200 d)) (t_id r) = None"
  shows "SyncPendingTransactions env d = Ok d
    \<and> (\<forall>r\<in>set (bitcoin_transactions d). \<not> t_has_anchor r \<longrightarrow> r \<notin> set (GetCheckedTransactionsWithoutAnchor 200 d) \<longrightarrow>
        length (GetCheckedTransactionsWithoutAnchor 200 d) = 200
        \<and> (\<forall>s\<in>set (GetCheckedTransactionsWithoutAnchor 200 d). t_discovered_at s \<le> t_discovered_at r))"
proof
  let ?c = "GetCheckedTransactionsWithoutAnchor 200 d"
  have u: "GetUncheckedBitcoinTransactions 200 d = []" using assms(1) by (simp add: GetUnchecked_empty)
  have st: "store_pending env found txs n d = Inr (n, d)" if "\<forall>r\<in>set txs. found (t_id r) = None" for found txs n
    using that by (induction txs) auto
  have "pending_loop (Suc n) env d = Ok d" for n
    using u st[OF assms(2)] by (simp add: batchSize_def Let_def MarkTransactionsRelayChecked_def)
  note loop = this
  have "maxIterations = Suc 99" by (simp add: maxIterations_def)
  then show "SyncPendingTransactions env d = Ok d"
    unfolding SyncPendingTransactions_def by (metis loop)
  show "\<forall>r\<in>set (bitcoin_transactions d). \<not> t_has_anchor r \<longrightarrow> r \<notin> set ?c \<longrightarrow>
        length ?c = 200 \<and> (\<forall>s\<in>set ?c. t_discovered_at s \<le> t_discovered_at r)"
  proof (intro ballI impI)
    fix r assume r: "r \<in> set (bitcoin_transactions d)" "\<not> t_has_anchor r" "r \<notin> set ?c"
    let ?o = "order_by t_discovered_at (filter (\<lambda>r. t_checked_at r \<noteq> None \<and> \<not> t_has_anchor r) (bitcoin_transactions d))"
    have "t_checked_at r \<noteq> None" using r(1,2) assms(1) by (auto simp: unchecked_rows_def filter_empty_conv)
    then have "r \<in> set ?o" using r(1,2) by simp
    moreover have c: "?c = take 200 ?o" by (simp add: GetCheckedTransactionsWithoutAnchor_def)
    ultimately have "r \<in> set (take 200 ?o) \<union> set (drop 200 ?o)" by (simp only: set_append[symmetric] append_take_drop_id)
    then have "r \<in> set (drop 200 ?o)" using r(3) unfolding c by (simp only: Un_iff simp_thms)
    then have "drop 200 ?o \<noteq> []" by (metis list.set(1) empty_iff)
    then have "length ?o > 200" by (simp only: drop_eq_Nil not_le)
    then have "length ?c = 200" unfolding c by (simp only: length_take min_absorb2 less_imp_le)
    moreover have "sorted (map t_discovered_at (take 200 ?o @ drop 200 ?o))" by (simp only: append_take_drop_id order_by_sorted)
    then have "t_discovered_at s \<le> t_discovered_at r" if "s \<in> set ?c" for s
      using that \<open>r \<in> set (drop 200 ?o)\<close> unfolding c by (auto simp: sorted_append simp del: append_take_drop_id)
    ultimately show "length ?c = 200 \<and> (\<forall>s\<in>set ?c. t_discovered_at s \<le> t_discovered_at r)" by blast
  qed
qed

text \<open>A full queue: 200 old transactions without anchors and a younger one that has one on a relay.\<close>

definition queued :: "nat \<Rightarrow> btx_row" where
  "queued i = \<lparr> t_id = replicate i CHR ''a'', t_bitcoin_block = 940007, t_dnn_block = 7, t_position = int i + 1,
     t_address = ''bc1qa'', t_fee_rate = 1, t_tie_position = 0, t_tie_digit = 0, t_discovered_at = int i, t_has_anchor = False,
     t_anchor_id = None, t_checked_at = Some 1 \<rparr>"

definition full_queue :: database where
  "full_queue = empty_db\<lparr>bitcoin_transactions := map queued [1..<202]\<rparr>"

definition answering_env :: sync_env where
  "answering_env = quiet_env\<lparr>sy_answers := (\<lambda>ids. [[(anchor_event ''e1'' ''owner'' 10 ''names'')
     \<lparr>ev_tags := [[''x'', replicate 201 CHR ''a'']]\<rparr>]])\<rparr>"

lemma insert_by_first: "\<forall>s\<in>set t. k r \<le> k s \<Longrightarrow> insert_by k r t = r # t"
  by (cases t) auto

lemma order_by_sorted_id: "sorted_wrt (\<lambda>r s. k r \<le> k s) t \<Longrightarrow> order_by k t = t"
  by (induction t) (auto simp: order_by_def insert_by_first)

lemma younger_transactions_starve_example:
  "SyncPendingTransactions answering_env full_queue = Ok full_queue
    \<and> findAnchorEventsForTransactionsBatch answering_env [replicate 201 CHR ''a''] (replicate 201 CHR ''a'') \<noteq> None
    \<and> replicate 201 CHR ''a'' \<in> set (map t_id (bitcoin_transactions full_queue))"
proof -
  let ?c = "GetCheckedTransactionsWithoutAnchor 200 full_queue"
  have "sorted_wrt (\<lambda>r s. t_discovered_at r \<le> t_discovered_at s) (map queued [1..<202])"
    by (simp add: sorted_wrt_map queued_def sorted_wrt_iff_nth_less)
  then have o: "order_by t_discovered_at (map queued [1..<202]) = map queued [1..<202]" by (rule order_by_sorted_id)
  have f: "filter (\<lambda>r. t_checked_at r \<noteq> None \<and> \<not> t_has_anchor r) (map queued [1..<202]) = map queued [1..<202]"
    by (simp add: filter_id_conv queued_def)
  have c: "?c = map queued [1..<201]"
  proof -
    have t: "take 200 [1..<202] = [1..<201]" by simp
    have bt: "bitcoin_transactions full_queue = map queued [1..<202]" by (simp add: full_queue_def)
    show ?thesis
      unfolding GetCheckedTransactionsWithoutAnchor_def bt f o take_map t ..
  qed
  have u: "unchecked_rows full_queue = []"
    by (simp add: unchecked_rows_def full_queue_def filter_empty_conv queued_def)
  have "findAnchorEventsForTransactionsBatch answering_env (map t_id ?c) (t_id r) = None" if rin: "r \<in> set ?c" for r
  proof (rule ccontr)
    assume "findAnchorEventsForTransactionsBatch answering_env (map t_id ?c) (t_id r) \<noteq> None"
    then obtain b where "findAnchorEventsForTransactionsBatch answering_env (map t_id ?c) (t_id r) = Some b" by blast
    then have "first_tag ''x'' [[''x'', replicate 201 CHR ''a'']] = t_id r"
      using batch_some[of answering_env "map t_id ?c" "t_id r" b] by (auto simp: answering_env_def)
    moreover have "first_tag ''x'' [[''x'', replicate 201 CHR ''a'']] = replicate 201 CHR ''a''" by (simp add: first_tag_def tag_vals_def tag_is_def)
    moreover obtain i where "r = queued i" "i < 201" using rin unfolding c by auto
    ultimately have "replicate 201 CHR ''a'' = replicate i CHR ''a''" "i < 201" by (simp_all add: queued_def)
    then show False using arg_cong[of "replicate 201 CHR ''a''" "replicate i CHR ''a''" length] by simp
  qed
  then have "SyncPendingTransactions answering_env full_queue = Ok full_queue"
    using younger_transactions_starve[OF u, of answering_env] by blast
  moreover have "findAnchorEventsForTransactionsBatch answering_env [replicate 201 CHR ''a''] (replicate 201 CHR ''a'') \<noteq> None"
    by (simp add: findAnchorEventsForTransactionsBatch_def queryRelayForBatch_def batch_step_def answering_env_def first_tag_def
        tag_vals_def tag_is_def Let_def)
  moreover have "replicate 201 CHR ''a'' = t_id (queued 201)" by (simp add: queued_def)
  then have "replicate 201 CHR ''a'' \<in> set (map t_id (bitcoin_transactions full_queue))"
    unfolding full_queue_def by force
  ultimately show ?thesis by blast
qed

end
