(* ===== verification/Marshal.thy ===== *)
theory Marshal
  imports Json
begin

text \<open>
  Go's \<^verbatim>\<open>json.Marshal\<close> for strings, lists of strings and maps to them, and that the decoder reads back
  what it writes.  A string is written with the escapes of the encoder (quotes, control characters,
  the HTML characters and U+2028, U+2029); a byte that is not part of valid UTF-8 becomes U+FFFD.
\<close>

section \<open>Strings\<close>

definition hex_digit :: "nat \<Rightarrow> char" where
  "hex_digit n = (if n < 10 then char_of (48 + n) else char_of (87 + n))"

definition escaped_byte :: "char \<Rightarrow> string" where
  "escaped_byte c =
     (let b = byte_of c in
      if b = 34 \<or> b = 92 then [CHR 0x5C, c]
      else if b = 8 then [CHR 0x5C, CHR ''b'']
      else if b = 12 then [CHR 0x5C, CHR ''f'']
      else if b = 10 then [CHR 0x5C, CHR ''n'']
      else if b = 13 then [CHR 0x5C, CHR ''r'']
      else if b = 9 then [CHR 0x5C, CHR ''t'']
      else if b < 32 \<or> b = 60 \<or> b = 62 \<or> b = 38
        then [CHR 0x5C, CHR ''u'', CHR ''0'', CHR ''0'', hex_digit (b div 16), hex_digit (b mod 16)]
      else [c])"

definition replacement :: string where
  "replacement = [CHR 0x5C, CHR ''u'', CHR ''f'', CHR ''f'', CHR ''f'', CHR ''d'']"

text \<open>U+2028 and U+2029 as bytes.\<close>

definition line_separator :: "string \<Rightarrow> bool" where
  "line_separator s \<longleftrightarrow> map byte_of (take 2 s) = [226, 128] \<and> length s \<ge> 3 \<and> byte_of (s ! 2) \<in> {168, 169}"

function escape_string :: "string \<Rightarrow> string" where
  "escape_string [] = []"
| "escape_string (c # r) =
     (if byte_of c < 128 then escaped_byte c @ escape_string r
      else
        let n = utf8_len (c # r) in
        if n = 0 then replacement @ escape_string r
        else (if line_separator (c # r)
              then [CHR 0x5C, CHR ''u'', CHR ''2'', CHR ''0'', CHR ''2'', hex_digit (byte_of (r ! 1) - 160)]
              else take n (c # r)) @ escape_string (drop (n - 1) r))"
  by pat_completeness auto
termination by (relation "measure length") auto

definition marshal_string :: "string \<Rightarrow> string" where
  "marshal_string s = CHR 0x22 # escape_string s @ [CHR 0x22]"

text \<open>What is left of a string when every byte outside valid UTF-8 is replaced by U+FFFD.\<close>

function valid_part :: "string \<Rightarrow> string" where
  "valid_part [] = []"
| "valid_part (c # r) =
     (let n = utf8_len (c # r) in
      if n = 0 then utf8 65533 @ valid_part r else take n (c # r) @ valid_part (drop (n - 1) r))"
  by pat_completeness auto
termination by (relation "measure length") auto

section \<open>Slices and maps\<close>

text \<open>A nil slice is \<open>None\<close>.  The keys of a map come in the order of their bytes.\<close>

definition marshal_strings :: "string list \<Rightarrow> string" where
  "marshal_strings xs = CHR ''['' # join_on '','' (map marshal_string xs) @ '']''"

definition marshal_slice :: "string list option \<Rightarrow> string" where
  "marshal_slice xs = (case xs of None \<Rightarrow> ''null'' | Some l \<Rightarrow> marshal_strings l)"

definition marshal_member :: "string \<times> string list option \<Rightarrow> string" where
  "marshal_member kv = marshal_string (fst kv) @ CHR '':'' # marshal_slice (snd kv)"

definition marshal_map :: "(string \<times> string list option) list \<Rightarrow> string" where
  "marshal_map kvs = CHR ''{'' # join_on '','' (map marshal_member kvs) @ ''}''"

section \<open>Reading back\<close>

lemma byte_in_take: "i < n \<Longrightarrow> n \<le> length s \<Longrightarrow> byte_in i lo hi (take n s @ t) = byte_in i lo hi s"
  by (simp add: byte_in_def nth_append)

lemma utf8_len_length: "utf8_len s \<le> length s"
proof -
  have "byte_in i lo hi s \<Longrightarrow> Suc i \<le> length s" for i lo hi by (simp add: byte_in_def)
  then have "byte_in 0 0 127 s \<Longrightarrow> 1 \<le> length s" "seq2 s \<Longrightarrow> 2 \<le> length s" "seq3 s \<Longrightarrow> 3 \<le> length s"
    "seq4 s \<Longrightarrow> 4 \<le> length s"
    unfolding seq2_def seq3_def seq4_def by (fastforce dest: conjunct1 conjunct2)+
  then show ?thesis by (simp add: utf8_len_def)
qed

lemma utf8_len_range: "utf8_len s \<le> 4"
  by (simp add: utf8_len_def)

lemma first_byte_kinds:
  "seq2 s \<Longrightarrow> \<not> byte_in 0 0 127 s" "seq3 s \<Longrightarrow> \<not> byte_in 0 0 127 s \<and> \<not> seq2 s"
  "seq4 s \<Longrightarrow> \<not> byte_in 0 0 127 s \<and> \<not> seq2 s \<and> \<not> seq3 s"
  by (auto simp: seq2_def seq3_def seq4_def byte_in_def)

lemma utf8_len_take: "utf8_len s = n \<Longrightarrow> 0 < n \<Longrightarrow> utf8_len (take n s @ t) = n"
proof -
  assume n: "utf8_len s = n" "0 < n"
  have l: "n \<le> length s" using utf8_len_length[of s] n(1) by simp
  have at0: "take n s @ t \<noteq> []" "(take n s @ t) ! i = s ! i" if "i < n" for i
    using n l that by (auto simp: nth_append)
  consider "n = 1" "byte_in 0 0 127 s" | "n = 2" "seq2 s" | "n = 3" "seq3 s" | "n = 4" "seq4 s"
    using n by (auto simp: utf8_len_def split: if_splits)
  then show ?thesis
  proof cases
    case 1
    then show ?thesis using l by (simp add: utf8_len_def byte_in_take)
  next
    case 2
    then have "seq2 (take n s @ t)" using l by (simp add: seq2_def byte_in_take)
    then show ?thesis using 2(1) first_byte_kinds by (simp add: utf8_len_def)
  next
    case 3
    then have "seq3 (take n s @ t)" using l at0(2) by (simp add: seq3_def byte_in_take)
    then show ?thesis using 3(1) first_byte_kinds by (simp add: utf8_len_def)
  next
    case 4
    then have "seq4 (take n s @ t)" using l at0(2) by (simp add: seq4_def byte_in_take)
    then show ?thesis using 4(1) first_byte_kinds by (simp add: utf8_len_def)
  qed
qed

lemma hex_digit_val: "n < 16 \<Longrightarrow> hex_val (hex_digit n) = Some n"
  by (auto simp: hex_digit_def hex_val_def byte_of_def Let_def)

lemma simple_escapes:
  assumes "c \<in> set (map char_of [34, 92, 8, 12, 10, 13, 9 :: nat])"
  shows "\<exists>e. escaped_byte c = [CHR 0x5C, e] \<and> e \<noteq> CHR ''u'' \<and> simple_escape e = Some (byte_of c)"
proof -
  have "list_all (\<lambda>c. case escaped_byte c of [b, e] \<Rightarrow> b = CHR 0x5C \<and> e \<noteq> CHR ''u'' \<and> simple_escape e = Some (byte_of c) | _ \<Rightarrow> False)
    (map char_of [34, 92, 8, 12, 10, 13, 9 :: nat])" by code_simp
  then show ?thesis using assms unfolding list_all_iff by (auto split: list.splits)
qed

lemma line_separator_len:
  assumes "line_separator s"
  shows "utf8_len s = 3"
proof -
  have "map byte_of (take 2 s) = [226, 128]" "length s \<ge> 3" "byte_of (s ! 2) \<in> {168, 169}"
    using assms by (simp_all add: line_separator_def)
  moreover from this(1,2) have "byte_of (s ! 0) = 226" "byte_of (s ! 1) = 128"
    by (cases s; cases "tl s"; simp)+
  ultimately show ?thesis by (auto simp: utf8_len_def seq2_def seq3_def byte_in_def)
qed

text \<open>One escaped byte, followed by anything, is read as that byte.\<close>

lemma p_string_escaped_byte:
  assumes "byte_of c < 128"
  shows "p_string (escaped_byte c @ t) acc = p_string t (acc @ [c])"
proof -
  have c: "char_of (byte_of c) = c" by (simp add: byte_of_def)
  have u: "utf8 (byte_of c) = [c]" using assms c by (simp add: utf8_def)
  consider "byte_of c \<in> {34, 92, 8, 12, 10, 13, 9}" | "byte_of c < 32 \<or> byte_of c \<in> {60, 62, 38}" "byte_of c \<notin> {34, 92, 8, 12, 10, 13, 9}"
    | "32 \<le> byte_of c" "byte_of c \<notin> {34, 92, 60, 62, 38}" by fastforce
  then show ?thesis
  proof cases
    case 1
    then have "c \<in> set (map char_of [34, 92, 8, 12, 10, 13, 9 :: nat])" using c by (auto simp del: char_of_nat)
    then obtain e where e: "escaped_byte c = [CHR 0x5C, e]" "e \<noteq> CHR ''u''" "simple_escape e = Some (byte_of c)"
      using simple_escapes[of c] by blast
    then have "unescape (e # t) = Some ([c], 1)" using c by (simp add: unescape_def)
    then show ?thesis using e(1) by (simp add: chunk_def)
  next
    case 2
    let ?h = "[CHR ''0'', CHR ''0'', hex_digit (byte_of c div 16), hex_digit (byte_of c mod 16)]"
    have "escaped_byte c = CHR 0x5C # CHR ''u'' # ?h" using 2 by (auto simp: escaped_byte_def Let_def)
    moreover have "hex_val (CHR ''0'') = Some 0" by code_simp
    then have "hex_at 1 (CHR ''u'' # ?h @ t) = Some (byte_of c)"
      using assms hex_digit_val[of "byte_of c div 16"] hex_digit_val[of "byte_of c mod 16"]
      by (simp add: hex_at_def hex4_def)
    then have "unescape (CHR ''u'' # ?h @ t) = Some ([c], 5)" using assms by (simp add: unescape_def u)
    ultimately show ?thesis by (simp add: chunk_def)
  next
    case 3
    then have e: "escaped_byte c = [c]" by (auto simp: escaped_byte_def Let_def)
    have "byte_of (CHR 0x5C) = 92" "byte_of (CHR 0x22) = 34" by code_simp+
    then have "c \<noteq> CHR 0x5C" "c \<noteq> CHR 0x22" using 3(2) by auto
    moreover have "utf8_len (c # t) = 1" using assms by (simp add: utf8_len_def byte_in_def)
    ultimately show ?thesis using 3(1) by (simp add: e chunk_def)
  qed
qed

lemma p_string_replacement: "p_string (replacement @ t) acc = p_string t (acc @ utf8 65533)"
proof -
  have "hex4 (CHR ''f'') (CHR ''f'') (CHR ''f'') (CHR ''d'') = Some 65533"
    by (simp add: hex4_def hex_val_def byte_of_def Let_def)
  then have "hex_at 1 (CHR ''u'' # CHR ''f'' # CHR ''f'' # CHR ''f'' # CHR ''d'' # t) = Some 65533" by (simp add: hex_at_def)
  then show ?thesis by (simp add: replacement_def chunk_def unescape_def)
qed

lemma p_string_line_separator:
  assumes "line_separator s"
  shows "p_string ([CHR 0x5C, CHR ''u'', CHR ''2'', CHR ''0'', CHR ''2'', hex_digit (byte_of (s ! 2) - 160)] @ t) acc
    = p_string t (acc @ take 3 s)"
proof -
  obtain a b c r where s: "s = a # b # c # r"
    using assms by (cases s; cases "tl s"; cases "tl (tl s)") (auto simp: line_separator_def)
  have k: "byte_of a = 226" "byte_of b = 128" "byte_of c = 168 \<or> byte_of c = 169" using assms by (auto simp: s line_separator_def)
  then have chars: "a = char_of (226 :: nat)" "b = char_of (128 :: nat)" "c = char_of (byte_of c)"
    unfolding byte_of_def by (metis char_of_char)+
  have "hex4 (CHR ''2'') (CHR ''0'') (CHR ''2'') (hex_digit (168 - 160)) = Some 8232"
    "hex4 (CHR ''2'') (CHR ''0'') (CHR ''2'') (hex_digit (169 - 160)) = Some 8233"
    "utf8 8232 = map char_of [226, 128, 168 :: nat]" "utf8 8233 = map char_of [226, 128, 169 :: nat]"
    by (simp_all add: hex4_def hex_val_def byte_of_def Let_def hex_digit_def utf8_def)
  then have "hex_at 1 (CHR ''u'' # CHR ''2'' # CHR ''0'' # CHR ''2'' # hex_digit (byte_of c - 160) # t) = Some (8064 + byte_of c)"
    "utf8 (8064 + byte_of c) = [a, b, c]"
    using k chars by (auto simp: hex_at_def)
  then show ?thesis using k by (auto simp: s chunk_def unescape_def)
qed

lemma p_string_valid:
  assumes "utf8_len s = n" "0 < n" "128 \<le> byte_of (hd s)"
  shows "p_string (take n s @ t) acc = p_string t (acc @ take n s)"
proof -
  have l: "n \<le> length s" using utf8_len_length[of s] assms(1) by simp
  then obtain c r where s: "s = c # r" using assms(2) by (cases s) auto
  obtain m where m: "n = Suc m" using assms(2) by (cases n) auto
  have u: "utf8_len (c # (take m r @ t)) = Suc m" using utf8_len_take[OF assms(1,2), of t] by (simp add: s m)
  have "byte_of (CHR 0x5C) = 92" "byte_of (CHR 0x22) = 34" by code_simp+
  then have "c \<noteq> CHR 0x5C" "c \<noteq> CHR 0x22" using assms(3) s by auto
  moreover have "length (take m r) = m" using l by (simp add: s m)
  ultimately show ?thesis using assms(3) u by (simp add: s m chunk_def)
qed

text \<open>A string that was written is read up to its closing quote.\<close>

lemma p_string_escape: "p_string (escape_string s @ t) acc = p_string t (acc @ valid_part s)"
proof (induction s arbitrary: acc rule: escape_string.induct)
  case (2 c r)
  let ?n = "utf8_len (c # r)"
  show ?case
  proof (cases "byte_of c < 128")
    case True
    then have n: "?n = 1" by (simp add: utf8_len_def byte_in_def)
    show ?thesis using True p_string_escaped_byte[OF True] 2(1)[OF True] by (simp add: n)
  next
    case False
    show ?thesis
    proof (cases "?n = 0")
      case True
      then show ?thesis using False p_string_replacement 2(2)[OF False refl True] by (simp add: Let_def)
    next
      case n: False
      show ?thesis
      proof (cases "line_separator (c # r)")
        case True
        then have "?n = 3" using line_separator_len by blast
        then show ?thesis using False n True p_string_line_separator[OF True] 2(3)[OF False refl n] by (simp add: Let_def)
      next
        case nl: False
        have "128 \<le> byte_of (hd (c # r))" using False by simp
        then show ?thesis using False n nl p_string_valid[of "c # r" ?n] 2(3)[OF False refl n] by (simp add: Let_def)
      qed
    qed
  qed
qed simp

corollary p_string_marshalled: "p_string (escape_string s @ CHR 0x22 # t) [] = Some (valid_part s, t)"
  using p_string_escape[of s "CHR 0x22 # t" "[]"] by simp

text \<open>Lists and maps, with enough fuel.\<close>

definition json_slice :: "string list option \<Rightarrow> json" where
  "json_slice xs = (case xs of None \<Rightarrow> JNull | Some l \<Rightarrow> JArr (map (JStr \<circ> valid_part) l))"

lemma skip_ws_kept: "\<not> is_ws c \<Longrightarrow> skip_ws (c # s) = c # s"
  by (simp add: skip_ws_def)

lemma structure_kept [simp]:
  "skip_ws (CHR 0x22 # s) = CHR 0x22 # s" "skip_ws (CHR ''['' # s) = CHR ''['' # s" "skip_ws (CHR '']'' # s) = CHR '']'' # s"
  "skip_ws (CHR ''{'' # s) = CHR ''{'' # s" "skip_ws (CHR ''}'' # s) = CHR ''}'' # s" "skip_ws (CHR '','' # s) = CHR '','' # s"
  "skip_ws (CHR '':'' # s) = CHR '':'' # s" "skip_ws (CHR ''n'' # s) = CHR ''n'' # s" "skip_ws [] = []"
  by (rule skip_ws_kept; simp add: is_ws_def byte_of_def)+ (simp add: skip_ws_def)

lemma p_value_string: "p_value (Suc k) (marshal_string s @ t) = Ok (JStr (valid_part s), t)"
  using p_string_marshalled[of s t] by (simp add: marshal_string_def)

lemma p_elems_strings:
  "xs \<noteq> [] \<Longrightarrow> length xs < k \<Longrightarrow>
    p_elems k (join_on '','' (map marshal_string xs) @ CHR '']'' # t) acc = Ok (JArr (acc @ map (JStr \<circ> valid_part) xs), t)"
proof (induction xs arbitrary: k acc)
  case (Cons x xs)
  obtain m where k: "k = Suc (Suc m)" using Cons.prems(2) by (cases k; cases "k - 1") auto
  show ?case
  proof (cases xs)
    case Nil
    then show ?thesis using p_value_string[of m x] by (simp add: k)
  next
    case (Cons y ys)
    then have "join_on '','' (map marshal_string (x # xs)) @ CHR '']'' # t
        = marshal_string x @ CHR '','' # (join_on '','' (map marshal_string xs) @ CHR '']'' # t)" by simp
    then show ?thesis
      using p_value_string[of m x] Cons.IH[of "Suc m" "acc @ [JStr (valid_part x)]"] Cons.prems(2) Cons by (simp add: k)
  qed
qed simp

lemma join_starts: "xs \<noteq> [] \<Longrightarrow> \<exists>r. join_on '','' (map marshal_string xs) = CHR 0x22 # r"
  by (cases xs; cases "tl xs") (auto simp: marshal_string_def)

lemma p_value_slice:
  assumes "case_option 0 length xs < k"
  shows "p_value (Suc k) (marshal_slice xs @ t) = Ok (json_slice xs, t)"
proof (cases xs)
  case None
  then show ?thesis by (simp add: marshal_slice_def json_slice_def p_literal_def has_prefix_def)
next
  case (Some l)
  show ?thesis
  proof (cases "l = []")
    case True
    then show ?thesis using Some by (simp add: marshal_slice_def marshal_strings_def json_slice_def next_is_def)
  next
    case False
    then obtain r where "join_on '','' (map marshal_string l) = CHR 0x22 # r" using join_starts by blast
    then have "p_value (Suc k) (marshal_slice xs @ t) = p_elems k (join_on '','' (map marshal_string l) @ CHR '']'' # t) []"
      using Some by (simp add: marshal_slice_def marshal_strings_def next_is_def)
    then show ?thesis using p_elems_strings[OF False, of k] assms Some by (simp add: json_slice_def)
  qed
qed

definition put_slices :: "(string \<times> json) list \<Rightarrow> (string \<times> string list option) list \<Rightarrow> (string \<times> json) list" where
  "put_slices acc kvs = foldl (\<lambda>a kv. put (valid_part (fst kv)) (json_slice (snd kv)) a) acc kvs"

lemma p_members_slices:
  "kvs \<noteq> [] \<Longrightarrow> \<forall>kv \<in> set kvs. length kvs + case_option 0 length (snd kv) + 1 < k \<Longrightarrow>
    p_members k (join_on '','' (map marshal_member kvs) @ CHR ''}'' # t) acc = Ok (JObj (put_slices acc kvs), t)"
proof (induction kvs arbitrary: k acc)
  case (Cons kv kvs)
  have "2 \<le> k" using Cons.prems(2) by simp
  then obtain m where k: "k = Suc (Suc m)" by (metis add_2_eq_Suc le_Suc_ex)
  have v: "p_value (Suc m) (marshal_slice (snd kv) @ u) = Ok (json_slice (snd kv), u)" for u
    using Cons.prems(2) by (intro p_value_slice) (simp add: k)
  have step: "p_members k (marshal_member kv @ u) acc =
     (case skip_ws u of
        c # r4 \<Rightarrow> if c = CHR '','' then p_members (Suc m) r4 (put (valid_part (fst kv)) (json_slice (snd kv)) acc)
          else if c = CHR ''}'' then Ok (JObj (put (valid_part (fst kv)) (json_slice (snd kv)) acc), r4) else Err JSyntax
      | [] \<Rightarrow> Err JSyntax)" for u
    using p_string_marshalled[of "fst kv" "CHR '':'' # marshal_slice (snd kv) @ u"] v[of u]
    by (simp add: k marshal_member_def marshal_string_def next_is_def del: p_value.simps)
  show ?case
  proof (cases kvs)
    case Nil
    then show ?thesis by (simp add: step[unfolded k] k put_slices_def del: p_members.simps)
  next
    case (Cons y ys)
    then have "join_on '','' (map marshal_member (kv # kvs)) @ CHR ''}'' # t
        = marshal_member kv @ CHR '','' # (join_on '','' (map marshal_member kvs) @ CHR ''}'' # t)" by simp
    then show ?thesis
      using Cons.IH[of "Suc m" "put (valid_part (fst kv)) (json_slice (snd kv)) acc"] Cons.prems(2) Cons k
      by (simp add: step[unfolded k] k put_slices_def del: p_members.simps)
  qed
qed simp

lemma slice_shorter: "case_option 0 length xs \<le> length (marshal_slice xs)"
proof -
  have "length l \<le> length (join_on '','' (map marshal_string l))" for l
    by (induction l rule: induct_list012) (auto simp: marshal_string_def)
  then show ?thesis by (cases xs) (auto simp: marshal_slice_def marshal_strings_def intro: le_SucI trans_le_add1)
qed

lemma member_shorter: "Suc (case_option 0 length (snd x)) \<le> length (marshal_member x)"
  using slice_shorter[of "snd x"] by (simp add: marshal_member_def)

lemma members_shorter:
  "kv \<in> set kvs \<Longrightarrow> length kvs + case_option 0 length (snd kv) \<le> length (join_on '','' (map marshal_member kvs))"
proof (induction kvs arbitrary: kv rule: induct_list012)
  case (2 x)
  then show ?case using member_shorter[of x] by simp
next
  case (3 x y zs)
  have "kv = x \<or> kv \<in> set (y # zs)" using 3(3) by auto
  then show ?case using 3(2)[of kv] 3(2)[of y] member_shorter[of x] by auto
qed simp

text \<open>A map of slices that was written is read back, with the members of a repeated key put once.\<close>

lemma unmarshal_marshal_map: "parse_json (marshal_map kvs) = Some (JObj (put_slices [] kvs))"
proof (cases "kvs = []")
  case True
  then show ?thesis by (simp add: parse_json_def marshal_map_def put_slices_def next_is_def eval_nat_numeral)
next
  case False
  let ?j = "join_on '','' (map marshal_member kvs)"
  obtain r where r: "?j = CHR 0x22 # r"
    using False by (cases kvs; cases "tl kvs") (auto simp: marshal_member_def marshal_string_def)
  have "p_value (Suc (2 * length (marshal_map kvs))) (marshal_map kvs) = p_members (2 * length (marshal_map kvs)) (?j @ ''}'') []"
    by (simp add: marshal_map_def r next_is_def)
  also have "\<dots> = Ok (JObj (put_slices [] kvs), [])"
  proof (rule p_members_slices[OF False, of _ "[]", simplified], rule ballI)
    fix kv assume "kv \<in> set kvs"
    from members_shorter[OF this] show "Suc (length kvs + case_option 0 length (snd kv)) < 2 * length (marshal_map kvs)"
      by (simp add: marshal_map_def)
  qed
  finally show ?thesis by (simp add: parse_json_def)
qed

end
