(* ===== verification/Service.thy ===== *)
theory Service
  imports Updates Pending Marshal
begin

text \<open>
  The life of the synchroniser in \<^verbatim>\<open>src/internal/sync/syncer.go\<close>: the configured peers and a round of
  synchronisation, the fetching of the events an anchor refers to, the subscriptions to the relays as
  a transition system, and the announcement of the node.  \<open>service_env\<close> adds to \<open>update_env\<close> what the
  configuration switches on.  Times are in seconds.
\<close>

section \<open>References of an anchor\<close>

text \<open>
  The relays are asked in parallel; \<open>answers\<close> lists what comes back before the timeout in the order
  of arrival, \<open>None\<close> for a relay that failed.
\<close>

fun first_answer :: "event list option list \<Rightarrow> event option" where
  "first_answer [] = None"
| "first_answer (a # as) = (case a of Some (e # _) \<Rightarrow> Some e | _ \<Rightarrow> first_answer as)"

definition sync_fetchEventByDTag ::
  "(string \<Rightarrow> string \<Rightarrow> int \<Rightarrow> event list option list) \<Rightarrow> database \<Rightarrow> string \<Rightarrow> string \<Rightarrow> int \<Rightarrow> event option" where
  "sync_fetchEventByDTag answers d dTag pubkey kind =
     (case QueryEvents \<lparr> f_IDs = [], f_Kinds = [kind], f_Authors = [pubkey], f_Tags = [(''d'', [dTag])],
             f_Since = None, f_Until = None, f_Limit = 1 \<rparr> d of
        e # _ \<Rightarrow> Some e
      | [] \<Rightarrow> first_answer (answers dTag pubkey kind))"

text \<open>The loop over the tags: the references to name, connection and metadata.\<close>

fun scan_refs :: "tag list \<Rightarrow> string \<times> string \<times> string \<Rightarrow> string \<times> string \<times> string" where
  "scan_refs [] refs = refs"
| "scan_refs (t # ts) (nameRef, connectionRef, metadataRef) =
     (if length t < 2 then scan_refs ts (nameRef, connectionRef, metadataRef)
      else if t ! 0 = ''n'' then scan_refs ts (t ! 1, connectionRef, metadataRef)
      else if t ! 0 = ''c'' then scan_refs ts (nameRef, t ! 1, metadataRef)
      else if t ! 0 = ''m'' then scan_refs ts (nameRef, connectionRef, t ! 1)
      else scan_refs ts (nameRef, connectionRef, metadataRef))"

definition sync_fetchEventFromNaddr ::
  "(string \<Rightarrow> naddr_data option) \<Rightarrow> (string \<Rightarrow> string \<Rightarrow> int \<Rightarrow> event list option list) \<Rightarrow> database \<Rightarrow> string \<Rightarrow> event option"
where
  "sync_fetchEventFromNaddr decode answers d naddr =
     (if naddr = [] \<or> \<not> has_prefix naddr ''naddr1'' then None
      else case decode naddr of
        None \<Rightarrow> None
      | Some p \<Rightarrow> sync_fetchEventByDTag answers d (na_identifier p) (na_pubkey p) (na_kind p))"

text \<open>All three are fetched before the first is stored.\<close>

definition sync_fetchReferencedEvents ::
  "(string \<Rightarrow> naddr_data option) \<Rightarrow> (string \<Rightarrow> string \<Rightarrow> int \<Rightarrow> event list option list) \<Rightarrow> event \<Rightarrow> database \<Rightarrow> database"
where
  "sync_fetchReferencedEvents decode answers anchorEvent d =
     (case scan_refs (ev_tags anchorEvent) ([], [], []) of (nameRef, connectionRef, metadataRef) \<Rightarrow>
        let nameEvent = sync_fetchEventFromNaddr decode answers d nameRef;
            connectionEvent = sync_fetchEventFromNaddr decode answers d connectionRef;
            metadataEvent = sync_fetchEventFromNaddr decode answers d metadataRef;
            d1 = (case nameEvent of None \<Rightarrow> d | Some ev \<Rightarrow> StoreNameEvent ev d);
            d2 = (case connectionEvent of None \<Rightarrow> d1 | Some ev \<Rightarrow> StoreConnectionEvent ev d1)
        in (case metadataEvent of None \<Rightarrow> d2 | Some ev \<Rightarrow> StoreMetadataEvent ev d2))"

section \<open>Configured peers\<close>

record config_peer =
  cp_RelayURL :: string
  cp_LastSeen :: "int option"
  cp_LastSync :: "int option"
  cp_IsActive :: bool

text \<open>\<open>se_visit\<close> is the order in which the range statement visits the keys of the map of peers.\<close>

record service_env = update_env +
  se_bitcoin :: bool
  se_EnableAwareness :: bool
  se_PeerNodes :: "string list"
  se_visit :: "string list"

record service_state =
  sv_core :: syncer_state
  sv_peers :: "(string \<times> config_peer) list"
  sv_syncing :: bool
  sv_lastSync :: "int option"

definition loadPeers :: "service_env \<Rightarrow> service_state \<Rightarrow> service_state" where
  "loadPeers env st = st\<lparr>sv_peers := foldl (\<lambda>m peerURL. map_put peerURL
     \<lparr> cp_RelayURL = peerURL, cp_LastSeen = None, cp_LastSync = None, cp_IsActive = True \<rparr> m) (sv_peers st) (se_PeerNodes env)\<rparr>"

definition GetPeers :: "service_state \<Rightarrow> config_peer list" where
  "GetPeers st = map snd (sv_peers st)"

definition store_peer_event :: "database \<Rightarrow> event \<Rightarrow> database" where
  "store_peer_event d ev =
     (if ev_kind ev = 61600 then StoreNameEvent ev d
      else if ev_kind ev = 62600 then StoreConnectionEvent ev d
      else if ev_kind ev = 63600 then StoreMetadataEvent ev d
      else d)"

definition syncWithPeer :: "service_env \<Rightarrow> string \<Rightarrow> config_peer \<Rightarrow> service_state \<Rightarrow> service_state" where
  "syncWithPeer env key peer st =
     (case su_query env (cp_RelayURL peer) (dnn_filter [61600, 62600, 63600, 60600] [] (Some (ch_now env - 24 * 60 * 60))) of
        None \<Rightarrow> st
      | Some events \<Rightarrow>
          st\<lparr>sv_core := (sv_core st)\<lparr>sn_db := foldl store_peer_event (sn_db (sv_core st)) events\<rparr>,
             sv_peers := map_put key (peer\<lparr>cp_LastSeen := Some (ch_now env), cp_LastSync := Some (ch_now env)\<rparr>) (sv_peers st)\<rparr>)"

definition active_peers :: "service_env \<Rightarrow> service_state \<Rightarrow> (string \<times> config_peer) list" where
  "active_peers env st = concat (map (\<lambda>key. case map_of (sv_peers st) key of
     None \<Rightarrow> [] | Some peer \<Rightarrow> if cp_IsActive peer then [(key, peer)] else []) (se_visit env))"

definition syncPeers :: "service_env \<Rightarrow> service_state \<Rightarrow> service_state" where
  "syncPeers env st = foldl (\<lambda>st (key, peer). syncWithPeer env key peer st) st (active_peers env st)"

section \<open>A round of synchronisation\<close>

text \<open>
  The lists of the peers: every relay is asked for all of them.  A relay that cannot be reached gives
  nothing.  The authors are taken in the order in which they are met; Go's order is unspecified.
\<close>

definition awareness_filter :: "string list \<Rightarrow> nostr_filter" where
  "awareness_filter authors = \<lparr> f_IDs = [], f_Kinds = [30000], f_Authors = authors, f_Tags = [(''d'', [''dnn-awareness''])],
     f_Since = None, f_Until = None, f_Limit = int (length authors) \<rparr>"

definition found_lists :: "service_env \<Rightarrow> string list \<Rightarrow> event list" where
  "found_lists env authors = concat (map (\<lambda>relayURL. case su_query env relayURL (awareness_filter authors) of
     None \<Rightarrow> [] | Some events \<Rightarrow> events) (su_RelayURLs env))"

definition sync_awareness :: "service_env \<Rightarrow> awareness_db \<Rightarrow> awareness_db" where
  "sync_awareness env a =
     (let peerPubkeys = GetPeerAdminPubkeys a in
      if peerPubkeys = [] then a
      else let found = found_lists env peerPubkeys
           in syncPeerAwareness (ch_now env) found (remdups (map ev_pubkey found)) a)"

definition bitcoin_round :: "service_env \<Rightarrow> database \<Rightarrow> (database, database) res" where
  "bitcoin_round env d =
     (if \<not> se_bitcoin env then Ok d
      else case syncBitcoin (sync_env.truncate env) d of (SyncCrashed, d') \<Rightarrow> Err d' | (_, d') \<Rightarrow> Ok d')"

definition with_db :: "database \<Rightarrow> service_state \<Rightarrow> service_state" where
  "with_db d st = st\<lparr>sv_core := (sv_core st)\<lparr>sn_db := d\<rparr>\<rparr>"

definition with_marks :: "awareness_db \<Rightarrow> service_state \<Rightarrow> service_state" where
  "with_marks a st = st\<lparr>sv_core := (sv_core st)\<lparr>sn_marks := a\<rparr>\<rparr>"

definition performSync :: "service_env \<Rightarrow> service_state \<Rightarrow> (service_state, service_state) res" where
  "performSync env st =
     (if sv_syncing st then Ok st
      else
        let st0 = st\<lparr>sv_syncing := True\<rparr> in
        case bitcoin_round env (sn_db (sv_core st0)) of
          Inl d \<Rightarrow> Err (with_db d st0)
        | Inr d1 \<Rightarrow>
            (case SyncPendingTransactions (sync_env.truncate env) d1 of
               Inl d \<Rightarrow> Err (with_db d st0)
             | Inr d2 \<Rightarrow>
                 let st2 = syncPeers env (with_db d2 st0);
                     st3 = (if se_EnableAwareness env then with_marks (sync_awareness env (sn_marks (sv_core st2))) st2 else st2)
                 in Ok (st3\<lparr>sv_syncing := False, sv_lastSync := Some (ch_now env)\<rparr>)))"

section \<open>Subscriptions\<close>

text \<open>
  One goroutine per entry of the configuration: it dials, subscribes, listens, and waits before it
  dials again.  \<open>ss_conns\<close> is the map \<^verbatim>\<open>relayConns\<close>, with whether the connection is open.
\<close>

datatype phase = Dialing | Pausing nat | Listening | Ended

record subs_state =
  ss_workers :: "(string \<times> phase) list"
  ss_conns :: "(string \<times> bool) list"
  ss_cancelled :: bool
  ss_core :: syncer_state

definition startRelaySubscriptions :: "string list \<Rightarrow> syncer_state \<Rightarrow> subs_state" where
  "startRelaySubscriptions urls core =
     \<lparr> ss_workers = map (\<lambda>u. (u, Dialing)) urls, ss_conns = [], ss_cancelled = False, ss_core = core \<rparr>"

definition stopRelaySubscriptions :: "subs_state \<Rightarrow> subs_state" where
  "stopRelaySubscriptions st = st\<lparr>ss_cancelled := True, ss_conns := []\<rparr>"

definition worker :: "subs_state \<Rightarrow> nat \<Rightarrow> string \<Rightarrow> phase \<Rightarrow> bool" where
  "worker st i u p \<longleftrightarrow> i < length (ss_workers st) \<and> ss_workers st ! i = (u, p)"

definition move :: "nat \<Rightarrow> string \<Rightarrow> phase \<Rightarrow> subs_state \<Rightarrow> subs_state" where
  "move i u p st = st\<lparr>ss_workers := (ss_workers st)[i := (u, p)]\<rparr>"

text \<open>A cancelled context makes \<^verbatim>\<open>Connect\<close> fail.  A handler that panics ends the process: no step.\<close>

inductive subs_step :: "subs_state \<Rightarrow> subs_state \<Rightarrow> bool" where
  dial_fails: "worker st i u Dialing \<Longrightarrow> subs_step st (move i u (Pausing 30) st)"
| subscribed: "worker st i u Dialing \<Longrightarrow> \<not> ss_cancelled st \<Longrightarrow>
    subs_step st (move i u Listening (st\<lparr>ss_conns := map_put u True (ss_conns st)\<rparr>))"
| subscribe_fails: "worker st i u Dialing \<Longrightarrow> \<not> ss_cancelled st \<Longrightarrow>
    subs_step st (move i u (Pausing 30) (st\<lparr>ss_conns := map_put u False (ss_conns st)\<rparr>))"
| delivered: "worker st i u Listening \<Longrightarrow> handleEventUpdate env ev (ss_core st) = Ok (relays, core) \<Longrightarrow>
    subs_step st (st\<lparr>ss_core := core\<rparr>)"
| closed: "worker st i u Listening \<Longrightarrow>
    subs_step st (move i u (Pausing 10) (st\<lparr>ss_conns := filter (\<lambda>c. fst c \<noteq> u) (ss_conns st)\<rparr>))"
| again: "worker st i u (Pausing n) \<Longrightarrow> subs_step st (move i u Dialing st)"
| leave: "worker st i u p \<Longrightarrow> p \<noteq> Listening \<Longrightarrow> ss_cancelled st \<Longrightarrow> subs_step st (move i u Ended st)"
| leave_listening: "worker st i u Listening \<Longrightarrow> ss_cancelled st \<Longrightarrow>
    subs_step st (move i u Ended (st\<lparr>ss_conns := map (\<lambda>c. if fst c = u then (u, False) else c) (ss_conns st)\<rparr>))"
| stop: "subs_step st (stopRelaySubscriptions st)"

inductive subs_reach :: "string list \<Rightarrow> syncer_state \<Rightarrow> subs_state \<Rightarrow> bool" for urls core where
  subs_start: "subs_reach urls core (startRelaySubscriptions urls core)"
| subs_next: "subs_reach urls core st \<Longrightarrow> subs_step st st' \<Longrightarrow> subs_reach urls core st'"

section \<open>Announcements\<close>

text \<open>
  \<open>an_sign\<close> is \<^verbatim>\<open>event.Sign\<close>, \<open>an_publish\<close> whether a relay takes the event over the open connection of
  its subscription, \<open>an_redial\<close> over a new connection.  Nothing can be published on a closed one.
  \<open>an_RelayURLs\<close> is \<open>None\<close> when the configuration leaves the slice nil.
\<close>

record announce_env =
  an_AnnounceAddresses :: "string list"
  an_RelayURLs :: "string list option"
  an_sign :: "event \<Rightarrow> event option"
  an_publish :: "string \<Rightarrow> bool"
  an_redial :: "string \<Rightarrow> bool"

definition node_announcement :: "announce_env \<Rightarrow> int \<Rightarrow> event" where
  "node_announcement env now =
     \<lparr> ev_id = [], ev_pubkey = [], ev_created_at = now, ev_kind = 64600,
       ev_tags = [[''d'', ''node-discovery''], [''t'', ''DNN'']],
       ev_content = marshal_map [(''dns_addresses'', Some (an_AnnounceAddresses env)), (''relays'', an_RelayURLs env)],
       ev_sig = [] \<rparr>"

text \<open>
  The signed event with the relays that took it, and the database.  \<open>now\<close> is the time at the beginning,
  \<open>later\<close> at the end.
\<close>

definition publishNodeAnnouncement ::
  "announce_env \<Rightarrow> (string \<times> bool) list \<Rightarrow> int \<Rightarrow> int \<Rightarrow> database \<Rightarrow> (event \<times> string list) option \<times> database" where
  "publishNodeAnnouncement env conns now later d =
     (if an_AnnounceAddresses env = [] then (None, d)
      else case an_sign env (node_announcement env now) of
        None \<Rightarrow> (None, d)
      | Some ev \<Rightarrow>
          let connected = map fst (filter (\<lambda>(u, is_open). is_open \<and> an_publish env u) conns);
              dialled = filter (\<lambda>u. u \<notin> set (map fst conns) \<and> an_redial env u) (case_option [] id (an_RelayURLs env))
          in (Some (ev, connected @ dialled), UpdateSyncState ''last_announce_time'' (show_int later) d))"

definition announce_interval :: int where
  "announce_interval = 30 * 24 * 60 * 60"

text \<open>The decision of \<^verbatim>\<open>startAutoAnnounce\<close>, thirty seconds after the start.\<close>

definition announce_due :: "int \<Rightarrow> database \<Rightarrow> bool" where
  "announce_due now d =
     (let lastAnnounceStr = GetSyncState ''last_announce_time'' d in
      if lastAnnounceStr = [] then True
      else case parse_int64 lastAnnounceStr of None \<Rightarrow> True | Some lastAnnounce \<Rightarrow> now - lastAnnounce \<ge> announce_interval)"

text \<open>
  The runs of the goroutine over restarts of the process: the database, the clock, the next tick while
  the process runs, and the times at which announcements began and ended, the latest first.
\<close>

record announcer =
  ar_db :: database
  ar_now :: int
  ar_tick :: "int option"
  ar_log :: "(int \<times> int) list"

definition announced :: "announce_env \<Rightarrow> (string \<times> bool) list \<Rightarrow> int \<Rightarrow> int \<Rightarrow> announcer \<Rightarrow> announcer" where
  "announced env conns now later a =
     (case publishNodeAnnouncement env conns now later (ar_db a) of
        (None, d) \<Rightarrow> a\<lparr>ar_now := now, ar_db := d\<rparr>
      | (Some _, d) \<Rightarrow> a\<lparr>ar_now := later, ar_db := d, ar_log := (now, later) # ar_log a\<rparr>)"

definition startAutoAnnounce :: "announce_env \<Rightarrow> (string \<times> bool) list \<Rightarrow> int \<Rightarrow> int \<Rightarrow> announcer \<Rightarrow> announcer" where
  "startAutoAnnounce env conns now later a =
     (if an_AnnounceAddresses env = [] then a\<lparr>ar_now := now\<rparr>
      else
        let a' = (if announce_due now (ar_db a) then announced env conns now later a else a\<lparr>ar_now := now\<rparr>)
        in a'\<lparr>ar_tick := Some (ar_now a' + announce_interval)\<rparr>)"

definition announce_tick :: "announce_env \<Rightarrow> (string \<times> bool) list \<Rightarrow> int \<Rightarrow> int \<Rightarrow> announcer \<Rightarrow> announcer" where
  "announce_tick env conns now later a = (announced env conns now later a)\<lparr>ar_tick := Some (now + announce_interval)\<rparr>"

text \<open>A tick comes on time, and an announcement takes less than the interval.\<close>

inductive announce_step :: "announce_env \<Rightarrow> announcer \<Rightarrow> announcer \<Rightarrow> bool" for env where
  launch: "ar_tick a = None \<Longrightarrow> ar_now a \<le> now \<Longrightarrow> now \<le> later \<Longrightarrow> later < now + announce_interval \<Longrightarrow> in64 later \<Longrightarrow>
    announce_step env a (startAutoAnnounce env conns now later a)"
| tick: "ar_tick a = Some now \<Longrightarrow> ar_now a \<le> now \<Longrightarrow> now \<le> later \<Longrightarrow> later < now + announce_interval \<Longrightarrow> in64 later \<Longrightarrow>
    announce_step env a (announce_tick env conns now later a)"
| shutdown: "announce_step env a (a\<lparr>ar_tick := None\<rparr>)"
| elsewhere: "GetSyncState ''last_announce_time'' d = GetSyncState ''last_announce_time'' (ar_db a) \<Longrightarrow>
    announce_step env a (a\<lparr>ar_db := d\<rparr>)"

inductive announce_reach :: "announce_env \<Rightarrow> announcer \<Rightarrow> bool" for env where
  announce_first: "announce_reach env \<lparr> ar_db = d, ar_now = now, ar_tick = None, ar_log = [] \<rparr>"
| announce_next: "announce_reach env a \<Longrightarrow> announce_step env a a' \<Longrightarrow> announce_reach env a'"

section \<open>Facts about the round\<close>

lemma scan_refs_last:
  "scan_refs ts (a, b, c) =
    (if tag_vals ''n'' ts = [] then a else last_tag ''n'' ts, if tag_vals ''c'' ts = [] then b else last_tag ''c'' ts,
     if tag_vals ''m'' ts = [] then c else last_tag ''m'' ts)"
proof (induction ts arbitrary: a b c)
  case (Cons t ts)
  have v: "tag_vals k (t # ts) = (if length t < 2 \<or> t ! 0 \<noteq> k then tag_vals k ts else t ! 1 # tag_vals k ts)" for k
    by (auto simp: tag_vals_def tag_is_def)
  then have l: "last_tag k (t # ts) = (if tag_vals k ts = [] then (if length t < 2 \<or> t ! 0 \<noteq> k then [] else t ! 1) else last_tag k ts)" for k
    by (simp add: last_tag_def)
  show ?case unfolding v l by (simp add: Cons.IH)
qed (simp add: tag_vals_def)

text \<open>The copy of the relay does the same when its remote lookup is the first answer.\<close>

lemma fetches_agree:
  "sync_fetchReferencedEvents decode answers anchorEvent d =
   fetchAndStoreReferencedEvents decode (\<lambda>dTag pubkey kind. first_answer (answers dTag pubkey kind)) anchorEvent d"
proof -
  have f: "fetchEventFromNaddr decode (\<lambda>dTag pubkey kind. first_answer (answers dTag pubkey kind)) d ref k
      = sync_fetchEventFromNaddr decode answers d ref" for ref k
    by (simp add: sync_fetchEventFromNaddr_def fetchEventFromNaddr_def sync_fetchEventByDTag_def fetchEventByDTag_def
        split: option.split)
  have r: "scan_refs ts ([], [], []) = (last_tag ''n'' ts, last_tag ''c'' ts, last_tag ''m'' ts)" for ts
    by (simp add: scan_refs_last last_tag_def)
  show ?thesis
    unfolding sync_fetchReferencedEvents_def fetchAndStoreReferencedEvents_def r f store_opt_def Let_def prod.case ..
qed

text \<open>What a configured peer sends changes only the three event tables.\<close>

lemma syncPeers_core:
  "\<exists>events. sn_db (sv_core (syncPeers env st)) = foldl store_peer_event (sn_db (sv_core st)) events"
  "sn_marks (sv_core (syncPeers env st)) = sn_marks (sv_core st)" "sv_syncing (syncPeers env st) = sv_syncing st"
proof -
  have "(\<exists>events. sn_db (sv_core (foldl (\<lambda>st (key, peer). syncWithPeer env key peer st) st ps)) = foldl store_peer_event (sn_db (sv_core st)) events)
      \<and> sn_marks (sv_core (foldl (\<lambda>st (key, peer). syncWithPeer env key peer st) st ps)) = sn_marks (sv_core st)
      \<and> sv_syncing (foldl (\<lambda>st (key, peer). syncWithPeer env key peer st) st ps) = sv_syncing st" for ps
  proof (induction ps arbitrary: st)
    case Nil
    show ?case by (simp add: exI[of _ "[]"])
  next
    case (Cons p ps)
    obtain key peer where p: "p = (key, peer)" by (cases p)
    have "\<exists>events. sn_db (sv_core (syncWithPeer env key peer st)) = foldl store_peer_event (sn_db (sv_core st)) events"
      by (cases "su_query env (cp_RelayURL peer) (dnn_filter [61600, 62600, 63600, 60600] [] (Some (ch_now env - 24 * 60 * 60)))")
        (auto simp: syncWithPeer_def intro: exI[of _ "[]"])
    moreover have "sn_marks (sv_core (syncWithPeer env key peer st)) = sn_marks (sv_core st)"
      "sv_syncing (syncWithPeer env key peer st) = sv_syncing st"
      by (simp_all add: syncWithPeer_def split: option.split)
    ultimately show ?case using Cons.IH[of "syncWithPeer env key peer st"] by (fastforce simp: p simp flip: foldl_append)
  qed
  then show "\<exists>events. sn_db (sv_core (syncPeers env st)) = foldl store_peer_event (sn_db (sv_core st)) events"
    "sn_marks (sv_core (syncPeers env st)) = sn_marks (sv_core st)" "sv_syncing (syncPeers env st) = sv_syncing st"
    unfolding syncPeers_def by blast+
qed

text \<open>A round that ends frees the flag; one that finds it set does nothing.\<close>

lemma performSync_flag: "performSync env st = Ok st' \<Longrightarrow> sv_syncing st' \<longleftrightarrow> sv_syncing st"
  by (auto simp: performSync_def Let_def split: sum.splits if_splits)

section \<open>Facts about subscriptions\<close>

definition conns_match :: "subs_state \<Rightarrow> bool" where
  "conns_match st \<longleftrightarrow> distinct (map fst (ss_workers st)) \<and>
     (\<not> ss_cancelled st \<longrightarrow> (\<forall>u p. (u, p) \<in> set (ss_workers st) \<longrightarrow> (p = Listening \<longleftrightarrow> map_of (ss_conns st) u = Some True)))"

lemma map_put_of: "map_of (map_put k v m) = (map_of m)(k \<mapsto> v)"
  by (rule ext) (simp add: map_put_lookup)

lemma filter_key_of: "map_of (filter (\<lambda>c. fst c \<noteq> k) m) = (map_of m)(k := None)"
  by (induction m) (auto simp: fun_eq_iff)

lemma worker_moved:
  assumes "worker st i u p" "distinct (map fst (ss_workers st))"
  shows "distinct (map fst ((ss_workers st)[i := (u, q)]))"
    and "(v, r) \<in> set ((ss_workers st)[i := (u, q)]) \<longleftrightarrow> v = u \<and> r = q \<or> v \<noteq> u \<and> (v, r) \<in> set (ss_workers st)"
proof -
  let ?a = "take i (ss_workers st)" and ?b = "drop (Suc i) (ss_workers st)"
  have i: "i < length (ss_workers st)" "ss_workers st ! i = (u, p)" using assms(1) by (simp_all add: worker_def)
  then have w: "ss_workers st = ?a @ (u, p) # ?b" by (metis id_take_nth_drop)
  have m: "(ss_workers st)[i := (u, q)] = ?a @ (u, q) # ?b" using i(1) by (rule upd_conv_take_nth_drop)
  have d: "distinct (map fst (?a @ (u, p) # ?b))" using assms(2) w by metis
  then show "distinct (map fst ((ss_workers st)[i := (u, q)]))" unfolding m by simp
  have "u \<notin> fst ` set ?a" "u \<notin> fst ` set ?b" using d by simp_all
  moreover have "set (ss_workers st) = set ?a \<union> {(u, p)} \<union> set ?b" by (subst w) auto
  ultimately show "(v, r) \<in> set ((ss_workers st)[i := (u, q)]) \<longleftrightarrow> v = u \<and> r = q \<or> v \<noteq> u \<and> (v, r) \<in> set (ss_workers st)"
    unfolding m by force
qed

lemma worker_in: "worker st i u p \<Longrightarrow> (u, p) \<in> set (ss_workers st)"
  by (metis nth_mem worker_def)

lemma conns_step: "subs_step st st' \<Longrightarrow> conns_match st \<Longrightarrow> conns_match st'"
proof (induction rule: subs_step.induct)
  case (dial_fails st i u)
  then show ?case using worker_in[OF dial_fails(1)] by (auto simp: conns_match_def move_def worker_moved)
next
  case (again st i u n)
  then show ?case using worker_in[OF again(1)] by (auto simp: conns_match_def move_def worker_moved)
qed (auto simp: conns_match_def stopRelaySubscriptions_def move_def worker_moved map_put_of filter_key_of)

lemma conns_reach: "subs_reach urls core st \<Longrightarrow> distinct urls \<Longrightarrow> conns_match st"
proof (induction rule: subs_reach.induct)
  case subs_start
  then show ?case by (auto simp: conns_match_def startRelaySubscriptions_def comp_def)
qed (blast intro: conns_step)

text \<open>
  While a subscription fails, its closed connection stays in the map: the announcement is lost on it,
  and no new connection is tried.
\<close>

lemma failed_subscription_hides_relay:
  assumes "worker st i u Dialing" "\<not> ss_cancelled st"
  shows "\<exists>st'. subs_step st st' \<and> (\<forall>env now later d ev reached d'.
    publishNodeAnnouncement env (ss_conns st') now later d = (Some (ev, reached), d') \<longrightarrow> u \<notin> set reached)"
proof -
  let ?st = "move i u (Pausing 30) (st\<lparr>ss_conns := map_put u False (ss_conns st)\<rparr>)"
  have "subs_step st ?st" using assms by (rule subscribe_fails)
  moreover have "u \<notin> set reached" if "publishNodeAnnouncement env (ss_conns ?st) now later d = (Some (ev, reached), d')"
    for env now later d ev reached d'
    using that by (auto simp: publishNodeAnnouncement_def move_def map_put_def Let_def split: if_splits option.splits)
  ultimately show ?thesis by blast
qed

section \<open>Announcements are discovered\<close>

lemma plain_valid: "list_all (\<lambda>c. byte_of c < 128) s \<Longrightarrow> valid_part s = s"
proof (induction s rule: valid_part.induct)
  case (2 c r)
  then have n: "utf8_len (c # r) = 1" by (simp add: utf8_len_def byte_in_def)
  show ?case using 2(2)[OF refl] 2(3) by (simp add: n)
qed simp

lemma all_some_valid: "all_some (map (as_string \<circ> (JStr \<circ> valid_part)) xs) = Some (map valid_part xs)"
  by (induction xs) (simp_all add: as_string_def)

lemma announcement_content:
  "unmarshal (as_object discovery_json) (ev_content (node_announcement env now))
   = Some (map valid_part (an_AnnounceAddresses env), map valid_part (case_option [] id (an_RelayURLs env)))"
proof -
  have v: "valid_part ''dns_addresses'' = ''dns_addresses''" "valid_part ''relays'' = ''relays''"
    by (rule plain_valid; simp add: byte_of_def del: valid_part.simps)+
  have "parse_json (ev_content (node_announcement env now)) = Some (JObj
      [(''dns_addresses'', json_slice (Some (an_AnnounceAddresses env))), (''relays'', json_slice (an_RelayURLs env))])"
    unfolding node_announcement_def by (simp add: unmarshal_marshal_map put_slices_def v put_def del: valid_part.simps)
  moreover have "members ''dns_addresses'' [(''dns_addresses'', a), (''relays'', b)] = [a]"
    "members ''tor'' [(''dns_addresses'', a), (''relays'', b)] = []"
    "members ''relays'' [(''dns_addresses'', a), (''relays'', b)] = [b]" for a b
    by (simp_all add: members_def byte_of_def lower_char_def)
  moreover have "as_list as_string (json_slice xs) = Some (map valid_part (case_option [] id xs))" for xs
    by (simp add: as_list_def json_slice_def all_some_valid split: option.split)
  ultimately show ?thesis by (simp add: unmarshal_def as_object_def discovery_json_def field_def)
qed

lemma stored_peer_exists: "PeerAddressExists b (StorePeerNode now n a) \<longleftrightarrow> b = pn_address n \<or> PeerAddressExists b a"
  by (auto simp: PeerAddressExists_def StorePeerNode_def insert_or_replace_def count_where_def pn_clash_def filter_empty_conv)

lemma discover_all:
  "\<forall>a \<in> set as. verifyNodeEndpoint env a (sn_db st) \<notin> {Unverified, VerifyPanic} \<Longrightarrow>
   \<exists>st'. discover_addresses env who as st = Ok st' \<and> sn_relays st' = sn_relays st
     \<and> (\<forall>a. PeerAddressExists a (sn_marks st) \<longrightarrow> PeerAddressExists a (sn_marks st'))
     \<and> (\<forall>a \<in> set as. to_lower a \<in> set (map to_lower (su_AnnounceAddresses env)) \<or> PeerAddressExists a (sn_marks st'))"
proof (induction as arbitrary: st)
  case (Cons x xs)
  show ?case
  proof (cases "to_lower x \<in> set (map to_lower (su_AnnounceAddresses env)) \<or> PeerAddressExists x (sn_marks st)")
    case True
    obtain st' where "discover_addresses env who xs st = Ok st'" "sn_relays st' = sn_relays st"
      "\<forall>a. PeerAddressExists a (sn_marks st) \<longrightarrow> PeerAddressExists a (sn_marks st')"
      "\<forall>a \<in> set xs. to_lower a \<in> set (map to_lower (su_AnnounceAddresses env)) \<or> PeerAddressExists a (sn_marks st')"
      using Cons.IH[of st] Cons.prems by auto
    then show ?thesis using True by (intro exI[of _ st']) auto
  next
    case False
    obtain npub pubkey admin where v: "verifyNodeEndpoint env x (sn_db st) = Verified npub pubkey admin"
      using Cons.prems by (cases "verifyNodeEndpoint env x (sn_db st)") auto
    let ?node = "\<lparr> pn_address = x, pn_node_npub = npub, pn_node_pubkey = pubkey,
                 pn_admin_pubkey = admin, pn_announced_by = who, pn_is_verified = False, pn_fail_count = 0,
                 pn_last_checked = None, pn_last_seen = None, pn_discovered_at = 0 \<rparr>"
    let ?st = "st\<lparr>sn_marks := StorePeerNode (ch_now env) ?node (sn_marks st)\<rparr>"
    obtain st' where "discover_addresses env who xs ?st = Ok st'" "sn_relays st' = sn_relays st"
      "\<forall>a. PeerAddressExists a (sn_marks ?st) \<longrightarrow> PeerAddressExists a (sn_marks st')"
      "\<forall>a \<in> set xs. to_lower a \<in> set (map to_lower (su_AnnounceAddresses env)) \<or> PeerAddressExists a (sn_marks st')"
      using Cons.IH[of ?st] Cons.prems by auto
    then show ?thesis using False v by (intro exI[of _ st']) (auto simp: stored_peer_exists)
  qed
qed simp

lemma stored_relays: "dr_url ` set (StoreDiscoveredRelays now urls source who t) = dr_url ` set t \<union> set urls"
proof -
  have m: "map dr_url (store_relay now source who t u) = (if u \<in> set (map dr_url t) then map dr_url t else map dr_url t @ [u])" for t u
    by (auto simp: store_relay_def list_ex_iff image_iff)
  have "dr_url ` set (store_relay now source who t u) = insert u (dr_url ` set t)" for t u
    unfolding set_map[symmetric] m by auto
  then show ?thesis by (induction urls arbitrary: t) (auto simp: StoreDiscoveredRelays_def)
qed


section \<open>Announcements are spaced\<close>

definition spaced :: "announcer \<Rightarrow> bool" where
  "spaced a \<longleftrightarrow> sorted_wrt (\<lambda>x y. fst x \<ge> fst y + announce_interval) (ar_log a)
     \<and> (\<forall>t t' r. ar_log a = (t, t') # r \<longrightarrow> t \<le> t' \<and> t' \<le> ar_now a \<and> in64 t' \<and> GetSyncState ''last_announce_time'' (ar_db a) = show_int t'
          \<and> (\<forall>n. ar_tick a = Some n \<longrightarrow> n \<ge> t + announce_interval))"

lemma interval_pos: "announce_interval > 0"
  by (simp add: announce_interval_def)

lemma spaced_announced:
  assumes "spaced a" "ar_now a \<le> now" "now \<le> later" "in64 later"
    and "\<forall>t t' r. ar_log a = (t, t') # r \<longrightarrow> now \<ge> t + announce_interval"
    and "n \<ge> now + announce_interval"
  shows "spaced ((announced env conns now later a)\<lparr>ar_tick := Some n\<rparr>)"
proof (cases "fst (publishNodeAnnouncement env conns now later (ar_db a))")
  case None
  then have "announced env conns now later a = a\<lparr>ar_now := now\<rparr>"
    by (auto simp: announced_def publishNodeAnnouncement_def Let_def split: if_splits option.splits)
  then show ?thesis using assms interval_pos by (fastforce simp: spaced_def)
next
  case (Some e)
  then have e: "ar_log (announced env conns now later a) = (now, later) # ar_log a" "ar_now (announced env conns now later a) = later"
    "ar_db (announced env conns now later a) = UpdateSyncState ''last_announce_time'' (show_int later) (ar_db a)"
    by (auto simp: announced_def publishNodeAnnouncement_def Let_def split: if_splits option.splits)
  have "sorted_wrt (\<lambda>x y. fst x \<ge> fst y + announce_interval) ((now, later) # ar_log a)"
  proof (cases "ar_log a")
    case (Cons x xs)
    then have "now \<ge> fst x + announce_interval" using assms(5) by (cases x) auto
    then show ?thesis using assms(1) Cons interval_pos by (fastforce simp: spaced_def)
  qed simp
  then show ?thesis using assms(3,4,6) by (simp add: spaced_def e)
qed

lemma due_spaced:
  assumes "spaced a" "ar_log a = (t, t') # r"
  shows "announce_due now (ar_db a) \<longleftrightarrow> now - t' \<ge> announce_interval"
proof -
  have "GetSyncState ''last_announce_time'' (ar_db a) = show_int t'" "in64 t'" using assms by (simp_all add: spaced_def)
  then show ?thesis by (simp add: announce_due_def parse_show_int)
qed

text \<open>The other half: while the process runs the next tick comes within two intervals of the last announcement.\<close>

definition within :: "announcer \<Rightarrow> bool" where
  "within a \<longleftrightarrow> (\<forall>n t t' r. ar_tick a = Some n \<longrightarrow> ar_log a = (t, t') # r \<longrightarrow> n < t' + 2 * announce_interval)"

lemma within_announced:
  assumes "\<forall>ev. an_sign env ev \<noteq> None" "an_AnnounceAddresses env \<noteq> []" "n < later + 2 * announce_interval"
  shows "within ((announced env conns now later a)\<lparr>ar_tick := Some n\<rparr>)"
proof -
  obtain e where "an_sign env (node_announcement env now) = Some e" using assms(1) by fastforce
  then have "ar_log (announced env conns now later a) = (now, later) # ar_log a"
    using assms(2) by (simp add: announced_def publishNodeAnnouncement_def Let_def)
  then show ?thesis using assms(3) by (simp add: within_def)
qed

lemma announced_now: "now \<le> ar_now (announced env conns now later a)" if "now \<le> later"
  using that by (auto simp: announced_def publishNodeAnnouncement_def Let_def split: option.splits)

lemma announced_now_le: "ar_now (announced env conns now later a) \<le> later" if "now \<le> later"
  using that by (auto simp: announced_def publishNodeAnnouncement_def Let_def split: option.splits)

lemma launched:
  assumes "spaced a" "ar_now a \<le> now" "now \<le> later" "in64 later"
  shows "spaced (startAutoAnnounce env conns now later a)"
    and "\<forall>ev. an_sign env ev \<noteq> None \<Longrightarrow> ar_tick a = None \<Longrightarrow> within (startAutoAnnounce env conns now later a)"
proof -
  consider "an_AnnounceAddresses env = []" | "an_AnnounceAddresses env \<noteq> []" "announce_due now (ar_db a)"
    | "an_AnnounceAddresses env \<noteq> []" "\<not> announce_due now (ar_db a)" by blast
  note cases = this
  show "spaced (startAutoAnnounce env conns now later a)"
  proof (cases rule: cases)
    case 1
    then show ?thesis using assms(1,2) by (fastforce simp: startAutoAnnounce_def spaced_def)
  next
    case 2
    have "\<forall>t t' r. ar_log a = (t, t') # r \<longrightarrow> now \<ge> t + announce_interval"
    proof (intro allI impI)
      fix t t' r assume l: "ar_log a = (t, t') # r"
      then have "t \<le> t'" using assms(1) by (simp add: spaced_def)
      then show "now \<ge> t + announce_interval" using due_spaced[OF assms(1) l] 2(2) by simp
    qed
    then show ?thesis
      using spaced_announced[OF assms, of "ar_now (announced env conns now later a) + announce_interval"]
        announced_now[OF assms(3)] 2 by (simp add: startAutoAnnounce_def Let_def)
  next
    case 3
    then have "startAutoAnnounce env conns now later a = a\<lparr>ar_now := now, ar_tick := Some (now + announce_interval)\<rparr>"
      by (simp add: startAutoAnnounce_def Let_def)
    then show ?thesis using assms(1,2) by (fastforce simp: spaced_def)
  qed
  assume signs: "\<forall>ev. an_sign env ev \<noteq> None" and off: "ar_tick a = None"
  show "within (startAutoAnnounce env conns now later a)"
  proof (cases rule: cases)
    case 1
    then show ?thesis using off by (simp add: startAutoAnnounce_def within_def)
  next
    case 2
    have "ar_now (announced env conns now later a) + announce_interval < later + 2 * announce_interval"
      using announced_now_le[OF assms(3), of env conns a] interval_pos by linarith
    then show ?thesis
      using 2 within_announced[OF signs 2(1), of "ar_now (announced env conns now later a) + announce_interval" later conns now a]
        by (simp add: startAutoAnnounce_def Let_def)
  next
    case 3
    then show ?thesis using due_spaced[OF assms(1)] by (fastforce simp: startAutoAnnounce_def Let_def within_def)
  qed
qed

lemma ticked:
  assumes "spaced a" "ar_tick a = Some now" "ar_now a \<le> now" "now \<le> later" "in64 later"
  shows "spaced (announce_tick env conns now later a)"
    and "\<forall>ev. an_sign env ev \<noteq> None \<Longrightarrow> an_AnnounceAddresses env \<noteq> [] \<Longrightarrow> within (announce_tick env conns now later a)"
proof -
  have "\<forall>t t' r. ar_log a = (t, t') # r \<longrightarrow> now \<ge> t + announce_interval" using assms(1,2) by (simp add: spaced_def)
  then show "spaced (announce_tick env conns now later a)"
    unfolding announce_tick_def using spaced_announced[OF assms(1,3,4,5)] by simp
  show "within (announce_tick env conns now later a)" if "\<forall>ev. an_sign env ev \<noteq> None" "an_AnnounceAddresses env \<noteq> []"
    unfolding announce_tick_def using within_announced[OF that] assms(4) interval_pos by simp
qed

lemma reach_ticks: "announce_reach env a \<Longrightarrow> an_AnnounceAddresses env = [] \<Longrightarrow> ar_tick a = None"
proof (induction rule: announce_reach.induct)
  case (announce_next a a')
  from announce_next(2,3) show ?case
    by (cases rule: announce_step.cases) (simp_all add: startAutoAnnounce_def announce_next.prems)
qed simp

lemma reach_spaced: "announce_reach env a \<Longrightarrow> spaced a \<and> ((\<forall>ev. an_sign env ev \<noteq> None) \<longrightarrow> within a)"
proof (induction rule: announce_reach.induct)
  case (announce_next a a')
  from announce_next(2) show ?case
  proof (cases rule: announce_step.cases)
    case (launch now later conns)
    then show ?thesis using launched[of a now later env conns] announce_next.IH by blast
  next
    case (tick now later conns)
    moreover from tick have "an_AnnounceAddresses env \<noteq> []" using reach_ticks[OF announce_next(1)] by auto
    ultimately show ?thesis using ticked[of a now later env conns] announce_next.IH by blast
  next
    case shutdown
    then show ?thesis using announce_next.IH by (simp add: spaced_def within_def)
  next
    case (elsewhere d)
    then show ?thesis using announce_next.IH by (simp add: spaced_def within_def)
  qed
qed (simp add: spaced_def within_def)

text \<open>
  Over any sequence of restarts, two announcements begin at least thirty days apart, and while the
  process runs the next one comes less than sixty days after the last.
\<close>

lemma announcements_are_spaced:
  assumes "announce_reach env a" "\<forall>ev. an_sign env ev \<noteq> None"
  shows "sorted_wrt (\<lambda>x y. fst x \<ge> fst y + announce_interval) (ar_log a)
    \<and> (\<forall>n t later rest. ar_tick a = Some n \<and> ar_log a = (t, later) # rest \<longrightarrow> n < later + 2 * announce_interval)"
  using reach_spaced[OF assms(1)] assms(2) by (simp add: spaced_def within_def)

text \<open>
  A restart between two announcements starts the interval again, so that up to sixty days can pass;
  and an announcement that no relay took counts like any other.
\<close>

lemma restart_postpones:
  assumes "spaced a" "ar_log a = (t, t') # r" "now - t' < announce_interval" "an_AnnounceAddresses env \<noteq> []"
  shows "ar_tick (startAutoAnnounce env conns now later a) = Some (now + announce_interval)"
    "ar_log (startAutoAnnounce env conns now later a) = ar_log a"
  using due_spaced[OF assms(1,2), of now] assms(3,4) by (simp_all add: startAutoAnnounce_def Let_def)

lemma unheard_announcement_counts:
  assumes "publishNodeAnnouncement env conns now later d = (Some (ev, []), d')" "in64 later"
  shows "announce_due time d' \<longleftrightarrow> time - later \<ge> announce_interval"
  using assms by (auto simp: publishNodeAnnouncement_def Let_def announce_due_def parse_show_int split: if_splits option.splits)

section \<open>Examples\<close>

definition home_env :: announce_env where
  "home_env = \<lparr> an_AnnounceAddresses = [''https://peer''], an_RelayURLs = Some [''wss://new''],
     an_sign = (\<lambda>e. Some (e\<lparr>ev_id := ''signed'', ev_pubkey := ''announcer''\<rparr>)), an_publish = (\<lambda>_. True), an_redial = (\<lambda>_. False) \<rparr>"

definition home_event :: event where
  "home_event = (node_announcement home_env 5)\<lparr>ev_id := ''signed'', ev_pubkey := ''announcer''\<rparr>"


lemma announcements_are_spaced_example:
  "\<exists>a. announce_reach home_env a \<and> map fst (ar_log a) = [2592000, 0]"
proof -
  let ?a0 = "\<lparr> ar_db = empty_db, ar_now = 0, ar_tick = None, ar_log = [] \<rparr>"
  let ?a1 = "startAutoAnnounce home_env [] 0 0 ?a0"
  let ?a2 = "announce_tick home_env [] 2592000 2592001 ?a1"
  have a1: "ar_tick ?a1 = Some 2592000" "ar_now ?a1 = 0" "ar_log ?a1 = [(0, 0)]"
    by (simp_all add: startAutoAnnounce_def announced_def publishNodeAnnouncement_def home_env_def announce_due_def GetSyncState_def
        empty_db_def announce_interval_def)
  have "announce_reach home_env ?a1"
    by (rule announce_next[OF announce_first launch]) (simp_all add: announce_interval_def in64_def)
  then have r: "announce_reach home_env ?a2"
    by (rule announce_next[OF _ tick]) (simp_all add: a1 announce_interval_def in64_def)
  have heard: "ar_log (announced home_env [] n l a) = (n, l) # ar_log a" for n l a
    by (simp add: announced_def publishNodeAnnouncement_def home_env_def)
  have l: "ar_log ?a2 = [(2592000, 2592001), (0, 0)]"
    by (simp add: announce_tick_def heard a1)
  have "\<forall>ev. an_sign home_env ev \<noteq> None" by (simp add: home_env_def)
  from announcements_are_spaced[OF r this] have "sorted_wrt (\<lambda>x y. fst x \<ge> fst y + announce_interval) (ar_log ?a2)" ..
  with r l show ?thesis by auto
qed

end
