(* ===== verification/LocalStore.thy ===== *)
theory LocalStore
  imports Relay
begin

text \<open>
  \<^verbatim>\<open>handleStoreLocalEvent\<close> in \<^verbatim>\<open>src/internal/node/node.go\<close>: \<^verbatim>\<open>POST /dnn/store-local-event\<close>.  The
  handler only checks the signature, applies the rate limits and stores; an anchor takes the block
  and position of an earlier anchor of its author.  Errors of queries, which only a failing
  database gives, are left out; the asynchronous processing of a node announcement is returned.
\<close>

datatype post_reply = BadRequest | ServerError db_error | PostPanic | PostStored

text \<open>The deletions of the rate limiter, performed unless it reports an error.\<close>

definition make_room :: "event \<Rightarrow> database \<Rightarrow> database" where
  "make_room ev d =
     (case EnforceRateLimits ev (checker d) of
        Inl _ \<Rightarrow> d
      | Inr res \<Rightarrow> apply_limits DeleteEventByID DeleteEventsByDTag (ev_pubkey ev) (ev_kind ev) res d)"

definition anchors_at :: "string \<Rightarrow> string \<Rightarrow> nostr_filter" where
  "anchors_at pubkey dTag = \<lparr> f_IDs = [], f_Kinds = [60600], f_Authors = [pubkey], f_Tags = [(''d'', [dTag])],
     f_Since = None, f_Until = None, f_Limit = 1 \<rparr>"

definition post_anchor :: "relay_env \<Rightarrow> event \<Rightarrow> database \<Rightarrow> post_reply \<times> database" where
  "post_anchor env ev d =
     (let dTag = first_tag ''d'' (ev_tags ev);
          hook = fetchAndStoreReferencedEvents (env_nip19 env) (env_fetch env) in
      if QueryEvents (anchors_at (ev_pubkey ev) dTag) d = [] then (BadRequest, d)
      else
        let (bitcoinBlock, dnnBlock, position) =
              (case GetAnchorBlockPosition (ev_pubkey ev) dTag d of Inl _ \<Rightarrow> (0, 0, 0) | Inr p \<Rightarrow> p) in
        case StoreAnchorEventHooked hook ev bitcoinBlock dnnBlock position d of
          Inl DPanic \<Rightarrow> (PostPanic, d)
        | Inl e \<Rightarrow> (ServerError e, d)
        | Inr d' \<Rightarrow> (PostStored, d'))"

text \<open>The third component is the announcement handed to the synchroniser.\<close>

definition handleStoreLocalEvent ::
  "relay_env \<Rightarrow> event option \<Rightarrow> database \<Rightarrow> post_reply \<times> database \<times> event option" where
  "handleStoreLocalEvent env body d =
     (case body of None \<Rightarrow> (BadRequest, d, None) | Some ev \<Rightarrow>
      if ev_id ev = [] \<or> ev_pubkey ev = [] \<or> ev_sig ev = [] then (BadRequest, d, None)
      else if \<not> env_checkSignature env ev then (BadRequest, d, None)
      else if length (ev_id ev) < 8 \<or> length (ev_pubkey ev) < 8 then (PostPanic, d, None)
      else if ev_kind ev = 60600 then (case post_anchor env ev d of (r, d') \<Rightarrow> (r, d', None))
      else if ev_kind ev = 61600 then (PostStored, StoreNameEvent ev (make_room ev d), None)
      else if ev_kind ev = 62600 then (PostStored, StoreConnectionEvent ev (make_room ev d), None)
      else if ev_kind ev = 63600 then (PostStored, StoreMetadataEvent ev (make_room ev d), None)
      else if ev_kind ev = 64600 then (PostStored, d, Some ev)
      else (BadRequest, d, None))"

section \<open>What making room keeps\<close>

text \<open>Deletions only select rows of the three event tables and of the anchors.\<close>

lemma delete_sub:
  "set (name_events (DeleteEventByID k i d)) \<subseteq> set (name_events d)"
  "set (name_events (DeleteEventsByDTag p k t d)) \<subseteq> set (name_events d)"
  by (auto simp: DeleteEventByID_def DeleteEventsByDTag_def delete_where_def)

lemma make_room_induct:
  assumes "Q d" "\<And>i d. Q d \<Longrightarrow> Q (DeleteEventByID (ev_kind ev) i d)"
    "\<And>t d. Q d \<Longrightarrow> Q (DeleteEventsByDTag (ev_pubkey ev) (ev_kind ev) t d)"
  shows "Q (make_room ev d)"
proof -
  have i: "Q u \<Longrightarrow> Q (foldl (\<lambda>d i. DeleteEventByID (ev_kind ev) i d) u ids)" for u ids
    by (induction ids arbitrary: u) (auto intro: assms(2))
  have t: "Q u \<Longrightarrow> Q (foldl (\<lambda>d t. DeleteEventsByDTag (ev_pubkey ev) (ev_kind ev) t d) u ts)" for u ts
    by (induction ts arbitrary: u) (auto intro: assms(3))
  show ?thesis using assms(1) i t by (simp add: make_room_def apply_limits_def split: sum.splits)
qed

lemma make_room_names: "set (name_events (make_room ev d)) \<subseteq> set (name_events d)"
  by (rule make_room_induct[where Q = "\<lambda>u. set (name_events u) \<subseteq> set (name_events d)"])
    (use delete_sub in \<open>meson subset_refl subset_trans\<close>)+

lemma put_anchor_rows: "set (anchor_events (put_anchor row d)) \<subseteq> insert row (set (anchor_events d))"
  by (auto simp: put_anchor_def UpdateBitcoinTransactionWithAnchor_def insert_or_replace_def)

lemma StoreAnchorEvent_rows:
  assumes "StoreAnchorEvent ev b n p d = Inr d'"
  shows "set (anchor_events d') \<subseteq> insert (anchor_row_of ev b n p) (set (anchor_events d))"
  using assms
proof (rule StoreAnchorEvent_cases)
  fix c
  let ?u = "d\<lparr>anchor_events := delete_where (\<lambda>r. r_id r = r_id c) (anchor_events d)\<rparr>"
  assume "d' = put_anchor (anchor_row_of ev b n p) ?u"
  then have "set (anchor_events d') \<subseteq> insert (anchor_row_of ev b n p) (set (anchor_events ?u))"
    using put_anchor_rows[of _ ?u] by simp
  then show ?thesis by (auto simp: delete_where_def)
qed (use put_anchor_rows in auto)

lemma query_anchors_at:
  "QueryEvents (anchors_at p t) d \<noteq> [] \<Longrightarrow> \<exists>r\<in>set (anchor_events d). r_pubkey r = p \<and> r_d_tag r = t"
proof -
  assume "QueryEvents (anchors_at p t) d \<noteq> []"
  then obtain ev where "ev \<in> set (QueryEvents (anchors_at p t) d)" by (cases "QueryEvents (anchors_at p t) d") auto
  then show ?thesis
    by (cases rule: query_cases) (auto simp: anchors_at_def row_matches_def sql_in_def d_filter_def)
qed

section \<open>Properties\<close>

text \<open>
  C39. The HTTP route stores what the relay refuses: a signed name event of an author without a
  transaction, which the relay rejects, is stored and answered with success when it is posted,
  whatever its size and its tags, unless the address already has a newer event or the id is known.
\<close>

theorem local_store_bypasses_checks:
  assumes "env_checkSignature env ev" "ev_kind ev = 61600" "\<not> author_has_tx env ev (rs_db st)"
    and "length (ev_id ev) \<ge> 8" "length (ev_pubkey ev) \<ge> 8" "ev_sig ev \<noteq> []"
    and "ev_id ev \<notin> r_id ` set (name_events (rs_db st))"
    and "\<forall>r\<in>set (name_events (rs_db st)). r_pubkey r = ev_pubkey ev \<longrightarrow> r_created_at r \<le> ev_created_at ev"
  shows "snd (handleEvent env pe conn ev st) = st
    \<and> fst (handleStoreLocalEvent env (Some ev) (rs_db st)) = PostStored
    \<and> name_row_of ev \<in> set (name_events (fst (snd (handleStoreLocalEvent env (Some ev) (rs_db st)))))"
proof -
  have "\<not> policy_checks env pe ev (rs_db st)" using assms(2,3) by (simp add: policy_checks_def)
  then have "snd (handleEvent env pe conn ev st) = st" using handleEvent_accepts[of conn ev env pe st] by blast
  moreover have h: "handleStoreLocalEvent env (Some ev) (rs_db st)
      = (PostStored, StoreNameEvent ev (make_room ev (rs_db st)), None)"
    using assms(1,2,4-6) by (auto simp: handleStoreLocalEvent_def)
  moreover have "name_row_of ev \<in> set (name_events (StoreNameEvent ev (make_room ev (rs_db st))))"
  proof -
    have m: "r \<in> set (name_events (rs_db st))" if "r \<in> set (name_events (make_room ev (rs_db st)))" for r
      using that make_room_names by blast
    have "\<not> list_ex (\<lambda>r. r_id r = ev_id ev) (name_events (make_room ev (rs_db st)))"
      using m assms(7) by (metis (mono_tags, lifting) image_eqI list_ex_iff)
    moreover have "\<not> list_ex (\<lambda>r. r_pubkey r = ev_pubkey ev \<and> r_d_tag r = t \<and> r_created_at r > ev_created_at ev)
        (name_events (make_room ev (rs_db st)))" for t
      using m assms(8) by (fastforce simp: list_ex_iff)
    ultimately show ?thesis by (simp add: StoreNameEvent_def nip33_store_def name_row_of_def)
  qed
  ultimately show ?thesis by simp
qed

definition stranger_event :: event where
  "stranger_event = bob_event\<lparr>ev_sig := ''s''\<rparr>"

theorem local_store_bypasses_checks_witness:
  "snd (handleEvent open_env (NewPolicyEnforcer ''mainnet'') 3 stranger_event (relay0\<lparr>rs_db := empty_db\<rparr>)) = relay0\<lparr>rs_db := empty_db\<rparr>
   \<and> name_row_of stranger_event \<in> set (name_events (fst (snd (handleStoreLocalEvent open_env (Some stranger_event) empty_db))))"
proof -
  have p: "env_checkSignature open_env stranger_event" "ev_kind stranger_event = 61600"
    "\<not> author_has_tx open_env stranger_event (rs_db (relay0\<lparr>rs_db := empty_db\<rparr>))"
    "length (ev_id stranger_event) \<ge> 8" "length (ev_pubkey stranger_event) \<ge> 8" "ev_sig stranger_event \<noteq> []"
    "ev_id stranger_event \<notin> r_id ` set (name_events (rs_db (relay0\<lparr>rs_db := empty_db\<rparr>)))"
    "\<forall>r\<in>set (name_events (rs_db (relay0\<lparr>rs_db := empty_db\<rparr>))).
       r_pubkey r = ev_pubkey stranger_event \<longrightarrow> r_created_at r \<le> ev_created_at stranger_event"
    by code_simp+
  show ?thesis using local_store_bypasses_checks[OF p] by simp
qed

text \<open>
  A posted anchor is only stored when the author has an anchor at the d tag that the event
  carries first, and then with the block and position of that anchor: the transaction that the
  event names plays no part, it need not exist.
\<close>

lemma posted_anchor_position:
  assumes "fst (handleStoreLocalEvent env (Some ev) d) = PostStored" "ev_kind ev = 60600"
  shows "\<exists>r\<in>set (anchor_events d). r_pubkey r = ev_pubkey ev \<and> r_d_tag r = first_tag ''d'' (ev_tags ev)
    \<and> set (anchor_events (fst (snd (handleStoreLocalEvent env (Some ev) d))))
        \<subseteq> insert (anchor_row_of ev (a_bitcoin_block r) (a_dnn_block r) (a_position r)) (set (anchor_events d))"
proof -
  let ?t = "first_tag ''d'' (ev_tags ev)" and ?d' = "fst (snd (handleStoreLocalEvent env (Some ev) d))"
  have post: "post_anchor env ev d = (PostStored, ?d')"
    using assms by (auto simp: handleStoreLocalEvent_def split: if_splits prod.splits)
  then have "QueryEvents (anchors_at (ev_pubkey ev) ?t) d \<noteq> []"
    by (auto simp: post_anchor_def Let_def split: if_splits)
  then have "find (\<lambda>r. r_pubkey r = ev_pubkey ev \<and> r_d_tag r = ?t) (anchor_events d) \<noteq> None"
    using query_anchors_at unfolding find_None_iff by blast
  then obtain r where r: "find (\<lambda>r. r_pubkey r = ev_pubkey ev \<and> r_d_tag r = ?t) (anchor_events d) = Some r" by blast
  then have "StoreAnchorEventHooked (fetchAndStoreReferencedEvents (env_nip19 env) (env_fetch env)) ev
      (a_bitcoin_block r) (a_dnn_block r) (a_position r) d = Inr ?d'"
    using post by (auto simp: post_anchor_def Let_def GetAnchorBlockPosition_def split: if_splits sum.splits db_error.splits)
  then obtain e where "StoreAnchorEvent ev (a_bitcoin_block r) (a_dnn_block r) (a_position r) d = Inr e"
    "anchor_events ?d' = anchor_events e"
    by (elim StoreAnchorEventHooked_ok) (auto simp: fetch_keeps)
  then have "set (anchor_events ?d')
      \<subseteq> insert (anchor_row_of ev (a_bitcoin_block r) (a_dnn_block r) (a_position r)) (set (anchor_events d))"
    using StoreAnchorEvent_rows by metis
  moreover have "r \<in> set (anchor_events d)" "r_pubkey r = ev_pubkey ev" "r_d_tag r = ?t"
    using r by (auto simp: find_Some_iff)
  ultimately show ?thesis by blast
qed

definition posted_anchor :: event where
  "posted_anchor = (anchor_event ''anchor-2'' ''owner-of-it'' 20 ''names'')\<lparr>ev_sig := ''s'',
     ev_tags := [[''d'', ''names''], [''n'', ''naddr1n''], [''c'', ''naddr1c''], [''m'', ''naddr1m''], [''x'', ''nosuchtx'']]\<rparr>"

definition posted_db :: database where
  "posted_db = (case StoreAnchorEvent (anchor_event ''anchor-1'' ''owner-of-it'' 10 ''names'') 940007 7 1 empty_db of
     Inr d \<Rightarrow> d | Inl _ \<Rightarrow> empty_db)"

lemma posted_anchor_position_example:
  "GetBitcoinTransaction ''nosuchtx'' posted_db = None
   \<and> (\<exists>r. r \<in> set (anchor_events posted_db) \<and> r_pubkey r = ''owner-of-it''
        \<and> set (anchor_events (fst (snd (handleStoreLocalEvent open_env (Some posted_anchor) posted_db))))
          \<subseteq> insert (anchor_row_of posted_anchor (a_bitcoin_block r) (a_dnn_block r) (a_position r)) (set (anchor_events posted_db)))"
proof -
  have p: "fst (handleStoreLocalEvent open_env (Some posted_anchor) posted_db) = PostStored" "ev_kind posted_anchor = 60600"
    "ev_pubkey posted_anchor = ''owner-of-it''" "GetBitcoinTransaction ''nosuchtx'' posted_db = None"
    by code_simp+
  show ?thesis using posted_anchor_position[OF p(1,2)] p(3,4) by metis
qed

end
