(* ===== verification/Lookup.thy ===== *)
theory Lookup
  imports Relay
begin

text \<open>
  How names are looked up: the queries of \<^verbatim>\<open>src/internal/database/database.go\<close> that go from a block
  and a position, a name or a public key through the references of an anchor to the events
  behind them.  Decoding an \<^verbatim>\<open>naddr\<close> is third-party code and the argument \<open>decode\<close>, as in the relay.
  A \<^verbatim>\<open>LIMIT 1\<close> without an order takes the first row of the table.
\<close>

definition extractEventIDFromNaddr ::
  "(string \<Rightarrow> naddr_data option) \<Rightarrow> string \<Rightarrow> (db_error, string \<times> int \<times> string \<times> string) res" where
  "extractEventIDFromNaddr decode naddr =
     (case decode naddr of
        None \<Rightarrow> Err DBadNaddr
      | Some ep \<Rightarrow> Ok (na_identifier ep, na_kind ep, na_pubkey ep, na_identifier ep))"

text \<open>
  \<^verbatim>\<open>findEventByCoordinates\<close> binds two arguments; the statements of the last two kinds have one
  placeholder, which \<^verbatim>\<open>database/sql\<close> reports as an error.
\<close>

definition findEventByCoordinates :: "int \<Rightarrow> string \<Rightarrow> string \<Rightarrow> database \<Rightarrow> (db_error, string) res" where
  "findEventByCoordinates kind pubkey dTag d =
     (if kind = 61600 then
        (case find (\<lambda>r. r_pubkey r = pubkey \<and> r_d_tag r = dTag) (name_events d) of
           Some r \<Rightarrow> Ok (r_id r)
         | None \<Rightarrow> if length pubkey < 8 then Err DPanic else Err DEventNotFound)
      else if kind = 62600 \<or> kind = 63600 then Err DNoSuchColumn
      else Err DUnsupportedKind)"

section \<open>The newest event at an address\<close>

text \<open>\<^verbatim>\<open>ORDER BY created_at DESC LIMIT 1\<close>; an empty d tag in the reference drops the second condition.\<close>

definition newest_row :: "('a ev_row_scheme \<Rightarrow> bool) \<Rightarrow> 'a ev_row_scheme list \<Rightarrow> 'a ev_row_scheme option" where
  "newest_row P t = (case order_by (\<lambda>r. - r_created_at r) (filter P t) of [] \<Rightarrow> None | r # _ \<Rightarrow> Some r)"

definition at_address :: "string \<Rightarrow> string \<Rightarrow> 'a ev_row_scheme \<Rightarrow> bool" where
  "at_address pubkey dTag r \<longleftrightarrow> r_pubkey r = pubkey \<and> r_d_tag r = dTag"

definition at_reference :: "string \<Rightarrow> string \<Rightarrow> 'a ev_row_scheme \<Rightarrow> bool" where
  "at_reference pubkey dTag r \<longleftrightarrow> (if dTag \<noteq> [] then at_address pubkey dTag r else r_pubkey r = pubkey)"

section \<open>By block and position\<close>

definition anchor_at :: "int \<Rightarrow> int \<Rightarrow> database \<Rightarrow> anchor_row option" where
  "anchor_at block position d = find (\<lambda>r. a_dnn_block r = block \<and> a_position r = position) (anchor_events d)"

definition follow_ref ::
  "(string \<Rightarrow> naddr_data option) \<Rightarrow> (anchor_row \<Rightarrow> string) \<Rightarrow> (database \<Rightarrow> 'a ev_row_scheme list) \<Rightarrow>
     int \<Rightarrow> int \<Rightarrow> database \<Rightarrow> (db_error, 'a ev_row_scheme) res" where
  "follow_ref decode ref table block position d =
     (case anchor_at block position d of
        None \<Rightarrow> Err DNoRows
      | Some a \<Rightarrow>
          (case extractEventIDFromNaddr decode (ref a) of
             Inl e \<Rightarrow> Err e
           | Inr (_, _, pubkey, dTag) \<Rightarrow>
               (case newest_row (at_reference pubkey dTag) (table d) of
                  None \<Rightarrow> Err DNoRows | Some r \<Rightarrow> Ok r)))"

definition GetConnectionContentByBlockAndPosition ::
  "(string \<Rightarrow> naddr_data option) \<Rightarrow> int \<Rightarrow> int \<Rightarrow> database \<Rightarrow> (db_error, string) res" where
  "GetConnectionContentByBlockAndPosition decode block position d =
     map_sum id r_content (follow_ref decode a_conn_ref connection_events block position d)"

definition GetNameContentByBlockAndPosition ::
  "(string \<Rightarrow> naddr_data option) \<Rightarrow> int \<Rightarrow> int \<Rightarrow> database \<Rightarrow> (db_error, string) res" where
  "GetNameContentByBlockAndPosition decode block position d =
     map_sum id r_content (follow_ref decode a_name_ref name_events block position d)"

definition GetPrimaryNameByBlockAndPosition ::
  "(string \<Rightarrow> naddr_data option) \<Rightarrow> int \<Rightarrow> int \<Rightarrow> database \<Rightarrow> (db_error, string) res" where
  "GetPrimaryNameByBlockAndPosition decode block position d =
     map_sum id r_primary_name (follow_ref decode a_name_ref name_events block position d)"

definition GetConnectionContentByPubkey :: "string \<Rightarrow> database \<Rightarrow> (db_error, string) res" where
  "GetConnectionContentByPubkey pubkey d =
     (case find (\<lambda>r. r_pubkey r = pubkey) (connection_events d) of None \<Rightarrow> Err DNoRows | Some r \<Rightarrow> Ok (r_content r))"

definition GetConnectionContentByPubkeyAndDTag :: "string \<Rightarrow> string \<Rightarrow> database \<Rightarrow> (db_error, string) res" where
  "GetConnectionContentByPubkeyAndDTag pubkey dTag d =
     (case find (at_address pubkey dTag) (connection_events d) of None \<Rightarrow> Err DNoRows | Some r \<Rightarrow> Ok (r_content r))"

section \<open>By name\<close>

record anchor_record =
  ar_ID :: string
  ar_Pubkey :: string
  ar_CreatedAt :: int
  ar_BitcoinBlock :: int
  ar_DNNBlock :: int
  ar_Position :: int
  ar_Name :: string
  ar_OtherNames :: string
  ar_NameContent :: string
  ar_ConnectionContent :: string
  ar_MetadataContent :: string
  ar_ConnEvent :: "tagged_row option"

text \<open>\<^verbatim>\<open>ORDER BY dnn_block_number DESC, position ASC\<close> after the optional conditions.\<close>

definition candidate_anchors :: "int option \<Rightarrow> int option \<Rightarrow> database \<Rightarrow> anchor_row list" where
  "candidate_anchors blockNum position d =
     order_by (\<lambda>r. - a_dnn_block r) (order_by a_position
       (filter (\<lambda>r. (case blockNum of None \<Rightarrow> True | Some b \<Rightarrow> a_dnn_block r = b)
                  \<and> (case position of None \<Rightarrow> True | Some p \<Rightarrow> a_position r = p)) (anchor_events d)))"

definition referenced_name :: "(string \<Rightarrow> naddr_data option) \<Rightarrow> database \<Rightarrow> anchor_row \<Rightarrow> name_row option" where
  "referenced_name decode d a =
     (case extractEventIDFromNaddr decode (a_name_ref a) of
        Inl _ \<Rightarrow> None
      | Inr (_, _, pubkey, dTag) \<Rightarrow> newest_row (at_address pubkey dTag) (name_events d))"

definition referenced_row ::
  "(string \<Rightarrow> naddr_data option) \<Rightarrow> (database \<Rightarrow> 'a ev_row_scheme list) \<Rightarrow> database \<Rightarrow> string \<Rightarrow> 'a ev_row_scheme option" where
  "referenced_row decode table d ref =
     (case extractEventIDFromNaddr decode ref of
        Inl _ \<Rightarrow> None
      | Inr (_, _, pubkey, dTag) \<Rightarrow> newest_row (at_reference pubkey dTag) (table d))"

definition record_of :: "(string \<Rightarrow> naddr_data option) \<Rightarrow> database \<Rightarrow> anchor_row \<Rightarrow> anchor_record" where
  "record_of decode d a =
     (let name = referenced_name decode d a;
          conn = referenced_row decode connection_events d (a_conn_ref a);
          meta = referenced_row decode metadata_events d (a_meta_ref a)
      in \<lparr> ar_ID = r_id a, ar_Pubkey = r_pubkey a, ar_CreatedAt = r_created_at a,
           ar_BitcoinBlock = a_bitcoin_block a, ar_DNNBlock = a_dnn_block a, ar_Position = a_position a,
           ar_Name = case_option [] r_primary_name name, ar_OtherNames = case_option [] r_other_names name,
           ar_NameContent = case_option [] r_content name,
           ar_ConnectionContent = case_option [] r_content conn,
           ar_MetadataContent = case_option [] r_content meta, ar_ConnEvent = conn \<rparr>)"

text \<open>\<^verbatim>\<open>strings.EqualFold\<close> on the ASCII letters.\<close>

definition equal_fold :: "string \<Rightarrow> string \<Rightarrow> bool" where
  "equal_fold s t \<longleftrightarrow> to_lower s = to_lower t"

definition GetAnchorByName ::
  "(string \<Rightarrow> naddr_data option) \<Rightarrow> string \<Rightarrow> int option \<Rightarrow> int option \<Rightarrow> database \<Rightarrow> (db_error, anchor_record) res" where
  "GetAnchorByName decode name blockNum position d =
     (let rows = candidate_anchors blockNum position d in
      case (if name \<noteq> []
            then find (\<lambda>a. case referenced_name decode d a of
                   None \<Rightarrow> False | Some n \<Rightarrow> equal_fold (r_primary_name n) name) rows
            else (case rows of [] \<Rightarrow> None | a # _ \<Rightarrow> Some a)) of
        None \<Rightarrow> Err DNoRows
      | Some a \<Rightarrow> Ok (record_of decode d a))"

text \<open>The listing of a key's anchors takes the connection at the exact address only.\<close>

definition GetNamesByPubkey :: "(string \<Rightarrow> naddr_data option) \<Rightarrow> string \<Rightarrow> database \<Rightarrow> anchor_record list" where
  "GetNamesByPubkey decode pubkey d =
     map (\<lambda>a. (record_of decode d a)\<lparr>
            ar_ConnectionContent :=
              (case extractEventIDFromNaddr decode (a_conn_ref a) of
                 Inl _ \<Rightarrow> []
               | Inr (_, _, pk, dTag) \<Rightarrow>
                   case_option [] r_content (newest_row (at_address pk dTag) (connection_events d))),
            ar_ConnEvent := None\<rparr>)
       (order_by (\<lambda>r. - a_dnn_block r) (order_by a_position (filter (\<lambda>r. r_pubkey r = pubkey) (anchor_events d))))"

section \<open>Lemmas\<close>

lemma newest_row_Some:
  assumes "newest_row P t = Some r"
  shows "r \<in> set t" "P r" "\<And>s. s \<in> set t \<Longrightarrow> P s \<Longrightarrow> r_created_at s \<le> r_created_at r"
proof -
  obtain rs where o: "order_by (\<lambda>r. - r_created_at r) (filter P t) = r # rs"
    using assms by (auto simp: newest_row_def split: list.splits)
  then have "set (filter P t) = set (r # rs)" by (metis order_by_set)
  then show "r \<in> set t" "P r" by auto
  show "r_created_at s \<le> r_created_at r" if "s \<in> set t" "P s" for s
    using order_by_min[of "filter P t" s "\<lambda>r. - r_created_at r"] that o by (auto simp: filter_empty_conv)
qed

lemma newest_row_None: "newest_row P t = None \<longleftrightarrow> (\<forall>r\<in>set t. \<not> P r)"
proof -
  have "newest_row P t = None \<longleftrightarrow> order_by (\<lambda>r. - r_created_at r) (filter P t) = []"
    unfolding newest_row_def by (cases "order_by (\<lambda>r. - r_created_at r) (filter P t)") simp_all
  then show ?thesis by (simp add: filter_empty_conv)
qed

lemma anchor_at_Some: "anchor_at b p d = Some a \<Longrightarrow> a \<in> set (anchor_events d) \<and> a_dnn_block a = b \<and> a_position a = p"
  by (auto simp: anchor_at_def find_Some_iff)

lemma candidate_anchors_set:
  "set (candidate_anchors b p d) = {a \<in> set (anchor_events d). (\<forall>x. b = Some x \<longrightarrow> a_dnn_block a = x)
     \<and> (\<forall>x. p = Some x \<longrightarrow> a_position a = x)}"
  by (auto simp: candidate_anchors_def split: option.splits)

end
