(* ===== verification/Address.thy ===== *)
theory Address
  imports Constants Json
begin

text \<open>
  \<^verbatim>\<open>src/internal/bitcoin/address.go\<close>: the Bitcoin addresses that belong to a Nostr public key.  The
  curve, the hashes and the address encodings are in the third-party packages \<^verbatim>\<open>btcec\<close>,
  \<^verbatim>\<open>btcutil\<close> and \<^verbatim>\<open>txscript\<close>; they are the fields of \<open>btc_lib\<close>, over a type \<open>'k\<close> of parsed keys.
\<close>

datatype chain_params = MainNetParams | TestNet3Params

datatype address_kind = PubKeyHash | ScriptHash | WitnessPubKeyHash | WitnessScriptHash | Taproot | OtherAddress

record 'k btc_lib =
  bl_ParsePubKey :: "nat list \<Rightarrow> 'k option"
  bl_SerializeCompressed :: "'k \<Rightarrow> nat list"
  bl_Hash160 :: "nat list \<Rightarrow> nat list"
  bl_ComputeTaprootKeyNoScript :: "'k \<Rightarrow> 'k"
  bl_WitnessPubKeyHash :: "nat list \<Rightarrow> chain_params \<Rightarrow> string option"
  bl_WitnessScript :: "nat list \<Rightarrow> chain_params \<Rightarrow> nat list option"
  bl_TaprootAddress :: "nat list \<Rightarrow> chain_params \<Rightarrow> string option"
  bl_PubKeyHash :: "nat list \<Rightarrow> chain_params \<Rightarrow> string option"
  bl_ScriptHash :: "nat list \<Rightarrow> chain_params \<Rightarrow> string option"
  bl_DecodeAddress :: "string \<Rightarrow> chain_params \<Rightarrow> address_kind option"

record DerivedAddress =
  da_Address :: string
  da_Type :: string
  da_Network :: string

datatype address_error = BadHex | BadLength | NothingDerived | InvalidAddress

definition params_name :: "chain_params \<Rightarrow> string" where
  "params_name n = (case n of MainNetParams \<Rightarrow> ''mainnet'' | TestNet3Params \<Rightarrow> ''testnet3'')"

definition NewAddressDeriver :: "bool \<Rightarrow> chain_params" where
  "NewAddressDeriver testnet = (if testnet then TestNet3Params else MainNetParams)"

section \<open>Hexadecimal\<close>

text \<open>\<^verbatim>\<open>hex.DecodeString\<close>; an odd digit at the end is an error.\<close>

fun hex_decode :: "string \<Rightarrow> nat list option" where
  "hex_decode [] = Some []"
| "hex_decode [c] = None"
| "hex_decode (c # d # s) =
     (case (hex_val c, hex_val d, hex_decode s) of
        (Some a, Some b, Some bs) \<Rightarrow> Some ((16 * a + b) # bs)
      | _ \<Rightarrow> None)"

section \<open>Derivation\<close>

definition deriveP2WPKH :: "'k btc_lib \<Rightarrow> chain_params \<Rightarrow> 'k \<Rightarrow> string option" where
  "deriveP2WPKH lib net pubKey = bl_WitnessPubKeyHash lib (bl_Hash160 lib (bl_SerializeCompressed lib pubKey)) net"

definition deriveP2TR :: "'k btc_lib \<Rightarrow> chain_params \<Rightarrow> nat list \<Rightarrow> string option" where
  "deriveP2TR lib net pubkeyBytes =
     (case (case bl_ParsePubKey lib (2 # pubkeyBytes) of
              Some k \<Rightarrow> Some k | None \<Rightarrow> bl_ParsePubKey lib (3 # pubkeyBytes)) of
        None \<Rightarrow> None
      | Some pubKey \<Rightarrow>
          bl_TaprootAddress lib (drop 1 (bl_SerializeCompressed lib (bl_ComputeTaprootKeyNoScript lib pubKey))) net)"

definition deriveP2PKH :: "'k btc_lib \<Rightarrow> chain_params \<Rightarrow> 'k \<Rightarrow> string option" where
  "deriveP2PKH lib net pubKey = bl_PubKeyHash lib (bl_Hash160 lib (bl_SerializeCompressed lib pubKey)) net"

definition deriveP2SH_P2WPKH :: "'k btc_lib \<Rightarrow> chain_params \<Rightarrow> 'k \<Rightarrow> string option" where
  "deriveP2SH_P2WPKH lib net pubKey =
     (case bl_WitnessScript lib (bl_Hash160 lib (bl_SerializeCompressed lib pubKey)) net of
        None \<Rightarrow> None
      | Some script \<Rightarrow> bl_ScriptHash lib (bl_Hash160 lib script) net)"

text \<open>One appended entry: nothing when the key did not parse or the derivation failed.\<close>

definition derived :: "chain_params \<Rightarrow> string \<Rightarrow> ('k \<Rightarrow> string option) \<Rightarrow> 'k option \<Rightarrow> DerivedAddress list" where
  "derived net type f key =
     (case key of None \<Rightarrow> [] | Some k \<Rightarrow>
        (case f k of None \<Rightarrow> []
         | Some a \<Rightarrow> [\<lparr> da_Address = a, da_Type = type, da_Network = params_name net \<rparr>]))"

definition DeriveAddresses :: "'k btc_lib \<Rightarrow> chain_params \<Rightarrow> string \<Rightarrow> (address_error, DerivedAddress list) res" where
  "DeriveAddresses lib net nostrPubkeyHex =
     (case hex_decode nostrPubkeyHex of
        None \<Rightarrow> Err BadHex
      | Some pubkeyBytes \<Rightarrow>
          if length pubkeyBytes \<noteq> 32 then Err BadLength
          else
            let even = bl_ParsePubKey lib (2 # pubkeyBytes);
                odd = bl_ParsePubKey lib (3 # pubkeyBytes);
                addresses =
                  derived net ''p2wpkh'' (deriveP2WPKH lib net) even
                  @ derived net ''p2wpkh'' (deriveP2WPKH lib net) odd
                  @ derived net ''p2tr'' (deriveP2TR lib net) (Some pubkeyBytes)
                  @ derived net ''p2pkh'' (deriveP2PKH lib net) even
                  @ derived net ''p2pkh'' (deriveP2PKH lib net) odd
                  @ derived net ''p2sh-p2wpkh'' (deriveP2SH_P2WPKH lib net) even
                  @ derived net ''p2sh-p2wpkh'' (deriveP2SH_P2WPKH lib net) odd
            in if addresses = [] then Err NothingDerived else Ok addresses)"

definition VerifyAddressOwnership :: "'k btc_lib \<Rightarrow> chain_params \<Rightarrow> string \<Rightarrow> string \<Rightarrow> (address_error, bool) res" where
  "VerifyAddressOwnership lib net bitcoinAddr nostrPubkeyHex =
     (case DeriveAddresses lib net nostrPubkeyHex of
        Inl e \<Rightarrow> Err e
      | Inr as \<Rightarrow> Ok (list_ex (\<lambda>d. da_Address d = bitcoinAddr) as))"

definition GetAddressType :: "'k btc_lib \<Rightarrow> chain_params \<Rightarrow> string \<Rightarrow> (address_error, string) res" where
  "GetAddressType lib net address =
     (case bl_DecodeAddress lib address net of
        None \<Rightarrow> Err InvalidAddress
      | Some PubKeyHash \<Rightarrow> Ok ''p2pkh''
      | Some ScriptHash \<Rightarrow> Ok ''p2sh''
      | Some WitnessPubKeyHash \<Rightarrow> Ok ''p2wpkh''
      | Some WitnessScriptHash \<Rightarrow> Ok ''p2wsh''
      | Some Taproot \<Rightarrow> Ok ''p2tr''
      | Some OtherAddress \<Rightarrow> Ok ''unknown'')"

definition ValidateAddress :: "'k btc_lib \<Rightarrow> chain_params \<Rightarrow> string \<Rightarrow> (address_error, unit) res" where
  "ValidateAddress lib net address =
     (if bl_DecodeAddress lib address net = None then Err InvalidAddress else Ok ())"

text \<open>
  How the relay uses it: the network of the configuration picks the parameters and only the
  address strings are kept.
\<close>

definition relay_derive :: "'k btc_lib \<Rightarrow> string \<Rightarrow> string \<Rightarrow> string list option" where
  "relay_derive lib network pubkey =
     (let isTestnet = (network = ''testnet'' \<or> network = ''dev'') in
      case DeriveAddresses lib (NewAddressDeriver isTestnet) pubkey of
        Inl _ \<Rightarrow> None | Inr as \<Rightarrow> Some (map da_Address as))"

section \<open>Lemmas\<close>

text \<open>What the address encodings promise: the first characters tell the kind and the network.\<close>

definition address_formats :: "'k btc_lib \<Rightarrow> bool" where
  "address_formats lib \<longleftrightarrow>
     (\<forall>h n a. bl_WitnessPubKeyHash lib h n = Some a \<longrightarrow> has_prefix a (if n = MainNetParams then ''bc1q'' else ''tb1q''))
     \<and> (\<forall>h n a. bl_TaprootAddress lib h n = Some a \<longrightarrow> has_prefix a (if n = MainNetParams then ''bc1p'' else ''tb1p''))
     \<and> (\<forall>h n a. bl_PubKeyHash lib h n = Some a \<longrightarrow> a \<noteq> [] \<and> hd a \<in> {CHR ''1'', CHR ''m'', CHR ''n''})
     \<and> (\<forall>h n a. bl_ScriptHash lib h n = Some a \<longrightarrow> a \<noteq> [] \<and> hd a \<in> {CHR ''2'', CHR ''3''})"

lemma in_derived: "d \<in> set (derived net type f key) \<longleftrightarrow> (\<exists>k a. key = Some k \<and> f k = Some a
    \<and> d = \<lparr> da_Address = a, da_Type = type, da_Network = params_name net \<rparr>)"
  by (auto simp: derived_def split: option.splits)

text \<open>The two parities of a key.\<close>

definition witness_addresses :: "'k btc_lib \<Rightarrow> chain_params \<Rightarrow> nat list \<Rightarrow> string set" where
  "witness_addresses lib net bytes =
     {a. \<exists>y\<in>{2, 3}. \<exists>k. bl_ParsePubKey lib (y # bytes) = Some k \<and> deriveP2WPKH lib net k = Some a}"

lemma not_witness_prefix:
  assumes "a \<noteq> []" "hd a \<in> {CHR ''1'', CHR ''2'', CHR ''3'', CHR ''m'', CHR ''n''}"
  shows "\<not> has_prefix (to_lower a) ''bc1q''"
  using assms by (cases a) (auto simp: has_prefix_iff to_lower_def lower_char_def byte_of_def)

lemma lower_prefix: "has_prefix a p \<Longrightarrow> has_prefix (to_lower a) (to_lower p)"
  by (auto simp: has_prefix_iff prefix_def to_lower_def)

lemma prefix_clash: "has_prefix s p \<Longrightarrow> has_prefix s q \<Longrightarrow> length p = length q \<Longrightarrow> p = q"
  by (auto simp: has_prefix_iff prefix_def)

lemma witness_prefix_clash:
  assumes "has_prefix (to_lower a) ''bc1q''"
  shows "\<not> has_prefix a ''tb1q''" "\<not> has_prefix a ''bc1p''" "\<not> has_prefix a ''tb1p''"
proof -
  have l: "to_lower ''tb1q'' = ''tb1q''" "to_lower ''bc1p'' = ''bc1p''" "to_lower ''tb1p'' = ''tb1p''"
    by code_simp+
  show "\<not> has_prefix a ''tb1q''" "\<not> has_prefix a ''bc1p''" "\<not> has_prefix a ''tb1p''"
    using lower_prefix[of a "''tb1q''"] lower_prefix[of a "''bc1p''"] lower_prefix[of a "''tb1p''"]
      prefix_clash[OF assms, of "''tb1q''"] prefix_clash[OF assms, of "''bc1p''"] prefix_clash[OF assms, of "''tb1p''"]
    unfolding l by auto
qed

lemma derived_witness:
  assumes "address_formats lib" "hex_decode pk = Some bytes" "length bytes = 32"
    "DeriveAddresses lib net pk = Inr as" "a \<in> da_Address ` set as"
    "has_prefix (to_lower a) ''bc1q''"
  shows "net = MainNetParams \<and> a \<in> witness_addresses lib net bytes"
proof -
  let ?p = "\<lambda>y. bl_ParsePubKey lib (y # bytes)"
  have W: ?thesis if "y \<in> {2, 3}" "?p y = Some k" "deriveP2WPKH lib net k = Some a" for y k
  proof -
    have "has_prefix a (if net = MainNetParams then ''bc1q'' else ''tb1q'')"
      using that assms(1) by (simp add: address_formats_def deriveP2WPKH_def)
    then have "net = MainNetParams" using witness_prefix_clash[OF assms(6)] by (auto split: if_splits)
    then show ?thesis using that by (auto simp: witness_addresses_def)
  qed
  have "as = derived net ''p2wpkh'' (deriveP2WPKH lib net) (?p 2) @ derived net ''p2wpkh'' (deriveP2WPKH lib net) (?p 3)
      @ derived net ''p2tr'' (deriveP2TR lib net) (Some bytes)
      @ derived net ''p2pkh'' (deriveP2PKH lib net) (?p 2) @ derived net ''p2pkh'' (deriveP2PKH lib net) (?p 3)
      @ derived net ''p2sh-p2wpkh'' (deriveP2SH_P2WPKH lib net) (?p 2) @ derived net ''p2sh-p2wpkh'' (deriveP2SH_P2WPKH lib net) (?p 3)"
    using assms(2,3,4) by (auto simp: DeriveAddresses_def Let_def split: if_splits)
  then consider (e) k where "?p 2 = Some k" "deriveP2WPKH lib net k = Some a"
    | (d) k where "?p 3 = Some k" "deriveP2WPKH lib net k = Some a"
    | (t) "deriveP2TR lib net bytes = Some a" | (p) k where "deriveP2PKH lib net k = Some a"
    | (s) k where "deriveP2SH_P2WPKH lib net k = Some a"
    using assms(5) by (auto simp: in_derived)
  then show ?thesis
  proof cases
    case e
    then show ?thesis by (intro W[of 2]) simp_all
  next
    case d
    then show ?thesis by (intro W[of 3]) simp_all
  next
    case t
    then obtain h where "bl_TaprootAddress lib h net = Some a" by (auto simp: deriveP2TR_def split: option.splits)
    then have "has_prefix a (if net = MainNetParams then ''bc1p'' else ''tb1p'')"
      using assms(1) unfolding address_formats_def by blast
    then show ?thesis using witness_prefix_clash[OF assms(6)] by (auto split: if_splits)
  next
    case p
    then have "a \<noteq> [] \<and> hd a \<in> {CHR ''1'', CHR ''m'', CHR ''n''}"
      using assms(1) unfolding address_formats_def deriveP2PKH_def by blast
    then show ?thesis using not_witness_prefix[of a] assms(6) by blast
  next
    case s
    then obtain h where "bl_ScriptHash lib h net = Some a" by (auto simp: deriveP2SH_P2WPKH_def split: option.splits)
    then have "a \<noteq> [] \<and> hd a \<in> {CHR ''2'', CHR ''3''}" using assms(1) unfolding address_formats_def by blast
    then show ?thesis using not_witness_prefix[of a] assms(6) by blast
  qed
qed

lemma witness_derived:
  assumes "hex_decode pk = Some bytes" "length bytes = 32" "a \<in> witness_addresses lib net bytes"
  shows "\<exists>as. DeriveAddresses lib net pk = Inr as \<and> a \<in> da_Address ` set as"
proof -
  obtain y k where yk: "y \<in> {2, 3}" "bl_ParsePubKey lib (y # bytes) = Some k" "deriveP2WPKH lib net k = Some a"
    using assms(3) by (auto simp: witness_addresses_def)
  let ?d = "\<lparr> da_Address = a, da_Type = ''p2wpkh'', da_Network = params_name net \<rparr>"
  have d: "?d \<in> set (derived net ''p2wpkh'' (deriveP2WPKH lib net) (bl_ParsePubKey lib (2 # bytes)))
      \<union> set (derived net ''p2wpkh'' (deriveP2WPKH lib net) (bl_ParsePubKey lib (3 # bytes)))"
    using yk by (auto simp: in_derived)
  then show ?thesis
    using assms(1,2) by (auto simp: DeriveAddresses_def Let_def intro: rev_image_eqI)
qed

lemma DeriveAddresses_ok:
  "DeriveAddresses lib net pk = Inr as \<Longrightarrow> \<exists>bytes. hex_decode pk = Some bytes \<and> length bytes = 32"
  by (auto simp: DeriveAddresses_def split: option.splits if_splits)

section \<open>A concrete library\<close>

text \<open>A library whose encodings only keep the prefix.\<close>

definition plain_lib :: "nat btc_lib" where
  "plain_lib = \<lparr> bl_ParsePubKey = (\<lambda>bs. Some (hd bs)), bl_SerializeCompressed = (\<lambda>k. [k]), bl_Hash160 = (\<lambda>b. b),
     bl_ComputeTaprootKeyNoScript = (\<lambda>k. k),
     bl_WitnessPubKeyHash = (\<lambda>h n. Some (if n = MainNetParams then ''bc1qme'' else ''tb1qme'')),
     bl_WitnessScript = (\<lambda>h n. Some h),
     bl_TaprootAddress = (\<lambda>h n. Some (if n = MainNetParams then ''bc1pme'' else ''tb1pme'')),
     bl_PubKeyHash = (\<lambda>h n. Some ''1me''), bl_ScriptHash = (\<lambda>h n. Some ''3me''), bl_DecodeAddress = (\<lambda>a n. None) \<rparr>"

lemma plain_lib_formats: "address_formats plain_lib"
  by (auto simp: address_formats_def plain_lib_def has_prefix_def)

definition key_hex :: string where
  "key_hex = replicate 64 CHR ''0''"

lemma key_hex_bytes: "hex_decode key_hex = Some (replicate 32 0)" "length (replicate 32 (0::nat)) = 32"
  by code_simp+

end
