(* ===== verification/Retention.thy ===== *)
theory Retention
  imports Lookup Address
begin

text \<open>
  The clean-up of the event tables in \<^verbatim>\<open>src/internal/database/database.go\<close>, which a node runs when it
  starts (\<^verbatim>\<open>runStartupCleanup\<close> in \<^verbatim>\<open>src/internal/node/node.go\<close>): events of authors without a
  transaction, versions of an event beyond ten and d tags of an author beyond five go, the oldest
  first; d tags that an anchor of the author refers to are protected.  Rows with equal sort keys
  keep the order of the table, which SQL leaves open.
\<close>

section \<open>Limits of one address and one author\<close>

definition pruneEventVersions :: "string \<Rightarrow> string \<Rightarrow> nat \<Rightarrow> ('a ev_row_scheme) list \<Rightarrow> ('a ev_row_scheme) list" where
  "pruneEventVersions pubkey dTag maxVersions t =
     (let count = count_where (at_addr pubkey dTag) t in
      if count \<le> maxVersions then t
      else
        let ids = map r_id (take (count - maxVersions) (order_by r_created_at (filter (at_addr pubkey dTag) t)))
        in delete_where (\<lambda>r. r_id r \<in> set ids) t)"

definition oldest_at :: "string \<Rightarrow> ('a ev_row_scheme) list \<Rightarrow> string \<Rightarrow> int" where
  "oldest_at pubkey t dTag = Min (r_created_at ` set (filter (at_addr pubkey dTag) t))"

fun drop_dtags :: "string \<Rightarrow> string list \<Rightarrow> nat \<Rightarrow> string list \<Rightarrow> ('a ev_row_scheme) list \<Rightarrow> ('a ev_row_scheme) list" where
  "drop_dtags pubkey protected toDelete [] t = t"
| "drop_dtags pubkey protected toDelete (dTag # dTags) t =
     (if toDelete = 0 then t
      else if dTag \<in> set protected then drop_dtags pubkey protected toDelete dTags t
      else drop_dtags pubkey protected (toDelete - 1) dTags (delete_where (at_addr pubkey dTag) t))"

definition pruneDTags :: "string list \<Rightarrow> string \<Rightarrow> nat \<Rightarrow> ('a ev_row_scheme) list \<Rightarrow> ('a ev_row_scheme) list" where
  "pruneDTags protected pubkey maxDTags t =
     (let count = length (dtags_of pubkey t) in
      if count \<le> maxDTags then t
      else drop_dtags pubkey protected (count - maxDTags) (order_by (oldest_at pubkey t) (dtags_of pubkey t)) t)"

section \<open>The clean-up\<close>

definition getAnchorReferencedDTags :: "(string \<Rightarrow> naddr_data option) \<Rightarrow> int \<Rightarrow> string \<Rightarrow> database \<Rightarrow> string list" where
  "getAnchorReferencedDTags decode kind pubkey d =
     (if kind = 61600 \<or> kind = 62600 \<or> kind = 63600 then
        concat (map (\<lambda>a. case extractEventIDFromNaddr decode (ref_of kind a) of
                    Inl _ \<Rightarrow> [] | Inr (_, _, _, dTag) \<Rightarrow> if dTag \<noteq> [] then [dTag] else [])
          (filter (\<lambda>a. r_pubkey a = pubkey) (anchor_events d)))
      else [])"

text \<open>An error of the checker skips the author.\<close>

definition cleanupInvalidPubkeys ::
  "(string \<Rightarrow> string list) \<Rightarrow> (string \<Rightarrow> bool option) \<Rightarrow> ('a ev_row_scheme) list \<Rightarrow> ('a ev_row_scheme) list" where
  "cleanupInvalidPubkeys protected addressChecker t =
     foldl (\<lambda>t pubkey.
         if protected pubkey \<noteq> [] then delete_where (\<lambda>r. r_pubkey r = pubkey \<and> r_d_tag r \<notin> set (protected pubkey)) t
         else delete_where (\<lambda>r. r_pubkey r = pubkey) t)
       t (filter (\<lambda>pubkey. addressChecker pubkey = Some False) (remdups (map r_pubkey t)))"

definition enforceVersionLimits :: "nat \<Rightarrow> ('a ev_row_scheme) list \<Rightarrow> ('a ev_row_scheme) list" where
  "enforceVersionLimits maxVersions t =
     foldl (\<lambda>t (pubkey, dTag). pruneEventVersions pubkey dTag maxVersions t) t
       (filter (\<lambda>(pubkey, dTag). count_where (at_addr pubkey dTag) t > maxVersions)
         (remdups (map (\<lambda>r. (r_pubkey r, r_d_tag r)) t)))"

definition enforceDTagLimits :: "(string \<Rightarrow> string list) \<Rightarrow> nat \<Rightarrow> ('a ev_row_scheme) list \<Rightarrow> ('a ev_row_scheme) list" where
  "enforceDTagLimits protected maxDTags t =
     foldl (\<lambda>t pubkey. pruneDTags (protected pubkey) pubkey maxDTags t) t
       (filter (\<lambda>pubkey. length (dtags_of pubkey t) > maxDTags) (remdups (map r_pubkey t)))"

definition clean_table ::
  "(string \<Rightarrow> string list) \<Rightarrow> (string \<Rightarrow> bool option) option \<Rightarrow> ('a ev_row_scheme) list \<Rightarrow> ('a ev_row_scheme) list" where
  "clean_table protected addressChecker t =
     enforceDTagLimits protected 5 (enforceVersionLimits 10
       (case addressChecker of None \<Rightarrow> t | Some c \<Rightarrow> cleanupInvalidPubkeys protected c t))"

definition RunEventCleanup ::
  "(string \<Rightarrow> naddr_data option) \<Rightarrow> (string \<Rightarrow> bool option) option \<Rightarrow> database \<Rightarrow> database" where
  "RunEventCleanup decode addressChecker d =
     (let protected = (\<lambda>kind pubkey. getAnchorReferencedDTags decode kind pubkey d) in
      d\<lparr>name_events := clean_table (protected 61600) addressChecker (name_events d),
        connection_events := clean_table (protected 62600) addressChecker (connection_events d),
        metadata_events := clean_table (protected 63600) addressChecker (metadata_events d)\<rparr>)"

definition runStartupCleanup :: "'k btc_lib \<Rightarrow> string \<Rightarrow> (string \<Rightarrow> naddr_data option) \<Rightarrow> database \<Rightarrow> database" where
  "runStartupCleanup lib network decode d =
     RunEventCleanup decode
       (Some (\<lambda>pubkey. case relay_derive lib network pubkey of
                None \<Rightarrow> None | Some addresses \<Rightarrow> Some (HasValidTransactionForAddresses addresses d))) d"

section \<open>Every step is a selection\<close>

definition selects :: "'r list \<Rightarrow> 'r list \<Rightarrow> bool" where
  "selects t u \<longleftrightarrow> (\<exists>P. u = filter P t)"

lemma selects_refl [intro, simp]: "selects t t"
  unfolding selects_def by (rule exI[of _ "\<lambda>_. True"]) simp

lemma selects_trans: "selects t u \<Longrightarrow> selects u v \<Longrightarrow> selects t v"
  unfolding selects_def by (metis filter_filter)

lemma selects_delete [intro, simp]: "selects t (delete_where P t)"
  by (auto simp: selects_def delete_where_def)

lemma selects_set: "selects t u \<Longrightarrow> set u \<subseteq> set t"
  by (auto simp: selects_def)

lemma selects_count: "selects t u \<Longrightarrow> count_where Q u \<le> count_where Q t"
proof -
  assume "selects t u"
  then obtain P where u: "u = filter P t" by (auto simp: selects_def)
  have "filter Q u = filter P (filter Q t)" by (simp add: u conj_commute)
  then show ?thesis unfolding count_where_def by (metis length_filter_le)
qed

lemma selects_distinct: "selects t u \<Longrightarrow> distinct (map r_id t) \<Longrightarrow> distinct (map r_id u)"
  by (auto simp: selects_def distinct_map_filter)

lemma dtags_length: "length (dtags_of p t) = card (r_d_tag ` {r \<in> set t. r_pubkey r = p})"
  by (simp add: dtags_of_def length_remdups_card_conv)

lemma selects_dtags: "selects t u \<Longrightarrow> length (dtags_of p u) \<le> length (dtags_of p t)"
  unfolding dtags_length by (intro card_mono image_mono) (auto dest: selects_set)

lemma selects_fold:
  "(\<And>t x. selects t (f t x)) \<Longrightarrow> selects t (foldl f t xs)"
  by (induction xs arbitrary: t) (auto intro: selects_trans)

lemma selects_versions: "selects t (pruneEventVersions p d m t)"
  by (simp add: pruneEventVersions_def Let_def)

lemma selects_drop: "selects t (drop_dtags p prot n ds t)"
proof (induction p prot n ds t rule: drop_dtags.induct)
  case (2 p prot n d ds t)
  then show ?case using selects_trans[OF selects_delete] by auto
qed simp

lemma selects_prune: "selects t (pruneDTags prot p m t)"
  by (simp add: pruneDTags_def Let_def selects_drop)

lemma selects_limits:
  "selects t (cleanupInvalidPubkeys prot c t)" "selects t (enforceVersionLimits m t)" "selects t (enforceDTagLimits prot m t)"
  unfolding cleanupInvalidPubkeys_def enforceVersionLimits_def enforceDTagLimits_def
  by (rule selects_fold; auto simp: selects_versions selects_prune)+


section \<open>Versions\<close>

lemma at_addr_eq: "at_addr p d r \<Longrightarrow> at_addr p' d' r \<longleftrightarrow> p' = p \<and> d' = d"
  by (auto simp: at_addr_def)

lemma pruned_ids:
  assumes "distinct (map r_id t)" "ids = map r_id (take n (order_by k (filter (at_addr p d) t)))"
    "r \<in> set t" "r_id r \<in> set ids"
  shows "at_addr p d r"
proof -
  obtain s where s: "s \<in> set (take n (order_by k (filter (at_addr p d) t)))" "r_id s = r_id r"
    using assms(2,4) by auto
  then have "s \<in> set t" "at_addr p d s" using in_set_takeD[OF s(1)] by auto
  then have "s = r" using assms(1,3) s(2) by (simp add: distinct_map inj_on_def)
  then show ?thesis using \<open>at_addr p d s\<close> by simp
qed

lemma prune_other:
  assumes "distinct (map r_id t)" "r \<in> set t" "\<not> at_addr p d r \<or> count_where (at_addr p d) t \<le> m"
  shows "r \<in> set (pruneEventVersions p d m t)"
proof (cases "count_where (at_addr p d) t \<le> m")
  case False
  then have "r_id r \<notin> set (map r_id (take (count_where (at_addr p d) t - m) (order_by r_created_at (filter (at_addr p d) t))))"
    using pruned_ids[OF assms(1) refl assms(2)] assms(3) by blast
  then show ?thesis using assms(2) False by (simp add: pruneEventVersions_def Let_def delete_where_def)
qed (use assms(2) in \<open>simp add: pruneEventVersions_def\<close>)

lemma count_remove:
  assumes "distinct (map f xs)" "ys = take n xs" "n \<le> length xs"
  shows "length (filter (\<lambda>x. f x \<notin> f ` set ys) xs) = length xs - n"
proof -
  have "set (map f (take n xs)) \<inter> set (map f (drop n xs)) = {}"
    using assms(1) by (metis append_take_drop_id distinct_append map_append)
  then have "filter (\<lambda>x. f x \<notin> f ` set (take n xs)) (drop n xs) = drop n xs"
    by (intro filter_True) (auto simp: disjoint_iff)
  moreover have "filter (\<lambda>x. f x \<notin> f ` set (take n xs)) (take n xs) = []" by (auto simp: filter_empty_conv)
  ultimately have "filter (\<lambda>x. f x \<notin> f ` set ys) (take n xs @ drop n xs) = drop n xs"
    unfolding assms(2) filter_append by simp
  then show ?thesis by simp
qed

lemma prune_bound:
  assumes "distinct (map r_id t)"
  shows "count_where (at_addr p d) (pruneEventVersions p d m t) \<le> m"
proof (cases "count_where (at_addr p d) t \<le> m")
  case False
  let ?rows = "filter (at_addr p d) t" and ?n = "count_where (at_addr p d) t - m"
  let ?o = "order_by r_created_at ?rows"
  have d: "distinct (map r_id ?o)" using assms by (simp add: order_by_distinct_map distinct_map_filter)
  have len: "length ?o = count_where (at_addr p d) t" by (simp add: count_where_def)
  have "mset (filter (\<lambda>r. r_id r \<notin> r_id ` set (take ?n ?o)) ?o) = mset (filter (\<lambda>r. r_id r \<notin> r_id ` set (take ?n ?o)) ?rows)"
    by (metis mset_filter order_by_mset)
  then have "length (filter (\<lambda>r. r_id r \<notin> r_id ` set (take ?n ?o)) ?rows) = count_where (at_addr p d) t - ?n"
    using count_remove[OF d refl, of ?n] len by (metis diff_le_self size_mset)
  moreover have "filter (at_addr p d) (pruneEventVersions p d m t) = filter (\<lambda>r. r_id r \<notin> r_id ` set (take ?n ?o)) ?rows"
    using False by (simp add: pruneEventVersions_def Let_def delete_where_def conj_commute)
  ultimately show ?thesis using False by (simp add: count_where_def)
qed (simp add: pruneEventVersions_def)

text \<open>A fold of selections keeps what every step keeps, and a bound that one step establishes.\<close>

lemma fold_bound:
  assumes "x \<in> set xs" "\<And>t y. selects t (f t y)" "\<And>t. distinct (map r_id t) \<Longrightarrow> B (f t x)" "\<And>t u. selects t u \<Longrightarrow> B t \<Longrightarrow> B u"
    "distinct (map r_id t)"
  shows "B (foldl f t xs)"
  using assms(1,5)
proof (induction xs arbitrary: t)
  case (Cons y ys)
  show ?case
  proof (cases "x \<in> set ys")
    case True
    then show ?thesis using Cons.IH[OF True selects_distinct[OF assms(2) Cons.prems(2)]] by simp
  next
    case False
    then have "B (f t y)" using Cons.prems assms(3) by auto
    then show ?thesis using assms(4)[OF selects_fold[OF assms(2)]] by simp
  qed
qed simp

lemma version_bound:
  assumes "distinct (map r_id t)"
  shows "count_where (at_addr p d) (enforceVersionLimits m t) \<le> m"
proof (cases "count_where (at_addr p d) t \<le> m")
  case True
  then show ?thesis using selects_count[OF selects_limits(2)] order_trans by blast
next
  case False
  then have "filter (at_addr p d) t \<noteq> []" by (auto simp: count_where_def)
  then obtain r where "r \<in> set t" "at_addr p d r" by (auto simp: filter_empty_conv)
  then have "(p, d) \<in> set (filter (\<lambda>(pubkey, dTag). count_where (at_addr pubkey dTag) t > m)
      (remdups (map (\<lambda>r. (r_pubkey r, r_d_tag r)) t)))"
    using False by (force simp: at_addr_def)
  then show ?thesis
    unfolding enforceVersionLimits_def
    by (rule fold_bound[where x = "(p, d)"]) (use assms in \<open>auto simp: selects_versions prune_bound intro: order_trans[OF selects_count]\<close>)
qed

lemma version_keeps:
  assumes "distinct (map r_id t)" "r \<in> set t" "count_where (at_addr (r_pubkey r) (r_d_tag r)) t \<le> m"
  shows "r \<in> set (enforceVersionLimits m t)"
proof -
  have "r \<in> set (foldl (\<lambda>t (p, d). pruneEventVersions p d m t) u gs)"
    if "distinct (map r_id u)" "r \<in> set u" "count_where (at_addr (r_pubkey r) (r_d_tag r)) u \<le> m" for u gs
    using that
  proof (induction gs arbitrary: u)
    case (Cons g gs)
    obtain p d where g: "g = (p, d)" by fastforce
    have "\<not> at_addr p d r \<or> count_where (at_addr p d) u \<le> m"
    proof (cases "at_addr p d r")
      case True
      then have "p = r_pubkey r" "d = r_d_tag r" by (simp_all add: at_addr_def)
      then show ?thesis using Cons.prems(3) by simp
    qed simp
    then have "r \<in> set (pruneEventVersions p d m u)" using prune_other Cons.prems(1,2) by blast
    then have "r \<in> set (foldl (\<lambda>t (p, d). pruneEventVersions p d m t) (pruneEventVersions p d m u) gs)"
      by (rule Cons.IH[OF selects_distinct[OF selects_versions Cons.prems(1)] _
        order_trans[OF selects_count[OF selects_versions] Cons.prems(3)]])
    then show ?case by (simp add: g)
  qed simp
  then show ?thesis using assms unfolding enforceVersionLimits_def by blast
qed

section \<open>D tags\<close>

lemma dtags_set: "set (dtags_of p t) = r_d_tag ` {r \<in> set t. r_pubkey r = p}"
  by (auto simp: dtags_of_def)

lemma dtags_delete: "dtags_of p (delete_where (at_addr p d) t) = filter (\<lambda>x. x \<noteq> d) (dtags_of p t)"
proof -
  have "map r_d_tag (filter (\<lambda>r. r_pubkey r = p) (delete_where (at_addr p d) t))
      = filter (\<lambda>x. x \<noteq> d) (map r_d_tag (filter (\<lambda>r. r_pubkey r = p) t))"
    by (induction t) (auto simp: delete_where_def at_addr_def)
  then show ?thesis by (simp add: dtags_of_def remdups_filter)
qed

lemma length_filter_other: "distinct xs \<Longrightarrow> x \<in> set xs \<Longrightarrow> length (filter (\<lambda>y. y \<noteq> x) xs) = length xs - 1"
proof (induction xs)
  case (Cons y ys)
  show ?case
  proof (cases "y = x")
    case True
    with Cons.prems have "filter (\<lambda>y. y \<noteq> x) ys = ys" by (auto simp: filter_id_conv)
    then show ?thesis using True by simp
  next
    case False
    then have "x \<in> set ys" using Cons.prems by simp
    then show ?thesis using Cons False length_pos_if_in_set[of x ys] by simp
  qed
qed simp

lemma drop_bound:
  assumes "distinct ds" "set ds \<subseteq> set (dtags_of p t)" "length (dtags_of p t) = m + n"
    "set (dtags_of p t) - set ds \<subseteq> set prot"
  shows "length (dtags_of p (drop_dtags p prot n ds t)) \<le> max m (card (set prot))"
  using assms
proof (induction p prot n ds t rule: drop_dtags.induct)
  case (1 p prot n t)
  then have "set (dtags_of p t) \<subseteq> set prot" by simp
  then have "card (set (dtags_of p t)) \<le> card (set prot)" by (intro card_mono) auto
  moreover have "card (set (dtags_of p t)) = length (dtags_of p t)"
    unfolding dtags_of_def by (rule distinct_card[OF distinct_remdups])
  ultimately show ?case by simp
next
  case (2 p prot n d ds t)
  let ?u = "delete_where (at_addr p d) t"
  show ?case
  proof (cases "n = 0")
    case True
    then show ?thesis using 2(5) by simp
  next
    case n: False
    show ?thesis
    proof (cases "d \<in> set prot")
      case True
      then show ?thesis using 2(1)[OF n True] 2(3-6) n by auto
    next
      case False
      have s: "set (dtags_of p ?u) = set (dtags_of p t) - {d}" by (auto simp: dtags_delete)
      have "distinct (dtags_of p t)" "d \<in> set (dtags_of p t)" using 2(4) by (auto simp: dtags_of_def)
      then have "length (dtags_of p ?u) = length (dtags_of p t) - 1"
        unfolding dtags_delete by (rule length_filter_other)
      then have "length (dtags_of p ?u) = m + (n - 1)" using 2(5) n by simp
      moreover have "set ds \<subseteq> set (dtags_of p ?u)" "set (dtags_of p ?u) - set ds \<subseteq> set prot"
        using 2(3,4,6) by (auto simp: s)
      ultimately show ?thesis using 2(2)[OF n False] 2(3) n False by simp
    qed
  qed
qed

lemma prune_dtags_bound: "length (dtags_of p (pruneDTags prot p m t)) \<le> max m (card (set prot))"
proof (cases "length (dtags_of p t) \<le> m")
  case False
  let ?ds = "order_by (oldest_at p t) (dtags_of p t)"
  have "distinct ?ds" using order_by_distinct_map[of "\<lambda>x::string. x"] by (simp add: dtags_of_def)
  moreover have "length (dtags_of p t) = m + (length (dtags_of p t) - m)" using False by simp
  ultimately show ?thesis
    using drop_bound[of ?ds p t m _ prot] False by (simp add: pruneDTags_def Let_def)
qed (simp add: pruneDTags_def)

lemma dtag_bound:
  assumes "distinct (map r_id t)"
  shows "length (dtags_of p (enforceDTagLimits prot m t)) \<le> max m (card (set (prot p)))"
proof (cases "length (dtags_of p t) \<le> m")
  case True
  then show ?thesis using selects_dtags[OF selects_limits(3)] order_trans max.coboundedI1 by blast
next
  case False
  then have "dtags_of p t \<noteq> []" by auto
  then obtain r where "r \<in> set t" "r_pubkey r = p" using dtags_set[of p t] by (cases "dtags_of p t") auto
  then have "p \<in> set (filter (\<lambda>pubkey. length (dtags_of pubkey t) > m) (remdups (map r_pubkey t)))"
    using False by auto
  then show ?thesis
    unfolding enforceDTagLimits_def
    by (rule fold_bound) (use assms in \<open>auto simp: selects_prune prune_dtags_bound intro: order_trans[OF selects_dtags]\<close>)
qed

lemma drop_keeps: "r \<in> set t \<Longrightarrow> r_pubkey r \<noteq> p \<or> r_d_tag r \<in> set prot \<Longrightarrow> r \<in> set (drop_dtags p prot n ds t)"
  by (induction p prot n ds t rule: drop_dtags.induct) (auto simp: delete_where_def at_addr_def)

lemma dtag_keeps: "r \<in> set t \<Longrightarrow> r_d_tag r \<in> set (prot (r_pubkey r)) \<Longrightarrow> r \<in> set (enforceDTagLimits prot m t)"
proof -
  have step: "r \<in> set (pruneDTags (prot p) p m u)" if "r \<in> set u" "r_d_tag r \<in> set (prot (r_pubkey r))" for u p
    using that drop_keeps[of r u p "prot p"] by (cases "r_pubkey r = p") (auto simp: pruneDTags_def Let_def)
  have "r \<in> set (foldl (\<lambda>t pubkey. pruneDTags (prot pubkey) pubkey m t) u ps)"
    if "r \<in> set u" "r_d_tag r \<in> set (prot (r_pubkey r))" for u ps
    using that step by (induction ps arbitrary: u) auto
  then show "r \<in> set t \<Longrightarrow> r_d_tag r \<in> set (prot (r_pubkey r)) \<Longrightarrow> ?thesis"
    unfolding enforceDTagLimits_def by blast
qed

section \<open>Authors\<close>

lemma author_step:
  "(if protected pubkey \<noteq> [] then delete_where (\<lambda>r. r_pubkey r = pubkey \<and> r_d_tag r \<notin> set (protected pubkey)) t
     else delete_where (\<lambda>r. r_pubkey r = pubkey) t)
   = filter (\<lambda>r. r_pubkey r \<noteq> pubkey \<or> r_d_tag r \<in> set (protected (r_pubkey r))) t"
  by (auto simp: delete_where_def intro!: filter_cong)

lemma cleanup_is_filter:
  "cleanupInvalidPubkeys protected c t =
     filter (\<lambda>r. c (r_pubkey r) \<noteq> Some False \<or> r_d_tag r \<in> set (protected (r_pubkey r))) t"
proof -
  have "foldl (\<lambda>t pubkey. filter (\<lambda>r. r_pubkey r \<noteq> pubkey \<or> r_d_tag r \<in> set (protected (r_pubkey r))) t) u ps
      = filter (\<lambda>r. r_pubkey r \<notin> set ps \<or> r_d_tag r \<in> set (protected (r_pubkey r))) u" for u :: "('a ev_row_scheme) list" and ps
    by (induction ps arbitrary: u) (auto intro!: filter_cong)
  then have "cleanupInvalidPubkeys protected c t
      = filter (\<lambda>r. r_pubkey r \<notin> set (filter (\<lambda>pubkey. c pubkey = Some False) (remdups (map r_pubkey t)))
          \<or> r_d_tag r \<in> set (protected (r_pubkey r))) t"
    unfolding cleanupInvalidPubkeys_def author_step by blast
  also have "\<dots> = filter (\<lambda>r. c (r_pubkey r) \<noteq> Some False \<or> r_d_tag r \<in> set (protected (r_pubkey r))) t"
    by (rule filter_cong) auto
  finally show ?thesis .
qed

section \<open>The clean-up of a table\<close>

lemma clean_selects: "selects t (clean_table protected c t)"
  unfolding clean_table_def
  by (cases c) (simp_all add: selects_trans[OF selects_trans[OF selects_limits(1) selects_limits(2)] selects_limits(3)]
    selects_trans[OF selects_limits(2) selects_limits(3)])

lemma clean_bounds:
  fixes protected :: "string \<Rightarrow> string list"
  assumes "distinct (map r_id t)"
  shows "count_where (at_addr p d) (clean_table protected c t) \<le> 10"
    "length (dtags_of p (clean_table protected c t)) \<le> max 5 (card (set (protected p)))"
proof -
  let ?u = "case c of None \<Rightarrow> t | Some c \<Rightarrow> cleanupInvalidPubkeys protected c t"
  have u: "distinct (map r_id ?u)" using assms selects_distinct[OF selects_limits(1)] by (cases c) auto
  show "count_where (at_addr p d) (clean_table protected c t) \<le> 10"
    unfolding clean_table_def by (rule order_trans[OF selects_count[OF selects_limits(3)] version_bound[OF u]])
  show "length (dtags_of p (clean_table protected c t)) \<le> max 5 (card (set (protected p)))"
    unfolding clean_table_def by (rule dtag_bound[OF selects_distinct[OF selects_limits(2) u]])
qed

lemma clean_keeps:
  assumes "distinct (map r_id t)" "r \<in> set t" "count_where (at_addr (r_pubkey r) (r_d_tag r)) t \<le> 10"
    "r_d_tag r \<in> set (protected (r_pubkey r))"
  shows "r \<in> set (clean_table protected c t)"
proof -
  let ?u = "case c of None \<Rightarrow> t | Some c \<Rightarrow> cleanupInvalidPubkeys protected c t"
  have "selects t ?u" by (cases c) (auto intro: selects_limits)
  moreover have "r \<in> set ?u" using assms(2,4) by (cases c) (simp_all add: cleanup_is_filter)
  ultimately have "r \<in> set (enforceVersionLimits 10 ?u)"
    using version_keeps[OF selects_distinct[OF _ assms(1)]] selects_count order_trans assms(3) by blast
  then show ?thesis unfolding clean_table_def by (rule dtag_keeps) (rule assms(4))
qed

lemma clean_author:
  "r \<in> set (clean_table protected (Some c) t) \<Longrightarrow> c (r_pubkey r) \<noteq> Some False \<or> r_d_tag r \<in> set (protected (r_pubkey r))"
  unfolding clean_table_def option.case cleanup_is_filter
  using selects_set[OF selects_limits(2)] selects_set[OF selects_limits(3)] by fastforce

lemma unique_ids: "unique_rows id_clash t \<Longrightarrow> distinct (map r_id t)"
  unfolding unique_rows_def by (induction t) (auto simp: id_clash_def)

lemma keys_distinct:
  assumes "db_keys d"
  shows "distinct (map r_id (name_events d))" "distinct (map r_id (connection_events d))" "distinct (map r_id (metadata_events d))"
  using assms by (simp_all add: db_keys_def unique_ids)

section \<open>Properties\<close>


definition old_event :: "string \<Rightarrow> string \<Rightarrow> string \<Rightarrow> ev_row" where
  "old_event i p d = \<lparr> r_id = i, r_pubkey = p, r_created_at = 1, r_updated_at = 1, r_d_tag = d, r_content = [], r_sig = [] \<rparr>"

definition kept_db :: database where
  "kept_db = empty_db\<lparr>
     name_events := [ev_row.extend (old_event ''n'' ''bob'' ''d'') (name_row.fields [] [])],
     connection_events := map (\<lambda>(i, d). ev_row.extend (old_event i ''bob'' d) (tagged_row.fields []))
       [(''1'', ''a''), (''2'', ''b''), (''3'', ''c''), (''4'', ''d''), (''5'', ''e''), (''6'', ''f'')],
     anchor_events := [ev_row.extend (old_event ''x'' ''bob'' ''1.0'') (anchor_row.fields [] ''a'' [] ''t'' 940000 0 1 [])]\<rparr>"

definition refers :: "string \<Rightarrow> naddr_data option" where
  "refers s = Some \<lparr> na_kind = 62600, na_pubkey = ''bob'', na_identifier = s \<rparr>"

lemma kept_db_keys: "db_keys kept_db"
  by code_simp


text \<open>
  C26. After a clean-up an address has at most ten versions and an author at most five d tags of a
  kind, or as many as the author's anchors protect when these are more.
\<close>

theorem cleanup_bounds:
  assumes "db_keys d"
  shows "count_where (at_addr p x) (name_events (RunEventCleanup decode c d)) \<le> 10
    \<and> count_where (at_addr p x) (connection_events (RunEventCleanup decode c d)) \<le> 10
    \<and> count_where (at_addr p x) (metadata_events (RunEventCleanup decode c d)) \<le> 10
    \<and> length (dtags_of p (name_events (RunEventCleanup decode c d)))
        \<le> max 5 (card (set (getAnchorReferencedDTags decode 61600 p d)))
    \<and> length (dtags_of p (connection_events (RunEventCleanup decode c d)))
        \<le> max 5 (card (set (getAnchorReferencedDTags decode 62600 p d)))
    \<and> length (dtags_of p (metadata_events (RunEventCleanup decode c d)))
        \<le> max 5 (card (set (getAnchorReferencedDTags decode 63600 p d)))"
proof -
  note k = keys_distinct[OF assms]
  let ?prot = "\<lambda>kind pubkey. getAnchorReferencedDTags decode kind pubkey d"
  show ?thesis
    using clean_bounds(1)[OF k(1), of p x "?prot 61600" c] clean_bounds(2)[OF k(1), of p "?prot 61600" c]
      clean_bounds(1)[OF k(2), of p x "?prot 62600" c] clean_bounds(2)[OF k(2), of p "?prot 62600" c]
      clean_bounds(1)[OF k(3), of p x "?prot 63600" c] clean_bounds(2)[OF k(3), of p "?prot 63600" c]
    by (simp add: RunEventCleanup_def Let_def)
qed

theorem cleanup_bounds_witness:
  "length (dtags_of ''bob'' (connection_events kept_db)) = 6
   \<and> length (dtags_of ''bob'' (connection_events (RunEventCleanup refers None kept_db))) \<le> 5"
proof -
  have "card (set (getAnchorReferencedDTags refers 62600 ''bob'' kept_db)) = 1"
    "length (dtags_of ''bob'' (connection_events kept_db)) = 6"
    by code_simp+
  then show ?thesis using cleanup_bounds[OF kept_db_keys, of "''bob''" _ refers None] by simp
qed

text \<open>
  After the clean-up at start-up every remaining name event has an author with a transaction of
  one of its addresses, an author whose key has no addresses, or a d tag that an anchor of the author
  refers to.
\<close>

lemma startup_cleanup_authors:
  assumes "r \<in> set (name_events (runStartupCleanup lib network decode d))"
  shows "relay_derive lib network (r_pubkey r) = None
    \<or> HasValidTransactionForAddresses (the (relay_derive lib network (r_pubkey r))) d
    \<or> r_d_tag r \<in> set (getAnchorReferencedDTags decode 61600 (r_pubkey r) d)"
  using clean_author[of r] assms
  by (fastforce simp: runStartupCleanup_def RunEventCleanup_def Let_def split: option.splits)

definition payer_db :: database where
  "payer_db = empty_db\<lparr>
     name_events := [ev_row.extend (old_event ''n'' key_hex ''d'') (name_row.fields [] []),
       ev_row.extend (old_event ''m'' (''1'' @ tl key_hex) ''d'') (name_row.fields [] [])],
     bitcoin_transactions := [\<lparr> t_id = ''t'', t_bitcoin_block = 940000, t_dnn_block = 0, t_position = 1,
       t_address = ''bc1qme'', t_fee_rate = 1, t_tie_position = 0, t_tie_digit = 0, t_discovered_at = 0,
       t_has_anchor = False, t_anchor_id = None, t_checked_at = None \<rparr>]\<rparr>"

lemma startup_cleanup_authors_example:
  "hd (name_events payer_db) \<in> set (name_events (runStartupCleanup plain_lib ''mainnet'' refers payer_db))
    \<and> HasValidTransactionForAddresses (the (relay_derive plain_lib ''mainnet'' key_hex)) payer_db"
proof -
  have m: "hd (name_events payer_db) \<in> set (name_events (runStartupCleanup plain_lib ''mainnet'' refers payer_db))"
    by code_simp
  have f: "r_pubkey (hd (name_events payer_db)) = key_hex" "relay_derive plain_lib ''mainnet'' key_hex \<noteq> None"
    "getAnchorReferencedDTags refers 61600 key_hex payer_db = []"
    by code_simp+
  show ?thesis using startup_cleanup_authors[OF m, unfolded f(1)] m f(2,3) by simp
qed

end
