(* ===== verification/Details.thy ===== *)
theory Details
  imports LocalStore Lookup Address Sync
begin

text \<open>
  The routes of \<^verbatim>\<open>src/internal/node/node.go\<close> that show single events and fetch what is missing or newer
  from other relays: they answer GET requests, and they store what they fetch.  \<open>details_env\<close> adds to
  \<open>relay_env\<close> the relays, what each answers to a query (\<open>None\<close>: no connection or an error), the order
  in which the answers to a parallel query arrive before its timeout, \<^verbatim>\<open>nip19.EncodeEntity\<close> and the
  order in which a Go map is iterated.  A panic in a handler is caught by the HTTP server: the request
  is \<open>Aborted\<close> and the database stays as it was then.
\<close>

record details_env = relay_env +
  de_RelayURLs :: "string list"
  de_query :: "string \<Rightarrow> nostr_filter \<Rightarrow> event list option"
  de_arrivals :: "nostr_filter \<Rightarrow> string list"
  de_EncodeEntity :: "string \<Rightarrow> int \<Rightarrow> string \<Rightarrow> string option"
  de_iter :: "event list \<Rightarrow> event list"

datatype details_error = BadId | NoSuchEvent | Aborted | NoRelays | LookupError db_error

section \<open>Fetching one event\<close>

definition id_filter :: "string \<Rightarrow> int list \<Rightarrow> nostr_filter" where
  "id_filter eventID kinds = \<lparr> f_IDs = [eventID], f_Kinds = kinds, f_Authors = [], f_Tags = [],
     f_Since = None, f_Until = None, f_Limit = 1 \<rparr>"

definition addr_filter :: "string \<Rightarrow> int \<Rightarrow> string \<Rightarrow> nostr_filter" where
  "addr_filter pubkey kind dTag = \<lparr> f_IDs = [], f_Kinds = [kind], f_Authors = [pubkey], f_Tags = [(''d'', [dTag])],
     f_Since = None, f_Until = None, f_Limit = 1 \<rparr>"

text \<open>The first event of an answer.\<close>

definition first_of :: "event list \<Rightarrow> event option" where
  "first_of evs = (case evs of [] \<Rightarrow> None | e # _ \<Rightarrow> Some e)"

definition answer_of :: "('e details_env_scheme) \<Rightarrow> nostr_filter \<Rightarrow> string \<Rightarrow> event option" where
  "answer_of env f relay = Option.bind (de_query env relay f) first_of"

text \<open>The events that arrive from the configured relays, in their order.\<close>

definition arrivals :: "('e details_env_scheme) \<Rightarrow> nostr_filter \<Rightarrow> event list" where
  "arrivals env f = List.map_filter (answer_of env f) (filter (\<lambda>r. r \<in> set (de_RelayURLs env)) (de_arrivals env f))"

text \<open>The log lines slice the id to sixteen bytes when the event is not stored.\<close>

definition fetchEventFromDBOrRelays ::
  "('e details_env_scheme) \<Rightarrow> string \<Rightarrow> int \<Rightarrow> database \<Rightarrow> (details_error, event option) res" where
  "fetchEventFromDBOrRelays env eventID kind d =
     (case QueryEvents (id_filter eventID [kind]) d of
        e # _ \<Rightarrow> Ok (Some e)
      | [] \<Rightarrow>
          if length eventID < 16 then Err Aborted
          else Ok (case arrivals env (id_filter eventID [kind]) of [] \<Rightarrow> None | e # _ \<Rightarrow> Some e))"

text \<open>A later answer wins when it is newer, or another event of the same time.\<close>

definition supersedes :: "event option \<Rightarrow> event \<Rightarrow> bool" where
  "supersedes best e \<longleftrightarrow> (case best of None \<Rightarrow> True
     | Some n \<Rightarrow> ev_created_at e > ev_created_at n \<or> ev_created_at e = ev_created_at n \<and> ev_id e \<noteq> ev_id n)"

definition sync_event :: "int \<Rightarrow> event \<Rightarrow> database \<Rightarrow> database" where
  "sync_event kind ev d =
     (if kind = 61600 then StoreNameEvent ev d
      else if kind = 62600 then StoreConnectionEvent ev d
      else if kind = 63600 then StoreMetadataEvent ev d
      else d)"

text \<open>
  The stored event and the answers, newest first; a newer or different answer supersedes the stored
  event.  The log lines slice the id of every event that is taken.
\<close>

definition take_arrival :: "(details_error, event option) res \<Rightarrow> event \<Rightarrow> (details_error, event option) res" where
  "take_arrival r e = bind_res r (\<lambda>best.
     if \<not> supersedes best e then Ok best else if length (ev_id e) < 16 then Err Aborted else Ok (Some e))"

definition node_fetchEventByDTag ::
  "('e details_env_scheme) \<Rightarrow> string \<Rightarrow> string \<Rightarrow> int \<Rightarrow> database \<Rightarrow> (details_error, event option) res \<times> database" where
  "node_fetchEventByDTag env dTag pubkey kind d =
     (let f = addr_filter pubkey kind dTag;
          localEvent = first_of (QueryEvents f d)
      in if (case localEvent of None \<Rightarrow> False | Some l \<Rightarrow> length (ev_id l) < 16) then (Err Aborted, d)
         else case foldl take_arrival (Ok localEvent) (arrivals env f) of
           Inl e \<Rightarrow> (Err e, d)
         | Inr None \<Rightarrow> (Ok None, d)
         | Inr (Some n) \<Rightarrow>
             (Ok (Some n), if supersedes localEvent n then sync_event kind n d else d))"

section \<open>The details of an anchor\<close>

definition fetchEventFromRef ::
  "('e details_env_scheme) \<Rightarrow> string \<Rightarrow> int \<Rightarrow> database \<Rightarrow> (details_error, event option) res \<times> database" where
  "fetchEventFromRef env ref expectedKind d =
     (if ref = [] then (Ok None, d)
      else if has_prefix ref ''naddr1'' then
        (case env_nip19 env ref of
           None \<Rightarrow> (Ok None, d)
         | Some p \<Rightarrow> node_fetchEventByDTag env (na_identifier p) (na_pubkey p) (na_kind p) d)
      else (fetchEventFromDBOrRelays env ref expectedKind d, d))"

definition encodeEvent :: "('e details_env_scheme) \<Rightarrow> event \<Rightarrow> string option" where
  "encodeEvent env ev =
     (case tag_vals ''d'' (ev_tags ev) of [] \<Rightarrow> None | t # _ \<Rightarrow> de_EncodeEntity env (ev_pubkey ev) (ev_kind ev) t)"

record event_details =
  ed_anchor :: event
  ed_anchor_encoding :: "string option"
  ed_name :: "event option"
  ed_connection :: "event option"
  ed_metadata :: "event option"
  ed_encodings :: "string option list"

text \<open>The three references in turn; each fetch may store.\<close>

definition details_of :: "('e details_env_scheme) \<Rightarrow> event \<Rightarrow> database \<Rightarrow> (details_error, event_details) res \<times> database" where
  "details_of env anchor d =
     (case fetchEventFromRef env (last_tag ''n'' (ev_tags anchor)) 61600 d of
        (Inl e, d1) \<Rightarrow> (Err e, d1)
      | (Inr nameEvent, d1) \<Rightarrow>
          (case fetchEventFromRef env (last_tag ''c'' (ev_tags anchor)) 62600 d1 of
             (Inl e, d2) \<Rightarrow> (Err e, d2)
           | (Inr connectionEvent, d2) \<Rightarrow>
               (case fetchEventFromRef env (last_tag ''m'' (ev_tags anchor)) 63600 d2 of
                  (Inl e, d3) \<Rightarrow> (Err e, d3)
                | (Inr metadataEvent, d3) \<Rightarrow>
                    (Ok \<lparr> ed_anchor = anchor, ed_anchor_encoding = encodeEvent env anchor, ed_name = nameEvent,
                          ed_connection = connectionEvent, ed_metadata = metadataEvent,
                          ed_encodings = map (\<lambda>e. Option.bind e (encodeEvent env)) [nameEvent, connectionEvent, metadataEvent] \<rparr>, d3))))"

definition handleEventDetails ::
  "('e details_env_scheme) \<Rightarrow> string \<Rightarrow> database \<Rightarrow> (details_error, event_details) res \<times> database" where
  "handleEventDetails env eventID d =
     (if length eventID \<noteq> 64 then (Err BadId, d)
      else case QueryEvents (id_filter eventID [60600]) d of
        [] \<Rightarrow> (Err NoSuchEvent, d)
      | anchor # _ \<Rightarrow> details_of env anchor d)"

text \<open>
  By address.  The relays are asked in turn; a newer event is taken over and, when it is an anchor,
  stored at the position of the stored anchor with the address, which is zero when there is none.
\<close>

definition new_format :: "event \<Rightarrow> bool" where
  "new_format ev \<longleftrightarrow> list_ex (\<lambda>k. has_tag k (ev_tags ev)) [''n'', ''c'', ''m'', ''x'']
     \<and> \<not> list_ex (\<lambda>k. has_tag k (ev_tags ev)) [''names'', ''connection'', ''metadata'', ''transaction'']"

definition newest_step ::
  "('e details_env_scheme) \<Rightarrow> naddr_data \<Rightarrow> (event option \<times> database, event option \<times> database) res \<Rightarrow> string \<Rightarrow>
     (event option \<times> database, event option \<times> database) res" where
  "newest_step env p st relay =
     bind_res st (\<lambda>(best, d).
       case answer_of env (addr_filter (na_pubkey p) (na_kind p) (na_identifier p)) relay of
         None \<Rightarrow> Ok (best, d)
       | Some ev \<Rightarrow>
           if \<not> new_format ev then Ok (best, d)
           else if (case best of None \<Rightarrow> False | Some n \<Rightarrow> \<not> ev_created_at ev > ev_created_at n) then Ok (best, d)
           else if na_kind p = 60600 then
             (let (bitcoinBlock, dnnBlock, position) =
                    (case GetAnchorBlockPosition (na_pubkey p) (na_identifier p) d of Inl _ \<Rightarrow> (0, 0, 0) | Inr q \<Rightarrow> q) in
              case StoreAnchorEventHooked (fetchAndStoreReferencedEvents (env_nip19 env) (env_fetch env)) ev
                     bitcoinBlock dnnBlock position d of
                Inl DPanic \<Rightarrow> Err (Some ev, d)
              | Inl _ \<Rightarrow> Ok (Some ev, d)
              | Inr d' \<Rightarrow> Ok (Some ev, d'))
           else Ok (Some ev, d))"

definition handleEventDetailsByNaddr ::
  "('e details_env_scheme) \<Rightarrow> string \<Rightarrow> database \<Rightarrow> (details_error, event_details \<times> int \<times> int) res \<times> database" where
  "handleEventDetailsByNaddr env naddrStr d =
     (if \<not> has_prefix naddrStr ''naddr1'' then (Err BadId, d)
      else case env_nip19 env naddrStr of
        None \<Rightarrow> (Err BadId, d)
      | Some p \<Rightarrow>
          let localEvent = first_of (QueryEvents (addr_filter (na_pubkey p) (na_kind p) (na_identifier p)) d) in
          case foldl (newest_step env p) (Ok (localEvent, d)) (de_RelayURLs env) of
            Inl (_, d1) \<Rightarrow> (Err Aborted, d1)
          | Inr (None, d1) \<Rightarrow> (Err NoSuchEvent, d1)
          | Inr (Some anchor, d1) \<Rightarrow>
              (case details_of env anchor d1 of
                 (Inl e, d2) \<Rightarrow> (Err e, d2)
               | (Inr details, d2) \<Rightarrow>
                   (Ok (details, case find (\<lambda>r. r_id r = ev_id anchor) (anchor_events d2) of
                          None \<Rightarrow> (0, 0) | Some r \<Rightarrow> (a_dnn_block r, a_position r)), d2)))"

text \<open>Any kind, by id.\<close>

fun try_kinds :: "('e details_env_scheme) \<Rightarrow> string \<Rightarrow> database \<Rightarrow> int list \<Rightarrow> (details_error, event option) res" where
  "try_kinds env eventID d [] = Ok None"
| "try_kinds env eventID d (kind # kinds) =
     bind_res (fetchEventFromDBOrRelays env eventID kind d)
       (\<lambda>found. case found of Some e \<Rightarrow> Ok (Some e) | None \<Rightarrow> try_kinds env eventID d kinds)"

definition handleGetEvent :: "('e details_env_scheme) \<Rightarrow> string \<Rightarrow> database \<Rightarrow> (details_error, event \<times> string option) res" where
  "handleGetEvent env eventID d =
     (if length eventID \<noteq> 64 then Err BadId
      else bind_res (try_kinds env eventID d [60600, 61600, 62600, 63600])
        (\<lambda>found. case found of None \<Rightarrow> Err NoSuchEvent | Some e \<Rightarrow> Ok (e, encodeEvent env e)))"

text \<open>Where an event is known: the local database first, then relay by relay (\<open>None\<close>: an error).\<close>

definition handleCheckEvent ::
  "('e details_env_scheme) \<Rightarrow> string \<Rightarrow> database \<Rightarrow> (details_error, (string \<times> event option option) list) res" where
  "handleCheckEvent env eventID d =
     (if length eventID \<noteq> 64 then Err BadId
      else Ok ((''LOCAL DATABASE'', Some (first_of (QueryEvents (id_filter eventID []) d)))
        # map (\<lambda>url. (url, map_option first_of (de_query env url (id_filter eventID []))))
            (de_RelayURLs env)))"

definition handleRecentEvents :: "string \<Rightarrow> database \<Rightarrow> event list" where
  "handleRecentEvents limitStr d =
     (let limit = (if limitStr = [] then 50 else case scan_int limitStr of None \<Rightarrow> 50 | Some (n, _) \<Rightarrow> min n 200)
      in QueryEvents \<lparr> f_IDs = [], f_Kinds = [61600, 62600, 63600, 60600], f_Authors = [], f_Tags = [],
           f_Since = None, f_Until = None, f_Limit = limit \<rparr> d)"

definition handleDeriveAddress :: "'k btc_lib \<Rightarrow> string \<Rightarrow> (address_error, DerivedAddress list) res" where
  "handleDeriveAddress lib pubkey =
     (if length pubkey \<noteq> 64 then Err BadLength else DeriveAddresses lib (NewAddressDeriver False) pubkey)"

section \<open>Fetching a name from the relays\<close>

text \<open>
  \<^verbatim>\<open>fetchAndSyncFromRelays\<close>: all DNN events of the relays are collected by id (a later answer supersedes
  an earlier one), the names, connections and metadata are stored, and every anchor is completed with
  the first name event of its author that has a connection and a metadata event with the same d tag,
  and stored at the place of its transaction, when that is known.  The only caller, \<^verbatim>\<open>handleResolve\<close>,
  does not reach it.
\<close>

definition events_filter :: nostr_filter where
  "events_filter = \<lparr> f_IDs = [], f_Kinds = [60600, 61600, 62600, 63600], f_Authors = [], f_Tags = [(''t'', [''DNN''])],
     f_Since = None, f_Until = None, f_Limit = 500 \<rparr>"

definition collected :: "('e details_env_scheme) \<Rightarrow> (string \<times> event) list" where
  "collected env = foldl (\<lambda>m url. case de_query env url events_filter of
       None \<Rightarrow> m | Some evs \<Rightarrow> foldl (\<lambda>m e. map_put (ev_id e) e m) m evs) [] (de_RelayURLs env)"

definition with_d_tag :: "string \<Rightarrow> string \<Rightarrow> event list \<Rightarrow> string" where
  "with_d_tag pubkey dTag evs =
     (case find (\<lambda>e. ev_pubkey e = pubkey \<and> dTag \<in> set (tag_vals ''d'' (ev_tags e)) \<and> ev_id e \<noteq> []) evs of
        None \<Rightarrow> [] | Some e \<Rightarrow> ev_id e)"

fun complete_set :: "string \<Rightarrow> event list \<Rightarrow> event list \<Rightarrow> event list \<Rightarrow> (string \<times> string \<times> string) option" where
  "complete_set pubkey [] connections metadata = None"
| "complete_set pubkey (nameEvent # names) connections metadata =
     (let eventDTag = first_tag ''d'' (ev_tags nameEvent);
          tempConnID = with_d_tag pubkey eventDTag connections;
          tempMetaID = with_d_tag pubkey eventDTag metadata
      in if ev_pubkey nameEvent \<noteq> pubkey \<or> eventDTag = [] \<or> tempConnID = [] \<or> tempMetaID = []
         then complete_set pubkey names connections metadata
         else Some (ev_id nameEvent, tempConnID, tempMetaID))"

definition updated_anchor :: "event \<Rightarrow> string \<Rightarrow> string \<Rightarrow> string \<Rightarrow> string \<Rightarrow> string \<Rightarrow> event" where
  "updated_anchor ev dTag n c m x = ev\<lparr>ev_kind := 60600,
     ev_tags := [[''d'', dTag], [''n'', n], [''c'', c], [''m'', m], [''x'', x], [''t'', ''DNN'']]\<rparr>"

definition place_anchor ::
  "('e details_env_scheme) \<Rightarrow> event list \<Rightarrow> event list \<Rightarrow> event list \<Rightarrow> (database, database) res \<Rightarrow> event \<Rightarrow> (database, database) res" where
  "place_anchor env names connections metadata r ev = bind_res r (\<lambda>d.
     let anchorDTag = last_tag ''d'' (ev_tags ev); txID = last_tag ''x'' (ev_tags ev) in
     case complete_set (ev_pubkey ev) names connections metadata of
       None \<Rightarrow> Ok d
     | Some (n, c, m) \<Rightarrow>
         if length n < 8 \<or> length c < 8 \<or> length m < 8 then Err d
         else if txID = [] \<or> anchorDTag = [] then Ok d
         else (case GetBitcoinTransaction txID d of
             None \<Rightarrow> if length txID < 8 then Err d else Ok d
           | Some tx \<Rightarrow>
               (case StoreAnchorEventHooked (fetchAndStoreReferencedEvents (env_nip19 env) (env_fetch env))
                       (updated_anchor ev anchorDTag n c m txID) (t_bitcoin_block tx) (t_dnn_block tx) (t_position tx) d of
                  Inl DPanic \<Rightarrow> Err d | Inl _ \<Rightarrow> Ok d | Inr d' \<Rightarrow> Ok d')))"

definition store_collected :: "('e details_env_scheme) \<Rightarrow> event list \<Rightarrow> database \<Rightarrow> (database, database) res" where
  "store_collected env evs d =
     (let names = filter (\<lambda>e. ev_kind e = 61600) evs;
          connections = filter (\<lambda>e. ev_kind e = 62600) evs;
          metadata = filter (\<lambda>e. ev_kind e = 63600) evs;
          d1 = fold StoreMetadataEvent metadata (fold StoreConnectionEvent connections (fold StoreNameEvent names d))
      in foldl (place_anchor env names connections metadata) (Ok d1) (filter (\<lambda>e. ev_kind e = 60600) evs))"

definition fetchAndSyncFromRelays ::
  "('e details_env_scheme) \<Rightarrow> string \<Rightarrow> int option \<Rightarrow> int option \<Rightarrow> database \<Rightarrow> (details_error, anchor_record) res \<times> database" where
  "fetchAndSyncFromRelays env name blockNum position d =
     (if de_RelayURLs env = [] then (Err NoRelays, d)
      else if collected env = [] then (Err NoSuchEvent, d)
      else case store_collected env (de_iter env (map snd (collected env))) d of
        Inl d2 \<Rightarrow> (Err Aborted, d2)
      | Inr d2 \<Rightarrow> (map_sum LookupError id (GetAnchorByName (env_nip19 env) name blockNum position d2), d2))"

section \<open>Lemmas\<close>

lemma take_arrival_err: "foldl take_arrival (Inl e) es = Inl e"
  by (induction es) (simp_all add: take_arrival_def)

lemma take_arrival_ok: "take_arrival (Inr best) e = Inr r \<Longrightarrow> r = best \<and> \<not> supersedes best e \<or> r = Some e \<and> supersedes best e"
  by (auto simp: take_arrival_def split: if_splits)

lemma take_all:
  "foldl take_arrival (Inr best) es = Inr r \<Longrightarrow>
     (r = best \<or> r \<in> Some ` set es) \<and> (\<forall>e\<in>set es \<union> set_option best. \<exists>n. r = Some n \<and> ev_created_at e \<le> ev_created_at n)"
proof (induction es arbitrary: best)
  case Nil
  then show ?case by auto
next
  case (Cons e es)
  then obtain b where b: "take_arrival (Inr best) e = Inr b" "foldl take_arrival (Inr b) es = Inr r"
    using take_arrival_err by (cases "take_arrival (Inr best) e") auto
  note IH = Cons.IH[OF b(2)]
  from take_arrival_ok[OF b(1)] show ?case
  proof
    assume "b = Some e \<and> supersedes best e"
    then show ?thesis using IH by (fastforce simp: supersedes_def split: option.splits)
  next
    assume "b = best \<and> \<not> supersedes best e"
    then show ?thesis using IH by (fastforce simp: supersedes_def split: option.splits)
  qed
qed

lemma limited_one: "f_Limit f = 1 \<Longrightarrow> length (QueryEvents f d) \<le> 1"
  by (simp add: QueryEvents_def limited_def Let_def)

lemma first_of_simps [simp]: "first_of [] = None" "first_of (e # es) = Some e"
  by (simp_all add: first_of_def)

lemma addr_query: "set (QueryEvents (addr_filter p k t) d) = set_option (first_of (QueryEvents (addr_filter p k t) d))"
  using limited_one[of "addr_filter p k t" d]
  by (cases "QueryEvents (addr_filter p k t) d") (simp_all add: addr_filter_def)


lemma sync_event_keeps [simp]:
  "anchor_events (sync_event k ev d) = anchor_events d" "bitcoin_transactions (sync_event k ev d) = bitcoin_transactions d"
  by (simp_all add: sync_event_def StoreNameEvent_def StoreConnectionEvent_def StoreMetadataEvent_def)

lemma node_fetch_cases:
  "snd (node_fetchEventByDTag env t p k d) = d \<or> (\<exists>ev. snd (node_fetchEventByDTag env t p k d) = sync_event k ev d)"
  by (auto simp: node_fetchEventByDTag_def Let_def split: sum.splits option.splits)

lemma fetchEventFromRef_cases:
  "snd (fetchEventFromRef env ref k d) = d \<or> (\<exists>k' ev. snd (fetchEventFromRef env ref k d) = sync_event k' ev d)"
  using node_fetch_cases by (force simp: fetchEventFromRef_def split: option.splits)

text \<open>What every step of \<open>sync_event\<close> keeps, the details of an anchor keep.\<close>

lemma details_induct:
  assumes "P d" "\<And>k ev d. P d \<Longrightarrow> P (sync_event k ev d)"
  shows "P (snd (details_of env anchor d))"
proof -
  have f: "P e \<Longrightarrow> P (snd (fetchEventFromRef env ref k e))" for ref k e
    using fetchEventFromRef_cases[of env ref k e] assms(2) by auto
  note n = f[OF assms(1), of "last_tag ''n'' (ev_tags anchor)" 61600]
  note c = f[OF n, of "last_tag ''c'' (ev_tags anchor)" 62600]
  note m = f[OF c, of "last_tag ''m'' (ev_tags anchor)" 63600]
  show ?thesis using n c m by (auto simp: details_of_def split: prod.splits sum.splits)
qed

lemma details_keep:
  "anchor_events (snd (details_of env anchor d)) = anchor_events d \<and>
   bitcoin_transactions (snd (details_of env anchor d)) = bitcoin_transactions d"
  by (rule details_induct[where P = "\<lambda>e. anchor_events e = anchor_events d \<and> bitcoin_transactions e = bitcoin_transactions d"])
    simp_all

lemma by_naddr_db:
  assumes "env_nip19 env naddr = Some p" "has_prefix naddr ''naddr1''"
    and "foldl (newest_step env p) (Ok (first_of (QueryEvents (addr_filter (na_pubkey p) (na_kind p) (na_identifier p)) d), d))
           (de_RelayURLs env) = Inr (Some anchor, d1)"
  shows "snd (handleEventDetailsByNaddr env naddr d) = snd (details_of env anchor d1)"
  using assms by (auto simp: handleEventDetailsByNaddr_def Let_def split: prod.splits sum.splits)

lemma new_anchor_stored:
  assumes "new_format ev" "list_all (\<lambda>k. last_tag k (ev_tags ev) \<noteq> []) [''d'', ''n'', ''c'', ''m'', ''x'']"
    and "\<forall>r\<in>set (anchor_events d). r_pubkey r \<noteq> ev_pubkey ev"
  shows "\<exists>d'. StoreAnchorEventHooked hook ev b n p d = Inr (hook ev d')
    \<and> d' = put_anchor (anchor_row_of ev b n p) d"
proof -
  let ?row = "anchor_row_of ev b n p"
  have r: "r_pubkey ?row = ev_pubkey ev" "r_d_tag ?row = last_tag ''d'' (ev_tags ev)" "a_name_ref ?row = last_tag ''n'' (ev_tags ev)"
    "a_conn_ref ?row = last_tag ''c'' (ev_tags ev)" "a_meta_ref ?row = last_tag ''m'' (ev_tags ev)" "a_txid ?row = last_tag ''x'' (ev_tags ev)"
    by (simp_all add: anchor_row_of_def)
  have e: "existing_anchor ?row d = None"
    using assms(3) by (simp add: existing_anchor_def r filter_False order_by_def split: list.splits)
  have t: "tx_conflict ?row d = None"
    using assms(3) by (auto simp: tx_conflict_def find_None_iff r)
  have "StoreAnchorEvent ev b n p d = Ok (put_anchor ?row d)"
    using assms(1,2) e t by (simp add: StoreAnchorEvent_def Let_def r new_format_def old_anchor_tags_def)
  then show ?thesis by (simp add: StoreAnchorEventHooked_def already_stored_def e)
qed

lemma quiet_relays:
  "\<forall>u\<in>set us. answer_of env (addr_filter (na_pubkey p) (na_kind p) (na_identifier p)) u = None \<Longrightarrow>
     foldl (newest_step env p) (Ok st) us = Ok st"
  by (induction us) (auto simp: newest_step_def split: prod.splits)

lemma put_anchor_in: "row \<in> set (anchor_events (put_anchor row d))"
  by (simp add: put_anchor_def UpdateBitcoinTransactionWithAnchor_def insert_or_replace_def)

lemma put_anchor_ids: "map t_id (bitcoin_transactions (put_anchor row d)) = map t_id (bitcoin_transactions d)"
  by (simp add: put_anchor_def UpdateBitcoinTransactionWithAnchor_def update_where_def)

text \<open>
  A request for an anchor by its address stores it without a payment: when a relay has an anchor
  of a key that has no anchor here, the request stores it at block 0 and position 0, whether or not
  the transaction that it names is stored, or any transaction of its author.
\<close>

lemma unpaid_anchor_by_request:
  assumes "env_nip19 env naddr = Some p" "has_prefix naddr ''naddr1''" "na_kind p = 60600"
    and "de_RelayURLs env = before @ url # after"
    and "answer_of env (addr_filter (na_pubkey p) 60600 (na_identifier p)) url = Some ev"
    and "\<forall>u\<in>set (before @ after). answer_of env (addr_filter (na_pubkey p) 60600 (na_identifier p)) u = None"
    and "ev_pubkey ev = na_pubkey p" "new_format ev" "list_all (\<lambda>k. last_tag k (ev_tags ev) \<noteq> []) [''d'', ''n'', ''c'', ''m'', ''x'']"
    and "\<forall>r\<in>set (anchor_events d). r_pubkey r \<noteq> ev_pubkey ev"
  shows "anchor_row_of ev 0 0 0 \<in> set (anchor_events (snd (handleEventDetailsByNaddr env naddr d)))
    \<and> map t_id (bitcoin_transactions (snd (handleEventDetailsByNaddr env naddr d))) = map t_id (bitcoin_transactions d)"
proof -
  let ?f = "addr_filter (na_pubkey p) 60600 (na_identifier p)"
  let ?hook = "fetchAndStoreReferencedEvents (env_nip19 env) (env_fetch env)"
  let ?d1 = "?hook ev (put_anchor (anchor_row_of ev 0 0 0) d)"
  have "QueryEvents ?f d = []"
  proof (rule ccontr)
    assume "QueryEvents ?f d \<noteq> []"
    then have "QueryEvents (anchors_at (na_pubkey p) (na_identifier p)) d \<noteq> []" by (simp add: addr_filter_def anchors_at_def)
    then show False using query_anchors_at assms(7,10) by metis
  qed
  moreover have "GetAnchorBlockPosition (na_pubkey p) (na_identifier p) d = Err DNoRows"
    using assms(7,10) by (auto simp: GetAnchorBlockPosition_def find_Some_iff split: option.splits)
  then have "newest_step env p (Ok (None, d)) url = Ok (Some ev, ?d1)"
    using assms(3,5,8) new_anchor_stored[OF assms(8,9,10), of ?hook 0 0 0] by (auto simp: newest_step_def)
  ultimately have "foldl (newest_step env p) (Ok (first_of (QueryEvents (addr_filter (na_pubkey p) (na_kind p) (na_identifier p)) d), d))
      (de_RelayURLs env) = Inr (Some ev, ?d1)"
    using assms(3,4,6) quiet_relays[of before env p] quiet_relays[of after env p] by simp
  note db = by_naddr_db[OF assms(1,2) this]
  show ?thesis
    unfolding db using details_keep[of env ev ?d1] put_anchor_in put_anchor_ids by (simp add: fetch_keeps)
qed

section \<open>Witnesses\<close>

definition relay_anchor :: event where
  "relay_anchor = \<lparr> ev_id = ''anchor-from-relay'', ev_pubkey = ''stranger'', ev_created_at = 50, ev_kind = 60600,
     ev_tags = [[''t'', ''DNN''], [''d'', ''names''], [''n'', ''0123456789abcdef''], [''c'', ''0123456789abcdef''],
       [''m'', ''0123456789abcdef''], [''x'', ''nosuchtx'']], ev_content = [], ev_sig = ''s'' \<rparr>"

definition newer_connection :: event where
  "newer_connection = \<lparr> ev_id = ''connection-newer'', ev_pubkey = ''alice'', ev_created_at = 60, ev_kind = 62600,
     ev_tags = [[''t'', ''DNN''], [''d'', ''site'']], ev_content = [], ev_sig = ''s'' \<rparr>"

definition older_db :: database where
  "older_db = StoreConnectionEvent (newer_connection\<lparr>ev_id := ''connection-older'', ev_created_at := 40\<rparr>) empty_db"

definition asking_env :: details_env where
  "asking_env = \<lparr> env_checkSignature = (\<lambda>_. True), env_marshal_length = (\<lambda>_. Some 200),
     env_nip19 = (\<lambda>s. if s = ''naddr1asked'' then Some \<lparr> na_kind = 60600, na_pubkey = ''stranger'', na_identifier = ''names'' \<rparr> else None),
     env_derive = (\<lambda>_. None), env_fetch = (\<lambda>_ _ _. None), env_enableAwareness = True, de_RelayURLs = [''wss://r''],
     de_query = (\<lambda>_ f. if f_Kinds f = [60600] then Some [relay_anchor] else if f_Kinds f = [62600] then Some [newer_connection] else None),
     de_arrivals = (\<lambda>_. [''wss://r'']), de_EncodeEntity = (\<lambda>_ _ _. None), de_iter = (\<lambda>es. es) \<rparr>"

lemma unpaid_anchor_by_request_example:
  "GetBitcoinTransaction ''nosuchtx'' empty_db = None
   \<and> anchor_row_of relay_anchor 0 0 0 \<in> set (anchor_events (snd (handleEventDetailsByNaddr asking_env ''naddr1asked'' empty_db)))"
proof -
  let ?p = "\<lparr> na_kind = 60600, na_pubkey = ''stranger'', na_identifier = ''names'' \<rparr>"
  have p: "env_nip19 asking_env ''naddr1asked'' = Some ?p" "has_prefix ''naddr1asked'' ''naddr1''" "na_kind ?p = 60600"
    "de_RelayURLs asking_env = [] @ ''wss://r'' # []"
    "answer_of asking_env (addr_filter (na_pubkey ?p) 60600 (na_identifier ?p)) ''wss://r'' = Some relay_anchor"
    "\<forall>u\<in>set ([] @ []). answer_of asking_env (addr_filter (na_pubkey ?p) 60600 (na_identifier ?p)) u = None"
    "ev_pubkey relay_anchor = na_pubkey ?p" "new_format relay_anchor"
    "list_all (\<lambda>k. last_tag k (ev_tags relay_anchor) \<noteq> []) [''d'', ''n'', ''c'', ''m'', ''x'']"
    "\<forall>r\<in>set (anchor_events empty_db). r_pubkey r \<noteq> ev_pubkey relay_anchor"
    by code_simp+
  have "GetBitcoinTransaction ''nosuchtx'' empty_db = None" by code_simp
  then show ?thesis using unpaid_anchor_by_request[OF p] by blast
qed


section \<open>The anchors of a fetched name\<close>

text \<open>
  Every anchor that the fetch of a name adds sits at the place of a stored transaction, the one that
  its x tag names, and carries the ids of the three events as its references.
\<close>

definition placed :: "database \<Rightarrow> anchor_row \<Rightarrow> bool" where
  "placed d r \<longleftrightarrow> (\<exists>tx\<in>set (bitcoin_transactions d). t_id tx = a_txid r \<and> t_bitcoin_block tx = a_bitcoin_block r
     \<and> t_dnn_block tx = a_dnn_block r \<and> t_position tx = a_position r)"

lemma placed_kept: "chain_kept d d' \<Longrightarrow> placed d' r = placed d r"
proof -
  assume "chain_kept d d'"
  then have "list_all2 anchored_from (bitcoin_transactions d) (bitcoin_transactions d')" by (simp add: chain_kept_def)
  then show ?thesis
    unfolding placed_def by (induction rule: list_all2_induct) (auto dest: anchored_from_fields)
qed

lemma hooked_rows:
  assumes "StoreAnchorEventHooked (fetchAndStoreReferencedEvents decode remote) ev b n p d = Inr d'"
  shows "set (anchor_events d') \<subseteq> insert (anchor_row_of ev b n p) (set (anchor_events d)) \<and> chain_kept d d'"
proof -
  obtain d1 where d1: "StoreAnchorEvent ev b n p d = Inr d1"
    and d': "d' = d1 \<or> d' = fetchAndStoreReferencedEvents decode remote ev d1"
    using assms by (elim StoreAnchorEventHooked_ok) blast
  have "anchor_events d' = anchor_events d1" using d' fetch_keeps(1) by auto
  moreover have "chain_kept d d'" using d' StoreAnchorEvent_kept[OF d1] fetch_kept chain_kept_trans by auto
  ultimately show ?thesis using StoreAnchorEvent_rows[OF d1] by simp
qed

lemma place_anchor_cases:
  assumes "place_anchor env ns cs ms (Inr d) ev = r"
  obtains "outcome_db r = d"
  | t n c m tx d' where "GetBitcoinTransaction (last_tag ''x'' (ev_tags ev)) d = Some tx" "outcome_db r = d'"
      "StoreAnchorEventHooked (fetchAndStoreReferencedEvents (env_nip19 env) (env_fetch env))
         (updated_anchor ev t n c m (last_tag ''x'' (ev_tags ev))) (t_bitcoin_block tx) (t_dnn_block tx) (t_position tx) d = Inr d'"
  using assms by (auto simp: place_anchor_def Let_def split: option.splits sum.splits db_error.splits if_splits)

lemma place_anchor_rows:
  assumes "place_anchor env ns cs ms (Inr d) ev = q"
  shows "chain_kept d (outcome_db q) \<and> (\<forall>r\<in>set (anchor_events (outcome_db q)). r \<in> set (anchor_events d) \<or> placed d r)"
  using assms
proof (cases rule: place_anchor_cases)
  case 1
  then show ?thesis by (simp add: chain_kept_refl)
next
  case (2 t n c m tx d')
  have "placed d (anchor_row_of (updated_anchor ev t n c m (last_tag ''x'' (ev_tags ev)))
      (t_bitcoin_block tx) (t_dnn_block tx) (t_position tx))"
    using 2(1) by (auto simp: placed_def GetBitcoinTransaction_def find_Some_iff anchor_row_of_def updated_anchor_def
        last_tag_def tag_vals_def tag_is_def)
  then show ?thesis using hooked_rows[OF 2(3)] 2(2) by auto
qed

lemma place_anchor_err: "foldl (place_anchor env ns cs ms) (Inl d) evs = Inl d"
  by (induction evs) (simp_all add: place_anchor_def)

lemma place_anchors_rows:
  "chain_kept d (outcome_db (foldl (place_anchor env ns cs ms) (Inr d) evs))
    \<and> (\<forall>r\<in>set (anchor_events (outcome_db (foldl (place_anchor env ns cs ms) (Inr d) evs))). r \<in> set (anchor_events d) \<or> placed d r)"
proof (induction evs arbitrary: d)
  case (Cons ev evs)
  show ?case
  proof (cases "place_anchor env ns cs ms (Inr d) ev")
    case (Inl e)
    then show ?thesis using place_anchor_rows[OF Inl] by (simp add: place_anchor_err)
  next
    case (Inr e)
    note step = place_anchor_rows[OF Inr] and IH = Cons.IH[of e]
    then have "chain_kept d (outcome_db (foldl (place_anchor env ns cs ms) (Inr e) evs))" using chain_kept_trans by auto
    moreover have "placed d r" if "placed e r" for r using that placed_kept[of d e r] step by simp
    ultimately show ?thesis using step IH by (auto simp: Inr)
  qed
qed (simp add: chain_kept_refl)

lemma fetched_names_keep:
  "anchor_events (fold StoreMetadataEvent ms (fold StoreConnectionEvent cs (fold StoreNameEvent ns d))) = anchor_events d
   \<and> bitcoin_transactions (fold StoreMetadataEvent ms (fold StoreConnectionEvent cs (fold StoreNameEvent ns d))) = bitcoin_transactions d"
proof -
  have k: "anchor_events (fold f es e) = anchor_events e \<and> bitcoin_transactions (fold f es e) = bitcoin_transactions e"
    if "f \<in> {StoreNameEvent, StoreConnectionEvent, StoreMetadataEvent}" for f es e
    using that by (induction es arbitrary: e)
      (auto simp: StoreNameEvent_def StoreConnectionEvent_def StoreMetadataEvent_def)
  show ?thesis by (simp add: k)
qed

lemma store_collected_rows:
  "r \<in> set (anchor_events (outcome_db (store_collected env evs d))) \<Longrightarrow> r \<in> set (anchor_events d) \<or> placed d r"
proof -
  let ?k = "\<lambda>k. filter (\<lambda>e. ev_kind e = k) evs"
  let ?d1 = "fold StoreMetadataEvent (?k 63600) (fold StoreConnectionEvent (?k 62600) (fold StoreNameEvent (?k 61600) d))"
  assume "r \<in> set (anchor_events (outcome_db (store_collected env evs d)))"
  then have "r \<in> set (anchor_events ?d1) \<or> placed ?d1 r"
    using place_anchors_rows[where d = ?d1] unfolding store_collected_def Let_def by blast
  then show ?thesis by (simp add: placed_def fetched_names_keep)
qed

lemma fetched_anchors_are_placed:
  assumes "fetchAndSyncFromRelays env name blockNum position d = (result, d')"
    and "r \<in> set (anchor_events d')" "r \<notin> set (anchor_events d)"
  shows "placed d r"
proof -
  have "d' = d \<or> d' = outcome_db (store_collected env (de_iter env (map snd (collected env))) d)"
    using assms(1) by (auto simp: fetchAndSyncFromRelays_def split: if_splits sum.splits)
  then show ?thesis using store_collected_rows assms(2,3) by metis
qed

end
