(* ===== verification/System.thy ===== *)
theory System
  imports Service LocalStore Retention Details
begin

text \<open>
  What every component keeps of the shared database, for the node as a whole: the uniqueness
  constraints, block numbers that match their heights, and transactions whose address is a
  mainnet P2WPKH address.
\<close>

definition paid_mainnet :: "database \<Rightarrow> bool" where
  "paid_mainnet d \<longleftrightarrow> list_all (\<lambda>r. has_prefix (to_lower (t_address r)) ''bc1q'') (bitcoin_transactions d)"

definition node_db :: "string \<Rightarrow> database \<Rightarrow> bool" where
  "node_db net d \<longleftrightarrow> db_keys d \<and> aligned (GetGenesisBlock net) d \<and> paid_mainnet d"

lemma paid_kept: "chain_kept d d' \<Longrightarrow> paid_mainnet d' = paid_mainnet d"
proof -
  assume "chain_kept d d'"
  then have "list_all2 anchored_from (bitcoin_transactions d) (bitcoin_transactions d')" by (simp add: chain_kept_def)
  then show ?thesis
    unfolding paid_mainnet_def by (induction rule: list_all2_induct) (auto dest: anchored_from_fields)
qed

lemma node_kept: "node_db net d \<Longrightarrow> chain_kept d d' \<Longrightarrow> db_keys d' \<Longrightarrow> node_db net d'"
  by (simp add: node_db_def paid_kept kept_lookup(2))

section \<open>Event stores\<close>

lemma fetch_keys: "db_keys d \<Longrightarrow> db_keys (fetchAndStoreReferencedEvents decode remote a d)"
  by (auto simp: fetchAndStoreReferencedEvents_def Let_def store_opt_def split: option.splits intro!: store_event_keys)

lemma hooked_keys: "db_keys d \<Longrightarrow> StoreAnchorEventHooked (fetchAndStoreReferencedEvents decode remote) ev b n p d = Inr d' \<Longrightarrow> db_keys d'"
  by (elim StoreAnchorEventHooked_ok) (auto intro: StoreAnchorEvent_keys fetch_keys)

lemma hooked_kept: "StoreAnchorEventHooked (fetchAndStoreReferencedEvents decode remote) ev b n p d = Inr d' \<Longrightarrow> chain_kept d d'"
  by (elim StoreAnchorEventHooked_ok) (metis StoreAnchorEvent_kept fetch_kept chain_kept_trans)

lemma store_event_kept:
  "chain_kept d (StoreNameEvent ev d)" "chain_kept d (StoreConnectionEvent ev d)" "chain_kept d (StoreMetadataEvent ev d)"
  by (simp_all add: chain_kept_def StoreNameEvent_def StoreConnectionEvent_def StoreMetadataEvent_def anchored_from_refl)

lemma handleAnchorEvent_node:
  "node_db net d \<Longrightarrow> handleAnchorEvent env ev d = Inr d' \<Longrightarrow> node_db net d'"
proof -
  assume n: "node_db net d" and "handleAnchorEvent env ev d = Inr d'"
  then obtain b m p d1 where
    h: "StoreAnchorEventHooked (fetchAndStoreReferencedEvents (env_nip19 env) (env_fetch env)) ev b m p d = Inr d1"
    and d': "d' = fetchAndStoreReferencedEvents (env_nip19 env) (env_fetch env) ev d1"
    by (auto simp: handleAnchorEvent_def Let_def split: if_splits option.splits sum.splits)
  have "db_keys d" using n by (simp add: node_db_def)
  then have "db_keys d'" unfolding d' using hooked_keys[OF _ h] by (intro fetch_keys) simp
  moreover have "chain_kept d d'" unfolding d' using hooked_kept[OF h] fetch_kept chain_kept_trans by blast
  ultimately show ?thesis using node_kept n by blast
qed

lemma handleEvent_node:
  assumes "node_db net (rs_db st)"
  shows "node_db net (rs_db (snd (handleEvent env pe conn ev st)))"
proof (cases "snd (handleEvent env pe conn ev st) = st")
  case False
  then obtain d where d: "store_by_kind env ev (rs_db st) = Some (Inr d)" "snd (handleEvent env pe conn ev st) = st\<lparr>rs_db := d\<rparr>"
    using handleEvent_accepts[of conn ev env pe st] by blast
  have k: "db_keys (rs_db st)" using assms by (simp add: node_db_def)
  have "node_db net d"
    using d(1) assms handleAnchorEvent_node node_kept[OF assms] store_event_kept store_event_keys[OF k]
    by (auto simp: store_by_kind_def split: if_splits)
  then show ?thesis by (simp add: d(2))
qed (use assms in simp)

section \<open>Synchronisation\<close>

lemma store_found_keys: "db_keys d \<Longrightarrow> db_keys (outcome_db (store_found env e b n p ev d))"
proof (cases "StoreAnchorEventHooked (fetch_refs env) ev b n p d")
  case (Inl x)
  then show "db_keys d \<Longrightarrow> ?thesis" by (auto simp: store_found_def split: db_error.splits)
next
  case (Inr d')
  then show "db_keys d \<Longrightarrow> ?thesis" using hooked_keys fetch_keys by (auto simp: store_found_def)
qed

lemma store_anchors_keys: "db_keys d \<Longrightarrow> db_keys (outcome_db (store_anchors env e found b n ps d))"
proof (induction ps arbitrary: d)
  case (Cons p ps)
  show ?case
  proof (cases "found (v_TxID (snd p))")
    case (Some ev)
    then show ?thesis
      using Cons store_found_keys[OF Cons.prems, of env e b n "int (fst p) + 1" ev]
      by (cases "store_found env e b n (int (fst p) + 1) ev d") auto
  qed (use Cons in simp)
qed simp

lemma store_pending_keys:
  "db_keys d \<Longrightarrow> case store_pending env found txs n d of Inl d' \<Rightarrow> db_keys d' | Inr (m, d') \<Rightarrow> db_keys d'"
proof (induction txs arbitrary: n d)
  case (Cons tx txs)
  show ?case
  proof (cases "found (t_id tx)")
    case (Some ev)
    let ?r = "store_found env False (t_bitcoin_block tx) (t_bitcoin_block tx - GetGenesisBlock (ch_network env)) (t_position tx) ev d"
    have "db_keys (outcome_db ?r)" by (rule store_found_keys[OF Cons.prems])
    then show ?thesis using Cons.IH Some by (cases ?r) (auto split: sum.splits prod.splits)
  qed (use Cons in simp)
qed simp

lemma store_txs_node:
  assumes "node_db net d" "\<And>v. v \<in> set vs \<Longrightarrow> has_prefix (to_lower (v_Address v)) ''bc1q''"
  shows "node_db net (store_txs env b n vs d)"
proof -
  have "db_keys (foldl (store_tx env b n) d ps)" if "db_keys d" for ps d
    using that by (induction ps arbitrary: d) (auto simp: store_tx_def intro: StoreBitcoinTransaction_keys)
  moreover have "aligned g (store_txs env b n vs d) = aligned g d" for g by (simp add: aligned_def)
  moreover have "paid_mainnet (store_txs env b n vs d)"
  proof -
    have "v \<in> set vs" if "p \<in> set (enumerate 0 vs)" "snd p = v" for p v
      using that nth_mem[of "fst p" vs] by (simp add: in_set_enumerate_eq)
    then have "has_prefix (to_lower (t_address (new_row env b n p))) ''bc1q''" if "p \<in> set (enumerate 0 vs)" for p
      using that assms(2) by (simp add: new_row_def)
    moreover have "set (bitcoin_transactions (store_txs env b n vs d))
        \<subseteq> set (bitcoin_transactions d) \<union> new_row env b n ` set (enumerate 0 vs)"
      using store_txs_subset[of env b n d "enumerate 0 vs", folded store_txs_def] by blast
    moreover have "\<forall>r\<in>set (bitcoin_transactions d). has_prefix (to_lower (t_address r)) ''bc1q''"
      using assms(1) by (simp add: node_db_def paid_mainnet_def list_all_iff)
    ultimately have "\<forall>r\<in>set (bitcoin_transactions (store_txs env b n vs d)). has_prefix (to_lower (t_address r)) ''bc1q''"
      by blast
    then show ?thesis by (simp add: paid_mainnet_def list_all_iff)
  qed
  ultimately show ?thesis using assms(1) by (simp add: node_db_def store_txs_def)
qed

lemma found_addresses: "v \<in> set (findValidDNNTransactions block) \<Longrightarrow> has_prefix (to_lower (v_Address v)) ''bc1q''"
proof -
  assume "v \<in> set (findValidDNNTransactions block)"
  then have "claim_of v \<in> set (map claim_of (findValidDNNTransactions block))" by simp
  then have "claim_of v \<in> set (claims (bk_Transactions block))" using findValid_spec(1)[of block] by (metis set_mset_mset)
  then show ?thesis unfolding mem_claims using only_digits_type by (auto simp: claim_of_def)
qed

lemma put_block_node:
  assumes "node_db net d"
  shows "node_db net (CreateOrUpdateDNNBlock now (b - GetGenesisBlock net) b h t d)"
proof -
  let ?d1 = "CreateOrUpdateDNNBlock now (b - GetGenesisBlock net) b h t d"
  have "aligned (GetGenesisBlock net) ?d1"
    using GetBitcoinBlockHash_put(2)[where d = d and d' = ?d1 and g = "GetGenesisBlock net"
        and r = "\<lparr> b_number = b - GetGenesisBlock net, b_bitcoin = b, b_hash = h, b_timestamp = t,
      b_created_at = block_created (b - GetGenesisBlock net) now d, b_synced_at = now \<rparr>"] assms
    by (simp add: node_db_def CreateOrUpdateDNNBlock_def)
  moreover have "db_keys ?d1" "paid_mainnet ?d1"
    using assms block_keys(1) by (simp_all add: node_db_def paid_mainnet_def CreateOrUpdateDNNBlock_def)
  ultimately show ?thesis by (simp add: node_db_def)
qed

lemma process_block_node:
  assumes "node_db (ch_network env) d"
  shows "node_db (ch_network env) (outcome_db (process_block env e b h block d))"
proof -
  let ?g = "GetGenesisBlock (ch_network env)" and ?vs = "findValidDNNTransactions block"
  let ?d1 = "CreateOrUpdateDNNBlock (ch_now env) (b - ?g) b h (bk_Time block) d"
  let ?d2 = "store_txs env b (b - ?g) ?vs ?d1"
  have d2: "node_db (ch_network env) ?d2" by (intro store_txs_node put_block_node assms found_addresses)
  moreover have "db_keys (outcome_db (process_block env e b h block d))"
  proof (cases "?vs = []")
    case True
    then show ?thesis using put_block_node[OF assms] unfolding process_block_def Let_def by (simp add: node_db_def)
  next
    case False
    then show ?thesis using d2 store_anchors_keys unfolding process_block_def Let_def by (simp add: node_db_def)
  qed
  ultimately show ?thesis using node_kept process_block_rows by blast
qed

lemma state_node:
  assumes "node_db net d"
  shows "node_db net (UpdateSyncState k v d)"
proof -
  have "aligned (GetGenesisBlock net) (UpdateSyncState k v d)" "db_keys (UpdateSyncState k v d)"
    using assms state_keys(1) by (simp_all add: node_db_def aligned_state)
  moreover have "paid_mainnet (UpdateSyncState k v d)"
    using assms by (simp add: node_db_def paid_mainnet_def UpdateSyncState_def)
  ultimately show ?thesis by (simp add: node_db_def)
qed

lemma sync_blocks_node:
  "node_db (ch_network env) d \<Longrightarrow> node_db (ch_network env) (snd (sync_blocks env l bs d))"
proof (induction bs arbitrary: d)
  case (Cons b bs)
  show ?case
  proof (cases "ch_GetBlockHash env b")
    case (Some h)
    show ?thesis
    proof (cases "diverges env l b h \<or> ch_GetBlockWithInputs env h = None")
      case False
      then obtain block where blk: "ch_GetBlockWithInputs env h = Some block" "\<not> diverges env l b h" by auto
      note P = process_block_node[OF Cons.prems, of True b h block]
      then show ?thesis
        using Some blk Cons.IH state_node by (cases "process_block env True b h block d") auto
    qed (use Cons.prems Some in auto)
  qed (use Cons.prems in simp)
qed simp

lemma rescan_node:
  "node_db net d \<Longrightarrow> rescan env (GetGenesisBlock net) bs d = Inr d' \<Longrightarrow> node_db net d'"
proof (induction bs arbitrary: d)
  case (Cons b bs)
  let ?g = "GetGenesisBlock net"
  obtain h blk where hb: "ch_GetBlockHash env b = Some h" "ch_GetBlock env h = Some blk"
    using Cons.prems(2) by (auto split: option.splits)
  let ?d1 = "UpdateDNNBlock (ch_now env) (b - ?g) b h (bk_Time blk) d"
  have "aligned ?g ?d1"
    using GetBitcoinBlockHash_put(2)[where d = d and d' = ?d1 and g = ?g
        and r = "\<lparr> b_number = b - ?g, b_bitcoin = b, b_hash = h, b_timestamp = bk_Time blk,
      b_created_at = ch_now env, b_synced_at = ch_now env \<rparr>"] Cons.prems(1)
    by (simp add: node_db_def UpdateDNNBlock_def)
  moreover have "db_keys ?d1" "paid_mainnet ?d1"
    using Cons.prems(1) block_keys(2) by (simp_all add: node_db_def paid_mainnet_def UpdateDNNBlock_def)
  ultimately have "node_db net ?d1" by (simp add: node_db_def)
  moreover have "rescan env ?g bs ?d1 = Inr d' \<or> rescan env ?g bs d = Inr d'"
    using Cons.prems(2) hb by (simp add: Let_def processBlockTransactions_id split: if_splits)
  ultimately show ?case using Cons.IH Cons.prems(1) by blast
qed simp

lemma clear_node:
  assumes "node_db net d"
  shows "node_db net (RemoveAnchorsAfterBlock m (InvalidateDNNBlocksAfter n d))"
proof -
  have "db_keys (RemoveAnchorsAfterBlock m (InvalidateDNNBlocksAfter n d))"
    using assms by (intro block_keys(3,4)) (simp add: node_db_def)
  moreover have "aligned (GetGenesisBlock net) (RemoveAnchorsAfterBlock m (InvalidateDNNBlocksAfter n d))"
    using assms by (intro invalidate_lookup(2)) (simp add: node_db_def)
  moreover have "paid_mainnet (RemoveAnchorsAfterBlock m (InvalidateDNNBlocksAfter n d))"
    using assms by (simp add: node_db_def paid_mainnet_def RemoveAnchorsAfterBlock_def InvalidateDNNBlocksAfter_def)
  ultimately show ?thesis by (simp add: node_db_def)
qed

lemma CheckAndHandleReorg_node:
  assumes "node_db (ch_network env) d"
  shows "node_db (ch_network env) (snd (CheckAndHandleReorg env n d))"
proof -
  let ?net = "ch_network env"
  have time: "node_db ?net (UpdateReorgCheckTime t d)" if "node_db ?net d" for t d
    using state_node[OF that] by (simp add: UpdateReorgCheckTime_def)
  have "node_db ?net (snd (handleReorg env s d))" for s
  proof (cases "fst (handleReorg env s d)")
    case (Inl x)
    then have "snd (handleReorg env s d) = d" by (auto simp: handleReorg_def Let_def split: option.splits sum.splits)
    then show ?thesis using assms by simp
  next
    case (Inr u)
    then have "handleReorg env s d = (Ok (), snd (handleReorg env s d))" by (metis prod.collapse old.unit.exhaust)
    then obtain height d2 where r: "rescan env (GetGenesisBlock ?net) [s..height]
        (RemoveAnchorsAfterBlock (dnn_start env s) (InvalidateDNNBlocksAfter (dnn_start env s) d)) = Inr d2"
      and d': "snd (handleReorg env s d) = UpdateReorgCheckTime (ch_time env) d2"
      by (rule handleReorg_ok) blast
    have "node_db ?net (RemoveAnchorsAfterBlock (dnn_start env s) (InvalidateDNNBlocksAfter (dnn_start env s) d))"
      by (rule clear_node[OF assms])
    from rescan_node[OF this r] show ?thesis unfolding d' by (rule time)
  qed
  then show ?thesis
    using time[OF assms] assms by (auto simp: CheckAndHandleReorg_def split: option.splits prod.splits)
qed

lemma syncBitcoin_node:
  assumes "node_db (ch_network env) d"
  shows "node_db (ch_network env) (snd (syncBitcoin env d))"
proof (cases "ch_GetBlockCount env")
  case (Some height)
  show ?thesis
  proof (cases "last_synced env d < height")
    case True
    let ?s = "sync_blocks env (last_synced env d) [last_synced env d + 1..batch_end env height d] d"
    let ?d1 = "UpdateSyncState ''last_sync_time'' (ch_time env) (snd ?s)"
    have n: "node_db (ch_network env) (snd ?s)" by (rule sync_blocks_node[OF assms])
    have "node_db (ch_network env) (snd (CheckAndHandleReorg env m ?d1))" for m
      by (intro CheckAndHandleReorg_node state_node n)
    then show ?thesis
      using Some True n state_node[OF n] by (auto simp: syncBitcoin_def Let_def split: prod.splits loop_end.splits)
  qed (use assms Some in \<open>simp add: syncBitcoin_def Let_def\<close>)
qed (use assms in \<open>simp add: syncBitcoin_def\<close>)

lemma SyncSpecificBlock_node:
  assumes "node_db (ch_network env) d"
  shows "node_db (ch_network env) (snd (SyncSpecificBlock env b d))"
proof (cases "ch_GetBlockHash env b")
  case (Some h)
  show ?thesis
  proof (cases "ch_GetBlockWithInputs env h")
    case (Some block)
    have "node_db (ch_network env) (outcome_db (process_block env False b h block d))" by (rule process_block_node[OF assms])
    then show ?thesis
      using \<open>ch_GetBlockHash env b = Some h\<close> Some state_node
      by (cases "process_block env False b h block d") (simp_all add: SyncSpecificBlock_def Let_def)
  qed (use assms Some in \<open>simp add: SyncSpecificBlock_def\<close>)
qed (use assms in \<open>simp add: SyncSpecificBlock_def\<close>)

lemma SyncSpecificTransaction_effect:
  assumes "fst (SyncSpecificTransaction env x d) = SyncDone \<or> snd (SyncSpecificTransaction env x d) \<noteq> d"
  obtains tx addr b h where "isValidDNNTransaction tx = Some addr" "snd (SyncSpecificTransaction env x d)
    = StoreBitcoinTransaction (ch_now env) x b (b - GetGenesisBlock (ch_network env)) 2 addr
        (int (txidDigitSum x)) 0 0 (CreateOrUpdateDNNBlock (ch_now env) (b - GetGenesisBlock (ch_network env)) b h 0 d)"
  using assms by (auto simp: SyncSpecificTransaction_def Let_def split: option.splits if_splits)

lemma SyncSpecificTransaction_node:
  assumes "node_db (ch_network env) d"
  shows "node_db (ch_network env) (snd (SyncSpecificTransaction env x d))"
proof (cases "snd (SyncSpecificTransaction env x d) = d")
  case False
  let ?g = "GetGenesisBlock (ch_network env)"
  obtain tx addr b h where v: "isValidDNNTransaction tx = Some addr"
    and e: "snd (SyncSpecificTransaction env x d) = StoreBitcoinTransaction (ch_now env) x b (b - ?g) 2 addr
        (int (txidDigitSum x)) 0 0 (CreateOrUpdateDNNBlock (ch_now env) (b - ?g) b h 0 d)"
    using False SyncSpecificTransaction_effect[of env x d] by blast
  let ?d1 = "CreateOrUpdateDNNBlock (ch_now env) (b - ?g) b h 0 d"
  have n: "node_db (ch_network env) ?d1" by (rule put_block_node[OF assms])
  moreover have "aligned g (StoreBitcoinTransaction now y bb dn p a f tp td d2) = aligned g d2" for g now y bb dn p a f tp td d2
    by (simp add: aligned_def StoreBitcoinTransaction_def)
  moreover have "paid_mainnet (snd (SyncSpecificTransaction env x d))"
    using n only_digits_type[OF v]
    by (auto simp: e paid_mainnet_def node_db_def StoreBitcoinTransaction_def insert_or_ignore_def list_all_iff)
  ultimately show ?thesis using StoreBitcoinTransaction_keys by (simp add: e node_db_def)
qed (use assms in simp)

lemma mark_keys:
  "db_keys d \<Longrightarrow> db_keys (MarkTransactionsRelayChecked now ids d)"
proof -
  have one: "db_keys (d\<lparr>bitcoin_transactions := update_where (\<lambda>r. t_id r = x) (\<lambda>r. r\<lparr>t_checked_at := Some now\<rparr>) (bitcoin_transactions d)\<rparr>)"
    if "db_keys d" for x d
    using that btx_table.unique_update by (simp add: db_keys_def btx_clash_def)
  show "db_keys d \<Longrightarrow> db_keys (MarkTransactionsRelayChecked now ids d)"
    unfolding MarkTransactionsRelayChecked_def by (induction ids arbitrary: d) (simp_all add: one)
qed

lemma mark_blocks: "dnn_blocks (MarkTransactionsRelayChecked now ids d) = dnn_blocks d"
  unfolding MarkTransactionsRelayChecked_def by (induction ids arbitrary: d) simp_all

lemma mark_checked_node:
  assumes "node_db net d"
  shows "node_db net (MarkTransactionsRelayChecked now ids d)"
proof -
  have "paid_mainnet (MarkTransactionsRelayChecked now ids d)"
    using assms unfolding node_db_def paid_mainnet_def mark_rows list_all_iff by auto
  moreover have "aligned (GetGenesisBlock net) (MarkTransactionsRelayChecked now ids d)"
    using assms unfolding node_db_def aligned_def mark_blocks by simp
  ultimately show ?thesis using assms mark_keys by (simp add: node_db_def)
qed

lemma pending_loop_node:
  "node_db (ch_network env) d \<Longrightarrow> node_db (ch_network env) (outcome_db (pending_loop n env d))"
proof (induction n arbitrary: d)
  case (Suc n)
  let ?all = "GetUncheckedBitcoinTransactions batchSize d @ GetCheckedTransactionsWithoutAnchor batchSize d"
  let ?s = "store_pending env (findAnchorEventsForTransactionsBatch env (map t_id ?all)) ?all 0 d"
  have K: "case ?s of Inl d' \<Rightarrow> chain_kept d d' | Inr (m, d') \<Rightarrow> chain_kept d d'"
    "case ?s of Inl d' \<Rightarrow> db_keys d' | Inr (m, d') \<Rightarrow> db_keys d'"
    using store_pending_kept store_pending_keys Suc.prems by (blast, simp add: node_db_def)
  show ?case
  proof (cases ?s)
    case (Inl d')
    then show ?thesis using K node_kept[OF Suc.prems] Suc.prems by (auto simp: Let_def)
  next
    case (Inr p)
    obtain m d' where p: "p = (m, d')" by fastforce
    have "node_db (ch_network env) d'" using K Inr p node_kept[OF Suc.prems] by simp
    then show ?thesis using Inr p Suc mark_checked_node by (auto simp: Let_def)
  qed
qed simp

lemma empty_node: "node_db net empty_db"
  using empty_db_keys by (simp add: node_db_def aligned_def paid_mainnet_def empty_db_def)


lemma SyncPendingTransactions_node:
  "node_db (ch_network env) d \<Longrightarrow> node_db (ch_network env) (outcome_db (SyncPendingTransactions env d))"
  unfolding SyncPendingTransactions_def by (rule pending_loop_node)

section \<open>The awareness tables\<close>

definition marks_ok :: "awareness_db \<Rightarrow> bool" where
  "marks_ok a \<longleftrightarrow> unique_rows lm_clash (local_marks a) \<and> unique_rows pm_clash (peer_marks a) \<and> unique_rows pn_clash (peer_nodes a)
     \<and> list_all (\<lambda>r. lm_mark r \<in> set validMarks \<and> lm_category r \<in> set validCategories) (local_marks a)
     \<and> list_all (\<lambda>r. pm_mark r \<in> set validMarks) (peer_marks a)"

named_theorems marks

lemma AddLocalMark_marks [marks]: "marks_ok a \<Longrightarrow> AddLocalMark now b p n m c r a = Inr a' \<Longrightarrow> marks_ok a'"
  by (auto simp: AddLocalMark_def marks_ok_def lm_table.unique_replace lm_table.replace_set list_all_iff split: if_splits)

lemma AddPeerMark_marks [marks]: "marks_ok a \<Longrightarrow> AddPeerMark now b p n k m c r a = Inr a' \<Longrightarrow> marks_ok a'"
  by (auto simp: AddPeerMark_def marks_ok_def pm_table.unique_replace pm_table.replace_set list_all_iff split: if_splits)

lemma delete_marks:
  "marks_ok a \<Longrightarrow> marks_ok (DeleteLocalMark b p n a)" "marks_ok a \<Longrightarrow> marks_ok (ClearLocalMarks a)"
  "marks_ok a \<Longrightarrow> marks_ok (ClearPeerMarksForPeer k a)" "marks_ok a \<Longrightarrow> marks_ok (RemoveDeadPeers m a)"
  by (auto simp: marks_ok_def DeleteLocalMark_def ClearLocalMarks_def ClearPeerMarksForPeer_def RemoveDeadPeers_def
      delete_where_def list_all_iff unique_rows_def sorted_wrt_filter)

lemma peer_mark_step_marks: "marks_ok (snd st) \<Longrightarrow> marks_ok (snd (peer_mark_step now k t st))"
  using AddPeerMark_marks by (auto simp: peer_mark_step_def split: option.splits sum.splits)

lemma local_mark_step_marks: "marks_ok (snd st) \<Longrightarrow> marks_ok (snd (local_mark_step now t st))"
  using AddLocalMark_marks by (auto simp: local_mark_step_def split: option.splits sum.splits)

lemma list_marks: "marks_ok a \<Longrightarrow> marks_ok (snd (parseDNNAwarenessEvent now ev k a))"
proof -
  have "marks_ok (snd (foldl (\<lambda>st t. peer_mark_step now k t st) st ts))" if "marks_ok (snd st)" for st ts
    using that by (induction ts arbitrary: st) (auto simp: peer_mark_step_marks)
  then show "marks_ok a \<Longrightarrow> ?thesis" by (simp add: parseDNNAwarenessEvent_def delete_marks)
qed

lemma peers_marks [marks]: "marks_ok a \<Longrightarrow> marks_ok (syncPeerAwareness now evs authors a)"
  unfolding syncPeerAwareness_def
  by (induction authors arbitrary: a) (auto simp: list_marks split: option.splits)

lemma own_marks [marks]: "marks_ok a \<Longrightarrow> handleAwarenessSync now evs a = Some (n, a') \<Longrightarrow> marks_ok a'"
proof -
  have f: "marks_ok (snd (foldl (\<lambda>st t. local_mark_step now t st) st ts))" if "marks_ok (snd st)" for st ts
    using that by (induction ts arbitrary: st) (auto simp: local_mark_step_marks)
  assume m: "marks_ok a" and "handleAwarenessSync now evs a = Some (n, a')"
  then obtain ts where "foldl (\<lambda>st t. local_mark_step now t st) (0, ClearLocalMarks a) ts = (n, a')"
    by (auto simp: handleAwarenessSync_def split: option.splits)
  then show ?thesis using f[of "(0, ClearLocalMarks a)" ts] delete_marks(2)[OF m] by (metis snd_conv)
qed

lemma health_marks [marks]: "marks_ok a \<Longrightarrow> marks_ok (runPeerHealthChecks now probe a)"
proof -
  have "local_marks (foldl (\<lambda>d peer. UpdatePeerHealthCheck now (pn_address peer) (probe (pn_address peer)) d) a ps) = local_marks a"
    "peer_marks (foldl (\<lambda>d peer. UpdatePeerHealthCheck now (pn_address peer) (probe (pn_address peer)) d) a ps) = peer_marks a"
    for ps :: "peer_node list" and a
    by (induction ps arbitrary: a) (simp_all add: UpdatePeerHealthCheck_def)
  then have "local_marks (runPeerHealthChecks now probe a) = local_marks a" "peer_marks (runPeerHealthChecks now probe a) = peer_marks a"
    by (simp_all add: runPeerHealthChecks_def RemoveDeadPeers_def Let_def)
  then show "marks_ok a \<Longrightarrow> ?thesis" by (simp add: marks_ok_def health_unique)
qed

lemma discover_addresses_marks:
  "marks_ok (sn_marks st) \<Longrightarrow> discover_addresses env announcer as st = r \<Longrightarrow> marks_ok (sn_marks (ended r)) \<and> sn_db (ended r) = sn_db st"
proof (induction as arbitrary: st)
  case (Cons x as)
  show ?case
  proof (cases "to_lower x \<in> set (map to_lower (su_AnnounceAddresses env)) \<or> PeerAddressExists x (sn_marks st)")
    case True
    then show ?thesis using Cons by simp
  next
    case False
    show ?thesis
    proof (cases "verifyNodeEndpoint env x (sn_db st)")
      case (Verified npub pubkey admin)
      let ?st = "st\<lparr>sn_marks := StorePeerNode (ch_now env) \<lparr> pn_address = x, pn_node_npub = npub, pn_node_pubkey = pubkey,
                 pn_admin_pubkey = admin, pn_announced_by = announcer, pn_is_verified = False, pn_fail_count = 0,
                 pn_last_checked = None, pn_last_seen = None, pn_discovered_at = 0 \<rparr> (sn_marks st)\<rparr>"
      have "marks_ok (sn_marks ?st)"
        using Cons.prems(1) by (auto simp: StorePeerNode_def marks_ok_def pn_table.unique_replace)
      then show ?thesis using Cons.IH[of ?st] Cons.prems(2) False Verified by simp
    qed (use Cons False in auto)
  qed
qed auto

lemma discovery_marks:
  assumes "marks_ok (sn_marks st)"
  shows "marks_ok (sn_marks (ended (handleNodeDiscoveryEvent env ev st))) \<and> sn_db (ended (handleNodeDiscoveryEvent env ev st)) = sn_db st"
  using assms discover_addresses_marks[OF assms refl, of env "ev_pubkey ev"]
  by (auto simp: handleNodeDiscoveryEvent_def Let_def split: option.splits sum.splits prod.splits) (metis ended.simps)+

section \<open>Posted events and the clean-up\<close>

lemma delete_event_keys:
  "db_keys d \<Longrightarrow> db_keys (DeleteEventByID k i d)" "db_keys d \<Longrightarrow> db_keys (DeleteEventsByDTag p k t d)"
  by (simp_all add: db_keys_def DeleteEventByID_def DeleteEventsByDTag_def id_table.unique_delete anchor_table.unique_delete)

lemma make_room_keys: "db_keys d \<Longrightarrow> db_keys (make_room ev d)"
  by (rule make_room_induct) (auto intro: delete_event_keys)

lemma make_room_chain:
  "dnn_blocks (make_room ev d) = dnn_blocks d \<and> bitcoin_transactions (make_room ev d) = bitcoin_transactions d"
  by (rule make_room_induct) (auto simp: DeleteEventByID_def DeleteEventsByDTag_def)

lemma node_same_chain:
  "node_db net d \<Longrightarrow> dnn_blocks d' = dnn_blocks d \<Longrightarrow> bitcoin_transactions d' = bitcoin_transactions d \<Longrightarrow> db_keys d' \<Longrightarrow> node_db net d'"
  by (simp add: node_db_def aligned_def paid_mainnet_def)

lemma post_anchor_node: "node_db net d \<Longrightarrow> node_db net (snd (post_anchor env ev d))"
proof -
  assume n: "node_db net d"
  then have "db_keys d" by (simp add: node_db_def)
  then show ?thesis
    using n hooked_keys node_kept[OF n hooked_kept]
    by (auto simp: post_anchor_def Let_def split: sum.splits db_error.splits)
qed

lemma stored_node:
  assumes "node_db net d"
  shows "node_db net (StoreNameEvent ev d)" "node_db net (StoreConnectionEvent ev d)" "node_db net (StoreMetadataEvent ev d)"
proof -
  have d: "db_keys d" using assms by (simp add: node_db_def)
  show "node_db net (StoreNameEvent ev d)" "node_db net (StoreConnectionEvent ev d)" "node_db net (StoreMetadataEvent ev d)"
    using store_event_keys[OF d]
    by (intro node_same_chain[OF assms]; simp add: StoreNameEvent_def StoreConnectionEvent_def StoreMetadataEvent_def)+
qed

lemma posted_node:
  assumes "node_db net d"
  shows "node_db net (fst (snd (handleStoreLocalEvent env body d)))"
proof -
  have d: "db_keys d" using assms by (simp add: node_db_def)
  have "node_db net (make_room ev d)" for ev
    using make_room_keys[OF d] by (intro node_same_chain[OF assms]) (simp_all add: make_room_chain)
  note stored_node[OF this]
  then show ?thesis
    using assms post_anchor_node[OF assms] by (auto simp: handleStoreLocalEvent_def split: option.splits prod.splits) (metis snd_conv)+
qed

lemma selects_unique: "selects t u \<Longrightarrow> unique_rows clash t \<Longrightarrow> unique_rows clash u"
  by (auto simp: selects_def unique_rows_def sorted_wrt_filter)

lemma cleanup_node:
  assumes "node_db net d"
  shows "node_db net (RunEventCleanup decode c d)"
proof (rule node_same_chain[OF assms])
  have "db_keys d" using assms by (simp add: node_db_def)
  then show "db_keys (RunEventCleanup decode c d)"
    by (simp add: RunEventCleanup_def Let_def db_keys_def selects_unique[OF clean_selects])
qed (simp_all add: RunEventCleanup_def Let_def)

section \<open>Events of the subscriptions\<close>

lemma store_for_transaction_node:
  assumes "node_db net d"
  shows "node_db net (ended (map_sum id snd (store_for_transaction env explicitly ev d)))"
proof -
  let ?hook = "fetchAndStoreReferencedEvents (sy_nip19 env) (sy_remote env)"
  have k: "db_keys d" using assms by (simp add: node_db_def)
  have "node_db net d' \<and> node_db net (?hook ev d')" if h: "StoreAnchorEventHooked ?hook ev b n p d = Inr d'" for b n p d'
  proof -
    have "node_db net d'" using node_kept[OF assms hooked_kept[OF h] hooked_keys[OF k h]] .
    then show ?thesis using node_kept[OF _ fetch_kept fetch_keys] by (simp add: node_db_def)
  qed
  then show ?thesis
    using assms by (auto simp: store_for_transaction_def Let_def split: option.splits sum.splits db_error.splits)
qed

lemma propagation_node:
  assumes "node_db net d"
  shows "node_db net (ended (handlePropagationEvent env ev d))"
  using assms store_for_transaction_node[OF assms]
  by (auto simp: handlePropagationEvent_def split: option.splits prod.splits)

lemma rebroadcast_keeps:
  "sn_db (snd (rebroadcastEvent env ev st)) = sn_db st" "sn_marks (snd (rebroadcastEvent env ev st)) = sn_marks st"
  by (simp_all add: rebroadcastEvent_def Let_def)

lemma update_node:
  assumes "node_db net (sn_db st)" "marks_ok (sn_marks st)" "s' = ended (map_sum id snd (handleEventUpdate env ev st))"
  shows "node_db net (sn_db s') \<and> marks_ok (sn_marks s')"
proof -
  have "node_db net (sn_db (ended (map_sum id snd (store_update env ev st)))) \<and> marks_ok (sn_marks (ended (map_sum id snd (store_update env ev st))))"
    using assms(1,2) stored_node[OF assms(1)] store_for_transaction_node[OF assms(1), of env True ev]
      propagation_node[OF assms(1), of env ev] discovery_marks[OF assms(2), of env ev]
    by (auto simp: store_update_def split: sum.splits)
  then show ?thesis
    unfolding assms(3) using assms(1,2) by (auto simp: handleEventUpdate_def rebroadcast_keeps split: list.splits sum.splits prod.splits)
qed

section \<open>Requests that fetch\<close>

lemma sync_event_node: "node_db net d \<Longrightarrow> node_db net (sync_event k ev d)"
  using stored_node by (simp add: sync_event_def)

lemma details_node: "node_db net d \<Longrightarrow> node_db net (snd (details_of env anchor d))"
  by (rule details_induct[where P = "node_db net"]) (simp_all add: sync_event_node)

lemma handleEventDetails_node: "node_db net d \<Longrightarrow> node_db net (snd (handleEventDetails env eventID d))"
  using details_node by (auto simp: handleEventDetails_def split: list.splits)

lemma newest_step_node:
  assumes "node_db net d" "newest_step env p (Ok (best, d)) relay = r"
  shows "node_db net (case r of Inl (_, d') \<Rightarrow> d' | Inr (_, d') \<Rightarrow> d')"
proof -
  have k: "db_keys d" using assms(1) by (simp add: node_db_def)
  have "node_db net d'" if "StoreAnchorEventHooked (fetchAndStoreReferencedEvents (env_nip19 env) (env_fetch env)) ev b n q d = Inr d'" for ev b n q d'
    using node_kept[OF assms(1) hooked_kept[OF that] hooked_keys[OF k that]] .
  then show ?thesis
    using assms by (auto simp: newest_step_def Let_def split: option.splits sum.splits db_error.splits if_splits)
qed

lemma newest_fold_node:
  "node_db net d \<Longrightarrow> node_db net (case foldl (newest_step env p) (Ok (best, d)) us of Inl (_, d') \<Rightarrow> d' | Inr (_, d') \<Rightarrow> d')"
proof (induction us arbitrary: best d)
  case (Cons u us)
  have e: "foldl (newest_step env p) (Inl x) us = Inl x" for x
    by (induction us) (simp_all add: newest_step_def)
  show ?case
    using newest_step_node[OF Cons.prems, of env p best u] Cons.IH
    by (cases "newest_step env p (Ok (best, d)) u") (auto simp: e split: prod.splits)
qed simp

lemma by_naddr_node: "node_db net d \<Longrightarrow> node_db net (snd (handleEventDetailsByNaddr env naddr d))"
proof -
  assume n: "node_db net d"
  show ?thesis
  proof (cases "has_prefix naddr ''naddr1'' \<and> env_nip19 env naddr \<noteq> None")
    case True
    then obtain p where p: "env_nip19 env naddr = Some p" by auto
    let ?s = "foldl (newest_step env p) (Ok (first_of (QueryEvents (addr_filter (na_pubkey p) (na_kind p) (na_identifier p)) d), d))
      (de_RelayURLs env)"
    have "node_db net (case ?s of Inl (_, d') \<Rightarrow> d' | Inr (_, d') \<Rightarrow> d')" by (rule newest_fold_node[OF n])
    moreover have "node_db net e \<Longrightarrow> node_db net e'" if "details_of env anchor e = (x, e')" for anchor e x e'
      using details_node[of net e env anchor] that by simp
    ultimately show ?thesis
      using True p by (auto simp: handleEventDetailsByNaddr_def Let_def split: sum.splits prod.splits option.splits)
  qed (use n in \<open>auto simp: handleEventDetailsByNaddr_def\<close>)
qed

section \<open>A whole round of the synchroniser\<close>

lemma announce_node: "node_db net d \<Longrightarrow> node_db net (snd (publishNodeAnnouncement env conns now later d))"
  by (simp add: publishNodeAnnouncement_def Let_def state_node split: option.split)

lemma peer_events_node: "node_db net d \<Longrightarrow> node_db net (foldl store_peer_event d events)"
proof (induction events arbitrary: d)
  case (Cons ev events)
  have k: "db_keys d" using Cons.prems by (simp add: node_db_def)
  have "node_db net (store_peer_event d ev)"
    using Cons.prems node_kept[OF Cons.prems] store_event_kept store_event_keys[of d ev] k
    by (simp add: store_peer_event_def)
  then show ?case using Cons.IH by simp
qed simp

lemma performSync_node:
  fixes env :: service_env
  assumes "node_db (ch_network env) (sn_db (sv_core s))" "marks_ok (sn_marks (sv_core s))"
  shows "node_db (ch_network env) (sn_db (sv_core (ended (performSync env s)))) \<and> marks_ok (sn_marks (sv_core (ended (performSync env s))))"
proof -
  let ?e = "sync_env.truncate env" and ?s = "s\<lparr>sv_syncing := True\<rparr>"
  have net: "ch_network ?e = ch_network env" by (simp add: sync_env.truncate_def)
  have m: "marks_ok (sync_awareness env a)" if "marks_ok a" for a
    using that by (simp add: sync_awareness_def Let_def peers_marks)
  have r: "node_db (ch_network env) (outcome_db (bitcoin_round env (sn_db (sv_core s))))"
    using assms(1) syncBitcoin_node[of ?e "sn_db (sv_core s)"] unfolding net
    by (auto simp: bitcoin_round_def outcome_db_def split: prod.splits sync_result.splits)
  show ?thesis
  proof (cases "sv_syncing s")
    case False
    show ?thesis
    proof (cases "bitcoin_round env (sn_db (sv_core s))")
      case (Inl d)
      then show ?thesis using False r assms(2) by (simp add: performSync_def Let_def with_db_def outcome_db_def)
    next
      case (Inr d1)
      then have p: "node_db (ch_network env) (outcome_db (SyncPendingTransactions ?e d1))"
        using r SyncPendingTransactions_node[of ?e d1] by (simp add: net outcome_db_def)
      show ?thesis
      proof (cases "SyncPendingTransactions ?e d1")
        case (Inl d)
        then show ?thesis using False \<open>bitcoin_round _ _ = _\<close> p assms(2) by (simp add: performSync_def Let_def with_db_def outcome_db_def)
      next
        case i: (Inr d2)
        let ?t = "syncPeers env (with_db d2 ?s)"
        obtain events where "sn_db (sv_core ?t) = foldl store_peer_event d2 events"
          using syncPeers_core(1)[of env "with_db d2 ?s"] by (auto simp: with_db_def)
        then have "node_db (ch_network env) (sn_db (sv_core ?t))" using p i peer_events_node by (simp add: outcome_db_def)
        moreover have "marks_ok (sn_marks (sv_core ?t))" using syncPeers_core(2)[of env "with_db d2 ?s"] assms(2) by (simp add: with_db_def)
        ultimately show ?thesis
          using False \<open>bitcoin_round _ _ = _\<close> i m by (simp add: performSync_def Let_def with_marks_def)
      qed
    qed
  qed (use assms in \<open>simp add: performSync_def\<close>)
qed

section \<open>The running node\<close>

text \<open>
  One step of a node of network \<open>net\<close>: an operation of a relay connection, of the synchroniser (its
  runs, and an event that a subscription delivers), of the awareness and peer code, an event posted
  over HTTP, a request that fetches from relays or the clean-up at start-up, on the state they share.  What the outside world answers (the
  chain, the other relays, the clock, the probes) is chosen anew in every step.
\<close>

inductive node_step :: "string \<Rightarrow> relay_state \<Rightarrow> relay_state \<Rightarrow> bool" for net where
  publish: "node_step net st (snd (handleEvent env pe conn ev st))"
| subscribe: "node_step net st (snd (handleRequest env conn subID filters st))"
| unsubscribe: "node_step net st (handleClose subID st)"
| sync: "ch_network env = net \<Longrightarrow> node_step net st (st\<lparr>rs_db := snd (syncBitcoin env (rs_db st))\<rparr>)"
| sync_block: "ch_network env = net \<Longrightarrow> node_step net st (st\<lparr>rs_db := snd (SyncSpecificBlock env b (rs_db st))\<rparr>)"
| sync_tx: "ch_network env = net \<Longrightarrow> node_step net st (st\<lparr>rs_db := snd (SyncSpecificTransaction env x (rs_db st))\<rparr>)"
| pending: "ch_network env = net \<Longrightarrow> node_step net st (st\<lparr>rs_db := outcome_db (SyncPendingTransactions env (rs_db st))\<rparr>)"
| mark: "AddLocalMark now b p n m c r (rs_marks st) = Inr a \<Longrightarrow> node_step net st (st\<lparr>rs_marks := a\<rparr>)"
| unmark: "node_step net st (st\<lparr>rs_marks := DeleteLocalMark b p n (rs_marks st)\<rparr>)"
| own_list: "handleAwarenessSync now evs (rs_marks st) = Some (k, a) \<Longrightarrow> node_step net st (st\<lparr>rs_marks := a\<rparr>)"
| peer_lists: "node_step net st (st\<lparr>rs_marks := syncPeerAwareness now evs authors (rs_marks st)\<rparr>)"
| health: "node_step net st (st\<lparr>rs_marks := runPeerHealthChecks now probe (rs_marks st)\<rparr>)"
| post: "node_step net st (st\<lparr>rs_db := fst (snd (handleStoreLocalEvent env body (rs_db st)))\<rparr>)"
| cleanup: "node_step net st (st\<lparr>rs_db := RunEventCleanup decode checkerOfAddresses (rs_db st)\<rparr>)"
| discovery: "sn_marks s = rs_marks st \<Longrightarrow> node_step net st (st\<lparr>rs_marks := sn_marks (ended (handleNodeDiscoveryEvent env ev s))\<rparr>)"
| details: "node_step net st (st\<lparr>rs_db := snd (handleEventDetails (env :: details_env) eventID (rs_db st))\<rparr>)"
| details_by_naddr: "node_step net st (st\<lparr>rs_db := snd (handleEventDetailsByNaddr (env :: details_env) naddr (rs_db st))\<rparr>)"
| update: "sn_db s = rs_db st \<Longrightarrow> sn_marks s = rs_marks st \<Longrightarrow> s' = ended (map_sum id snd (handleEventUpdate env ev s)) \<Longrightarrow>
    node_step net st (st\<lparr>rs_db := sn_db s', rs_marks := sn_marks s'\<rparr>)"
| round: "ch_network env = net \<Longrightarrow> sn_db (sv_core s) = rs_db st \<Longrightarrow> sn_marks (sv_core s) = rs_marks st \<Longrightarrow>
    s' = sv_core (ended (performSync env s)) \<Longrightarrow> node_step net st (st\<lparr>rs_db := sn_db s', rs_marks := sn_marks s'\<rparr>)"
| announce: "node_step net st (st\<lparr>rs_db := snd (publishNodeAnnouncement aenv conns now later (rs_db st))\<rparr>)"

inductive_cases node_stepE: "node_step net st st'"

definition empty_marks :: awareness_db where
  "empty_marks = \<lparr> local_marks = [], peer_marks = [], peer_nodes = [] \<rparr>"

definition initial_state :: relay_state where
  "initial_state = \<lparr> rs_db = empty_db, rs_marks = empty_marks, rs_subs = [] \<rparr>"

inductive reachable :: "string \<Rightarrow> relay_state \<Rightarrow> bool" for net where
  start: "reachable net initial_state"
| step: "reachable net st \<Longrightarrow> node_step net st st' \<Longrightarrow> reachable net st'"

definition node_ok :: "string \<Rightarrow> relay_state \<Rightarrow> bool" where
  "node_ok net st \<longleftrightarrow> node_db net (rs_db st) \<and> marks_ok (rs_marks st) \<and> distinct (map fst (rs_subs st))"

lemma handleEvent_others:
  "rs_marks (snd (handleEvent env pe conn ev st)) = rs_marks st"
  "rs_subs (snd (handleEvent env pe conn ev st)) = rs_subs st"
  by (auto simp: handleEvent_def Let_def split: option.splits sum.splits anchor_error.splits db_error.splits)

lemma distinct_filter_keys: "distinct (map fst m) \<Longrightarrow> distinct (map fst (filter P m))"
  by (induction m) auto

lemma node_step_ok:
  assumes "node_step net st st'" "node_ok net st"
  shows "node_ok net st'"
  using assms
proof (cases rule: node_step.cases)
  case (publish env pe conn ev)
  then show ?thesis using assms(2) handleEvent_node by (simp add: node_ok_def handleEvent_others)
next
  case (subscribe env conn subID filters)
  then show ?thesis
    using assms(2) distinct_filter_keys by (auto simp: node_ok_def handleRequest_def Let_def map_put_def)
next
  case (update s s' env ev)
  then show ?thesis using assms(2) update_node[OF _ _ update(4), of net] by (simp add: node_ok_def)
next
  case (discovery s env ev)
  then show ?thesis using assms(2) discovery_marks[of s env ev] by (simp add: node_ok_def)
next
  case (round env s s')
  then show ?thesis using assms(2) performSync_node[of env s] by (simp add: node_ok_def)
next
  case (announce aenv conns now later)
  then show ?thesis using assms(2) announce_node by (simp add: node_ok_def)
qed (use assms(2) syncBitcoin_node SyncSpecificBlock_node SyncSpecificTransaction_node SyncPendingTransactions_node posted_node cleanup_node
    handleEventDetails_node by_naddr_node in
  \<open>auto simp: node_ok_def handleClose_def distinct_filter_keys intro: marks delete_marks\<close>)

lemma initial_ok: "node_ok net initial_state"
  using empty_node by (simp add: node_ok_def initial_state_def marks_ok_def empty_marks_def unique_rows_def)

lemma reachable_ok: "reachable net st \<Longrightarrow> node_ok net st"
  by (induction rule: reachable.induct) (use initial_ok node_step_ok in blast)+

end
