(* ===== verification/Wire.thy ===== *)
theory Wire
  imports Ordering Address
begin

text \<open>
  The part of \<^verbatim>\<open>src/internal/bitcoin/p2p_client.go\<close> that turns the messages of Bitcoin peers into
  the blocks the node works with: the checks of headers and of the merkle root, and the conversion
  of transactions, in which the address of an input comes from its witness.  The third-party
  packages \<^verbatim>\<open>wire\<close>, \<^verbatim>\<open>chainhash\<close> and \<^verbatim>\<open>txscript\<close> are the fields of \<open>wire_lib\<close>, next to those of
  \<open>btc_lib\<close>.  Sizes, weights and values of transactions, which nothing in the node reads, are left
  out.
\<close>

section \<open>Messages\<close>

record header =
  hd_PrevBlock :: "nat list"
  hd_MerkleRoot :: "nat list"
  hd_Timestamp :: int
  hd_Rest :: "nat list"

record wire_in =
  wi_Hash :: "nat list"
  wi_Index :: int
  wi_SignatureScript :: "nat list"
  wi_Witness :: "nat list list"

record wire_out =
  wo_Value :: int
  wo_PkScript :: "nat list"

record wire_tx =
  wt_In :: "wire_in list"
  wt_Out :: "wire_out list"

record msg_block =
  mb_Header :: header
  mb_Transactions :: "wire_tx list"

text \<open>\<^verbatim>\<open>ExtractPkScriptAddrs\<close>: the class of a script, and its addresses unless it reports an error.\<close>

record 'k wire_lib = "'k btc_lib" +
  wl_BlockHash :: "header \<Rightarrow> nat list"
  wl_TxHash :: "wire_tx \<Rightarrow> nat list"
  wl_DoubleHashH :: "nat list \<Rightarrow> nat list"
  wl_ExtractPkScriptAddrs :: "nat list \<Rightarrow> chain_params \<Rightarrow> string \<times> string list option"

text \<open>\<^verbatim>\<open>Hash.String\<close>: the bytes in reverse as hexadecimal digits.\<close>

definition hash_string :: "nat list \<Rightarrow> string" where
  "hash_string h = concat (map (\<lambda>b. [''0123456789abcdef'' ! (b div 16 mod 16), ''0123456789abcdef'' ! (b mod 16)]) (rev h))"

section \<open>Headers\<close>

text \<open>The loops that count the leading zero bits of a hash, whose last byte is the most significant.\<close>

fun zero_bits :: "nat \<Rightarrow> nat list \<Rightarrow> nat" where
  "zero_bits x [] = 0"
| "zero_bits x (b # bs) = (if x div b mod 2 = 0 then 1 + zero_bits x bs else 0)"

fun leading_zeros :: "nat list \<Rightarrow> nat" where
  "leading_zeros [] = 0"
| "leading_zeros (x # xs) = (if x = 0 then 8 + leading_zeros xs else zero_bits x [128, 64, 32, 16, 8, 4, 2, 1])"

definition header_ok :: "'k wire_lib \<Rightarrow> string \<Rightarrow> header \<Rightarrow> bool" where
  "header_ok lib prevHashStr h \<longleftrightarrow>
     hash_string (hd_PrevBlock h) = prevHashStr \<and> leading_zeros (rev (wl_BlockHash lib h)) \<ge> 60"

section \<open>The merkle root\<close>

fun combine_pairs :: "(nat list \<Rightarrow> nat list) \<Rightarrow> nat list list \<Rightarrow> nat list list" where
  "combine_pairs H (a # b # hs) = H (a @ b) # combine_pairs H hs"
| "combine_pairs H hs = []"

definition even_out :: "nat list list \<Rightarrow> nat list list" where
  "even_out hashes = (if length hashes mod 2 \<noteq> 0 then hashes @ [last hashes] else hashes)"

lemma combine_pairs_length [simp]: "length (combine_pairs H hs) = length hs div 2"
  by (induction H hs rule: combine_pairs.induct) auto

lemma even_out_length: "length (even_out hs) = length hs + length hs mod 2"
  by (auto simp: even_out_def)

function calcMerkleRoot :: "(nat list \<Rightarrow> nat list) \<Rightarrow> nat list list \<Rightarrow> nat list" where
  "calcMerkleRoot H hashes =
     (if hashes = [] then replicate 32 0
      else if length hashes > 1 then calcMerkleRoot H (combine_pairs H (even_out hashes))
      else hashes ! 0)"
  by auto
termination
  by (relation "measure (\<lambda>(_, hs). length hs)") (auto simp: even_out_length)

declare calcMerkleRoot.simps [simp del]

definition validateBlockMerkleRoot :: "'k wire_lib \<Rightarrow> msg_block \<Rightarrow> bool" where
  "validateBlockMerkleRoot lib m \<longleftrightarrow> mb_Transactions m \<noteq> []
     \<and> calcMerkleRoot (wl_DoubleHashH lib) (map (wl_TxHash lib) (mb_Transactions m)) = hd_MerkleRoot (mb_Header m)"

section \<open>Conversion\<close>

definition deriveP2WPKHAddressFromPubkey :: "'k wire_lib \<Rightarrow> chain_params \<Rightarrow> nat list \<Rightarrow> string" where
  "deriveP2WPKHAddressFromPubkey lib network compressedPubkey =
     (if length compressedPubkey \<noteq> 33 then []
      else case bl_WitnessPubKeyHash lib (bl_Hash160 lib compressedPubkey) network of None \<Rightarrow> [] | Some a \<Rightarrow> a)"

definition convert_input :: "'k wire_lib \<Rightarrow> chain_params \<Rightarrow> wire_in \<Rightarrow> tx_input" where
  "convert_input lib network txIn =
     \<lparr> in_TxID = hash_string (wi_Hash txIn), in_Vout = wi_Index txIn,
       in_Address = (if length (wi_Witness txIn) = 2 \<and> length (wi_Witness txIn ! 1) = 33
                     then deriveP2WPKHAddressFromPubkey lib network (wi_Witness txIn ! 1) else []) \<rparr>"

definition convert_output :: "'k wire_lib \<Rightarrow> chain_params \<Rightarrow> wire_out \<Rightarrow> script_pub_key" where
  "convert_output lib network txOut =
     (case wl_ExtractPkScriptAddrs lib (wo_PkScript txOut) network of
        (c, Some (a # as)) \<Rightarrow> \<lparr> spk_Type = c, spk_Addresses = a # as, spk_Address = a \<rparr>
      | (c, _) \<Rightarrow> \<lparr> spk_Type = c, spk_Addresses = [], spk_Address = [] \<rparr>)"

definition convertWireTransaction :: "'k wire_lib \<Rightarrow> chain_params \<Rightarrow> wire_tx \<Rightarrow> btc_tx" where
  "convertWireTransaction lib network msgTx =
     \<lparr> tx_TxID = hash_string (wl_TxHash lib msgTx),
       tx_Inputs = map (convert_input lib network) (wt_In msgTx),
       tx_Outputs = map (convert_output lib network) (wt_Out msgTx) \<rparr>"

definition convertWireBlock :: "'k wire_lib \<Rightarrow> chain_params \<Rightarrow> msg_block \<Rightarrow> string \<Rightarrow> int \<Rightarrow> btc_block" where
  "convertWireBlock lib network m hash height =
     \<lparr> bk_Hash = hash, bk_Height = height, bk_Time = hd_Timestamp (mb_Header m),
       bk_Transactions = map (convertWireTransaction lib network) (mb_Transactions m) \<rparr>"

section \<open>The proof-of-work check\<close>

text \<open>The number that the bytes of a reversed hash denote, most significant byte first.\<close>

fun be_value :: "nat list \<Rightarrow> nat" where
  "be_value [] = 0"
| "be_value (x # xs) = x * 2 ^ (8 * length xs) + be_value xs"

lemma be_value_bound: "list_all (\<lambda>x. x < 256) xs \<Longrightarrow> be_value xs < 2 ^ (8 * length xs)"
proof (induction xs)
  case (Cons x xs)
  have "x * 2 ^ (8 * length xs) + be_value xs < (x + 1) * 2 ^ (8 * length xs)" using Cons by simp
  also have "\<dots> \<le> 256 * 2 ^ (8 * length xs)" using Cons.prems by (intro mult_right_mono) auto
  finally show ?case by (simp add: power_add)
qed simp

lemma zero_bits_byte:
  assumes "0 < x" "x < 256"
  defines "n \<equiv> zero_bits x [128, 64, 32, 16, 8, 4, 2, 1]"
  shows "n < 8" "2 ^ (7 - n) \<le> x" "x < 2 ^ (8 - n)"
proof -
  have "list_all (\<lambda>x. zero_bits x [128, 64, 32, 16, 8, 4, 2, 1] < 8 \<and> 2 ^ (7 - zero_bits x [128, 64, 32, 16, 8, 4, 2, 1]) \<le> x
      \<and> x < 2 ^ (8 - zero_bits x [128, 64, 32, 16, 8, 4, 2, 1])) [1..<256]"
    by code_simp
  moreover have "x \<in> set [1..<256]" using assms by simp
  ultimately show "n < 8" "2 ^ (7 - n) \<le> x" "x < 2 ^ (8 - n)" unfolding list_all_iff n_def by blast+
qed

lemma leading_zeros_bound:
  "list_all (\<lambda>x. x < 256) xs \<Longrightarrow> k \<le> 8 * length xs \<Longrightarrow> k \<le> leading_zeros xs \<longleftrightarrow> be_value xs < 2 ^ (8 * length xs - k)"
proof (induction xs arbitrary: k)
  case (Cons x xs)
  let ?L = "8 * length xs"
  have r: "be_value xs < 2 ^ ?L" using Cons.prems(1) by (intro be_value_bound) simp
  show ?case
  proof (cases "x = 0")
    case True
    show ?thesis
    proof (cases "k \<le> 8")
      case True
      then have "(2::nat) ^ ?L \<le> 2 ^ (8 * length (x # xs) - k)" by (intro power_increasing) auto
      then have "be_value (x # xs) < 2 ^ (8 * length (x # xs) - k)" using \<open>x = 0\<close> order_less_le_trans[OF r] by simp
      then show ?thesis using \<open>x = 0\<close> True by simp
    next
      case False
      then have "8 * length (x # xs) - k = ?L - (k - 8)" "k - 8 \<le> ?L" using Cons.prems(2) by auto
      then show ?thesis using Cons.IH[of "k - 8"] Cons.prems(1) True False by auto
    qed
  next
    case False
    define n where "n = zero_bits x [128, 64, 32, 16, 8, 4, 2, 1]"
    have "0 < x" "x < 256" using False Cons.prems(1) by auto
    then have n: "n < 8" "2 ^ (7 - n) \<le> x" "x < 2 ^ (8 - n)" unfolding n_def by (rule zero_bits_byte)+
    have lz: "leading_zeros (x # xs) = n" unfolding n_def leading_zeros.simps using False by (rule if_not_P)
    show ?thesis
    proof (cases "k \<le> n")
      case True
      have "be_value (x # xs) < (x + 1) * 2 ^ ?L" using r by simp
      also have "\<dots> \<le> 2 ^ (8 - n) * 2 ^ ?L" using n(3) by (intro mult_right_mono) auto
      also have "\<dots> = 2 ^ (8 - n + ?L)" by (simp add: power_add)
      also have "\<dots> \<le> 2 ^ (8 * length (x # xs) - k)" using True n(1) by (intro power_increasing) auto
      finally show ?thesis using True lz by simp
    next
      case F: False
      have "(2::nat) ^ (8 * length (x # xs) - k) \<le> 2 ^ (7 - n + ?L)"
        using F n(1) Cons.prems(2) by (intro power_increasing) auto
      also have "\<dots> = 2 ^ (7 - n) * 2 ^ ?L" by (simp add: power_add)
      also have "\<dots> \<le> x * 2 ^ ?L" using n(2) by (intro mult_right_mono) auto
      finally show ?thesis using F lz by simp
    qed
  qed
qed simp

section \<open>Merkle roots\<close>

text \<open>Two different inputs with the same hash.\<close>

definition collision :: "(nat list \<Rightarrow> nat list) \<Rightarrow> bool" where
  "collision H \<longleftrightarrow> (\<exists>u v. u \<noteq> v \<and> H u = H v)"

lemma combine_pairs_inj:
  assumes "length xs = length ys" "even (length xs)" "\<forall>h\<in>set xs \<union> set ys. length h = n" "combine_pairs H xs = combine_pairs H ys"
    "\<not> collision H"
  shows "xs = ys"
  using assms(1-4)
proof (induction xs arbitrary: ys rule: induct_list012)
  case (3 a b hs)
  then have l: "length ys = Suc (Suc (length hs))" by simp
  then obtain c d gs where y: "ys = c # d # gs" by (metis length_Suc_conv)
  have "H (a @ b) = H (c @ d)" using 3(6) y by simp
  then have "a @ b = c @ d" using assms(5) unfolding collision_def by blast
  moreover have "length a = length c" using 3(5) y by simp
  ultimately have "a = c" "b = d" by simp_all
  moreover have "hs = gs" using 3(1)[of gs] 3(3-6) y by simp
  ultimately show ?case using y by simp
next
  case (2 x)
  from 2(2) show ?case by simp
qed simp

lemma even_out_inj:
  assumes "length xs = length ys" "even_out xs = even_out ys"
  shows "xs = ys"
  using assms by (auto simp: even_out_def split: if_splits)

lemma even_out_members: "set (even_out xs) = set xs"
  by (auto simp: even_out_def intro!: last_in_set)

lemma combine_pairs_members: "h \<in> set (combine_pairs H xs) \<Longrightarrow> \<exists>u. h = H u"
  by (induction H xs rule: combine_pairs.induct) auto

lemma merkle_step: "length hs > 1 \<Longrightarrow> calcMerkleRoot H hs = calcMerkleRoot H (combine_pairs H (even_out hs))"
  by (subst calcMerkleRoot.simps) auto

lemma merkle_single: "calcMerkleRoot H [h] = h"
  by (simp add: calcMerkleRoot.simps)

lemma merkle_inj:
  assumes "\<not> collision H" "\<forall>u. length (H u) = n"
  shows "length xs = length ys \<Longrightarrow> \<forall>h\<in>set xs \<union> set ys. length h = n \<Longrightarrow>
    calcMerkleRoot H xs = calcMerkleRoot H ys \<Longrightarrow> xs = ys"
proof (induction "length xs" arbitrary: xs ys rule: less_induct)
  case less
  show ?case
  proof (cases "length xs > 1")
    case True
    let ?c = "\<lambda>hs. combine_pairs H (even_out hs)"
    have "calcMerkleRoot H (?c xs) = calcMerkleRoot H (?c ys)"
      using less.prems True merkle_step[of xs H] merkle_step[of ys H] by simp
    moreover have "length (?c xs) < length xs" "length (?c xs) = length (?c ys)"
      using less.prems(1) True by (auto simp: even_out_length)
    moreover have "\<forall>h\<in>set (?c xs) \<union> set (?c ys). length h = n"
      using combine_pairs_members assms(2) by (metis UnE)
    ultimately have "?c xs = ?c ys" using less.hyps by blast
    then have "even_out xs = even_out ys"
      using combine_pairs_inj[of "even_out xs" "even_out ys" n H] less.prems(1,2) assms(1)
      by (simp add: even_out_members even_out_length)
    then show ?thesis using even_out_inj less.prems(1) by blast
  next
    case False
    then consider "xs = []" "ys = []" | x y where "xs = [x]" "ys = [y]"
      using less.prems(1) by (cases xs; cases ys) auto
    then show ?thesis using less.prems(3) by cases (auto simp: merkle_single)
  qed
qed

text \<open>Repeating the last of an odd number of hashes changes nothing above one level.\<close>

lemma merkle_repeat: "length hs > 1 \<Longrightarrow> odd (length hs) \<Longrightarrow> calcMerkleRoot H (hs @ [last hs]) = calcMerkleRoot H hs"
  using merkle_step[of hs H] merkle_step[of "hs @ [last hs]" H] by (cases hs) (auto simp: even_out_def odd_iff_mod_2_eq_one)

section \<open>Properties\<close>

text \<open>
  A header is accepted after another one exactly when it names that one as its predecessor and
  its hash, read as a number, is below 2^196: this is what sixty leading zero bits mean.
\<close>

lemma pow_check_is_a_bound:
  assumes "length (wl_BlockHash lib h) = 32" "list_all (\<lambda>b. b < 256) (wl_BlockHash lib h)"
  shows "header_ok lib prevHashStr h \<longleftrightarrow>
    hash_string (hd_PrevBlock h) = prevHashStr \<and> be_value (rev (wl_BlockHash lib h)) < 2 ^ 196"
  using leading_zeros_bound[of "rev (wl_BlockHash lib h)" 60] assms by (simp add: header_ok_def list_all_iff)


text \<open>
  The number of transactions is not bound: when a block with an odd number of transactions, more
  than one, passes the check, so does the block that repeats its last transaction.
\<close>

lemma repeated_transaction_passes:
  assumes "validateBlockMerkleRoot lib m" "length (mb_Transactions m) > 1" "odd (length (mb_Transactions m))"
  shows "validateBlockMerkleRoot lib (m\<lparr>mb_Transactions := mb_Transactions m @ [last (mb_Transactions m)]\<rparr>)"
proof -
  have "map (wl_TxHash lib) (mb_Transactions m @ [last (mb_Transactions m)])
      = map (wl_TxHash lib) (mb_Transactions m) @ [last (map (wl_TxHash lib) (mb_Transactions m))]"
    using assms(2) by (cases "mb_Transactions m" rule: rev_cases) simp_all
  then show ?thesis
    using assms merkle_repeat[of "map (wl_TxHash lib) (mb_Transactions m)" "wl_DoubleHashH lib"]
    by (simp add: validateBlockMerkleRoot_def)
qed

text \<open>
  \<^verbatim>\<open>TxHash\<close> is documented to leave the witness out.
\<close>

definition with_witness :: "(wire_in \<Rightarrow> nat list list) \<Rightarrow> wire_tx \<Rightarrow> wire_tx" where
  "with_witness w tx = tx\<lparr>wt_In := map (\<lambda>i. i\<lparr>wi_Witness := w i\<rparr>) (wt_In tx)\<rparr>"

definition hash_ignores_witness :: "'k wire_lib \<Rightarrow> bool" where
  "hash_ignores_witness lib \<longleftrightarrow> (\<forall>w tx. wl_TxHash lib (with_witness w tx) = wl_TxHash lib tx)"

text \<open>
  C40. The merkle check does not protect what makes a DNN transaction.  Take any block that passes
  it and any transaction in it whose outputs all pay one P2WPKH address: with the witnesses of
  that transaction replaced by the public key of the address, the block still passes, has the same
  header and the same transaction ids, and the transaction counts as a self-transfer.
\<close>

theorem witnesses_are_not_checked:
  assumes "hash_ignores_witness lib" "validateBlockMerkleRoot lib m" "k < length (mb_Transactions m)"
    and "wt_In (mb_Transactions m ! k) \<noteq> []" "wt_Out (mb_Transactions m ! k) \<noteq> []"
    and "\<forall>out\<in>set (wt_Out (mb_Transactions m ! k)).
      wl_ExtractPkScriptAddrs lib (wo_PkScript out) net = (''witness_v0_keyhash'', Some [a])"
    and "deriveP2WPKHAddressFromPubkey lib net pk = a" "has_prefix (to_lower a) ''bc1q''" "length pk = 33"
  shows "\<exists>m'. mb_Header m' = mb_Header m \<and> validateBlockMerkleRoot lib m'
    \<and> map (wl_TxHash lib) (mb_Transactions m') = map (wl_TxHash lib) (mb_Transactions m)
    \<and> isValidDNNTransaction (convertWireTransaction lib net (mb_Transactions m' ! k)) = Some a"
proof -
  let ?tx = "mb_Transactions m ! k"
  let ?tx' = "with_witness (\<lambda>_. [[], pk]) ?tx"
  let ?m = "m\<lparr>mb_Transactions := (mb_Transactions m)[k := ?tx']\<rparr>"
  have h: "map (wl_TxHash lib) (mb_Transactions ?m) = map (wl_TxHash lib) (mb_Transactions m)"
    using assms(1,3) by (simp add: map_update hash_ignores_witness_def) (metis list_update_id nth_map)
  then have v: "validateBlockMerkleRoot lib ?m"
    using assms(2) by (auto simp: validateBlockMerkleRoot_def)
  have a: "a \<noteq> []" using assms(8) by (auto simp: has_prefix_def to_lower_def)
  let ?t = "convertWireTransaction lib net ?tx'"
  have "in_Address ` set (tx_Inputs ?t) \<subseteq> {a}"
    using assms(7,9) by (auto simp: convertWireTransaction_def with_witness_def convert_input_def)
  moreover have o: "\<forall>out\<in>set (tx_Outputs ?t). spk_Type out = ''witness_v0_keyhash'' \<and> output_addresses out = [a]"
    using assms(6) by (auto simp: convertWireTransaction_def with_witness_def convert_output_def output_addresses_def)
  moreover have ne: "tx_Inputs ?t \<noteq> []" "tx_Outputs ?t \<noteq> []"
    using assms(4,5) by (simp_all add: convertWireTransaction_def with_witness_def)
  moreover have "set (concat (map output_addresses (tx_Outputs ?t))) = {a}"
    "(to_lower \<circ> spk_Type) ` set (tx_Outputs ?t) = {''witness_v0_keyhash''}"
    using o ne(2) by (cases "tx_Outputs ?t"; auto simp: to_lower_def lower_char_def byte_of_def)+
  ultimately have "isValidDNNTransaction ?t = Some a"
    using a assms(8) unfolding self_transfer by blast
  then show ?thesis using h v assms(3) by (intro exI[of _ ?m]) simp
qed

text \<open>
  A library for examples: hashes read off one field each, keys are their own serialisation and an
  address is the prefix with the number of bytes of the key.
\<close>

definition plain_wire :: "nat wire_lib" where
  "plain_wire = btc_lib.extend plain_lib
     (wire_lib.fields (\<lambda>h. replicate 32 0) (\<lambda>tx. replicate 31 0 @ [length (wt_Out tx)]) (\<lambda>u. replicate 32 (length u))
       (\<lambda>s n. (''witness_v0_keyhash'', Some [''bc1qme''])))"

definition plain_header :: header where
  "plain_header = \<lparr> hd_PrevBlock = replicate 32 0, hd_MerkleRoot = replicate 32 64, hd_Timestamp = 0, hd_Rest = [] \<rparr>"

definition payment :: "nat \<Rightarrow> wire_tx" where
  "payment n = \<lparr> wt_In = [\<lparr> wi_Hash = replicate 32 7, wi_Index = 0, wi_SignatureScript = [], wi_Witness = [[1], [2]] \<rparr>],
     wt_Out = replicate n \<lparr> wo_Value = 1, wo_PkScript = [] \<rparr> \<rparr>"

definition three_payments :: msg_block where
  "three_payments = \<lparr> mb_Header = plain_header, mb_Transactions = [payment 1, payment 2, payment 3] \<rparr>"

lemma three_payments_valid: "validateBlockMerkleRoot plain_wire three_payments"
  by code_simp

lemma pow_check_is_a_bound_example:
  "header_ok plain_wire (hash_string (replicate 32 0)) plain_header"
proof -
  have v: "hash_string (hd_PrevBlock plain_header) = hash_string (replicate 32 0)"
    "wl_BlockHash plain_wire plain_header = replicate 32 0"
    by code_simp+
  have z: "be_value (replicate n 0) = 0" for n by (induction n) auto
  have "length (wl_BlockHash plain_wire plain_header) = 32" "list_all (\<lambda>b. b < 256) (wl_BlockHash plain_wire plain_header)"
    by code_simp+
  from pow_check_is_a_bound[OF this, of "hash_string (replicate 32 0)"] v z show ?thesis by simp
qed

lemma plain_wire_lengths:
  "\<forall>tx. length (wl_TxHash plain_wire tx) = 32" "\<forall>u. length (wl_DoubleHashH plain_wire u) = 32"
  by (simp_all add: plain_wire_def wire_lib.defs btc_lib.defs plain_lib_def)

definition three_stripped :: msg_block where
  "three_stripped = three_payments\<lparr>mb_Transactions := map (with_witness (\<lambda>_. [])) (mb_Transactions three_payments)\<rparr>"


lemma repeated_transaction_passes_example:
  "validateBlockMerkleRoot plain_wire (three_payments\<lparr>mb_Transactions := mb_Transactions three_payments @ [payment 3]\<rparr>)"
proof -
  have "length (mb_Transactions three_payments) > 1" "odd (length (mb_Transactions three_payments))"
    "last (mb_Transactions three_payments) = payment 3"
    by (simp_all add: three_payments_def)
  then show ?thesis using repeated_transaction_passes[OF three_payments_valid] by metis
qed

theorem witnesses_are_not_checked_witness:
  "isValidDNNTransaction (convertWireTransaction plain_wire MainNetParams (payment 3)) = None
   \<and> (\<exists>m'. mb_Header m' = plain_header \<and> validateBlockMerkleRoot plain_wire m'
        \<and> map (wl_TxHash plain_wire) (mb_Transactions m') = map (wl_TxHash plain_wire) (mb_Transactions three_payments)
        \<and> isValidDNNTransaction (convertWireTransaction plain_wire MainNetParams (mb_Transactions m' ! 2)) = Some ''bc1qme'')"
proof -
  have h: "hash_ignores_witness plain_wire"
    by (simp add: hash_ignores_witness_def plain_wire_def wire_lib.defs btc_lib.defs plain_lib_def with_witness_def)
  have p: "2 < length (mb_Transactions three_payments)" "wt_In (mb_Transactions three_payments ! 2) \<noteq> []"
    "wt_Out (mb_Transactions three_payments ! 2) \<noteq> []"
    "\<forall>out\<in>set (wt_Out (mb_Transactions three_payments ! 2)).
      wl_ExtractPkScriptAddrs plain_wire (wo_PkScript out) MainNetParams = (''witness_v0_keyhash'', Some [''bc1qme''])"
    "deriveP2WPKHAddressFromPubkey plain_wire MainNetParams (replicate 33 2) = ''bc1qme''"
    "has_prefix (to_lower ''bc1qme'') ''bc1q''" "length (replicate 33 (2::nat)) = 33"
    by code_simp+
  have "isValidDNNTransaction (convertWireTransaction plain_wire MainNetParams (payment 3)) = None" by code_simp
  moreover have "mb_Header three_payments = plain_header" by (simp add: three_payments_def)
  ultimately show ?thesis
    using witnesses_are_not_checked[OF h three_payments_valid p] by metis
qed

end
