(* ===== verification/Peers.thy ===== *)
theory Peers
  imports Wire "HOL-Library.AList" "HOL-Library.Multiset"
begin

text \<open>
  The client of the Bitcoin network in \<^verbatim>\<open>src/internal/bitcoin/p2p_client.go\<close>: its header cache and
  the consensus on the height, the choice of peers, the requests for blocks and the resolution of
  input addresses.  A peer is its address.  Go maps are association lists.  What the network does is
  given by the caller: the answers to the successive \<^verbatim>\<open>getheaders\<close> requests (\<open>None\<close> is a timeout),
  and for a block the order in which the goroutines register, a block message arrives and the
  goroutines finish.  A call that has used up its answers is \<open>Blocked\<close>.
\<close>

record peer_stats =
  ps_SuccessCount :: nat
  ps_FailureCount :: nat
  ps_TotalResponseTime :: int
  ps_AverageResponseTime :: int

record p2p =
  p_network :: chain_params
  p_peers :: "string list"
  p_discovered :: "string list"
  p_blockCache :: "(string \<times> btc_block) list"
  p_headerCache :: "(int \<times> string) list"
  p_hashToHeight :: "(string \<times> int) list"
  p_txToBlockHash :: "(string \<times> string) list"
  p_currentHeight :: int
  p_heightCacheTime :: int
  p_nextPeerIndex :: nat
  p_peerFailures :: "(string \<times> nat) list"
  p_peerStats :: "(string \<times> peer_stats) list"

definition NewP2PClient :: "bool \<Rightarrow> p2p" where
  "NewP2PClient testnet = \<lparr> p_network = (if testnet then TestNet3Params else MainNetParams), p_peers = [], p_discovered = [],
     p_blockCache = [], p_headerCache = [], p_hashToHeight = [], p_txToBlockHash = [], p_currentHeight = 0,
     p_heightCacheTime = 0, p_nextPeerIndex = 0, p_peerFailures = [], p_peerStats = [] \<rparr>"

datatype p2p_error = NoPeers | AllPeersFailed | HashNotFound

datatype 'a call = Blocked | Failed p2p_error | Done 'a

section \<open>Bookkeeping of peers\<close>

definition recordPeerFailure :: "string \<Rightarrow> p2p \<Rightarrow> p2p" where
  "recordPeerFailure peerAddr st =
     st\<lparr>p_peerFailures := AList.update peerAddr (case_option 0 id (map_of (p_peerFailures st) peerAddr) + 1) (p_peerFailures st)\<rparr>"

definition recordPeerSuccess :: "string \<Rightarrow> p2p \<Rightarrow> p2p" where
  "recordPeerSuccess peerAddr st = st\<lparr>p_peerFailures := AList.delete peerAddr (p_peerFailures st)\<rparr>"

definition updatePeerStats :: "string \<Rightarrow> bool \<Rightarrow> int \<Rightarrow> p2p \<Rightarrow> p2p" where
  "updatePeerStats peerAddr success responseTime st =
     (let stats = (case map_of (p_peerStats st) peerAddr of Some s \<Rightarrow> s | None \<Rightarrow>
            \<lparr> ps_SuccessCount = 0, ps_FailureCount = 0, ps_TotalResponseTime = 0, ps_AverageResponseTime = 0 \<rparr>);
          n = ps_SuccessCount stats + 1; total = ps_TotalResponseTime stats + responseTime;
          stats' = (if success
            then stats\<lparr>ps_SuccessCount := n, ps_TotalResponseTime := total, ps_AverageResponseTime := total div int n\<rparr>
            else stats\<lparr>ps_FailureCount := ps_FailureCount stats + 1\<rparr>)
      in st\<lparr>p_peerStats := AList.update peerAddr stats' (p_peerStats st)\<rparr>)"

text \<open>The exchange sort of \<^verbatim>\<open>getSortedPeersByPerformance\<close>: one pass brings the fastest peer to the front.\<close>

definition swap_peers :: "p2p \<Rightarrow> string \<Rightarrow> string \<Rightarrow> bool" where
  "swap_peers st a b =
     (case (map_of (p_peerStats st) a, map_of (p_peerStats st) b) of
        (Some i, Some j) \<Rightarrow>
          if ps_SuccessCount i = 0 then ps_SuccessCount j > 0
          else if ps_SuccessCount j = 0 then False
          else ps_AverageResponseTime i > ps_AverageResponseTime j
      | (None, Some j) \<Rightarrow> ps_SuccessCount j > 0
      | (_, None) \<Rightarrow> False)"

fun exchange_pass :: "p2p \<Rightarrow> string \<Rightarrow> string list \<Rightarrow> string \<times> string list" where
  "exchange_pass st x [] = (x, [])"
| "exchange_pass st x (y # ys) =
     (if swap_peers st x y then (case exchange_pass st y ys of (m, zs) \<Rightarrow> (m, x # zs))
      else (case exchange_pass st x ys of (m, zs) \<Rightarrow> (m, y # zs)))"

lemma exchange_pass_length [simp]: "length (snd (exchange_pass st x ys)) = length ys"
  by (induction st x ys rule: exchange_pass.induct) (auto split: prod.splits)

fun getSortedPeersByPerformance :: "p2p \<Rightarrow> string list \<Rightarrow> string list" where
  "getSortedPeersByPerformance st [] = []"
| "getSortedPeersByPerformance st (x # xs) =
     (let r = exchange_pass st x xs in fst r # getSortedPeersByPerformance st (snd r))"

definition tryConnectNewPeer :: "(string \<Rightarrow> bool) \<Rightarrow> p2p \<Rightarrow> p2p" where
  "tryConnectNewPeer connects st =
     (if length (p_peers st) \<ge> 15 then st
      else case find (\<lambda>a. a \<notin> set (p_peers st) \<and> connects a) (p_discovered st) of
        None \<Rightarrow> st | Some a \<Rightarrow> st\<lparr>p_peers := p_peers st @ [a]\<rparr>)"

section \<open>Headers\<close>

definition checkpointHeight :: int where
  "checkpointHeight = 900000"

definition checkpointHashStr :: string where
  "checkpointHashStr = ''000000000000000000010538edbfd2d5b809a33dd83f284aeea41c6d0d96968a''"

text \<open>The highest cached header, or the checkpoint.\<close>

definition highest_cached :: "p2p \<Rightarrow> int \<times> string" where
  "highest_cached st =
     foldl (\<lambda>best e. if fst e > fst best \<and> fst e \<ge> checkpointHeight then e else best)
       (checkpointHeight, checkpointHashStr) (p_headerCache st)"

text \<open>
  The validation loop over one \<^verbatim>\<open>headers\<close> message: the heights and hashes it accepts, and whether
  the whole message was valid.  With a limit it stops after that height.
\<close>

fun accept_headers :: "'k wire_lib \<Rightarrow> int option \<Rightarrow> int \<Rightarrow> string \<Rightarrow> header list \<Rightarrow> (int \<times> string) list \<times> bool" where
  "accept_headers lib limit height prev [] = ([], True)"
| "accept_headers lib limit height prev (h # hs) =
     (if \<not> header_ok lib prev h then ([], False)
      else
        let s = hash_string (wl_BlockHash lib h) in
        if (case limit of None \<Rightarrow> False | Some t \<Rightarrow> height + 1 > t) then ([(height, s)], True)
        else case accept_headers lib limit (height + 1) s hs of (xs, valid) \<Rightarrow> ((height, s) # xs, valid))"

definition last_hash :: "string \<Rightarrow> (int \<times> string) list \<Rightarrow> string" where
  "last_hash prev xs = (if xs = [] then prev else snd (last xs))"

definition cache_headers :: "(int \<times> string) list \<Rightarrow> p2p \<Rightarrow> p2p" where
  "cache_headers xs st =
     st\<lparr>p_headerCache := foldl (\<lambda>m (h, s). AList.update h s m) (p_headerCache st) xs,
       p_hashToHeight := foldl (\<lambda>m (h, s). AList.update s h m) (p_hashToHeight st) xs\<rparr>"

text \<open>The loop of \<^verbatim>\<open>getBlockCountFromPeer\<close>; \<open>acc\<close> is the local header map.\<close>

fun count_headers ::
  "'k wire_lib \<Rightarrow> header list option list \<Rightarrow> int \<Rightarrow> string \<Rightarrow> (int \<times> string) list \<Rightarrow>
     (int \<times> (int \<times> string) list) call \<times> header list option list" where
  "count_headers lib [] height prev acc = (Blocked, [])"
| "count_headers lib (None # answers) height prev acc = (Failed AllPeersFailed, answers)"
| "count_headers lib (Some hs # answers) height prev acc =
     (if hs = [] then (Done (height - 1, acc), answers)
      else case accept_headers lib None height prev hs of (xs, valid) \<Rightarrow>
        if \<not> valid then (Failed AllPeersFailed, answers)
        else if length hs < 2000 then (Done (height + int (length xs) - 1, acc @ xs), answers)
        else count_headers lib answers (height + int (length xs)) (last_hash prev xs) (acc @ xs))"

definition getBlockCountFromPeer ::
  "'k wire_lib \<Rightarrow> header list option list \<Rightarrow> p2p \<Rightarrow> (int \<times> (int \<times> string) list) call \<times> header list option list" where
  "getBlockCountFromPeer lib answers st =
     (let (h, s) = highest_cached st in count_headers lib answers (h + 1) s [])"

text \<open>Peers are asked in turn until two have answered.\<close>

fun query_peers ::
  "'k wire_lib \<Rightarrow> header list option list \<Rightarrow> string list \<Rightarrow> (int \<times> (int \<times> string) list) list \<Rightarrow> p2p \<Rightarrow>
     (int \<times> (int \<times> string) list) list option \<times> p2p" where
  "query_peers lib answers [] results st = (Some results, st)"
| "query_peers lib answers (p # ps) results st =
     (case getBlockCountFromPeer lib answers st of
        (Blocked, _) \<Rightarrow> (None, st)
      | (Failed _, answers') \<Rightarrow> query_peers lib answers' ps results (recordPeerFailure p st)
      | (Done r, answers') \<Rightarrow>
          if length (results @ [r]) \<ge> 2 then (Some (results @ [r]), recordPeerSuccess p st)
          else query_peers lib answers' ps (results @ [r]) (recordPeerSuccess p st))"

definition best_result :: "(int \<times> (int \<times> string) list) list \<Rightarrow> (int \<times> (int \<times> string) list) option" where
  "best_result results =
     foldl (\<lambda>best r. case best of None \<Rightarrow> Some r | Some b \<Rightarrow> if fst r \<ge> fst b then Some r else best) None results"

definition getBlockCountConsensus ::
  "'k wire_lib \<Rightarrow> int \<Rightarrow> header list option list \<Rightarrow> p2p \<Rightarrow> int call \<times> p2p" where
  "getBlockCountConsensus lib now answers st =
     (let n = length (p_peers st) in
      if n = 0 then (Failed NoPeers, st)
      else
        let k = min 3 n;
            peersToQuery = map (\<lambda>i. p_peers st ! ((p_nextPeerIndex st + i) mod n)) [0..<k];
            (asked, st1) = query_peers lib answers peersToQuery [] (st\<lparr>p_nextPeerIndex := p_nextPeerIndex st + k\<rparr>) in
        case asked of
          None \<Rightarrow> (Blocked, st1)
        | Some results \<Rightarrow>
            if results = [] then (Failed AllPeersFailed, st1)
            else
              let heights = sort (map fst results);
                  medianHeight = heights ! (length heights div 2);
                  st2 = (case best_result results of None \<Rightarrow> st1 | Some best \<Rightarrow> cache_headers (snd best) st1)
              in (Done medianHeight, st2\<lparr>p_currentHeight := medianHeight, p_heightCacheTime := now\<rparr>))"

definition GetBlockCount :: "'k wire_lib \<Rightarrow> int \<Rightarrow> header list option list \<Rightarrow> p2p \<Rightarrow> int call \<times> p2p" where
  "GetBlockCount lib now answers st =
     (if p_currentHeight st > 0 \<and> now - p_heightCacheTime st < 30 then (Done (p_currentHeight st), st)
      else getBlockCountConsensus lib now answers st)"

text \<open>
  \<^verbatim>\<open>syncHeadersToHeight\<close>.  A timeout or an invalid header moves on to the next peer and asks again.
\<close>

definition next_peer :: "p2p \<Rightarrow> string \<times> p2p" where
  "next_peer st = (p_peers st ! (p_nextPeerIndex st mod length (p_peers st)), st\<lparr>p_nextPeerIndex := p_nextPeerIndex st + 1\<rparr>)"

fun sync_loop ::
  "'k wire_lib \<Rightarrow> int \<Rightarrow> header list option list \<Rightarrow> string \<Rightarrow> int \<Rightarrow> string \<Rightarrow> p2p \<Rightarrow> unit call \<times> p2p" where
  "sync_loop lib target [] peer height prev st = (if height \<le> target then (Blocked, st) else (Done (), st))"
| "sync_loop lib target (None # answers) peer height prev st =
     (if \<not> height \<le> target then (Done (), st)
      else
        let st1 = recordPeerFailure peer st in
        if p_peers st1 = [] then (Failed NoPeers, st1)
        else let (peer', st2) = next_peer st1 in sync_loop lib target answers peer' height prev st2)"
| "sync_loop lib target (Some hs # answers) peer height prev st =
     (if \<not> height \<le> target then (Done (), st)
      else if hs = [] then (Done (), st)
      else case accept_headers lib (Some target) height prev hs of (xs, valid) \<Rightarrow>
        let st1 = cache_headers xs st; height' = height + int (length xs); prev' = last_hash prev xs in
        if \<not> valid then
          let st2 = recordPeerFailure peer st1 in
          if p_peers st2 = [] then (Failed NoPeers, st2)
          else let (peer', st3) = next_peer st2 in sync_loop lib target answers peer' height' prev' st3
        else if length hs < 2000 \<or> height' > target then (Done (), st1)
        else sync_loop lib target answers peer height' prev' st1)"

definition syncHeadersToHeight :: "'k wire_lib \<Rightarrow> header list option list \<Rightarrow> int \<Rightarrow> p2p \<Rightarrow> unit call \<times> p2p" where
  "syncHeadersToHeight lib answers targetHeight st =
     (if p_peers st = [] then (Failed NoPeers, st)
      else
        let (peer, st1) = next_peer st; (h, s) = highest_cached st1 in
        sync_loop lib targetHeight answers peer (h + 1) s st1)"

definition GetBlockHash :: "'k wire_lib \<Rightarrow> header list option list \<Rightarrow> int \<Rightarrow> p2p \<Rightarrow> string call \<times> p2p" where
  "GetBlockHash lib answers height st =
     (case map_of (p_headerCache st) height of
        Some hash \<Rightarrow> (Done hash, st)
      | None \<Rightarrow>
          (case syncHeadersToHeight lib answers height st of
             (Blocked, st1) \<Rightarrow> (Blocked, st1)
           | (Failed e, st1) \<Rightarrow> (Failed e, st1)
           | (Done _, st1) \<Rightarrow>
               (case map_of (p_headerCache st1) height of
                  Some hash \<Rightarrow> (Done hash, st1) | None \<Rightarrow> (Failed HashNotFound, st1))))"

definition ClearHeaderCache :: "p2p \<Rightarrow> p2p" where
  "ClearHeaderCache st = st\<lparr>p_headerCache := [], p_hashToHeight := [], p_currentHeight := 0, p_heightCacheTime := 0\<rparr>"

definition GetHeightForBlockHash :: "string \<Rightarrow> p2p \<Rightarrow> int option" where
  "GetHeightForBlockHash blockHash st = map_of (p_hashToHeight st) blockHash"

definition GetBlockHashForTransaction :: "string \<Rightarrow> p2p \<Rightarrow> string option" where
  "GetBlockHashForTransaction txID st = map_of (p_txToBlockHash st) txID"

section \<open>The header cache is a chain\<close>

text \<open>
  Consecutive heights from \<open>h\<close> on, each with the hash of a header that is acceptable after the hash
  before it.
\<close>

fun chain_from :: "'k wire_lib \<Rightarrow> int \<Rightarrow> string \<Rightarrow> (int \<times> string) list \<Rightarrow> bool" where
  "chain_from lib h prev [] = True"
| "chain_from lib h prev ((k, s) # xs) =
     (k = h \<and> (\<exists>hdr. header_ok lib prev hdr \<and> s = hash_string (wl_BlockHash lib hdr)) \<and> chain_from lib (h + 1) s xs)"

lemma last_hash_Cons [simp]: "last_hash prev ((k, s) # xs) = last_hash s xs"
  by (simp add: last_hash_def)

lemma chain_append:
  "chain_from lib h prev (xs @ ys) \<longleftrightarrow> chain_from lib h prev xs \<and> chain_from lib (h + int (length xs)) (last_hash prev xs) ys"
  by (induction lib h prev xs rule: chain_from.induct) (auto simp: last_hash_def add_ac)

lemma chain_keys: "chain_from lib h prev xs \<Longrightarrow> map fst xs = map (\<lambda>i. h + int i) [0..<length xs]"
  by (induction lib h prev xs rule: chain_from.induct) (auto simp: map_upt_Suc add_ac simp del: upt_Suc)

lemma accept_chain: "chain_from lib h prev (fst (accept_headers lib limit h prev hs))"
  by (induction lib limit h prev hs rule: accept_headers.induct) (auto simp: Let_def split: prod.splits)

lemma accept_all:
  "snd (accept_headers lib None h prev hs) \<Longrightarrow> length (fst (accept_headers lib None h prev hs)) = length hs"
  by (induction lib "None :: int option" h prev hs rule: accept_headers.induct) (auto simp: Let_def split: prod.splits if_splits)

lemma update_new: "k \<notin> fst ` set m \<Longrightarrow> AList.update k v m = m @ [(k, v)]"
  by (induction m) auto

lemma updates_new:
  "distinct (map fst (m @ xs)) \<Longrightarrow> foldl (\<lambda>m (h, s). AList.update h s m) m xs = m @ xs"
proof (induction xs arbitrary: m)
  case (Cons x xs)
  then have "AList.update (fst x) (snd x) m = m @ [x]" using update_new[of "fst x" m "snd x"] by auto
  then show ?case using Cons.IH[of "m @ [x]"] Cons.prems by (simp add: case_prod_beta)
qed simp

definition swapped :: "(int \<times> string) list \<Rightarrow> (string \<times> int) list" where
  "swapped xs = foldl (\<lambda>m (h, s). AList.update s h m) [] xs"

definition headers_ok :: "'k wire_lib \<Rightarrow> p2p \<Rightarrow> bool" where
  "headers_ok lib st \<longleftrightarrow> chain_from lib (checkpointHeight + 1) checkpointHashStr (p_headerCache st)
     \<and> p_hashToHeight st = swapped (p_headerCache st)
     \<and> p_currentHeight st \<le> checkpointHeight + int (length (p_headerCache st))"

lemma swapped_sound: "map_of (swapped xs) s = Some h \<Longrightarrow> (h, s) \<in> set xs"
proof (induction xs rule: rev_induct)
  case (snoc x xs)
  then show ?case by (cases x) (auto simp: swapped_def update_conv' split: if_splits)
qed (simp add: swapped_def)

lemma highest_of_chain:
  assumes "chain_from lib (checkpointHeight + 1) checkpointHashStr (p_headerCache st)"
  shows "highest_cached st = (checkpointHeight + int (length (p_headerCache st)), last_hash checkpointHashStr (p_headerCache st))"
proof -
  let ?f = "\<lambda>best e. if fst e > fst best \<and> fst e \<ge> checkpointHeight then e else best"
  have "chain_from lib (checkpointHeight + 1) checkpointHashStr xs \<Longrightarrow>
      foldl ?f (checkpointHeight, checkpointHashStr) xs = (checkpointHeight + int (length xs), last_hash checkpointHashStr xs)" for xs
  proof (induction xs rule: rev_induct)
    case (snoc x xs)
    then show ?case by (cases x) (auto simp: chain_append last_hash_def)
  qed (simp add: last_hash_def)
  then show ?thesis using assms by (simp add: highest_cached_def)
qed

text \<open>What is accepted after the highest cached header extends the chain.\<close>

lemma cache_extends:
  assumes "headers_ok lib st" "highest_cached st = (h, s)" "chain_from lib (h + 1) s xs"
  shows "p_headerCache (cache_headers xs st) = p_headerCache st @ xs" "headers_ok lib (cache_headers xs st)"
    "highest_cached (cache_headers xs st) = (h + int (length xs), last_hash s xs)"
proof -
  let ?c = "p_headerCache st"
  have c: "chain_from lib (checkpointHeight + 1) checkpointHashStr ?c" using assms(1) by (simp add: headers_ok_def)
  have hs: "h = checkpointHeight + int (length ?c)" "s = last_hash checkpointHashStr ?c"
    using highest_of_chain[OF c] assms(2) by simp_all
  then have cx: "chain_from lib (checkpointHeight + 1) checkpointHashStr (?c @ xs)"
    using c assms(3) by (simp add: chain_append add_ac)
  have "distinct (map fst (?c @ xs))" unfolding chain_keys[OF cx] by (simp add: distinct_map inj_on_def)
  then show hc: "p_headerCache (cache_headers xs st) = ?c @ xs" by (simp add: cache_headers_def updates_new)
  then show ok: "headers_ok lib (cache_headers xs st)"
    using assms(1) cx by (auto simp: headers_ok_def cache_headers_def swapped_def)
  show "highest_cached (cache_headers xs st) = (h + int (length xs), last_hash s xs)"
    using highest_of_chain[of lib "cache_headers xs st"] ok hc hs by (auto simp: headers_ok_def last_hash_def)
qed

text \<open>The header fields are not touched by the bookkeeping of peers.\<close>

lemma peer_fields [simp]:
  "p_headerCache (recordPeerFailure p st) = p_headerCache st" "p_headerCache (recordPeerSuccess p st) = p_headerCache st"
  "p_hashToHeight (recordPeerFailure p st) = p_hashToHeight st" "p_hashToHeight (recordPeerSuccess p st) = p_hashToHeight st"
  "p_currentHeight (recordPeerFailure p st) = p_currentHeight st" "p_currentHeight (recordPeerSuccess p st) = p_currentHeight st"
  "p_headerCache (snd (next_peer st)) = p_headerCache st" "p_hashToHeight (snd (next_peer st)) = p_hashToHeight st"
  "p_currentHeight (snd (next_peer st)) = p_currentHeight st" "p_peers (snd (next_peer st)) = p_peers st"
  "p_peers (recordPeerFailure p st) = p_peers st" "p_peers (cache_headers xs st) = p_peers st"
  "p_currentHeight (cache_headers xs st) = p_currentHeight st"
  by (simp_all add: recordPeerFailure_def recordPeerSuccess_def next_peer_def cache_headers_def)

lemma headers_ok_cong:
  "p_headerCache st' = p_headerCache st \<Longrightarrow> p_hashToHeight st' = p_hashToHeight st \<Longrightarrow> p_currentHeight st' = p_currentHeight st
   \<Longrightarrow> headers_ok lib st' = headers_ok lib st"
  by (simp add: headers_ok_def)

lemma highest_cong: "p_headerCache st' = p_headerCache st \<Longrightarrow> highest_cached st' = highest_cached st"
  by (simp add: highest_cached_def)

lemma count_headers_chain:
  assumes "chain_from lib h0 prev0 acc"
    "count_headers lib answers (h0 + int (length acc)) (last_hash prev0 acc) acc = (Done (n, xs), rest)"
  shows "chain_from lib h0 prev0 xs \<and> n = h0 + int (length xs) - 1"
  using assms
proof (induction answers arbitrary: acc)
  case (Cons a answers)
  show ?case
  proof (cases a)
    case (Some hs)
    let ?r = "accept_headers lib None (h0 + int (length acc)) (last_hash prev0 acc) hs"
    have c: "chain_from lib h0 prev0 (acc @ fst ?r)" using Cons.prems(1) accept_chain by (simp add: chain_append)
    have l: "last_hash (last_hash prev0 acc) (fst ?r) = last_hash prev0 (acc @ fst ?r)"
      by (simp add: last_hash_def)
    obtain zs v where r: "?r = (zs, v)" by fastforce
    show ?thesis
    proof (cases "hs = [] \<or> \<not> v \<or> length hs < 2000")
      case True
      then show ?thesis using Cons.prems c r Some by (auto simp: Let_def split: if_splits)
    next
      case False
      then have "count_headers lib answers (h0 + int (length (acc @ zs))) (last_hash prev0 (acc @ zs)) (acc @ zs) = (Done (n, xs), rest)"
        using Cons.prems(2) r Some l by (simp add: add_ac)
      then show ?thesis using Cons.IH[of "acc @ zs"] c r by simp
    qed
  qed (use Cons.prems in simp)
qed simp

lemma from_peer_chain:
  assumes "getBlockCountFromPeer lib answers st = (Done (n, xs), rest)" "highest_cached st = (h, s)"
  shows "chain_from lib (h + 1) s xs \<and> n = h + int (length xs)"
  using count_headers_chain[of lib "h + 1" s "[]" answers n xs rest] assms
  by (simp add: getBlockCountFromPeer_def last_hash_def)

lemma query_peers_keeps:
  "query_peers lib answers ps results st = (rs, st') \<Longrightarrow>
     p_headerCache st' = p_headerCache st \<and> p_hashToHeight st' = p_hashToHeight st \<and> p_currentHeight st' = p_currentHeight st"
proof (induction ps arbitrary: answers results st)
  case (Cons p ps)
  obtain r rest where "getBlockCountFromPeer lib answers st = (r, rest)" by fastforce
  then show ?case
    using Cons.IH[of rest results "recordPeerFailure p st"] Cons.IH[of rest _ "recordPeerSuccess p st"] Cons.prems
    by (cases r) (auto split: if_splits)
qed simp

lemma query_peers_results:
  assumes "query_peers lib answers ps results st = (Some rs, st')" "highest_cached st = (h, s)"
    "\<forall>r\<in>set results. chain_from lib (h + 1) s (snd r) \<and> fst r = h + int (length (snd r))" "length results < 2"
  shows "(\<forall>r\<in>set rs. chain_from lib (h + 1) s (snd r) \<and> fst r = h + int (length (snd r))) \<and> length rs \<le> 2
    \<and> p_headerCache st' = p_headerCache st \<and> p_hashToHeight st' = p_hashToHeight st \<and> p_currentHeight st' = p_currentHeight st"
  using assms
proof (induction ps arbitrary: answers results st)
  case (Cons p ps)
  have hc: "highest_cached (recordPeerFailure p st) = (h, s)" "highest_cached (recordPeerSuccess p st) = (h, s)"
    using Cons.prems(2) unfolding highest_cached_def peer_fields by simp_all
  show ?case
  proof (cases "getBlockCountFromPeer lib answers st")
    case (Pair r rest)
    show ?thesis
    proof (cases r)
      case (Failed e)
      then have "query_peers lib rest ps results (recordPeerFailure p st) = (Some rs, st')" using Cons.prems(1) Pair by simp
      from Cons.IH[OF this hc(1) Cons.prems(3,4)] show ?thesis unfolding peer_fields .
    next
      case (Done q)
      have q: "chain_from lib (h + 1) s (snd q) \<and> fst q = h + int (length (snd q))"
        using from_peer_chain[of lib answers st "fst q" "snd q" rest h s] Pair Done Cons.prems(2) by simp
      then have all: "\<forall>r\<in>set (results @ [q]). chain_from lib (h + 1) s (snd r) \<and> fst r = h + int (length (snd r))"
        using Cons.prems(3) by auto
      show ?thesis
      proof (cases "length (results @ [q]) \<ge> 2")
        case True
        then have "rs = results @ [q]" "st' = recordPeerSuccess p st" using Cons.prems(1) Pair Done by simp_all
        then show ?thesis using all Cons.prems(4) by simp
      next
        case False
        then have "query_peers lib rest ps (results @ [q]) (recordPeerSuccess p st) = (Some rs, st')"
          using Cons.prems(1) Pair Done by simp
        moreover have "length (results @ [q]) < 2" using False by (simp only: not_le)
        ultimately show ?thesis using Cons.IH[OF _ hc(2) all] unfolding peer_fields by blast
      qed
    qed (use Cons.prems Pair in simp)
  qed
qed simp

text \<open>The consensus: the last of the highest answers, whose height is what the code calls the median.\<close>

lemma best_result_max:
  "results \<noteq> [] \<Longrightarrow> \<exists>b. best_result results = Some b \<and> b \<in> set results \<and> (\<forall>r\<in>set results. fst r \<le> fst b)"
proof (induction results rule: rev_induct)
  case (snoc r rs)
  show ?case
  proof (cases "rs = []")
    case False
    then obtain b where "best_result rs = Some b" "b \<in> set rs" "\<forall>r\<in>set rs. fst r \<le> fst b" using snoc.IH by blast
    then have "best_result (rs @ [r]) = Some (if fst r \<ge> fst b then r else b)" by (simp add: best_result_def)
    then show ?thesis using \<open>b \<in> set rs\<close> \<open>\<forall>r\<in>set rs. fst r \<le> fst b\<close>
      by (intro exI[of _ "if fst r \<ge> fst b then r else b"]) auto
  qed (simp add: best_result_def)
qed simp

lemma median_of_two:
  assumes "0 < length xs" "length xs \<le> 2"
  shows "sort xs ! (length xs div 2) = Max (set (xs :: int list))"
proof -
  consider a where "xs = [a]" | a b where "xs = [a, b]"
  proof (cases xs)
    case (Cons a ys)
    then show ?thesis using that assms by (cases ys) auto
  qed (use assms in simp)
  then show ?thesis by cases (auto simp: max_def)
qed

lemma consensus:
  assumes "headers_ok lib st" "getBlockCountConsensus lib now answers st = (r, st')"
  shows "headers_ok lib st' \<and> (\<forall>n. r = Done n \<longrightarrow> n = checkpointHeight + int (length (p_headerCache st')))"
proof -
  let ?n = "length (p_peers st)"
  let ?ps = "map (\<lambda>i. p_peers st ! ((p_nextPeerIndex st + i) mod ?n)) [0..<min 3 ?n]"
  let ?st0 = "st\<lparr>p_nextPeerIndex := p_nextPeerIndex st + min 3 ?n\<rparr>"
  have st0: "p_headerCache ?st0 = p_headerCache st" "p_hashToHeight ?st0 = p_hashToHeight st" "p_currentHeight ?st0 = p_currentHeight st"
    by simp_all
  obtain asked st1 where q: "query_peers lib answers ?ps [] ?st0 = (asked, st1)" by fastforce
  show ?thesis
  proof (cases "?n = 0")
    case True
    then show ?thesis using assms by (auto simp: getBlockCountConsensus_def)
  next
    case n: False
    have qs: "p_headerCache st1 = p_headerCache st \<and> p_hashToHeight st1 = p_hashToHeight st \<and> p_currentHeight st1 = p_currentHeight st"
      using query_peers_keeps[OF q] st0 by simp
    then have ok1: "headers_ok lib st1" using assms(1) by (simp add: headers_ok_def)
    show ?thesis
    proof (cases asked)
      case None
      then show ?thesis using assms(2) q n ok1 by (auto simp: getBlockCountConsensus_def Let_def)
    next
      case (Some results)
      obtain h s where hs: "highest_cached st1 = (h, s)" by fastforce
      then have "highest_cached ?st0 = (h, s)" using qs by (simp add: highest_cached_def)
      from query_peers_results[OF q[unfolded Some] this] have rs:
        "\<forall>r\<in>set results. chain_from lib (h + 1) s (snd r) \<and> fst r = h + int (length (snd r))" "length results \<le> 2"
        by simp_all
      show ?thesis
      proof (cases "results = []")
        case True
        then show ?thesis using assms(2) q n ok1 Some by (auto simp: getBlockCountConsensus_def Let_def)
      next
        case False
        then obtain b where b: "best_result results = Some b" "b \<in> set results" "\<forall>r\<in>set results. fst r \<le> fst b"
          using best_result_max by blast
        have "sort (map fst results) ! (length (map fst results) div 2) = Max (set (map fst results))"
          using median_of_two[of "map fst results"] False rs(2) by simp
        also have "\<dots> = fst b" using b(2,3) by (intro Max_eqI) auto
        finally have m: "sort (map fst results) ! (length results div 2) = fst b" by simp
        note e = cache_extends[OF ok1 hs conjunct1[OF bspec[OF rs(1) b(2)]]]
        let ?st2 = "cache_headers (snd b) st1"
        have len: "fst b = checkpointHeight + int (length (p_headerCache ?st2))"
          using rs(1) b(2) highest_of_chain[of lib st1] ok1 hs e(1) by (auto simp: headers_ok_def)
        have "st' = ?st2\<lparr>p_currentHeight := fst b, p_heightCacheTime := now\<rparr>" "r = Done (fst b)"
          using assms(2) q n Some False b(1) m by (auto simp: getBlockCountConsensus_def Let_def)
        then show ?thesis using e(2) len by (simp add: headers_ok_def)
      qed
    qed
  qed
qed

lemma sync_loop_ok:
  assumes "headers_ok lib st" "highest_cached st = (height - 1, prev)"
  shows "headers_ok lib (snd (sync_loop lib target answers peer height prev st))"
  using assms
proof (induction answers arbitrary: peer height prev st)
  case (Cons a answers)
  have moved: "headers_ok lib (snd (next_peer (recordPeerFailure q u))) = headers_ok lib u"
    "highest_cached (snd (next_peer (recordPeerFailure q u))) = highest_cached u"
    "headers_ok lib (recordPeerFailure q u) = headers_ok lib u" for q u
    by (simp_all add: headers_ok_def highest_cached_def)
  show ?case
  proof (cases a)
    case None
    then show ?thesis
      using Cons.IH[of "snd (next_peer (recordPeerFailure peer st))" height prev] Cons.prems moved
      by (auto simp: Let_def case_prod_beta)
  next
    case (Some hs)
    let ?r = "accept_headers lib (Some target) height prev hs"
    let ?u = "cache_headers (fst ?r) st"
    have c: "chain_from lib (height - 1 + 1) prev (fst ?r)" using accept_chain[of lib height prev "Some target" hs] by simp
    have u: "headers_ok lib ?u" "highest_cached ?u = (height + int (length (fst ?r)) - 1, last_hash prev (fst ?r))"
      using cache_extends[OF Cons.prems c] by simp_all
    show ?thesis
      using Cons.IH[OF u] Cons.IH[of "snd (next_peer (recordPeerFailure peer ?u))" "height + int (length (fst ?r))" "last_hash prev (fst ?r)"]
        Cons.prems(1) u moved Some
      by (auto simp: Let_def case_prod_beta)
  qed
qed simp

lemma sync_ok:
  assumes "headers_ok lib st"
  shows "headers_ok lib (snd (syncHeadersToHeight lib answers target st))"
proof -
  have "headers_ok lib (snd (next_peer st))" "highest_cached (snd (next_peer st)) = highest_cached st"
    using assms by (simp_all add: headers_ok_def highest_cached_def)
  then show ?thesis
    using assms sync_loop_ok[of lib "snd (next_peer st)" "fst (highest_cached st) + 1" "snd (highest_cached st)"]
    by (auto simp: syncHeadersToHeight_def Let_def case_prod_beta)
qed

lemma GetBlockHash_ok: "headers_ok lib st \<Longrightarrow> headers_ok lib (snd (GetBlockHash lib answers height st))"
  using sync_ok[of lib st answers height]
  by (auto simp: GetBlockHash_def split: option.splits call.splits prod.splits)

lemma GetBlockCount_ok:
  assumes "headers_ok lib st"
  shows "headers_ok lib (snd (GetBlockCount lib now answers st))"
proof (cases "getBlockCountConsensus lib now answers st")
  case (Pair r st')
  then show ?thesis using consensus[OF assms Pair] assms by (auto simp: GetBlockCount_def)
qed

lemma ClearHeaderCache_ok: "headers_ok lib (ClearHeaderCache st)"
  by (simp add: headers_ok_def ClearHeaderCache_def swapped_def checkpointHeight_def)

lemma new_client_ok: "headers_ok lib (NewP2PClient testnet)"
  by (simp add: headers_ok_def NewP2PClient_def swapped_def checkpointHeight_def)

lemma chain_lookup:
  assumes "headers_ok lib st" "checkpointHeight < k" "k \<le> checkpointHeight + int (length (p_headerCache st))"
  shows "\<exists>s. map_of (p_headerCache st) k = Some s"
proof -
  have "map fst (p_headerCache st) = map (\<lambda>i. checkpointHeight + 1 + int i) [0..<length (p_headerCache st)]"
    using assms(1) chain_keys by (auto simp: headers_ok_def)
  then have "fst ` set (p_headerCache st) = (\<lambda>i. checkpointHeight + 1 + int i) ` {0..<length (p_headerCache st)}"
    by (metis list.set_map set_upt)
  moreover have "k = checkpointHeight + 1 + int (nat (k - checkpointHeight - 1))" using assms(2) by simp
  moreover have "nat (k - checkpointHeight - 1) < length (p_headerCache st)" using assms(2,3) by linarith
  ultimately have "k \<in> fst ` set (p_headerCache st)" by (metis atLeast0LessThan image_eqI lessThan_iff)
  then show ?thesis by (metis map_of_eq_None_iff not_None_eq)
qed

section \<open>Waiting for peers\<close>

lemma timeouts_pass:
  "height \<le> target \<Longrightarrow> p_peers st \<noteq> [] \<Longrightarrow>
   \<exists>peer' st'. (\<forall>answers. sync_loop lib target (replicate n None @ answers) peer height prev st
       = sync_loop lib target answers peer' height prev st') \<and> p_headerCache st' = p_headerCache st"
proof (induction n arbitrary: peer st)
  case 0
  then show ?case by (intro exI[of _ peer] exI[of _ st]) simp
next
  case (Suc n)
  let ?p = "next_peer (recordPeerFailure peer st)"
  obtain peer' st' where "\<forall>answers. sync_loop lib target (replicate n None @ answers) (fst ?p) height prev (snd ?p)
      = sync_loop lib target answers peer' height prev st'" "p_headerCache st' = p_headerCache (snd ?p)"
    using Suc.IH[of "snd ?p" "fst ?p"] Suc.prems by auto
  then show ?case using Suc.prems by (intro exI[of _ peer'] exI[of _ st']) (simp add: Let_def case_prod_beta)
qed

text \<open>A short message of acceptable headers that reaches the height.\<close>

definition reaches :: "'k wire_lib \<Rightarrow> p2p \<Rightarrow> int \<Rightarrow> header list \<Rightarrow> bool" where
  "reaches lib st k hs \<longleftrightarrow>
     (let r = accept_headers lib (Some k) (fst (highest_cached st) + 1) (snd (highest_cached st)) hs in
      length hs < 2000 \<and> snd r \<and> k \<in> fst ` set (fst r))"

section \<open>The order of the peers\<close>

definition peer_speed :: "p2p \<Rightarrow> string \<Rightarrow> int option" where
  "peer_speed st a = (case map_of (p_peerStats st) a of
     None \<Rightarrow> None | Some s \<Rightarrow> if ps_SuccessCount s > 0 then Some (ps_AverageResponseTime s) else None)"

definition slower :: "int option \<Rightarrow> int option \<Rightarrow> bool" where
  "slower x y = (case (x, y) of (Some i, Some j) \<Rightarrow> i > j | (None, Some j) \<Rightarrow> True | (_, None) \<Rightarrow> False)"

lemma swap_slower: "swap_peers st a b = slower (peer_speed st a) (peer_speed st b)"
  by (auto simp: swap_peers_def slower_def peer_speed_def split: option.splits)

lemma slower_trans: "\<not> slower x y \<Longrightarrow> \<not> slower y z \<Longrightarrow> \<not> slower x z" "slower x y \<Longrightarrow> \<not> slower y x"
  by (auto simp: slower_def split: option.splits)

lemma exchange_pass_front:
  "add_mset (fst (exchange_pass st x ys)) (mset (snd (exchange_pass st x ys))) = add_mset x (mset ys)
   \<and> \<not> swap_peers st (fst (exchange_pass st x ys)) x \<and> (\<forall>y\<in>set ys. \<not> swap_peers st (fst (exchange_pass st x ys)) y)"
proof (induction st x ys rule: exchange_pass.induct)
  case (1 st x)
  then show ?case by (auto simp: swap_slower slower_def split: option.splits)
next
  case (2 st x y ys)
  show ?case
  proof (cases "swap_peers st x y")
    case True
    let ?m = "fst (exchange_pass st y ys)"
    have "\<not> swap_peers st ?m y" "\<not> swap_peers st y x" using 2(1)[OF True] True slower_trans(2) by (simp_all add: swap_slower)
    then have "\<not> swap_peers st ?m x" using slower_trans(1) unfolding swap_slower by blast
    then show ?thesis using 2(1)[OF True] True by (simp add: case_prod_beta add_mset_commute[of _ x])
  next
    case False
    let ?m = "fst (exchange_pass st x ys)"
    have "\<not> swap_peers st ?m y" using 2(2)[OF False] False slower_trans(1) unfolding swap_slower by blast
    then show ?thesis using 2(2)[OF False] False by (simp add: case_prod_beta add_mset_commute[of _ y])
  qed
qed

lemma sorted_peers:
  "mset (getSortedPeersByPerformance st ps) = mset ps \<and> sorted_wrt (\<lambda>a b. \<not> swap_peers st a b) (getSortedPeersByPerformance st ps)"
proof (induction st ps rule: getSortedPeersByPerformance.induct)
  case (2 st x xs)
  let ?r = "exchange_pass st x xs"
  note f = exchange_pass_front[of st x xs]
  have m: "mset (getSortedPeersByPerformance st (snd ?r)) = mset (snd ?r)" using 2 by simp
  then have "set (getSortedPeersByPerformance st (snd ?r)) = set (snd ?r)" by (metis set_mset_mset)
  moreover have "set (snd ?r) \<subseteq> insert x (set xs)"
    using f by (metis insert_subset set_mset_add_mset_insert set_mset_mset subset_refl)
  ultimately show ?case using 2 f m by (auto simp: Let_def)
qed simp

section \<open>Properties\<close>

text \<open>
  The exchange sort of the peers is right: \<open>getSortedPeersByPerformance\<close> permutes its input and no
  peer stands before one that is faster, where a peer that never succeeded is slower than every peer
  that has.
\<close>

lemma fastest_peers_first:
  "mset (getSortedPeersByPerformance st ps) = mset ps
   \<and> sorted_wrt (\<lambda>a b. \<not> slower (peer_speed st a) (peer_speed st b)) (getSortedPeersByPerformance st ps)"
  using sorted_peers[of st ps] by (simp add: swap_slower)

text \<open>
  C14. When \<open>GetBlockCount\<close> returns a height on a state that satisfies the header invariant, every
  block hash from the first block after the checkpoint up to that height is in the cache afterwards:
  \<open>GetBlockHash\<close> answers for each of them without asking a peer and without changing the state.
\<close>

theorem counted_blocks_have_hashes:
  assumes "headers_ok lib st" "GetBlockCount lib now answers st = (Done n, st')" "900000 < k" "k \<le> n"
  shows "\<exists>s. GetBlockHash lib [] k st' = (Done s, st') \<and> map_of (p_headerCache st') k = Some s"
proof -
  have ok: "headers_ok lib st'" using GetBlockCount_ok[OF assms(1), of now answers] assms(2) by simp
  have "n \<le> checkpointHeight + int (length (p_headerCache st'))"
  proof (cases "p_currentHeight st > 0 \<and> now - p_heightCacheTime st < 30")
    case True
    then show ?thesis using assms(1,2) by (auto simp: GetBlockCount_def headers_ok_def)
  next
    case False
    then have "getBlockCountConsensus lib now answers st = (Done n, st')"
      using assms(2) unfolding GetBlockCount_def by (simp only: if_False)
    then show ?thesis using consensus[OF assms(1)] by auto
  qed
  then obtain s where "map_of (p_headerCache st') k = Some s"
    using chain_lookup[OF ok, of k] assms(3,4) by (auto simp: checkpointHeight_def)
  then show ?thesis by (simp add: GetBlockHash_def)
qed

text \<open>One peer, and one header on top of the checkpoint.\<close>

definition checkpoint_header :: header where
  "checkpoint_header = plain_header\<lparr>hd_PrevBlock :=
     [138, 150, 150, 13, 109, 28, 164, 238, 74, 40, 63, 216, 61, 163, 9, 184, 213, 210, 191, 237, 56, 5, 1, 0, 0, 0, 0, 0, 0, 0, 0, 0]\<rparr>"

definition one_peer :: p2p where
  "one_peer = (NewP2PClient False)\<lparr>p_peers := [''peer:8333'']\<rparr>"

lemma one_peer_ok: "headers_ok lib one_peer" "p_peers one_peer \<noteq> []" "highest_cached one_peer = (checkpointHeight, checkpointHashStr)"
  by (simp_all add: headers_ok_def one_peer_def NewP2PClient_def swapped_def checkpointHeight_def highest_cached_def)

theorem counted_blocks_have_hashes_witness:
  "\<exists>s st'. GetBlockCount plain_wire 0 [Some [checkpoint_header]] one_peer = (Done 900001, st')
     \<and> GetBlockHash plain_wire [] 900001 st' = (Done s, st')"
proof -
  let ?r = "GetBlockCount plain_wire 0 [Some [checkpoint_header]] one_peer"
  have "fst ?r = Done 900001" by code_simp
  then have "?r = (Done 900001, snd ?r)" by (metis prod.collapse)
  from this counted_blocks_have_hashes[OF one_peer_ok(1) this, of 900001] show ?thesis by auto
qed

text \<open>
  \<open>GetBlockHash\<close> waits for ever when no peer answers: for a block above the cache, no number of
  timeouts makes it return.  It returns the hash as soon as one peer answers with fewer than two
  thousand acceptable headers that reach the block, however many timeouts came before.
\<close>

lemma header_sync_waits_for_an_answer:
  assumes "p_peers st \<noteq> []" "headers_ok lib st" "fst (highest_cached st) < k"
  shows "fst (GetBlockHash lib (replicate n None) k st) = Blocked
    \<and> (reaches lib st k hs \<longrightarrow> (\<exists>s st'. GetBlockHash lib (replicate n None @ [Some hs]) k st = (Done s, st')))"
proof -
  obtain h s where hs: "highest_cached st = (h, s)" by fastforce
  have c: "chain_from lib (checkpointHeight + 1) checkpointHashStr (p_headerCache st)" using assms(2) by (simp add: headers_ok_def)
  then have hl: "h = checkpointHeight + int (length (p_headerCache st))" using highest_of_chain hs by fastforce
  let ?st1 = "snd (next_peer st)"
  have none: "map_of (p_headerCache st) k = None"
  proof -
    have "k \<notin> set (map fst (p_headerCache st))" unfolding chain_keys[OF c] using assms(3) hs hl by auto
    then show ?thesis by (simp add: map_of_eq_None_iff)
  qed
  have sync: "syncHeadersToHeight lib answers k st = sync_loop lib k answers (fst (next_peer st)) (h + 1) s ?st1" for answers
    using assms(1) hs by (simp add: syncHeadersToHeight_def Let_def case_prod_beta highest_cached_def)
  have le: "h + 1 \<le> k" using assms(3) hs by simp
  obtain peer' st' where t: "\<And>answers. sync_loop lib k (replicate n None @ answers) (fst (next_peer st)) (h + 1) s ?st1
      = sync_loop lib k answers peer' (h + 1) s st'" "p_headerCache st' = p_headerCache st"
    using timeouts_pass[OF le, where st = ?st1 and n = n and lib = lib and peer = "fst (next_peer st)" and prev = s] assms(1) by auto
  have blocked: "fst (GetBlockHash lib (replicate n None) k st) = Blocked"
    using t(1)[of "[]"] le by (simp add: GetBlockHash_def none sync)
  have "\<exists>s' st''. GetBlockHash lib (replicate n None @ [Some hds]) k st = (Done s', st'')" if r: "reaches lib st k hds" for hds
  proof -
    let ?r = "accept_headers lib (Some k) (h + 1) s hds"
    have r': "length hds < 2000" "snd ?r" "k \<in> fst ` set (fst ?r)" using r hs by (simp_all only: reaches_def Let_def fst_conv snd_conv)
    obtain xs v where xv: "?r = (xs, v)" by fastforce
    then have xs: "?r = (xs, True)" "k \<in> fst ` set xs" using r' by simp_all
    have ne: "hds \<noteq> []" using r'(3) by auto
    have "sync_loop lib k [Some hds] peer' (h + 1) s st' = (Done (), cache_headers xs st')"
      using xs ne le r'(1) by (simp add: Let_def)
    moreover have "map_of (p_headerCache (cache_headers xs st')) k \<noteq> None"
    proof -
      have "fst ` set (foldl (\<lambda>m (h, s). AList.update h s m) m xs) = fst ` set m \<union> fst ` set xs" for m xs :: "(int \<times> string) list"
        by (induction xs arbitrary: m) (simp_all add: dom_update case_prod_beta)
      then show ?thesis using xs(2) by (simp add: cache_headers_def map_of_eq_None_iff)
    qed
    ultimately show ?thesis using t(1)[of "[Some hds]"] by (auto simp: GetBlockHash_def none sync)
  qed
  then show ?thesis using blocked by blast
qed

lemma header_sync_waits_for_an_answer_example:
  "fst (GetBlockHash plain_wire (replicate 40 None) 900001 one_peer) = Blocked
   \<and> (\<exists>s st'. GetBlockHash plain_wire (replicate 40 None @ [Some [checkpoint_header]]) 900001 one_peer = (Done s, st'))"
proof -
  have "reaches plain_wire one_peer 900001 [checkpoint_header]" by code_simp
  then show ?thesis
    using header_sync_waits_for_an_answer[OF one_peer_ok(2,1), of 900001 plain_wire 40 "[checkpoint_header]"] one_peer_ok(3)
    by (simp add: checkpointHeight_def)
qed

end
