(* ===== verification/Blocks.thy ===== *)
theory Blocks
  imports Peers
begin

text \<open>
  The requests for blocks in \<^verbatim>\<open>src/internal/bitcoin/p2p_client.go\<close>.  \<open>GetBlock\<close> asks up to three peers
  at once; their goroutines share one entry of \<^verbatim>\<open>pendingBlocks\<close>, the channel that was registered
  last.  The interleaving is a list of events: a goroutine registers its channel, a block message
  arrives and goes to the registered channel, a goroutine finishes (with the block in its channel,
  or by the timeout of fifteen seconds, which also removes the entry).  Every goroutine finishes,
  so the list given to a request is taken to be complete.
\<close>

datatype net_event = Registers nat | Delivers msg_block | Finishes nat int

record request_state =
  rq_pending :: "nat option"
  rq_inbox :: "(nat \<times> msg_block) list"
  rq_results :: "(nat \<times> btc_block option) list"

definition new_request :: request_state where
  "new_request = \<lparr> rq_pending = None, rq_inbox = [], rq_results = [] \<rparr>"

text \<open>\<open>convertWireBlock\<close> also indexes the transactions of the block.\<close>

definition index_block :: "string \<Rightarrow> btc_block \<Rightarrow> p2p \<Rightarrow> p2p" where
  "index_block hash block st =
     st\<lparr>p_txToBlockHash := foldl (\<lambda>m tx. AList.update (tx_TxID tx) hash m) (p_txToBlockHash st) (bk_Transactions block)\<rparr>"

definition cache_block :: "string \<Rightarrow> btc_block \<Rightarrow> p2p \<Rightarrow> p2p" where
  "cache_block hash block st = st\<lparr>p_blockCache := AList.update hash block (p_blockCache st)\<rparr>"

definition onBlock :: "'k wire_lib \<Rightarrow> string \<Rightarrow> msg_block \<Rightarrow> request_state \<Rightarrow> request_state" where
  "onBlock lib hashStr m rq =
     (if hash_string (wl_BlockHash lib (mb_Header m)) \<noteq> hashStr then rq
      else case rq_pending rq of
        None \<Rightarrow> rq
      | Some i \<Rightarrow> rq\<lparr>rq_pending := None, rq_inbox := rq_inbox rq @ [(i, m)]\<rparr>)"

text \<open>The end of \<open>requestBlockFromPeer\<close> in goroutine \<open>i\<close>, and its entry in the statistics.\<close>

definition finish_request ::
  "'k wire_lib \<Rightarrow> string \<Rightarrow> string \<Rightarrow> nat \<Rightarrow> int \<Rightarrow> request_state \<Rightarrow> p2p \<Rightarrow> request_state \<times> p2p" where
  "finish_request lib hashStr peerAddr i responseTime rq st =
     (case map_of (rq_inbox rq) i of
        Some m \<Rightarrow>
          if validateBlockMerkleRoot lib m then
            let block = convertWireBlock lib (p_network st) m hashStr 0 in
            (rq\<lparr>rq_pending := None, rq_results := rq_results rq @ [(i, Some block)]\<rparr>,
             updatePeerStats peerAddr True responseTime (cache_block hashStr block (index_block hashStr block st)))
          else (rq\<lparr>rq_pending := None, rq_results := rq_results rq @ [(i, None)]\<rparr>, updatePeerStats peerAddr False responseTime st)
      | None \<Rightarrow>
          (rq\<lparr>rq_pending := None, rq_results := rq_results rq @ [(i, None)]\<rparr>, updatePeerStats peerAddr False responseTime st))"

definition request_step ::
  "'k wire_lib \<Rightarrow> string \<Rightarrow> string list \<Rightarrow> request_state \<times> p2p \<Rightarrow> net_event \<Rightarrow> request_state \<times> p2p" where
  "request_step lib hashStr peers s e =
     (case e of
        Registers i \<Rightarrow> ((fst s)\<lparr>rq_pending := Some i\<rparr>, snd s)
      | Delivers m \<Rightarrow> (onBlock lib hashStr m (fst s), snd s)
      | Finishes i t \<Rightarrow>
          if i < length peers \<and> i \<notin> fst ` set (rq_results (fst s))
          then finish_request lib hashStr (peers ! i) i t (fst s) (snd s) else s)"

definition run_requests ::
  "'k wire_lib \<Rightarrow> string \<Rightarrow> string list \<Rightarrow> net_event list \<Rightarrow> p2p \<Rightarrow> request_state \<times> p2p" where
  "run_requests lib hashStr peers events st = foldl (request_step lib hashStr peers) (new_request, st) events"

text \<open>The first successful result.\<close>

definition first_block :: "request_state \<Rightarrow> btc_block option" where
  "first_block rq = (case find (\<lambda>r. snd r \<noteq> None) (rq_results rq) of None \<Rightarrow> None | Some r \<Rightarrow> snd r)"

record 'k net_env =
  ne_lib :: "'k wire_lib"
  ne_Connected :: "string \<Rightarrow> bool"
  ne_connects :: "string \<Rightarrow> bool"
  ne_events :: "string \<Rightarrow> net_event list"

text \<open>\<^verbatim>\<open>chainhash.NewHashFromStr\<close> accepts up to 64 hexadecimal digits.\<close>

definition NewHashFromStr :: "string \<Rightarrow> bool" where
  "NewHashFromStr s \<longleftrightarrow> length s \<le> 64 \<and> list_all (\<lambda>c. hex_val c \<noteq> None) s"

definition GetBlock :: "'k net_env \<Rightarrow> string \<Rightarrow> p2p \<Rightarrow> btc_block option \<times> p2p" where
  "GetBlock env hashStr st =
     (case map_of (p_blockCache st) hashStr of
        Some cached \<Rightarrow> (Some cached, st)
      | None \<Rightarrow>
          let availablePeers = filter (ne_Connected env) (p_peers st) in
          if \<not> NewHashFromStr hashStr then (None, st)
          else if availablePeers = [] then (None, tryConnectNewPeer (ne_connects env) st)
          else
            let asked = take 3 (getSortedPeersByPerformance st availablePeers);
                (rq, st1) = run_requests (ne_lib env) hashStr asked (ne_events env hashStr) st in
            case first_block rq of
              Some block \<Rightarrow> (Some block, st1)
            | None \<Rightarrow> (None, tryConnectNewPeer (ne_connects env) st1))"

section \<open>Input addresses\<close>

definition with_addresses :: "btc_block \<Rightarrow> bool" where
  "with_addresses b \<longleftrightarrow> length (bk_Transactions b) > 1 \<and> tx_Inputs (bk_Transactions b ! 1) \<noteq> []
     \<and> in_Address (tx_Inputs (bk_Transactions b ! 1) ! 0) \<noteq> []"

definition current_txs :: "btc_block \<Rightarrow> string \<Rightarrow> btc_tx option" where
  "current_txs block = map_of (rev (map (\<lambda>tx. (tx_TxID tx, tx)) (bk_Transactions block)))"

text \<open>The blocks to download, each once (a Go set, here in the order of the inputs).\<close>

definition needed_blocks :: "btc_block \<Rightarrow> p2p \<Rightarrow> string list" where
  "needed_blocks block st =
     remdups (concat (map (\<lambda>tx. concat (map (\<lambda>input.
         if in_Address input \<noteq> [] \<or> current_txs block (in_TxID input) \<noteq> None then []
         else case map_of (p_txToBlockHash st) (in_TxID input) of None \<Rightarrow> [] | Some h \<Rightarrow> [h]) (tx_Inputs tx)))
       (drop 1 (bk_Transactions block))))"

definition set_height :: "string \<Rightarrow> btc_block \<Rightarrow> p2p \<Rightarrow> btc_block \<times> p2p" where
  "set_height hash block st =
     (case GetHeightForBlockHash hash st of
        None \<Rightarrow> (block, st)
      | Some h \<Rightarrow> (block\<lparr>bk_Height := h\<rparr>, cache_block hash (block\<lparr>bk_Height := h\<rparr>) st))"

definition download_step ::
  "'k net_env \<Rightarrow> (string \<times> btc_block) list \<times> p2p \<Rightarrow> string \<Rightarrow> (string \<times> btc_block) list \<times> p2p" where
  "download_step env s hash =
     (case GetBlock env hash (snd s) of
        (None, st1) \<Rightarrow> (fst s, st1)
      | (Some b, st1) \<Rightarrow> (case set_height hash b st1 of (b', st2) \<Rightarrow> (AList.update hash b' (fst s), st2)))"

definition find_prev :: "btc_block \<Rightarrow> (string \<times> btc_block) list \<Rightarrow> p2p \<Rightarrow> string \<Rightarrow> btc_tx option" where
  "find_prev block downloaded st txid =
     (case current_txs block txid of
        Some tx \<Rightarrow> Some tx
      | None \<Rightarrow>
          (case map_of (p_txToBlockHash st) txid of
             None \<Rightarrow> None
           | Some h \<Rightarrow> (case map_of downloaded h of
                None \<Rightarrow> None
              | Some b \<Rightarrow> find (\<lambda>tx. tx_TxID tx = txid) (bk_Transactions b))))"

definition resolve_input :: "(string \<Rightarrow> btc_tx option) \<Rightarrow> tx_input \<Rightarrow> tx_input" where
  "resolve_input prev input =
     (if in_Address input \<noteq> [] then input
      else case prev (in_TxID input) of
        None \<Rightarrow> input
      | Some prevTx \<Rightarrow>
          if in_Vout input < int (length (tx_Outputs prevTx)) then
            let prevOutput = tx_Outputs prevTx ! nat (in_Vout input) in
            if spk_Addresses prevOutput \<noteq> [] then input\<lparr>in_Address := hd (spk_Addresses prevOutput)\<rparr>
            else if spk_Address prevOutput \<noteq> [] then input\<lparr>in_Address := spk_Address prevOutput\<rparr>
            else input
          else input)"

definition resolve_inputs :: "(string \<Rightarrow> btc_tx option) \<Rightarrow> btc_block \<Rightarrow> btc_block" where
  "resolve_inputs prev block =
     block\<lparr>bk_Transactions := take 1 (bk_Transactions block)
       @ map (\<lambda>tx. tx\<lparr>tx_Inputs := map (resolve_input prev) (tx_Inputs tx)\<rparr>) (drop 1 (bk_Transactions block))\<rparr>"

text \<open>
  \<^verbatim>\<open>GetBlockWithInputs\<close>; an unknown height is zero.  The block is a pointer into the cache, so the
  height is written there as well.
\<close>

definition GetBlockWithInputs :: "'k net_env \<Rightarrow> string \<Rightarrow> p2p \<Rightarrow> btc_block option \<times> p2p" where
  "GetBlockWithInputs env hashStr st =
     (let cached = map_of (p_blockCache st) hashStr in
      if (case cached of Some c \<Rightarrow> with_addresses c | None \<Rightarrow> False) then (cached, st)
      else
        let height = case_option 0 id (GetHeightForBlockHash hashStr st) in
        case GetBlock env hashStr st of
          (None, st1) \<Rightarrow> (None, st1)
        | (Some b, st1) \<Rightarrow>
            let block = b\<lparr>bk_Height := height\<rparr>;
                st2 = cache_block hashStr block st1;
                (downloaded, st3) = foldl (download_step env) ([], st2) (needed_blocks block st2);
                resolved = resolve_inputs (find_prev block downloaded st3) block
            in (Some resolved, cache_block hashStr resolved st3))"

section \<open>One request\<close>

text \<open>The answer as it follows from the order of events alone.\<close>

definition wanted :: "'k wire_lib \<Rightarrow> string \<Rightarrow> msg_block \<Rightarrow> bool" where
  "wanted lib hashStr m \<longleftrightarrow> hash_string (wl_BlockHash lib (mb_Header m)) = hashStr"

definition usable_block :: "'k wire_lib \<Rightarrow> chain_params \<Rightarrow> string \<Rightarrow> msg_block \<Rightarrow> btc_block option" where
  "usable_block lib network hashStr m =
     (if validateBlockMerkleRoot lib m then Some (convertWireBlock lib network m hashStr 0) else None)"

fun request_answer :: "'k wire_lib \<Rightarrow> chain_params \<Rightarrow> string \<Rightarrow> nat \<Rightarrow> net_event list \<Rightarrow> btc_block option" where
  "request_answer lib network hashStr n [] = None"
| "request_answer lib network hashStr n (Registers i # es) = None"
| "request_answer lib network hashStr n (Delivers m # es) =
     (if wanted lib hashStr m then usable_block lib network hashStr m else request_answer lib network hashStr n es)"
| "request_answer lib network hashStr n (Finishes i t # es) =
     (if i < n then None else request_answer lib network hashStr n es)"

definition no_registration :: "net_event list \<Rightarrow> bool" where
  "no_registration = list_all (\<lambda>e. case e of Registers i \<Rightarrow> False | _ \<Rightarrow> True)"

lemma no_registration_Cons [simp]:
  "no_registration [] = True" "no_registration (Registers i # es) = False"
  "no_registration (Delivers m # es) = no_registration es" "no_registration (Finishes i t # es) = no_registration es"
  by (simp_all add: no_registration_def)

lemma stats_fields [simp]:
  "p_network (updatePeerStats a b t st) = p_network st" "p_headerCache (updatePeerStats a b t st) = p_headerCache st"
  "p_hashToHeight (updatePeerStats a b t st) = p_hashToHeight st" "p_currentHeight (updatePeerStats a b t st) = p_currentHeight st"
  "p_blockCache (updatePeerStats a b t st) = p_blockCache st" "p_txToBlockHash (updatePeerStats a b t st) = p_txToBlockHash st"
  by (simp_all add: updatePeerStats_def Let_def)

lemma cache_block_fields [simp]:
  "p_network (cache_block h b st) = p_network st" "p_headerCache (cache_block h b st) = p_headerCache st"
  "p_hashToHeight (cache_block h b st) = p_hashToHeight st" "p_currentHeight (cache_block h b st) = p_currentHeight st"
  "p_blockCache (cache_block h b st) = AList.update h b (p_blockCache st)" "p_txToBlockHash (cache_block h b st) = p_txToBlockHash st"
  by (simp_all add: cache_block_def)

lemma index_block_fields [simp]:
  "p_network (index_block h b st) = p_network st" "p_headerCache (index_block h b st) = p_headerCache st"
  "p_hashToHeight (index_block h b st) = p_hashToHeight st" "p_currentHeight (index_block h b st) = p_currentHeight st"
  "p_blockCache (index_block h b st) = p_blockCache st"
  by (simp_all add: index_block_def)

lemma find_request_fields [simp]:
  "p_network (snd (finish_request lib h a i t rq st)) = p_network st"
  "p_headerCache (snd (finish_request lib h a i t rq st)) = p_headerCache st"
  "p_hashToHeight (snd (finish_request lib h a i t rq st)) = p_hashToHeight st"
  "p_currentHeight (snd (finish_request lib h a i t rq st)) = p_currentHeight st"
  by (simp_all add: finish_request_def Let_def split: option.splits)

lemma run_network: "p_network (snd (foldl (request_step lib h peers) s es)) = p_network (snd s)"
  by (induction es arbitrary: s) (auto simp: request_step_def split: net_event.splits)

text \<open>Once an answer is taken out of the network, or the entry is gone, later messages change nothing.\<close>

definition settled :: "'k wire_lib \<Rightarrow> chain_params \<Rightarrow> string \<Rightarrow> nat \<Rightarrow> btc_block option \<Rightarrow> request_state \<Rightarrow> bool" where
  "settled lib network h k r rq \<longleftrightarrow>
     rq_pending rq = None
     \<and> (case map_of (rq_inbox rq) k of None \<Rightarrow> r = None | Some m \<Rightarrow> r = usable_block lib network h m)
     \<and> (\<forall>i. i \<noteq> k \<longrightarrow> map_of (rq_inbox rq) i = None)
     \<and> (\<forall>x\<in>set (rq_results rq). snd x = (if fst x = k then r else None))"

lemma settled_step:
  assumes "settled lib (p_network (snd s)) h k r (fst s)" "no_registration [e]"
  shows "settled lib (p_network (snd s)) h k r (fst (request_step lib h peers s e))"
proof (cases e)
  case (Finishes i t)
  show ?thesis
  proof (cases "i = k")
    case True
    then show ?thesis using assms(1) Finishes
      by (auto simp: request_step_def finish_request_def settled_def usable_block_def Let_def split: option.splits)
  next
    case False
    then have "map_of (rq_inbox (fst s)) i = None" using assms(1) by (simp add: settled_def)
    then show ?thesis using assms(1) Finishes False
      by (auto simp: request_step_def finish_request_def settled_def)
  qed
qed (use assms in \<open>auto simp: request_step_def onBlock_def settled_def\<close>)

lemma settled_run:
  "settled lib (p_network (snd s)) h k r (fst s) \<Longrightarrow> no_registration es \<Longrightarrow>
     settled lib (p_network (snd s)) h k r (fst (foldl (request_step lib h peers) s es))"
proof (induction es arbitrary: s)
  case (Cons e es)
  have e: "no_registration [e]" "no_registration es" using Cons.prems(2) by (cases e; simp)+
  have "p_network (snd (request_step lib h peers s e)) = p_network (snd s)"
    using run_network[of lib h peers s "[e]"] by simp
  then show ?case using Cons.IH[OF _ e(2), of "request_step lib h peers s e"] settled_step[OF Cons.prems(1) e(1), of peers] by simp
qed simp

text \<open>A goroutine that finishes has a result.\<close>

lemma results_grow: "fst ` set (rq_results (fst s)) \<subseteq> fst ` set (rq_results (fst (foldl (request_step lib h peers) s es)))"
proof (induction es arbitrary: s)
  case (Cons e es)
  have "fst ` set (rq_results (fst s)) \<subseteq> fst ` set (rq_results (fst (request_step lib h peers s e)))"
    by (auto simp: request_step_def onBlock_def finish_request_def Let_def split: net_event.splits option.splits)
  then show ?case using Cons.IH[of "request_step lib h peers s e"] by auto
qed simp

lemma finished_has_result:
  "Finishes i t \<in> set es \<Longrightarrow> i < length peers \<Longrightarrow> i \<in> fst ` set (rq_results (fst (foldl (request_step lib h peers) s es)))"
proof (induction es arbitrary: s)
  case (Cons e es)
  show ?case
  proof (cases "e = Finishes i t")
    case True
    have "i \<in> fst ` set (rq_results (fst (request_step lib h peers s e)))"
      using True Cons.prems(2) by (auto simp: request_step_def finish_request_def Let_def split: option.splits)
    then show ?thesis using results_grow[of "request_step lib h peers s e" lib h peers es] by auto
  qed (use Cons in auto)
qed simp

lemma settled_first_block:
  assumes "settled lib network h k r rq" "k \<in> fst ` set (rq_results rq)"
  shows "first_block rq = r"
proof (cases "find (\<lambda>x. snd x \<noteq> None) (rq_results rq)")
  case None
  obtain x where x: "x \<in> set (rq_results rq)" "fst x = k" using assms(2) by auto
  then have "snd x = None" using None by (metis (mono_tags, lifting) find_None_iff)
  moreover have "snd x = r" using assms(1) x by (simp add: settled_def)
  ultimately show ?thesis using None by (simp add: first_block_def)
next
  case (Some x)
  then have "x \<in> set (rq_results rq)" "snd x \<noteq> None" by (metis (mono_tags, lifting) find_Some_iff nth_mem)+
  then show ?thesis using assms(1) Some by (auto simp: settled_def first_block_def split: if_splits)
qed

lemma registrations:
  "foldl (request_step lib h peers) (new_request, st) (map Registers [0..<n])
     = (new_request\<lparr>rq_pending := if n = 0 then None else Some (n - 1)\<rparr>, st)"
  by (induction n) (simp_all add: request_step_def new_request_def)

lemma waiting_run:
  assumes "0 < length peers" "no_registration es" "Finishes (length peers - 1) t \<in> set es"
  shows "first_block (fst (foldl (request_step lib h peers) (new_request\<lparr>rq_pending := Some (length peers - 1)\<rparr>, st) es))
    = request_answer lib (p_network st) h (length peers) es"
  using assms(2,3)
proof (induction es)
  case (Cons e es)
  let ?k = "length peers - 1" and ?s = "(new_request\<lparr>rq_pending := Some (length peers - 1)\<rparr>, st)"
  let ?s' = "request_step lib h peers ?s e"
  have nr: "no_registration es" using Cons.prems(1) by (cases e) simp_all
  have decided: "first_block (fst (foldl (request_step lib h peers) ?s (e # es))) = r"
    if "settled lib (p_network (snd ?s')) h ?k r (fst ?s')" for r
  proof -
    have "settled lib (p_network (snd ?s')) h ?k r (fst (foldl (request_step lib h peers) ?s (e # es)))"
      using settled_run[OF that nr] by simp
    moreover have "?k \<in> fst ` set (rq_results (fst (foldl (request_step lib h peers) ?s (e # es))))"
      using assms(1) by (intro finished_has_result[OF Cons.prems(2)]) simp
    ultimately show ?thesis by (rule settled_first_block)
  qed
  show ?case
  proof (cases e)
    case (Delivers m)
    show ?thesis
    proof (cases "wanted lib h m")
      case True
      have "settled lib (p_network (snd ?s')) h ?k (usable_block lib (p_network st) h m) (fst ?s')"
        using True Delivers by (simp add: request_step_def onBlock_def wanted_def settled_def new_request_def)
      from decided[OF this] show ?thesis using True Delivers by simp
    next
      case False
      then have "?s' = ?s" using Delivers by (simp add: request_step_def onBlock_def wanted_def)
      then show ?thesis using Cons.IH nr Cons.prems(2) Delivers False by simp
    qed
  next
    case (Finishes i t')
    show ?thesis
    proof (cases "i < length peers")
      case True
      have "settled lib (p_network (snd ?s')) h ?k None (fst ?s')"
        using True Finishes by (simp add: request_step_def finish_request_def settled_def new_request_def)
      from decided[OF this] show ?thesis using True Finishes by simp
    next
      case False
      then have "?s' = ?s" using Finishes by (simp add: request_step_def)
      moreover have "Finishes ?k t \<in> set es" using Cons.prems(2) Finishes False assms(1) by auto
      ultimately show ?thesis using Cons.IH nr Finishes False by simp
    qed
  qed (use Cons.prems in simp)
qed simp

section \<open>What the block cache holds\<close>

text \<open>A block without its height and its input addresses.\<close>

definition erased :: "btc_block \<Rightarrow> btc_block" where
  "erased b = b\<lparr>bk_Height := 0, bk_Transactions :=
     map (\<lambda>tx. tx\<lparr>tx_Inputs := map (\<lambda>i. i\<lparr>in_Address := []\<rparr>) (tx_Inputs tx)\<rparr>) (bk_Transactions b)\<rparr>"

text \<open>Up to these, the block is that of a message with the hash whose merkle root was checked.\<close>

definition from_network :: "'k wire_lib \<Rightarrow> chain_params \<Rightarrow> string \<Rightarrow> btc_block \<Rightarrow> bool" where
  "from_network lib network hash b \<longleftrightarrow>
     (\<exists>m. wanted lib hash m \<and> validateBlockMerkleRoot lib m \<and> erased b = erased (convertWireBlock lib network m hash 0))"

definition first_address :: "script_pub_key \<Rightarrow> string" where
  "first_address out = (if spk_Addresses out \<noteq> [] then hd (spk_Addresses out) else spk_Address out)"

text \<open>
  Where an input address comes from: the witness of the input, or the output it spends, of a
  transaction in a block from the network.
\<close>

definition address_origin :: "'k wire_lib \<Rightarrow> chain_params \<Rightarrow> tx_input \<Rightarrow> bool" where
  "address_origin lib network i \<longleftrightarrow>
     in_Address i = [] \<or> (\<exists>txIn. i = convert_input lib network txIn)
     \<or> (\<exists>hash b tx. from_network lib network hash b \<and> tx \<in> set (bk_Transactions b) \<and> tx_TxID tx = in_TxID i
          \<and> in_Vout i < int (length (tx_Outputs tx)) \<and> in_Address i = first_address (tx_Outputs tx ! nat (in_Vout i)))"

definition block_ok :: "'k wire_lib \<Rightarrow> chain_params \<Rightarrow> string \<Rightarrow> btc_block \<Rightarrow> bool" where
  "block_ok lib network hash b \<longleftrightarrow>
     from_network lib network hash b \<and> (\<forall>tx\<in>set (bk_Transactions b). \<forall>i\<in>set (tx_Inputs tx). address_origin lib network i)"

definition client_ok :: "'k wire_lib \<Rightarrow> p2p \<Rightarrow> bool" where
  "client_ok lib st \<longleftrightarrow> headers_ok lib st \<and> (\<forall>e\<in>set (p_blockCache st). block_ok lib (p_network st) (fst e) (snd e))"

lemma converted_block_ok:
  "wanted lib hash m \<Longrightarrow> validateBlockMerkleRoot lib m \<Longrightarrow> block_ok lib network hash (convertWireBlock lib network m hash h)"
  unfolding block_ok_def from_network_def address_origin_def
  by (auto simp: erased_def convertWireBlock_def convertWireTransaction_def intro!: exI[of _ m])

lemma height_ok: "block_ok lib network hash (b\<lparr>bk_Height := h\<rparr>) = block_ok lib network hash b"
  by (simp add: block_ok_def from_network_def erased_def)

lemma update_subset: "set (AList.update k v m) \<subseteq> insert (k, v) (set m)"
  by (induction m) auto

lemma cache_block_ok:
  assumes "client_ok lib st" "block_ok lib (p_network st) hash b"
  shows "client_ok lib (cache_block hash b st)"
proof -
  have "headers_ok lib (cache_block hash b st)" using assms(1) by (simp add: client_ok_def headers_ok_def)
  moreover have "block_ok lib (p_network st) h c" if "(h, c) \<in> set (AList.update hash b (p_blockCache st))" for h c
    using that update_subset[of hash b "p_blockCache st"] assms by (fastforce simp: client_ok_def)
  ultimately show ?thesis by (auto simp: client_ok_def)
qed

lemma client_ok_bookkeeping [simp]:
  "client_ok lib (updatePeerStats a v t st) = client_ok lib st" "client_ok lib (index_block h b st) = client_ok lib st"
  by (simp_all add: client_ok_def headers_ok_def)

lemma cached_ok: "client_ok lib st \<Longrightarrow> map_of (p_blockCache st) hash = Some b \<Longrightarrow> block_ok lib (p_network st) hash b"
  using map_of_SomeD by (fastforce simp: client_ok_def)

text \<open>Requests: what waits in a channel has the wanted hash.\<close>

definition request_ok :: "'k wire_lib \<Rightarrow> string \<Rightarrow> request_state \<times> p2p \<Rightarrow> bool" where
  "request_ok lib hash s \<longleftrightarrow> client_ok lib (snd s)
     \<and> (\<forall>x\<in>set (rq_inbox (fst s)). wanted lib hash (snd x))
     \<and> (\<forall>x\<in>set (rq_results (fst s)). \<forall>b. snd x = Some b \<longrightarrow> block_ok lib (p_network (snd s)) hash b)"

lemma finish_request_ok:
  assumes "request_ok lib hash (rq, st)"
  shows "request_ok lib hash (finish_request lib hash a i t rq st)"
proof (cases "map_of (rq_inbox rq) i")
  case None
  then show ?thesis using assms by (auto simp: request_ok_def finish_request_def)
next
  case (Some m)
  have m: "wanted lib hash m" using assms map_of_SomeD[OF Some] by (fastforce simp: request_ok_def)
  let ?b = "convertWireBlock lib (p_network st) m hash 0"
  have "client_ok lib (cache_block hash ?b (index_block hash ?b st))" if "validateBlockMerkleRoot lib m"
    using assms converted_block_ok[OF m that] by (intro cache_block_ok) (simp_all add: request_ok_def)
  then show ?thesis using assms Some converted_block_ok[OF m] by (auto simp: request_ok_def finish_request_def Let_def)
qed

lemma run_requests_ok:
  assumes "client_ok lib st"
  shows "request_ok lib hash (run_requests lib hash peers es st)"
proof -
  have step: "request_ok lib hash (request_step lib hash peers s e)" if "request_ok lib hash s" for s e
    using that finish_request_ok[of lib hash "fst s" "snd s"]
    by (auto simp: request_step_def onBlock_def request_ok_def wanted_def split: net_event.splits option.splits)
  have run: "request_ok lib hash s \<Longrightarrow> request_ok lib hash (foldl (request_step lib hash peers) s es)" for s
    by (induction es arbitrary: s) (simp_all add: step)
  have "request_ok lib hash (new_request, st)" using assms by (simp add: request_ok_def new_request_def)
  from run[OF this] show ?thesis by (simp add: run_requests_def)
qed

lemma connect_ok: "client_ok lib (tryConnectNewPeer c st) = client_ok lib st" "p_network (tryConnectNewPeer c st) = p_network st"
  by (simp_all add: client_ok_def headers_ok_def tryConnectNewPeer_def split: option.splits)

lemma GetBlock_ok:
  assumes "client_ok (ne_lib env) st" "GetBlock env hash st = (r, st')"
  shows "client_ok (ne_lib env) st' \<and> p_network st' = p_network st \<and> (\<forall>b. r = Some b \<longrightarrow> block_ok (ne_lib env) (p_network st) hash b)"
proof (cases "map_of (p_blockCache st) hash")
  case (Some c)
  then show ?thesis using assms cached_ok[OF assms(1) Some] by (auto simp: GetBlock_def)
next
  case None
  let ?asked = "take 3 (getSortedPeersByPerformance st (filter (ne_Connected env) (p_peers st)))"
  obtain rq st1 where r: "run_requests (ne_lib env) hash ?asked (ne_events env hash) st = (rq, st1)" by fastforce
  have ok: "request_ok (ne_lib env) hash (rq, st1)" using run_requests_ok[OF assms(1)] r by metis
  have n: "p_network st1 = p_network st" using run_network[of "ne_lib env" hash ?asked "(new_request, st)"] r
    by (metis run_requests_def snd_conv)
  have "block_ok (ne_lib env) (p_network st) hash b" if "first_block rq = Some b" for b
  proof -
    obtain x where "x \<in> set (rq_results rq)" "snd x = Some b"
      using \<open>first_block rq = Some b\<close> unfolding first_block_def
      by (auto split: option.splits) (metis (mono_tags, lifting) find_Some_iff nth_mem)
    then show ?thesis using ok n by (auto simp: request_ok_def)
  qed
  then show ?thesis using assms None r ok n
    by (auto simp: GetBlock_def Let_def connect_ok request_ok_def split: if_splits option.splits)
qed

section \<open>Resolved inputs\<close>

text \<open>A transaction with the id, of a block from the network.\<close>

definition known_tx :: "'k wire_lib \<Rightarrow> chain_params \<Rightarrow> string \<Rightarrow> btc_tx \<Rightarrow> bool" where
  "known_tx lib network txid tx \<longleftrightarrow>
     tx_TxID tx = txid \<and> (\<exists>hash b. from_network lib network hash b \<and> tx \<in> set (bk_Transactions b))"

lemma resolved_origin:
  assumes "address_origin lib network i" "\<And>txid tx. prev txid = Some tx \<Longrightarrow> known_tx lib network txid tx"
  shows "address_origin lib network (resolve_input prev i)"
proof (cases "in_Address i \<noteq> [] \<or> prev (in_TxID i) = None")
  case True
  then show ?thesis using assms(1) by (auto simp: resolve_input_def)
next
  case False
  then obtain tx where tx: "prev (in_TxID i) = Some tx" by blast
  then obtain hash b where b: "from_network lib network hash b" "tx \<in> set (bk_Transactions b)" "tx_TxID tx = in_TxID i"
    using assms(2)[OF tx] unfolding known_tx_def by blast
  show ?thesis
  proof (cases "in_Vout i < int (length (tx_Outputs tx))")
    case True
    have "in_Address (resolve_input prev i) = first_address (tx_Outputs tx ! nat (in_Vout i))"
      "in_TxID (resolve_input prev i) = in_TxID i" "in_Vout (resolve_input prev i) = in_Vout i"
      using False tx True by (auto simp: resolve_input_def first_address_def Let_def)
    then show ?thesis unfolding address_origin_def using b True by metis
  qed (use assms(1) tx in \<open>auto simp: resolve_input_def\<close>)
qed

lemma erased_resolve: "erased (resolve_inputs prev b) = erased b"
proof -
  have i: "(resolve_input prev i)\<lparr>in_Address := []\<rparr> = i\<lparr>in_Address := []\<rparr>" for i
    by (simp add: resolve_input_def Let_def split: option.splits)
  let ?f = "\<lambda>tx :: btc_tx. tx\<lparr>tx_Inputs := map (\<lambda>i. i\<lparr>in_Address := []\<rparr>) (tx_Inputs tx)\<rparr>"
  let ?g = "\<lambda>tx :: btc_tx. tx\<lparr>tx_Inputs := map (resolve_input prev) (tx_Inputs tx)\<rparr>"
  have fg: "?f (?g tx) = ?f tx" for tx by (simp add: i cong: map_cong)
  have "map ?f (map ?g ys) = map ?f ys" for ys by (induction ys) (simp_all only: list.map fg)
  then have "map ?f (take 1 xs @ map ?g (drop 1 xs)) = map ?f (take 1 xs @ drop 1 xs)" for xs
    by (simp only: map_append)
  then show ?thesis by (simp add: erased_def resolve_inputs_def)
qed

lemma resolve_inputs_ok:
  assumes "block_ok lib network hash b" "\<And>txid tx. prev txid = Some tx \<Longrightarrow> known_tx lib network txid tx"
  shows "block_ok lib network hash (resolve_inputs prev b)"
proof -
  have "address_origin lib network i"
    if t: "tx \<in> set (bk_Transactions (resolve_inputs prev b))" and it: "i \<in> set (tx_Inputs tx)" for tx i
  proof -
    have "tx \<in> set (take 1 (bk_Transactions b))
        \<or> tx \<in> (\<lambda>tx. tx\<lparr>tx_Inputs := map (resolve_input prev) (tx_Inputs tx)\<rparr>) ` set (drop 1 (bk_Transactions b))"
      using t by (simp add: resolve_inputs_def del: One_nat_def)
    then obtain tx0 where "tx0 \<in> set (bk_Transactions b)" "tx = tx0 \<or> tx = tx0\<lparr>tx_Inputs := map (resolve_input prev) (tx_Inputs tx0)\<rparr>"
      by (elim disjE imageE) (blast dest: in_set_takeD in_set_dropD)+
    then show ?thesis using assms(1) it resolved_origin[OF _ assms(2)] by (auto simp: block_ok_def)
  qed
  then show ?thesis using assms(1) by (simp add: block_ok_def from_network_def erased_resolve)
qed

lemma set_height_ok:
  assumes "client_ok lib st" "block_ok lib (p_network st) hash b"
  shows "client_ok lib (snd (set_height hash b st)) \<and> p_network (snd (set_height hash b st)) = p_network st
    \<and> block_ok lib (p_network st) hash (fst (set_height hash b st))"
  using assms cache_block_ok[OF assms(1)] by (auto simp: set_height_def height_ok split: option.splits)

lemma downloads_ok:
  assumes "client_ok (ne_lib env) st" "\<forall>(h, b)\<in>set d. from_network (ne_lib env) (p_network st) h b"
    "foldl (download_step env) (d, st) hashes = (d', st')"
  shows "client_ok (ne_lib env) st' \<and> p_network st' = p_network st
    \<and> (\<forall>(h, b)\<in>set d'. from_network (ne_lib env) (p_network st) h b)"
  using assms
proof (induction hashes arbitrary: d st)
  case (Cons hash hashes)
  obtain r st1 where g: "GetBlock env hash st = (r, st1)" by fastforce
  note ok = GetBlock_ok[OF Cons.prems(1) g]
  show ?case
  proof (cases r)
    case None
    then show ?thesis using Cons.IH[of st1 d] Cons.prems ok g by (simp add: download_step_def)
  next
    case (Some b)
    obtain b' st2 where h: "set_height hash b st1 = (b', st2)" by fastforce
    have ok2: "client_ok (ne_lib env) st2" "p_network st2 = p_network st" "from_network (ne_lib env) (p_network st) hash b'"
      using set_height_ok[of "ne_lib env" st1 hash b] ok Some h by (auto simp: block_ok_def)
    then have "\<forall>(h, b)\<in>set (AList.update hash b' d). from_network (ne_lib env) (p_network st2) h b"
      using Cons.prems(2) update_subset[of hash b' d] by fastforce
    then show ?thesis using Cons.IH[of st2 "AList.update hash b' d"] Cons.prems(3) ok2 g Some h by (simp add: download_step_def)
  qed
qed simp

lemma GetBlockWithInputs_ok:
  assumes "client_ok (ne_lib env) st" "GetBlockWithInputs env hash st = (r, st')"
  shows "client_ok (ne_lib env) st' \<and> p_network st' = p_network st \<and> (\<forall>b. r = Some b \<longrightarrow> block_ok (ne_lib env) (p_network st) hash b)"
proof (cases "\<exists>c. map_of (p_blockCache st) hash = Some c \<and> with_addresses c")
  case True
  then show ?thesis using assms cached_ok[OF assms(1)] by (auto simp: GetBlockWithInputs_def Let_def)
next
  case False
  then have go: "\<not> (case map_of (p_blockCache st) hash of Some c \<Rightarrow> with_addresses c | None \<Rightarrow> False)" by (auto split: option.splits)
  obtain g st1 where g: "GetBlock env hash st = (g, st1)" by fastforce
  note ok = GetBlock_ok[OF assms(1) g]
  show ?thesis
  proof (cases g)
    case None
    then show ?thesis using assms(2) go g ok by (auto simp: GetBlockWithInputs_def Let_def)
  next
    case (Some b)
    let ?block = "b\<lparr>bk_Height := case_option 0 id (GetHeightForBlockHash hash st)\<rparr>"
    let ?st2 = "cache_block hash ?block st1"
    have b: "block_ok (ne_lib env) (p_network st) hash ?block" using ok Some by (simp add: height_ok)
    then have c2: "client_ok (ne_lib env) ?st2" "p_network ?st2 = p_network st" using ok by (simp_all add: cache_block_ok)
    obtain d st3 where d: "foldl (download_step env) ([], ?st2) (needed_blocks ?block ?st2) = (d, st3)" by fastforce
    from downloads_ok[OF c2(1) _ d] have ok3: "client_ok (ne_lib env) st3" "p_network st3 = p_network st"
      "\<forall>(h, b)\<in>set d. from_network (ne_lib env) (p_network st) h b" using c2(2) by auto
    have "known_tx (ne_lib env) (p_network st) txid tx" if fp: "find_prev ?block d st3 txid = Some tx" for txid tx
    proof (cases "current_txs ?block txid")
      case None
      then obtain h c where "map_of d h = Some c" "find (\<lambda>tx. tx_TxID tx = txid) (bk_Transactions c) = Some tx"
        using fp by (auto simp: find_prev_def split: option.splits)
      moreover from this(2) have "tx \<in> set (bk_Transactions c)" "tx_TxID tx = txid" by (metis (mono_tags, lifting) find_Some_iff nth_mem)+
      ultimately show ?thesis using ok3(3) map_of_SomeD by (fastforce simp: known_tx_def)
    next
      case (Some t)
      then have "t = tx" using fp by (simp add: find_prev_def)
      moreover have "t \<in> set (bk_Transactions ?block)" "tx_TxID t = txid"
        using map_of_SomeD[OF Some[unfolded current_txs_def]] by auto
      ultimately show ?thesis using b unfolding known_tx_def block_ok_def by blast
    qed
    from resolve_inputs_ok[OF b this] have r: "block_ok (ne_lib env) (p_network st) hash (resolve_inputs (find_prev ?block d st3) ?block)" .
    have "r = Some (resolve_inputs (find_prev ?block d st3) ?block)" "st' = cache_block hash (resolve_inputs (find_prev ?block d st3) ?block) st3"
      using assms(2) go g Some d by (auto simp: GetBlockWithInputs_def Let_def)
    then show ?thesis using ok3 r by (simp add: cache_block_ok)
  qed
qed

section \<open>The running client\<close>

text \<open>
  The states of a client on one network: it starts without headers and blocks, peers come and go, and
  the public operations are called in any order, whatever the network does during each call.
\<close>

inductive client_reachable :: "'k wire_lib \<Rightarrow> chain_params \<Rightarrow> p2p \<Rightarrow> bool" for lib network where
  start: "p_network (NewP2PClient testnet) = network \<Longrightarrow> client_reachable lib network (NewP2PClient testnet)"
| peers: "client_reachable lib network st \<Longrightarrow> client_reachable lib network (st\<lparr>p_peers := ps, p_discovered := ds\<rparr>)"
| count: "client_reachable lib network st \<Longrightarrow> client_reachable lib network (snd (GetBlockCount lib now answers st))"
| hash: "client_reachable lib network st \<Longrightarrow> client_reachable lib network (snd (GetBlockHash lib answers height st))"
| clear: "client_reachable lib network st \<Longrightarrow> client_reachable lib network (ClearHeaderCache st)"
| block: "client_reachable lib network st \<Longrightarrow> ne_lib env = lib \<Longrightarrow> client_reachable lib network (snd (GetBlock env h st))"
| inputs: "client_reachable lib network st \<Longrightarrow> ne_lib env = lib \<Longrightarrow> client_reachable lib network (snd (GetBlockWithInputs env h st))"

lemma bookkeeping_fields [simp]:
  "p_blockCache (recordPeerFailure p st) = p_blockCache st" "p_blockCache (recordPeerSuccess p st) = p_blockCache st"
  "p_blockCache (cache_headers xs st) = p_blockCache st" "p_blockCache (snd (next_peer st)) = p_blockCache st"
  "p_network (recordPeerFailure p st) = p_network st" "p_network (recordPeerSuccess p st) = p_network st"
  "p_network (cache_headers xs st) = p_network st" "p_network (snd (next_peer st)) = p_network st"
  by (simp_all add: recordPeerFailure_def recordPeerSuccess_def cache_headers_def next_peer_def)

definition same_blocks :: "p2p \<Rightarrow> p2p \<Rightarrow> bool" where
  "same_blocks st st' \<longleftrightarrow> p_blockCache st' = p_blockCache st \<and> p_network st' = p_network st"

lemma query_peers_blocks: "same_blocks st (snd (query_peers lib answers ps results st))"
proof (induction ps arbitrary: answers results st)
  case (Cons p ps)
  obtain r rest where "getBlockCountFromPeer lib answers st = (r, rest)" by fastforce
  then show ?case
    using Cons.IH[of "recordPeerFailure p st" rest results] Cons.IH[of "recordPeerSuccess p st" rest]
    by (cases r) (auto simp: same_blocks_def)
qed (simp add: same_blocks_def)

lemma GetBlockCount_blocks: "same_blocks st (snd (GetBlockCount lib now answers st))"
proof -
  have "same_blocks st (snd (getBlockCountConsensus lib now answers st))"
  proof -
    let ?n = "length (p_peers st)"
    let ?ps = "map (\<lambda>i. p_peers st ! ((p_nextPeerIndex st + i) mod ?n)) [0..<min 3 ?n]"
    have "same_blocks st (snd (query_peers lib answers ?ps [] (st\<lparr>p_nextPeerIndex := p_nextPeerIndex st + min 3 ?n\<rparr>)))"
      using query_peers_blocks[of "st\<lparr>p_nextPeerIndex := p_nextPeerIndex st + min 3 ?n\<rparr>"] by (simp add: same_blocks_def)
    then show ?thesis
      by (auto simp: getBlockCountConsensus_def same_blocks_def Let_def case_prod_beta split: option.splits)
  qed
  then show ?thesis by (auto simp: GetBlockCount_def same_blocks_def)
qed

lemma sync_loop_blocks: "same_blocks st (snd (sync_loop lib target answers peer height prev st))"
proof (induction answers arbitrary: peer height prev st)
  case (Cons a answers)
  show ?case
  proof (cases a)
    case None
    then show ?thesis using Cons.IH[of "snd (next_peer (recordPeerFailure peer st))"]
      by (auto simp: same_blocks_def Let_def case_prod_beta)
  next
    case (Some hs)
    let ?u = "cache_headers (fst (accept_headers lib (Some target) height prev hs)) st"
    show ?thesis using Some Cons.IH[of ?u] Cons.IH[of "snd (next_peer (recordPeerFailure peer ?u))"]
      by (auto simp: same_blocks_def Let_def case_prod_beta)
  qed
qed (simp add: same_blocks_def)

lemma GetBlockHash_blocks: "same_blocks st (snd (GetBlockHash lib answers height st))"
proof -
  have "same_blocks st (snd (syncHeadersToHeight lib answers height st))"
    using sync_loop_blocks[of "snd (next_peer st)" lib height answers]
    by (auto simp: syncHeadersToHeight_def same_blocks_def Let_def case_prod_beta)
  then show ?thesis by (auto simp: GetBlockHash_def same_blocks_def split: option.splits call.splits prod.splits)
qed

lemma same_blocks_ok:
  "client_ok lib st \<and> p_network st = network \<Longrightarrow> same_blocks st st' \<Longrightarrow> headers_ok lib st' \<Longrightarrow>
     client_ok lib st' \<and> p_network st' = network"
  by (auto simp: client_ok_def same_blocks_def)

lemma client_invariant: "client_reachable lib network st \<Longrightarrow> client_ok lib st \<and> p_network st = network"
proof (induction rule: client_reachable.induct)
  case (start testnet)
  then show ?case using new_client_ok[of lib testnet] by (simp add: client_ok_def NewP2PClient_def)
next
  case (peers st ps ds)
  then have "client_ok lib st" "p_network st = network" by simp_all
  then show ?case by (simp add: client_ok_def headers_ok_def)
next
  case (count st now answers)
  then have "headers_ok lib st" by (simp add: client_ok_def)
  then show ?case by (rule same_blocks_ok[OF count.IH GetBlockCount_blocks GetBlockCount_ok])
next
  case (hash st answers height)
  then have "headers_ok lib st" by (simp add: client_ok_def)
  then show ?case by (rule same_blocks_ok[OF hash.IH GetBlockHash_blocks GetBlockHash_ok])
next
  case (clear st)
  have "same_blocks st (ClearHeaderCache st)" by (simp add: same_blocks_def ClearHeaderCache_def)
  then show ?case by (rule same_blocks_ok[OF clear.IH _ ClearHeaderCache_ok])
next
  case (block st env h)
  then show ?case using GetBlock_ok[of env st h] by (metis prod.collapse)
next
  case (inputs st env h)
  then show ?case using GetBlockWithInputs_ok[of env st h] by (metis prod.collapse)
qed

section \<open>Properties\<close>


definition block_name :: string where
  "block_name = replicate 64 CHR ''0''"

definition plain_env :: "net_event list \<Rightarrow> nat net_env" where
  "plain_env es = \<lparr> ne_lib = plain_wire, ne_Connected = (\<lambda>_. True), ne_connects = (\<lambda>_. False), ne_events = (\<lambda>_. es) \<rparr>"


text \<open>
  C12. The requests to several peers share one channel, so the first answer decides: when every
  goroutine has registered before anything arrives and all finish, \<open>GetBlock\<close> returns what
  \<open>request_answer\<close> reads off the order of events: the block of the first message with the hash, if
  its merkle root is right, and otherwise no block, whatever the other peers send; a time-out of any
  of them before that ends the request without a block.
\<close>

theorem first_answer_decides:
  assumes "map_of (p_blockCache st) hash = None" "NewHashFromStr hash"
    "asked = take 3 (getSortedPeersByPerformance st (filter (ne_Connected env) (p_peers st)))" "asked \<noteq> []"
    "ne_events env hash = map Registers [0..<length asked] @ es" "no_registration es" "Finishes (length asked - 1) t \<in> set es"
  shows "fst (GetBlock env hash st) = request_answer (ne_lib env) (p_network st) hash (length asked) es"
proof -
  have n: "0 < length asked" "filter (ne_Connected env) (p_peers st) \<noteq> []" using assms(3,4) by auto
  have "first_block (fst (run_requests (ne_lib env) hash asked (ne_events env hash) st))
      = request_answer (ne_lib env) (p_network st) hash (length asked) es"
    using waiting_run[OF n(1) assms(6,7)] n(1) by (simp add: run_requests_def assms(5) registrations)
  then show ?thesis using assms(1-3) n(2) by (simp add: GetBlock_def Let_def case_prod_beta split: option.splits)
qed

definition two_peers :: p2p where
  "two_peers = (NewP2PClient False)\<lparr>p_peers := [''a:8333'', ''b:8333'']\<rparr>"

definition wrong_block :: msg_block where
  "wrong_block = three_payments\<lparr>mb_Transactions := [payment 1]\<rparr>"

theorem first_answer_decides_witness:
  "fst (GetBlock (plain_env [Registers 0, Registers 1, Delivers wrong_block, Delivers three_payments, Finishes 1 5, Finishes 0 15])
      block_name two_peers) = None"
proof -
  let ?es = "[Delivers wrong_block, Delivers three_payments, Finishes 1 5, Finishes 0 15]"
  let ?asked = "take 3 (getSortedPeersByPerformance two_peers (filter (ne_Connected (plain_env [])) (p_peers two_peers)))"
  let ?env = "plain_env ([Registers 0, Registers 1] @ ?es)"
  have "map_of (p_blockCache two_peers) block_name = None" "NewHashFromStr block_name" by code_simp+
  moreover have "[''a:8333'', ''b:8333''] = take 3 (getSortedPeersByPerformance two_peers (filter (ne_Connected ?env) (p_peers two_peers)))"
    by code_simp
  moreover have "[''a:8333'', ''b:8333''] \<noteq> []" by simp
  moreover have "ne_events ?env block_name = map Registers [0..<length [''a:8333'', ''b:8333'']] @ ?es"
    by (simp add: plain_env_def upt_rec)
  moreover have "no_registration ?es" by simp
  moreover have "Finishes (length [''a:8333'', ''b:8333''] - 1) 5 \<in> set ?es" by simp
  ultimately have "fst (GetBlock ?env block_name two_peers)
      = request_answer (ne_lib ?env) (p_network two_peers) block_name (length [''a:8333'', ''b:8333'']) ?es"
    by (rule first_answer_decides)
  also have "\<dots> = None" by code_simp
  finally show ?thesis by simp
qed

end
