(* ===== verification/CatchUp.thy ===== *)
theory CatchUp
  imports Sync
begin

text \<open>
  How the rounds of \<^verbatim>\<open>syncBitcoin\<close> (\<^verbatim>\<open>src/internal/sync/syncer.go\<close>) reach the height of the chain: when the
  blocks can be had and no anchor that the relays answer with is too short for the log lines.
\<close>

section \<open>Anchors that cannot crash the node\<close>

definition long_event :: "event \<Rightarrow> bool" where
  "long_event ev \<longleftrightarrow> 16 \<le> length (last_tag ''d'' (ev_tags ev)) \<and> 16 \<le> length (last_tag ''x'' (ev_tags ev))"

definition long_anchors :: "database \<Rightarrow> bool" where
  "long_anchors d \<longleftrightarrow> list_all (\<lambda>a. 16 \<le> length (r_d_tag a)) (anchor_events d)"

lemma long_put:
  assumes "long_anchors d" "16 \<le> length (r_d_tag row)"
  shows "long_anchors (put_anchor row d)"
  using assms by (auto simp: long_anchors_def put_anchor_def UpdateBitcoinTransactionWithAnchor_def insert_or_replace_def list_all_iff)

lemma long_delete: "long_anchors d \<Longrightarrow> long_anchors (d\<lparr>anchor_events := delete_where P (anchor_events d)\<rparr>)"
  by (auto simp: long_anchors_def delete_where_def list_all_iff)

lemma long_conflict: "long_anchors d \<Longrightarrow> tx_conflict row d = Some c \<Longrightarrow> 16 \<le> length (r_d_tag c)"
  by (auto simp: tx_conflict_def long_anchors_def list_all_iff find_Some_iff)

lemma store_no_panic:
  assumes "long_anchors d" "long_event ev"
  shows "case StoreAnchorEvent ev b n p d of Inl e \<Rightarrow> e \<noteq> DPanic | Inr d' \<Rightarrow> long_anchors d'"
proof -
  let ?row = "anchor_row_of ev b n p"
  have row: "16 \<le> length (r_d_tag ?row)" "16 \<le> length (a_txid ?row)"
    using assms(2) by (simp_all add: long_event_def anchor_row_of_def)
  have c: "case resolve_tx_conflict ?row c d of Inl e \<Rightarrow> e \<noteq> DPanic | Inr d' \<Rightarrow> long_anchors d'" if "tx_conflict ?row d = Some c" for c
    using long_conflict[OF assms(1) that] row long_delete[OF assms(1)] by (auto simp: resolve_tx_conflict_def)
  have p: "long_anchors d' \<Longrightarrow> long_anchors (put_anchor ?row d')" for d' using long_put row(1) by blast
  have "case (case tx_conflict ?row d of
      Some conflict \<Rightarrow> if r_d_tag conflict \<noteq> r_d_tag ?row
        then bind_res (resolve_tx_conflict ?row conflict d) (\<lambda>d'. Ok (put_anchor ?row d')) else Ok (put_anchor ?row d)
    | None \<Rightarrow> Ok (put_anchor ?row d)) of Inl e \<Rightarrow> e \<noteq> DPanic | Inr d' \<Rightarrow> long_anchors d'"
    using c p assms(1) by (auto simp: bind_res_def split: option.splits sum.splits)
  then show ?thesis
    using assms(1) by (auto simp: StoreAnchorEvent_def Let_def simp del: bind_res_def split: option.splits)
qed

lemma fetched_anchors: "anchor_events (fetchAndStoreReferencedEvents decode remote ev d) = anchor_events d"
  by (auto simp: fetchAndStoreReferencedEvents_def Let_def store_opt_def StoreMetadataEvent_def
      StoreConnectionEvent_def StoreNameEvent_def split: option.splits)

lemma long_fetched: "long_anchors (fetchAndStoreReferencedEvents decode remote ev d) = long_anchors d"
  by (simp add: long_anchors_def fetched_anchors)

lemma store_found_no_panic:
  assumes "long_anchors d" "long_event ev"
  shows "\<exists>d'. store_found env e b n p ev d = Inr d' \<and> long_anchors d'"
proof -
  note s = store_no_panic[OF assms, of b n p]
  have "case StoreAnchorEventHooked (fetch_refs env) ev b n p d of Inl e \<Rightarrow> e \<noteq> DPanic | Inr d' \<Rightarrow> long_anchors d'"
    using s long_fetched by (auto simp: StoreAnchorEventHooked_def split: sum.splits)
  then show ?thesis
    using assms(1) long_fetched by (auto simp: store_found_def split: sum.splits db_error.splits)
qed

lemma long_state [simp]: "long_anchors (UpdateSyncState k v d) = long_anchors d"
  by (simp add: long_anchors_def UpdateSyncState_def)

text \<open>What a chain of relays answers with.\<close>

definition long_answers :: "sync_env \<Rightarrow> bool" where
  "long_answers env \<longleftrightarrow> (\<forall>txIDs. \<forall>ev \<in> set (concat (sy_answers env txIDs)). long_event ev)"

lemma store_anchors_no_panic:
  assumes "long_anchors d" "\<And>x ev. found x = Some ev \<Longrightarrow> long_event ev"
  shows "\<exists>d'. store_anchors env e found b n ps d = Inr d' \<and> long_anchors d'"
  using assms(1)
proof (induction ps arbitrary: d)
  case (Cons p ps)
  show ?case
  proof (cases "found (v_TxID (snd p))")
    case (Some ev)
    then obtain d1 where "store_found env e b n (int (fst p) + 1) ev d = Inr d1" "long_anchors d1"
      using store_found_no_panic[OF Cons.prems assms(2)] by blast
    then show ?thesis using Cons.IH[of d1] Some by simp
  qed (use Cons in simp)
qed simp

lemma stored_txs_anchors: "anchor_events (store_txs env b n vs d) = anchor_events d"
proof -
  have "anchor_events (foldl (store_tx env b n) d ps) = anchor_events d" for ps
    by (induction ps arbitrary: d) (simp_all add: store_tx_def StoreBitcoinTransaction_def)
  then show ?thesis by (simp add: store_txs_def)
qed

lemma process_block_no_panic:
  assumes "long_anchors d" "long_answers env"
  shows "\<exists>d'. process_block env e b h block d = Inr d' \<and> long_anchors d'"
proof -
  have "findAnchorEventsForTransactionsBatch env txIDs x = Some ev \<Longrightarrow> long_event ev" for txIDs x ev
    using batch_some assms(2) by (fastforce simp: long_answers_def)
  moreover have "long_anchors (CreateOrUpdateDNNBlock t a c h' s d)" for t a c h' s
    using assms(1) by (simp add: long_anchors_def CreateOrUpdateDNNBlock_def)
  ultimately show ?thesis
    using store_anchors_no_panic by (simp add: process_block_def Let_def long_anchors_def stored_txs_anchors)
qed

section \<open>A round\<close>

text \<open>The client has the hash and the block, and the explorer does not contradict it.\<close>

definition block_available :: "sync_env \<Rightarrow> int \<Rightarrow> bool" where
  "block_available env b =
     (case ch_GetBlockHash env b of
        None \<Rightarrow> False
      | Some h \<Rightarrow> ch_GetBlockWithInputs env h \<noteq> None
          \<and> (case ch_rest env of None \<Rightarrow> True | Some rest \<Rightarrow> rest b = None \<or> rest b = Some h))"

lemma sync_blocks_complete:
  assumes "aligned (GetGenesisBlock (ch_network env)) d" "long_anchors d" "long_answers env" "list_all (block_available env) [b..e]"
    and "b \<le> e" "in64 b" "in64 e"
  shows "\<exists>d'. sync_blocks env l [b..e] d = (Stopped, d') \<and> long_anchors d' \<and> last_synced env d' = e"
  using assms
proof (induction "nat (e - b)" arbitrary: b d)
  case 0
  then have be: "b = e" by simp
  obtain h block where h: "ch_GetBlockHash env b = Some h" "ch_GetBlockWithInputs env h = Some block" "\<not> diverges env l b h"
    using 0(5) be by (auto simp: block_available_def diverges_def split: option.splits)
  obtain d1 where "process_block env True b h block d = Inr d1" "long_anchors d1" using process_block_no_panic[OF 0(3,4)] by blast
  then show ?case using h be 0(8) by (simp add: last_synced_update)
next
  case (Suc n)
  have be: "b < e" using Suc.hyps(2) by simp
  then have list: "[b..e] = b # [b + 1..e]" by (intro upto_rec1) simp
  obtain h block where h: "ch_GetBlockHash env b = Some h" "ch_GetBlockWithInputs env h = Some block" "\<not> diverges env l b h"
    using Suc.prems(4) by (auto simp: list block_available_def diverges_def split: option.splits)
  obtain d1 where d1: "process_block env True b h block d = Inr d1" "long_anchors d1"
    using process_block_no_panic[OF Suc.prems(2,3)] by blast
  let ?d2 = "UpdateSyncState ''last_synced_block'' (show_int b) d1"
  have "aligned (GetGenesisBlock (ch_network env)) ?d2"
    using process_block_chain(2)[OF Suc.prems(1) refl, of True b h block] d1(1) by (simp add: aligned_state)
  moreover have "long_anchors ?d2" using d1(2) by simp
  moreover have "in64 (b + 1)" using be Suc.prems(6,7) by (simp add: in64_def)
  moreover have "n = nat (e - (b + 1))" using Suc.hyps(2) by simp
  ultimately obtain d' where "sync_blocks env l [b + 1..e] ?d2 = (Stopped, d')" "long_anchors d'" "last_synced env d' = e"
    using Suc.hyps(1)[of "b + 1" ?d2] Suc.prems(3,4,7) be by (auto simp: list)
  then show ?case using h d1(1) by (simp add: list)
qed

lemma long_reorg:
  assumes "long_anchors d"
  shows "long_anchors (snd (CheckAndHandleReorg env n d))"
proof -
  have "long_anchors (snd (handleReorg env b d))" for b
    using recovery_keeps_transactions[of env b d] assms by (cases "fst (handleReorg env b d) = Ok ()") (auto simp: long_anchors_def list_all_iff)
  moreover have "long_anchors (UpdateReorgCheckTime t d)" for t
    using assms by (simp add: UpdateReorgCheckTime_def)
  ultimately show ?thesis
    using assms by (auto simp: CheckAndHandleReorg_def split: option.splits prod.splits)
qed

definition caught_up_ok :: "sync_env \<Rightarrow> database \<Rightarrow> bool" where
  "caught_up_ok env d \<longleftrightarrow> aligned (GetGenesisBlock (ch_network env)) d \<and> gap_free env d \<and> long_anchors d \<and> in64 (last_synced env d)"

lemma round:
  assumes "caught_up_ok env d" "long_answers env" "ch_GetBlockCount env = Some H" "in64 H" "1 \<le> sy_BlockBatchSize env"
    and "last_synced env d < H" "list_all (block_available env) [last_synced env d + 1..H]"
  shows "caught_up_ok env (snd (syncBitcoin env d)) \<and> fst (syncBitcoin env d) = SyncDone
    \<and> last_synced env (snd (syncBitcoin env d)) = min H (last_synced env d + sy_BlockBatchSize env)"
proof -
  let ?L = "last_synced env d" and ?e = "batch_end env H d"
  have ok: "aligned (GetGenesisBlock (ch_network env)) d" "gap_free env d" "long_anchors d" "in64 ?L"
    using assms(1) by (simp_all add: caught_up_ok_def)
  have e: "?e = min H (?L + sy_BlockBatchSize env)" "?L + 1 \<le> ?e" "?e \<le> H"
    using assms(5,6) by (auto simp: batch_end_def Let_def min_def)
  have i: "in64 (?L + 1)" "in64 ?e" using e ok(4) assms(4,6) by (simp_all add: in64_def)
  have "list_all (block_available env) [?L + 1..?e]" using assms(7) e(3) by (auto simp: list_all_iff)
  from sync_blocks_complete[OF ok(1,3) assms(2) this e(2) i, of ?L] obtain d1 where
    d1: "sync_blocks env ?L [?L + 1..?e] d = (Stopped, d1)" "long_anchors d1" "last_synced env d1 = ?e" by blast
  have b0: "0 \<le> sy_BlockBatchSize env" using assms(5) by simp
  note B = batch_leaves_no_gap[OF ok(1,2) b0 ok(4) assms(4,6) d1(1)]
  let ?d2 = "UpdateSyncState ''last_sync_time'' (ch_time env) d1"
  let ?d3 = "snd (CheckAndHandleReorg env (?e - GetGenesisBlock (ch_network env)) ?d2)"
  have r: "syncBitcoin env d = (SyncDone, ?d3)" using assms(3,6) d1(1) by (simp add: syncBitcoin_def Let_def)
  have "last_synced env d1 \<le> H" using B(4) .
  note E = batch_end_leaves_no_gap[OF B(2,1) assms(3) this refl, of "?e - GetGenesisBlock (ch_network env)"]
  have "long_anchors ?d2" using d1(2) by simp
  then have "long_anchors ?d3" by (rule long_reorg)
  then show ?thesis unfolding caught_up_ok_def r using E d1(3) e(1) i(2) by simp
qed

section \<open>Catching up\<close>

definition sync_rounds :: "sync_env \<Rightarrow> nat \<Rightarrow> database \<Rightarrow> database" where
  "sync_rounds env n = (snd \<circ> syncBitcoin env) ^^ n"

lemma at_the_tip: "ch_GetBlockCount env = Some H \<Longrightarrow> H \<le> last_synced env d \<Longrightarrow> syncBitcoin env d = (SyncDone, d)"
  by (simp add: syncBitcoin_def Let_def)

text \<open>
  C16.  Synchronisation terminates at the tip: while the blocks above the recorded height can be had and the
  relays answer with anchors long enough for the log lines, as many rounds as there are batches up to the
  height of the chain bring the recorded height there, without a gap in the stored blocks; further rounds
  change nothing.
\<close>

theorem sync_catches_up:
  assumes "aligned (GetGenesisBlock (ch_network env)) d" "gap_free env d" "long_anchors d" "in64 (last_synced env d)"
    and "long_answers env" "ch_GetBlockCount env = Some height" "in64 height" "1 \<le> sy_BlockBatchSize env"
    and "last_synced env d \<le> height" "list_all (block_available env) [last_synced env d + 1..height]"
    and "height - last_synced env d \<le> int n * sy_BlockBatchSize env"
  shows "last_synced env (sync_rounds env n d) = height \<and> gap_free env (sync_rounds env n d)
    \<and> syncBitcoin env (sync_rounds env n d) = (SyncDone, sync_rounds env n d)"
proof -
  let ?B = "sy_BlockBatchSize env" and ?L = "last_synced env d"
  have "caught_up_ok env (sync_rounds env k d) \<and> last_synced env (sync_rounds env k d) = min height (?L + int k * ?B)" for k
  proof (induction k)
    case 0
    then show ?case using assms(1-4,9) by (simp add: sync_rounds_def caught_up_ok_def)
  next
    case (Suc k)
    let ?d = "sync_rounds env k d"
    have s: "sync_rounds env (Suc k) d = snd (syncBitcoin env ?d)" by (simp add: sync_rounds_def)
    have kB: "0 \<le> int k * ?B" using assms(8) by simp
    show ?case
    proof (cases "last_synced env ?d < height")
      case True
      then have l: "last_synced env ?d = ?L + int k * ?B" using Suc by simp
      have "list_all (block_available env) [last_synced env ?d + 1..height]"
        using assms(10) kB by (auto simp: list_all_iff l)
      from round[OF conjunct1[OF Suc] assms(5-8) True this] show ?thesis
        unfolding s by (simp add: l algebra_simps)
    next
      case False
      then have "last_synced env ?d = height" "height \<le> ?L + int k * ?B" using Suc by (auto simp: min_def split: if_splits)
      moreover from this have "height \<le> ?L + int (Suc k) * ?B" using assms(8) by (simp add: algebra_simps)
      ultimately show ?thesis using Suc at_the_tip[OF assms(6), of ?d] unfolding s by (simp add: min_def)
    qed
  qed
  from this[of n] have "caught_up_ok env (sync_rounds env n d)" "last_synced env (sync_rounds env n d) = height"
    using assms(11) by (auto simp: min_def)
  then show ?thesis using at_the_tip[OF assms(6), of "sync_rounds env n d"] by (simp add: caught_up_ok_def)
qed

theorem sync_catches_up_witness:
  "last_synced (quiet_env\<lparr>sy_BlockBatchSize := 2\<rparr>) (sync_rounds (quiet_env\<lparr>sy_BlockBatchSize := 2\<rparr>) 2 empty_db) = 940002"
proof -
  let ?e = "quiet_env\<lparr>sy_BlockBatchSize := 2\<rparr>"
  have 1: "aligned (GetGenesisBlock (ch_network ?e)) empty_db" by code_simp
  have 2: "gap_free ?e empty_db" by code_simp
  have 3: "long_anchors empty_db" by code_simp
  have 4: "last_synced ?e empty_db = 939999" by code_simp
  have 5: "long_answers ?e" by (simp add: long_answers_def quiet_env_def)
  have 6: "ch_GetBlockCount ?e = Some 940002" by (simp add: quiet_env_def)
  have 7: "list_all (block_available ?e) [939999 + 1..940002]" by code_simp
  show "last_synced ?e (sync_rounds ?e 2 empty_db) = 940002"
    using sync_catches_up[OF 1 2 3 _ 5 6, of 2] 4 7 by (simp add: in64_def)
qed

end
