(* ===== verification/Dialing.thy ===== *)
theory Dialing
  imports Peers
begin

text \<open>
  How the client of \<^verbatim>\<open>src/internal/bitcoin/p2p_client.go\<close> finds and connects its peers, and what it does
  with messages nobody asked for.  The resolver of the operating system and the outcome of dialing a
  peer, its handshake included, are arguments.
\<close>

section \<open>Discovery\<close>

definition default_seeds :: "string list" where
  "default_seeds = [''seed.bitcoin.sipa.be:8333'', ''dnsseed.bluematt.me:8333'', ''dnsseed.bitcoin.dashjr.org:8333'',
     ''seed.bitcoinstats.com:8333'', ''seed.bitcoin.jonasschnelli.ch:8333'', ''seed.btc.petertodd.org:8333'',
     ''seed.bitcoin.sprovoost.nl:8333'', ''dnsseed.emzy.de:8333'']"

definition seeds :: "string list \<Rightarrow> string list" where
  "seeds peerAddrs = (if peerAddrs = [] then default_seeds else peerAddrs)"

text \<open>The part before the first colon, unless the colon comes first.\<close>

definition seed_host :: "string \<Rightarrow> string" where
  "seed_host seed =
     (let h = takeWhile (\<lambda>c. c \<noteq> CHR '':'') seed in if h \<noteq> seed \<and> h \<noteq> [] then h else seed)"

fun discoverPeersFromDNS :: "(string \<Rightarrow> string list option) \<Rightarrow> string list \<Rightarrow> string list" where
  "discoverPeersFromDNS lookup [] = []"
| "discoverPeersFromDNS lookup (seed # rest) =
     (case lookup (seed_host seed) of
        None \<Rightarrow> seed # discoverPeersFromDNS lookup rest
      | Some addrs \<Rightarrow> map (\<lambda>ip. ip @ '':8333'') addrs @ discoverPeersFromDNS lookup rest)"

section \<open>Connections\<close>

text \<open>What dialing can come to; \<^verbatim>\<open>HandshakeTimeout\<close> is a peer that was reached but did not answer.\<close>

datatype dial_outcome = BadPeer | Unreachable | HandshakeTimeout | Connected

definition connectToPeer :: "(string \<Rightarrow> dial_outcome) \<Rightarrow> string \<Rightarrow> p2p \<Rightarrow> p2p option" where
  "connectToPeer dial addr st =
     (case dial addr of
        Connected \<Rightarrow> Some (st\<lparr>p_peers := p_peers st @ [addr]\<rparr>)
      | BadPeer \<Rightarrow> None | Unreachable \<Rightarrow> None | HandshakeTimeout \<Rightarrow> None)"

definition maxInitialPeers :: nat where
  "maxInitialPeers = 8"

fun connect_initial :: "(string \<Rightarrow> dial_outcome) \<Rightarrow> string list \<Rightarrow> nat \<Rightarrow> p2p \<Rightarrow> nat \<times> p2p" where
  "connect_initial dial [] connected st = (connected, st)"
| "connect_initial dial (addr # addrs) connected st =
     (if connected \<ge> maxInitialPeers then (connected, st)
      else case connectToPeer dial addr st of
        None \<Rightarrow> connect_initial dial addrs connected st
      | Some st' \<Rightarrow> connect_initial dial addrs (connected + 1) st')"

definition p2p_Start :: "(string \<Rightarrow> string list option) \<Rightarrow> (string \<Rightarrow> dial_outcome) \<Rightarrow> string list \<Rightarrow> p2p \<Rightarrow> bool \<times> p2p" where
  "p2p_Start lookup dial peerAddrs st =
     (let st1 = st\<lparr>p_discovered := discoverPeersFromDNS lookup (seeds peerAddrs)\<rparr>;
          (connected, st2) = connect_initial dial (p_discovered st1) 0 st1
      in (connected \<noteq> 0, st2))"

definition p2p_Stop :: "p2p \<Rightarrow> p2p" where
  "p2p_Stop st = st\<lparr>p_peers := []\<rparr>"

section \<open>Messages nobody asked for\<close>

text \<open>
  A channel of ten messages that no goroutine reads; a transaction that is waited for is delivered, but
  nothing waits for transactions.
\<close>

definition queue_message :: "'a \<Rightarrow> 'a list \<Rightarrow> 'a list" where
  "queue_message msg ch = (if length ch < 10 then ch @ [msg] else ch)"

definition onTx :: "string \<Rightarrow> 'a \<Rightarrow> (string \<times> 'a option) list \<Rightarrow> 'a list \<Rightarrow> (string \<times> 'a option) list \<times> 'a list \<times> 'a option" where
  "onTx txHash msg pendingTxs txChan =
     (case map_of pendingTxs txHash of
        Some slot \<Rightarrow> (filter (\<lambda>e. fst e \<noteq> txHash) pendingTxs, txChan, (case slot of None \<Rightarrow> Some msg | Some _ \<Rightarrow> None))
      | None \<Rightarrow> (pendingTxs, queue_message msg txChan, None))"

text \<open>Headers go to the request of their peer; an open request takes the first message.\<close>

definition onHeaders :: "string \<Rightarrow> 'a \<Rightarrow> (string \<times> 'a option) list \<Rightarrow> (string \<times> 'a option) list \<times> 'a option" where
  "onHeaders peerAddr msg pendingHeaders =
     (case map_of pendingHeaders peerAddr of
        Some slot \<Rightarrow> (filter (\<lambda>e. fst e \<noteq> peerAddr) pendingHeaders, (case slot of None \<Rightarrow> Some msg | Some _ \<Rightarrow> None))
      | None \<Rightarrow> (pendingHeaders, None))"

section \<open>What a start comes to\<close>

lemma connect_initial_peers:
  "k \<le> 8 \<Longrightarrow> connect_initial dial addrs k st =
    (k + min (8 - k) (length (filter (\<lambda>a. dial a = Connected) addrs)),
     st\<lparr>p_peers := p_peers st @ take (8 - k) (filter (\<lambda>a. dial a = Connected) addrs)\<rparr>)"
proof (induction addrs arbitrary: k st)
  case (Cons a addrs)
  show ?case
  proof (cases "k = 8")
    case True
    then show ?thesis by (simp add: maxInitialPeers_def)
  next
    case False
    then have k: "k < 8" "8 - k = Suc (8 - (k + 1))" using Cons.prems by auto
    show ?thesis
    proof (cases "dial a = Connected")
      case True
      then show ?thesis using Cons.IH[of "k + 1"] k by (simp add: maxInitialPeers_def connectToPeer_def)
    next
      case False
      then have "connectToPeer dial a st = None" by (cases "dial a") (simp_all add: connectToPeer_def)
      then show ?thesis using Cons.IH[of k] k False by (simp add: maxInitialPeers_def)
    qed
  qed
qed (simp add: maxInitialPeers_def)

text \<open>
  A start connects the first eight discovered peers that can be connected, in their order, and fails
  when there is none.
\<close>

lemma started_peers:
  "p2p_Start lookup dial peerAddrs (NewP2PClient testnet) = (ok, st) \<Longrightarrow>
     p_peers st = take 8 (filter (\<lambda>a. dial a = Connected) (discoverPeersFromDNS lookup (seeds peerAddrs)))
     \<and> (ok \<longleftrightarrow> p_peers st \<noteq> []) \<and> length (p_peers st) \<le> 8"
  using connect_initial_peers[of 0 dial "discoverPeersFromDNS lookup (seeds peerAddrs)"]
  by (auto simp: p2p_Start_def Let_def NewP2PClient_def min_def split: prod.splits if_splits)

text \<open>The port of a configured peer counts only when its name cannot be resolved.\<close>

lemma configured_ports_are_ignored:
  assumes "lookup (seed_host seed) = Some addrs"
  shows "discoverPeersFromDNS lookup [seed] = map (\<lambda>ip. ip @ '':8333'') addrs"
  using assms by simp

lemma configured_port_example:
  "discoverPeersFromDNS (\<lambda>_. Some [''10.0.0.7'', ''::1'']) [''node.example:18333''] = [''10.0.0.7:8333'', ''::1:8333'']"
  by (simp add: seed_host_def)

lemma queue_bound: "length ch \<le> 10 \<Longrightarrow> length (queue_message msg ch) \<le> 10"
  by (simp add: queue_message_def)

text \<open>After the first ten, transactions nobody asked for leave no trace.\<close>

lemma unasked_transactions_are_dropped:
  "length txChan = 10 \<Longrightarrow> onTx h msg [] txChan = ([], txChan, None)"
  by (simp add: onTx_def queue_message_def)

end
