(* ===== verification/Rest.thy ===== *)
theory Rest
  imports Reorg Content Marshal "HOL-Library.Monad_Syntax"
begin

text \<open>
  \<^verbatim>\<open>src/internal/bitcoin/rest_client.go\<close> and the JSON-RPC client of \<^verbatim>\<open>client.go\<close>.  The answers of the
  web are an argument: for every URL, or for every request body, nothing, or a status and a body that
  may break off.  Amounts are decoded and checked for their type but not kept, since they are converted
  to floating point.
\<close>

section \<open>Requests\<close>

datatype http_answer = NoAnswer | HttpAnswer int "string option"

datatype web_error = GetFailed | ApiError int string | ReadFailed | ParseFailed | TxNotInBlock | RpcFailed int string

record rest_client =
  rc_baseURL :: string

definition NewRestClient :: "string \<Rightarrow> rest_client" where
  "NewRestClient baseURL = \<lparr> rc_baseURL = baseURL \<rparr>"

definition NewBlockstreamClient :: rest_client where
  "NewBlockstreamClient = NewRestClient ''https://blockstream.info/api''"

definition NewMempoolSpaceClient :: rest_client where
  "NewMempoolSpaceClient = NewRestClient ''https://mempool.space/api''"

text \<open>The part all requests share: the answer, its status, its body.\<close>

definition fetch_url :: "(string \<Rightarrow> http_answer) \<Rightarrow> string \<Rightarrow> (web_error, string) res" where
  "fetch_url web url =
     (case web url of
        NoAnswer \<Rightarrow> Err GetFailed
      | HttpAnswer status body \<Rightarrow>
          if status \<noteq> 200 then Err (ApiError status (case body of None \<Rightarrow> [] | Some b \<Rightarrow> b))
          else (case body of None \<Rightarrow> Err ReadFailed | Some b \<Rightarrow> Ok b))"

text \<open>A body decoded into a type.\<close>

definition decode_body :: "(json \<Rightarrow> 'a option) \<Rightarrow> string \<Rightarrow> (web_error, 'a) res" where
  "decode_body f body = (case Option.bind (parse_json body) f of None \<Rightarrow> Err ParseFailed | Some x \<Rightarrow> Ok x)"

definition fetch_json :: "(json \<Rightarrow> 'a option) \<Rightarrow> (string \<Rightarrow> http_answer) \<Rightarrow> string \<Rightarrow> (web_error, 'a) res" where
  "fetch_json f web url = (case fetch_url web url of Inl e \<Rightarrow> Err e | Inr body \<Rightarrow> decode_body f body)"

definition as_bool :: "json \<Rightarrow> bool option" where
  "as_bool j = (case j of JBool b \<Rightarrow> Some b | JNull \<Rightarrow> Some False | _ \<Rightarrow> None)"

text \<open>A \<^verbatim>\<open>uint32\<close> takes no sign; a \<^verbatim>\<open>float64\<close> takes every number.\<close>

definition as_uint32 :: "json \<Rightarrow> int option" where
  "as_uint32 j =
     (case j of JNum s \<Rightarrow> if all_digits s \<and> dec_val s < 2 ^ 32 then Some (int (dec_val s)) else None
      | JNull \<Rightarrow> Some 0 | _ \<Rightarrow> None)"

definition as_number :: "json \<Rightarrow> string option" where
  "as_number j = (case j of JNum s \<Rightarrow> Some s | JNull \<Rightarrow> Some ''0'' | _ \<Rightarrow> None)"

section \<open>The REST client\<close>

definition rest_GetBlockCount :: "rest_client \<Rightarrow> (string \<Rightarrow> http_answer) \<Rightarrow> (web_error, int) res" where
  "rest_GetBlockCount rc web = fetch_json as_int64 web (rc_baseURL rc @ ''/blocks/tip/height'')"

text \<open>The hash is the body as it is.\<close>

definition rest_GetBlockHash :: "rest_client \<Rightarrow> (string \<Rightarrow> http_answer) \<Rightarrow> int \<Rightarrow> (web_error, string) res" where
  "rest_GetBlockHash rc web height = fetch_url web (rc_baseURL rc @ ''/block-height/'' @ show_int height)"

record rest_tx = btc_tx +
  rt_BlockHeight :: int
  rt_BlockHash :: string
  rt_Confirmed :: bool

definition rest_status :: "(string \<times> json) list \<Rightarrow> (bool \<times> int \<times> string) option" where
  "rest_status kvs = do {
     c \<leftarrow> field False as_bool ''confirmed'' kvs;
     h \<leftarrow> field 0 as_int64 ''block_height'' kvs;
     b \<leftarrow> field [] as_string ''block_hash'' kvs;
     t \<leftarrow> field 0 as_int64 ''block_time'' kvs;
     Some (c, h, b) }"

definition rest_prevout :: "(string \<times> json) list \<Rightarrow> string option" where
  "rest_prevout kvs = do {
     a \<leftarrow> field [] as_string ''scriptpubkey_address'' kvs;
     v \<leftarrow> field 0 as_int64 ''value'' kvs;
     Some a }"

definition rest_vin :: "(string \<times> json) list \<Rightarrow> tx_input option" where
  "rest_vin kvs = do {
     t \<leftarrow> field [] as_string ''txid'' kvs;
     v \<leftarrow> field 0 as_uint32 ''vout'' kvs;
     a \<leftarrow> field [] (as_object rest_prevout) ''prevout'' kvs;
     Some \<lparr> in_TxID = t, in_Vout = v, in_Address = a \<rparr> }"

definition rest_vout :: "(string \<times> json) list \<Rightarrow> script_pub_key option" where
  "rest_vout kvs = do {
     s \<leftarrow> field [] as_string ''scriptpubkey'' kvs;
     asm \<leftarrow> field [] as_string ''scriptpubkey_asm'' kvs;
     t \<leftarrow> field [] as_string ''scriptpubkey_type'' kvs;
     a \<leftarrow> field [] as_string ''scriptpubkey_address'' kvs;
     v \<leftarrow> field 0 as_int64 ''value'' kvs;
     Some \<lparr> spk_Type = t, spk_Addresses = (if a \<noteq> [] then [a] else []), spk_Address = a \<rparr> }"

definition rest_tx_json :: "(string \<times> json) list \<Rightarrow> rest_tx option" where
  "rest_tx_json kvs = do {
     t \<leftarrow> field [] as_string ''txid'' kvs;
     size \<leftarrow> field 0 as_int64 ''size'' kvs;
     weight \<leftarrow> field 0 as_int64 ''weight'' kvs;
     fee \<leftarrow> field 0 as_int64 ''fee'' kvs;
     s \<leftarrow> field (False, 0, []) (as_object rest_status) ''status'' kvs;
     vin \<leftarrow> field [] (as_list (as_object rest_vin)) ''vin'' kvs;
     vout \<leftarrow> field [] (as_list (as_object rest_vout)) ''vout'' kvs;
     Some \<lparr> tx_TxID = t, tx_Inputs = vin, tx_Outputs = vout, rt_BlockHeight = fst (snd s), rt_BlockHash = snd (snd s),
        rt_Confirmed = fst s \<rparr> }"

definition rest_GetTransaction :: "rest_client \<Rightarrow> (string \<Rightarrow> http_answer) \<Rightarrow> string \<Rightarrow> (web_error, rest_tx) res" where
  "rest_GetTransaction rc web txid = fetch_json (as_object rest_tx_json) web (rc_baseURL rc @ ''/tx/'' @ txid)"

record rest_block =
  rb_Hash :: string
  rb_Height :: int
  rb_Time :: int
  rb_Transactions :: "rest_tx list"

definition rest_block_json :: "(string \<times> json) list \<Rightarrow> (string \<times> int \<times> int) option" where
  "rest_block_json kvs = do {
     i \<leftarrow> field [] as_string ''id'' kvs;
     h \<leftarrow> field 0 as_int64 ''height'' kvs;
     t \<leftarrow> field 0 as_int64 ''timestamp'' kvs;
     n \<leftarrow> field 0 as_int64 ''tx_count'' kvs;
     size \<leftarrow> field 0 as_int64 ''size'' kvs;
     weight \<leftarrow> field 0 as_int64 ''weight'' kvs;
     m \<leftarrow> field [] as_string ''merkle_root'' kvs;
     p \<leftarrow> field [] as_string ''previousblockhash'' kvs;
     nonce \<leftarrow> field 0 as_int64 ''nonce'' kvs;
     bits \<leftarrow> field 0 as_int64 ''bits'' kvs;
     d \<leftarrow> field ''0'' as_number ''difficulty'' kvs;
     Some (i, h, t) }"

definition fetch_txids :: "rest_client \<Rightarrow> (string \<Rightarrow> http_answer) \<Rightarrow> string \<Rightarrow> (web_error, string list) res" where
  "fetch_txids rc web hash = fetch_json (as_list as_string) web (rc_baseURL rc @ ''/block/'' @ hash @ ''/txids'')"

definition maxTxsToFetch :: nat where
  "maxTxsToFetch = 500"

text \<open>The transactions that can be fetched, in the order of their ids; the others are skipped.\<close>

definition fetch_txs :: "rest_client \<Rightarrow> (string \<Rightarrow> http_answer) \<Rightarrow> string list \<Rightarrow> rest_tx list" where
  "fetch_txs rc web txIDs = concat (map (\<lambda>txID. case rest_GetTransaction rc web txID of Inl _ \<Rightarrow> [] | Inr tx \<Rightarrow> [tx])
     (if length txIDs > maxTxsToFetch then take maxTxsToFetch txIDs else txIDs))"

definition rest_GetBlock :: "rest_client \<Rightarrow> (string \<Rightarrow> http_answer) \<Rightarrow> string \<Rightarrow> (web_error, rest_block) res" where
  "rest_GetBlock rc web hash =
     (case fetch_json (as_object rest_block_json) web (rc_baseURL rc @ ''/block/'' @ hash) of
        Inl e \<Rightarrow> Err e
      | Inr (i, h, t) \<Rightarrow>
          (case fetch_txids rc web hash of
             Inl e \<Rightarrow> Err e
           | Inr txIDs \<Rightarrow> Ok \<lparr> rb_Hash = i, rb_Height = h, rb_Time = t, rb_Transactions = fetch_txs rc web txIDs \<rparr>))"

fun index_of :: "string \<Rightarrow> string list \<Rightarrow> int \<Rightarrow> int option" where
  "index_of txID [] i = None"
| "index_of txID (x # xs) i = (if x = txID then Some i else index_of txID xs (i + 1))"

definition rest_GetBlockTransactionPosition :: "rest_client \<Rightarrow> (string \<Rightarrow> http_answer) \<Rightarrow> string \<Rightarrow> string \<Rightarrow> (web_error, int) res" where
  "rest_GetBlockTransactionPosition rc web blockHash txID =
     (case fetch_txids rc web blockHash of
        Inl e \<Rightarrow> Err e
      | Inr txIDs \<Rightarrow> (case index_of txID txIDs 0 of None \<Rightarrow> Err TxNotInBlock | Some i \<Rightarrow> Ok i))"

text \<open>The addresses of the outputs; those of the inputs are never filled in.\<close>

definition rest_ValidateDNNTransaction :: "('a btc_tx_scheme) \<Rightarrow> bool \<times> string list \<times> string list" where
  "rest_ValidateDNNTransaction tx =
     (let inputAddrs = ([] :: string list); outputAddrs = remdups (concat (map output_addresses (tx_Outputs tx)));
          allAddrs = remdups (inputAddrs @ outputAddrs)
      in (length allAddrs = 1 \<and> length allAddrs > 0, inputAddrs, outputAddrs))"

section \<open>The RPC client\<close>

record rpc_client =
  rpc_url :: string
  rpc_user :: string
  rpc_password :: string

definition rpc_NewClient :: "string \<Rightarrow> int \<Rightarrow> string \<Rightarrow> string \<Rightarrow> bool \<Rightarrow> rpc_client" where
  "rpc_NewClient host port user password useSSL =
     \<lparr> rpc_url = (if useSSL then ''https'' else ''http'') @ ''://'' @ host @ CHR '':'' # show_int port,
       rpc_user = user, rpc_password = password \<rparr>"

datatype rpc_param = PString string | PInt int | PBool bool

definition marshal_param :: "rpc_param \<Rightarrow> string" where
  "marshal_param p = (case p of PString s \<Rightarrow> marshal_string s | PInt i \<Rightarrow> show_int i | PBool b \<Rightarrow> if b then ''true'' else ''false'')"

text \<open>The body of a request; without parameters the slice is nil.\<close>

definition rpc_request :: "string \<Rightarrow> rpc_param list \<Rightarrow> string" where
  "rpc_request method params = concat
     [CHR ''{'' # marshal_string ''jsonrpc'', CHR '':'' # marshal_string ''1.0'',
      CHR '','' # marshal_string ''id'', CHR '':'' # marshal_string ''godnn'',
      CHR '','' # marshal_string ''method'', CHR '':'' # marshal_string method,
      CHR '','' # marshal_string ''params'', CHR '':'' # (if params = [] then ''null'' else CHR ''['' # join_on '','' (map marshal_param params) @ '']''),
      ''}'']"

definition rpc_error_json :: "(string \<times> json) list \<Rightarrow> (int \<times> string) option" where
  "rpc_error_json kvs = do {
     c \<leftarrow> field 0 as_int64 ''code'' kvs;
     m \<leftarrow> field [] as_string ''message'' kvs;
     Some (c, m) }"

definition rpc_response_json :: "(string \<times> json) list \<Rightarrow> (json option \<times> (int \<times> string) option) option" where
  "rpc_response_json kvs = do {
     r \<leftarrow> field None (\<lambda>j. Some (Some j)) ''result'' kvs;
     e \<leftarrow> field None (as_pointer rpc_error_json) ''error'' kvs;
     i \<leftarrow> field [] as_string ''id'' kvs;
     Some (r, e) }"

text \<open>
  A call.  The server answers user, password and body; neither the status nor the id of the answer is
  looked at.  The result is the raw message, which is empty when the answer has none.
\<close>

definition rpc_call :: "rpc_client \<Rightarrow> (string \<times> string \<Rightarrow> string \<Rightarrow> http_answer) \<Rightarrow> string \<Rightarrow> rpc_param list \<Rightarrow> (web_error, json option) res" where
  "rpc_call c server method params =
     (case server (rpc_user c, rpc_password c) (rpc_request method params) of
        NoAnswer \<Rightarrow> Err GetFailed
      | HttpAnswer status None \<Rightarrow> Err ReadFailed
      | HttpAnswer status (Some body) \<Rightarrow>
          (case decode_body (as_object rpc_response_json) body of
             Inl e \<Rightarrow> Err e
           | Inr (result, Some (code, message)) \<Rightarrow> Err (RpcFailed code message)
           | Inr (result, None) \<Rightarrow> Ok result))"

definition rpc_result :: "(json \<Rightarrow> 'a option) \<Rightarrow> (web_error, json option) res \<Rightarrow> (web_error, 'a) res" where
  "rpc_result f r =
     (case r of Inl e \<Rightarrow> Err e
      | Inr result \<Rightarrow> (case Option.bind result f of None \<Rightarrow> Err ParseFailed | Some x \<Rightarrow> Ok x))"

definition rpc_GetBlockCount :: "rpc_client \<Rightarrow> (string \<times> string \<Rightarrow> string \<Rightarrow> http_answer) \<Rightarrow> (web_error, int) res" where
  "rpc_GetBlockCount c server = rpc_result as_int64 (rpc_call c server ''getblockcount'' [])"

definition rpc_GetBlockHash :: "rpc_client \<Rightarrow> (string \<times> string \<Rightarrow> string \<Rightarrow> http_answer) \<Rightarrow> int \<Rightarrow> (web_error, string) res" where
  "rpc_GetBlockHash c server height = rpc_result as_string (rpc_call c server ''getblockhash'' [PInt height])"

text \<open>Transactions as the tags of the struct name their parts; the fee keeps its literal.\<close>

record rpc_tx = rest_tx +
  rp_Fee :: string

definition script_json :: "(string \<times> json) list \<Rightarrow> unit option" where
  "script_json kvs = do {
     asm \<leftarrow> field [] as_string ''asm'' kvs;
     hex \<leftarrow> field [] as_string ''hex'' kvs;
     Some () }"

definition tx_input_json :: "(string \<times> json) list \<Rightarrow> tx_input option" where
  "tx_input_json kvs = do {
     t \<leftarrow> field [] as_string ''txid'' kvs;
     v \<leftarrow> field 0 as_uint32 ''vout'' kvs;
     s \<leftarrow> field () (as_object script_json) ''scriptSig'' kvs;
     q \<leftarrow> field 0 as_uint32 ''sequence'' kvs;
     a \<leftarrow> field [] as_string ''address'' kvs;
     n \<leftarrow> field 0 as_int64 ''value'' kvs;
     Some \<lparr> in_TxID = t, in_Vout = v, in_Address = a \<rparr> }"

definition script_pub_key_json :: "(string \<times> json) list \<Rightarrow> script_pub_key option" where
  "script_pub_key_json kvs = do {
     s \<leftarrow> script_json kvs;
     t \<leftarrow> field [] as_string ''type'' kvs;
     as \<leftarrow> field [] (as_list as_string) ''addresses'' kvs;
     a \<leftarrow> field [] as_string ''address'' kvs;
     Some \<lparr> spk_Type = t, spk_Addresses = as, spk_Address = a \<rparr> }"

definition tx_output_json :: "(string \<times> json) list \<Rightarrow> script_pub_key option" where
  "tx_output_json kvs = do {
     v \<leftarrow> field ''0'' as_number ''value'' kvs;
     n \<leftarrow> field 0 as_uint32 ''n'' kvs;
     field \<lparr> spk_Type = [], spk_Addresses = [], spk_Address = [] \<rparr> (as_object script_pub_key_json) ''scriptPubKey'' kvs }"

definition tx_json :: "(string \<times> json) list \<Rightarrow> rpc_tx option" where
  "tx_json kvs = do {
     t \<leftarrow> field [] as_string ''txid'' kvs;
     vin \<leftarrow> field [] (as_list (as_object tx_input_json)) ''vin'' kvs;
     vout \<leftarrow> field [] (as_list (as_object tx_output_json)) ''vout'' kvs;
     fee \<leftarrow> field ''0'' as_number ''fee'' kvs;
     size \<leftarrow> field 0 as_int64 ''size'' kvs;
     weight \<leftarrow> field 0 as_int64 ''weight'' kvs;
     vsize \<leftarrow> field 0 as_int64 ''vsize'' kvs;
     h \<leftarrow> field 0 as_int64 ''block_height'' kvs;
     b \<leftarrow> field [] as_string ''block_hash'' kvs;
     c \<leftarrow> field False as_bool ''confirmed'' kvs;
     Some \<lparr> tx_TxID = t, tx_Inputs = vin, tx_Outputs = vout, rt_BlockHeight = h, rt_BlockHash = b, rt_Confirmed = c, rp_Fee = fee \<rparr> }"

record rpc_block =
  pb_Hash :: string
  pb_Height :: int
  pb_Time :: int
  pb_Transactions :: "rpc_tx list"

definition block_json :: "(string \<times> json) list \<Rightarrow> rpc_block option" where
  "block_json kvs = do {
     h \<leftarrow> field [] as_string ''hash'' kvs;
     n \<leftarrow> field 0 as_int64 ''height'' kvs;
     t \<leftarrow> field 0 as_int64 ''time'' kvs;
     txs \<leftarrow> field [] (as_list (as_object tx_json)) ''tx'' kvs;
     Some \<lparr> pb_Hash = h, pb_Height = n, pb_Time = t, pb_Transactions = txs \<rparr> }"

definition rpc_GetBlock :: "rpc_client \<Rightarrow> (string \<times> string \<Rightarrow> string \<Rightarrow> http_answer) \<Rightarrow> string \<Rightarrow> (web_error, rpc_block) res" where
  "rpc_GetBlock c server hash = rpc_result (as_object block_json) (rpc_call c server ''getblock'' [PString hash, PInt 2])"

definition rpc_GetTransaction :: "rpc_client \<Rightarrow> (string \<times> string \<Rightarrow> string \<Rightarrow> http_answer) \<Rightarrow> string \<Rightarrow> (web_error, rpc_tx) res" where
  "rpc_GetTransaction c server txid = rpc_result (as_object tx_json) (rpc_call c server ''getrawtransaction'' [PString txid, PBool True])"

definition isSelfTransfer :: "('a btc_tx_scheme) \<Rightarrow> bool" where
  "isSelfTransfer tx = (length (remdups (concat (map output_addresses (tx_Outputs tx)))) = 1)"

text \<open>\<open>low\<close> compares the fee, read as \<^verbatim>\<open>float64\<close>, with 0.00000005.\<close>

definition rpc_ValidateDNNTransaction :: "(string \<Rightarrow> bool) \<Rightarrow> rpc_tx \<Rightarrow> bool" where
  "rpc_ValidateDNNTransaction low tx = (if \<not> isSelfTransfer tx then False else if low (rp_Fee tx) then False else True)"

section \<open>Explorers and reorganisations\<close>

text \<open>What the reorganisation handler gets from the REST client: an error counts as no answer.\<close>

definition rest_answer :: "rest_client \<Rightarrow> (string \<Rightarrow> http_answer) \<Rightarrow> int \<Rightarrow> string option" where
  "rest_answer rc web b = (case rest_GetBlockHash rc web b of Inl _ \<Rightarrow> None | Inr h \<Rightarrow> Some h)"

definition contradicts :: "rest_client \<Rightarrow> (string \<Rightarrow> http_answer) \<Rightarrow> database \<Rightarrow> int \<Rightarrow> bool" where
  "contradicts rc web d b =
     (case (GetBitcoinBlockHash b d, web (rc_baseURL rc @ ''/block-height/'' @ show_int b)) of
        (Inr h, HttpAnswer status (Some body)) \<Rightarrow> status = 200 \<and> body \<noteq> [] \<and> body \<noteq> h
      | _ \<Rightarrow> False)"

lemma rest_answer_body:
  "rest_answer rc web b = (case web (rc_baseURL rc @ ''/block-height/'' @ show_int b) of
     HttpAnswer status (Some body) \<Rightarrow> if status = 200 then Some body else None | _ \<Rightarrow> None)"
  by (auto simp: rest_answer_def rest_GetBlockHash_def fetch_url_def split: http_answer.splits option.splits)

lemma differs_iff_contradicts:
  assumes "ch_rest env = Some (rest_answer rc web)" "\<And>h. GetBitcoinBlockHash b d = Ok h \<Longrightarrow> ch_GetBlockHash env b = Some h"
  shows "hash_differs env d b \<longleftrightarrow> contradicts rc web d b"
  using assms(2)
  by (auto simp: hash_differs_def current_hash_def contradicts_def assms(1) rest_answer_body
      split: sum.splits option.splits http_answer.splits if_splits)

text \<open>
  C19.  When the stored hashes are those of the network, a due check for reorganisations does what the
  block explorer alone says: one answer with status 200 and any other text, for any stored block of the
  range, starts a recovery from the first such block, which, when it succeeds, drops every anchor of
  later DNN blocks; without such an answer only the time of the check is recorded.
\<close>

theorem one_explorer_decides:
  assumes "ShouldCheckReorg n" "ch_GetBlockCount env = Some height"
    and "GetReorgCheckRange (NewPolicyEnforcer (ch_network env)) height = (s, e)"
    and "ch_rest env = Some (rest_answer rc web)"
    and "\<And>b h. GetBitcoinBlockHash b d = Ok h \<Longrightarrow> ch_GetBlockHash env b = Some h"
  shows "case CheckAndHandleReorg env n d of (result, d') \<Rightarrow>
    if \<exists>b\<in>{s..e}. contradicts rc web d b
    then \<exists>b\<in>{s..e}. contradicts rc web d b \<and> \<not> (\<exists>c\<in>{s..<b}. contradicts rc web d c)
           \<and> (result, d') = handleReorg env b d
           \<and> (result = Ok () \<longrightarrow> anchor_events d' = filter (\<lambda>a. a_dnn_block a \<le> dnn_start env b) (anchor_events d))
    else (result, d') = (Ok (), UpdateReorgCheckTime (ch_time env) d)"
proof -
  have c: "hash_differs env d b \<longleftrightarrow> contradicts rc web d b" for b
    by (rule differs_iff_contradicts[OF assms(4) assms(5)])
  obtain result d' where r: "CheckAndHandleReorg env n d = (result, d')" by fastforce
  note first = reorg_starts_at_first_difference[OF assms(1-3), of d, unfolded c r]
  have k: "(result, d') = handleReorg env b d \<Longrightarrow> result = Ok ()
      \<longrightarrow> anchor_events d' = filter (\<lambda>a. a_dnn_block a \<le> dnn_start env b) (anchor_events d)" for b
    using recovery_keeps_transactions[of env b d] by (metis fst_conv snd_conv)
  show ?thesis
  proof (cases "\<exists>b\<in>{s..e}. contradicts rc web d b")
    case True
    then obtain b where "b \<in> {s..e}" "contradicts rc web d b" "\<not> (\<exists>c\<in>{s..<b}. contradicts rc web d c)"
      "(result, d') = handleReorg env b d" using first by auto
    then show ?thesis using True k[of b] unfolding r prod.case by (simp only: if_True) blast
  next
    case False
    then show ?thesis using first unfolding r prod.case by (simp only: if_False)
  qed
qed

text \<open>An explorer that answers with a page about its limits.\<close>

definition busy_web :: "string \<Rightarrow> http_answer" where
  "busy_web url = HttpAnswer 200 (Some ''busy'')"

definition watched_env :: chain_env where
  "watched_env = fork_env\<lparr>ch_GetBlockHash := (\<lambda>b. case GetBitcoinBlockHash b fork_db of Inl _ \<Rightarrow> None | Inr h \<Rightarrow> Some h),
     ch_rest := Some (rest_answer NewMempoolSpaceClient busy_web)\<rparr>"

theorem one_explorer_decides_witness:
  "\<exists>b. contradicts NewMempoolSpaceClient busy_web fork_db b \<and> CheckAndHandleReorg watched_env 144 fork_db = handleReorg watched_env b fork_db"
proof -
  have 1: "ShouldCheckReorg 144" by (simp add: ShouldCheckReorg_def ReorgCheckInterval_def)
  have 2: "ch_GetBlockCount watched_env = Some 940003" by (simp add: watched_env_def fork_env_def)
  have 3: "GetReorgCheckRange (NewPolicyEnforcer (ch_network watched_env)) 940003 = (940000, 940003)" by code_simp
  have 4: "ch_rest watched_env = Some (rest_answer NewMempoolSpaceClient busy_web)" by (simp add: watched_env_def)
  have 5: "GetBitcoinBlockHash b fork_db = Ok h \<Longrightarrow> ch_GetBlockHash watched_env b = Some h" for b h
    by (simp add: watched_env_def)
  have "GetBitcoinBlockHash 940002 fork_db = Ok ''old''" by code_simp
  then have "contradicts NewMempoolSpaceClient busy_web fork_db 940002" by (simp add: contradicts_def busy_web_def)
  then have "\<exists>b\<in>{940000..940003}. contradicts NewMempoolSpaceClient busy_web fork_db b" by (intro bexI[of _ 940002]) auto
  then show ?thesis
    using one_explorer_decides[OF 1 2 3 4, of fork_db] 5 by (cases "CheckAndHandleReorg watched_env 144 fork_db") auto
qed

section \<open>Blocks of the explorer\<close>

text \<open>A block of the explorer lists its transactions in order but only the first 500, and only those it got.\<close>

lemma fetched_in_order: "fetch_txs rc web txIDs = List.map_filter
   (\<lambda>txID. case rest_GetTransaction rc web txID of Inl _ \<Rightarrow> None | Inr tx \<Rightarrow> Some tx) (take 500 txIDs)"
proof -
  have "concat (map (\<lambda>x. case f x of Inl e \<Rightarrow> [] | Inr y \<Rightarrow> [y]) xs)
      = List.map_filter (\<lambda>x. case f x of Inl e \<Rightarrow> None | Inr y \<Rightarrow> Some y) xs" for f :: "string \<Rightarrow> (web_error, rest_tx) res" and xs
    by (induction xs) (auto simp: List.map_filter_simps split: sum.splits)
  then show ?thesis by (simp add: fetch_txs_def maxTxsToFetch_def)
qed

lemma large_blocks_are_cut:
  assumes "rest_GetBlock rc web hash = Ok block"
  shows "\<exists>txIDs. fetch_txids rc web hash = Ok txIDs \<and> rb_Transactions block = fetch_txs rc web txIDs
    \<and> length (rb_Transactions block) \<le> 500"
proof -
  have "length (fetch_txs rc web txIDs) \<le> 500" for txIDs
  proof -
    have "length (List.map_filter g xs) \<le> length xs" for g :: "string \<Rightarrow> rest_tx option" and xs
      by (induction xs) (auto simp: List.map_filter_simps split: option.splits)
    then show ?thesis unfolding fetched_in_order by (rule le_trans) simp
  qed
  then show ?thesis using assms by (auto simp: rest_GetBlock_def split: sum.splits)
qed

lemma index_of_iff:
  "index_of t xs i = Some k \<longleftrightarrow> (\<exists>n < length xs. k = i + int n \<and> xs ! n = t \<and> t \<notin> set (take n xs))"
proof (induction xs arbitrary: i)
  case (Cons x xs)
  show ?case
  proof (cases "x = t")
    case True
    have "n = 0" if "t \<notin> set (take n (x # xs))" for n using that True by (cases n) simp_all
    then show ?thesis using True by auto
  next
    case False
    have "(\<exists>n < length (x # xs). k = i + int n \<and> (x # xs) ! n = t \<and> t \<notin> set (take n (x # xs)))
        \<longleftrightarrow> (\<exists>n < length xs. k = i + 1 + int n \<and> xs ! n = t \<and> t \<notin> set (take n xs))" (is "?l \<longleftrightarrow> ?r")
    proof
      assume ?l
      then obtain n where n: "n < length (x # xs)" "k = i + int n" "(x # xs) ! n = t" "t \<notin> set (take n (x # xs))" by blast
      then obtain m where "n = Suc m" using False by (cases n) auto
      then show ?r using n by auto
    next
      assume ?r
      then obtain n where "n < length xs" "k = i + 1 + int n" "xs ! n = t" "t \<notin> set (take n xs)" by blast
      then show ?l using False by (intro exI[of _ "Suc n"]) auto
    qed
    then show ?thesis using Cons.IH[of "i + 1"] False by simp
  qed
qed simp

lemma explorer_position:
  "rest_GetBlockTransactionPosition rc web blockHash txID = Ok k \<longleftrightarrow>
     (\<exists>txIDs n. fetch_txids rc web blockHash = Ok txIDs \<and> n < length txIDs \<and> k = int n \<and> txIDs ! n = txID \<and> txID \<notin> set (take n txIDs))"
proof -
  have "rest_GetBlockTransactionPosition rc web blockHash txID = Ok k
      \<longleftrightarrow> (\<exists>txIDs. fetch_txids rc web blockHash = Ok txIDs \<and> index_of txID txIDs 0 = Some k)"
    by (auto simp: rest_GetBlockTransactionPosition_def split: sum.splits option.splits)
  then show ?thesis by (auto simp: index_of_iff)
qed

section \<open>The checks of the two clients\<close>

text \<open>
  Both checks look at the outputs alone, so they accept what the numbering accepts, and also a payment
  of somebody else.
\<close>

lemma client_checks_agree: "fst (rest_ValidateDNNTransaction tx) = isSelfTransfer tx"
  by (simp only: rest_ValidateDNNTransaction_def isSelfTransfer_def Let_def append_Nil fst_conv length_remdups_card_conv set_remdups) auto

lemma numbered_is_self_transfer:
  assumes "isValidDNNTransaction tx = Some a"
  shows "isSelfTransfer tx"
proof -
  let ?i = "remdups (map in_Address (tx_Inputs tx))" and ?o = "remdups (concat (map output_addresses (tx_Outputs tx)))"
  have "length (remdups (?i @ ?o)) = 1" "?o \<noteq> []"
    using assms by (auto simp: isValidDNNTransaction_def Let_def split: if_splits)
  then have "card (set ?i \<union> set ?o) = 1" "set ?o \<noteq> {}" by (simp_all add: length_remdups_card_conv)
  then have "card (set ?o) = 1"
    by (metis card_1_singletonE subset_singletonD Un_upper2 is_singletonI is_singleton_altdef)
  then show ?thesis by (simp add: isSelfTransfer_def length_remdups_card_conv)
qed

lemma payments_pass_the_client_checks:
  "isSelfTransfer (tx\<lparr>tx_Inputs := ins\<rparr>) = isSelfTransfer tx"
  by (simp add: isSelfTransfer_def)

text \<open>A transaction whose inputs come without addresses, as an RPC server reports them, is never numbered.\<close>

lemma rpc_inputs_are_not_numbered:
  assumes "tx_input_json kvs = Some i" "members ''address'' kvs = []" "i \<in> set (tx_Inputs tx)"
  shows "isValidDNNTransaction tx = None"
proof -
  have "in_Address i = []" using assms(1,2) by (auto simp: tx_input_json_def field_def Option.bind_eq_Some_conv)
  then show ?thesis using assms(3) by (auto simp: isValidDNNTransaction_def list_ex_iff)
qed

text \<open>A result that is null is an empty hash, the height 0 and an empty block.\<close>

definition null_server :: "string \<times> string \<Rightarrow> string \<Rightarrow> http_answer" where
  "null_server auth request = HttpAnswer 500 (Some (CHR ''{'' # marshal_string ''result'' @ '':null}''))"

lemma null_call: "rpc_call c null_server method params = Ok (Some JNull)"
proof -
  have "parse_json (CHR ''{'' # marshal_string ''result'' @ '':null}'') = Some (JObj [(''result'', JNull)])" by code_simp
  moreover have "rpc_response_json [(''result'', JNull)] = Some (Some JNull, None)" by code_simp
  ultimately show ?thesis by (simp add: rpc_call_def null_server_def decode_body_def as_object_def)
qed

lemma null_results:
  "rpc_GetBlockHash c null_server h = Ok [] \<and> rpc_GetBlockCount c null_server = Ok 0
   \<and> rpc_GetBlock c null_server hash = Ok \<lparr> pb_Hash = [], pb_Height = 0, pb_Time = 0, pb_Transactions = [] \<rparr>"
proof -
  have "block_json [] = Some \<lparr> pb_Hash = [], pb_Height = 0, pb_Time = 0, pb_Transactions = [] \<rparr>" by code_simp
  then show ?thesis
    by (simp add: rpc_GetBlockHash_def rpc_GetBlockCount_def rpc_GetBlock_def rpc_result_def null_call as_string_def as_int64_def as_object_def)
qed

end
