(* ===== verification/Listings.thy ===== *)
theory Listings
  imports Lookup Encoder Updates
begin

text \<open>
  The listing, search and statistics queries of \<^verbatim>\<open>src/internal/database/queries.go\<close> and the HTTP
  routes of \<^verbatim>\<open>src/internal/node/node.go\<close> that serve them.  A query parameter that is absent is the
  empty string.  \<open>listing_env\<close> holds \<^verbatim>\<open>nip19\<close>, SQLite's reading of a text as a number when it is
  compared with an integer column (\<open>None\<close> when it is not a whole number), and \<^verbatim>\<open>time.Parse\<close>.  The size
  of the database file is left out of the statistics.
\<close>

record listing_env =
  le_nip19 :: "string \<Rightarrow> naddr_data option"
  le_npub :: "string \<Rightarrow> string option"
  le_EncodePublicKey :: "string \<Rightarrow> string option"
  le_EncodeEntity :: "string \<Rightarrow> int \<Rightarrow> string \<Rightarrow> string option"
  le_number :: "string \<Rightarrow> int option"
  le_parse_time :: "string \<Rightarrow> int"

text \<open>\<^verbatim>\<open>LIMIT ? OFFSET ?\<close>: a negative limit is no limit, a negative offset is zero.\<close>

definition sql_page :: "int \<Rightarrow> int \<Rightarrow> 'r list \<Rightarrow> 'r list" where
  "sql_page limit offset rs = (let rest = drop (nat offset) rs in if limit < 0 then rest else take (nat limit) rest)"

definition page_limit :: "int \<Rightarrow> int \<Rightarrow> string \<Rightarrow> int" where
  "page_limit usual most s = (if s = [] then usual else min (sscanf_d usual s) most)"

definition page_offset :: "string \<Rightarrow> int" where
  "page_offset s = (if s = [] then 0 else sscanf_d 0 s)"

section \<open>Searching names\<close>

record search_result =
  s_Name :: string
  s_Pubkey :: string
  s_DNNBlock :: int
  s_BitcoinBlock :: int
  s_Position :: int
  s_CreatedAt :: int

record name_match =
  m_name :: string
  m_pubkey :: string
  m_dTag :: string

fun insert_text :: "('r \<Rightarrow> string) \<Rightarrow> 'r \<Rightarrow> 'r list \<Rightarrow> 'r list" where
  "insert_text k r [] = [r]"
| "insert_text k r (s # t) = (if str_less (k s) (k r) then s # insert_text k r t else r # s # t)"

definition order_text :: "('r \<Rightarrow> string) \<Rightarrow> 'r list \<Rightarrow> 'r list" where
  "order_text k t = foldr (insert_text k) t []"

definition distinct_rows :: "'r list \<Rightarrow> 'r list" where
  "distinct_rows t = rev (remdups (rev t))"

definition match_of :: "name_row \<Rightarrow> name_match" where
  "match_of r = \<lparr> m_name = r_primary_name r, m_pubkey = r_pubkey r, m_dTag = r_d_tag r \<rparr>"

definition name_matches :: "string \<Rightarrow> database \<Rightarrow> name_match list" where
  "name_matches query d = order_text m_name (distinct_rows (map match_of
     (filter (\<lambda>r. like_containing (r_primary_name r) query) (name_events d))))"

text \<open>\<^verbatim>\<open>ORDER BY dnn_block_number DESC, position ASC\<close>.\<close>

definition by_block :: "anchor_row list \<Rightarrow> anchor_row list" where
  "by_block t = order_by (\<lambda>r. - a_dnn_block r) (order_by a_position t)"

definition refers :: "(string \<Rightarrow> naddr_data option) \<Rightarrow> name_match \<Rightarrow> anchor_row \<Rightarrow> bool" where
  "refers decode m a = (case extractEventIDFromNaddr decode (a_name_ref a) of
     Inl _ \<Rightarrow> False | Inr (_, _, pubkey, dTag) \<Rightarrow> pubkey = m_pubkey m \<and> dTag = m_dTag m)"

definition found_anchor :: "string \<Rightarrow> anchor_row \<Rightarrow> search_result" where
  "found_anchor name a = \<lparr> s_Name = name, s_Pubkey = r_pubkey a, s_DNNBlock = a_dnn_block a,
     s_BitcoinBlock = a_bitcoin_block a, s_Position = a_position a, s_CreatedAt = r_created_at a \<rparr>"

text \<open>The two loops stop when there are enough results for the page.\<close>

fun search_anchors ::
  "(string \<Rightarrow> naddr_data option) \<Rightarrow> int \<Rightarrow> name_match \<Rightarrow> anchor_row list \<Rightarrow> string list \<times> search_result list \<Rightarrow>
     string list \<times> search_result list" where
  "search_anchors decode enough m [] st = st"
| "search_anchors decode enough m (a # rows) (seen, results) =
     (if r_id a \<in> set seen \<or> \<not> refers decode m a then search_anchors decode enough m rows (seen, results)
      else
        let st = (r_id a # seen, results @ [found_anchor (m_name m) a])
        in if int (length results + 1) \<ge> enough then st else search_anchors decode enough m rows st)"

fun search_matches ::
  "(string \<Rightarrow> naddr_data option) \<Rightarrow> int \<Rightarrow> anchor_row list \<Rightarrow> name_match list \<Rightarrow> string list \<times> search_result list \<Rightarrow>
     string list \<times> search_result list" where
  "search_matches decode enough rows [] st = st"
| "search_matches decode enough rows (m # ms) st =
     (let st' = search_anchors decode enough m rows st
      in if int (length (snd st')) \<ge> enough then st' else search_matches decode enough rows ms st')"

text \<open>The slice at the end panics on a negative offset or limit: \<open>None\<close>.\<close>

definition SearchNames :: "listing_env \<Rightarrow> string \<Rightarrow> int \<Rightarrow> int \<Rightarrow> database \<Rightarrow> search_result list option" where
  "SearchNames env query limit offset d =
     (let enough = wrap64 (offset + limit);
          results = snd (search_matches (le_nip19 env) enough (by_block (anchor_events d)) (name_matches query d) ([], []));
          upto = min enough (int (length results))
      in if offset \<ge> int (length results) then Some []
         else if offset < 0 \<or> upto < offset then None
         else Some (take (nat (upto - offset)) (drop (nat offset) results)))"

definition GetNameHistory :: "listing_env \<Rightarrow> string \<Rightarrow> database \<Rightarrow> search_result list" where
  "GetNameHistory env name d = concat (map (\<lambda>r. map (found_anchor name)
       (filter (refers (le_nip19 env) (match_of r)) (by_block (anchor_events d))))
     (filter (\<lambda>r. r_primary_name r = name) (name_events d)))"

text \<open>An anchor whose name is not found is skipped; its id is sliced for the log.\<close>

fun user_names :: "listing_env \<Rightarrow> database \<Rightarrow> anchor_row list \<Rightarrow> search_result list option" where
  "user_names env d [] = Some []"
| "user_names env d (a # rows) =
     (case referenced_name (le_nip19 env) d a of
        Some r \<Rightarrow> map_option ((#) (found_anchor (r_primary_name r) a)) (user_names env d rows)
      | None \<Rightarrow> if length (r_id a) < 8 then None else user_names env d rows)"

definition GetUserNames :: "listing_env \<Rightarrow> string \<Rightarrow> database \<Rightarrow> search_result list option" where
  "GetUserNames env pubkey d = user_names env d (by_block (filter (\<lambda>r. r_pubkey r = pubkey) (anchor_events d)))"

definition ExportNames :: "listing_env \<Rightarrow> database \<Rightarrow> search_result list option" where
  "ExportNames env d = SearchNames env [] 100000 0 d"

section \<open>Blocks\<close>

record block_info =
  bi_BlockNumber :: int
  bi_BitcoinBlockNumber :: int
  bi_BitcoinBlockHash :: string
  bi_AnchorCount :: nat
  bi_CreatedAt :: int
  bi_SyncedAt :: int

definition block_info_of :: "database \<Rightarrow> block_row \<Rightarrow> block_info" where
  "block_info_of d b = \<lparr> bi_BlockNumber = b_number b, bi_BitcoinBlockNumber = b_bitcoin b, bi_BitcoinBlockHash = b_hash b,
     bi_AnchorCount = count_where (\<lambda>r. a_dnn_block r = b_number b) (anchor_events d),
     bi_CreatedAt = b_created_at b, bi_SyncedAt = b_synced_at b \<rparr>"

definition GetBlockInfo :: "int \<Rightarrow> database \<Rightarrow> block_info option" where
  "GetBlockInfo blockNumber d = map_option (block_info_of d) (find (\<lambda>b. b_number b = blockNumber) (dnn_blocks d))"

definition GetRecentBlocks :: "int \<Rightarrow> database \<Rightarrow> block_info list" where
  "GetRecentBlocks limit d = map (block_info_of d) (sql_page limit 0 (order_by (\<lambda>b. - b_number b) (dnn_blocks d)))"

definition referenced_conn :: "(string \<Rightarrow> naddr_data option) \<Rightarrow> database \<Rightarrow> string \<Rightarrow> tagged_row option" where
  "referenced_conn decode d ref =
     (case extractEventIDFromNaddr decode ref of
        Inl _ \<Rightarrow> None
      | Inr (_, _, pubkey, dTag) \<Rightarrow> newest_row (at_address pubkey dTag) (connection_events d))"

definition GetBlockAnchors :: "listing_env \<Rightarrow> int \<Rightarrow> database \<Rightarrow> anchor_record list" where
  "GetBlockAnchors env blockNumber d =
     map (\<lambda>a. (record_of (le_nip19 env) d a)\<lparr>ar_ConnEvent := None,
             ar_ConnectionContent := case_option [] r_content (referenced_conn (le_nip19 env) d (a_conn_ref a))\<rparr>)
       (order_by a_position (filter (\<lambda>r. a_dnn_block r = blockNumber) (anchor_events d)))"

record block_count =
  bc_BitcoinBlock :: int
  bc_DNNBlock :: int
  bc_CompleteCount :: nat
  bc_TotalCount :: nat

definition GetBlockAnchorCounts :: "int \<Rightarrow> int \<Rightarrow> database \<Rightarrow> block_count list" where
  "GetBlockAnchorCounts startBlock endBlock d =
     (let rows = filter (\<lambda>r. startBlock \<le> t_bitcoin_block r \<and> t_bitcoin_block r \<le> endBlock) (bitcoin_transactions d);
          groups = order_by fst (order_by snd (remdups (map (\<lambda>r. (t_bitcoin_block r, t_dnn_block r)) rows)))
      in map (\<lambda>g. let members = filter (\<lambda>r. (t_bitcoin_block r, t_dnn_block r) = g) rows in
           \<lparr> bc_BitcoinBlock = fst g, bc_DNNBlock = snd g,
             bc_CompleteCount = count_where t_has_anchor members, bc_TotalCount = length members \<rparr>) groups)"

section \<open>Statistics\<close>

record stats =
  st_TotalNames :: nat
  st_TotalAnchors :: nat
  st_TotalBitcoinTxs :: nat
  st_TotalPendingTxs :: nat
  st_LatestDNNBlock :: int
  st_LatestBitcoinBlock :: int
  st_LastSync :: "int option"

definition max_or_zero :: "int list \<Rightarrow> int" where
  "max_or_zero xs = (case xs of [] \<Rightarrow> 0 | y # ys \<Rightarrow> foldl max y ys)"

definition GetStats :: "listing_env \<Rightarrow> database \<Rightarrow> stats" where
  "GetStats env d = \<lparr> st_TotalNames = length (remdups (map r_d_tag (name_events d))),
     st_TotalAnchors = length (anchor_events d), st_TotalBitcoinTxs = length (bitcoin_transactions d),
     st_TotalPendingTxs = count_where (\<lambda>r. \<not> t_has_anchor r) (bitcoin_transactions d),
     st_LatestDNNBlock = max_or_zero (map b_number (dnn_blocks d)),
     st_LatestBitcoinBlock = max_or_zero (map b_bitcoin (dnn_blocks d)),
     st_LastSync = (case map_of (sync_state d) ''last_sync_time'' of
        None \<Rightarrow> None | Some s \<Rightarrow> if s = ''0'' then None else Some (le_parse_time env s)) \<rparr>"

section \<open>Transactions\<close>

record tx_record =
  tr_TransactionID :: string
  tr_BitcoinBlock :: int
  tr_DNNBlock :: int
  tr_Position :: int
  tr_BitcoinAddress :: string
  tr_FeeRate :: string
  tr_DiscoveredAt :: int
  tr_HasAnchorEvent :: bool
  tr_AnchorEventID :: string
  tr_Name :: string
  tr_Pubkey :: string
  tr_Npub :: string
  tr_Naddr :: string
  tr_Encoded :: string

definition left_join :: "('r \<Rightarrow> 's \<Rightarrow> bool) \<Rightarrow> 's list \<Rightarrow> 'r list \<Rightarrow> ('r \<times> 's option) list" where
  "left_join P u t = concat (map (\<lambda>r. case filter (P r) u of [] \<Rightarrow> [(r, None)] | ss \<Rightarrow> map (\<lambda>s. (r, Some s)) ss) t)"

definition joined_anchors :: "database \<Rightarrow> (btx_row \<times> anchor_row option) list" where
  "joined_anchors d = left_join (\<lambda>t a. t_id t = a_txid a) (anchor_events d) (bitcoin_transactions d)"

definition joined_blocks ::
  "database \<Rightarrow> (btx_row \<times> anchor_row option) list \<Rightarrow> ((btx_row \<times> anchor_row option) \<times> block_row option) list" where
  "joined_blocks d rows = left_join (\<lambda>r b. t_bitcoin_block (fst r) = b_bitcoin b) (dnn_blocks d) rows"

definition by_place :: "((btx_row \<times> anchor_row option) \<times> block_row option) list \<Rightarrow>
    ((btx_row \<times> anchor_row option) \<times> block_row option) list" where
  "by_place rows = order_by (\<lambda>r. - t_bitcoin_block (fst (fst r))) (order_by (\<lambda>r. t_position (fst (fst r))) rows)"

definition show_rate :: "btx_row \<Rightarrow> string" where
  "show_rate t = (if t_tie_position t > 0
     then show_int (t_fee_rate t) @ '' ('' @ show_int (t_tie_position t) @ ''-'' @ show_int (t_tie_digit t) @ '')''
     else show_int (t_fee_rate t))"

definition or_empty :: "string option \<Rightarrow> string" where
  "or_empty x = (case x of None \<Rightarrow> [] | Some s \<Rightarrow> s)"

definition anchor_text :: "(anchor_row \<Rightarrow> string) \<Rightarrow> anchor_row option \<Rightarrow> string" where
  "anchor_text f a = (case a of None \<Rightarrow> [] | Some r \<Rightarrow> f r)"

definition tx_record_of ::
  "listing_env \<Rightarrow> database \<Rightarrow> (btx_row \<Rightarrow> string) \<Rightarrow> (btx_row \<times> anchor_row option) \<times> block_row option \<Rightarrow> tx_record" where
  "tx_record_of env d rate row =
     (case row of ((t, a), b) \<Rightarrow>
       let pubkey = anchor_text r_pubkey a; dTag = anchor_text r_d_tag a in
       \<lparr> tr_TransactionID = t_id t, tr_BitcoinBlock = t_bitcoin_block t, tr_DNNBlock = t_dnn_block t,
         tr_Position = t_position t, tr_BitcoinAddress = t_address t, tr_FeeRate = rate t,
         tr_DiscoveredAt = (case b of None \<Rightarrow> t_discovered_at t | Some b \<Rightarrow> b_timestamp b),
         tr_HasAnchorEvent = t_has_anchor t, tr_AnchorEventID = or_empty (t_anchor_id t),
         tr_Name = (case a of None \<Rightarrow> [] | Some r \<Rightarrow> if a_name_ref r = [] then []
             else (case referenced_name (le_nip19 env) d r of None \<Rightarrow> [] | Some n \<Rightarrow> r_primary_name n)),
         tr_Pubkey = pubkey,
         tr_Npub = (if pubkey = [] then [] else or_empty (le_EncodePublicKey env pubkey)),
         tr_Naddr = (if pubkey = [] \<or> dTag = [] then [] else or_empty (le_EncodeEntity env pubkey 60600 dTag)),
         tr_Encoded = (case Encode NewEncoder (t_dnn_block t) (t_position t) of Inl _ \<Rightarrow> [] | Inr s \<Rightarrow> s) \<rparr>)"

text \<open>When the \<^verbatim>\<open>naddr\<close> cannot be encoded the log line slices the key and the d tag.\<close>

definition naddr_log_panics :: "listing_env \<Rightarrow> (btx_row \<times> anchor_row option) \<times> block_row option \<Rightarrow> bool" where
  "naddr_log_panics env row = (case snd (fst row) of None \<Rightarrow> False
     | Some r \<Rightarrow> r_pubkey r \<noteq> [] \<and> r_d_tag r \<noteq> [] \<and> le_EncodeEntity env (r_pubkey r) 60600 (r_d_tag r) = None
         \<and> (length (r_pubkey r) < 8 \<or> length (r_d_tag r) < 8))"

definition GetAllBitcoinTransactions :: "listing_env \<Rightarrow> int \<Rightarrow> int \<Rightarrow> database \<Rightarrow> tx_record list option" where
  "GetAllBitcoinTransactions env limit offset d =
     (let rows = sql_page limit offset (by_place (joined_blocks d (joined_anchors d)))
      in if list_ex (naddr_log_panics env) rows then None else Some (map (tx_record_of env d show_rate) rows))"

text \<open>
  The conditions of the search term: an \<^verbatim>\<open>npub\<close>, a place \<^verbatim>\<open>nX.Y\<close> or \<^verbatim>\<open>bX.Y\<close>, an encoded name, or a
  part of one of six columns.
\<close>

definition place_is :: "listing_env \<Rightarrow> (btx_row \<Rightarrow> int) \<Rightarrow> string \<Rightarrow> btx_row \<Rightarrow> bool" where
  "place_is env block search t = (case split_first_dot (drop 1 search) of
     None \<Rightarrow> like_containing (t_id t) search
   | Some (x, y) \<Rightarrow> le_number env x = Some (block t) \<and> le_number env y = Some (t_position t))"

definition search_matches_row :: "listing_env \<Rightarrow> string \<Rightarrow> btx_row \<times> anchor_row option \<Rightarrow> bool" where
  "search_matches_row env search r =
     (let t = fst r; pubkey = anchor_text r_pubkey (snd r); lower = to_lower search in
      if search = [] then True
      else if has_prefix lower ''npub1'' then
        (case le_npub env search of
           Some key \<Rightarrow> like_containing pubkey key
         | None \<Rightarrow> like_containing (t_id t) search)
      else if has_prefix lower ''n'' \<and> CHR ''.'' \<in> set search then place_is env t_dnn_block search t
      else if has_prefix lower ''b'' \<and> CHR ''.'' \<in> set search then place_is env t_bitcoin_block search t
      else (case Decode NewEncoder search of
          Inr (decodedBlock, decodedPos) \<Rightarrow> t_dnn_block t = decodedBlock \<and> t_position t = decodedPos
        | Inl _ \<Rightarrow>
            like_containing (t_address t) search \<or> like_containing (t_id t) search
            \<or> like_containing (show_int (t_dnn_block t)) search \<or> like_containing (show_int (t_position t)) search
            \<or> like_containing (show_int (t_bitcoin_block t)) search \<or> like_containing pubkey search))"

definition row_wanted :: "listing_env \<Rightarrow> string \<Rightarrow> string \<Rightarrow> int \<Rightarrow> btx_row \<times> anchor_row option \<Rightarrow> bool" where
  "row_wanted env status search bitcoinBlock r \<longleftrightarrow>
     (status = ''complete'' \<longrightarrow> t_has_anchor (fst r)) \<and> (status = ''pending'' \<longrightarrow> \<not> t_has_anchor (fst r))
     \<and> (bitcoinBlock > 0 \<longrightarrow> t_bitcoin_block (fst r) = bitcoinBlock) \<and> search_matches_row env search r"

record 'r page =
  pg_Results :: "'r list"
  pg_Total :: nat
  pg_Limit :: int
  pg_Offset :: int

definition GetBitcoinTransactionsPaginated ::
  "listing_env \<Rightarrow> int \<Rightarrow> int \<Rightarrow> string \<Rightarrow> string \<Rightarrow> int \<Rightarrow> database \<Rightarrow> tx_record page" where
  "GetBitcoinTransactionsPaginated env limit offset status search bitcoinBlock d =
     (let wanted = row_wanted env status search bitcoinBlock
      in \<lparr> pg_Results = map (tx_record_of env d show_rate) (sql_page limit offset
             (by_place (filter (\<lambda>r. wanted (fst r)) (joined_blocks d (joined_anchors d))))),
           pg_Total = length (filter wanted (joined_anchors d)), pg_Limit = limit, pg_Offset = offset \<rparr>)"

definition GetBitcoinTransactionsByAddress :: "listing_env \<Rightarrow> string \<Rightarrow> int \<Rightarrow> database \<Rightarrow> tx_record list" where
  "GetBitcoinTransactionsByAddress env address limit d =
     map (tx_record_of env d (\<lambda>t. show_int (t_fee_rate t))) (sql_page limit 0
       (by_place (filter (\<lambda>r. t_address (fst (fst r)) = address) (joined_blocks d (joined_anchors d)))))"

definition GetPendingTransactionIDs :: "database \<Rightarrow> string list" where
  "GetPendingTransactionIDs d = map t_id (take 100 (order_by (\<lambda>r. - t_discovered_at r)
     (filter (\<lambda>r. \<not> t_has_anchor r) (bitcoin_transactions d))))"

section \<open>Peers and relays\<close>

definition by_last_seen :: "peer_node list \<Rightarrow> peer_node list" where
  "by_last_seen t = order_by (\<lambda>n. if pn_last_seen n = None then 1 else 0)
     (order_by (\<lambda>n. case pn_last_seen n of None \<Rightarrow> 0 | Some s \<Rightarrow> - s) (order_by (\<lambda>n. - pn_discovered_at n) t))"

text \<open>The administrator's key is not selected.\<close>

definition GetPeerNodesPaginated :: "int \<Rightarrow> int \<Rightarrow> string \<Rightarrow> awareness_db \<Rightarrow> peer_node page" where
  "GetPeerNodesPaginated limit offset search a =
     (let rows = filter (\<lambda>n. search = [] \<or> like_containing (pn_address n) search
            \<or> like_containing (pn_node_npub n) search \<or> like_containing (pn_node_pubkey n) search) (peer_nodes a)
      in \<lparr> pg_Results = map (\<lambda>n. n\<lparr>pn_admin_pubkey := []\<rparr>) (sql_page limit offset (by_last_seen rows)),
           pg_Total = length rows, pg_Limit = limit, pg_Offset = offset \<rparr>)"

definition GetDiscoveredRelaysPaginated :: "int \<Rightarrow> int \<Rightarrow> string \<Rightarrow> relay_row list \<Rightarrow> relay_row page" where
  "GetDiscoveredRelaysPaginated limit offset search t =
     (let rows = filter (\<lambda>r. dr_is_active r \<and> (search = [] \<or> like_containing (dr_url r) search)) t
      in \<lparr> pg_Results = sql_page limit offset (order_by (\<lambda>r. - dr_last_seen r) rows),
           pg_Total = length rows, pg_Limit = limit, pg_Offset = offset \<rparr>)"

section \<open>Removing old events\<close>

definition mentioned :: "(string \<Rightarrow> naddr_data option) \<Rightarrow> (anchor_row \<Rightarrow> string) \<Rightarrow> anchor_row \<Rightarrow> (string \<times> string) option" where
  "mentioned decode ref a = (case extractEventIDFromNaddr decode (ref a) of
     Inl _ \<Rightarrow> None | Inr (_, _, pubkey, dTag) \<Rightarrow> Some (pubkey, dTag))"

definition CleanupOldData :: "listing_env \<Rightarrow> int \<Rightarrow> database \<Rightarrow> database" where
  "CleanupOldData env cutoffTime d =
     (let refs = \<lambda>ref. List.map_filter (mentioned (le_nip19 env) ref) (anchor_events d);
          names = map (\<lambda>k. fst k @ '':'' @ snd k) (refs a_name_ref)
      in d\<lparr> name_events := filter (\<lambda>r. \<not> (r_created_at r < cutoffTime
              \<and> r_pubkey r @ '':'' @ r_d_tag r \<notin> set names)) (name_events d),
            connection_events := filter (\<lambda>r. \<not> (r_created_at r < cutoffTime
              \<and> r_pubkey r \<notin> set (map fst (refs a_conn_ref)))) (connection_events d),
            metadata_events := filter (\<lambda>r. \<not> (r_created_at r < cutoffTime
              \<and> r_pubkey r \<notin> set (map fst (refs a_meta_ref)))) (metadata_events d) \<rparr>)"

section \<open>Routes\<close>

text \<open>\<^verbatim>\<open>None\<close>: the handler panics, and the server drops the connection.\<close>

definition handleSearch :: "listing_env \<Rightarrow> string \<Rightarrow> string \<Rightarrow> string \<Rightarrow> database \<Rightarrow> search_result list option" where
  "handleSearch env query limitStr offsetStr d =
     SearchNames env query (page_limit 20 100 limitStr) (page_offset offsetStr) d"

definition handleAnchors ::
  "listing_env \<Rightarrow> string \<Rightarrow> string \<Rightarrow> string \<Rightarrow> string \<Rightarrow> string \<Rightarrow> string \<Rightarrow> database \<Rightarrow> tx_record list + tx_record page" where
  "handleAnchors env limitStr offsetStr statusStr search address bitcoinBlockStr d =
     (let limit = page_limit 50 500 limitStr;
          status = (if statusStr = [] then ''all'' else statusStr)
      in if address \<noteq> [] then Inl (GetBitcoinTransactionsByAddress env address limit d)
         else Inr (GetBitcoinTransactionsPaginated env limit (page_offset offsetStr) status search (page_offset bitcoinBlockStr) d))"

definition handleStats :: "listing_env \<Rightarrow> database \<Rightarrow> stats" where
  "handleStats env d = GetStats env d"

text \<open>\<^verbatim>\<open>None\<close>: status 400.\<close>

definition handleBlockStats :: "string \<Rightarrow> string \<Rightarrow> database \<Rightarrow> block_count list option" where
  "handleBlockStats startBlockStr endBlockStr d =
     (let startBlock = page_offset startBlockStr; endBlock = page_offset endBlockStr in
      if startBlock \<le> 0 \<or> endBlock \<le> 0 \<or> startBlock > endBlock then None
      else Some (GetBlockAnchorCounts startBlock (if endBlock - startBlock > 100 then startBlock + 100 else endBlock) d))"

definition handleNameHistory :: "listing_env \<Rightarrow> string \<Rightarrow> database \<Rightarrow> search_result list" where
  "handleNameHistory env name d = GetNameHistory env name d"

definition handleUserNames :: "listing_env \<Rightarrow> string \<Rightarrow> database \<Rightarrow> search_result list option" where
  "handleUserNames env pubkey d = GetUserNames env pubkey d"

definition handleRecentBlocks :: "string \<Rightarrow> database \<Rightarrow> block_info list" where
  "handleRecentBlocks limitStr d = GetRecentBlocks (page_limit 10 100 limitStr) d"

definition handleExport :: "listing_env \<Rightarrow> database \<Rightarrow> search_result list option" where
  "handleExport env d = ExportNames env d"

text \<open>The two peer listings read their parameters with \<^verbatim>\<open>strconv.Atoi\<close> and refuse what is out of range.\<close>

definition atoi_limit :: "string \<Rightarrow> int" where
  "atoi_limit s = (case parse_int64 s of Some l \<Rightarrow> if 0 < l \<and> l \<le> 100 then l else 10 | None \<Rightarrow> 10)"

definition atoi_offset :: "string \<Rightarrow> int" where
  "atoi_offset s = (case parse_int64 s of Some n \<Rightarrow> if n \<ge> 0 then n else 0 | None \<Rightarrow> 0)"

definition handleDiscoveredPeers :: "string \<Rightarrow> string \<Rightarrow> string \<Rightarrow> awareness_db \<Rightarrow> peer_node page" where
  "handleDiscoveredPeers limitStr offsetStr search a = GetPeerNodesPaginated (atoi_limit limitStr) (atoi_offset offsetStr) search a"

definition handleDiscoveredRelays :: "string \<Rightarrow> string \<Rightarrow> string \<Rightarrow> relay_row list \<Rightarrow> relay_row page" where
  "handleDiscoveredRelays limitStr offsetStr search t =
     GetDiscoveredRelaysPaginated (atoi_limit limitStr) (atoi_offset offsetStr) search t"

text \<open>A body that is not JSON, or without relays, is refused.\<close>

definition handleAddDiscoveredRelays ::
  "int \<Rightarrow> (string list \<times> string \<times> string) option \<Rightarrow> relay_row list \<Rightarrow> nat option \<times> relay_row list" where
  "handleAddDiscoveredRelays now request t =
     (case request of
        None \<Rightarrow> (None, t)
      | Some (relays, source, discoveredBy) \<Rightarrow>
          if relays = [] then (None, t)
          else (Some (length relays),
                StoreDiscoveredRelays now relays (if source = [] then ''nip65'' else source) discoveredBy t))"

text \<open>Manual synchronisation; the work is done after the answer is sent.\<close>

definition handleSyncBlock :: "sync_env \<Rightarrow> int option \<Rightarrow> database \<Rightarrow> bool \<times> database" where
  "handleSyncBlock env request d =
     (case request of None \<Rightarrow> (False, d)
      | Some blockNumber \<Rightarrow> if blockNumber < 930130 then (False, d) else (True, snd (SyncSpecificBlock env blockNumber d)))"

definition handleSyncTransaction :: "sync_env \<Rightarrow> string option \<Rightarrow> database \<Rightarrow> bool \<times> database" where
  "handleSyncTransaction env request d =
     (case request of None \<Rightarrow> (False, d)
      | Some txID \<Rightarrow> if length txID \<noteq> 64 then (False, d) else (True, snd (SyncSpecificTransaction env txID d)))"

section \<open>Pages\<close>

lemma take_pages: "concat (map (\<lambda>k. take l (drop (k * l) xs)) [0..<n]) = take (n * l) xs"
proof (induction n)
  case (Suc n)
  have "take (n * l + l) xs = take (n * l) xs @ take l (drop (n * l) xs)" by (rule take_add)
  then show ?case using Suc by (simp add: add.commute)
qed simp

lemma sql_page_nat: "0 < limit \<Longrightarrow> sql_page limit (int k * limit) rs = take (nat limit) (drop (k * nat limit) rs)"
  by (simp add: sql_page_def Let_def nat_mult_distrib)

lemma sql_pages:
  assumes "0 < limit" "int (length rs) \<le> int n * limit"
  shows "concat (map (\<lambda>k. sql_page limit (int k * limit) rs) [0..<n]) = rs"
proof -
  have "length rs \<le> n * nat limit"
    using assms by (metis int_nat_eq nat_int_comparison(3) of_nat_mult order_less_imp_le)
  then show ?thesis by (simp add: sql_page_nat[OF assms(1)] take_pages)
qed

lemma sql_page_length: "0 \<le> limit \<Longrightarrow> length (sql_page limit offset rs) \<le> nat limit"
  by (simp add: sql_page_def Let_def)

text \<open>A join on a key of the second table adds at most one row to each row.\<close>

lemma left_join_unique:
  assumes "\<And>r. r \<in> set t \<Longrightarrow> length (filter (P r) u) \<le> 1"
  shows "left_join P u t = map (\<lambda>r. (r, find (P r) u)) t"
proof -
  have "(case filter (P r) u of [] \<Rightarrow> [(r, None)] | ss \<Rightarrow> map (\<lambda>s. (r, Some s)) ss) = [(r, find (P r) u)]" if "r \<in> set t" for r
  proof (cases "filter (P r) u")
    case Nil
    then show ?thesis by (auto simp: filter_empty_conv find_None_iff2 split: list.splits dest: sym[OF find_None_iff[THEN iffD2]])
  next
    case (Cons s ss)
    then have "ss = []" using assms[OF that] by simp
    moreover have "find (P r) u = Some s" using Cons by (induction u) (auto split: if_splits)
    ultimately show ?thesis using Cons by simp
  qed
  then show ?thesis unfolding left_join_def by (induction t) auto
qed

lemma unique_at_most_one:
  assumes "unique_rows clash u" "\<And>a b. P a \<Longrightarrow> P b \<Longrightarrow> clash a b"
  shows "length (filter P u) \<le> 1"
  using assms(1)
proof (induction u)
  case (Cons a u)
  then show ?case
    using assms(2) by (cases "P a") (auto simp: unique_rows_def filter_empty_conv)
qed simp

lemma unique_tx_ids: "unique_rows btx_clash t \<Longrightarrow> distinct (map t_id t)"
  by (induction t) (auto simp: unique_rows_def btx_clash_def)

definition anchor_of :: "database \<Rightarrow> btx_row \<Rightarrow> anchor_row option" where
  "anchor_of d t = find (\<lambda>a. t_id t = a_txid a) (anchor_events d)"

lemma joined_anchors_eq: "db_keys d \<Longrightarrow> joined_anchors d = map (\<lambda>t. (t, anchor_of d t)) (bitcoin_transactions d)"
  unfolding joined_anchors_def anchor_of_def
  by (rule left_join_unique, rule unique_at_most_one[of anchor_clash]) (auto simp: db_keys_def anchor_clash_def)

lemma joined_blocks_eq:
  "db_keys d \<Longrightarrow> joined_blocks d rows = map (\<lambda>r. (r, find (\<lambda>b. t_bitcoin_block (fst r) = b_bitcoin b) (dnn_blocks d))) rows"
  unfolding joined_blocks_def
  by (rule left_join_unique, rule unique_at_most_one[of block_clash]) (auto simp: db_keys_def block_clash_def)

lemma by_place_props: "mset (by_place rows) = mset rows" "length (by_place rows) = length rows"
  by (simp_all add: by_place_def)

text \<open>
  C28.  In a database with its keys, walking through the pages of the transaction list shows every
  stored transaction that the status, the block and the search select exactly once, and the total of
  every page is their number.
\<close>

theorem transaction_pages_complete:
  fixes d :: database and env :: listing_env and status search :: string and block :: int
  assumes "db_keys d" "0 < limit"
  defines "page \<equiv> \<lambda>k. GetBitcoinTransactionsPaginated env limit (int k * limit) status search block d"
    and "selected \<equiv> filter (\<lambda>t. row_wanted env status search block (t, anchor_of d t)) (bitcoin_transactions d)"
  assumes "int (length selected) \<le> int n * limit"
  shows "mset (map tr_TransactionID (concat (map (\<lambda>k. pg_Results (page k)) [0..<n]))) = mset (map t_id selected)
    \<and> distinct (map t_id selected) \<and> pg_Total (page k) = length selected
    \<and> sorted (map (\<lambda>r. - tr_BitcoinBlock r) (concat (map (\<lambda>k. pg_Results (page k)) [0..<n])))"
proof -
  let ?w = "row_wanted env status search block"
  let ?rows = "filter (\<lambda>r. ?w (fst r)) (joined_blocks d (joined_anchors d))"
  have rows: "?rows = map (\<lambda>t. ((t, anchor_of d t), find (\<lambda>b. t_bitcoin_block t = b_bitcoin b) (dnn_blocks d))) selected"
    by (simp add: joined_blocks_eq[OF assms(1)] joined_anchors_eq[OF assms(1)] filter_map o_def selected_def)
  have "concat (map (\<lambda>k. pg_Results (page k)) [0..<n])
      = map (tx_record_of env d show_rate) (concat (map (\<lambda>k. sql_page limit (int k * limit) (by_place ?rows)) [0..<n]))"
    by (simp add: page_def GetBitcoinTransactionsPaginated_def Let_def map_concat o_def)
  also have "\<dots> = map (tx_record_of env d show_rate) (by_place ?rows)"
    using assms(2,5) sql_pages[of limit "by_place ?rows" n] by (simp add: by_place_props rows)
  finally have c: "concat (map (\<lambda>k. pg_Results (page k)) [0..<n]) = map (tx_record_of env d show_rate) (by_place ?rows)" .
  have "tr_TransactionID (tx_record_of env d show_rate r) = t_id (fst (fst r))"
    and b: "tr_BitcoinBlock (tx_record_of env d show_rate r) = t_bitcoin_block (fst (fst r))" for r
    by (simp_all add: tx_record_of_def Let_def split: prod.splits)
  from this(1) have "mset (map tr_TransactionID (map (tx_record_of env d show_rate) (by_place ?rows)))
      = image_mset (\<lambda>r. t_id (fst (fst r))) (mset (by_place ?rows))" by (simp add: o_def flip: mset_map)
  also have "\<dots> = mset (map t_id selected)" by (simp add: by_place_props rows image_mset.compositionality o_def)
  finally have "mset (map tr_TransactionID (concat (map (\<lambda>k. pg_Results (page k)) [0..<n]))) = mset (map t_id selected)"
    using c by simp
  moreover have "pg_Total (page k) = length selected"
    by (simp add: page_def GetBitcoinTransactionsPaginated_def Let_def joined_anchors_eq[OF assms(1)] filter_map o_def selected_def)
  moreover have "distinct (map t_id selected)"
    unfolding selected_def using assms(1) by (intro distinct_map_filter unique_tx_ids) (simp add: db_keys_def)
  moreover have "sorted (map (\<lambda>r. - tr_BitcoinBlock r) (concat (map (\<lambda>k. pg_Results (page k)) [0..<n])))"
    unfolding c using order_by_sorted[of "\<lambda>r. - t_bitcoin_block (fst (fst r))"] by (simp add: b o_def by_place_def)
  ultimately show ?thesis by simp
qed

section \<open>Pages of the name search\<close>

text \<open>
  The search without its early exits: for every address of a matching name, under the first of its
  matching names, all anchors that refer to it.
\<close>

definition m_address :: "name_match \<Rightarrow> string \<times> string" where
  "m_address m = (m_pubkey m, m_dTag m)"

fun first_names :: "(string \<times> string) set \<Rightarrow> name_match list \<Rightarrow> name_match list" where
  "first_names K [] = []"
| "first_names K (m # ms) = (if m_address m \<in> K then first_names K ms else m # first_names (insert (m_address m) K) ms)"

definition hits :: "(string \<Rightarrow> naddr_data option) \<Rightarrow> anchor_row list \<Rightarrow> name_match \<Rightarrow> search_result list" where
  "hits decode rows m = map (found_anchor (m_name m)) (filter (refers decode m) rows)"

definition all_hits :: "listing_env \<Rightarrow> string \<Rightarrow> database \<Rightarrow> search_result list" where
  "all_hits env query d =
     concat (map (hits (le_nip19 env) (by_block (anchor_events d))) (first_names {} (name_matches query d)))"

lemma refers_iff: "refers decode m a \<longleftrightarrow> mentioned decode a_name_ref a = Some (m_address m)"
  by (auto simp: refers_def mentioned_def m_address_def split: sum.splits)

lemma search_anchors_take:
  fixes decode :: "string \<Rightarrow> naddr_data option" and m :: name_match and seen :: "string list"
  assumes "int (length results) < enough" "distinct (map r_id rows)"
  defines "new \<equiv> filter (\<lambda>a. refers decode m a \<and> r_id a \<notin> set seen) rows"
  shows "snd (search_anchors decode enough m rows (seen, results)) = take (nat enough) (results @ map (found_anchor (m_name m)) new)
    \<and> (int (length results + length new) < enough \<longrightarrow>
         set (fst (search_anchors decode enough m rows (seen, results))) = set seen \<union> r_id ` set new)"
  using assms(1,2) unfolding new_def
proof (induction rows arbitrary: seen results)
  case (Cons a rows)
  show ?case
  proof (cases "r_id a \<in> set seen \<or> \<not> refers decode m a")
    case True
    then show ?thesis using Cons by auto
  next
    case False
    have same: "filter (\<lambda>b. refers decode m b \<and> r_id b \<notin> set (r_id a # seen)) rows
        = filter (\<lambda>b. refers decode m b \<and> r_id b \<notin> set seen) rows"
      using Cons.prems(2) by (intro filter_cong) (auto simp: image_iff)
    show ?thesis
    proof (cases "int (length results + 1) \<ge> enough")
      case True
      then have "nat enough = Suc (length results)" using Cons.prems(1) by simp
      then show ?thesis using True False by (simp add: Let_def)
    next
      case more: False
      then have "int (length (results @ [found_anchor (m_name m) a])) < enough" by simp
      note IH = Cons.IH[OF this, of "r_id a # seen", unfolded same]
      show ?thesis using IH Cons.prems False more by (auto simp: Let_def)
    qed
  qed
qed simp

lemma search_matches_take:
  assumes "int (length results) < enough" "distinct (map r_id rows)"
    and "\<And>a. a \<in> set rows \<Longrightarrow> r_id a \<in> set seen \<longleftrightarrow> (\<exists>k\<in>K. mentioned decode a_name_ref a = Some k)"
  shows "snd (search_matches decode enough rows ms (seen, results))
    = take (nat enough) (results @ concat (map (hits decode rows) (first_names K ms)))"
  using assms(1,3)
proof (induction ms arbitrary: seen results K)
  case (Cons m ms)
  let ?new = "filter (\<lambda>a. refers decode m a \<and> r_id a \<notin> set seen) rows"
  let ?r = "results @ map (found_anchor (m_name m)) ?new"
  obtain seen' results' where st: "search_anchors decode enough m rows (seen, results) = (seen', results')" by fastforce
  note one = search_anchors_take[OF Cons.prems(1) assms(2), of decode m seen, unfolded st]
  have new: "map (found_anchor (m_name m)) ?new = (if m_address m \<in> K then [] else hits decode rows m)"
    using Cons.prems(2) by (auto simp: hits_def refers_iff filter_empty_conv intro!: filter_cong arg_cong[where f = "map _"])
  have rest: "results @ concat (map (hits decode rows) (first_names K (m # ms)))
      = ?r @ concat (map (hits decode rows) (first_names (insert (m_address m) K) ms))"
    by (simp add: new insert_absorb)
  show ?case
  proof (cases "int (length ?r) < enough")
    case True
    then have r: "results' = ?r" "set seen' = set seen \<union> r_id ` set ?new" using one by simp_all
    have "r_id a \<in> set seen' \<longleftrightarrow> (\<exists>k\<in>insert (m_address m) K. mentioned decode a_name_ref a = Some k)" if a: "a \<in> set rows" for a
    proof -
      have "r_id a \<in> r_id ` set ?new \<longleftrightarrow> a \<in> set ?new"
        using a assms(2) by (auto simp: distinct_map dest: inj_onD)
      then show ?thesis using a Cons.prems(2)[OF a] by (auto simp: r refers_iff)
    qed
    moreover have "int (length results') < enough" using True r(1) by simp
    ultimately have "snd (search_matches decode enough rows ms (seen', results'))
        = take (nat enough) (results' @ concat (map (hits decode rows) (first_names (insert (m_address m) K) ms)))"
      by (intro Cons.IH) simp_all
    then show ?thesis unfolding rest using True by (simp add: st Let_def flip: r(1))
  next
    case False
    then have "nat enough \<le> length ?r" by simp
    moreover have r: "results' = take (nat enough) ?r" using one by simp
    ultimately have "int (length results') \<ge> enough" "take (nat enough) (?r @ ys) = results'" for ys
      using Cons.prems(1) by simp_all
    then show ?thesis unfolding rest by (simp only: search_matches.simps st Let_def snd_conv if_True)
  qed
qed simp

lemma order_text_set [simp]: "set (order_text k t) = set t"
proof -
  have "set (insert_text k r u) = insert r (set u)" for r u by (induction u) auto
  then show ?thesis by (induction t) (simp_all add: order_text_def)
qed

lemma name_matches_set: "set (name_matches query d)
    = match_of ` {r \<in> set (name_events d). like_containing (r_primary_name r) query}"
  by (simp add: name_matches_def distinct_rows_def)

lemma by_block_set [simp]: "set (by_block t) = set t"
  by (simp add: by_block_def)

lemma by_block_ids: "distinct (map r_id (by_block t)) = distinct (map r_id t)"
  by (simp add: by_block_def order_by_distinct_map)

lemma first_names_sub: "set (first_names K ms) \<subseteq> set ms"
  by (induction ms arbitrary: K) (auto split: if_splits)

lemma first_names_cover: "m \<in> set ms \<Longrightarrow> m_address m \<in> K \<or> (\<exists>x\<in>set (first_names K ms). m_address x = m_address m)"
  by (induction ms arbitrary: K) (auto split: if_splits, metis insertE)

lemma anchor_ids_distinct: "db_keys d \<Longrightarrow> distinct (map r_id (anchor_events d))"
proof -
  have "unique_rows anchor_clash t \<Longrightarrow> distinct (map r_id t)" for t :: "anchor_row list"
    by (induction t) (auto simp: unique_rows_def anchor_clash_def)
  then show "db_keys d \<Longrightarrow> ?thesis" by (simp add: db_keys_def)
qed

lemma all_hits_sound:
  "s \<in> set (all_hits env query d) \<Longrightarrow> \<exists>a\<in>set (anchor_events d). \<exists>r\<in>set (name_events d). s = found_anchor (r_primary_name r) a
     \<and> like_containing (r_primary_name r) query \<and> mentioned (le_nip19 env) a_name_ref a = Some (r_pubkey r, r_d_tag r)"
  using first_names_sub[of "{}" "name_matches query d"]
  by (fastforce simp: all_hits_def hits_def refers_iff name_matches_set match_of_def m_address_def)

lemma all_hits_complete:
  assumes "a \<in> set (anchor_events d)" "r \<in> set (name_events d)" "like_containing (r_primary_name r) query"
    and "mentioned (le_nip19 env) a_name_ref a = Some (r_pubkey r, r_d_tag r)"
  shows "\<exists>name. found_anchor name a \<in> set (all_hits env query d)"
proof -
  have "match_of r \<in> set (name_matches query d)" using assms(2,3) by (simp add: name_matches_set)
  then obtain x where x: "x \<in> set (first_names {} (name_matches query d))" "m_address x = m_address (match_of r)"
    using first_names_cover[of "match_of r" "name_matches query d" "{}"] by auto
  then have "refers (le_nip19 env) x a" using assms(4) by (simp add: refers_iff m_address_def match_of_def)
  then show ?thesis using x(1) assms(1) by (auto simp: all_hits_def hits_def intro!: bexI[of _ x])
qed

text \<open>
  C29.  The name search answers with the page of the complete list of hits, although its loops stop
  early: every hit is a stored anchor that refers to a stored name event with the text in its name, and
  every such anchor is in the list.
\<close>

theorem search_pages:
  assumes "db_keys d" "0 < limit" "0 \<le> offset" "offset + limit \<le> MaxInt64"
  shows "SearchNames env query limit offset d = Some (take (nat limit) (drop (nat offset) (all_hits env query d)))
    \<and> (\<forall>s\<in>set (all_hits env query d). \<exists>a\<in>set (anchor_events d). \<exists>r\<in>set (name_events d).
         s = found_anchor (r_primary_name r) a \<and> like_containing (r_primary_name r) query
         \<and> mentioned (le_nip19 env) a_name_ref a = Some (r_pubkey r, r_d_tag r))
    \<and> (\<forall>a\<in>set (anchor_events d). \<forall>r\<in>set (name_events d). like_containing (r_primary_name r) query
         \<longrightarrow> mentioned (le_nip19 env) a_name_ref a = Some (r_pubkey r, r_d_tag r)
         \<longrightarrow> (\<exists>name. found_anchor name a \<in> set (all_hits env query d)))"
proof -
  let ?all = "all_hits env query d" and ?n = "offset + limit"
  have w: "wrap64 ?n = ?n" using assms by (intro wrap64_id) (simp add: in64_def)
  have "snd (search_matches (le_nip19 env) ?n (by_block (anchor_events d)) (name_matches query d) ([], [])) = take (nat ?n) ?all"
    using search_matches_take[of "[]" ?n "by_block (anchor_events d)" "[]" "{}" "le_nip19 env" "name_matches query d"] assms
    by (simp add: by_block_ids anchor_ids_distinct all_hits_def)
  then have "SearchNames env query limit offset d
      = (let results = take (nat ?n) ?all; upto = min ?n (int (length results)) in
         if offset \<ge> int (length results) then Some []
         else if offset < 0 \<or> upto < offset then None else Some (take (nat (upto - offset)) (drop (nat offset) results)))"
    by (simp add: SearchNames_def w Let_def)
  also have "\<dots> = Some (take (nat limit) (drop (nat offset) ?all))"
  proof (cases "offset \<ge> int (length (take (nat ?n) ?all))")
    case True
    then have "length ?all \<le> nat offset" using assms(2,3) by auto
    then show ?thesis using True by (simp add: Let_def)
  next
    case False
    have n: "nat ?n = nat offset + nat limit" using assms(2,3) by (simp add: nat_add_distrib)
    let ?res = "take (nat ?n) ?all"
    have "min ?n (int (length ?res)) = int (length ?res)" using assms(2,3) by simp
    moreover have "nat (int (length ?res) - offset) = length (drop (nat offset) ?res)" using assms(3) by simp
    moreover have "drop (nat offset) ?res = take (nat limit) (drop (nat offset) ?all)" by (simp add: n drop_take)
    moreover have "take (min (length ?all - nat offset) (nat limit)) (drop (nat offset) ?all)
        = take (nat limit) (drop (nat offset) ?all)" by (simp add: min_def)
    ultimately show ?thesis using False assms(3) by (simp only: Let_def if_False take_all_iff) simp
  qed
  finally show ?thesis using all_hits_sound all_hits_complete by meson
qed

section \<open>What the listings show\<close>

text \<open>
  The cap on the number of rows does not hold for a negative limit, which the route reads without a
  check: it lists the whole table from the offset on.
\<close>

lemma negative_limit_lists_all:
  assumes "db_keys d" "scan_int limitStr = Some (n, rest)" "n < 0"
  shows "\<exists>p. handleAnchors env limitStr [] [] [] [] [] d = Inr p \<and> length (pg_Results p) = length (bitcoin_transactions d)"
proof -
  have "limitStr \<noteq> []" using assms(2) by (auto simp: scan_int_def parse_int64_def)
  then have "page_limit 50 500 limitStr < 0" using assms(2,3) by (simp add: page_limit_def sscanf_d_def)
  then show ?thesis
    by (simp add: handleAnchors_def Let_def GetBitcoinTransactionsPaginated_def sql_page_def by_place_props page_offset_def
        joined_blocks_eq[OF assms(1)] joined_anchors_eq[OF assms(1)] row_wanted_def search_matches_row_def)
qed

lemma capped_listing:
  assumes "0 \<le> page_limit 50 500 limitStr" "handleAnchors env limitStr off status search [] block d = Inr p"
  shows "length (pg_Results p) \<le> 500"
proof -
  have "page_limit 50 500 limitStr \<le> 500" by (simp add: page_limit_def)
  then have "length (sql_page (page_limit 50 500 limitStr) n rs) \<le> 500" for n and rs :: "'x list"
    using sql_page_length[OF assms(1), of n rs] by linarith
  then show ?thesis
    using assms(2) by (auto simp: handleAnchors_def Let_def GetBitcoinTransactionsPaginated_def split: if_splits)
qed

text \<open>The peer listings are capped whatever their parameters are.\<close>

lemma capped_peers: "length (pg_Results (handleDiscoveredPeers l off search a)) \<le> 100"
proof -
  have "0 \<le> atoi_limit l" "nat (atoi_limit l) \<le> 100" by (auto simp: atoi_limit_def split: option.splits)
  then show ?thesis
    using sql_page_length[of "atoi_limit l" "atoi_offset off"] order_trans
    by (fastforce simp: handleDiscoveredPeers_def GetPeerNodesPaginated_def Let_def)
qed

text \<open>A negative offset panics as soon as there is a result.\<close>

lemma negative_offset_panics:
  "offset < 0 \<Longrightarrow> SearchNames env query limit offset d = None"
  by (simp add: SearchNames_def Let_def)

lemma order_by_distinct: "distinct (order_by k t) = distinct t"
  using order_by_distinct_map[of id k t] by simp

lemma block_counts_total:
  "sum_list (map bc_TotalCount (GetBlockAnchorCounts b c d))
    = count_where (\<lambda>r. b \<le> t_bitcoin_block r \<and> t_bitcoin_block r \<le> c) (bitcoin_transactions d)"
proof -
  define rows where "rows = filter (\<lambda>r. b \<le> t_bitcoin_block r \<and> t_bitcoin_block r \<le> c) (bitcoin_transactions d)"
  define key where "key = (\<lambda>r :: btx_row. (t_bitcoin_block r, t_dnn_block r))"
  have "sum_list (map (\<lambda>g. length (filter (\<lambda>r. key r = g) rows)) gs) = length (filter (\<lambda>r. key r \<in> set gs) rows)"
    if "distinct gs" for gs
    using that
  proof (induction gs)
    case (Cons g gs)
    have "length (filter (\<lambda>r. key r = g) rows) + length (filter (\<lambda>r. key r \<in> set gs) rows)
        = length (filter (\<lambda>r. key r \<in> set (g # gs)) rows)"
      using Cons.prems by (induction rows) auto
    then show ?case using Cons by simp
  qed simp
  moreover have "distinct (order_by fst (order_by snd (remdups (map key rows))))"
    by (simp add: order_by_distinct)
  ultimately have "sum_list (map (\<lambda>g. length (filter (\<lambda>r. key r = g) rows)) (order_by fst (order_by snd (remdups (map key rows)))))
      = length (filter (\<lambda>r. key r \<in> set (map key rows)) rows)" by simp
  also have "\<dots> = length rows" by (metis filter_True image_eqI list.set_map)
  finally show ?thesis
    by (simp add: GetBlockAnchorCounts_def Let_def o_def count_where_def key_def flip: rows_def)
qed

text \<open>The number of names counts d tags: names of two authors under the same d tag count once.\<close>

lemma names_counted_by_tag: "st_TotalNames (GetStats env d) = card (r_d_tag ` set (name_events d))"
  by (simp add: GetStats_def length_remdups_card_conv)

text \<open>The removal of old data keeps what anchors refer to, and everything younger than the limit.\<close>

lemma cleanup_old_keeps:
  assumes "r \<in> set (name_events d)"
    and "cutoffTime \<le> r_created_at r \<or> (\<exists>a\<in>set (anchor_events d). mentioned (le_nip19 env) a_name_ref a = Some (r_pubkey r, r_d_tag r))"
  shows "r \<in> set (name_events (CleanupOldData env cutoffTime d))"
  using assms by (fastforce simp: CleanupOldData_def Let_def map_filter_def image_iff)

section \<open>Witnesses\<close>

definition two_tx_db :: database where
  "two_tx_db = StoreBitcoinTransaction 5 ''tx-two'' 940007 7 2 ''bc1qa'' 400 0 0
     (StoreBitcoinTransaction 4 ''tx-one'' 940007 7 1 ''bc1qb'' 433 1 9 empty_db)"

definition list_env :: listing_env where
  "list_env = \<lparr> le_nip19 = (\<lambda>r. if r = ''naddr1n'' then Some \<lparr> na_kind = 61600, na_pubkey = ''bob-pubkey'', na_identifier = ''names'' \<rparr> else None),
     le_npub = (\<lambda>_. None), le_EncodePublicKey = (\<lambda>_. None), le_EncodeEntity = (\<lambda>_ _ _. None),
     le_number = (\<lambda>s. map_option fst (scan_int s)), le_parse_time = (\<lambda>_. 0) \<rparr>"

theorem transaction_pages_complete_witness:
  "mset (map tr_TransactionID (concat (map (\<lambda>k. pg_Results (GetBitcoinTransactionsPaginated list_env 1 (int k * 1) ''pending'' [] 0 two_tx_db)) [0..<2])))
     = {# ''tx-one'', ''tx-two'' #}"
proof -
  have "db_keys two_tx_db" unfolding two_tx_db_def db_keys_def by (intro conjI; code_simp)
  moreover have "filter (\<lambda>t. row_wanted list_env ''pending'' [] 0 (t, anchor_of two_tx_db t)) (bitcoin_transactions two_tx_db)
      = bitcoin_transactions two_tx_db" by code_simp
  moreover have "map t_id (bitcoin_transactions two_tx_db) = [''tx-one'', ''tx-two'']"
    "length (bitcoin_transactions two_tx_db) = 2" by code_simp+
  ultimately show ?thesis
    using transaction_pages_complete[of two_tx_db 1 list_env "''pending''" "[]" 0 2] by simp
qed

definition bob_anchor_db :: database where
  "bob_anchor_db = StoreNameEvent bob_event (empty_db\<lparr>anchor_events :=
     [anchor_row_of (anchor_event ''anchor-1'' ''bob-pubkey'' 10 ''names'') 940007 7 1]\<rparr>)"

theorem search_pages_witness:
  "SearchNames list_env ''OB'' 20 0 bob_anchor_db
     = Some [found_anchor ''bob'' (anchor_row_of (anchor_event ''anchor-1'' ''bob-pubkey'' 10 ''names'') 940007 7 1)]"
proof -
  have "db_keys bob_anchor_db" unfolding bob_anchor_db_def db_keys_def by (intro conjI; code_simp)
  moreover have "all_hits list_env ''OB'' bob_anchor_db
      = [found_anchor ''bob'' (anchor_row_of (anchor_event ''anchor-1'' ''bob-pubkey'' 10 ''names'') 940007 7 1)]" by code_simp
  ultimately show ?thesis using search_pages[of bob_anchor_db 20 0 list_env "''OB''"] by simp
qed

end
