(* ===== verification/Dns.thy ===== *)
theory Dns
  imports Lookup Content Encoder Validation
begin

text \<open>
  \<^verbatim>\<open>src/internal/dns/server.go\<close>: the DNS server.  A question is answered from the database when
  its name looks like a DNN name, and forwarded otherwise.  The packages of the Go library it
  uses are modelled (\<^verbatim>\<open>net.ParseIP\<close>, \<^verbatim>\<open>strconv.ParseUint\<close>, decoding of JSON into typed values); the
  exchange with an upstream server and the decoding of an \<^verbatim>\<open>naddr\<close> are parameters.
\<close>

section \<open>Internet addresses\<close>

text \<open>
  \<^verbatim>\<open>net.ParseIP\<close>: four decimal numbers below 256 without leading zeros, or an IPv6 address; the
  result has sixteen bytes.  An address with a zone is refused.
\<close>

definition octet :: "string \<Rightarrow> nat option" where
  "octet s = (if all_digits s \<and> dec_val s < 256 \<and> (length s = 1 \<or> hd s \<noteq> CHR ''0'') then Some (dec_val s) else None)"

definition parse_ipv4 :: "string \<Rightarrow> nat list option" where
  "parse_ipv4 s =
     (case map octet (split_on (CHR ''.'') s) of
        [Some a, Some b, Some c, Some d] \<Rightarrow> Some [a, b, c, d] | _ \<Rightarrow> None)"

definition hex_group :: "string \<Rightarrow> nat" where
  "hex_group s = foldl (\<lambda>a c. 16 * a + (case hex_val c of Some v \<Rightarrow> v | None \<Rightarrow> 0)) 0 s"

text \<open>
  The loop over the groups: the bytes so far, the place of the ellipsis and what is left of the
  string; it ends at the end of the string, after an embedded IPv4 address or with sixteen bytes.
\<close>

function ipv6_groups :: "nat list \<Rightarrow> nat option \<Rightarrow> string \<Rightarrow> (nat list \<times> nat option \<times> string) option" where
  "ipv6_groups ip ellipsis s =
     (if length ip \<ge> 16 then Some (ip, ellipsis, s)
      else
        let digits = takeWhile (\<lambda>c. hex_val c \<noteq> None) s; rest = drop (length digits) s in
        if digits = [] \<or> length digits > 4 then None
        else if rest \<noteq> [] \<and> hd rest = CHR ''.'' then
          (if ellipsis = None \<and> length ip \<noteq> 12 \<or> length ip + 4 > 16 then None
           else case parse_ipv4 s of None \<Rightarrow> None | Some v4 \<Rightarrow> Some (ip @ v4, ellipsis, []))
        else
          let ip' = ip @ [hex_group digits div 256, hex_group digits mod 256] in
          case rest of
            [] \<Rightarrow> Some (ip', ellipsis, [])
          | c # t \<Rightarrow>
              if c \<noteq> CHR '':'' \<or> t = [] then None
              else if hd t = CHR '':'' then
                (if ellipsis \<noteq> None then None
                 else if tl t = [] then Some (ip', Some (length ip'), [])
                 else ipv6_groups ip' (Some (length ip')) (tl t))
              else ipv6_groups ip' ellipsis t)"
  by auto
termination by (relation "measure (\<lambda>(ip, _, _). 16 - length ip)") auto

declare ipv6_groups.simps [simp del]

definition parse_ipv6 :: "string \<Rightarrow> nat list option" where
  "parse_ipv6 s =
     (if has_prefix s ''::'' \<and> length s = 2 then Some (replicate 16 0)
      else case ipv6_groups [] (if has_prefix s ''::'' then Some 0 else None) (if has_prefix s ''::'' then drop 2 s else s) of
        None \<Rightarrow> None
      | Some (ip, ellipsis, rest) \<Rightarrow>
          if rest \<noteq> [] then None
          else if length ip < 16 then
            (case ellipsis of
               None \<Rightarrow> None
             | Some k \<Rightarrow> Some (take k ip @ replicate (16 - length ip) 0 @ drop k ip))
          else if ellipsis \<noteq> None then None
          else Some ip)"

definition ParseIP :: "string \<Rightarrow> nat list option" where
  "ParseIP s =
     (case find (\<lambda>c. c = CHR ''.'' \<or> c = CHR '':'' \<or> c = CHR ''%'') s of
        None \<Rightarrow> None
      | Some c \<Rightarrow>
          if c = CHR ''.'' then map_option (\<lambda>v4. replicate 10 0 @ [255, 255] @ v4) (parse_ipv4 s)
          else if c = CHR '':'' \<and> CHR ''%'' \<notin> set s then parse_ipv6 s
          else None)"

definition To4 :: "nat list \<Rightarrow> nat list option" where
  "To4 ip = (if take 12 ip = replicate 10 0 @ [255, 255] then Some (drop 12 ip) else None)"

section \<open>Numbers and letters\<close>

text \<open>\<^verbatim>\<open>strconv.ParseUint(s, 10, bits)\<close>: the value returned, and whether the error is nil.\<close>

definition parse_uint :: "nat \<Rightarrow> string \<Rightarrow> nat \<times> bool" where
  "parse_uint bits s =
     (if \<not> all_digits s then (0, False)
      else if dec_val s \<ge> 2 ^ bits then (2 ^ bits - 1, False)
      else (dec_val s, True))"

definition upper_char :: "char \<Rightarrow> char" where
  "upper_char c = (if 97 \<le> byte_of c \<and> byte_of c \<le> 122 then char_of (byte_of c - 32) else c)"

definition to_upper :: "string \<Rightarrow> string" where
  "to_upper s = map upper_char s"

definition any_letter :: "char \<Rightarrow> bool" where
  "any_letter c \<longleftrightarrow> is_letter c \<or> (65 \<le> byte_of c \<and> byte_of c \<le> 90)"

section \<open>Messages\<close>

datatype qtype = TypeA | TypeAAAA | TypeCNAME | TypeTXT | TypeMX | TypeSRV | TypeANY | TypeNone | TypeOther nat

datatype rcode = RcodeSuccess | RcodeFormatError | RcodeServerFailure | RcodeNameError

datatype rdata = RA "nat list" | RAAAA "nat list" | RCNAME string | RTXT "string list" | RMX nat string | RSRV nat nat nat string

record rr =
  rr_Name :: string
  rr_Type :: qtype
  rr_Ttl :: nat
  rr_Data :: rdata

record question =
  q_Name :: string
  q_Type :: qtype

text \<open>A message of the server's own, or an upstream server's answer passed on.\<close>

datatype 'm reply = Reply rcode bool "rr list" | Forwarded 'm

datatype convert_error = InvalidIPv4 | InvalidIPv6 | InvalidMX | InvalidSRV | UnsupportedType

section \<open>Records\<close>

definition getRecordType :: "string \<Rightarrow> qtype" where
  "getRecordType recordType =
     (if recordType = ''A'' then TypeA else if recordType = ''AAAA'' then TypeAAAA
      else if recordType = ''CNAME'' then TypeCNAME else if recordType = ''TXT'' then TypeTXT
      else if recordType = ''MX'' then TypeMX else if recordType = ''SRV'' then TypeSRV
      else TypeNone)"

definition matchesQueryType :: "string \<Rightarrow> qtype \<Rightarrow> bool" where
  "matchesQueryType recordType q =
     (if recordType = ''A'' then q = TypeA else if recordType = ''AAAA'' then q = TypeAAAA
      else if recordType = ''CNAME'' then q = TypeCNAME else if recordType = ''TXT'' then q = TypeTXT
      else if recordType = ''MX'' then q = TypeMX else if recordType = ''SRV'' then q = TypeSRV
      else False)"

definition with_dot :: "string \<Rightarrow> string" where
  "with_dot s = (if has_suffix s ''.'' then s else s @ ''.'')"

definition record_ttl :: "string list \<Rightarrow> nat" where
  "record_ttl r =
     (if length r > 3 \<and> r ! 3 \<noteq> [] \<and> snd (parse_uint 32 (r ! 3)) then fst (parse_uint 32 (r ! 3)) else 3600)"

definition convertSingleRecord :: "string \<Rightarrow> string list \<Rightarrow> (convert_error, rr) res" where
  "convertSingleRecord domain r =
     (let recordType = to_upper (r ! 0);
          name = r ! 1;
          fullName = with_dot (if name \<noteq> ''@'' \<and> name \<noteq> [] then name @ ''.'' @ domain else domain);
          rr = (\<lambda>x. \<lparr> rr_Name = fullName, rr_Type = getRecordType recordType, rr_Ttl = record_ttl r, rr_Data = x \<rparr>)
      in if recordType = ''A'' then
           (case ParseIP (r ! 2) of
              None \<Rightarrow> Err InvalidIPv4
            | Some ip \<Rightarrow> (case To4 ip of None \<Rightarrow> Err InvalidIPv4 | Some v4 \<Rightarrow> Ok (rr (RA v4))))
         else if recordType = ''AAAA'' then
           (case ParseIP (r ! 2) of
              None \<Rightarrow> Err InvalidIPv6
            | Some ip \<Rightarrow> if To4 ip \<noteq> None then Err InvalidIPv6 else Ok (rr (RAAAA ip)))
         else if recordType = ''CNAME'' then Ok (rr (RCNAME (with_dot (r ! 2))))
         else if recordType = ''TXT'' then Ok (rr (RTXT [r ! 2]))
         else if recordType = ''MX'' then
           (if length r < 4 then Err InvalidMX
            else Ok (rr (RMX (fst (parse_uint 16 (r ! 2))) (with_dot (r ! 3)))))
         else if recordType = ''SRV'' then
           (if length r < 6 then Err InvalidSRV
            else Ok (rr (RSRV (fst (parse_uint 16 (r ! 2))) (fst (parse_uint 16 (r ! 3))) (fst (parse_uint 16 (r ! 4)))
                   (with_dot (r ! 5)))))
         else Err UnsupportedType)"

definition convertToDNSRecords :: "string \<Rightarrow> string list list \<Rightarrow> qtype \<Rightarrow> rr list" where
  "convertToDNSRecords domain records q =
     concat (map (\<lambda>r. if length r < 3 then []
                      else if q \<noteq> TypeANY \<and> \<not> matchesQueryType (to_upper (r ! 0)) q then []
                      else case convertSingleRecord domain r of Inl _ \<Rightarrow> [] | Inr x \<Rightarrow> [x]) records)"


section \<open>Connection content\<close>

text \<open>
  \<^verbatim>\<open>json.Unmarshal\<close> into a map of structs with one field: every section of the document is decoded,
  the one asked for or not.
\<close>

datatype content_error = InvalidContent | NoSection

definition section_records :: "json \<Rightarrow> string list list option" where
  "section_records = as_object (field [] as_matrix ''records'')"

definition parseConnectionContentSection :: "string \<Rightarrow> string \<Rightarrow> (content_error, string list list) res" where
  "parseConnectionContentSection content sectionName =
     (case unmarshal_map content of
        None \<Rightarrow> Err InvalidContent
      | Some kvs \<Rightarrow>
          (case all_some (map (section_records \<circ> snd) kvs) of
             None \<Rightarrow> Err InvalidContent
           | Some rs \<Rightarrow>
               (case map_of (zip (map fst kvs) rs) sectionName of
                  None \<Rightarrow> Err NoSection | Some r \<Rightarrow> Ok r)))"

section \<open>Names\<close>

definition starts_like_dnn :: "string \<Rightarrow> bool" where
  "starts_like_dnn s \<longleftrightarrow> length s > 1 \<and> hd s = CHR ''n'' \<and> list_ex any_letter (tl s)"

definition isDNNName :: "string \<Rightarrow> bool" where
  "isDNNName name =
     (let parts = split_on (CHR ''.'') name in
      if length parts \<ge> 2 \<and> starts_like_dnn (last parts) then True else starts_like_dnn name)"

definition extractSubdomain :: "string \<Rightarrow> string \<times> string" where
  "extractSubdomain domain =
     (let parts = split_on (CHR ''.'') domain in
      if length parts = 1 then ([], domain) else (join_on ''.'' (butlast parts), last parts))"

definition mapSubdomainToSection ::
  "(string \<Rightarrow> naddr_data option) \<Rightarrow> int \<Rightarrow> int \<Rightarrow> string \<Rightarrow> database \<Rightarrow> (db_error, string) res" where
  "mapSubdomainToSection decode block position subdomain d =
     (case GetPrimaryNameByBlockAndPosition decode block position d of
        Inl e \<Rightarrow> Err e
      | Inr primaryName \<Rightarrow> Ok (if equal_fold subdomain primaryName then primaryName else subdomain))"

section \<open>Requests\<close>

record 'm dns_env =
  de_network :: string
  de_nip19 :: "string \<Rightarrow> naddr_data option"
  de_UpstreamDNS :: "string list"
  de_Exchange :: "question list \<Rightarrow> string \<Rightarrow> 'm option"

definition dns_encoder :: "'m dns_env \<Rightarrow> encoder" where
  "dns_encoder env = NewEncoderWithNetwork (de_network env)"

fun forwardToUpstream :: "'m dns_env \<Rightarrow> question list \<Rightarrow> string list \<Rightarrow> 'm reply" where
  "forwardToUpstream env qs [] = Reply RcodeServerFailure False []"
| "forwardToUpstream env qs (u # us) =
     (case de_Exchange env qs u of None \<Rightarrow> forwardToUpstream env qs us | Some m \<Rightarrow> Forwarded m)"

definition handleDNNDomain :: "'m dns_env \<Rightarrow> string \<Rightarrow> qtype \<Rightarrow> relay_state \<Rightarrow> 'm reply" where
  "handleDNNDomain env domain q st =
     (let (subdomain, baseName) = extractSubdomain domain; d = rs_db st; nx = Reply RcodeNameError False [] in
      case Decode (dns_encoder env) baseName of
        Inl _ \<Rightarrow> nx
      | Inr (block, pos) \<Rightarrow>
          if IsBlocked block pos subdomain (rs_marks st) then nx
          else case GetPrimaryNameByBlockAndPosition (de_nip19 env) block pos d of
            Inl _ \<Rightarrow> nx
          | Inr primaryName \<Rightarrow>
              if primaryName = [] then nx
              else
                let sectionName = (if subdomain \<noteq> [] \<and> \<not> equal_fold subdomain primaryName then subdomain else primaryName) in
                case GetConnectionContentByBlockAndPosition (de_nip19 env) block pos d of
                  Inl _ \<Rightarrow> nx
                | Inr content \<Rightarrow>
                    (case parseConnectionContentSection content sectionName of
                       Inl _ \<Rightarrow> Reply RcodeServerFailure False []
                     | Inr records \<Rightarrow>
                         (let rrs = convertToDNSRecords domain records q in
                          if rrs = [] then nx else Reply RcodeSuccess True rrs)))"

definition handleDNSRequest :: "'m dns_env \<Rightarrow> question list \<Rightarrow> relay_state \<Rightarrow> 'm reply" where
  "handleDNSRequest env qs st =
     (case qs of
        [] \<Rightarrow> Reply RcodeFormatError False []
      | q # _ \<Rightarrow>
          (let domain = trim_suffix (to_lower (q_Name q)) ''.'' in
           if isDNNName domain then handleDNNDomain env domain (q_Type q) st
           else forwardToUpstream env qs (de_UpstreamDNS env)))"


section \<open>Names the encoder prints\<close>

lemma digit_lower: "is_digit c \<Longrightarrow> lower_char c = c"
  by (simp add: is_digit_def lower_char_def)

lemma letter_lower: "is_letter c \<Longrightarrow> lower_char c = c"
  by (simp add: is_letter_def lower_char_def)

lemma code_shape:
  assumes "Encode (NewEncoderWithNetwork net) b p = Ok code"
  shows "starts_like_dnn code" "CHR ''.'' \<notin> set code" "to_lower code = code"
proof -
  let ?e = "NewEncoderWithNetwork net"
  have e: "?e = NewEncoderWithParams DefaultBlocksPerBatch DefaultTxMax (GetGenesisBlock net)"
    by (rule NewEncoderWithNetwork_def)
  have w: "wordlist ?e = BIP39EnglishWordlist" by (simp add: e NewEncoderWithParams_def Let_def)
  have b: "0 \<le> b" "1 \<le> p" using assms by (auto simp: Encode_def split: if_splits)
  let ?i = "nat ((b mod cycleSize ?e) div bip39Base ?e)" and ?j = "nat ((b mod cycleSize ?e) mod bip39Base ?e)"
  let ?d = "if b div cycleSize ?e > 0 then show_int (b div cycleSize ?e) else []"
  define w1 w2 d where "w1 = BIP39EnglishWordlist ! ?i" and "w2 = BIP39EnglishWordlist ! ?j" and "d = ?d"
  note W = enc.word_indices(1,2)[OF b(1), of DefaultBlocksPerBatch DefaultTxMax "GetGenesisBlock net", folded e, unfolded w]
  have c: "code = ''n'' @ w1 @ w2 @ d @ encodePosition p"
    using assms enc.encode_parts[OF b, of DefaultBlocksPerBatch DefaultTxMax "GetGenesisBlock net", folded e, unfolded w]
    unfolding w1_def w2_def d_def by simp
  have ws: "w1 \<in> set BIP39EnglishWordlist" "w2 \<in> set BIP39EnglishWordlist"
    unfolding w1_def w2_def using W by (auto intro: nth_mem)
  have d: "list_all is_digit d"
    unfolding d_def using show_nat_digits by (simp add: show_int_def)
  have l: "list_all is_letter w1" "list_all is_letter w2" "w1 \<noteq> []"
    using ws BIP39_letters BIP39_no_empty by auto
  then show "starts_like_dnn code"
    by (cases w1) (auto simp: c starts_like_dnn_def any_letter_def)
  have "\<forall>c\<in>set code. is_letter c \<or> is_digit c"
    using l d encodePosition_shape(1)[of p] by (auto simp: c list_all_iff is_letter_def byte_of_def)
  moreover have "\<not> (is_letter (CHR ''.'') \<or> is_digit (CHR ''.''))" by (simp add: is_letter_def is_digit_def byte_of_def)
  ultimately show "CHR ''.'' \<notin> set code" "to_lower code = code"
    using digit_lower letter_lower unfolding to_lower_def by (blast, intro map_idI) blast
qed

lemma join_snoc: "xs \<noteq> [] \<Longrightarrow> join_on sep (xs @ [y]) = join_on sep xs @ sep @ y"
  by (induction sep xs rule: join_on.induct) auto

lemma split_snoc:
  assumes "CHR ''.'' \<notin> set code"
  shows "\<exists>ps. ps \<noteq> [] \<and> split_on (CHR ''.'') (sub @ ''.'' @ code) = ps @ [code] \<and> join_on ''.'' ps = sub"
proof (induction sub)
  case Nil
  then show ?case using assms by (intro exI[of _ "[[]]"]) (simp add: split_on_no_sep)
next
  case (Cons x sub)
  then obtain p ps where p: "split_on (CHR ''.'') (sub @ ''.'' @ code) = (p # ps) @ [code]" "join_on ''.'' (p # ps) = sub"
    by (metis neq_Nil_conv)
  show ?case
  proof (cases "x = CHR ''.''")
    case True
    then show ?thesis using p by (intro exI[of _ "[] # p # ps"]) simp
  next
    case False
    then show ?thesis using p by (intro exI[of _ "(x # p) # ps"]) (cases ps; simp)
  qed
qed

lemma extract_code: "CHR ''.'' \<notin> set code \<Longrightarrow> extractSubdomain code = ([], code)"
  by (simp add: extractSubdomain_def split_on_no_sep)

lemma extract_sub:
  assumes "CHR ''.'' \<notin> set code"
  shows "extractSubdomain (sub @ ''.'' @ code) = (sub, code)"
proof -
  obtain ps where "ps \<noteq> []" "split_on (CHR ''.'') (sub @ ''.'' @ code) = ps @ [code]" "join_on ''.'' ps = sub"
    using split_snoc[OF assms] by blast
  then show ?thesis by (simp add: extractSubdomain_def)
qed

lemma dnn_sub:
  assumes "CHR ''.'' \<notin> set code" "starts_like_dnn code"
  shows "isDNNName (sub @ ''.'' @ code)"
proof -
  obtain ps where "ps \<noteq> []" "split_on (CHR ''.'') (sub @ ''.'' @ code) = ps @ [code]"
    using split_snoc[OF assms(1)] by blast
  then show ?thesis using assms(2) by (cases ps) (simp_all add: isDNNName_def)
qed

definition dns_name :: "string \<Rightarrow> string \<Rightarrow> string" where
  "dns_name sub code = (if sub = [] then code else sub @ ''.'' @ code)"

lemma dns_name_parts:
  assumes "Encode (NewEncoderWithNetwork net) b p = Ok code" "to_lower sub = sub"
  shows "isDNNName (dns_name sub code)" "extractSubdomain (dns_name sub code) = (sub, code)"
    "trim_suffix (to_lower (dns_name sub code @ ''.'')) ''.'' = dns_name sub code"
proof -
  note C = code_shape[OF assms(1)]
  show "isDNNName (dns_name sub code)"
  proof (cases "sub = []")
    case True
    then show ?thesis using C(1) by (simp add: dns_name_def isDNNName_def Let_def)
  next
    case False
    then show ?thesis using dnn_sub[OF C(2,1), of sub] by (simp add: dns_name_def)
  qed
  show "extractSubdomain (dns_name sub code) = (sub, code)"
    using extract_code[OF C(2)] extract_sub[OF C(2)] by (simp add: dns_name_def)
  have "to_lower ''.'' = ''.''" by code_simp
  then have "to_lower (dns_name sub code @ ''.'') = dns_name sub code @ ''.''"
    using assms(2) C(3) by (simp add: dns_name_def to_lower_def)
  then show "trim_suffix (to_lower (dns_name sub code @ ''.'')) ''.'' = dns_name sub code"
    by (simp only: trim_suffix_append)
qed

section \<open>Properties of the DNS server\<close>

text \<open>
  C9.  A name the encoder prints for a block and a position is resolved, alone or below a
  subdomain: the question is never forwarded, and when the identifier is not blocked, has a
  primary name and a connection whose section for the subdomain (the primary name, if there is
  none) yields records of the type asked for, these are the authoritative answer.
\<close>

theorem encoded_names_resolve:
  assumes "b \<le> MaxInt64" "p \<le> MaxInt64" "Encode (dns_encoder env) b p = Ok code" "to_lower sub = sub"
    and "\<not> IsBlocked b p sub (rs_marks st)"
    and "GetPrimaryNameByBlockAndPosition (de_nip19 env) b p (rs_db st) = Ok name" "name \<noteq> []"
    and "GetConnectionContentByBlockAndPosition (de_nip19 env) b p (rs_db st) = Ok content"
    and "parseConnectionContentSection content (if sub = [] \<or> equal_fold sub name then name else sub) = Ok records"
    and "convertToDNSRecords (dns_name sub code) records q \<noteq> []"
  shows "handleDNSRequest env (\<lparr> q_Name = dns_name sub code @ ''.'', q_Type = q \<rparr> # qs) st
    = Reply RcodeSuccess True (convertToDNSRecords (dns_name sub code) records q)"
proof -
  have "0 \<le> b" "1 \<le> p" using assms(3) by (auto simp: Encode_def split: if_splits)
  then have "Decode (dns_encoder env) code = Ok (b, p)"
    using enc.decode_encode[of b p DefaultBlocksPerBatch DefaultTxMax "GetGenesisBlock (de_network env)"] assms(1-3)
    unfolding dns_encoder_def NewEncoderWithNetwork_def by auto
  moreover note dns_name_parts[OF assms(3)[unfolded dns_encoder_def] assms(4)]
  moreover have "(if sub \<noteq> [] \<and> \<not> equal_fold sub name then sub else name) = (if sub = [] \<or> equal_fold sub name then name else sub)"
    by simp
  ultimately show ?thesis
    using assms(5-10) by (simp add: handleDNSRequest_def handleDNNDomain_def Let_def)
qed


text \<open>A database with one connection of one domain.\<close>

definition naddr_of :: "string \<Rightarrow> naddr_data option" where
  "naddr_of s = (if s = ''nn'' then Some \<lparr> na_kind = 61600, na_pubkey = ''p1'', na_identifier = ''names'' \<rparr>
     else if s = ''cc'' then Some \<lparr> na_kind = 62600, na_pubkey = ''p1'', na_identifier = ''conn'' \<rparr> else None)"

definition site_content :: string where
  "site_content = ''{'' @ [CHR 0x22] @ ''alice'' @ [CHR 0x22] @ '':{'' @ [CHR 0x22] @ ''records'' @ [CHR 0x22] @ '':[[''
     @ [CHR 0x22] @ ''A'' @ [CHR 0x22] @ '','' @ [CHR 0x22] @ ''@'' @ [CHR 0x22] @ '','' @ [CHR 0x22] @ ''1.2.3.4'' @ [CHR 0x22] @ '']]}}''"

definition site_db :: database where
  "site_db = empty_db\<lparr>
     anchor_events := [\<lparr> r_id = ''a1'', r_pubkey = ''p1'', r_created_at = 3, r_updated_at = 3, r_d_tag = ''d'', r_content = [],
        r_sig = [], a_name_ref = ''nn'', a_conn_ref = ''cc'', a_meta_ref = ''mm'', a_txid = ''t1'', a_bitcoin_block = 940005,
        a_dnn_block = 5, a_position = 1, a_tags = [] \<rparr>],
     name_events := [\<lparr> r_id = ''n1'', r_pubkey = ''p1'', r_created_at = 1, r_updated_at = 1, r_d_tag = ''names'', r_content = [],
        r_sig = [], r_primary_name = ''bob'', r_other_names = ''[]'' \<rparr>],
     connection_events := [\<lparr> r_id = ''c1'', r_pubkey = ''p1'', r_created_at = 1, r_updated_at = 1, r_d_tag = ''conn'',
        r_content = site_content, r_sig = [], r_tags = [] \<rparr>]\<rparr>"

definition site_state :: relay_state where
  "site_state = \<lparr> rs_db = site_db, rs_marks = \<lparr> local_marks = [], peer_marks = [], peer_nodes = [] \<rparr>, rs_subs = [] \<rparr>"

definition site_env :: "nat dns_env" where
  "site_env = \<lparr> de_network = ''mainnet'', de_nip19 = naddr_of, de_UpstreamDNS = [''8.8.8.8:53''], de_Exchange = (\<lambda>_ _. Some 7) \<rparr>"

lemma site_lookups:
  "GetPrimaryNameByBlockAndPosition naddr_of 5 1 site_db = Ok ''bob''"
  "GetConnectionContentByBlockAndPosition naddr_of 5 1 site_db = Ok site_content"
  by (simp_all add: GetPrimaryNameByBlockAndPosition_def GetConnectionContentByBlockAndPosition_def follow_ref_def anchor_at_def
      site_db_def extractEventIDFromNaddr_def naddr_of_def newest_row_def at_reference_def at_address_def order_by_def)

lemma site_section: "parseConnectionContentSection site_content ''alice'' = Ok [[''A'', ''@'', ''1.2.3.4'']]"
  by code_simp

lemma site_records: "convertToDNSRecords domain [[''A'', ''@'', ''1.2.3.4'']] TypeA
  = [\<lparr> rr_Name = with_dot domain, rr_Type = TypeA, rr_Ttl = 3600, rr_Data = RA [1, 2, 3, 4] \<rparr>]"
proof -
  have "ParseIP ''1.2.3.4'' = Some (replicate 10 0 @ [255, 255, 1, 2, 3, 4])" "to_upper ''A'' = ''A''" by code_simp+
  moreover have "To4 (replicate 10 0 @ [255, 255, 1, 2, 3, 4]) = Some [1, 2, 3, 4]" by code_simp
  ultimately show ?thesis
    by (simp add: convertToDNSRecords_def convertSingleRecord_def matchesQueryType_def getRecordType_def record_ttl_def Let_def)
qed

theorem encoded_names_resolve_witness:
  "\<exists>code rrs. Encode (dns_encoder site_env) 5 1 = Ok code
     \<and> handleDNSRequest site_env [\<lparr> q_Name = dns_name ''alice'' code @ ''.'', q_Type = TypeA \<rparr>] site_state = Reply RcodeSuccess True rrs
     \<and> map rr_Data rrs = [RA [1, 2, 3, 4]]"
proof -
  obtain code where c: "Encode (dns_encoder site_env) 5 1 = Ok code"
    using enc.decode_encode[of 5 1 DefaultBlocksPerBatch DefaultTxMax "GetGenesisBlock ''mainnet''"]
    unfolding dns_encoder_def NewEncoderWithNetwork_def site_env_def by auto
  have "to_lower ''alice'' = ''alice''" "\<not> equal_fold ''alice'' ''bob''" by code_simp+
  moreover have "\<not> IsBlocked 5 1 ''alice'' (rs_marks site_state)"
    by (simp add: IsBlocked_def GetLocalMarkByID_def site_state_def)
  ultimately have "handleDNSRequest site_env [\<lparr> q_Name = dns_name ''alice'' code @ ''.'', q_Type = TypeA \<rparr>] site_state
      = Reply RcodeSuccess True (convertToDNSRecords (dns_name ''alice'' code) [[''A'', ''@'', ''1.2.3.4'']] TypeA)"
    using encoded_names_resolve[OF _ _ c, of "''alice''" site_state "''bob''" site_content "[[''A'', ''@'', ''1.2.3.4'']]" TypeA]
      site_lookups site_section site_records by (simp add: site_env_def site_state_def)
  then show ?thesis using c site_records by simp
qed

section \<open>Names of other people\<close>

fun three_letters :: "string \<Rightarrow> bool" where
  "three_letters (a # b # c # w) = True"
| "three_letters w = False"

lemma BIP39_long: "list_all three_letters BIP39EnglishWordlist"
  by (simp add: BIP39EnglishWordlist_def bip39_01_def bip39_02_def bip39_03_def bip39_04_def bip39_05_def bip39_06_def
      bip39_07_def bip39_08_def bip39_09_def bip39_10_def bip39_11_def bip39_12_def bip39_13_def bip39_14_def
      bip39_15_def bip39_16_def bip39_17_def bip39_18_def bip39_19_def bip39_20_def)

lemma decode_error:
  assumes "s = ''net'' \<or> s = [] \<or> hd s \<noteq> CHR ''n''"
  shows "\<exists>e. Decode (dns_encoder env) s = Inl e"
proof (cases "s = ''net''")
  case True
  have w: "wordlist (dns_encoder env) = BIP39EnglishWordlist"
    by (simp add: dns_encoder_def NewEncoderWithNetwork_def NewEncoderWithParams_def Let_def)
  have no: "\<not> has_prefix ''et'' w" if "w \<in> set BIP39EnglishWordlist" for w
  proof -
    have "three_letters w" using that BIP39_long by (simp add: list_all_iff)
    then show ?thesis by (cases w rule: three_letters.cases) (auto simp: has_prefix_def)
  qed
  have "set ws \<subseteq> set BIP39EnglishWordlist \<Longrightarrow>
      foldl (\<lambda>best w. if has_prefix ''et'' w \<and> length w > length best then w else best) [] ws = []" for ws
    by (induction ws) (use no in auto)
  then have "best_match BIP39EnglishWordlist ''et'' = []" unfolding best_match_def by simp
  then show ?thesis by (simp add: Decode_def True matchBIP39Word_def w)
qed (use assms in \<open>auto simp: Decode_def\<close>)

text \<open>
  Ordinary domain names are swallowed: every name whose first label starts with n and has a
  further letter somewhere, unless its last label starts with n too, and every name that ends in
  \<^verbatim>\<open>.net\<close>, is answered with "no such name" and never reaches an upstream server.
\<close>

lemma foreign_names_swallowed:
  assumes "domain = trim_suffix (to_lower (q_Name q)) ''.''"
    and "starts_like_dnn domain \<and> hd (last (split_on (CHR ''.'') domain)) \<noteq> CHR ''n''
      \<or> (\<exists>site. domain = site @ ''.net'')"
  shows "handleDNSRequest env (q # qs) st = Reply RcodeNameError False []"
proof -
  have base: "snd (extractSubdomain domain) = last (split_on (CHR ''.'') domain)"
    using split_on_nonempty[of "CHR ''.''" domain] join_split_on[of "CHR ''.''" domain]
    by (cases "split_on (CHR ''.'') domain") (auto simp: extractSubdomain_def Let_def)
  have "isDNNName domain \<and> (\<exists>e. Decode (dns_encoder env) (snd (extractSubdomain domain)) = Inl e)"
    using assms(2)
  proof
    assume "\<exists>site. domain = site @ ''.net''"
    then obtain site where d: "domain = site @ ''.'' @ ''net''" by auto
    have "starts_like_dnn ''net''" by code_simp
    then show ?thesis using dnn_sub[of "''net''" site] extract_sub[of "''net''" site] decode_error[of "''net''" env] by (simp add: d)
  next
    assume "starts_like_dnn domain \<and> hd (last (split_on (CHR ''.'') domain)) \<noteq> CHR ''n''"
    then show ?thesis using decode_error[of "last (split_on (CHR ''.'') domain)" env] by (auto simp: isDNNName_def Let_def base)
  qed
  then show ?thesis
    unfolding handleDNSRequest_def list.case assms(1)[symmetric] Let_def
    by (auto simp: handleDNNDomain_def Let_def split: prod.splits sum.splits)
qed

lemma foreign_names_swallowed_example:
  "handleDNSRequest site_env [\<lparr> q_Name = ''netflix.com.'', q_Type = TypeA \<rparr>] site_state = Reply RcodeNameError False []
   \<and> handleDNSRequest site_env [\<lparr> q_Name = ''php.net.'', q_Type = TypeA \<rparr>] site_state = Reply RcodeNameError False []"
proof
  have "''netflix.com'' = trim_suffix (to_lower ''netflix.com.'') ''.''" "''php'' @ ''.net'' = trim_suffix (to_lower ''php.net.'') ''.''"
    "starts_like_dnn ''netflix.com'' \<and> hd (last (split_on (CHR ''.'') ''netflix.com'')) \<noteq> CHR ''n''" by code_simp+
  then show "handleDNSRequest site_env [\<lparr> q_Name = ''netflix.com.'', q_Type = TypeA \<rparr>] site_state = Reply RcodeNameError False []"
    "handleDNSRequest site_env [\<lparr> q_Name = ''php.net.'', q_Type = TypeA \<rparr>] site_state = Reply RcodeNameError False []"
    using foreign_names_swallowed[where domain = "''netflix.com''" and q = "\<lparr> q_Name = ''netflix.com.'', q_Type = TypeA \<rparr>" and qs = "[]"]
      foreign_names_swallowed[where domain = "''php'' @ ''.net''" and q = "\<lparr> q_Name = ''php.net.'', q_Type = TypeA \<rparr>" and qs = "[]"]
    unfolding question.simps by blast+
qed


section \<open>What is accepted and what is served\<close>

definition is_text :: "json \<Rightarrow> bool" where
  "is_text x \<longleftrightarrow> x = JNull \<or> (\<exists>s. x = JStr s)"

definition plain_spelling :: "(string \<times> json) list \<Rightarrow> bool" where
  "plain_spelling sec \<longleftrightarrow> members ''records'' sec = (case jlookup sec ''records'' of None \<Rightarrow> [] | Some v \<Rightarrow> [v])"

definition text_records :: "(string \<times> json) list \<Rightarrow> bool" where
  "text_records sec \<longleftrightarrow> (\<forall>xs. jlookup sec ''records'' = Some (JArr xs) \<longrightarrow> (\<forall>r\<in>set xs. \<forall>ys. r = JArr ys \<longrightarrow> list_all is_text ys))"

lemma as_string_text: "as_string x = None \<longleftrightarrow> \<not> is_text x"
  by (cases x) (auto simp: as_string_def is_text_def)

lemma section_records_None:
  assumes "entry_ok v" "v = JObj sec" "plain_spelling sec"
  shows "section_records v = None \<longleftrightarrow> \<not> text_records sec"
proof -
  have "field [] as_matrix ''records'' sec = (case jlookup sec ''records'' of None \<Rightarrow> Some [] | Some v \<Rightarrow> as_matrix v)"
  proof (cases "jlookup sec ''records''")
    case None
    then show ?thesis using assms(3) by (simp add: plain_spelling_def field_def)
  next
    case (Some v)
    then have "members ''records'' sec = [v]" using assms(3) by (simp add: plain_spelling_def)
    then show ?thesis using Some field_single by simp
  qed
  then have f: "section_records v = (case jlookup sec ''records'' of None \<Rightarrow> Some [] | Some v \<Rightarrow> as_matrix v)"
    by (simp add: section_records_def as_object_def assms(2))
  show ?thesis
  proof (cases "jlookup sec ''records''")
    case (Some rs)
    then obtain xs where xs: "rs = JArr xs" "\<forall>r\<in>set xs. record_ok r" using assms(1,2) by (auto simp: entry_ok_def)
    have row: "as_list as_string r = None \<longleftrightarrow> (\<exists>ys. r = JArr ys \<and> \<not> list_all is_text ys)" if r: "r \<in> set xs" for r
    proof -
      obtain ys where "r = JArr ys" using xs(2) r by (auto simp: record_ok_def)
      then show ?thesis by (simp add: as_list_None as_string_text list_all_iff Bex_def)
    qed
    then show ?thesis by (auto simp: f Some xs(1) as_matrix_def as_list_None text_records_def)
  qed (simp add: f text_records_def)
qed

text \<open>
  What the relay accepts is not always what the DNS server can serve: for an accepted
  connection event (with the plain spelling of \<^verbatim>\<open>records\<close>) a domain of the document parses exactly
  when every entry of every record of every domain is a string (or null); one numeric entry,
  which the validator allows, takes all domains of the event down.
\<close>

lemma connection_served_iff:
  assumes "ValidateConnectionEvent ev = Ok ()" "unmarshal_map (ev_content ev) = Some kvs"
    and "\<forall>e\<in>set kvs. \<forall>sec. snd e = JObj sec \<longrightarrow> plain_spelling sec" "domain \<in> fst ` set kvs"
  shows "(\<exists>records. parseConnectionContentSection (ev_content ev) domain = Ok records)
    \<longleftrightarrow> (\<forall>e\<in>set kvs. \<forall>sec. snd e = JObj sec \<longrightarrow> text_records sec)"
proof -
  have ok: "\<exists>sec. v = JObj sec \<and> entry_ok v" if "(k, v) \<in> set kvs" for k v
  proof -
    have "check_all validateConnEntry kvs = Inr ()"
      using assms(1,2) by (simp add: ValidateConnectionEvent_def split: if_splits)
    then have "entry_ok v" using that validateConnEntry_ok by (auto simp: check_all_ok)
    then show ?thesis by (auto simp: entry_ok_def)
  qed
  have none: "section_records v = None \<longleftrightarrow> \<not> (\<forall>sec. v = JObj sec \<longrightarrow> text_records sec)" if "(k, v) \<in> set kvs" for k v
    using ok[OF that] section_records_None[of v] assms(3) that by fastforce
  have "(\<exists>records. parseConnectionContentSection (ev_content ev) domain = Ok records)
      \<longleftrightarrow> all_some (map (section_records \<circ> snd) kvs) \<noteq> None"
  proof (cases "all_some (map (section_records \<circ> snd) kvs)")
    case (Some rs)
    then have "length rs = length kvs" unfolding all_some_Some by (metis length_map)
    then have "map fst (zip (map fst kvs) rs) = map fst kvs" by simp
    then have "map_of (zip (map fst kvs) rs) domain \<noteq> None" using assms(4) unfolding map_of_eq_None_iff by (metis set_map)
    then show ?thesis using Some assms(2) by (auto simp: parseConnectionContentSection_def)
  qed (simp add: parseConnectionContentSection_def assms(2))
  also have "\<dots> \<longleftrightarrow> (\<forall>e\<in>set kvs. section_records (snd e) \<noteq> None)"
    by (force simp: all_some_None)
  also have "\<dots> \<longleftrightarrow> (\<forall>e\<in>set kvs. \<forall>sec. snd e = JObj sec \<longrightarrow> text_records sec)"
    using none by force
  finally show ?thesis .
qed

text \<open>\<^verbatim>\<open>{"a":{"records":[["TXT","@","hi"]]},"b":{"records":[["A","@","1.1.1.1",60]]}}\<close>\<close>

definition mixed_content :: string where
  "mixed_content = (let q = (\<lambda>s. [CHR 0x22] @ s @ [CHR 0x22]) in
     ''{'' @ q ''a'' @ '':{'' @ q ''records'' @ '':[['' @ q ''TXT'' @ '','' @ q ''@'' @ '','' @ q ''hi'' @ '']]},''
     @ q ''b'' @ '':{'' @ q ''records'' @ '':[['' @ q ''A'' @ '','' @ q ''@'' @ '','' @ q ''1.1.1.1'' @ '',60]]}}'')"

definition mixed_event :: event where
  "mixed_event = \<lparr> ev_id = ''c2'', ev_pubkey = ''p1'', ev_created_at = 1, ev_kind = 62600, ev_tags = [[''t'', ''DNN'']],
     ev_content = mixed_content, ev_sig = [] \<rparr>"

lemma connection_served_iff_example:
  "ValidateConnectionEvent mixed_event = Ok ()
   \<and> \<not> (\<exists>records. parseConnectionContentSection mixed_content ''a'' = Ok records)"
proof
  let ?a = "[(''records'', JArr [JArr [JStr ''TXT'', JStr ''@'', JStr ''hi'']])]"
  let ?b = "[(''records'', JArr [JArr [JStr ''A'', JStr ''@'', JStr ''1.1.1.1'', JNum ''60'']])]"
  have u: "unmarshal_map mixed_content = Some [(''a'', JObj ?a), (''b'', JObj ?b)]" by code_simp
  have c: "ev_content mixed_event = mixed_content" by (simp add: mixed_event_def)
  have f: "fold_name ''records'' = ''records''" by code_simp
  show v: "ValidateConnectionEvent mixed_event = Ok ()"
    using u by (simp add: ValidateConnectionEvent_def c)
      (simp add: mixed_event_def mixed_content_def has_dnn_tag_def tag_is_def validateConnEntry_def jlookup_def validateDNSRecord_def
        validTypes_def Let_def)
  have "\<not> text_records ?b" by (simp add: text_records_def jlookup_def is_text_def)
  moreover have "plain_spelling ?a" "plain_spelling ?b"
    by (simp_all add: plain_spelling_def members_def jlookup_def f)
  ultimately show "\<not> (\<exists>records. parseConnectionContentSection mixed_content ''a'' = Ok records)"
    using connection_served_iff[OF v, of "[(''a'', JObj ?a), (''b'', JObj ?b)]" "''a''", unfolded c, OF u] by auto
qed

lemma parse_uint_show: "n < 2 ^ bits \<Longrightarrow> parse_uint bits (show_nat n) = (n, True)"
  by (simp add: parse_uint_def)

text \<open>
  The two readers of a record agree on the time to live of an address, alias or text record,
  and not on that of a service record: there the DNS server answers the weight, the HTTP
  interface the time to live.
\<close>

lemma ttl_of_the_two_readers:
  assumes "ttl < 2 ^ 32" "weight < 2 ^ 16"
  shows "(ty \<in> {''A'', ''AAAA'', ''CNAME'', ''TXT''} \<longrightarrow>
      int (record_ttl [ty, name, value, show_nat ttl]) = dr_TTL (convert_record [ty, name, value, show_nat ttl]))
    \<and> record_ttl [''SRV'', name, prio, show_nat weight, port, target, show_nat ttl] = weight
      \<and> dr_TTL (convert_record [''SRV'', name, prio, show_nat weight, port, target, show_nat ttl]) = int ttl"
proof -
  have s: "sscanf_d x (show_nat n) = int n" if "n < 2 ^ 32" for x n
  proof -
    have "in64 (int n)" using that by (simp add: in64_def)
    then show ?thesis using scan_int_show[of "int n" "[]"] by (simp add: sscanf_d_def show_int_def)
  qed
  have w: "weight < 2 ^ 32" using assms(2) by simp
  have "ty \<in> {''A'', ''AAAA'', ''CNAME'', ''TXT''} \<longrightarrow>
      int (record_ttl [ty, name, value, show_nat ttl]) = dr_TTL (convert_record [ty, name, value, show_nat ttl])"
    using parse_uint_show[OF assms(1)] s[OF assms(1)] by (auto simp: record_ttl_def convert_record_def ttl_at_def)
  moreover have "record_ttl [''SRV'', name, prio, show_nat weight, port, target, show_nat ttl] = weight
      \<and> dr_TTL (convert_record [''SRV'', name, prio, show_nat weight, port, target, show_nat ttl]) = int ttl"
    using parse_uint_show[OF w] s[OF assms(1)] by (simp add: record_ttl_def convert_record_def ttl_at_def)
  ultimately show ?thesis by blast
qed

lemma ttl_of_the_two_readers_example:
  "record_ttl [''SRV'', ''@'', ''10'', show_nat 5, ''5060'', ''h'', show_nat 300] = 5
   \<and> dr_TTL (convert_record [''SRV'', ''@'', ''10'', show_nat 5, ''5060'', ''h'', show_nat 300]) = 300"
  using ttl_of_the_two_readers[of 300 5 "''A''" "''@''" "''h''" "''10''" "''5060''" "''h''"] by simp

end
