(* ===== verification/Resolve.thy ===== *)
theory Resolve
  imports Dns
begin

text \<open>
  Name resolution over HTTP in \<^verbatim>\<open>src/internal/node/node.go\<close>: the parser of the names in a URL
  (\<^verbatim>\<open>parseDNNName\<close>), the resolution of delegations, and the handlers that resolve a name, verify its
  owner and list the names of a key.  The bech32 strings in the answers are left out; decoding
  them is a parameter, as are the answers of other relays and the order of a map iteration.
\<close>

section \<open>Block numbers with shorthand\<close>

datatype name_error =
    InvalidEncoded decode_error
  | InvalidShorthand char
  | InvalidBlock
  | InvalidPos
  | InvalidFormat
  | IndexPanic

definition block_multipliers :: "(string \<times> int) list" where
  "block_multipliers = [(''h'', 100), (''k'', 1000), (''m'', 1000000), (''b'', 1000000000), (''t'', 1000000000000),
     (''qd'', 1000000000000000), (''qt'', 1000000000000000000)]"

definition number_before :: "string \<Rightarrow> int" where
  "number_before currentNum = (if currentNum \<noteq> [] then sscanf_d 0 currentNum else 1)"

function block_loop :: "string \<Rightarrow> string \<Rightarrow> int \<Rightarrow> (name_error, int) res" where
  "block_loop [] currentNum result =
     (let r = (if currentNum \<noteq> [] then wrap64 (result + sscanf_d 0 currentNum) else result)
      in if r = 0 then Err InvalidBlock else Ok r)"
| "block_loop (c # s) currentNum result =
     (if is_digit c then block_loop s (currentNum @ [c]) result
      else
        let num = number_before currentNum in
        case (if s \<noteq> [] then map_of block_multipliers [c, hd s] else None) of
          Some m \<Rightarrow> block_loop (tl s) [] (wrap64 (result + wrap64 (num * m)))
        | None \<Rightarrow>
            (case map_of block_multipliers [c] of
               Some m \<Rightarrow> block_loop s [] (wrap64 (result + wrap64 (num * m)))
             | None \<Rightarrow> Err (InvalidShorthand c)))"
  by pat_completeness auto
termination by (relation "measure (\<lambda>(s, _, _). length s)") auto

text \<open>The position is always 1.\<close>

definition parseBlockWithShorthand :: "string \<Rightarrow> (name_error, int \<times> int) res" where
  "parseBlockWithShorthand blockStr = map_sum id (\<lambda>b. (b, 1)) (block_loop blockStr [] 0)"

definition isEncodedFormat :: "string \<Rightarrow> bool" where
  "isEncodedFormat s \<longleftrightarrow> list_ex any_letter s"

section \<open>Names\<close>

text \<open>The block part with its letter: an error, or the DNN block and the default position.\<close>

definition block_part :: "string \<Rightarrow> string \<Rightarrow> (name_error, int \<times> int) res" where
  "block_part network part =
     (case parseBlockWithShorthand (drop 1 part) of
        Inl e \<Rightarrow> Err e
      | Inr (block, pos) \<Rightarrow>
          Ok (if hd part = CHR ''b'' then wrap64 (block - GetGenesisBlock network) else block, pos))"

definition starts_n_or_b :: "string \<Rightarrow> bool" where
  "starts_n_or_b s \<longleftrightarrow> s \<noteq> [] \<and> (hd s = CHR ''n'' \<or> hd s = CHR ''b'')"

definition parseDNNName :: "string \<Rightarrow> string \<Rightarrow> (name_error, string \<times> int option \<times> int option) res" where
  "parseDNNName network fullName =
     (if CHR ''.'' \<notin> set fullName then
        if starts_n_or_b fullName then
          if isEncodedFormat (drop 1 fullName) then
            (case Decode (NewEncoderWithNetwork network) fullName of
               Inl e \<Rightarrow> Err (InvalidEncoded e)
             | Inr (block, pos) \<Rightarrow> Ok ([], Some block, Some pos))
          else
            (case block_part network fullName of
               Inl e \<Rightarrow> Err e | Inr (block, pos) \<Rightarrow> Ok ([], Some block, Some pos))
        else Ok (fullName, None, None)
      else
        let parts = split_on (CHR ''.'') fullName in
        if starts_n_or_b (parts ! 0) then
          (case block_part network (parts ! 0) of
             Inl e \<Rightarrow> Err e
           | Inr (block, pos) \<Rightarrow>
               Ok ([], Some block, Some (case scan_int (parts ! 1) of Some (explicit, _) \<Rightarrow> explicit | None \<Rightarrow> pos)))
        else
          let name = parts ! 0; blockPart = parts ! 1 in
          if length blockPart > 1 \<and> hd blockPart = CHR ''n'' \<and> isEncodedFormat (drop 1 blockPart) then
            (case Decode (NewEncoderWithNetwork network) blockPart of
               Inl e \<Rightarrow> Err (InvalidEncoded e)
             | Inr (block, pos) \<Rightarrow> Ok (name, Some block, Some pos))
          else if blockPart = [] then Err IndexPanic
          else if starts_n_or_b blockPart then
            (case block_part network blockPart of
               Inl e \<Rightarrow> Err e
             | Inr (block, pos) \<Rightarrow>
                 if length parts = 3 then
                   (case scan_int (parts ! 2) of
                      None \<Rightarrow> Err InvalidPos
                    | Some (explicit, _) \<Rightarrow> Ok (name, Some block, Some explicit))
                 else Ok (name, Some block, Some pos))
          else Err InvalidFormat)"

text \<open>\<^verbatim>\<open>decodePubkey\<close>; a valid \<^verbatim>\<open>npub\<close> decodes to its hexadecimal key.\<close>

definition decodePubkey :: "(string \<Rightarrow> string option) \<Rightarrow> string \<Rightarrow> string option" where
  "decodePubkey npub_decode pubkeyStr =
     (if has_prefix pubkeyStr ''npub1'' then npub_decode pubkeyStr
      else if length pubkeyStr = 64 then Some pubkeyStr
      else None)"

section \<open>Delegation\<close>

record http_env =
  he_network :: string
  he_nip19 :: "string \<Rightarrow> naddr_data option"
  he_npub :: "string \<Rightarrow> string option"
  he_remote_content :: "string \<Rightarrow> string \<Rightarrow> string option"
  he_iter :: "(string \<times> json) list \<Rightarrow> (string \<times> json) list"

datatype delegation = NoDelegation | DelegationError | Delegated ParsedConnection string

definition resolveDelegation :: "http_env \<Rightarrow> string \<Rightarrow> database \<Rightarrow> delegation" where
  "resolveDelegation env naddr d =
     (if naddr = [] then NoDelegation
      else case he_nip19 env naddr of
        None \<Rightarrow> DelegationError
      | Some ep \<Rightarrow>
          if na_kind ep \<noteq> 62600 then DelegationError
          else
            (case (case GetConnectionContentByPubkeyAndDTag (na_pubkey ep) (na_identifier ep) d of
                     Inr content \<Rightarrow> Some content
                   | Inl _ \<Rightarrow> (case he_remote_content env (na_pubkey ep) (na_identifier ep) of
                        None \<Rightarrow> None | Some c \<Rightarrow> if c = [] then None else Some c)) of
               None \<Rightarrow> DelegationError
             | Some content \<Rightarrow>
                 (case parseConnectionContent (he_iter env) content [] of
                    None \<Rightarrow> DelegationError
                  | Some conn \<Rightarrow> Delegated conn (na_pubkey ep))))"

section \<open>Resolving\<close>

definition isBlockSpec :: "string \<Rightarrow> bool" where
  "isBlockSpec s \<longleftrightarrow> length s \<ge> 2 \<and> (s ! 0 = CHR ''n'' \<or> s ! 0 = CHR ''b'')
     \<and> (is_digit (s ! 1) \<or> s ! 1 \<in> {CHR ''m'', CHR ''h'', CHR ''k''})"

text \<open>The domain in front of a DNN name, and the name to parse.\<close>

definition split_domain :: "string \<Rightarrow> string \<times> string" where
  "split_domain lowerFullName =
     (case split_first_dot lowerFullName of
        None \<Rightarrow> ([], lowerFullName)
      | Some (firstPart, secondPart) \<Rightarrow>
          if firstPart \<noteq> [] \<and> secondPart \<noteq> [] \<and> \<not> isBlockSpec firstPart
             \<and> \<not> isBlockSpec (hd (split_on (CHR ''.'') secondPart))
          then (firstPart, secondPart) else ([], lowerFullName))"

record resolution =
  rz_Record :: anchor_record
  rz_Encoded :: string
  rz_Connection :: ParsedConnection
  rz_Metadata :: ParsedMetadata
  rz_DomainFound :: bool
  rz_DelegatedFrom :: string
  rz_Subdomain :: string
  rz_TldLocal :: "(string \<times> string) option"
  rz_TldPeers :: "peer_consensus option"
  rz_NameLocal :: "(string \<times> string) option"
  rz_NamePeers :: "peer_consensus option"

datatype http_error = HandlerPanic | BadName name_error | BeforeGenesisBlock | BadPubkey | LookupFailed db_error | NameBlocked

text \<open>The status code; a panic is recovered by the HTTP server, which drops the connection.\<close>

definition status :: "http_error \<Rightarrow> nat option" where
  "status e = (case e of HandlerPanic \<Rightarrow> None | BadName _ \<Rightarrow> Some 400 | BeforeGenesisBlock \<Rightarrow> Some 400
     | BadPubkey \<Rightarrow> Some 400 | LookupFailed _ \<Rightarrow> Some 500 | NameBlocked \<Rightarrow> Some 404)"

definition name_failure :: "name_error \<Rightarrow> http_error" where
  "name_failure e = (if e = IndexPanic then HandlerPanic else BadName e)"

definition local_mark_of :: "int \<Rightarrow> int \<Rightarrow> string \<Rightarrow> awareness_db \<Rightarrow> (string \<times> string) option" where
  "local_mark_of block pos name a = map_option (\<lambda>m. (lm_mark m, lm_category m)) (GetLocalMarkByID block pos name a)"

definition peers_of :: "int \<Rightarrow> int \<Rightarrow> string \<Rightarrow> awareness_db \<Rightarrow> peer_consensus option" where
  "peers_of block pos name a =
     (let c = GetPeerConsensus block pos name a in if pc_total c > 0 then Some c else None)"

text \<open>The connection data of the answer: the record's own, or the delegated one with the own meta.\<close>

definition own_connection :: "http_env \<Rightarrow> anchor_record \<Rightarrow> database \<Rightarrow> ParsedConnection \<times> string" where
  "own_connection env record d =
     (let own = (case parseConnectionContent (he_iter env) (ar_ConnectionContent record) (ar_Name record) of
                   Some c \<Rightarrow> c | None \<Rightarrow> empty_connection)
      in if pc_Delegation own = [] then (own, [])
         else case resolveDelegation env (pc_Delegation own) d of
           Delegated conn pubkey \<Rightarrow> (if pc_Meta own \<noteq> None then conn\<lparr>pc_Meta := pc_Meta own\<rparr> else conn, pubkey)
         | _ \<Rightarrow> (own, []))"

definition build_resolution :: "http_env \<Rightarrow> string \<Rightarrow> anchor_record \<Rightarrow> relay_state \<Rightarrow> resolution" where
  "build_resolution env subdomain record st =
     (let (own, delegatedFrom) = own_connection env record (rs_db st);
          sub = (if subdomain = [] \<or> equal_fold subdomain (ar_Name record) then None
                 else Some (parseSubdomainConnectionContent (ar_ConnectionContent record) subdomain));
          subdomainUsed = (case sub of Some (Some _) \<Rightarrow> subdomain | _ \<Rightarrow> []);
          domainName = (if subdomainUsed \<noteq> [] then subdomainUsed else ar_Name record);
          block = ar_DNNBlock record; pos = ar_Position record; a = rs_marks st
      in \<lparr> rz_Record = record,
           rz_Encoded = (case Encode (NewEncoderWithNetwork (he_network env)) block pos of Inr s \<Rightarrow> s | Inl _ \<Rightarrow> []),
           rz_Connection = (case sub of None \<Rightarrow> own | Some None \<Rightarrow> empty_connection | Some (Some c) \<Rightarrow> c),
           rz_Metadata = (case parseMetadataContent (ar_MetadataContent record) of Some m \<Rightarrow> m | None \<Rightarrow> empty_metadata),
           rz_DomainFound = (sub \<noteq> Some None),
           rz_DelegatedFrom = delegatedFrom,
           rz_Subdomain = subdomainUsed,
           rz_TldLocal = local_mark_of block pos [] a,
           rz_TldPeers = peers_of block pos [] a,
           rz_NameLocal = (if domainName \<noteq> [] then local_mark_of block pos domainName a else None),
           rz_NamePeers = (if domainName \<noteq> [] then peers_of block pos domainName a else None) \<rparr>)"

text \<open>
  The handler.  \<^verbatim>\<open>GetAnchorByName\<close> never returns a nil record without an error (its result type
  here), so the branches that would ask other relays for a name are not reachable.
\<close>

definition handleResolve :: "http_env \<Rightarrow> string \<Rightarrow> relay_state \<Rightarrow> (http_error, resolution) res" where
  "handleResolve env fullName st =
     (let (subdomain, nameToResolve) = split_domain (to_lower fullName) in
      case parseDNNName (he_network env) nameToResolve of
        Inl e \<Rightarrow> Err (name_failure e)
      | Inr (name, blockNum, position) \<Rightarrow>
          if (case blockNum of Some b \<Rightarrow> b < 0 | None \<Rightarrow> False) then Err BeforeGenesisBlock
          else case GetAnchorByName (he_nip19 env) name blockNum position (rs_db st) of
            Inl e \<Rightarrow> Err (LookupFailed e)
          | Inr record \<Rightarrow>
              if IsBlocked (ar_DNNBlock record) (ar_Position record) [] (rs_marks st) then Err NameBlocked
              else Ok (build_resolution env subdomain record st))"

section \<open>Ownership\<close>

text \<open>The answer says whether the key owns the name, and which anchor proves it.\<close>

definition handleVerify ::
  "http_env \<Rightarrow> string \<Rightarrow> string \<Rightarrow> relay_state \<Rightarrow> (http_error, anchor_record option) res" where
  "handleVerify env fullName npubStr st =
     (case decodePubkey (he_npub env) npubStr of
        None \<Rightarrow> Err BadPubkey
      | Some pubkey \<Rightarrow>
          (case parseDNNName (he_network env) (to_lower fullName) of
             Inl e \<Rightarrow> Err (name_failure e)
           | Inr (name, blockNum, position) \<Rightarrow>
               (case GetAnchorByName (he_nip19 env) name blockNum position (rs_db st) of
                  Inl e \<Rightarrow> Err (LookupFailed e)
                | Inr record \<Rightarrow> Ok (if ar_Pubkey record = pubkey then Some record else None))))"

definition handleLookupByNpub ::
  "http_env \<Rightarrow> string \<Rightarrow> relay_state \<Rightarrow> (http_error, (string \<times> string \<times> string \<times> int \<times> int \<times> int) list) res" where
  "handleLookupByNpub env npubStr st =
     (case decodePubkey (he_npub env) npubStr of
        None \<Rightarrow> Err BadPubkey
      | Some pubkey \<Rightarrow>
          Ok (map (\<lambda>r. (ar_Name r, ''.n'' @ show_int (ar_DNNBlock r) @ ''.'' @ show_int (ar_Position r),
                 (case Encode (NewEncoderWithNetwork (he_network env)) (ar_DNNBlock r) (ar_Position r) of
                    Inr s \<Rightarrow> s | Inl _ \<Rightarrow> []), ar_DNNBlock r, ar_BitcoinBlock r, ar_Position r))
              (GetNamesByPubkey (he_nip19 env) pubkey (rs_db st))))"


section \<open>Reading block numbers\<close>

definition shorthand_char :: "char \<Rightarrow> bool" where
  "shorthand_char c \<longleftrightarrow> is_digit c \<or> c \<in> set ''hkmbtqd''"

lemma multiplier_chars: "map_of block_multipliers s = Some m \<Longrightarrow> list_all shorthand_char s"
  by (auto simp: block_multipliers_def shorthand_char_def split: if_splits)

lemma block_loop_chars: "block_loop s cur res = Ok r \<Longrightarrow> list_all shorthand_char s"
proof (induction s cur res rule: block_loop.induct)
  case (2 c s cur res)
  show ?case
  proof (cases "is_digit c")
    case True
    then show ?thesis using 2 by (simp add: shorthand_char_def)
  next
    case nd: False
    show ?thesis
    proof (cases "if s \<noteq> [] then map_of block_multipliers [c, hd s] else None")
      case (Some m)
      then have n: "s \<noteq> []" and m: "map_of block_multipliers [c, hd s] = Some m" by (auto split: if_splits)
      have "list_all shorthand_char [c, hd s]" by (rule multiplier_chars[OF m])
      then show ?thesis using 2 nd Some n by (cases s) (auto simp: Let_def)
    next
      case None
      then obtain m where "map_of block_multipliers [c] = Some m" "list_all shorthand_char s"
        using 2 nd by (auto simp: Let_def split: option.splits)
      then show ?thesis using multiplier_chars[of "[c]"] by simp
    qed
  qed
qed simp

lemma block_loop_digits: "list_all is_digit s \<Longrightarrow> block_loop (s @ r) cur res = block_loop r (cur @ s) res"
  by (induction s arbitrary: cur) auto

lemma block_loop_number:
  assumes "0 < b" "b \<le> MaxInt64"
  shows "block_loop (show_int b) [] 0 = Ok b"
proof -
  have s: "show_int b = show_nat (nat b)" using assms by (simp add: show_int_def)
  have i: "in64 b" using assms by (simp add: in64I)
  have "sscanf_d 0 (show_int b) = b" using scan_int_show[OF i, of "[]"] by (simp add: sscanf_d_def)
  moreover have "block_loop (show_int b) [] 0 = block_loop [] (show_int b) 0"
    using block_loop_digits[of "show_int b" "[]" "[]" 0] show_nat_digits by (simp add: s)
  ultimately show ?thesis using assms i by (simp add: s wrap64_id)
qed

lemma parse_number: "0 < b \<Longrightarrow> b \<le> MaxInt64 \<Longrightarrow> parseBlockWithShorthand (show_int b) = Ok (b, 1)"
  by (simp add: parseBlockWithShorthand_def block_loop_number)

lemma parse_bad_char:
  assumes "c \<in> set s" "\<not> shorthand_char c"
  shows "\<exists>e. parseBlockWithShorthand s = Inl e"
proof (cases "block_loop s [] 0")
  case (Inr r)
  then show ?thesis using block_loop_chars[OF Inr] assms by (auto simp: list_all_iff)
qed (simp add: parseBlockWithShorthand_def)

section \<open>Properties of the name parser\<close>

text \<open>
  Names that start with n or b are lost: when such a name contains a character that is
  neither a digit nor a letter of the shorthand (as \<^verbatim>\<open>bob\<close> and \<^verbatim>\<open>nancy\<close> do), every identifier written
  after it is rejected, the owner check of every such name fails, and so does its resolution by
  block number.
\<close>

lemma names_with_n_or_b_are_lost:
  assumes "starts_n_or_b name" "CHR ''.'' \<notin> set name" "c \<in> set (drop 1 name)" "\<not> shorthand_char c"
  shows "(\<exists>e. parseDNNName network (name @ ''.'' @ spec) = Err e)
    \<and> (to_lower (name @ ''.'' @ spec) = name @ ''.'' @ spec \<longrightarrow>
        \<not> (\<exists>answer. handleVerify env (name @ ''.'' @ spec) npub st = Ok answer)
        \<and> (isBlockSpec (hd (split_on (CHR ''.'') spec)) \<longrightarrow>
            \<not> (\<exists>answer. handleResolve env (name @ ''.'' @ spec) st = Ok answer)))"
proof -
  have p: "split_on (CHR ''.'') (name @ CHR ''.'' # spec) ! 0 = name"
    by (simp add: split_on_append[OF assms(2)])
  obtain e where "parseBlockWithShorthand (drop 1 name) = Inl e" using parse_bad_char[OF assms(3,4)] by blast
  then have err: "parseDNNName net (name @ ''.'' @ spec) = Inl e" for net
    using assms(1) by (simp add: parseDNNName_def Let_def block_part_def p)
  have "split_first_dot (name @ ''.'' @ spec) = Some (name, spec)"
    using split_first_dot_append[OF assms(2)] by simp
  then have "split_domain (name @ ''.'' @ spec) = ([], name @ ''.'' @ spec)" if "isBlockSpec (hd (split_on (CHR ''.'') spec))"
    using that by (simp add: split_domain_def)
  then show ?thesis
    using err by (auto simp: handleVerify_def handleResolve_def split: option.splits)
qed


definition main_http :: http_env where
  "main_http = \<lparr> he_network = ''mainnet'', he_nip19 = naddr_of, he_npub = (\<lambda>_. None), he_remote_content = (\<lambda>_ _. None), he_iter = (\<lambda>m. m) \<rparr>"

lemma names_with_n_or_b_are_lost_example:
  "\<not> (\<exists>answer. handleVerify main_http ''bob.n5'' ''npub1bob'' site_state = Ok answer)
   \<and> \<not> (\<exists>answer. handleResolve main_http ''bob.n5'' site_state = Ok answer)"
proof -
  have "starts_n_or_b ''bob''" "CHR ''.'' \<notin> set ''bob''" "CHR ''o'' \<in> set (drop 1 ''bob'')" "\<not> shorthand_char (CHR ''o'')"
    "to_lower ''bob.n5'' = ''bob.n5''" "isBlockSpec (hd (split_on (CHR ''.'') ''n5''))" by code_simp+
  then show ?thesis
    using names_with_n_or_b_are_lost[where name = "''bob''" and c = "CHR ''o''" and spec = "''n5''" and env = main_http
        and npub = "''npub1bob''" and st = site_state]
    by simp
qed

lemma split_three:
  assumes "CHR ''.'' \<notin> set a" "CHR ''.'' \<notin> set b" "CHR ''.'' \<notin> set c"
  shows "split_on (CHR ''.'') (a @ ''.'' @ b @ ''.'' @ c) = [a, b, c]"
  using assms by (simp add: split_on_append split_on_no_sep)

lemma digits_no_letter: "list_all is_digit s \<Longrightarrow> \<not> list_ex any_letter s"
  by (auto simp: list_all_iff list_ex_iff any_letter_def is_letter_def is_digit_def)

text \<open>
  Decimal identifiers read back: a name that does not start with n or b, with a DNN or a
  Bitcoin block and a position printed after it, and such an identifier alone, parse to their
  name, block and position, for every positive 64-bit DNN block from genesis on.
\<close>

lemma decimal_identifiers_roundtrip:
  assumes "\<not> starts_n_or_b name" "CHR ''.'' \<notin> set name" "0 < b" "b + GetGenesisBlock network \<le> MaxInt64" "1 \<le> p" "p \<le> MaxInt64"
  shows "parseDNNName network (name @ ''.n'' @ show_int b @ ''.'' @ show_int p) = Ok (name, Some b, Some p)
    \<and> parseDNNName network (name @ ''.b'' @ show_int (b + GetGenesisBlock network) @ ''.'' @ show_int p) = Ok (name, Some b, Some p)
    \<and> parseDNNName network (''n'' @ show_int b @ ''.'' @ show_int p) = Ok ([], Some b, Some p)
    \<and> parseDNNName network (''b'' @ show_int (b + GetGenesisBlock network) @ ''.'' @ show_int p) = Ok ([], Some b, Some p)"
proof -
  let ?c = "b + GetGenesisBlock network"
  have r: "b \<le> MaxInt64" "0 < ?c" "in64 p" "in64 b" using assms(3-6) by (auto simp: in64I)
  have nl: "\<not> list_ex any_letter (show_int b)"
    using digits_no_letter show_nat_digits assms(3) by (simp add: show_int_def)
  have pos: "scan_int (show_int p) = Some (p, [])" using scan_int_show[OF r(3), of "[]"] by simp
  have N: "block_part network (''n'' @ show_int b) = Ok (b, 1)"
    using parse_number[OF assms(3) r(1)] by (simp add: block_part_def)
  have B: "block_part network (''b'' @ show_int ?c) = Ok (b, 1)"
    using parse_number[OF r(2) assms(4)] r(4) by (simp add: block_part_def)
  have nd: "CHR ''.'' \<notin> set (''n'' @ show_int b)" "CHR ''.'' \<notin> set (''b'' @ show_int ?c)" by simp_all
  note S = split_three[OF assms(2) nd(1) show_int_no_dot] split_three[OF assms(2) nd(2) show_int_no_dot]
    split_on_append[OF nd(1), of "show_int p"] split_on_append[OF nd(2), of "show_int p"]
  have "starts_n_or_b (''n'' @ s)" "starts_n_or_b (''b'' @ s)" for s by (simp_all add: starts_n_or_b_def)
  then show ?thesis
    using assms(1) S N B nl pos
    by (intro conjI) (simp_all add: parseDNNName_def isEncodedFormat_def Let_def split_on_no_sep)
qed

lemma decimal_identifiers_roundtrip_example:
  "parseDNNName ''mainnet'' (''alice'' @ ''.n'' @ show_int 7 @ ''.'' @ show_int 3) = Ok (''alice'', Some 7, Some 3)"
  using decimal_identifiers_roundtrip[of "''alice''" 7 "''mainnet''" 3] by (simp add: starts_n_or_b_def)

lemma decode_digit: "is_digit d \<Longrightarrow> \<exists>e. Decode (NewEncoderWithNetwork network) (CHR ''n'' # d # s) = Inl e"
proof -
  assume "is_digit d"
  then have "\<not> is_letter d" by (auto simp: is_digit_def is_letter_def)
  then show ?thesis using enc.decode_numeric unfolding NewEncoderWithNetwork_def by blast
qed

text \<open>
  The shorthand the comments promise is rejected: an identifier \<^verbatim>\<open>n\<close> with a digit and a later
  letter (as \<^verbatim>\<open>n5h\<close>) is taken for the word encoding and fails, alone and after a name; block 0
  fails in its decimal form.
\<close>

lemma shorthand_is_rejected:
  assumes "is_digit d" "CHR ''.'' \<notin> set s" "list_ex any_letter s" "\<not> starts_n_or_b name" "CHR ''.'' \<notin> set name"
  shows "(\<exists>e. parseDNNName network (''n'' @ d # s) = Err e) \<and> (\<exists>e. parseDNNName network (name @ ''.n'' @ d # s) = Err e)
    \<and> parseDNNName network ''n0'' = Err InvalidBlock \<and> parseDNNName network (name @ ''.n0'') = Err InvalidBlock"
proof -
  have nd: "CHR ''.'' \<notin> set (''n'' @ d # s)" using assms(1,2) by (auto simp: is_digit_def byte_of_def)
  obtain e where e: "Decode (NewEncoderWithNetwork network) (CHR ''n'' # d # s) = Inl e" using decode_digit[OF assms(1)] by blast
  have S: "split_on (CHR ''.'') (name @ CHR ''.'' # CHR ''n'' # d # s) = [name, CHR ''n'' # d # s]"
    using split_on_no_sep[OF nd] by (simp only: split_on_append[OF assms(5)] append_Cons append_Nil)
  have S0: "split_on (CHR ''.'') (name @ ''.n0'') = [name, ''n0'']"
    by (simp add: split_on_append[OF assms(5)])
  have z: "is_digit (CHR ''0'')" "block_loop ''0'' [] 0 = Err InvalidBlock" "isEncodedFormat ''0'' = False" by code_simp+
  have n: "starts_n_or_b (CHR ''n'' # t)" for t by (simp add: starts_n_or_b_def)
  have "parseDNNName network (''n'' @ d # s) = Err (InvalidEncoded e)"
    using nd e assms(3) n by (simp add: parseDNNName_def isEncodedFormat_def)
  moreover have "parseDNNName network (name @ ''.n'' @ d # s) = Err (InvalidEncoded e)"
    using e assms(3,4) by (simp add: parseDNNName_def isEncodedFormat_def Let_def S)
  moreover have "parseDNNName network ''n0'' = Err InvalidBlock"
    using z n by (simp add: parseDNNName_def block_part_def parseBlockWithShorthand_def)
  moreover have "parseDNNName network (name @ ''.n0'') = Err InvalidBlock"
    using z n assms(4) S0 by (simp add: parseDNNName_def block_part_def parseBlockWithShorthand_def Let_def)
  ultimately show ?thesis by blast
qed

lemma shorthand_is_rejected_example: "\<exists>e. parseDNNName ''mainnet'' ''n5h'' = Err e"
  using shorthand_is_rejected[of "CHR ''5''" "''h''" "''alice''" "''mainnet''"]
  by (simp add: is_digit_def byte_of_def any_letter_def is_letter_def starts_n_or_b_def)

lemma GetAnchorByName_sound:
  assumes "GetAnchorByName decode name b p d = Ok record"
  shows "\<exists>a\<in>set (anchor_events d). record = record_of decode d a \<and> (\<forall>x. b = Some x \<longrightarrow> a_dnn_block a = x)
    \<and> (\<forall>x. p = Some x \<longrightarrow> a_position a = x)
    \<and> (name \<noteq> [] \<longrightarrow> (\<exists>n. referenced_name decode d a = Some n \<and> equal_fold (r_primary_name n) name))"
proof (cases "name = []")
  case True
  then obtain a rest where "candidate_anchors b p d = a # rest" "record = record_of decode d a"
    using assms by (auto simp: GetAnchorByName_def Let_def split: list.splits)
  then have "a \<in> set (candidate_anchors b p d)" by simp
  then show ?thesis using True \<open>record = record_of decode d a\<close> by (auto simp: candidate_anchors_set)
next
  case False
  then obtain a where "find (\<lambda>a. case referenced_name decode d a of None \<Rightarrow> False
      | Some n \<Rightarrow> equal_fold (r_primary_name n) name) (candidate_anchors b p d) = Some a" and r: "record = record_of decode d a"
    using assms by (auto simp: GetAnchorByName_def Let_def split: option.splits)
  then have "a \<in> set (candidate_anchors b p d)" "\<exists>n. referenced_name decode d a = Some n \<and> equal_fold (r_primary_name n) name"
    by (auto simp: find_Some_iff split: option.splits)
  then show ?thesis using r by (auto simp: candidate_anchors_set)
qed

text \<open>
  C10.  Resolution is sound: an answer comes from a stored anchor that has the block and the
  position of the request where it names them, whose referenced name event carries the name of
  the request up to case where it has one, and whose identifier is not blocked; a request that
  finds no anchor ends with status 500, and other relays are not asked.
\<close>

theorem resolution_sound:
  assumes "split_domain (to_lower url) = (subdomain, target)"
    and "parseDNNName (he_network env) target = Ok (name, blockNum, position)"
  shows "case handleResolve env url st of
      Inr answer \<Rightarrow> \<exists>a\<in>set (anchor_events (rs_db st)). rz_Record answer = record_of (he_nip19 env) (rs_db st) a
        \<and> (\<forall>b. blockNum = Some b \<longrightarrow> a_dnn_block a = b) \<and> (\<forall>p. position = Some p \<longrightarrow> a_position a = p)
        \<and> (name \<noteq> [] \<longrightarrow> equal_fold (ar_Name (rz_Record answer)) name)
        \<and> \<not> IsBlocked (a_dnn_block a) (a_position a) [] (rs_marks st)
    | Inl e \<Rightarrow> e = BeforeGenesisBlock \<and> blockNum \<noteq> None
        \<or> e = LookupFailed DNoRows \<and> status e = Some 500 \<or> e = NameBlocked"
proof (cases "GetAnchorByName (he_nip19 env) name blockNum position (rs_db st)")
  case (Inl e)
  then have "e = DNoRows" by (auto simp: GetAnchorByName_def Let_def split: option.splits)
  then show ?thesis using assms Inl by (auto simp: handleResolve_def status_def split: option.splits)
next
  case (Inr found)
  then obtain a where a: "a \<in> set (anchor_events (rs_db st))" "found = record_of (he_nip19 env) (rs_db st) a"
    "\<forall>x. blockNum = Some x \<longrightarrow> a_dnn_block a = x" "\<forall>x. position = Some x \<longrightarrow> a_position a = x"
    "name \<noteq> [] \<longrightarrow> (\<exists>n. referenced_name (he_nip19 env) (rs_db st) a = Some n \<and> equal_fold (r_primary_name n) name)"
    using GetAnchorByName_sound[OF Inr] by blast
  have f: "ar_DNNBlock found = a_dnn_block a" "ar_Position found = a_position a"
    "name \<noteq> [] \<longrightarrow> equal_fold (ar_Name found) name"
    using a(2,5) by (auto simp: record_of_def Let_def)
  have b: "rz_Record (build_resolution env subdomain found st) = found"
    by (simp add: build_resolution_def Let_def split: prod.split)
  have h: "handleResolve env url st = (if case blockNum of Some b \<Rightarrow> b < 0 | None \<Rightarrow> False then Err BeforeGenesisBlock
      else if IsBlocked (a_dnn_block a) (a_position a) [] (rs_marks st) then Err NameBlocked
      else Ok (build_resolution env subdomain found st))"
    by (simp add: handleResolve_def assms Inr f)
  show ?thesis
  proof (cases "case blockNum of Some b \<Rightarrow> b < 0 | None \<Rightarrow> False")
    case True
    then show ?thesis by (auto simp: h split: option.splits)
  next
    case False
    have sound: "rz_Record (build_resolution env subdomain found st) = record_of (he_nip19 env) (rs_db st) a"
      "name \<noteq> [] \<longrightarrow> equal_fold (ar_Name (rz_Record (build_resolution env subdomain found st))) name"
      unfolding b using a(2) f(3) by blast+
    show ?thesis unfolding h using False sound a(1,3,4) by auto
  qed
qed

theorem resolution_sound_witness:
  "case handleResolve \<lparr> he_network = ''mainnet'', he_nip19 = naddr_of, he_npub = (\<lambda>_. None), he_remote_content = (\<lambda>_ _. None),
       he_iter = (\<lambda>m. m) \<rparr> ''n5.1'' site_state of Inr answer \<Rightarrow> ar_ID (rz_Record answer) = ''a1'' | Inl e \<Rightarrow> False"
proof -
  let ?env = "\<lparr> he_network = ''mainnet'', he_nip19 = naddr_of, he_npub = (\<lambda>_. None), he_remote_content = (\<lambda>_ _. None), he_iter = (\<lambda>m. m) \<rparr>"
  have s: "split_domain (to_lower ''n5.1'') = ([], ''n5.1'')" by code_simp
  have p: "parseDNNName (he_network ?env) ''n5.1'' = Ok ([], Some 5, Some 1)" by code_simp
  have "\<exists>answer. handleResolve ?env ''n5.1'' site_state = Inr answer"
    using s p by (simp add: handleResolve_def GetAnchorByName_def candidate_anchors_def site_state_def site_db_def order_by_def
        IsBlocked_def GetLocalMarkByID_def Let_def)
  then show ?thesis
    using resolution_sound[OF s p, of site_state]
    by (auto simp: site_state_def site_db_def record_of_def Let_def split: sum.splits)
qed

end
