(* ===== verification/Admin.thy ===== *)
theory Admin
  imports Resolve
begin

text \<open>
  The routes of \<^verbatim>\<open>src/internal/node/node.go\<close> for the operator's marks, the root path, the node's
  description and debugging, with the queries of \<^verbatim>\<open>src/internal/database/queries.go\<close> they use.  A body
  that is not the expected JSON is \<open>None\<close>.
\<close>

section \<open>Marks\<close>

record mark_request =
  mr_DNNBlock :: int
  mr_Position :: int
  mr_Name :: string
  mr_Mark :: string
  mr_Category :: string
  mr_Reason :: string

text \<open>The status code and the marks afterwards.\<close>

definition handleAddLocalMark :: "int \<Rightarrow> mark_request option \<Rightarrow> awareness_db \<Rightarrow> nat \<times> awareness_db" where
  "handleAddLocalMark now req a =
     (case req of
        None \<Rightarrow> (400, a)
      | Some r \<Rightarrow>
          (case AddLocalMark now (mr_DNNBlock r) (mr_Position r) (mr_Name r) (mr_Mark r) (mr_Category r) (mr_Reason r) a of
             Inl _ \<Rightarrow> (400, a) | Inr a' \<Rightarrow> (200, a')))"

text \<open>What does not start with a number is zero.\<close>

definition handleDeleteLocalMark :: "string \<Rightarrow> string \<Rightarrow> string \<Rightarrow> awareness_db \<Rightarrow> nat \<times> awareness_db" where
  "handleDeleteLocalMark blockStr posStr nameStr a =
     (200, DeleteLocalMark (sscanf_d 0 blockStr) (sscanf_d 0 posStr) nameStr a)"

definition handleGetLocalMarks :: "awareness_db \<Rightarrow> local_mark list" where
  "handleGetLocalMarks a = GetLocalMarks a"

record mark_aggregate =
  ma_DNNBlock :: int
  ma_Position :: int
  ma_AllowCount :: nat
  ma_NeutralCount :: nat
  ma_BlockCount :: nat
  ma_TotalPeers :: nat

text \<open>\<^verbatim>\<open>GROUP BY dnn_block, position ORDER BY total_peers DESC\<close>; \<^verbatim>\<open>COUNT(*)\<close> counts marks, not peers.\<close>

definition aggregate_marks :: "peer_mark list \<Rightarrow> int \<times> int \<Rightarrow> mark_aggregate" where
  "aggregate_marks t g =
     (let rows = filter (\<lambda>r. (pm_block r, pm_position r) = g) t
      in \<lparr> ma_DNNBlock = fst g, ma_Position = snd g,
           ma_AllowCount = count_where (\<lambda>r. pm_mark r = ''allow'') rows,
           ma_NeutralCount = count_where (\<lambda>r. pm_mark r = ''neutral'') rows,
           ma_BlockCount = count_where (\<lambda>r. pm_mark r = ''block'') rows, ma_TotalPeers = length rows \<rparr>)"

definition GetAllPeerMarks :: "awareness_db \<Rightarrow> mark_aggregate list" where
  "GetAllPeerMarks a =
     (let groups = order_by fst (order_by snd (remdups (map (\<lambda>r. (pm_block r, pm_position r)) (peer_marks a))))
      in order_by (\<lambda>m. - int (ma_TotalPeers m)) (map (aggregate_marks (peer_marks a)) groups))"

definition handleGetPeerMarks :: "awareness_db \<Rightarrow> mark_aggregate list" where
  "handleGetPeerMarks a = GetAllPeerMarks a"

record awareness_stats =
  as_LocalTotal :: nat
  as_LocalAllow :: nat
  as_LocalNeutral :: nat
  as_LocalBlock :: nat
  as_PeerTotal :: nat
  as_PeerAllow :: nat
  as_PeerNeutral :: nat
  as_PeerBlock :: nat

definition GetAwarenessStats :: "awareness_db \<Rightarrow> awareness_stats" where
  "GetAwarenessStats a =
     (let l = \<lambda>m. count_where (\<lambda>r. lm_mark r = m) (local_marks a); p = \<lambda>m. count_where (\<lambda>r. pm_mark r = m) (peer_marks a)
      in \<lparr> as_LocalTotal = length (local_marks a), as_LocalAllow = l ''allow'', as_LocalNeutral = l ''neutral'',
           as_LocalBlock = l ''block'', as_PeerTotal = length (peer_marks a), as_PeerAllow = p ''allow'',
           as_PeerNeutral = p ''neutral'', as_PeerBlock = p ''block'' \<rparr>)"

definition handleAwarenessStats :: "awareness_db \<Rightarrow> awareness_stats" where
  "handleAwarenessStats a = GetAwarenessStats a"

text \<open>The key is compared with the \<^verbatim>\<open>npub\<close> of the administrator as it is.\<close>

definition handleAdminCheck :: "string \<Rightarrow> (string \<times> string) option \<Rightarrow> bool option" where
  "handleAdminCheck adminNpub req = map_option (\<lambda>(pubkey, npub).
     npub \<noteq> [] \<and> npub = adminNpub \<or> pubkey \<noteq> [] \<and> adminNpub \<noteq> [] \<and> pubkey = adminNpub) req"

section \<open>The root path\<close>

datatype root_answer = DashboardPage | NodeDocument | RelaySocket

text \<open>
  The routes of the path \<^verbatim>\<open>/\<close> in the order they are added, each with its condition on the method and
  the \<^verbatim>\<open>Accept\<close> header; \<^verbatim>\<open>gorilla/mux\<close> takes the first that matches.
\<close>

definition handleRoot :: "string \<Rightarrow> root_answer" where
  "handleRoot upgradeHeader = (if upgradeHeader = ''websocket'' then RelaySocket else DashboardPage)"

definition root_routes :: "string \<Rightarrow> (bool \<times> root_answer) list \<Rightarrow> root_answer option" where
  "root_routes upgradeHeader rs = map_option snd (find fst rs)"

definition serve_root :: "string \<Rightarrow> string \<Rightarrow> string \<Rightarrow> root_answer option" where
  "serve_root method accept upgradeHeader = root_routes upgradeHeader
     [(method = ''GET'', handleRoot upgradeHeader),
      (method = ''GET'' \<and> accept = ''application/nostr+json'', NodeDocument),
      (True, RelaySocket)]"

section \<open>Debugging\<close>

definition table_counts :: "database \<Rightarrow> (string \<times> nat) list" where
  "table_counts d = [(''name_events'', length (name_events d)), (''connection_events'', length (connection_events d)),
     (''metadata_events'', length (metadata_events d)), (''anchor_events'', length (anchor_events d))]"

definition handleDebugEvents :: "database \<Rightarrow> (string \<times> nat) list" where
  "handleDebugEvents d = table_counts d"

text \<open>Ten rows of each table, with ids and keys cut to eight bytes: a shorter one panics.\<close>

definition short_row :: "('a ev_row_scheme) \<Rightarrow> (string \<times> string \<times> string) option" where
  "short_row r = (if length (r_id r) < 8 \<or> length (r_pubkey r) < 8 then None
     else Some (take 8 (r_id r), take 8 (r_pubkey r), r_d_tag r))"

text \<open>The statement for the anchors names a column that the table does not have; its rows stay nil.\<close>

definition handleDebugAllEvents ::
  "database \<Rightarrow> ((string \<times> nat) list \<times> (string \<times> string \<times> string) list list) option" where
  "handleDebugAllEvents d = map_option (Pair (table_counts d))
     (all_some [all_some (map short_row (take 10 (name_events d))), all_some (map short_row (take 10 (connection_events d))),
        all_some (map short_row (take 10 (metadata_events d)))])"

text \<open>The same column ends the listing of anchors with status 500.\<close>

definition handleDebugAnchors :: "database \<Rightarrow> (db_error, anchor_row list) res" where
  "handleDebugAnchors d = Err DNoSuchColumn"

text \<open>The tables \<^verbatim>\<open>metrics\<close> and \<^verbatim>\<open>event_cache\<close> are not in the model: their sizes are arguments.\<close>

definition handleRelayStats ::
  "nat \<Rightarrow> nat \<Rightarrow> database \<Rightarrow> awareness_db \<Rightarrow> (string \<times> nat) list \<times> (string \<times> string) list \<times> int \<times> int \<times> nat" where
  "handleRelayStats metrics event_cache d a =
     ((''dnn_blocks'', length (dnn_blocks d)) # table_counts d
        @ [(''peer_nodes'', length (peer_nodes a)), (''awareness_marks_local'', length (local_marks a)),
           (''awareness_marks_peers'', length (peer_marks a)), (''bitcoin_transactions'', length (bitcoin_transactions d)),
           (''sync_state'', length (sync_state d)), (''metrics'', metrics), (''event_cache'', event_cache)],
      sync_state d,
      (case order_by (\<lambda>b. - b_number b) (dnn_blocks d) of [] \<Rightarrow> 0 | b # _ \<Rightarrow> b_number b),
      (case order_by (\<lambda>b. - b_number b) (dnn_blocks d) of [] \<Rightarrow> 0 | b # _ \<Rightarrow> b_bitcoin b),
      length (anchor_events d))"

section \<open>Who may block\<close>

lemma mark_added:
  assumes "AddLocalMark now b p n m c r a = Ok a'"
  shows "GetLocalMarkByID b p n a' = Some \<lparr> lm_block = b, lm_position = p, lm_name = n, lm_mark = m,
    lm_category = c, lm_reason = r, lm_updated_at = now \<rparr>"
proof -
  let ?m = "\<lparr> lm_block = b, lm_position = p, lm_name = n, lm_mark = m, lm_category = c, lm_reason = r, lm_updated_at = now \<rparr>"
  have a': "local_marks a' = filter (\<lambda>s. \<not> lm_clash ?m s) (local_marks a) @ [?m]"
    using assms by (auto simp: AddLocalMark_def insert_or_replace_def split: if_splits)
  have "find (at_mark b p n) (filter (\<lambda>s. \<not> lm_clash ?m s) t @ [?m]) = Some ?m" for t
    by (induction t) (auto simp: at_mark_def lm_clash_def)
  then show ?thesis by (simp add: GetLocalMarkByID_def a')
qed

lemma mark_deleted: "GetLocalMarkByID b p n (DeleteLocalMark b p n a) = None"
  by (auto simp: GetLocalMarkByID_def DeleteLocalMark_def delete_where_def find_None_iff)

lemma block_mark: "GetLocalMarkByID b p [] a = Some m \<Longrightarrow> lm_mark m = ''block'' \<Longrightarrow> IsBlocked b p name a"
  by (simp add: IsBlocked_def)

lemma resolution_record [simp]: "rz_Record (build_resolution env sub record st) = record"
  by (simp add: build_resolution_def Let_def split: prod.split)

lemma resolved_not_blocked:
  "handleResolve env url st = Ok answer \<Longrightarrow> \<not> IsBlocked (ar_DNNBlock (rz_Record answer)) (ar_Position (rz_Record answer)) [] (rs_marks st)"
  by (auto simp: handleResolve_def Let_def split: prod.splits sum.splits option.splits if_splits)

text \<open>
  Marks need no authority: one POST request, from anyone, takes the name at a block and position
  down, so that no resolution answers with it until someone, with one DELETE request that needs no
  authority either, removes the mark.
\<close>

lemma marks_need_no_authority:
  fixes st :: relay_state and now :: int and reason :: string
  assumes "category \<in> set validCategories" "in64 b" "in64 p"
  defines "after \<equiv> handleAddLocalMark now (Some \<lparr> mr_DNNBlock = b, mr_Position = p, mr_Name = [], mr_Mark = ''block'',
      mr_Category = category, mr_Reason = reason \<rparr>) (rs_marks st)"
  shows "fst after = 200
    \<and> (\<forall>env url answer. handleResolve env url (st\<lparr>rs_marks := snd after\<rparr>) = Ok answer
         \<longrightarrow> (ar_DNNBlock (rz_Record answer), ar_Position (rz_Record answer)) \<noteq> (b, p))
    \<and> (\<forall>name. IsBlocked b p name (snd after))
    \<and> \<not> IsBlocked b p [] (snd (handleDeleteLocalMark (show_int b) (show_int p) [] (snd after)))"
proof -
  obtain a where a: "AddLocalMark now b p [] ''block'' category reason (rs_marks st) = Ok a"
    using assms(1) by (auto simp: AddLocalMark_def validMarks_def)
  then have "after = (200, a)" by (simp add: after_def handleAddLocalMark_def)
  moreover have "IsBlocked b p name a" for name using block_mark[OF mark_added[OF a]] by simp
  moreover have "\<not> IsBlocked b p [] (DeleteLocalMark b p [] a)" by (simp add: IsBlocked_def mark_deleted)
  moreover have "sscanf_d 0 (show_int b) = b" "sscanf_d 0 (show_int p) = p"
    using scan_int_show[OF assms(2), of "[]"] scan_int_show[OF assms(3), of "[]"] by (simp_all add: sscanf_d_def)
  ultimately show ?thesis
    using resolved_not_blocked[where st = "st\<lparr>rs_marks := a\<rparr>"] by (auto simp: handleDeleteLocalMark_def)
qed

lemma marks_need_no_authority_example:
  "(\<exists>answer. handleResolve main_http ''n5.1'' site_state = Ok answer \<and> ar_DNNBlock (rz_Record answer) = 5 \<and> ar_Position (rz_Record answer) = 1)
   \<and> \<not> (\<exists>answer. handleResolve main_http ''n5.1'' (site_state\<lparr>rs_marks := snd (handleAddLocalMark 9
        (Some \<lparr> mr_DNNBlock = 5, mr_Position = 1, mr_Name = [], mr_Mark = ''block'', mr_Category = [], mr_Reason = [] \<rparr>)
        (rs_marks site_state))\<rparr>) = Ok answer \<and> ar_DNNBlock (rz_Record answer) = 5 \<and> ar_Position (rz_Record answer) = 1)"
proof -
  have s: "split_domain (to_lower ''n5.1'') = ([], ''n5.1'')" by code_simp
  have p: "parseDNNName ''mainnet'' ''n5.1'' = Ok ([], Some 5, Some 1)" by code_simp
  have "\<exists>answer. handleResolve main_http ''n5.1'' site_state = Ok answer \<and> ar_DNNBlock (rz_Record answer) = 5 \<and> ar_Position (rz_Record answer) = 1"
    using s p by (simp add: handleResolve_def main_http_def GetAnchorByName_def candidate_anchors_def site_state_def site_db_def order_by_def
        IsBlocked_def GetLocalMarkByID_def record_of_def Let_def)
  moreover have "([] :: string) \<in> set validCategories" "in64 5" "in64 1" by (simp_all add: validCategories_def in64_def)
  ultimately show ?thesis using marks_need_no_authority[of "[]" 5 1 9 "[]" site_state] by auto
qed

section \<open>What the routes do not do\<close>

text \<open>The document of the relay is never served: the first route takes every GET request.\<close>

lemma nip11_is_never_served: "serve_root method accept upgrade \<noteq> Some NodeDocument"
  by (simp add: serve_root_def root_routes_def handleRoot_def)

text \<open>The sum of the aggregated marks of the peers is their number.\<close>

lemma awareness_stats_add_up:
  assumes "list_all (\<lambda>m. lm_mark m \<in> set validMarks) (local_marks a)"
  shows "as_LocalTotal (GetAwarenessStats a) = as_LocalAllow (GetAwarenessStats a) + as_LocalNeutral (GetAwarenessStats a)
    + as_LocalBlock (GetAwarenessStats a)"
proof -
  have "list_all (\<lambda>m. lm_mark m \<in> set validMarks) t \<Longrightarrow> length t = count_where (\<lambda>r. lm_mark r = ''allow'') t
      + count_where (\<lambda>r. lm_mark r = ''neutral'') t + count_where (\<lambda>r. lm_mark r = ''block'') t" for t
    by (induction t) (auto simp: count_where_def validMarks_def)
  then show ?thesis using assms by (simp add: GetAwarenessStats_def Let_def)
qed

end
