(* ===== verification/Indent.thy ===== *)
theory Indent
  imports Marshal
begin

text \<open>
  \<^verbatim>\<open>json.MarshalIndent\<close> with an empty prefix and two spaces: how a document is laid out, and that the
  decoder reads it back.
\<close>

section \<open>Layout\<close>

definition newline :: "nat \<Rightarrow> string" where
  "newline d = CHR 0x0A # replicate (2 * d) (CHR '' '')"

fun indented :: "nat \<Rightarrow> json \<Rightarrow> string"
and more_elems :: "nat \<Rightarrow> json list \<Rightarrow> string"
and more_members :: "nat \<Rightarrow> (string \<times> json) list \<Rightarrow> string"
where
  "indented d JNull = ''null''"
| "indented d (JBool b) = (if b then ''true'' else ''false'')"
| "indented d (JNum s) = s"
| "indented d (JStr s) = marshal_string s"
| "indented d (JArr []) = ''[]''"
| "indented d (JArr (x # xs)) = CHR ''['' # newline (Suc d) @ indented (Suc d) x @ more_elems d xs"
| "indented d (JObj []) = ''{}''"
| "indented d (JObj ((k, v) # kvs)) =
     CHR ''{'' # newline (Suc d) @ marshal_string k @ CHR '':'' # CHR '' '' # indented (Suc d) v @ more_members d kvs"
| "more_elems d [] = newline d @ '']''"
| "more_elems d (x # xs) = CHR '','' # newline (Suc d) @ indented (Suc d) x @ more_elems d xs"
| "more_members d [] = newline d @ ''}''"
| "more_members d ((k, v) # kvs) =
     CHR '','' # newline (Suc d) @ marshal_string k @ CHR '':'' # CHR '' '' # indented (Suc d) v @ more_members d kvs"

definition MarshalIndent :: "json \<Rightarrow> string" where
  "MarshalIndent j = indented 0 j"

section \<open>Reading back\<close>

text \<open>Documents with valid UTF-8 strings, distinct keys and integers.\<close>

fun plain_json :: "json \<Rightarrow> bool" and plain_elems :: "json list \<Rightarrow> bool" and plain_members :: "(string \<times> json) list \<Rightarrow> bool" where
  "plain_json JNull = True"
| "plain_json (JBool b) = True"
| "plain_json (JNum s) = (\<exists>i. s = show_int i)"
| "plain_json (JStr s) = (valid_part s = s)"
| "plain_json (JArr xs) = plain_elems xs"
| "plain_json (JObj kvs) = (plain_members kvs \<and> distinct (map fst kvs))"
| "plain_elems [] = True"
| "plain_elems (x # xs) = (plain_json x \<and> plain_elems xs)"
| "plain_members [] = True"
| "plain_members ((k, v) # kvs) = (valid_part k = k \<and> plain_json v \<and> plain_members kvs)"

definition ends :: "string \<Rightarrow> bool" where
  "ends t \<longleftrightarrow> t = [] \<or> hd t \<in> {CHR '','', CHR 0x0A}"

lemma skip_ws_newline [simp]: "skip_ws (newline d @ s) = skip_ws s"
proof -
  have "dropWhile is_ws (replicate n (CHR '' '') @ s) = dropWhile is_ws s" for n
    by (induction n) (simp_all add: is_ws_def byte_of_def)
  then show ?thesis by (simp add: skip_ws_def newline_def is_ws_def byte_of_def)
qed

lemma skip_ws_space [simp]: "skip_ws (CHR '' '' # s) = skip_ws s"
  by (simp add: skip_ws_def is_ws_def byte_of_def)

lemma leading_space:
  "p_value k (newline d @ s) = p_value k s" "p_value k (CHR '' '' # s) = p_value k s"
  "p_elems k (newline d @ s) acc = p_elems k s acc" "p_members k (newline d @ s) acc' = p_members k s acc'"
proof -
  show v: "p_value k (newline d @ s) = p_value k s" for k by (cases k) simp_all
  show "p_value k (CHR '' '' # s) = p_value k s" by (cases k) simp_all
  show "p_elems k (newline d @ s) acc = p_elems k s acc" by (cases k) (simp_all add: v del: p_value.simps)
  show "p_members k (newline d @ s) acc' = p_members k s acc'" by (cases k) (simp_all del: p_value.simps)
qed

lemma more_ends: "ends (more_elems d xs @ t)" "ends (more_members d kvs @ t)"
  by (cases xs; simp add: ends_def newline_def) (cases kvs; auto simp: ends_def newline_def)

lemma more_long: "2 \<le> length (more_elems d xs)" "2 \<le> length (more_members d kvs)"
  by (cases xs; simp add: newline_def) (cases kvs; auto simp: newline_def marshal_string_def)

text \<open>Integers.\<close>

lemma show_nat_head: "n \<noteq> 0 \<Longrightarrow> hd (show_nat n) \<noteq> CHR ''0''"
proof (induction n rule: show_nat.induct)
  case (1 n)
  show ?case
  proof (cases "n < 10")
    case True
    then have "n \<in> set [1..<10]" using 1(2) by auto
    moreover have "list_all (\<lambda>m. hd (show_nat m) \<noteq> CHR ''0'') [1..<10]" by code_simp
    ultimately show ?thesis unfolding list_all_iff by blast
  next
    case False
    then have "show_nat (n div 10) \<noteq> []" by (simp add: show_nat.simps[of "n div 10"])
    then show ?thesis using 1(1) False by (simp add: show_nat.simps[of n])
  qed
qed

lemma not_digit_end: "ends t \<Longrightarrow> t = [] \<or> \<not> is_digit (hd t) \<and> hd t \<noteq> CHR ''.'' \<and> hd t \<noteq> CHR ''e'' \<and> hd t \<noteq> CHR ''E''"
  by (auto simp: ends_def is_digit_def byte_of_def)

lemma p_number_show_int:
  assumes "ends t"
  shows "p_number (show_int i @ t) = Some (show_int i, t)"
proof -
  note t = not_digit_end[OF assms]
  have rest: "frac_part t = Some ([], t)" "exp_part t = Some ([], t)"
    using t by (auto simp: frac_part_def exp_part_def next_is_def split: list.splits)
  have digits: "takeWhile is_digit (show_nat n @ t) = show_nat n" "dropWhile is_digit (show_nat n @ t) = t" for n
    using t show_nat_digits[of n] by (cases t; auto simp: list_all_iff takeWhile_append dropWhile_append)+
  have int: "int_part (show_nat n @ t) = Some (show_nat n, t)" for n
  proof (cases "n = 0")
    case True
    have "show_nat 0 = ''0''" by code_simp
    then show ?thesis using True by (simp add: int_part_def next_is_def)
  next
    case False
    then show ?thesis using show_nat_head[OF False] digits[of n] by (simp add: int_part_def next_is_def digits_part_def)
  qed
  have sign: "\<not> next_is (CHR ''-'') (show_nat n @ t)" for n
    using show_nat_digits[of n] digit_not_sign by (cases "show_nat n") (auto simp: next_is_def)
  show ?thesis
  proof (cases "i < 0")
    case True
    then show ?thesis using int[of "nat (- i)"] rest by (simp add: p_number_def show_int_def next_is_def)
  next
    case False
    then show ?thesis using int[of "nat i"] rest sign[of "nat i"] by (simp add: p_number_def show_int_def)
  qed
qed

lemma show_int_first: "\<exists>c r. show_int i = c # r \<and> (is_digit c \<or> c = CHR ''-'')"
proof (cases "i < 0")
  case False
  then show ?thesis using show_nat_digits[of "nat i"] by (cases "show_nat (nat i)") (auto simp: show_int_def)
qed (simp add: show_int_def)

lemma p_value_show_int:
  assumes "ends t"
  shows "p_value (Suc k) (show_int i @ t) = Ok (JNum (show_int i), t)"
proof -
  obtain c r where c: "show_int i = c # r" "is_digit c \<or> c = CHR ''-''" using show_int_first by blast
  have w: "\<not> is_ws c" using c(2) by (auto simp: is_ws_def is_digit_def byte_of_def)
  have "c \<notin> {CHR ''{'', CHR ''['', CHR 0x22, CHR ''t'', CHR ''f'', CHR ''n''}" using c(2) by (auto simp: is_digit_def byte_of_def)
  then show ?thesis using p_number_show_int[OF assms, of i] skip_ws_kept[OF w] by (simp add: c(1))
qed

text \<open>Every plain document is read back, whatever follows it.\<close>

lemma put_new: "k \<notin> fst ` set acc \<Longrightarrow> put k v acc = acc @ [(k, v)]"
  unfolding put_def by (auto simp: filter_id_conv)

lemma p_elems_step:
  assumes "p_value k s = Ok (v, more_elems d xs @ t)"
  shows "p_elems (Suc k) s acc = (case xs of [] \<Rightarrow> Ok (JArr (acc @ [v]), t)
    | x # ys \<Rightarrow> p_elems k (indented (Suc d) x @ more_elems d ys @ t) (acc @ [v]))"
  using assms by (cases xs) (simp_all add: leading_space)

lemma p_members_step:
  assumes "valid_part key = key" "p_value k s = Ok (v, more_members d kvs @ t)" "key \<notin> fst ` set acc"
  shows "p_members (Suc k) (marshal_string key @ CHR '':'' # CHR '' '' # s) acc = (case kvs of [] \<Rightarrow> Ok (JObj (acc @ [(key, v)]), t)
    | (k', v') # ys \<Rightarrow> p_members k (marshal_string k' @ CHR '':'' # CHR '' '' # indented (Suc d) v' @ more_members d ys @ t) (acc @ [(key, v)]))"
  using p_string_marshalled[of key "CHR '':'' # CHR '' '' # s"] assms put_new[OF assms(3)]
  by (cases kvs) (auto simp: leading_space marshal_string_def next_is_def split: prod.splits)

lemma indented_nonempty: "plain_json j \<Longrightarrow> indented d j \<noteq> []"
proof (cases j)
  case (JNum s)
  assume "plain_json j"
  then show ?thesis using JNum show_int_first by (metis indented.simps(3) list.discI plain_json.simps(3))
next
  case (JArr xs)
  then show ?thesis by (cases xs) simp_all
next
  case (JObj kvs)
  then show ?thesis by (cases kvs) auto
qed (auto simp: marshal_string_def)

text \<open>A value does not start like the end of a list.\<close>

lemma not_closing:
  assumes "plain_json j"
  shows "\<not> next_is (CHR '']'') (skip_ws (indented d j @ t))"
proof (cases j)
  case (JNum s)
  then obtain i where "s = show_int i" using assms by auto
  moreover obtain c r where "show_int i = c # r" "is_digit c \<or> c = CHR ''-''" using show_int_first by blast
  ultimately show ?thesis using JNum by (auto simp: skip_ws_def is_ws_def is_digit_def byte_of_def next_is_def)
next
  case (JArr xs)
  then show ?thesis by (cases xs) (simp_all add: next_is_def)
next
  case (JObj kvs)
  then show ?thesis by (cases kvs) (auto simp: next_is_def)
qed (simp_all add: next_is_def skip_ws_def is_ws_def byte_of_def marshal_string_def)

lemma elems_from:
  assumes x: "\<And>k t. length (indented (Suc d) x) < k \<Longrightarrow> ends t \<Longrightarrow> p_value k (indented (Suc d) x @ t) = Ok (x, t)"
    and xs: "\<And>k acc. length (more_elems d xs) < k
      \<Longrightarrow> (case xs of [] \<Rightarrow> True | y # ys \<Rightarrow> p_elems k (indented (Suc d) y @ more_elems d ys @ t) acc = Ok (JArr (acc @ xs), t))"
    and k: "length (indented (Suc d) x) + length (more_elems d xs) < k" "indented (Suc d) x \<noteq> []"
  shows "p_elems k (indented (Suc d) x @ more_elems d xs @ t) acc = Ok (JArr (acc @ x # xs), t)"
proof -
  obtain m where m: "k = Suc m" using k(1) by (cases k) auto
  have "length (indented (Suc d) x) < m" using k(1) more_long(1)[of d xs] by (simp add: m)
  then have "p_value m (indented (Suc d) x @ more_elems d xs @ t) = Ok (x, more_elems d xs @ t)" by (intro x more_ends)
  moreover have "length (more_elems d xs) < m" using k by (cases "indented (Suc d) x") (auto simp: m)
  ultimately show ?thesis using xs[of m "acc @ [x]"] p_elems_step[of m _ x d xs t acc] by (cases xs) (simp_all add: m)
qed

lemma members_from:
  assumes v: "\<And>k t. length (indented (Suc d) v) < k \<Longrightarrow> ends t \<Longrightarrow> p_value k (indented (Suc d) v @ t) = Ok (v, t)"
    and kvs: "\<And>k acc. distinct (map fst (acc @ kvs)) \<Longrightarrow> length (more_members d kvs) < k
      \<Longrightarrow> (case kvs of [] \<Rightarrow> True | (k', v') # ys \<Rightarrow>
        p_members k (marshal_string k' @ CHR '':'' # CHR '' '' # indented (Suc d) v' @ more_members d ys @ t) acc = Ok (JObj (acc @ kvs), t))"
    and k: "length (indented (Suc d) v) + length (more_members d kvs) < k" "indented (Suc d) v \<noteq> []"
    and key: "valid_part key = key" "distinct (map fst (acc @ (key, v) # kvs))"
  shows "p_members k (marshal_string key @ CHR '':'' # CHR '' '' # indented (Suc d) v @ more_members d kvs @ t) acc
    = Ok (JObj (acc @ (key, v) # kvs), t)"
proof -
  obtain m where m: "k = Suc m" using k(1) by (cases k) auto
  have "length (indented (Suc d) v) < m" using k(1) more_long(2)[of d kvs] by (simp add: m)
  then have 1: "p_value m (indented (Suc d) v @ more_members d kvs @ t) = Ok (v, more_members d kvs @ t)" by (intro v more_ends)
  have 2: "length (more_members d kvs) < m" using k by (cases "indented (Suc d) v") (auto simp: m)
  have 3: "key \<notin> fst ` set acc" using key(2) by auto
  have "distinct (map fst ((acc @ [(key, v)]) @ kvs))" using key(2) by simp
  then show ?thesis using kvs[OF _ 2, of "acc @ [(key, v)]"] p_members_step[OF key(1) 1 3] by (cases kvs) (auto simp: m)
qed

lemma read_indented:
  "plain_json j \<Longrightarrow> length (indented d j) < k \<Longrightarrow> ends t \<Longrightarrow> p_value k (indented d j @ t) = Ok (j, t)"
  "plain_elems xs \<Longrightarrow> length (more_elems d xs) < k
     \<Longrightarrow> (case xs of [] \<Rightarrow> True | x # ys \<Rightarrow> p_elems k (indented (Suc d) x @ more_elems d ys @ t) acc = Ok (JArr (acc @ xs), t))"
  "plain_members kvs \<Longrightarrow> distinct (map fst (acc' @ kvs)) \<Longrightarrow> length (more_members d kvs) < k
     \<Longrightarrow> (case kvs of [] \<Rightarrow> True | (k', v) # ys \<Rightarrow>
          p_members k (marshal_string k' @ CHR '':'' # CHR '' '' # indented (Suc d) v @ more_members d ys @ t) acc' = Ok (JObj (acc' @ kvs), t))"
proof (induction d j and d xs and d kvs arbitrary: k t and k t acc and k t acc' rule: indented_more_elems_more_members.induct)
  case (1 d)
  then show ?case by (cases k) (simp_all add: p_literal_def has_prefix_def)
next
  case (2 d b)
  then show ?case by (cases k) (auto simp: p_literal_def has_prefix_def skip_ws_kept is_ws_def byte_of_def)
next
  case (3 d s)
  then show ?case using p_value_show_int by (cases k) auto
next
  case (4 d s)
  then show ?case using p_value_string by (cases k) auto
next
  case (5 d)
  then show ?case by (cases k) (simp_all add: next_is_def)
next
  case (6 d x xs)
  obtain m where m: "k = Suc m" using 6(4) by (cases k) auto
  have "p_elems m (indented (Suc d) x @ more_elems d xs @ t) [] = Ok (JArr ([] @ x # xs), t)"
    using 6 by (intro elems_from) (auto simp: m indented_nonempty newline_def)
  then show ?case using not_closing[of x "Suc d"] 6(3) by (simp add: m leading_space)
next
  case (7 d)
  then show ?case by (cases k) (simp_all add: next_is_def)
next
  case (8 d key v kvs)
  obtain m where m: "k = Suc m" using 8(4) by (cases k) auto
  have "p_members m (marshal_string key @ CHR '':'' # CHR '' '' # indented (Suc d) v @ more_members d kvs @ t) [] = Ok (JObj ([] @ (key, v) # kvs), t)"
    using 8 by (intro members_from) (auto simp: m indented_nonempty newline_def)
  then show ?case by (simp add: m leading_space marshal_string_def next_is_def)
next
  case (10 d x xs)
  have "p_elems k (indented (Suc d) x @ more_elems d xs @ t) acc = Ok (JArr (acc @ x # xs), t)"
    using 10 by (intro elems_from) (auto simp: indented_nonempty)
  then show ?case by simp
next
  case (12 d key v kvs)
  have "p_members k (marshal_string key @ CHR '':'' # CHR '' '' # indented (Suc d) v @ more_members d kvs @ t) acc' = Ok (JObj (acc' @ (key, v) # kvs), t)"
    using 12 by (intro members_from) (auto simp: indented_nonempty)
  then show ?case by simp
qed simp_all

text \<open>Every plain document that was laid out is read back.\<close>

lemma parse_MarshalIndent: "plain_json j \<Longrightarrow> parse_json (MarshalIndent j) = Some j"
  using read_indented(1)[of j 0 "Suc (2 * length (indented 0 j))" "[]"]
  by (simp add: parse_json_def MarshalIndent_def ends_def skip_ws_def del: p_value.simps)

end
