(* ===== verification/Config.thy ===== *)
theory Config
  imports Content Indent "HOL-Library.Monad_Syntax"
begin

text \<open>
  \<^verbatim>\<open>src/internal/config/config.go\<close> and how \<^verbatim>\<open>main.go\<close> uses it: the configuration file is created with a
  new key or read, overridden by flags, and corrected.  The file system is a map from paths to contents
  with the paths that cannot be used; key generation and the bech32 encoding are arguments.
\<close>

section \<open>The configuration\<close>

text \<open>A nil slice is \<open>None\<close>.\<close>

record bitcoin_rpc =
  br_UseP2P :: bool
  br_P2PPeers :: "string list option"

record dns_settings =
  ds_Enabled :: bool
  ds_Port :: int
  ds_UpstreamDNS :: "string list option"
  ds_CacheTTL :: int
  ds_QueryTimeout :: int

record config =
  cf_NodePrivateKey :: string
  cf_NodePubkey :: string
  cf_NodeNpub :: string
  cf_Network :: string
  cf_Port :: int
  cf_DataDir :: string
  cf_RelayURLs :: "string list option"
  cf_PeerNodes :: "string list option"
  cf_BitcoinRPC :: bitcoin_rpc
  cf_SyncInterval :: int
  cf_BlockBatchSize :: int
  cf_MaxConnections :: int
  cf_DNS :: dns_settings
  cf_EnableAwareness :: bool
  cf_AdminNpub :: string
  cf_AnnounceAddresses :: "string list option"

definition default_config :: "int \<Rightarrow> string \<Rightarrow> config" where
  "default_config port dataDir =
     \<lparr> cf_NodePrivateKey = [], cf_NodePubkey = [], cf_NodeNpub = [], cf_Network = ''testnet'', cf_Port = port, cf_DataDir = dataDir,
       cf_RelayURLs = Some [''wss://relay.damus.io'', ''wss://relay.nostr.band'', ''wss://nos.lol'', ''wss://relay.primal.net''],
       cf_PeerNodes = Some [], cf_BitcoinRPC = \<lparr> br_UseP2P = True, br_P2PPeers = Some [] \<rparr>,
       cf_SyncInterval = 60, cf_BlockBatchSize = 5, cf_MaxConnections = 1000,
       cf_DNS = \<lparr> ds_Enabled = True, ds_Port = 53, ds_UpstreamDNS = Some [''8.8.8.8:53'', ''1.1.1.1:53''], ds_CacheTTL = 300, ds_QueryTimeout = 5 \<rparr>,
       cf_EnableAwareness = True, cf_AdminNpub = [], cf_AnnounceAddresses = Some [] \<rparr>"

section \<open>Writing\<close>

definition json_strings_opt :: "string list option \<Rightarrow> json" where
  "json_strings_opt xs = (case xs of None \<Rightarrow> JNull | Some l \<Rightarrow> JArr (map JStr l))"

definition json_int :: "int \<Rightarrow> json" where
  "json_int i = JNum (show_int i)"

definition bitcoin_rpc_doc :: "bitcoin_rpc \<Rightarrow> json" where
  "bitcoin_rpc_doc b = JObj [(''use_p2p'', JBool (br_UseP2P b)), (''p2p_peers'', json_strings_opt (br_P2PPeers b))]"

definition dns_doc :: "dns_settings \<Rightarrow> json" where
  "dns_doc d = JObj
     [(''enabled'', JBool (ds_Enabled d)), (''port'', json_int (ds_Port d)), (''upstream_dns'', json_strings_opt (ds_UpstreamDNS d)),
      (''cache_ttl'', json_int (ds_CacheTTL d)), (''query_timeout'', json_int (ds_QueryTimeout d))]"

definition config_doc :: "config \<Rightarrow> json" where
  "config_doc c = JObj
     [(''node_private_key'', JStr (cf_NodePrivateKey c)), (''node_pubkey'', JStr (cf_NodePubkey c)), (''node_npub'', JStr (cf_NodeNpub c)),
      (''network'', JStr (cf_Network c)), (''port'', json_int (cf_Port c)), (''data_dir'', JStr (cf_DataDir c)),
      (''relay_urls'', json_strings_opt (cf_RelayURLs c)), (''peer_nodes'', json_strings_opt (cf_PeerNodes c)),
      (''bitcoin_rpc'', bitcoin_rpc_doc (cf_BitcoinRPC c)), (''sync_interval'', json_int (cf_SyncInterval c)),
      (''block_batch_size'', json_int (cf_BlockBatchSize c)), (''max_connections'', json_int (cf_MaxConnections c)),
      (''dns'', dns_doc (cf_DNS c)), (''enable_awareness'', JBool (cf_EnableAwareness c)), (''admin_npub'', JStr (cf_AdminNpub c)),
      (''announce_addresses'', json_strings_opt (cf_AnnounceAddresses c))]"

section \<open>Reading over an existing value\<close>

text \<open>
  \<^verbatim>\<open>json.Unmarshal\<close> into a struct that already has values: what the document does not name stays, \<^verbatim>\<open>null\<close>
  leaves a value as it is, except that it makes a slice nil; an array takes the elements of the old slice
  where it has \<^verbatim>\<open>null\<close>.
\<close>

definition over :: "('a \<Rightarrow> json \<Rightarrow> 'a option) \<Rightarrow> 'a \<Rightarrow> string \<Rightarrow> (string \<times> json) list \<Rightarrow> 'a option" where
  "over f current name kvs = foldl (\<lambda>v j. Option.bind v (\<lambda>x. f x j)) (Some current) (members name kvs)"

definition over_string :: "string \<Rightarrow> json \<Rightarrow> string option" where
  "over_string v j = (case j of JStr s \<Rightarrow> Some s | JNull \<Rightarrow> Some v | _ \<Rightarrow> None)"

definition over_int :: "int \<Rightarrow> json \<Rightarrow> int option" where
  "over_int v j = (case j of JNum s \<Rightarrow> parse_int64 s | JNull \<Rightarrow> Some v | _ \<Rightarrow> None)"

definition over_bool :: "bool \<Rightarrow> json \<Rightarrow> bool option" where
  "over_bool v j = (case j of JBool b \<Rightarrow> Some b | JNull \<Rightarrow> Some v | _ \<Rightarrow> None)"

definition over_strings :: "string list option \<Rightarrow> json \<Rightarrow> string list option option" where
  "over_strings v j =
     (let old = (case v of None \<Rightarrow> [] | Some l \<Rightarrow> l) in
      case j of
        JArr xs \<Rightarrow> map_option Some (all_some (map (\<lambda>(i, x). over_string (if i < length old then old ! i else []) x) (enumerate 0 xs)))
      | JNull \<Rightarrow> Some None
      | _ \<Rightarrow> None)"

definition over_object :: "('a \<Rightarrow> (string \<times> json) list \<Rightarrow> 'a option) \<Rightarrow> 'a \<Rightarrow> json \<Rightarrow> 'a option" where
  "over_object f v j = (case j of JObj kvs \<Rightarrow> f v kvs | JNull \<Rightarrow> Some v | _ \<Rightarrow> None)"

definition over_bitcoin_rpc :: "bitcoin_rpc \<Rightarrow> (string \<times> json) list \<Rightarrow> bitcoin_rpc option" where
  "over_bitcoin_rpc b kvs = do {
     u \<leftarrow> over over_bool (br_UseP2P b) ''use_p2p'' kvs;
     p \<leftarrow> over over_strings (br_P2PPeers b) ''p2p_peers'' kvs;
     Some \<lparr> br_UseP2P = u, br_P2PPeers = p \<rparr> }"

definition over_dns :: "dns_settings \<Rightarrow> (string \<times> json) list \<Rightarrow> dns_settings option" where
  "over_dns d kvs = do {
     e \<leftarrow> over over_bool (ds_Enabled d) ''enabled'' kvs;
     p \<leftarrow> over over_int (ds_Port d) ''port'' kvs;
     u \<leftarrow> over over_strings (ds_UpstreamDNS d) ''upstream_dns'' kvs;
     c \<leftarrow> over over_int (ds_CacheTTL d) ''cache_ttl'' kvs;
     q \<leftarrow> over over_int (ds_QueryTimeout d) ''query_timeout'' kvs;
     Some \<lparr> ds_Enabled = e, ds_Port = p, ds_UpstreamDNS = u, ds_CacheTTL = c, ds_QueryTimeout = q \<rparr> }"

definition over_config :: "config \<Rightarrow> (string \<times> json) list \<Rightarrow> config option" where
  "over_config c kvs = do {
     k \<leftarrow> over over_string (cf_NodePrivateKey c) ''node_private_key'' kvs;
     p \<leftarrow> over over_string (cf_NodePubkey c) ''node_pubkey'' kvs;
     n \<leftarrow> over over_string (cf_NodeNpub c) ''node_npub'' kvs;
     w \<leftarrow> over over_string (cf_Network c) ''network'' kvs;
     o' \<leftarrow> over over_int (cf_Port c) ''port'' kvs;
     d \<leftarrow> over over_string (cf_DataDir c) ''data_dir'' kvs;
     r \<leftarrow> over over_strings (cf_RelayURLs c) ''relay_urls'' kvs;
     e \<leftarrow> over over_strings (cf_PeerNodes c) ''peer_nodes'' kvs;
     b \<leftarrow> over (over_object over_bitcoin_rpc) (cf_BitcoinRPC c) ''bitcoin_rpc'' kvs;
     s \<leftarrow> over over_int (cf_SyncInterval c) ''sync_interval'' kvs;
     z \<leftarrow> over over_int (cf_BlockBatchSize c) ''block_batch_size'' kvs;
     m \<leftarrow> over over_int (cf_MaxConnections c) ''max_connections'' kvs;
     y \<leftarrow> over (over_object over_dns) (cf_DNS c) ''dns'' kvs;
     w' \<leftarrow> over over_bool (cf_EnableAwareness c) ''enable_awareness'' kvs;
     a \<leftarrow> over over_string (cf_AdminNpub c) ''admin_npub'' kvs;
     l \<leftarrow> over over_strings (cf_AnnounceAddresses c) ''announce_addresses'' kvs;
     Some \<lparr> cf_NodePrivateKey = k, cf_NodePubkey = p, cf_NodeNpub = n, cf_Network = w, cf_Port = o', cf_DataDir = d, cf_RelayURLs = r,
       cf_PeerNodes = e, cf_BitcoinRPC = b, cf_SyncInterval = s, cf_BlockBatchSize = z, cf_MaxConnections = m, cf_DNS = y,
       cf_EnableAwareness = w', cf_AdminNpub = a, cf_AnnounceAddresses = l \<rparr> }"

section \<open>Files\<close>

record files =
  fs_content :: "string \<Rightarrow> string option"
  fs_no_dir :: "string list"
  fs_locked :: "string list"

datatype config_error = NoDirectory | NoKey | NoFile | BadConfig

text \<open>\<open>fs_no_dir\<close> lists the paths whose directory cannot be made, \<open>fs_locked\<close> those that cannot be read or written.\<close>

definition Save :: "config \<Rightarrow> string \<Rightarrow> files \<Rightarrow> (config_error, files) res" where
  "Save c path fs =
     (if path \<in> set (fs_no_dir fs) then Err NoDirectory
      else if path \<in> set (fs_locked fs) then Err NoFile
      else Ok (fs\<lparr>fs_content := (fs_content fs)(path := Some (MarshalIndent (config_doc c)))\<rparr>))"

definition fileExists :: "string \<Rightarrow> files \<Rightarrow> bool" where
  "fileExists path fs \<longleftrightarrow> fs_content fs path \<noteq> None"

text \<open>A secret key, its public key and the npub of that, where they can be computed.\<close>

record keygen =
  kg_sk :: string
  kg_pubkey :: "string \<Rightarrow> string option"
  kg_npub :: "string \<Rightarrow> string option"

definition new_config :: "keygen \<Rightarrow> config \<Rightarrow> config option" where
  "new_config kg c = do {
     pubkey \<leftarrow> kg_pubkey kg (kg_sk kg);
     npub \<leftarrow> kg_npub kg pubkey;
     Some (c\<lparr>cf_NodePrivateKey := kg_sk kg, cf_NodePubkey := pubkey, cf_NodeNpub := npub\<rparr>) }"

definition with_flags :: "int \<Rightarrow> string \<Rightarrow> config \<Rightarrow> config" where
  "with_flags port dataDir c =
     (let c1 = (if port \<noteq> 8080 then c\<lparr>cf_Port := port\<rparr> else c)
      in if dataDir \<noteq> ''./data'' then c1\<lparr>cf_DataDir := dataDir\<rparr> else c1)"

definition read_config :: "int \<Rightarrow> string \<Rightarrow> string \<Rightarrow> (config_error, config) res" where
  "read_config port dataDir data =
     (case parse_json data of
        None \<Rightarrow> Err BadConfig
      | Some j \<Rightarrow> (case over_object over_config (default_config port dataDir) j of
           None \<Rightarrow> Err BadConfig
         | Some c \<Rightarrow> Ok (with_flags port dataDir c)))"

definition Load :: "keygen \<Rightarrow> string \<Rightarrow> int \<Rightarrow> string \<Rightarrow> bool \<Rightarrow> files \<Rightarrow> (config_error, config) res \<times> files" where
  "Load kg configPath port dataDir initMode fs =
     (if dataDir \<in> set (fs_no_dir fs) then (Err NoDirectory, fs)
      else if initMode \<or> \<not> fileExists configPath fs then
        (case new_config kg (default_config port dataDir) of
           None \<Rightarrow> (Err NoKey, fs)
         | Some cfg \<Rightarrow> (case Save cfg configPath fs of Inl e \<Rightarrow> (Err e, fs) | Inr fs' \<Rightarrow> (Ok cfg, fs')))
      else
        (case fs_content fs configPath of
           None \<Rightarrow> (Err NoFile, fs)
         | Some data \<Rightarrow>
             if configPath \<in> set (fs_locked fs) then (Err NoFile, fs) else (read_config port dataDir data, fs)))"

definition config_Validate :: "config \<Rightarrow> config" where
  "config_Validate c =
     (let c1 = (if cf_Network c \<notin> {''mainnet'', ''testnet'', ''dev''} then c\<lparr>cf_Network := ''testnet''\<rparr> else c)
      in if cf_Port c1 < 1 \<or> cf_Port c1 > 65535 then c1\<lparr>cf_Port := 8080\<rparr> else c1)"

section \<open>What is written is read back\<close>

definition storable :: "config \<Rightarrow> bool" where
  "storable c \<longleftrightarrow>
     list_all (\<lambda>s. valid_part s = s) ([cf_NodePrivateKey c, cf_NodePubkey c, cf_NodeNpub c, cf_Network c, cf_DataDir c, cf_AdminNpub c]
       @ concat (map (\<lambda>l. case l of None \<Rightarrow> [] | Some xs \<Rightarrow> xs)
          [cf_RelayURLs c, cf_PeerNodes c, br_P2PPeers (cf_BitcoinRPC c), ds_UpstreamDNS (cf_DNS c), cf_AnnounceAddresses c]))
     \<and> list_all in64 [cf_Port c, cf_SyncInterval c, cf_BlockBatchSize c, cf_MaxConnections c, ds_Port (cf_DNS c), ds_CacheTTL (cf_DNS c), ds_QueryTimeout (cf_DNS c)]"

lemma plain_strings: "list_all (\<lambda>s. valid_part s = s) (case xs of None \<Rightarrow> [] | Some l \<Rightarrow> l) \<Longrightarrow> plain_json (json_strings_opt xs)"
proof -
  have "list_all (\<lambda>s. valid_part s = s) l \<Longrightarrow> plain_elems (map JStr l)" for l by (induction l) simp_all
  then show "list_all (\<lambda>s. valid_part s = s) (case xs of None \<Rightarrow> [] | Some l \<Rightarrow> l) \<Longrightarrow> plain_json (json_strings_opt xs)"
    by (cases xs) (simp_all add: json_strings_opt_def)
qed

lemma over_strings_written: "over_strings v (json_strings_opt xs) = Some xs"
proof -
  have "all_some (map (\<lambda>(i, x). over_string (f i) x) (enumerate n (map JStr l))) = Some l" for f n and l :: "string list"
    by (induction l arbitrary: n) (simp_all add: over_string_def)
  then show ?thesis by (cases xs) (simp_all add: over_strings_def json_strings_opt_def Let_def)
qed

lemma over_written:
  "over_string v (JStr s) = Some s" "over_bool b (JBool b') = Some b'" "in64 i \<Longrightarrow> over_int n (json_int i) = Some i"
  by (simp_all add: over_string_def over_bool_def over_int_def json_int_def parse_show_int)

text \<open>In a document of a struct every field is found once.\<close>

lemma members_once:
  assumes "distinct (map (fold_name \<circ> fst) kvs)" "(name, j) \<in> set kvs"
  shows "members name kvs = [j]"
proof -
  have "filter (\<lambda>p. fold_name (fst p) = fold_name name) kvs = [(name, j)]"
    using assms
  proof (induction kvs)
    case (Cons p kvs)
    show ?case
    proof (cases "p = (name, j)")
      case True
      then have "fold_name name \<notin> (fold_name \<circ> fst) ` set kvs" using Cons.prems(1) by auto
      then have "filter (\<lambda>p. fold_name (fst p) = fold_name name) kvs = []" unfolding filter_empty_conv by force
      then show ?thesis using True by simp
    next
      case False
      then have "(name, j) \<in> set kvs" using Cons.prems(2) by simp
      then have "fold_name (fst p) \<noteq> fold_name name" using Cons.prems(1) by force
      then show ?thesis using Cons.IH Cons.prems(1) \<open>(name, j) \<in> set kvs\<close> by simp
    qed
  qed simp
  then show ?thesis by (simp add: members_def)
qed

lemma over_found:
  assumes "distinct (map (fold_name \<circ> fst) kvs)" "(name, j) \<in> set kvs"
  shows "over f v name kvs = f v j"
  using members_once[OF assms] by (simp add: over_def)

lemma distinct_keys:
  assumes "map fst kvs = names" "distinct (map fold_name names)"
  shows "distinct (map (fold_name \<circ> fst) kvs)"
  using assms(2) unfolding assms(1)[symmetric] by (simp add: comp_def)

lemma bitcoin_rpc_written: "over_object over_bitcoin_rpc v (bitcoin_rpc_doc b) = Some b"
proof -
  let ?kvs = "[(''use_p2p'', JBool (br_UseP2P b)), (''p2p_peers'', json_strings_opt (br_P2PPeers b))]"
  have "distinct (map fold_name [''use_p2p'', ''p2p_peers''])" by code_simp
  then have "distinct (map (fold_name \<circ> fst) ?kvs)" by (rule distinct_keys[rotated]) simp
  note f = over_found[OF this]
  show ?thesis by (simp add: over_object_def bitcoin_rpc_doc_def over_bitcoin_rpc_def f over_written over_strings_written)
qed

lemma dns_written:
  assumes "in64 (ds_Port d)" "in64 (ds_CacheTTL d)" "in64 (ds_QueryTimeout d)"
  shows "over_object over_dns v (dns_doc d) = Some d"
proof -
  obtain kvs where kvs: "dns_doc d = JObj kvs" "map fst kvs = [''enabled'', ''port'', ''upstream_dns'', ''cache_ttl'', ''query_timeout'']"
    and sets: "set kvs = {(''enabled'', JBool (ds_Enabled d)), (''port'', json_int (ds_Port d)), (''upstream_dns'', json_strings_opt (ds_UpstreamDNS d)),
      (''cache_ttl'', json_int (ds_CacheTTL d)), (''query_timeout'', json_int (ds_QueryTimeout d))}"
    by (simp add: dns_doc_def)
  have "distinct (map fold_name [''enabled'', ''port'', ''upstream_dns'', ''cache_ttl'', ''query_timeout''])" by code_simp
  note f = over_found[OF distinct_keys[OF kvs(2) this], unfolded sets]
  show ?thesis by (simp add: kvs(1) over_object_def over_dns_def f over_written over_strings_written assms)
qed

definition config_keys :: "string list" where
  "config_keys = [''node_private_key'', ''node_pubkey'', ''node_npub'', ''network'', ''port'', ''data_dir'', ''relay_urls'', ''peer_nodes'',
     ''bitcoin_rpc'', ''sync_interval'', ''block_batch_size'', ''max_connections'', ''dns'', ''enable_awareness'', ''admin_npub'', ''announce_addresses'']"

lemma config_written:
  assumes "storable c"
  shows "over_object over_config v (config_doc c) = Some c"
proof -
  obtain kvs where kvs: "config_doc c = JObj kvs" "map fst kvs = config_keys"
    and sets: "set kvs = {(''node_private_key'', JStr (cf_NodePrivateKey c)), (''node_pubkey'', JStr (cf_NodePubkey c)), (''node_npub'', JStr (cf_NodeNpub c)),
      (''network'', JStr (cf_Network c)), (''port'', json_int (cf_Port c)), (''data_dir'', JStr (cf_DataDir c)),
      (''relay_urls'', json_strings_opt (cf_RelayURLs c)), (''peer_nodes'', json_strings_opt (cf_PeerNodes c)),
      (''bitcoin_rpc'', bitcoin_rpc_doc (cf_BitcoinRPC c)), (''sync_interval'', json_int (cf_SyncInterval c)),
      (''block_batch_size'', json_int (cf_BlockBatchSize c)), (''max_connections'', json_int (cf_MaxConnections c)),
      (''dns'', dns_doc (cf_DNS c)), (''enable_awareness'', JBool (cf_EnableAwareness c)), (''admin_npub'', JStr (cf_AdminNpub c)),
      (''announce_addresses'', json_strings_opt (cf_AnnounceAddresses c))}"
    by (simp add: config_doc_def config_keys_def)
  have "distinct (map fold_name config_keys)" by code_simp
  note f = over_found[OF distinct_keys[OF kvs(2) this], unfolded sets]
  have "in64 (cf_Port c)" "in64 (cf_SyncInterval c)" "in64 (cf_BlockBatchSize c)" "in64 (cf_MaxConnections c)"
    "in64 (ds_Port (cf_DNS c))" "in64 (ds_CacheTTL (cf_DNS c))" "in64 (ds_QueryTimeout (cf_DNS c))"
    using assms by (simp_all add: storable_def)
  then show ?thesis
    by (simp add: kvs(1) over_object_def[of over_config] over_config_def f over_written over_strings_written bitcoin_rpc_written dns_written)
qed

lemma config_plain:
  assumes "storable c"
  shows "plain_json (config_doc c)"
proof -
  have "distinct config_keys" by code_simp
  moreover have "list_all (\<lambda>k. valid_part k = k) (config_keys @ [''use_p2p'', ''p2p_peers'', ''enabled'', ''upstream_dns'', ''cache_ttl'', ''query_timeout''])"
    by code_simp
  ultimately show ?thesis
    using assms plain_strings[of "cf_RelayURLs c"] plain_strings[of "cf_PeerNodes c"] plain_strings[of "br_P2PPeers (cf_BitcoinRPC c)"]
      plain_strings[of "ds_UpstreamDNS (cf_DNS c)"] plain_strings[of "cf_AnnounceAddresses c"]
    by (simp add: storable_def config_doc_def bitcoin_rpc_doc_def dns_doc_def config_keys_def json_int_def) blast
qed

lemma saved_config_loads:
  assumes "Save c path fs = Ok fs1" "storable c" "dataDir \<notin> set (fs_no_dir fs)"
  shows "Load kg path port dataDir False fs1 = (Ok (with_flags port dataDir c), fs1)"
proof -
  have fs1: "path \<notin> set (fs_locked fs)" "fs1 = fs\<lparr>fs_content := (fs_content fs)(path := Some (MarshalIndent (config_doc c)))\<rparr>"
    using assms(1) by (auto simp: Save_def split: if_splits)
  have "read_config port dataDir (MarshalIndent (config_doc c)) = Ok (with_flags port dataDir c)"
    by (simp add: read_config_def parse_MarshalIndent[OF config_plain[OF assms(2)]] config_written[OF assms(2)])
  then show ?thesis using fs1 assms(3) by (simp add: Load_def fileExists_def)
qed

text \<open>
  A node keeps its identity and settings: the configuration that a first start or an initialisation
  creates is what every later start reads, whatever key its generator would give, except for the port
  and the directory of the flags.
\<close>

lemma configuration_persists:
  assumes "Load kg path port dataDir initMode fs = (Ok cfg, fs1)" "initMode \<or> fs_content fs path = None"
    and "storable cfg" "dataDir' \<notin> set (fs_no_dir fs)"
  shows "Load kg' path port' dataDir' False fs1 = (Ok (with_flags port' dataDir' cfg), fs1)
    \<and> cf_NodePrivateKey (with_flags port' dataDir' cfg) = kg_sk kg"
proof -
  have s: "Save cfg path fs = Ok fs1" "new_config kg (default_config port dataDir) = Some cfg"
    using assms(1,2) by (auto simp: Load_def fileExists_def split: if_splits option.splits sum.splits)
  have "cf_NodePrivateKey cfg = kg_sk kg"
    using s(2) by (auto simp: new_config_def Option.bind_eq_Some_conv)
  then show ?thesis using saved_config_loads[OF s(1) assms(3,4)] by (simp add: with_flags_def Let_def)
qed

definition some_keys :: keygen where
  "some_keys = \<lparr> kg_sk = ''5ec'', kg_pubkey = (\<lambda>s. Some (s @ ''p'')), kg_npub = (\<lambda>s. Some (''npub1'' @ s)) \<rparr>"

definition no_files :: files where
  "no_files = \<lparr> fs_content = (\<lambda>_. None), fs_no_dir = [], fs_locked = [] \<rparr>"

lemma configuration_persists_example:
  "\<exists>cfg. fst (Load some_keys ''config.json'' 8080 ''./data'' False no_files) = Ok cfg
    \<and> Load (some_keys\<lparr>kg_sk := ''other''\<rparr>) ''config.json'' 9000 ''./data'' False (snd (Load some_keys ''config.json'' 8080 ''./data'' False no_files))
      = (Ok (cfg\<lparr>cf_Port := 9000\<rparr>), snd (Load some_keys ''config.json'' 8080 ''./data'' False no_files))"
proof -
  obtain cfg fs1 where l: "Load some_keys ''config.json'' 8080 ''./data'' False no_files = (Ok cfg, fs1)"
    and c: "new_config some_keys (default_config 8080 ''./data'') = Some cfg"
    by (simp add: Load_def no_files_def fileExists_def new_config_def some_keys_def Save_def)
  have "case new_config some_keys (default_config 8080 ''./data'') of None \<Rightarrow> False | Some c \<Rightarrow> storable c" by code_simp
  then have "storable cfg" using c by simp
  then show ?thesis
    using configuration_persists[OF l, of "''./data''" "some_keys\<lparr>kg_sk := ''other''\<rparr>" 9000] l
    by (simp add: no_files_def with_flags_def)
qed

section \<open>Flags and corrections\<close>

text \<open>A flag that is given with its default value does not override the file.\<close>

lemma default_flags_are_ignored: "with_flags 8080 ''./data'' c = c"
  by (simp add: with_flags_def)

text \<open>Validation leaves a network the program knows and a usable port, and is settled after one time.\<close>

lemma validated_config:
  "cf_Network (config_Validate c) \<in> {''mainnet'', ''testnet'', ''dev''} \<and> 1 \<le> cf_Port (config_Validate c)
   \<and> cf_Port (config_Validate c) \<le> 65535 \<and> config_Validate (config_Validate c) = config_Validate c"
  by (auto simp: config_Validate_def Let_def)

text \<open>An initialisation over an existing file replaces its key.\<close>

lemma init_replaces_key:
  "Load kg path port dataDir True fs = (Ok cfg, fs1) \<Longrightarrow> cf_NodePrivateKey cfg = kg_sk kg"
  by (auto simp: Load_def new_config_def Option.bind_eq_Some_conv split: if_splits option.splits sum.splits)

end
