(* ===== verification/Dashboard.thy ===== *)
theory Dashboard
  imports Listings Admin Service Config
begin

text \<open>
  The routes of \<^verbatim>\<open>src/internal/node/node.go\<close> that report on the node, and the sockets of the dashboard.
  The clock and the measured time since the start are arguments; a write to a socket may fail.
\<close>

section \<open>Reports\<close>

record node_status =
  ns_pubkey :: string
  ns_npub :: string
  ns_connected_peers :: nat
  ns_syncing :: bool
  ns_last_sync :: "int option"
  ns_dnn_version :: string
  ns_uptime :: int
  ns_stats :: stats

text \<open>\<open>n_clients\<close> are the sockets of the relay, \<open>n_dashboard\<close> those of the dashboard.\<close>

record node_sockets =
  n_clients :: "nat list"
  n_dashboard :: "nat list"

text \<open>Without an error of the database, which is not modelled, the statistics are those of the listings.\<close>

definition handleStatus :: "listing_env \<Rightarrow> config \<Rightarrow> node_sockets \<Rightarrow> service_state \<Rightarrow> int \<Rightarrow> database \<Rightarrow> node_status" where
  "handleStatus env cfg n st uptime d =
     \<lparr> ns_pubkey = cf_NodePubkey cfg, ns_npub = cf_NodeNpub cfg, ns_connected_peers = length (n_clients n),
       ns_syncing = sv_syncing st, ns_last_sync = sv_lastSync st, ns_dnn_version = ''0.1.0'', ns_uptime = uptime,
       ns_stats = GetStats env d \<rparr>"

definition handlePeers :: "service_state \<Rightarrow> config_peer list" where
  "handlePeers st = GetPeers st"

definition handleHealth :: "(string \<times> string) list" where
  "handleHealth = [(''status'', ''healthy'')]"

definition handleGetBlock :: "string \<Rightarrow> (string \<times> string) list" where
  "handleGetBlock block = [(''block'', block), (''message'', ''Block retrieval not yet implemented'')]"

record node_info =
  ni_pubkey :: string
  ni_npub :: string
  ni_genesis_block :: int
  ni_network :: string
  ni_relay_url :: string
  ni_configured_relays :: "string list option"
  ni_configured_peers :: "string list option"
  ni_peers :: "config_peer list"
  ni_awareness :: "awareness_stats option"
  ni_admin_npub :: string

text \<open>The marks are counted when the feature is enabled.\<close>

definition handleNodeInfo :: "config \<Rightarrow> service_state \<Rightarrow> awareness_db \<Rightarrow> string \<Rightarrow> bool \<Rightarrow> node_info" where
  "handleNodeInfo cfg st a host tls =
     \<lparr> ni_pubkey = cf_NodePubkey cfg, ni_npub = cf_NodeNpub cfg, ni_genesis_block = GetGenesisBlock (cf_Network cfg),
       ni_network = cf_Network cfg, ni_relay_url = (if tls then ''wss'' else ''ws'') @ ''://'' @ host,
       ni_configured_relays = cf_RelayURLs cfg, ni_configured_peers = cf_PeerNodes cfg, ni_peers = GetPeers st,
       ni_awareness = (if cf_EnableAwareness cfg then Some (GetAwarenessStats a) else None), ni_admin_npub = cf_AdminNpub cfg \<rparr>"

section \<open>Sockets\<close>

definition add_client :: "nat \<Rightarrow> node_sockets \<Rightarrow> node_sockets" where
  "add_client conn n = n\<lparr>n_clients := (if conn \<in> set (n_clients n) then n_clients n else n_clients n @ [conn])\<rparr>"

definition remove_client :: "nat \<Rightarrow> node_sockets \<Rightarrow> node_sockets" where
  "remove_client conn n = n\<lparr>n_clients := filter (\<lambda>c. c \<noteq> conn) (n_clients n)\<rparr>"

definition add_dashboard :: "nat \<Rightarrow> node_sockets \<Rightarrow> node_sockets" where
  "add_dashboard conn n = n\<lparr>n_dashboard := (if conn \<in> set (n_dashboard n) then n_dashboard n else n_dashboard n @ [conn])\<rparr>"

definition remove_dashboard :: "nat \<Rightarrow> node_sockets \<Rightarrow> node_sockets" where
  "remove_dashboard conn n = n\<lparr>n_dashboard := filter (\<lambda>c. c \<noteq> conn) (n_dashboard n)\<rparr>"

text \<open>The messages written, in the order in which the range statement visits the sockets.\<close>

definition node_BroadcastEvent :: "(nat \<Rightarrow> bool) \<Rightarrow> event \<Rightarrow> node_sockets \<Rightarrow> (nat \<times> event) list" where
  "node_BroadcastEvent writes ev n = map (\<lambda>c. (c, ev)) (filter writes (n_clients n))"

record 'a dashboard_update =
  du_Type :: string
  du_Data :: 'a
  du_Timestamp :: int

definition sendDashboardUpdate :: "(nat \<Rightarrow> bool) \<Rightarrow> nat \<Rightarrow> 'a dashboard_update \<Rightarrow> (nat \<times> 'a dashboard_update) list" where
  "sendDashboardUpdate writes conn u = (if writes conn then [(conn, u)] else [])"

definition BroadcastDashboardUpdate :: "(nat \<Rightarrow> bool) \<Rightarrow> int \<Rightarrow> string \<Rightarrow> 'a \<Rightarrow> node_sockets \<Rightarrow> (nat \<times> 'a dashboard_update) list" where
  "BroadcastDashboardUpdate writes now updateType payload n =
     (if length (n_dashboard n) = 0 then []
      else let update = \<lparr> du_Type = updateType, du_Data = payload, du_Timestamp = now \<rparr>
           in map (\<lambda>c. (c, update)) (filter writes (n_dashboard n)))"

text \<open>
  The goroutines that write to the sockets of the dashboard.  A connection starts one that sends the
  statistics; every update of the synchroniser is written by the goroutine that made it, under a lock
  that many may hold.  \<open>dw_writing\<close> lists the writes that are under way.
\<close>

record dashboard_writes =
  dw_sockets :: node_sockets
  dw_initial :: "nat list"
  dw_writing :: "(nat \<times> nat) list"

inductive dashboard_step :: "dashboard_writes \<Rightarrow> dashboard_writes \<Rightarrow> bool" where
  connects: "conn \<notin> set (n_dashboard (dw_sockets s))
    \<Longrightarrow> dashboard_step s (s\<lparr>dw_sockets := add_dashboard conn (dw_sockets s), dw_initial := conn # dw_initial s\<rparr>)"
| leaves: "dashboard_step s (s\<lparr>dw_sockets := remove_dashboard conn (dw_sockets s)\<rparr>)"
| sends_stats: "conn \<in> set (dw_initial s)
    \<Longrightarrow> dashboard_step s (s\<lparr>dw_initial := remove1 conn (dw_initial s), dw_writing := (g, conn) # dw_writing s\<rparr>)"
| sends_update: "conn \<in> set (n_dashboard (dw_sockets s)) \<Longrightarrow> g \<notin> fst ` set (dw_writing s)
    \<Longrightarrow> dashboard_step s (s\<lparr>dw_writing := (g, conn) # dw_writing s\<rparr>)"
| written: "dashboard_step s (s\<lparr>dw_writing := remove1 (g, conn) (dw_writing s)\<rparr>)"

inductive dashboard_run :: "dashboard_writes \<Rightarrow> bool" where
  dashboard_start: "dashboard_run \<lparr> dw_sockets = \<lparr> n_clients = [], n_dashboard = [] \<rparr>, dw_initial = [], dw_writing = [] \<rparr>"
| dashboard_next: "dashboard_run s \<Longrightarrow> dashboard_step s s' \<Longrightarrow> dashboard_run s'"

definition one_writer :: "dashboard_writes \<Rightarrow> bool" where
  "one_writer s \<longleftrightarrow> distinct (map snd (dw_writing s))"

section \<open>What the reports say\<close>

lemma broadcast_complete:
  "fst ` set (BroadcastDashboardUpdate writes now t p n) = {c \<in> set (n_dashboard n). writes c}"
  by (auto simp: BroadcastDashboardUpdate_def Let_def image_image)

text \<open>The number of connected peers is that of the clients of the relay, whatever peers there are.\<close>

lemma connected_peers_are_clients:
  "ns_connected_peers (handleStatus env cfg n st u d) = length (n_clients n)
   \<and> ns_connected_peers (handleStatus env cfg n (st\<lparr>sv_peers := ps\<rparr>) u d) = length (n_clients n)"
  by (simp add: handleStatus_def)

text \<open>Two goroutines can write to one socket at the same time, which \<^verbatim>\<open>gorilla/websocket\<close> forbids.\<close>

lemma dashboard_writers_overlap: "\<exists>s. dashboard_run s \<and> \<not> one_writer s"
proof -
  let ?s0 = "\<lparr> dw_sockets = \<lparr> n_clients = [], n_dashboard = [] \<rparr>, dw_initial = [], dw_writing = [] \<rparr>"
  let ?s1 = "?s0\<lparr>dw_sockets := add_dashboard 0 (dw_sockets ?s0), dw_initial := 0 # dw_initial ?s0\<rparr>"
  let ?s2 = "?s1\<lparr>dw_writing := (1, 0) # dw_writing ?s1\<rparr>"
  let ?s3 = "?s2\<lparr>dw_writing := (2, 0) # dw_writing ?s2\<rparr>"
  have "dashboard_run ?s1" by (rule dashboard_next[OF dashboard_start connects]) simp
  moreover have "dashboard_step ?s1 ?s2" by (rule sends_update) (simp_all add: add_dashboard_def)
  ultimately have "dashboard_run ?s2" by (rule dashboard_next)
  moreover have "dashboard_step ?s2 ?s3" by (rule sends_update) (simp_all add: add_dashboard_def)
  ultimately have "dashboard_run ?s3" by (rule dashboard_next)
  then show ?thesis by (intro exI[of _ ?s3]) (simp add: one_writer_def)
qed

lemma dashboard_distinct: "dashboard_run s \<Longrightarrow> distinct (n_dashboard (dw_sockets s))"
proof (induction rule: dashboard_run.induct)
  case (dashboard_next s s')
  from dashboard_next.hyps(2) dashboard_next.IH show ?case
    by cases (auto simp: add_dashboard_def remove_dashboard_def)
qed simp

end
