(* ===== verification/Resolver.thy ===== *)
theory Resolver
  imports Resolve Encoder
begin

text \<open>
  \<^verbatim>\<open>src/internal/resolver/resolver.go\<close>: the resolver with its cache, the notations it reads and prints, and
  paths into the metadata.  Times and the time to live are in one unit of the caller.  Go's random
  choices are arguments: \<open>rv_order\<close> is the iteration order of the multipliers, \<open>evict\<close> picks the
  entry that makes room.  A nil map is \<open>None\<close>.  The goroutines of \<^verbatim>\<open>ResolveMultiple\<close> run one after another
  here; in the source they share the cache without a lock.
\<close>

section \<open>Results\<close>

record resolution_result =
  rn_Name :: string
  rn_Pubkey :: string
  rn_DNNBlock :: int
  rn_BitcoinBlock :: int
  rn_Position :: int
  rn_Connection :: "(string \<times> json) list option"
  rn_Metadata :: "(string \<times> json) list option"
  rn_EncodedNotation :: string
  rn_AlternateNotations :: "string list"
  rn_CreatedAt :: int

record resolver =
  rv_encoder :: encoder
  rv_order :: "(string \<times> int) list"
  rv_nip19 :: "string \<Rightarrow> naddr_data option"

definition NewResolverWithNetwork :: "(string \<times> int) list \<Rightarrow> (string \<Rightarrow> naddr_data option) \<Rightarrow> string \<Rightarrow> resolver" where
  "NewResolverWithNetwork order decode networkMode =
     \<lparr> rv_encoder = NewEncoderWithNetwork networkMode, rv_order = order, rv_nip19 = decode \<rparr>"

definition NewResolver :: "(string \<times> int) list \<Rightarrow> (string \<Rightarrow> naddr_data option) \<Rightarrow> resolver" where
  "NewResolver order decode = NewResolverWithNetwork order decode ''testnet''"

section \<open>Notations\<close>

definition contains_char :: "char \<Rightarrow> string \<Rightarrow> bool" where
  "contains_char c s \<longleftrightarrow> c \<in> set s"

text \<open>Name, block and position; it never fails, since an input that cannot be read is a name.\<close>

definition parseInput :: "resolver \<Rightarrow> string \<Rightarrow> string \<times> int option \<times> int" where
  "parseInput r input0 =
     (let input = trim_prefix (trim_prefix (trim_prefix input0 ''dnn://'') ''https://'') ''http://'' in
      if \<not> contains_char (CHR ''.'') input then (input, None, 1)
      else
        let name = takeWhile (\<lambda>c. c \<noteq> CHR ''.'') input; notn = tl (dropWhile (\<lambda>c. c \<noteq> CHR ''.'') input);
            decoded = (if contains_char (CHR ''-'') notn then Decode (rv_encoder r) notn else Err NoFirstWord)
        in case decoded of
             Inr (block, pos) \<Rightarrow> (name, Some block, pos)
           | Inl _ \<Rightarrow>
               (case ParseNotation (rv_order r) (rv_encoder r) input of
                  Inr (parsedName, block, pos) \<Rightarrow> (parsedName, Some block, pos)
                | Inl _ \<Rightarrow> (input, None, 1)))"

definition generateAlternateNotations :: "resolver \<Rightarrow> string \<Rightarrow> int \<Rightarrow> int \<Rightarrow> string \<Rightarrow> string list" where
  "generateAlternateNotations r name dnnBlock position encoded =
     map (\<lambda>notn. name @ ''.'' @ notn)
       ([FormatDNNBlock dnnBlock position, FormatBitcoinBlock (rv_encoder r) dnnBlock position, encoded]
        @ (if position = 1 then [''n'' @ show_int dnnBlock, ''b'' @ show_int (wrap64 (dnnBlock + 1000000))] else []))"

section \<open>Resolution\<close>

datatype resolver_error = QueryFailed db_error | InvalidConnection | InvalidMetadata | Cancelled

definition buildResult :: "resolver \<Rightarrow> anchor_record \<Rightarrow> (resolver_error, resolution_result) res" where
  "buildResult r record =
     (case Option.bind (parse_json (ar_ConnectionContent record)) as_map of
        None \<Rightarrow> Err InvalidConnection
      | Some connection \<Rightarrow>
          (case Option.bind (parse_json (ar_MetadataContent record)) as_map of
             None \<Rightarrow> Err InvalidMetadata
           | Some metadataWrapper \<Rightarrow>
               let metadata = (case metadataWrapper of
                     None \<Rightarrow> None | Some kvs \<Rightarrow> (case map_of kvs ''metadata'' of Some (JObj m) \<Rightarrow> Some m | _ \<Rightarrow> None));
                   encoded = (case Encode (rv_encoder r) (ar_DNNBlock record) (ar_Position record) of Inr s \<Rightarrow> s | Inl _ \<Rightarrow> [])
               in Ok \<lparr> rn_Name = ar_Name record, rn_Pubkey = ar_Pubkey record, rn_DNNBlock = ar_DNNBlock record,
                    rn_BitcoinBlock = ar_BitcoinBlock record, rn_Position = ar_Position record, rn_Connection = connection,
                    rn_Metadata = metadata, rn_EncodedNotation = encoded,
                    rn_AlternateNotations = generateAlternateNotations r (ar_Name record) (ar_DNNBlock record) (ar_Position record) encoded,
                    rn_CreatedAt = ar_CreatedAt record \<rparr>))"

text \<open>A resolution without the cache.\<close>

definition lookup_input :: "resolver \<Rightarrow> database \<Rightarrow> string \<Rightarrow> (resolver_error, resolution_result) res" where
  "lookup_input r d input =
     (case parseInput r input of (name, blockNum, position) \<Rightarrow>
        (case GetAnchorByName (rv_nip19 r) name blockNum (Some position) d of
           Inl e \<Rightarrow> Err (QueryFailed e)
         | Inr record \<Rightarrow> buildResult r record))"

section \<open>The cache\<close>

record cache_entry =
  ce_Result :: resolution_result
  ce_ExpiresAt :: int

record resolver_cache =
  rc_entries :: "(string \<times> cache_entry) list"
  rc_maxSize :: nat
  rc_ttl :: int

definition cache_Get :: "int \<Rightarrow> string \<Rightarrow> resolver_cache \<Rightarrow> resolution_result option \<times> resolver_cache" where
  "cache_Get now key rc =
     (case map_of (rc_entries rc) key of
        None \<Rightarrow> (None, rc)
      | Some entry \<Rightarrow>
          if now > ce_ExpiresAt entry then (None, rc\<lparr>rc_entries := filter (\<lambda>e. fst e \<noteq> key) (rc_entries rc)\<rparr>)
          else (Some (ce_Result entry), rc))"

text \<open>The entry that goes is the first the range statement meets; the key may be in the cache already.\<close>

definition evicted :: "nat \<Rightarrow> (string \<times> cache_entry) list \<Rightarrow> (string \<times> cache_entry) list" where
  "evicted evict entries =
     (if entries = [] then [] else filter (\<lambda>e. fst e \<noteq> fst (entries ! (evict mod length entries))) entries)"

definition cache_Set :: "int \<Rightarrow> nat \<Rightarrow> string \<Rightarrow> resolution_result \<Rightarrow> resolver_cache \<Rightarrow> resolver_cache" where
  "cache_Set now evict key result rc =
     rc\<lparr>rc_entries := map_put key \<lparr> ce_Result = result, ce_ExpiresAt = now + rc_ttl rc \<rparr>
       (if length (rc_entries rc) \<ge> rc_maxSize rc then evicted evict (rc_entries rc) else rc_entries rc)\<rparr>"

definition cache_Clear :: "resolver_cache \<Rightarrow> resolver_cache" where
  "cache_Clear rc = rc\<lparr>rc_entries := []\<rparr>"

record cache_stats =
  cs_Size :: nat
  cs_MaxSize :: nat
  cs_Expired :: nat
  cs_TTL :: int

definition cache_GetStats :: "int \<Rightarrow> resolver_cache \<Rightarrow> cache_stats" where
  "cache_GetStats now rc = \<lparr> cs_Size = length (rc_entries rc), cs_MaxSize = rc_maxSize rc,
     cs_Expired = length (filter (\<lambda>e. now > ce_ExpiresAt (snd e)) (rc_entries rc)), cs_TTL = rc_ttl rc \<rparr>"

definition Resolve :: "resolver \<Rightarrow> int \<Rightarrow> nat \<Rightarrow> database \<Rightarrow> string \<Rightarrow> resolver_cache \<Rightarrow> (resolver_error, resolution_result) res \<times> resolver_cache" where
  "Resolve r now evict d input rc =
     (case cache_Get now input rc of
        (Some cached, rc1) \<Rightarrow> (Ok cached, rc1)
      | (None, rc1) \<Rightarrow>
          (case lookup_input r d input of
             Inl e \<Rightarrow> (Err e, rc1)
           | Inr result \<Rightarrow> (Ok result, cache_Set now evict input result rc1)))"

text \<open>The names in the order in which their goroutines run, with the choice for an eviction each.\<close>

fun ResolveMultiple ::
  "resolver \<Rightarrow> int \<Rightarrow> database \<Rightarrow> (string \<times> nat) list \<Rightarrow> resolver_cache \<Rightarrow> (string \<times> resolution_result) list \<times> resolver_cache" where
  "ResolveMultiple r now d [] rc = ([], rc)"
| "ResolveMultiple r now d ((name, evict) # names) rc =
     (case Resolve r now evict d name rc of (result, rc1) \<Rightarrow>
        (case ResolveMultiple r now d names rc1 of (results, rc2) \<Rightarrow>
           (case result of Inl _ \<Rightarrow> (results, rc2)
            | Inr x \<Rightarrow> (if name \<in> fst ` set results then results else (name, x) # results, rc2))))"

section \<open>Paths\<close>

text \<open>A nil interface is \<open>JNull\<close>.\<close>

fun resolveMetadataPath :: "(string \<times> json) list option \<Rightarrow> string list \<Rightarrow> json" where
  "resolveMetadataPath current [] = (case current of None \<Rightarrow> JNull | Some kvs \<Rightarrow> JObj kvs)"
| "resolveMetadataPath current (segment # segments) =
     (case current of
        None \<Rightarrow> JNull
      | Some kvs \<Rightarrow>
          (case map_of kvs segment of
             None \<Rightarrow> JNull
           | Some (JObj nextMap) \<Rightarrow> resolveMetadataPath (Some nextMap) segments
           | Some v \<Rightarrow> v))"

record path_resolution =
  pr_Base :: resolution_result
  pr_Path :: string
  pr_Segments :: "string list"
  pr_ResolvedValue :: "json option"

definition ResolvePath :: "resolver \<Rightarrow> int \<Rightarrow> nat \<Rightarrow> database \<Rightarrow> string \<Rightarrow> resolver_cache \<Rightarrow> (resolver_error, path_resolution) res \<times> resolver_cache" where
  "ResolvePath r now evict d path rc =
     (let parts = split_on (CHR ''/'') path in
      case Resolve r now evict d (hd parts) rc of
        (Inl e, rc1) \<Rightarrow> (Err e, rc1)
      | (Inr result, rc1) \<Rightarrow>
          (Ok \<lparr> pr_Base = result, pr_Path = path, pr_Segments = tl parts,
             pr_ResolvedValue = (if length parts > 1 then Some (resolveMetadataPath (rn_Metadata result) (tl parts)) else None) \<rparr>, rc1))"

section \<open>What the cache answers\<close>

text \<open>
  A history lists the times and databases of the resolutions so far.  A cache is explained by it when
  every entry is the result of one of them, with the time to live from then on.
\<close>

definition explained :: "resolver \<Rightarrow> (int \<times> database) list \<Rightarrow> resolver_cache \<Rightarrow> bool" where
  "explained r hist rc \<longleftrightarrow> (\<forall>(key, entry) \<in> set (rc_entries rc).
     \<exists>(t, d) \<in> set hist. lookup_input r d key = Ok (ce_Result entry) \<and> ce_ExpiresAt entry = t + rc_ttl rc)"

definition cache_ok :: "resolver_cache \<Rightarrow> bool" where
  "cache_ok rc \<longleftrightarrow> distinct (map fst (rc_entries rc)) \<and> length (rc_entries rc) \<le> rc_maxSize rc \<and> 0 < rc_maxSize rc"

lemma map_put_set: "set (map_put k v m) = {e \<in> set m. fst e \<noteq> k} \<union> {(k, v)}"
  by (auto simp: map_put_def)

lemma evicted_subset: "set (evicted n m) \<subseteq> set m"
  by (auto simp: evicted_def)

lemma evicted_shorter: "m \<noteq> [] \<Longrightarrow> length (evicted n m) < length m"
  unfolding evicted_def by (auto intro!: length_filter_less)

lemma get_kept:
  assumes "cache_Get now key rc = (x, rc')"
  shows "set (rc_entries rc') \<subseteq> set (rc_entries rc)" "rc_maxSize rc' = rc_maxSize rc" "rc_ttl rc' = rc_ttl rc"
    "cache_ok rc \<Longrightarrow> cache_ok rc'"
proof -
  have f: "distinct (map fst m) \<Longrightarrow> distinct (map fst (filter P m))" for P and m :: "(string \<times> cache_entry) list"
    by (induction m) auto
  have "rc' = rc \<or> rc' = rc\<lparr>rc_entries := filter (\<lambda>e. fst e \<noteq> key) (rc_entries rc)\<rparr>"
    using assms by (auto simp: cache_Get_def split: option.splits if_splits)
  then show "set (rc_entries rc') \<subseteq> set (rc_entries rc)" "rc_maxSize rc' = rc_maxSize rc" "rc_ttl rc' = rc_ttl rc"
    "cache_ok rc \<Longrightarrow> cache_ok rc'"
    by (auto simp: cache_ok_def f intro: le_trans[OF length_filter_le])
qed

lemma put_ok: "distinct (map fst m) \<Longrightarrow> length m < n \<Longrightarrow> distinct (map fst (map_put k v m)) \<and> length (map_put k v m) \<le> n"
proof -
  assume m: "distinct (map fst m)" "length m < n"
  have "distinct (map fst (filter P m))" for P using m(1) by (induction m) auto
  moreover have "length (filter P m) < n" for P using length_filter_le[of P m] m(2) by (rule le_less_trans)
  ultimately show ?thesis by (auto simp: map_put_def Suc_le_eq)
qed

lemma set_ok:
  assumes "cache_ok rc"
  shows "cache_ok (cache_Set now evict key result rc)"
proof -
  have f: "distinct (map fst m) \<Longrightarrow> distinct (map fst (filter P m))" for P and m :: "(string \<times> cache_entry) list"
    by (induction m) auto
  let ?m = "if length (rc_entries rc) \<ge> rc_maxSize rc then evicted evict (rc_entries rc) else rc_entries rc"
  have "length ?m < rc_maxSize rc"
    using assms evicted_shorter[of "rc_entries rc" evict] by (cases "rc_entries rc = []") (auto simp: cache_ok_def)
  moreover have "distinct (map fst ?m)" using assms f by (simp add: cache_ok_def evicted_def)
  ultimately show ?thesis
    using assms put_ok[of ?m "rc_maxSize rc" key] unfolding cache_ok_def cache_Set_def by simp
qed

lemma set_entries:
  "set (rc_entries (cache_Set now evict key result rc)) \<subseteq> set (rc_entries rc) \<union> {(key, \<lparr> ce_Result = result, ce_ExpiresAt = now + rc_ttl rc \<rparr>)}"
  using evicted_subset[of evict "rc_entries rc"] by (auto simp: cache_Set_def map_put_set)

lemma Resolve_explained:
  assumes "cache_ok rc" "explained r hist rc" "Resolve r now evict d input rc = (answer, rc')"
  shows "cache_ok rc'" "explained r ((now, d) # hist) rc'"
    "answer = Ok x \<Longrightarrow> \<exists>(t, d') \<in> set ((now, d) # hist). lookup_input r d' input = Ok x \<and> now \<le> t + max 0 (rc_ttl rc)"
proof -
  obtain c rc1 where g: "cache_Get now input rc = (c, rc1)" by fastforce
  note k = get_kept[OF g]
  have e1: "explained r ((now, d) # hist) rc1"
    using assms(2) k(1,3) by (fastforce simp: explained_def)
  show "cache_ok rc'"
    using assms(3) g k(4)[OF assms(1)] set_ok by (auto simp: Resolve_def split: option.splits sum.splits)
  show "explained r ((now, d) # hist) rc'"
  proof (cases "c = None \<and> (\<exists>res. lookup_input r d input = Ok res)")
    case True
    then obtain res where res: "lookup_input r d input = Ok res" and rc': "rc' = cache_Set now evict input res rc1"
      using assms(3) g by (auto simp: Resolve_def)
    have "set (rc_entries rc') \<subseteq> set (rc_entries rc1) \<union> {(input, \<lparr> ce_Result = res, ce_ExpiresAt = now + rc_ttl rc1 \<rparr>)}"
      unfolding rc' by (rule set_entries)
    moreover have "rc_ttl rc' = rc_ttl rc1" by (simp add: rc' cache_Set_def)
    ultimately show ?thesis using e1 res by (fastforce simp: explained_def)
  next
    case False
    then have "rc' = rc1" using assms(3) g by (auto simp: Resolve_def split: option.splits sum.splits)
    then show ?thesis using e1 by simp
  qed
  assume x: "answer = Ok x"
  show "\<exists>(t, d') \<in> set ((now, d) # hist). lookup_input r d' input = Ok x \<and> now \<le> t + max 0 (rc_ttl rc)"
  proof (cases c)
    case None
    then have "lookup_input r d input = Ok x" using assms(3) g x by (auto simp: Resolve_def split: sum.splits)
    then show ?thesis by auto
  next
    case (Some y)
    then have y: "y = x" using assms(3) g x by (simp add: Resolve_def)
    obtain entry where "map_of (rc_entries rc) input = Some entry" "now \<le> ce_ExpiresAt entry" "ce_Result entry = x"
      using g Some y by (auto simp: cache_Get_def split: option.splits if_splits)
    then show ?thesis using assms(2) map_of_SomeD by (fastforce simp: explained_def)
  qed
qed

text \<open>The runs of a resolver: in every step the clock and the database are what they are.\<close>

inductive resolver_run :: "resolver \<Rightarrow> int \<Rightarrow> (int \<times> database) list \<Rightarrow> resolver_cache \<Rightarrow> bool" for r ttl where
  run_new: "resolver_run r ttl [] \<lparr> rc_entries = [], rc_maxSize = 1000, rc_ttl = ttl \<rparr>"
| run_resolve: "resolver_run r ttl hist rc \<Longrightarrow> resolver_run r ttl ((now, d) # hist) (snd (Resolve r now evict d input rc))"
| run_clear: "resolver_run r ttl hist rc \<Longrightarrow> resolver_run r ttl hist (cache_Clear rc)"

lemma run_invariant: "resolver_run r ttl hist rc \<Longrightarrow> cache_ok rc \<and> explained r hist rc \<and> rc_ttl rc = ttl \<and> rc_maxSize rc = 1000"
proof (induction rule: resolver_run.induct)
  case (run_resolve hist rc now d evict input)
  obtain answer rc' where r: "Resolve r now evict d input rc = (answer, rc')" by fastforce
  obtain c rc1 where g: "cache_Get now input rc = (c, rc1)" by fastforce
  have "rc_ttl rc' = rc_ttl rc1 \<and> rc_maxSize rc' = rc_maxSize rc1"
    using r g by (auto simp: Resolve_def cache_Set_def split: option.splits sum.splits)
  moreover have "cache_ok rc" "explained r hist rc" using run_resolve.IH by simp_all
  ultimately show ?case using Resolve_explained(1,2)[OF _ _ r, of hist] run_resolve.IH get_kept(2,3)[OF g] by (simp add: r)
qed (simp_all add: cache_ok_def explained_def cache_Clear_def)

text \<open>
  In every run of a resolver an answer is what the database of this or of an earlier resolution,
  at most the time to live ago, says of the input; and the cache never holds more than its maximum of
  a thousand entries.
\<close>

lemma cached_answers_are_recent:
  assumes "resolver_run r ttl hist rc" "0 \<le> ttl" "Resolve r now evict d input rc = (Ok answer, rc')"
  shows "(\<exists>(t, d') \<in> set ((now, d) # hist). lookup_input r d' input = Ok answer \<and> now - t \<le> ttl)
    \<and> length (rc_entries rc') \<le> 1000"
proof -
  note i = run_invariant[OF assms(1)]
  have "resolver_run r ttl ((now, d) # hist) rc'" using run_resolve[OF assms(1), of now d evict input] assms(3) by simp
  then have "length (rc_entries rc') \<le> 1000" using run_invariant by (fastforce simp: cache_ok_def)
  moreover have "\<exists>(t, d') \<in> set ((now, d) # hist). lookup_input r d' input = Ok answer \<and> now \<le> t + max 0 (rc_ttl rc)"
    using Resolve_explained(3)[OF _ _ assms(3) refl] i by blast
  ultimately show ?thesis using i assms(2) by fastforce
qed

text \<open>One name with its connection and metadata.\<close>

definition full_decode :: "string \<Rightarrow> naddr_data option" where
  "full_decode s = (if s = ''mm'' then Some \<lparr> na_kind = 63600, na_pubkey = ''p1'', na_identifier = ''meta'' \<rparr> else naddr_of s)"

definition full_db :: database where
  "full_db = site_db\<lparr>metadata_events := [\<lparr> r_id = ''m1'', r_pubkey = ''p1'', r_created_at = 1, r_updated_at = 1, r_d_tag = ''meta'',
     r_content = ''{}'', r_sig = [] \<rparr>]\<rparr>"

definition full_resolver :: resolver where
  "full_resolver = NewResolverWithNetwork multipliers full_decode ''mainnet''"

lemma full_lookup: "\<exists>x. lookup_input full_resolver full_db ''bob'' = Ok x" "\<exists>e. lookup_input full_resolver empty_db ''bob'' = Err e"
proof -
  have p: "parseInput full_resolver ''bob'' = (''bob'', None, 1)"
    by (simp add: parseInput_def trim_prefix_def has_prefix_def contains_char_def)
  have j: "case parse_json site_content of Some (JObj _) \<Rightarrow> True | _ \<Rightarrow> False" "parse_json ''{}'' = Some (JObj [])"
    and f: "equal_fold ''bob'' ''bob''" by code_simp+
  have g: "\<exists>a. GetAnchorByName full_decode ''bob'' None (Some 1) full_db = Ok a \<and> ar_ConnectionContent a = site_content
      \<and> ar_MetadataContent a = ''{}''"
    by (simp add: GetAnchorByName_def candidate_anchors_def full_db_def site_db_def order_by_def referenced_name_def referenced_row_def
        extractEventIDFromNaddr_def full_decode_def naddr_of_def newest_row_def at_reference_def at_address_def record_of_def f Let_def)
  have n: "GetAnchorByName full_decode ''bob'' None (Some 1) empty_db = Err DNoRows"
    by (simp add: GetAnchorByName_def candidate_anchors_def empty_db_def)
  have rv: "rv_nip19 full_resolver = full_decode" by (simp add: full_resolver_def NewResolverWithNetwork_def)
  show "\<exists>x. lookup_input full_resolver full_db ''bob'' = Ok x"
    using g j by (auto simp: lookup_input_def p rv buildResult_def as_map_def Let_def split: option.splits json.splits)
  show "\<exists>e. lookup_input full_resolver empty_db ''bob'' = Err e" by (simp add: lookup_input_def p rv n)
qed

lemma cached_answers_are_recent_example:
  "\<exists>answer rc'. Resolve full_resolver 200 0 empty_db ''bob''
      (snd (Resolve full_resolver 0 0 full_db ''bob'' \<lparr> rc_entries = [], rc_maxSize = 1000, rc_ttl = 300 \<rparr>)) = (Ok answer, rc')
    \<and> lookup_input full_resolver full_db ''bob'' = Ok answer \<and> length (rc_entries rc') \<le> 1000"
proof -
  let ?rc0 = "\<lparr> rc_entries = [], rc_maxSize = 1000, rc_ttl = 300 \<rparr>"
  let ?rc1 = "snd (Resolve full_resolver 0 0 full_db ''bob'' ?rc0)"
  obtain x where x: "lookup_input full_resolver full_db ''bob'' = Ok x" using full_lookup(1) by blast
  have r: "resolver_run full_resolver 300 [(0, full_db)] ?rc1" by (intro run_resolve run_new)
  have a: "Resolve full_resolver 200 0 empty_db ''bob'' ?rc1 = (Ok x, ?rc1)"
    by (simp add: Resolve_def cache_Get_def cache_Set_def map_put_def x)
  from cached_answers_are_recent[OF r _ a] show ?thesis using a x by auto
qed

section \<open>Alternate notations\<close>

lemma no_protocol:
  assumes "CHR '':'' \<notin> set name" "CHR ''.'' \<notin> set p" "CHR '':'' \<in> set p"
  shows "trim_prefix (name @ CHR ''.'' # x) p = name @ CHR ''.'' # x"
proof (rule ccontr)
  assume "trim_prefix (name @ CHR ''.'' # x) p \<noteq> name @ CHR ''.'' # x"
  then have "prefix p (name @ CHR ''.'' # x)" by (auto simp: trim_prefix_def has_prefix_iff split: if_splits)
  then have "prefix p name \<or> (\<exists>q. p = name @ CHR ''.'' # q)" by (auto simp: prefix_append prefix_Cons)
  then show False using assms by (auto dest: set_mono_prefix)
qed

lemma parse_dotted:
  assumes "CHR ''.'' \<notin> set name" "CHR '':'' \<notin> set name"
    and "ParseNotation (rv_order r) (rv_encoder r) (name @ CHR ''.'' # x) = Ok (name, b, p)"
    and "\<And>v. Decode (rv_encoder r) x = Ok v \<Longrightarrow> v = (b, p)"
  shows "parseInput r (name @ CHR ''.'' # x) = (name, Some b, p)"
proof -
  have t: "trim_prefix (trim_prefix (trim_prefix (name @ CHR ''.'' # x) ''dnn://'') ''https://'') ''http://'' = name @ CHR ''.'' # x"
    using no_protocol[OF assms(2)] by simp
  have "takeWhile (\<lambda>c. c \<noteq> CHR ''.'') (name @ CHR ''.'' # x) = name"
    "dropWhile (\<lambda>c. c \<noteq> CHR ''.'') (name @ CHR ''.'' # x) = CHR ''.'' # x"
    using assms(1) by (induction name) auto
  then show ?thesis
    unfolding parseInput_def t Let_def using assms(3,4)
    by (cases "Decode (rv_encoder r) x") (auto simp: contains_char_def)
qed

lemma decode_kinds:
  "Decode e (CHR ''b'' # s) = Err BadPrefix"
  "Decode e s = Ok v \<Longrightarrow> length s > 1 \<and> hd s = CHR ''n''"
  by (auto simp: Decode_def split: if_splits)

text \<open>
  The notations the resolver prints for a name are read back as that name at its block and
  position, except the short Bitcoin form for position 1, which names the block 60000 later: it is
  printed with the genesis block 1000000 and read with 940000.
\<close>

lemma alternates_resolve_back:
  fixes network :: string and decode :: "string \<Rightarrow> naddr_data option"
  assumes "CHR ''.'' \<notin> set name" "CHR '':'' \<notin> set name" "0 \<le> block" "block \<le> MaxInt64 - 1000000" "1 \<le> position" "position \<le> MaxInt64"
    and "set order = set multipliers"
  defines "r \<equiv> NewResolverWithNetwork order decode network"
  shows "\<exists>code. Encode (rv_encoder r) block position = Ok code
    \<and> (\<forall>s \<in> set (take 4 (generateAlternateNotations r name block position code)). parseInput r s = (name, Some block, position))
    \<and> (position = 1 \<longrightarrow> parseInput r (last (generateAlternateNotations r name block position code)) = (name, Some (block + 60000), 1))"
proof -
  let ?e = "NewEncoderWithNetwork network"
  have r: "rv_encoder r = ?e" "rv_order r = order" by (simp_all add: r_def NewResolverWithNetwork_def)
  have b64: "in64 block" "in64 position" "in64 (block + 1000000)" "block \<le> MaxInt64 - 940000" using assms by (simp_all add: in64_def)
  have g: "genesisBlock ?e = 940000" by (simp add: NewEncoderWithNetwork_def NewEncoderWithParams_def Let_def)
  have bm: "block \<le> MaxInt64" using assms(4) by simp
  obtain code where c: "Encode ?e block position = Ok code" "Decode ?e code = Ok (block, position)"
    unfolding NewEncoderWithNetwork_def using enc.decode_encode[OF assms(3) bm assms(5,6)] by blast
  have dnn: "ParseNotation order ?e (name @ CHR ''.'' # FormatDNNBlock block position) = Ok (name, block, position)"
    using parse_formatted_dnn[OF assms(1) b64(1,2) assms(7)] by simp
  obtain h t where h: "show_int block = h # t" "\<not> is_letter h" using show_int_head by blast
  have "\<exists>u. FormatDNNBlock block position = CHR ''n'' # h # u" by (simp add: FormatDNNBlock_def h(1))
  then have nodec: "Decode ?e (FormatDNNBlock block position) = Err NoFirstWord"
    using enc.decode_numeric[OF h(2)] by (auto simp: NewEncoderWithNetwork_def)
  have a: "parseInput r (name @ CHR ''.'' # FormatDNNBlock block position) = (name, Some block, position)"
    by (rule parse_dotted[OF assms(1,2)]) (simp_all add: r dnn nodec)
  have "\<exists>u. FormatBitcoinBlock ?e block position = CHR ''b'' # u" by (simp add: FormatBitcoinBlock_def Let_def)
  then have bt: "parseInput r (name @ CHR ''.'' # FormatBitcoinBlock ?e block position) = (name, Some block, position)"
    using parse_formatted_bitcoin[OF assms(1,3) b64(4,2) assms(7), of network] decode_kinds(1)
    by (intro parse_dotted[OF assms(1,2)]) (auto simp: r)
  have cd: "parseInput r (name @ CHR ''.'' # code) = (name, Some block, position)"
    using c(2) decode_kinds(2)[OF c(2)] by (intro parse_dotted[OF assms(1,2)]) (simp_all add: r ParseNotation_dot[OF assms(1)])
  have "wrap64 (block + 1000000) = block + 1000000" "wrap64 (60000 + block) = block + 60000"
    using assms(3,4) by (simp_all add: wrap64_id in64_def)
  then have last: "parseInput r (name @ CHR ''.'' # CHR ''b'' # show_int (wrap64 (block + 1000000))) = (name, Some (block + 60000), 1)"
    using parseBlockNotation_numbers(1)[OF b64(3) b64(2) assms(7), of ?e name "CHR ''b''"] decode_kinds(1) assms(3)
    by (intro parse_dotted[OF assms(1,2)]) (simp_all add: r ParseNotation_dot[OF assms(1)] has_prefix_def g Let_def)
  show ?thesis
    using c(1) a bt cd last unfolding generateAlternateNotations_def r
    by (intro exI[of _ code]) (auto simp: FormatDNNBlock_def split: if_splits)
qed

lemma alternates_resolve_back_example:
  "\<exists>code. Encode (NewEncoderWithNetwork ''mainnet'') 47 1 = Ok code
    \<and> parseInput (NewResolverWithNetwork multipliers (\<lambda>_. None) ''mainnet'') (''alice.'' @ code) = (''alice'', Some 47, 1)
    \<and> parseInput (NewResolverWithNetwork multipliers (\<lambda>_. None) ''mainnet'') (''alice.b'' @ show_int 1000047) = (''alice'', Some 60047, 1)"
proof -
  let ?r = "NewResolverWithNetwork multipliers (\<lambda>_. None) ''mainnet''"
  have e: "rv_encoder ?r = NewEncoderWithNetwork ''mainnet''" by (simp add: NewResolverWithNetwork_def)
  have w: "wrap64 1000047 = 1000047" by (simp add: wrap64_def)
  have l: "last (generateAlternateNotations ?r ''alice'' 47 1 code) = ''alice.b'' @ show_int 1000047"
    "''alice.'' @ code \<in> set (take 4 (generateAlternateNotations ?r ''alice'' 47 1 code))" for code
    by (simp_all add: generateAlternateNotations_def w)
  obtain code where "Encode (rv_encoder ?r) 47 1 = Ok code"
    "\<forall>s \<in> set (take 4 (generateAlternateNotations ?r ''alice'' 47 1 code)). parseInput ?r s = (''alice'', Some 47, 1)"
    "parseInput ?r (last (generateAlternateNotations ?r ''alice'' 47 1 code)) = (''alice'', Some (47 + 60000), 1)"
    using alternates_resolve_back[of "''alice''" 47 1 multipliers "\<lambda>_. None" "''mainnet''"] by (auto simp: byte_of_def)
  then show ?thesis using l[of code] unfolding e by (intro exI[of _ code]) simp
qed

section \<open>Further facts\<close>

text \<open>A name without block and position is only found at position 1.\<close>

lemma bare_names_at_position_one:
  assumes "CHR ''.'' \<notin> set name" "CHR '':'' \<notin> set name" "lookup_input r d name = Ok answer"
  shows "rn_Position answer = 1"
proof -
  have "trim_prefix name p = name" if "CHR '':'' \<in> set p" for p
    using assms(2) that by (auto simp: trim_prefix_def has_prefix_iff prefix_def)
  then have "parseInput r name = (name, None, 1)" using assms(1) by (simp add: parseInput_def contains_char_def)
  then obtain found where rec: "GetAnchorByName (rv_nip19 r) name None (Some 1) d = Ok found" "buildResult r found = Ok answer"
    using assms(3) by (auto simp: lookup_input_def split: sum.splits)
  then have "rn_Position answer = ar_Position found" by (auto simp: buildResult_def Let_def split: option.splits)
  moreover have "ar_Position found = 1"
    using GetAnchorByName_sound[OF rec(1)] by (auto simp: record_of_def Let_def)
  ultimately show ?thesis by simp
qed

end
