(* ===== verification/Migrations.thy ===== *)
theory Migrations
  imports Prelude
begin

text \<open>
  The schema of the database: \<^verbatim>\<open>initSchema\<close> and \<^verbatim>\<open>New\<close> of \<^verbatim>\<open>src/internal/database/database.go\<close> and the
  migrations of \<^verbatim>\<open>src/internal/database/migrations.go\<close>, statement by statement.  Tables have columns in
  order, with whether an insertion may leave them out, and uniqueness constraints; rows, foreign keys,
  checks and defaults are not part of the schema.  A statement fails as SQLite reports it when it is
  prepared: a missing or existing table, a missing or repeated column, a wrong number of columns.
  Failures of the disk or of a lock are left to \<open>exec\<close>, an argument of the migration manager.
\<close>

section \<open>Schema\<close>

datatype presence = Required | Optional

type_synonym table_def = "(string \<times> presence) list \<times> string list list"

record schema =
  sc_tables :: "(string \<times> table_def) list"
  sc_indexes :: "(string \<times> string) list"
  sc_triggers :: "(string \<times> string) list"

text \<open>
  The flag of \<open>CreateTable\<close> and \<open>CreateIndex\<close> is \<^verbatim>\<open>IF NOT EXISTS\<close>, that of \<open>DropTable\<close> \<^verbatim>\<open>IF EXISTS\<close>.
  \<open>InsertSelect\<close> has the columns that its expressions and condition read, as have \<open>DeleteFrom\<close> and
  \<open>UpdateTable\<close>; \<open>InsertStar\<close> copies with \<^verbatim>\<open>SELECT *\<close>.  Partial indexes read only their own column.
\<close>

datatype stmt =
    CreateTable bool string "(string \<times> presence) list" "string list list"
  | CreateIndex bool string string "string list"
  | CreateTrigger string string "string list"
  | DropTable bool string
  | DropIndex string
  | RenameTable string string
  | AddColumn string "string \<times> presence"
  | InsertValues string "string list"
  | InsertSelect string "string list" string "string list"
  | InsertStar string string
  | DeleteFrom string "string list"
  | UpdateTable string "string list"
  | SelectOne

definition columns :: "string \<Rightarrow> schema \<Rightarrow> (string \<times> presence) list option" where
  "columns t s = map_option fst (map_of (sc_tables s) t)"

definition has_columns :: "string \<Rightarrow> string list \<Rightarrow> schema \<Rightarrow> bool" where
  "has_columns t cs s = (case columns t s of None \<Rightarrow> False | Some ds \<Rightarrow> list_all (\<lambda>c. c \<in> set (map fst ds)) cs)"

text \<open>An insertion names columns of the table and leaves out only optional ones.\<close>

definition insertable :: "string \<Rightarrow> string list \<Rightarrow> schema \<Rightarrow> bool" where
  "insertable t cs s = (has_columns t cs s
     \<and> (case columns t s of None \<Rightarrow> False | Some ds \<Rightarrow> list_all (\<lambda>(c, p). p = Optional \<or> c \<in> set cs) ds))"

definition drop_table :: "string \<Rightarrow> schema \<Rightarrow> schema" where
  "drop_table t s = s\<lparr>sc_tables := filter (\<lambda>e. fst e \<noteq> t) (sc_tables s), sc_indexes := filter (\<lambda>e. snd e \<noteq> t) (sc_indexes s),
     sc_triggers := filter (\<lambda>e. snd e \<noteq> t) (sc_triggers s)\<rparr>"

definition rename_in :: "string \<Rightarrow> string \<Rightarrow> (string \<times> string) list \<Rightarrow> (string \<times> string) list" where
  "rename_in t u m = map (\<lambda>(n, x). (n, if x = t then u else x)) m"

fun exec_stmt :: "stmt \<Rightarrow> schema \<Rightarrow> schema option" where
  "exec_stmt (CreateTable ifne t cs ks) s =
     (if columns t s \<noteq> None then (if ifne then Some s else None)
      else Some (s\<lparr>sc_tables := sc_tables s @ [(t, cs, ks)]\<rparr>))"
| "exec_stmt (CreateIndex ifne n t cs) s =
     (if columns t s = None then None
      else if n \<in> set (map fst (sc_indexes s)) then (if ifne then Some s else None)
      else if has_columns t cs s then Some (s\<lparr>sc_indexes := sc_indexes s @ [(n, t)]\<rparr>) else None)"
| "exec_stmt (CreateTrigger n t cs) s =
     (if columns t s = None then None
      else if n \<in> set (map fst (sc_triggers s)) then Some s
      else Some (s\<lparr>sc_triggers := sc_triggers s @ [(n, t)]\<rparr>))"
| "exec_stmt (DropTable ife t) s =
     (if columns t s = None then (if ife then Some s else None) else Some (drop_table t s))"
| "exec_stmt (DropIndex n) s = Some (s\<lparr>sc_indexes := filter (\<lambda>e. fst e \<noteq> n) (sc_indexes s)\<rparr>)"
| "exec_stmt (RenameTable t u) s =
     (if columns t s = None \<or> columns u s \<noteq> None then None
      else Some (s\<lparr>sc_tables := map (\<lambda>(n, d). (if n = t then u else n, d)) (sc_tables s),
        sc_indexes := rename_in t u (sc_indexes s), sc_triggers := rename_in t u (sc_triggers s)\<rparr>))"
| "exec_stmt (AddColumn t c) s =
     (case columns t s of
        None \<Rightarrow> None
      | Some ds \<Rightarrow>
          if fst c \<in> set (map fst ds) \<or> snd c = Required then None
          else Some (s\<lparr>sc_tables := map (\<lambda>(n, cs, ks). (n, if n = t then cs @ [c] else cs, ks)) (sc_tables s)\<rparr>))"
| "exec_stmt (InsertValues t cs) s = (if insertable t cs s then Some s else None)"
| "exec_stmt (InsertSelect t cs u used) s = (if insertable t cs s \<and> has_columns u used s then Some s else None)"
| "exec_stmt (InsertStar t u) s =
     (case (columns t s, columns u s) of (Some a, Some b) \<Rightarrow> if length a = length b then Some s else None | _ \<Rightarrow> None)"
| "exec_stmt (DeleteFrom t used) s = (if has_columns t used s then Some s else None)"
| "exec_stmt (UpdateTable t used) s = (if has_columns t used s then Some s else None)"
| "exec_stmt SelectOne s = Some s"

text \<open>A script runs up to its first failing statement; the result is what it leaves.\<close>

fun exec_script :: "stmt list \<Rightarrow> schema \<Rightarrow> (schema, schema) res" where
  "exec_script [] s = Ok s"
| "exec_script (x # xs) s = (case exec_stmt x s of None \<Rightarrow> Err s | Some s' \<Rightarrow> exec_script xs s')"

text \<open>Every \<^verbatim>\<open>SELECT *\<close> copies each column to the column of the same name.\<close>

fun stars_aligned :: "stmt list \<Rightarrow> schema \<Rightarrow> bool" where
  "stars_aligned [] s \<longleftrightarrow> True"
| "stars_aligned (x # xs) s \<longleftrightarrow>
     (case x of InsertStar t u \<Rightarrow> map_option (map fst) (columns t s) = map_option (map fst) (columns u s) | _ \<Rightarrow> True)
     \<and> (case exec_stmt x s of None \<Rightarrow> True | Some s' \<Rightarrow> stars_aligned xs s')"

section \<open>The migration manager\<close>

record migration =
  mg_Version :: int
  mg_Description :: string
  mg_SQL :: "stmt list"

text \<open>The rows of the table \<^verbatim>\<open>migrations\<close>, or \<open>None\<close> before it is made.\<close>

record sqlite =
  sq_schema :: schema
  sq_versions :: "int list option"

definition createMigrationsTable :: "sqlite \<Rightarrow> sqlite" where
  "createMigrationsTable db = (if sq_versions db = None then db\<lparr>sq_versions := Some []\<rparr> else db)"

definition getCurrentVersion :: "sqlite \<Rightarrow> int option" where
  "getCurrentVersion db = map_option (\<lambda>vs. foldl max 0 vs) (sq_versions db)"

text \<open>
  One transaction: the script, the row of the version, and the commit; a failure leaves the database as
  it was.  \<open>exec\<close> runs the script.
\<close>

definition runMigration :: "(stmt list \<Rightarrow> schema \<Rightarrow> schema option) \<Rightarrow> migration \<Rightarrow> sqlite \<Rightarrow> sqlite option" where
  "runMigration exec m db =
     (case exec (mg_SQL m) (sq_schema db) of
        None \<Rightarrow> None
      | Some s \<Rightarrow>
          (case sq_versions db of
             None \<Rightarrow> None
           | Some vs \<Rightarrow> if mg_Version m \<in> set vs then None else Some (db\<lparr>sq_schema := s, sq_versions := Some (vs @ [mg_Version m])\<rparr>)))"

fun run_pending :: "(stmt list \<Rightarrow> schema \<Rightarrow> schema option) \<Rightarrow> migration list \<Rightarrow> sqlite \<Rightarrow> (sqlite, sqlite) res" where
  "run_pending exec [] db = Ok db"
| "run_pending exec (m # ms) db = (case runMigration exec m db of None \<Rightarrow> Err db | Some db' \<Rightarrow> run_pending exec ms db')"

definition Run :: "(stmt list \<Rightarrow> schema \<Rightarrow> schema option) \<Rightarrow> migration list \<Rightarrow> sqlite \<Rightarrow> (sqlite, sqlite) res" where
  "Run exec migrations db0 =
     (let db = createMigrationsTable db0 in
      case getCurrentVersion db of
        None \<Rightarrow> Err db
      | Some currentVersion \<Rightarrow> run_pending exec (filter (\<lambda>m. mg_Version m > currentVersion) migrations) db)"

definition GetPendingMigrations :: "migration list \<Rightarrow> sqlite \<Rightarrow> migration list option" where
  "GetPendingMigrations migrations db =
     map_option (\<lambda>currentVersion. filter (\<lambda>m. mg_Version m > currentVersion) migrations) (getCurrentVersion db)"

definition GetVersion :: "sqlite \<Rightarrow> int option" where
  "GetVersion db = getCurrentVersion db"

text \<open>Only the rows are deleted; the schema stays.\<close>

definition Rollback :: "int \<Rightarrow> sqlite \<Rightarrow> sqlite option" where
  "Rollback targetVersion db =
     map_option (\<lambda>vs. db\<lparr>sq_versions := Some (filter (\<lambda>v. \<not> v > targetVersion) vs)\<rparr>) (sq_versions db)"

section \<open>The statements\<close>

definition initial_statements :: "stmt list" where
  "initial_statements = [
     CreateTable True ''dnn_blocks'' [(''block_number'', Optional), (''bitcoin_block_number'', Required),
         (''bitcoin_block_hash'', Required), (''created_at'', Optional), (''synced_at'', Optional)] [[''block_number''],
         [''bitcoin_block_number'']],
     CreateTable True ''name_events'' [(''id'', Optional), (''pubkey'', Required), (''created_at'', Required),
         (''updated_at'', Optional), (''d_tag'', Required), (''primary_name'', Optional), (''other_names'', Optional),
         (''content'', Optional), (''sig'', Required)] [[''id''], [''pubkey'', ''d_tag'']],
     CreateTable True ''connection_events'' [(''id'', Optional), (''pubkey'', Required), (''created_at'', Required),
         (''updated_at'', Optional), (''content'', Required), (''sig'', Required)] [[''id''], [''pubkey'']],
     CreateTable True ''metadata_events'' [(''id'', Optional), (''pubkey'', Required), (''created_at'', Required),
         (''updated_at'', Optional), (''content'', Required), (''sig'', Required)] [[''id''], [''pubkey'']],
     CreateTable True ''bitcoin_transactions'' [(''transaction_id'', Optional), (''bitcoin_block_number'', Required),
         (''dnn_block_number'', Required), (''position'', Required), (''bitcoin_address'', Required),
         (''fee_rate'', Required), (''tie_position'', Optional), (''tie_digit'', Optional), (''discovered_at'', Required),
         (''has_anchor_event'', Optional), (''anchor_event_id'', Optional)] [[''transaction_id''],
         [''bitcoin_block_number'', ''position'']],
     CreateTable True ''anchor_events'' [(''id'', Optional), (''pubkey'', Required), (''created_at'', Required),
         (''d_tag'', Required), (''name_event_ref'', Required), (''connection_event_ref'', Required),
         (''metadata_event_ref'', Required), (''transaction_id'', Required), (''bitcoin_block_number'', Required),
         (''dnn_block_number'', Required), (''position'', Required), (''content'', Optional), (''sig'', Required)] [[''id''],
         [''pubkey'', ''d_tag''], [''transaction_id'']],
     CreateTable True ''awareness_marks'' [(''id'', Optional), (''anchor_event_id'', Required),
         (''marker_pubkey'', Required), (''mark_type'', Required), (''reason'', Optional),
         (''created_at'', Optional)] [[''id''], [''anchor_event_id'', ''marker_pubkey'']],
     CreateTable True ''peer_nodes'' [(''pubkey'', Optional), (''relay_url'', Required), (''last_seen'', Optional),
         (''last_sync'', Optional), (''is_active'', Optional), (''created_at'', Optional)] [[''pubkey'']],
     CreateTable True ''sync_state'' [(''key'', Optional), (''value'', Optional), (''updated_at'', Optional)] [[''key'']],
     CreateTable True ''tx_block_index'' [(''txid'', Optional), (''block_hash'', Required)] [[''txid'']],
     CreateIndex True ''idx_tx_block_index_hash'' ''tx_block_index'' [''block_hash''],
     CreateIndex True ''idx_bitcoin_transactions_block'' ''bitcoin_transactions'' [''bitcoin_block_number''],
     CreateIndex True ''idx_bitcoin_transactions_dnn_block'' ''bitcoin_transactions'' [''dnn_block_number''],
     CreateIndex True ''idx_bitcoin_transactions_address'' ''bitcoin_transactions'' [''bitcoin_address''],
     CreateIndex True ''idx_anchor_events_bitcoin_block'' ''anchor_events'' [''bitcoin_block_number''],
     CreateIndex True ''idx_anchor_events_dnn_block'' ''anchor_events'' [''dnn_block_number''],
     CreateIndex True ''idx_anchor_events_pubkey'' ''anchor_events'' [''pubkey''],
     CreateIndex True ''idx_name_events_d_tag'' ''name_events'' [''d_tag''],
     CreateIndex True ''idx_awareness_marks_anchor'' ''awareness_marks'' [''anchor_event_id''],
     CreateIndex True ''idx_awareness_marks_type'' ''awareness_marks'' [''mark_type''],
     CreateTable True ''reserved_addresses'' [(''address'', Optional), (''reserved_for'', Required),
         (''description'', Optional), (''created_at'', Optional)] [[''address'']],
     InsertValues ''reserved_addresses'' [''address'', ''reserved_for'', ''description''],
     InsertValues ''sync_state'' [''key'', ''value'']]"

definition migration_1 :: "stmt list" where
  "migration_1 = [
     CreateTable True ''dnn_blocks'' [(''block_number'', Optional), (''bitcoin_block_number'', Required),
         (''bitcoin_block_hash'', Required), (''created_at'', Optional), (''synced_at'', Optional)] [[''block_number''],
         [''bitcoin_block_number'']],
     CreateTable True ''name_events'' [(''id'', Optional), (''pubkey'', Required), (''created_at'', Required),
         (''updated_at'', Optional), (''d_tag'', Required), (''other_names'', Optional), (''content'', Optional),
         (''sig'', Required)] [[''id''], [''pubkey'', ''d_tag'']],
     CreateTable True ''connection_events'' [(''id'', Optional), (''pubkey'', Required), (''created_at'', Required),
         (''updated_at'', Optional), (''content'', Required), (''sig'', Required)] [[''id''], [''pubkey'']],
     CreateTable True ''metadata_events'' [(''id'', Optional), (''pubkey'', Required), (''created_at'', Required),
         (''updated_at'', Optional), (''content'', Required), (''sig'', Required)] [[''id''], [''pubkey'']],
     CreateTable True ''anchor_events'' [(''id'', Optional), (''pubkey'', Required), (''created_at'', Required),
         (''name_event_id'', Required), (''connection_event_id'', Required), (''metadata_event_id'', Required),
         (''transaction_id'', Required), (''bitcoin_block_number'', Required), (''dnn_block_number'', Required),
         (''position'', Required), (''content'', Optional), (''sig'', Required)] [[''id''], [''transaction_id'']],
     CreateIndex True ''idx_anchor_events_bitcoin_block'' ''anchor_events'' [''bitcoin_block_number''],
     CreateIndex True ''idx_anchor_events_dnn_block'' ''anchor_events'' [''dnn_block_number''],
     CreateIndex True ''idx_anchor_events_pubkey'' ''anchor_events'' [''pubkey''],
     CreateIndex True ''idx_name_events_d_tag'' ''name_events'' [''d_tag'']]"

definition migration_2 :: "stmt list" where
  "migration_2 = [
     CreateTable True ''awareness_marks'' [(''id'', Optional), (''anchor_event_id'', Required),
         (''marker_pubkey'', Required), (''mark_type'', Required), (''reason'', Optional),
         (''created_at'', Optional)] [[''id''], [''anchor_event_id'', ''marker_pubkey'']],
     CreateIndex True ''idx_awareness_marks_anchor'' ''awareness_marks'' [''anchor_event_id''],
     CreateIndex True ''idx_awareness_marks_type'' ''awareness_marks'' [''mark_type'']]"

definition migration_3 :: "stmt list" where
  "migration_3 = [
     CreateTable True ''peer_nodes'' [(''pubkey'', Optional), (''relay_url'', Required), (''last_seen'', Optional),
         (''last_sync'', Optional), (''is_active'', Optional), (''created_at'', Optional)] [[''pubkey'']],
     CreateTable True ''sync_state'' [(''key'', Optional), (''value'', Optional), (''updated_at'', Optional)] [[''key'']],
     InsertValues ''sync_state'' [''key'', ''value'']]"

definition migration_4 :: "stmt list" where
  "migration_4 = [
     CreateTable True ''bitcoin_addresses'' [(''id'', Optional), (''address'', Required), (''pubkey'', Required),
         (''derived_from'', Optional), (''created_at'', Optional)] [[''id''], [''address'']],
     CreateIndex True ''idx_bitcoin_addresses_pubkey'' ''bitcoin_addresses'' [''pubkey'']]"

definition migration_5 :: "stmt list" where
  "migration_5 = [
     CreateTable True ''reserved_addresses'' [(''address'', Optional), (''reserved_for'', Required),
         (''description'', Optional), (''created_at'', Optional)] [[''address'']],
     InsertValues ''reserved_addresses'' [''address'', ''reserved_for'', ''description'']]"

definition migration_6 :: "stmt list" where
  "migration_6 = [
     CreateTable True ''metrics'' [(''id'', Optional), (''metric_name'', Required), (''metric_value'', Required),
         (''metric_type'', Required), (''recorded_at'', Optional)] [[''id'']],
     CreateIndex True ''idx_metrics_name'' ''metrics'' [''metric_name''],
     CreateIndex True ''idx_metrics_time'' ''metrics'' [''recorded_at''],
     CreateTrigger ''cleanup_old_metrics'' ''metrics'' [''recorded_at'']]"

definition migration_7 :: "stmt list" where
  "migration_7 = [
     CreateTable True ''event_cache'' [(''event_id'', Optional), (''event_kind'', Required), (''event_data'', Required),
         (''cached_at'', Optional), (''expires_at'', Optional)] [[''event_id'']],
     CreateIndex True ''idx_event_cache_kind'' ''event_cache'' [''event_kind''],
     CreateIndex True ''idx_event_cache_expires'' ''event_cache'' [''expires_at''],
     CreateTrigger ''cleanup_expired_cache'' ''event_cache'' [''expires_at'']]"

definition migration_8 :: "stmt list" where
  "migration_8 = [
     SelectOne]"

definition migration_9 :: "stmt list" where
  "migration_9 = [
     AddColumn ''dnn_blocks'' (''block_timestamp'', Optional),
     CreateIndex True ''idx_dnn_blocks_timestamp'' ''dnn_blocks'' [''block_timestamp'']]"

definition migration_10 :: "stmt list" where
  "migration_10 = [
     CreateTable True ''connection_events_new'' [(''id'', Optional), (''pubkey'', Required), (''created_at'', Required),
         (''updated_at'', Optional), (''d_tag'', Required), (''content'', Required), (''sig'', Required)] [[''id''],
         [''pubkey'', ''d_tag'']],
     CreateTable True ''metadata_events_new'' [(''id'', Optional), (''pubkey'', Required), (''created_at'', Required),
         (''updated_at'', Optional), (''d_tag'', Required), (''content'', Required), (''sig'', Required)] [[''id''],
         [''pubkey'', ''d_tag'']],
     InsertSelect ''connection_events_new''
         [''id'', ''pubkey'', ''created_at'', ''updated_at'', ''d_tag'', ''content'', ''sig''] ''connection_events''
         [''id'', ''pubkey'', ''created_at'', ''updated_at'', ''content'', ''sig''],
     InsertSelect ''metadata_events_new''
         [''id'', ''pubkey'', ''created_at'', ''updated_at'', ''d_tag'', ''content'', ''sig''] ''metadata_events''
         [''id'', ''pubkey'', ''created_at'', ''updated_at'', ''content'', ''sig''],
     DropTable False ''connection_events'',
     DropTable False ''metadata_events'',
     RenameTable ''connection_events_new'' ''connection_events'',
     RenameTable ''metadata_events_new'' ''metadata_events'',
     CreateIndex True ''idx_connection_events_d_tag'' ''connection_events'' [''d_tag''],
     CreateIndex True ''idx_metadata_events_d_tag'' ''metadata_events'' [''d_tag'']]"

definition migration_11 :: "stmt list" where
  "migration_11 = [
     DropTable True ''anchor_events'',
     CreateTable False ''anchor_events'' [(''id'', Optional), (''pubkey'', Required), (''created_at'', Required),
         (''d_tag'', Required), (''name_event_ref'', Required), (''connection_event_ref'', Required),
         (''metadata_event_ref'', Required), (''transaction_id'', Required), (''bitcoin_block_number'', Required),
         (''dnn_block_number'', Required), (''position'', Required), (''content'', Optional), (''sig'', Required)] [[''id''],
         [''pubkey'', ''d_tag''], [''transaction_id'']],
     CreateIndex False ''idx_anchor_events_bitcoin_block'' ''anchor_events'' [''bitcoin_block_number''],
     CreateIndex False ''idx_anchor_events_dnn_block'' ''anchor_events'' [''dnn_block_number''],
     CreateIndex False ''idx_anchor_events_pubkey'' ''anchor_events'' [''pubkey''],
     CreateIndex False ''idx_anchor_events_d_tag'' ''anchor_events'' [''d_tag''],
     CreateIndex False ''idx_anchor_events_pubkey_d_tag'' ''anchor_events'' [''pubkey'', ''d_tag'']]"

definition migration_12 :: "stmt list" where
  "migration_12 = [
     CreateTable True ''name_events_new'' [(''id'', Optional), (''pubkey'', Required), (''created_at'', Required),
         (''updated_at'', Optional), (''d_tag'', Required), (''primary_name'', Optional), (''other_names'', Optional),
         (''content'', Optional), (''sig'', Required)] [[''id''], [''pubkey'', ''d_tag'']],
     InsertSelect ''name_events_new'' [''id'', ''pubkey'', ''created_at'', ''updated_at'', ''d_tag'', ''primary_name'',
         ''other_names'', ''content'', ''sig''] ''name_events''
         [''id'', ''pubkey'', ''created_at'', ''updated_at'', ''d_tag'', ''other_names'', ''content'', ''sig''],
     DropTable False ''name_events'',
     RenameTable ''name_events_new'' ''name_events'',
     CreateIndex True ''idx_name_events_primary_name'' ''name_events'' [''primary_name''],
     CreateIndex True ''idx_name_events_d_tag'' ''name_events'' [''d_tag'']]"

definition migration_13 :: "stmt list" where
  "migration_13 = [
     CreateTable True ''anchor_events_new'' [(''id'', Optional), (''pubkey'', Required), (''created_at'', Required),
         (''d_tag'', Optional), (''name_event_ref'', Required), (''connection_event_ref'', Required),
         (''metadata_event_ref'', Required), (''transaction_id'', Required), (''bitcoin_block_number'', Required),
         (''dnn_block_number'', Required), (''position'', Required), (''content'', Optional), (''sig'', Required)] [[''id''],
         [''transaction_id'']],
     DropTable True ''anchor_events'',
     RenameTable ''anchor_events_new'' ''anchor_events'',
     CreateIndex True ''idx_anchor_events_bitcoin_block'' ''anchor_events'' [''bitcoin_block_number''],
     CreateIndex True ''idx_anchor_events_dnn_block'' ''anchor_events'' [''dnn_block_number''],
     CreateIndex True ''idx_anchor_events_pubkey'' ''anchor_events'' [''pubkey''],
     CreateIndex True ''idx_anchor_events_d_tag'' ''anchor_events'' [''d_tag'']]"

definition migration_14 :: "stmt list" where
  "migration_14 = [
     AddColumn ''connection_events'' (''tags_json'', Optional),
     AddColumn ''metadata_events'' (''tags_json'', Optional),
     AddColumn ''name_events'' (''tags_json'', Optional)]"

definition migration_15 :: "stmt list" where
  "migration_15 = [
     DropTable True ''awareness_marks'',
     CreateTable True ''awareness_marks_local'' [(''dnn_block'', Required), (''position'', Required),
         (''mark_type'', Required), (''reason'', Optional), (''updated_at'', Optional)] [[''dnn_block'', ''position'']],
     CreateTable True ''awareness_marks_peers'' [(''dnn_block'', Required), (''position'', Required),
         (''peer_pubkey'', Required), (''mark_type'', Required), (''reason'', Optional),
         (''received_at'', Optional)] [[''dnn_block'', ''position'', ''peer_pubkey'']],
     CreateIndex True ''idx_awareness_local_type'' ''awareness_marks_local'' [''mark_type''],
     CreateIndex True ''idx_awareness_peers_peer'' ''awareness_marks_peers'' [''peer_pubkey''],
     CreateIndex True ''idx_awareness_peers_type'' ''awareness_marks_peers'' [''mark_type'']]"

definition migration_16 :: "stmt list" where
  "migration_16 = [
     CreateIndex True ''idx_connection_events_pubkey_dtag_created'' ''connection_events''
         [''pubkey'', ''d_tag'', ''created_at''],
     CreateIndex True ''idx_metadata_events_pubkey_dtag_created'' ''metadata_events'' [''pubkey'', ''d_tag'', ''created_at''],
     CreateIndex True ''idx_name_events_pubkey_dtag'' ''name_events'' [''pubkey'', ''d_tag'']]"

definition migration_17 :: "stmt list" where
  "migration_17 = [
     AddColumn ''bitcoin_transactions'' (''relay_checked_at'', Optional),
     CreateIndex True ''idx_bitcoin_transactions_unchecked'' ''bitcoin_transactions'' [''relay_checked_at'']]"

definition migration_18 :: "stmt list" where
  "migration_18 = [
     DropTable True ''bitcoin_addresses'',
     DropIndex ''idx_bitcoin_addresses_pubkey'']"

definition migration_19 :: "stmt list" where
  "migration_19 = [
     AddColumn ''anchor_events'' (''updated_at'', Optional),
     UpdateTable ''anchor_events'' [''updated_at'', ''created_at'']]"

definition migration_20 :: "stmt list" where
  "migration_20 = [
     CreateTable True ''peer_nodes_new'' [(''pubkey'', Optional), (''event_id'', Optional), (''event_created_at'', Optional),
         (''event_updated_at'', Optional), (''dns_addresses_json'', Optional), (''tor_json'', Optional),
         (''relays_json'', Optional), (''npub_json'', Optional), (''custom_transports_json'', Optional),
         (''is_verified'', Optional), (''last_ping_at'', Optional), (''last_ping_success'', Optional),
         (''ping_latency_ms'', Optional), (''is_active'', Optional), (''discovered_at'', Optional),
         (''last_seen'', Optional)] [[''pubkey'']],
     InsertSelect ''peer_nodes_new'' [''pubkey'', ''relays_json'', ''last_seen'', ''is_active'',
         ''discovered_at''] ''peer_nodes'' [''pubkey'', ''relay_url'', ''last_seen'', ''is_active'', ''created_at''],
     DropTable True ''peer_nodes'',
     RenameTable ''peer_nodes_new'' ''peer_nodes'',
     CreateIndex True ''idx_peer_nodes_verified'' ''peer_nodes'' [''is_verified''],
     CreateIndex True ''idx_peer_nodes_active'' ''peer_nodes'' [''is_active'']]"

definition migration_21 :: "stmt list" where
  "migration_21 = [
     DeleteFrom ''anchor_events'' [],
     UpdateTable ''bitcoin_transactions'' [''has_anchor_event'', ''anchor_event_id''],
     UpdateTable ''bitcoin_transactions'' [''relay_checked_at''],
     DeleteFrom ''name_events'' [],
     DeleteFrom ''connection_events'' [],
     DeleteFrom ''metadata_events'' []]"

definition migration_22 :: "stmt list" where
  "migration_22 = [
     AddColumn ''anchor_events'' (''tags_json'', Optional)]"

definition migration_23 :: "stmt list" where
  "migration_23 = [
     CreateTable True ''discovered_relays'' [(''url'', Optional), (''source'', Optional), (''discovered_by'', Optional),
         (''discovered_at'', Optional), (''last_seen'', Optional), (''is_active'', Optional)] [[''url'']],
     CreateIndex True ''idx_discovered_relays_source'' ''discovered_relays'' [''source''],
     CreateIndex True ''idx_discovered_relays_active'' ''discovered_relays'' [''is_active'']]"

definition migration_24 :: "stmt list" where
  "migration_24 = [
     CreateTable True ''name_events_new'' [(''id'', Optional), (''pubkey'', Required), (''created_at'', Required),
         (''updated_at'', Optional), (''d_tag'', Required), (''primary_name'', Optional), (''other_names'', Optional),
         (''content'', Optional), (''sig'', Required), (''tags_json'', Optional)] [[''id'']],
     InsertStar ''name_events_new'' ''name_events'',
     DropTable False ''name_events'',
     RenameTable ''name_events_new'' ''name_events'',
     CreateIndex True ''idx_name_events_pubkey_dtag'' ''name_events'' [''pubkey'', ''d_tag''],
     CreateIndex True ''idx_name_events_primary_name'' ''name_events'' [''primary_name''],
     CreateIndex True ''idx_name_events_d_tag'' ''name_events'' [''d_tag''],
     CreateIndex True ''idx_name_events_created_at'' ''name_events'' [''created_at''],
     CreateTable True ''connection_events_new'' [(''id'', Optional), (''pubkey'', Required), (''created_at'', Required),
         (''updated_at'', Optional), (''d_tag'', Required), (''content'', Required), (''sig'', Required),
         (''tags_json'', Optional)] [[''id'']],
     InsertStar ''connection_events_new'' ''connection_events'',
     DropTable False ''connection_events'',
     RenameTable ''connection_events_new'' ''connection_events'',
     CreateIndex True ''idx_connection_events_pubkey_dtag'' ''connection_events'' [''pubkey'', ''d_tag''],
     CreateIndex True ''idx_connection_events_d_tag'' ''connection_events'' [''d_tag''],
     CreateIndex True ''idx_connection_events_pubkey_dtag_created'' ''connection_events''
         [''pubkey'', ''d_tag'', ''created_at''],
     CreateTable True ''metadata_events_new'' [(''id'', Optional), (''pubkey'', Required), (''created_at'', Required),
         (''updated_at'', Optional), (''d_tag'', Required), (''content'', Required), (''sig'', Required),
         (''tags_json'', Optional)] [[''id'']],
     InsertStar ''metadata_events_new'' ''metadata_events'',
     DropTable False ''metadata_events'',
     RenameTable ''metadata_events_new'' ''metadata_events'',
     CreateIndex True ''idx_metadata_events_pubkey_dtag'' ''metadata_events'' [''pubkey'', ''d_tag''],
     CreateIndex True ''idx_metadata_events_d_tag'' ''metadata_events'' [''d_tag''],
     CreateIndex True ''idx_metadata_events_pubkey_dtag_created'' ''metadata_events'' [''pubkey'', ''d_tag'', ''created_at'']]"

definition migration_25 :: "stmt list" where
  "migration_25 = [
     DropTable True ''tx_block_index'',
     DropIndex ''idx_tx_block_index_hash'']"

definition migration_26 :: "stmt list" where
  "migration_26 = [
     DropTable True ''awareness_marks_local'',
     DropTable True ''awareness_marks_peers'',
     CreateTable False ''awareness_marks_local'' [(''dnn_block'', Required), (''position'', Required), (''name'', Optional),
         (''mark'', Required), (''category'', Optional), (''reason'', Optional),
         (''updated_at'', Optional)] [[''dnn_block'', ''position'', ''name'']],
     CreateTable False ''awareness_marks_peers'' [(''dnn_block'', Required), (''position'', Required), (''name'', Optional),
         (''peer_pubkey'', Required), (''mark'', Required), (''category'', Optional), (''reason'', Optional),
         (''received_at'', Optional)] [[''dnn_block'', ''position'', ''name'', ''peer_pubkey'']],
     CreateIndex True ''idx_awareness_local_mark'' ''awareness_marks_local'' [''mark''],
     CreateIndex True ''idx_awareness_local_category'' ''awareness_marks_local'' [''category''],
     CreateIndex True ''idx_awareness_local_name'' ''awareness_marks_local'' [''name''],
     CreateIndex True ''idx_awareness_peers_peer'' ''awareness_marks_peers'' [''peer_pubkey''],
     CreateIndex True ''idx_awareness_peers_mark'' ''awareness_marks_peers'' [''mark''],
     CreateIndex True ''idx_awareness_peers_category'' ''awareness_marks_peers'' [''category'']]"

definition migration_27 :: "stmt list" where
  "migration_27 = [
     DropTable True ''peer_nodes'',
     CreateTable False ''peer_nodes'' [(''address'', Optional), (''node_npub'', Optional), (''node_pubkey'', Optional),
         (''announced_by'', Optional), (''is_verified'', Optional), (''fail_count'', Optional), (''last_checked'', Optional),
         (''last_seen'', Optional), (''discovered_at'', Optional)] [[''address'']],
     CreateIndex True ''idx_peer_nodes_pubkey'' ''peer_nodes'' [''node_pubkey''],
     CreateIndex True ''idx_peer_nodes_fail'' ''peer_nodes'' [''fail_count'']]"

definition migration_28 :: "stmt list" where
  "migration_28 = [
     AddColumn ''peer_nodes'' (''admin_pubkey'', Optional)]"

definition migration_29 :: "stmt list" where
  "migration_29 = [
     DeleteFrom ''name_events'' [''id'', ''pubkey'', ''d_tag'', ''created_at''],
     DeleteFrom ''connection_events'' [''id'', ''pubkey'', ''d_tag'', ''created_at''],
     DeleteFrom ''metadata_events'' [''id'', ''pubkey'', ''d_tag'', ''created_at'']]"

definition getMigrations :: "migration list" where
  "getMigrations = [
     \<lparr> mg_Version = 1, mg_Description = ''Initial schema'', mg_SQL = migration_1 \<rparr>,
     \<lparr> mg_Version = 2, mg_Description = ''Add awareness database'', mg_SQL = migration_2 \<rparr>,
     \<lparr> mg_Version = 3, mg_Description = ''Add peer nodes and sync state'', mg_SQL = migration_3 \<rparr>,
     \<lparr> mg_Version = 4, mg_Description = ''Add Bitcoin address tracking'', mg_SQL = migration_4 \<rparr>,
     \<lparr> mg_Version = 5, mg_Description = ''Add reserved addresses'', mg_SQL = migration_5 \<rparr>,
     \<lparr> mg_Version = 6, mg_Description = ''Add metrics tracking'', mg_SQL = migration_6 \<rparr>,
     \<lparr> mg_Version = 7, mg_Description = ''Add event cache for performance'', mg_SQL = migration_7 \<rparr>,
     \<lparr> mg_Version = 8, mg_Description = ''Add full-text search for names (simplified for SQLite compatibility)'', mg_SQL = migration_8 \<rparr>,
     \<lparr> mg_Version = 9, mg_Description = ''Add Bitcoin block timestamps'', mg_SQL = migration_9 \<rparr>,
     \<lparr> mg_Version = 10, mg_Description = ''Fix addressable replaceable events - add d_tag to connection and metadata events'', mg_SQL = migration_10 \<rparr>,
     \<lparr> mg_Version = 11, mg_Description = ''Make anchor events addressable replaceable with naddr references (BREAKING: drops anchor data)'', mg_SQL = migration_11 \<rparr>,
     \<lparr> mg_Version = 12, mg_Description = ''Add primary_name column to name_events for proper name resolution'', mg_SQL = migration_12 \<rparr>,
     \<lparr> mg_Version = 13, mg_Description = ''Add d_tag column to anchor_events for NIP-33 addressable events'', mg_SQL = migration_13 \<rparr>,
     \<lparr> mg_Version = 14, mg_Description = ''Add tags_json column to store full event tags'', mg_SQL = migration_14 \<rparr>,
     \<lparr> mg_Version = 15, mg_Description = ''Refactor awareness to DNN ID-based schema'', mg_SQL = migration_15 \<rparr>,
     \<lparr> mg_Version = 16, mg_Description = ''Add composite indexes for event lookups by pubkey + d_tag + created_at'', mg_SQL = migration_16 \<rparr>,
     \<lparr> mg_Version = 17, mg_Description = ''Add relay_checked_at to bitcoin_transactions for one-time relay checks'', mg_SQL = migration_17 \<rparr>,
     \<lparr> mg_Version = 18, mg_Description = ''Drop unused bitcoin_addresses table'', mg_SQL = migration_18 \<rparr>,
     \<lparr> mg_Version = 19, mg_Description = ''Add updated_at column to anchor_events for conflict resolution'', mg_SQL = migration_19 \<rparr>,
     \<lparr> mg_Version = 20, mg_Description = ''Enhance peer_nodes for Kind 64600 node discovery'', mg_SQL = migration_20 \<rparr>,
     \<lparr> mg_Version = 21, mg_Description = ''Clean up old anchor events with invalid tag format (names/connection/metadata/transaction instead of n/c/m/x)'', mg_SQL = migration_21 \<rparr>,
     \<lparr> mg_Version = 22, mg_Description = ''Add tags_json column to anchor_events for storing original event tags'', mg_SQL = migration_22 \<rparr>,
     \<lparr> mg_Version = 23, mg_Description = ''Create discovered_relays table for persisting user NIP-65 relays'', mg_SQL = migration_23 \<rparr>,
     \<lparr> mg_Version = 24, mg_Description = ''Allow multiple versions per event (remove UNIQUE(pubkey, d_tag) constraints)'', mg_SQL = migration_24 \<rparr>,
     \<lparr> mg_Version = 25, mg_Description = ''Drop tx_block_index table - P2WPKH inputs get addresses from witness data'', mg_SQL = migration_25 \<rparr>,
     \<lparr> mg_Version = 26, mg_Description = ''Enhanced awareness: allow/neutral/block marks, categories, name targeting'', mg_SQL = migration_26 \<rparr>,
     \<lparr> mg_Version = 27, mg_Description = ''Redesign peer_nodes: address-centric with verification'', mg_SQL = migration_27 \<rparr>,
     \<lparr> mg_Version = 28, mg_Description = ''Add admin_pubkey to peer_nodes for awareness sync'', mg_SQL = migration_28 \<rparr>,
     \<lparr> mg_Version = 29, mg_Description = ''NIP-33 cleanup: deduplicate existing events, keep only latest per pubkey+d_tag'', mg_SQL = migration_29 \<rparr>]"

section \<open>Opening the database\<close>

definition plain_exec :: "stmt list \<Rightarrow> schema \<Rightarrow> schema option" where
  "plain_exec xs s = (case exec_script xs s of Inl _ \<Rightarrow> None | Inr s' \<Rightarrow> Some s')"

text \<open>The schema is initialised outside a transaction.\<close>

definition initSchema :: "sqlite \<Rightarrow> (sqlite, sqlite) res" where
  "initSchema db = (case exec_script initial_statements (sq_schema db) of
     Inl s \<Rightarrow> Err (db\<lparr>sq_schema := s\<rparr>) | Inr s \<Rightarrow> Ok (db\<lparr>sq_schema := s\<rparr>))"

definition New :: "sqlite \<Rightarrow> (sqlite, sqlite) res" where
  "New db = (case initSchema db of Inl e \<Rightarrow> Err e | Inr db1 \<Rightarrow> Run plain_exec getMigrations db1)"

definition empty_file :: sqlite where
  "empty_file = \<lparr> sq_schema = \<lparr> sc_tables = [], sc_indexes = [], sc_triggers = [] \<rparr>, sq_versions = None \<rparr>"

section \<open>An interrupted start\<close>

lemma current_next:
  assumes "getCurrentVersion db = Some c" "c < mg_Version m" "runMigration exec m db = Some db'"
  shows "getCurrentVersion db' = Some (mg_Version m)"
proof -
  obtain vs where vs: "sq_versions db = Some vs" "sq_versions db' = Some (vs @ [mg_Version m])"
    using assms(3) by (auto simp: runMigration_def split: option.splits if_splits)
  then have "c = foldl max 0 vs" using assms(1) by (simp add: getCurrentVersion_def)
  then show ?thesis using vs(2) assms(2) by (simp add: getCurrentVersion_def)
qed

lemma later_versions:
  "sorted_wrt (<) (map mg_Version ms) \<Longrightarrow> filter (\<lambda>m. c < mg_Version m) ms = m # rest \<Longrightarrow>
    filter (\<lambda>x. mg_Version m < mg_Version x) ms = rest"
proof (induction ms)
  case (Cons x xs)
  show ?case
  proof (cases "c < mg_Version x")
    case True
    then have "m = x" "rest = filter (\<lambda>m. c < mg_Version m) xs" using Cons.prems(2) by simp_all
    moreover have "\<forall>y \<in> set xs. mg_Version x < mg_Version y" using Cons.prems(1) by simp
    moreover from this have "filter (\<lambda>y. mg_Version x < mg_Version y) xs = xs" "filter (\<lambda>y. c < mg_Version y) xs = xs"
      using True by (auto intro!: filter_True)
    ultimately show ?thesis by simp
  next
    case False
    then have f: "filter (\<lambda>m. c < mg_Version m) xs = m # rest" using Cons.prems(2) by simp
    then have "m \<in> set (filter (\<lambda>m. c < mg_Version m) xs)" by simp
    then have "m \<in> set xs" "c < mg_Version m" by simp_all
    then have "mg_Version x < mg_Version m" using Cons.prems(1) by auto
    then show ?thesis using Cons.IH[OF _ f] Cons.prems(1) by simp
  qed
qed simp

lemma run_resumes:
  assumes "sorted_wrt (<) (map mg_Version migrations)" "\<And>x s s'. flaky x s = Some s' \<Longrightarrow> exec x s = Some s'"
    and "getCurrentVersion db = Some c" "pending = filter (\<lambda>m. c < mg_Version m) migrations"
    and "run_pending flaky pending db = Err db1 \<or> run_pending flaky pending db = Ok db1"
  shows "\<exists>c1. getCurrentVersion db1 = Some c1 \<and> run_pending exec (filter (\<lambda>m. c1 < mg_Version m) migrations) db1 = run_pending exec pending db"
  using assms(3-5)
proof (induction pending arbitrary: db c)
  case Nil
  then show ?case by auto
next
  case (Cons m rest)
  show ?case
  proof (cases "runMigration flaky m db")
    case None
    then have "db1 = db" using Cons.prems(3) by simp
    then show ?thesis using Cons.prems(1) unfolding Cons.prems(2) by blast
  next
    case (Some db2)
    then have s: "runMigration exec m db = Some db2"
      using assms(2) by (auto simp: runMigration_def split: option.splits if_splits)
    have "c < mg_Version m" using Cons.prems(2) by (metis filter_eq_ConsD)
    then have c2: "getCurrentVersion db2 = Some (mg_Version m)" using current_next[OF Cons.prems(1)] Some by blast
    have r: "rest = filter (\<lambda>x. mg_Version m < mg_Version x) migrations"
      using later_versions[OF assms(1)] Cons.prems(2) by metis
    show ?thesis using Cons.IH[OF c2 r] Cons.prems(3) Some s by simp
  qed
qed


section \<open>The schema the queries rely on\<close>

definition table_columns :: "sqlite \<Rightarrow> string \<Rightarrow> string list option" where
  "table_columns db t = map_option (map fst) (columns t (sq_schema db))"

text \<open>The columns that the statements of the sources read and write, and the uniqueness constraints.\<close>

definition used_tables :: "(string \<times> string list \<times> string list list) list" where
  "used_tables =
     [(''name_events'', [''id'', ''pubkey'', ''created_at'', ''updated_at'', ''d_tag'', ''primary_name'', ''other_names'', ''content'', ''sig'', ''tags_json''], [[''id'']]),
      (''connection_events'', [''id'', ''pubkey'', ''created_at'', ''updated_at'', ''d_tag'', ''content'', ''sig'', ''tags_json''], [[''id'']]),
      (''metadata_events'', [''id'', ''pubkey'', ''created_at'', ''updated_at'', ''d_tag'', ''content'', ''sig'', ''tags_json''], [[''id'']]),
      (''anchor_events'', [''id'', ''pubkey'', ''created_at'', ''d_tag'', ''name_event_ref'', ''connection_event_ref'', ''metadata_event_ref'',
         ''transaction_id'', ''bitcoin_block_number'', ''dnn_block_number'', ''position'', ''content'', ''sig'', ''updated_at'', ''tags_json''],
         [[''id''], [''transaction_id'']]),
      (''bitcoin_transactions'', [''transaction_id'', ''bitcoin_block_number'', ''dnn_block_number'', ''position'', ''bitcoin_address'', ''fee_rate'',
         ''tie_position'', ''tie_digit'', ''discovered_at'', ''has_anchor_event'', ''anchor_event_id'', ''relay_checked_at''],
         [[''transaction_id''], [''bitcoin_block_number'', ''position'']]),
      (''dnn_blocks'', [''block_number'', ''bitcoin_block_number'', ''bitcoin_block_hash'', ''created_at'', ''synced_at'', ''block_timestamp''],
         [[''block_number''], [''bitcoin_block_number'']]),
      (''sync_state'', [''key'', ''value'', ''updated_at''], [[''key'']]),
      (''awareness_marks_local'', [''dnn_block'', ''position'', ''name'', ''mark'', ''category'', ''reason'', ''updated_at''],
         [[''dnn_block'', ''position'', ''name'']]),
      (''awareness_marks_peers'', [''dnn_block'', ''position'', ''name'', ''peer_pubkey'', ''mark'', ''category'', ''reason'', ''received_at''],
         [[''dnn_block'', ''position'', ''name'', ''peer_pubkey'']]),
      (''peer_nodes'', [''address'', ''node_npub'', ''node_pubkey'', ''announced_by'', ''is_verified'', ''fail_count'', ''last_checked'', ''last_seen'',
         ''discovered_at'', ''admin_pubkey''], [[''address'']]),
      (''discovered_relays'', [''url'', ''source'', ''discovered_by'', ''discovered_at'', ''last_seen'', ''is_active''], [[''url'']])]"

definition serves :: "sqlite \<Rightarrow> bool" where
  "serves db = (getCurrentVersion db = Some 29
     \<and> list_all (\<lambda>(t, cs, ks). table_columns db t = Some cs \<and> map_option snd (map_of (sc_tables (sq_schema db)) t) = Some ks) used_tables)"

text \<open>The starts of a node on one file.\<close>

fun starts :: "nat \<Rightarrow> sqlite \<Rightarrow> (sqlite, sqlite) res" where
  "starts 0 db = Ok db"
| "starts (Suc n) db = (case New db of Inl e \<Rightarrow> Err e | Inr db' \<Rightarrow> starts n db')"

text \<open>The schema after the first twenty migrations, and after all.\<close>

definition schema_20 :: schema where
  "schema_20 =
    \<lparr>sc_tables =
      [(''dnn_blocks'', [(''block_number'', Optional), (''bitcoin_block_number'', Required), (''bitcoin_block_hash'', Required),
       (''created_at'', Optional), (''synced_at'', Optional), (''block_timestamp'', Optional)], [[''block_number''],
       [''bitcoin_block_number'']]),
       (''bitcoin_transactions'', [(''transaction_id'', Optional), (''bitcoin_block_number'', Required), (''dnn_block_number'',
       Required), (''position'', Required), (''bitcoin_address'', Required), (''fee_rate'', Required), (''tie_position'',
       Optional), (''tie_digit'', Optional), (''discovered_at'', Required), (''has_anchor_event'', Optional),
       (''anchor_event_id'', Optional), (''relay_checked_at'', Optional)], [[''transaction_id''], [''bitcoin_block_number'',
       ''position'']]),
       (''sync_state'', [(''key'', Optional), (''value'', Optional), (''updated_at'', Optional)], [[''key'']]),
       (''tx_block_index'', [(''txid'', Optional), (''block_hash'', Required)], [[''txid'']]),
       (''reserved_addresses'', [(''address'', Optional), (''reserved_for'', Required), (''description'', Optional), (''created_at'',
       Optional)], [[''address'']]),
       (''metrics'', [(''id'', Optional), (''metric_name'', Required), (''metric_value'', Required), (''metric_type'', Required),
       (''recorded_at'', Optional)], [[''id'']]),
       (''event_cache'', [(''event_id'', Optional), (''event_kind'', Required), (''event_data'', Required), (''cached_at'', Optional),
       (''expires_at'', Optional)], [[''event_id'']]),
       (''connection_events'', [(''id'', Optional), (''pubkey'', Required), (''created_at'', Required), (''updated_at'', Optional),
       (''d_tag'', Required), (''content'', Required), (''sig'', Required), (''tags_json'', Optional)], [[''id''], [''pubkey'',
       ''d_tag'']]),
       (''metadata_events'', [(''id'', Optional), (''pubkey'', Required), (''created_at'', Required), (''updated_at'', Optional),
       (''d_tag'', Required), (''content'', Required), (''sig'', Required), (''tags_json'', Optional)], [[''id''], [''pubkey'',
       ''d_tag'']]),
       (''name_events'', [(''id'', Optional), (''pubkey'', Required), (''created_at'', Required), (''updated_at'', Optional), (''d_tag'',
       Required), (''primary_name'', Optional), (''other_names'', Optional), (''content'', Optional), (''sig'', Required),
       (''tags_json'', Optional)], [[''id''], [''pubkey'', ''d_tag'']]),
       (''anchor_events'', [(''id'', Optional), (''pubkey'', Required), (''created_at'', Required), (''d_tag'', Optional),
       (''name_event_ref'', Required), (''connection_event_ref'', Required), (''metadata_event_ref'', Required),
       (''transaction_id'', Required), (''bitcoin_block_number'', Required), (''dnn_block_number'', Required), (''position'',
       Required), (''content'', Optional), (''sig'', Required), (''updated_at'', Optional)], [[''id''], [''transaction_id'']]),
       (''awareness_marks_local'', [(''dnn_block'', Required), (''position'', Required), (''mark_type'', Required), (''reason'',
       Optional), (''updated_at'', Optional)], [[''dnn_block'', ''position'']]),
       (''awareness_marks_peers'', [(''dnn_block'', Required), (''position'', Required), (''peer_pubkey'', Required), (''mark_type'',
       Required), (''reason'', Optional), (''received_at'', Optional)], [[''dnn_block'', ''position'', ''peer_pubkey'']]),
       (''peer_nodes'', [(''pubkey'', Optional), (''event_id'', Optional), (''event_created_at'', Optional), (''event_updated_at'',
       Optional), (''dns_addresses_json'', Optional), (''tor_json'', Optional), (''relays_json'', Optional), (''npub_json'',
       Optional), (''custom_transports_json'', Optional), (''is_verified'', Optional), (''last_ping_at'', Optional),
       (''last_ping_success'', Optional), (''ping_latency_ms'', Optional), (''is_active'', Optional), (''discovered_at'',
       Optional), (''last_seen'', Optional)], [[''pubkey'']])],
    sc_indexes = [(''idx_tx_block_index_hash'', ''tx_block_index''), (''idx_bitcoin_transactions_block'', ''bitcoin_transactions''),
      (''idx_bitcoin_transactions_dnn_block'', ''bitcoin_transactions''), (''idx_bitcoin_transactions_address'',
      ''bitcoin_transactions''), (''idx_metrics_name'', ''metrics''), (''idx_metrics_time'', ''metrics''),
      (''idx_event_cache_kind'', ''event_cache''), (''idx_event_cache_expires'', ''event_cache''), (''idx_dnn_blocks_timestamp'',
      ''dnn_blocks''), (''idx_connection_events_d_tag'', ''connection_events''), (''idx_metadata_events_d_tag'',
      ''metadata_events''), (''idx_name_events_primary_name'', ''name_events''), (''idx_name_events_d_tag'', ''name_events''),
      (''idx_anchor_events_bitcoin_block'', ''anchor_events''), (''idx_anchor_events_dnn_block'', ''anchor_events''),
      (''idx_anchor_events_pubkey'', ''anchor_events''), (''idx_anchor_events_d_tag'', ''anchor_events''),
      (''idx_awareness_local_type'', ''awareness_marks_local''), (''idx_awareness_peers_peer'', ''awareness_marks_peers''),
      (''idx_awareness_peers_type'', ''awareness_marks_peers''), (''idx_connection_events_pubkey_dtag_created'',
      ''connection_events''), (''idx_metadata_events_pubkey_dtag_created'', ''metadata_events''),
      (''idx_name_events_pubkey_dtag'', ''name_events''), (''idx_bitcoin_transactions_unchecked'', ''bitcoin_transactions''),
      (''idx_peer_nodes_verified'', ''peer_nodes''), (''idx_peer_nodes_active'', ''peer_nodes'')], sc_triggers =
      [(''cleanup_old_metrics'', ''metrics''), (''cleanup_expired_cache'', ''event_cache'')]\<rparr>"

definition schema_29 :: schema where
  "schema_29 =
    \<lparr>sc_tables =
      [(''dnn_blocks'', [(''block_number'', Optional), (''bitcoin_block_number'', Required), (''bitcoin_block_hash'', Required),
       (''created_at'', Optional), (''synced_at'', Optional), (''block_timestamp'', Optional)], [[''block_number''],
       [''bitcoin_block_number'']]),
       (''bitcoin_transactions'', [(''transaction_id'', Optional), (''bitcoin_block_number'', Required), (''dnn_block_number'',
       Required), (''position'', Required), (''bitcoin_address'', Required), (''fee_rate'', Required), (''tie_position'',
       Optional), (''tie_digit'', Optional), (''discovered_at'', Required), (''has_anchor_event'', Optional),
       (''anchor_event_id'', Optional), (''relay_checked_at'', Optional)], [[''transaction_id''], [''bitcoin_block_number'',
       ''position'']]),
       (''sync_state'', [(''key'', Optional), (''value'', Optional), (''updated_at'', Optional)], [[''key'']]),
       (''reserved_addresses'', [(''address'', Optional), (''reserved_for'', Required), (''description'', Optional), (''created_at'',
       Optional)], [[''address'']]),
       (''metrics'', [(''id'', Optional), (''metric_name'', Required), (''metric_value'', Required), (''metric_type'', Required),
       (''recorded_at'', Optional)], [[''id'']]),
       (''event_cache'', [(''event_id'', Optional), (''event_kind'', Required), (''event_data'', Required), (''cached_at'', Optional),
       (''expires_at'', Optional)], [[''event_id'']]),
       (''anchor_events'', [(''id'', Optional), (''pubkey'', Required), (''created_at'', Required), (''d_tag'', Optional),
       (''name_event_ref'', Required), (''connection_event_ref'', Required), (''metadata_event_ref'', Required),
       (''transaction_id'', Required), (''bitcoin_block_number'', Required), (''dnn_block_number'', Required), (''position'',
       Required), (''content'', Optional), (''sig'', Required), (''updated_at'', Optional), (''tags_json'', Optional)], [[''id''],
       [''transaction_id'']]),
       (''discovered_relays'', [(''url'', Optional), (''source'', Optional), (''discovered_by'', Optional), (''discovered_at'',
       Optional), (''last_seen'', Optional), (''is_active'', Optional)], [[''url'']]),
       (''name_events'', [(''id'', Optional), (''pubkey'', Required), (''created_at'', Required), (''updated_at'', Optional), (''d_tag'',
       Required), (''primary_name'', Optional), (''other_names'', Optional), (''content'', Optional), (''sig'', Required),
       (''tags_json'', Optional)], [[''id'']]),
       (''connection_events'', [(''id'', Optional), (''pubkey'', Required), (''created_at'', Required), (''updated_at'', Optional),
       (''d_tag'', Required), (''content'', Required), (''sig'', Required), (''tags_json'', Optional)], [[''id'']]),
       (''metadata_events'', [(''id'', Optional), (''pubkey'', Required), (''created_at'', Required), (''updated_at'', Optional),
       (''d_tag'', Required), (''content'', Required), (''sig'', Required), (''tags_json'', Optional)], [[''id'']]),
       (''awareness_marks_local'', [(''dnn_block'', Required), (''position'', Required), (''name'', Optional), (''mark'', Required),
       (''category'', Optional), (''reason'', Optional), (''updated_at'', Optional)], [[''dnn_block'', ''position'', ''name'']]),
       (''awareness_marks_peers'', [(''dnn_block'', Required), (''position'', Required), (''name'', Optional), (''peer_pubkey'',
       Required), (''mark'', Required), (''category'', Optional), (''reason'', Optional), (''received_at'', Optional)],
       [[''dnn_block'', ''position'', ''name'', ''peer_pubkey'']]),
       (''peer_nodes'', [(''address'', Optional), (''node_npub'', Optional), (''node_pubkey'', Optional), (''announced_by'', Optional),
       (''is_verified'', Optional), (''fail_count'', Optional), (''last_checked'', Optional), (''last_seen'', Optional),
       (''discovered_at'', Optional), (''admin_pubkey'', Optional)], [[''address'']])],
    sc_indexes = [(''idx_bitcoin_transactions_block'', ''bitcoin_transactions''), (''idx_bitcoin_transactions_dnn_block'',
      ''bitcoin_transactions''), (''idx_bitcoin_transactions_address'', ''bitcoin_transactions''), (''idx_metrics_name'',
      ''metrics''), (''idx_metrics_time'', ''metrics''), (''idx_event_cache_kind'', ''event_cache''),
      (''idx_event_cache_expires'', ''event_cache''), (''idx_dnn_blocks_timestamp'', ''dnn_blocks''),
      (''idx_anchor_events_bitcoin_block'', ''anchor_events''), (''idx_anchor_events_dnn_block'', ''anchor_events''),
      (''idx_anchor_events_pubkey'', ''anchor_events''), (''idx_anchor_events_d_tag'', ''anchor_events''),
      (''idx_bitcoin_transactions_unchecked'', ''bitcoin_transactions''), (''idx_discovered_relays_source'',
      ''discovered_relays''), (''idx_discovered_relays_active'', ''discovered_relays''), (''idx_name_events_pubkey_dtag'',
      ''name_events''), (''idx_name_events_primary_name'', ''name_events''), (''idx_name_events_d_tag'', ''name_events''),
      (''idx_name_events_created_at'', ''name_events''), (''idx_connection_events_pubkey_dtag'', ''connection_events''),
      (''idx_connection_events_d_tag'', ''connection_events''), (''idx_connection_events_pubkey_dtag_created'',
      ''connection_events''), (''idx_metadata_events_pubkey_dtag'', ''metadata_events''), (''idx_metadata_events_d_tag'',
      ''metadata_events''), (''idx_metadata_events_pubkey_dtag_created'', ''metadata_events''), (''idx_awareness_local_mark'',
      ''awareness_marks_local''), (''idx_awareness_local_category'', ''awareness_marks_local''), (''idx_awareness_local_name'',
      ''awareness_marks_local''), (''idx_awareness_peers_peer'', ''awareness_marks_peers''), (''idx_awareness_peers_mark'',
      ''awareness_marks_peers''), (''idx_awareness_peers_category'', ''awareness_marks_peers''), (''idx_peer_nodes_pubkey'',
      ''peer_nodes''), (''idx_peer_nodes_fail'', ''peer_nodes'')], sc_triggers = [(''cleanup_old_metrics'', ''metrics''),
      (''cleanup_expired_cache'', ''event_cache'')]\<rparr>"

definition db_20 :: sqlite where
  "db_20 = \<lparr>sq_schema = schema_20, sq_versions = Some [1..20]\<rparr>"

definition db_29 :: sqlite where
  "db_29 = \<lparr>sq_schema = schema_29, sq_versions = Some [1..29]\<rparr>"

lemma run_to_20: "case initSchema empty_file of Inl _ \<Rightarrow> False | Inr db \<Rightarrow> Run plain_exec (take 20 getMigrations) db = Ok db_20"
  by code_simp

lemma run_from_20: "Run plain_exec getMigrations db_20 = Ok db_29"
  by code_simp

lemma run_pending_append:
  "run_pending exec (xs @ ys) db = (case run_pending exec xs db of Inl e \<Rightarrow> Err e | Inr db' \<Rightarrow> run_pending exec ys db')"
  by (induction xs arbitrary: db) (simp_all split: option.splits)

lemma first_start: "New empty_file = Ok db_29"
proof -
  let ?ms = getMigrations
  obtain db where db: "initSchema empty_file = Ok db" "Run plain_exec (take 20 ?ms) db = Ok db_20"
    using run_to_20 by (auto split: sum.splits)
  have "sq_versions db = None" using db(1) by (auto simp: initSchema_def empty_file_def split: sum.splits)
  then have c: "getCurrentVersion (createMigrationsTable db) = Some 0" by (simp add: getCurrentVersion_def createMigrationsTable_def)
  have parts: "filter (\<lambda>m. mg_Version m > 0) (take 20 ?ms) = take 20 ?ms" "filter (\<lambda>m. mg_Version m > 0) ?ms = take 20 ?ms @ drop 20 ?ms"
    "filter (\<lambda>m. mg_Version m > 20) ?ms = drop 20 ?ms" by (simp_all add: getMigrations_def)
  have c20: "getCurrentVersion db_20 = Some 20" "createMigrationsTable db_20 = db_20" by code_simp+
  have "run_pending plain_exec (take 20 ?ms) (createMigrationsTable db) = Ok db_20"
    using db(2) by (simp only: Run_def Let_def c option.case parts)
  then have "Run plain_exec ?ms db = run_pending plain_exec (drop 20 ?ms) db_20"
    by (simp only: Run_def Let_def c option.case parts run_pending_append sum.case)
  also have "\<dots> = Run plain_exec ?ms db_20" by (simp only: Run_def Let_def c20 option.case parts)
  finally show ?thesis using db(1) run_from_20 by (simp add: New_def)
qed

text \<open>The next starts, and a start after a rollback, which leaves the schema.\<close>

lemma next_starts:
  "case New db_29 of Inl _ \<Rightarrow> False | Inr db' \<Rightarrow> serves db' \<and> table_columns db' ''tx_block_index'' \<noteq> None \<and> New db' = Ok db'"
  by code_simp

lemma first_serves: "serves db_29 \<and> table_columns db_29 ''tx_block_index'' = None"
  by code_simp

lemma start_after_rollback: "case Rollback 8 db_29 of None \<Rightarrow> False | Some db \<Rightarrow> (case New db of Inl _ \<Rightarrow> True | Inr _ \<Rightarrow> False)"
  by code_simp

lemma first_starts:
  "case New empty_file of Inl _ \<Rightarrow> False
   | Inr db \<Rightarrow> serves db \<and> table_columns db ''tx_block_index'' = None
       \<and> (case New db of Inl _ \<Rightarrow> False | Inr db' \<Rightarrow> serves db' \<and> table_columns db' ''tx_block_index'' \<noteq> None \<and> New db' = Ok db')"
  using next_starts first_serves by (simp add: first_start)

text \<open>A table that a migration drops is back after the next start, and a start after a rollback fails.\<close>

lemma dropped_tables_return:
  "\<exists>db db'. New empty_file = Ok db \<and> table_columns db ''tx_block_index'' = None
     \<and> New db = Ok db' \<and> table_columns db' ''tx_block_index'' \<noteq> None"
  using first_starts by (auto split: sum.splits)

lemma rollback_prevents_start:
  "\<exists>db db'. New empty_file = Ok db \<and> Rollback 8 db = Some db' \<and> (\<forall>db''. New db' \<noteq> Ok db'')"
  using start_after_rollback by (auto simp: first_start split: sum.splits option.splits)

lemma copies_aligned:
  "case initSchema empty_file of Inl _ \<Rightarrow> False | Inr db \<Rightarrow> stars_aligned (concat (map mg_SQL (take 20 getMigrations))) (sq_schema db)"
  by code_simp

lemma later_copies_aligned: "stars_aligned (concat (map mg_SQL (drop 20 getMigrations))) schema_20"
  by code_simp


text \<open>A failure in the ninth migration.\<close>

definition busy_exec :: "stmt list \<Rightarrow> schema \<Rightarrow> schema option" where
  "busy_exec xs s = (if xs = migration_9 then None else plain_exec xs s)"


end
