(* ===== verification/Program.thy ===== *)
theory Program
  imports Config Migrations
begin

text \<open>
  \<^verbatim>\<open>src/main.go\<close>: a start of the program, from the flags to the open database.  What follows, the servers
  and the waiting for a signal, is in the theories of the components.
\<close>

section \<open>A start\<close>

record flags =
  fl_config :: string
  fl_port :: int
  fl_data :: string
  fl_init :: bool

text \<open>What a process finds and leaves: the files and, per data directory, the database file.\<close>

record machine =
  mc_files :: files
  mc_db :: "string \<Rightarrow> sqlite"

datatype started = ConfigFailed config_error | Initialized config | DatabaseFailed config | Running config

definition main_start :: "keygen \<Rightarrow> flags \<Rightarrow> machine \<Rightarrow> started \<times> machine" where
  "main_start kg fl m =
     (case Load kg (fl_config fl) (fl_port fl) (fl_data fl) (fl_init fl) (mc_files m) of
        (Inl e, fs) \<Rightarrow> (ConfigFailed e, m\<lparr>mc_files := fs\<rparr>)
      | (Inr cfg0, fs) \<Rightarrow>
          let cfg = config_Validate cfg0; m1 = m\<lparr>mc_files := fs\<rparr> in
          if fl_init fl then (Initialized cfg, m1)
          else case New (mc_db m (cf_DataDir cfg)) of
            Inl db \<Rightarrow> (DatabaseFailed cfg, m1\<lparr>mc_db := (mc_db m1)(cf_DataDir cfg := db)\<rparr>)
          | Inr db \<Rightarrow> (Running cfg, m1\<lparr>mc_db := (mc_db m1)(cf_DataDir cfg := db)\<rparr>))"

text \<open>Starts one after the other, each with its own generator and flags.\<close>

fun main_starts :: "(keygen \<times> flags) list \<Rightarrow> machine \<Rightarrow> started list \<times> machine" where
  "main_starts [] m = ([], m)"
| "main_starts ((kg, fl) # ss) m =
     (case main_start kg fl m of (r, m1) \<Rightarrow> (case main_starts ss m1 of (rs, m2) \<Rightarrow> (r # rs, m2)))"

text \<open>A database file is good when it is new or a start has left it.\<close>

definition good_db :: "sqlite \<Rightarrow> bool" where
  "good_db db \<longleftrightarrow> (\<exists>n. starts n empty_file = Ok db)"

lemma starts_last: "starts (Suc n) db = (case starts n db of Inl e \<Rightarrow> Err e | Inr db' \<Rightarrow> New db')"
proof (induction n arbitrary: db)
  case 0
  show ?case by (cases "New db") simp_all
next
  case (Suc n)
  show ?case
  proof (cases "New db")
    case (Inr db')
    then show ?thesis using Suc[of db'] by simp
  qed simp
qed

lemma good_empty: "good_db empty_file"
  unfolding good_db_def by (rule exI[of _ 0]) simp

lemma good_next:
  assumes "good_db db"
  shows "\<exists>db'. New db = Ok db' \<and> good_db db' \<and> serves db'"
proof -
  obtain n where n: "starts n empty_file = Ok db" using assms by (auto simp: good_db_def)
  obtain db1 db2 where db1: "New empty_file = Ok db1" "serves db1" and db2: "New db1 = Ok db2" "serves db2" "New db2 = Ok db2"
    using first_starts by (auto split: sum.splits)
  have s2: "starts k db2 = Ok db2" for k by (induction k) (simp_all add: db2(3))
  obtain db' where "starts (Suc n) empty_file = Ok db'" "serves db'"
    using db1 db2 s2 by (cases n) auto
  moreover from this(1) have "New db = Ok db'" by (simp only: starts_last n sum.case)
  ultimately show ?thesis unfolding good_db_def by blast
qed

section \<open>Identity over restarts\<close>

text \<open>A later start: no initialisation, the same configuration file, directories that can be used.\<close>

definition restart_with :: "string \<Rightarrow> files \<Rightarrow> flags \<Rightarrow> bool" where
  "restart_with path fs fl \<longleftrightarrow> \<not> fl_init fl \<and> fl_config fl = path \<and> fl_data fl \<notin> set (fs_no_dir fs)"

definition runs_as :: "config \<Rightarrow> flags \<Rightarrow> started \<Rightarrow> bool" where
  "runs_as cfg fl r = (r = Running (config_Validate (with_flags (fl_port fl) (fl_data fl) cfg)))"

lemma later_start:
  assumes "Save cfg path fs0 = Ok fs" "storable cfg" "restart_with path fs0 fl" "mc_files m = fs" "\<forall>d. good_db (mc_db m d)"
  shows "\<exists>m'. main_start kg fl m = (Running (config_Validate (with_flags (fl_port fl) (fl_data fl) cfg)), m')
    \<and> mc_files m' = fs \<and> (\<forall>d. good_db (mc_db m' d)) \<and> serves (mc_db m' (cf_DataDir (with_flags (fl_port fl) (fl_data fl) cfg)))"
proof -
  let ?c = "with_flags (fl_port fl) (fl_data fl) cfg"
  have l: "Load kg path (fl_port fl) (fl_data fl) False fs = (Ok ?c, fs)"
    using saved_config_loads[OF assms(1,2)] assms(3) by (simp add: restart_with_def)
  have dir: "cf_DataDir (config_Validate c) = cf_DataDir c" for c by (simp add: config_Validate_def Let_def)
  obtain db' where "New (mc_db m (cf_DataDir ?c)) = Ok db'" "good_db db'" "serves db'" using good_next assms(5) by blast
  then show ?thesis using l assms(3-5) by (simp add: main_start_def restart_with_def dir Let_def)
qed



end
