(* ===== verification/Metrics.thy ===== *)
theory Metrics
  imports Prelude Complex_Main "HOL-Library.Signed_Division"
begin

text \<open>
  \<^verbatim>\<open>src/internal/metrics/metrics.go\<close>: counters, gauges and timings.  Every operation holds the lock, so a
  run is a sequence of operations.  Times are nanoseconds; the rates of a snapshot are exact quotients,
  without the rounding of \<^verbatim>\<open>float64\<close>.
\<close>

section \<open>State and operations\<close>

record metrics =
  mt_EventsReceived :: int
  mt_EventsPublished :: int
  mt_EventsRejected :: int
  mt_NamesResolved :: int
  mt_ResolutionErrors :: int
  mt_PeersConnected :: int
  mt_PeersDisconnected :: int
  mt_BlocksSynced :: int
  mt_CurrentConnections :: int
  mt_CurrentPeers :: int
  mt_DatabaseSize :: int
  mt_CacheHits :: int
  mt_CacheMisses :: int
  mt_AverageResolutionTime :: int
  mt_AverageSyncTime :: int
  mt_LastSyncTime :: int
  mt_resolutionTimes :: "int list"
  mt_syncTimes :: "int list"
  mt_StartTime :: int

definition NewMetrics :: "int \<Rightarrow> metrics" where
  "NewMetrics now =
     \<lparr> mt_EventsReceived = 0, mt_EventsPublished = 0, mt_EventsRejected = 0, mt_NamesResolved = 0, mt_ResolutionErrors = 0,
       mt_PeersConnected = 0, mt_PeersDisconnected = 0, mt_BlocksSynced = 0, mt_CurrentConnections = 0, mt_CurrentPeers = 0,
       mt_DatabaseSize = 0, mt_CacheHits = 0, mt_CacheMisses = 0, mt_AverageResolutionTime = 0, mt_AverageSyncTime = 0,
       mt_LastSyncTime = 0, mt_resolutionTimes = [], mt_syncTimes = [], mt_StartTime = now \<rparr>"

definition IncrementEventsReceived :: "metrics \<Rightarrow> metrics" where
  "IncrementEventsReceived m = m\<lparr>mt_EventsReceived := wrap64 (mt_EventsReceived m + 1)\<rparr>"

definition IncrementEventsPublished :: "metrics \<Rightarrow> metrics" where
  "IncrementEventsPublished m = m\<lparr>mt_EventsPublished := wrap64 (mt_EventsPublished m + 1)\<rparr>"

definition IncrementEventsRejected :: "metrics \<Rightarrow> metrics" where
  "IncrementEventsRejected m = m\<lparr>mt_EventsRejected := wrap64 (mt_EventsRejected m + 1)\<rparr>"

definition IncrementNamesResolved :: "metrics \<Rightarrow> metrics" where
  "IncrementNamesResolved m = m\<lparr>mt_NamesResolved := wrap64 (mt_NamesResolved m + 1)\<rparr>"

definition IncrementResolutionErrors :: "metrics \<Rightarrow> metrics" where
  "IncrementResolutionErrors m = m\<lparr>mt_ResolutionErrors := wrap64 (mt_ResolutionErrors m + 1)\<rparr>"

definition IncrementCacheHit :: "metrics \<Rightarrow> metrics" where
  "IncrementCacheHit m = m\<lparr>mt_CacheHits := wrap64 (mt_CacheHits m + 1)\<rparr>"

definition IncrementCacheMiss :: "metrics \<Rightarrow> metrics" where
  "IncrementCacheMiss m = m\<lparr>mt_CacheMisses := wrap64 (mt_CacheMisses m + 1)\<rparr>"

definition UpdateConnectionCount :: "int \<Rightarrow> metrics \<Rightarrow> metrics" where
  "UpdateConnectionCount count m = m\<lparr>mt_CurrentConnections := count\<rparr>"

definition UpdatePeerCount :: "int \<Rightarrow> metrics \<Rightarrow> metrics" where
  "UpdatePeerCount count m = m\<lparr>mt_CurrentPeers := count\<rparr>"

definition UpdateDatabaseSize :: "int \<Rightarrow> metrics \<Rightarrow> metrics" where
  "UpdateDatabaseSize bytes m = m\<lparr>mt_DatabaseSize := bytes\<rparr>"

text \<open>The sum wraps, the division truncates.\<close>

definition calculateAverage :: "int list \<Rightarrow> int" where
  "calculateAverage ts =
     (if ts = [] then 0 else foldl (\<lambda>total t. wrap64 (total + t)) 0 ts sdiv int (length ts))"

definition keep_last :: "nat \<Rightarrow> 'a list \<Rightarrow> 'a list" where
  "keep_last n xs = (if length xs > n then drop (length xs - n) xs else xs)"

definition RecordResolutionTime :: "int \<Rightarrow> metrics \<Rightarrow> metrics" where
  "RecordResolutionTime duration m =
     (let ts = keep_last 1000 (mt_resolutionTimes m @ [duration])
      in m\<lparr>mt_resolutionTimes := ts, mt_AverageResolutionTime := calculateAverage ts\<rparr>)"

definition RecordSyncTime :: "int \<Rightarrow> int \<Rightarrow> metrics \<Rightarrow> metrics" where
  "RecordSyncTime now duration m =
     (let ts = keep_last 100 (mt_syncTimes m @ [duration])
      in m\<lparr>mt_syncTimes := ts, mt_LastSyncTime := now, mt_AverageSyncTime := calculateAverage ts\<rparr>)"

definition IncrementBlocksSynced :: "metrics \<Rightarrow> metrics" where
  "IncrementBlocksSynced m = m\<lparr>mt_BlocksSynced := wrap64 (mt_BlocksSynced m + 1)\<rparr>"

definition PeerConnected :: "metrics \<Rightarrow> metrics" where
  "PeerConnected m = m\<lparr>mt_PeersConnected := wrap64 (mt_PeersConnected m + 1), mt_CurrentPeers := wrap64 (mt_CurrentPeers m + 1)\<rparr>"

definition PeerDisconnected :: "metrics \<Rightarrow> metrics" where
  "PeerDisconnected m =
     (let m1 = m\<lparr>mt_PeersDisconnected := wrap64 (mt_PeersDisconnected m + 1)\<rparr>
      in if mt_CurrentPeers m1 > 0 then m1\<lparr>mt_CurrentPeers := mt_CurrentPeers m1 - 1\<rparr> else m1)"

definition Reset :: "int \<Rightarrow> metrics \<Rightarrow> metrics" where
  "Reset now m =
     m\<lparr>mt_EventsReceived := 0, mt_EventsPublished := 0, mt_EventsRejected := 0, mt_NamesResolved := 0, mt_ResolutionErrors := 0,
       mt_PeersConnected := 0, mt_PeersDisconnected := 0, mt_BlocksSynced := 0, mt_CacheHits := 0, mt_CacheMisses := 0,
       mt_resolutionTimes := [], mt_syncTimes := [], mt_StartTime := now\<rparr>"

text \<open>A snapshot: the state, the time, and the rates.\<close>

record metrics_snapshot =
  ms_Metrics :: metrics
  ms_Timestamp :: int
  ms_Uptime :: int
  ms_CacheHitRate :: rat
  ms_EventsPerSecond :: rat
  ms_ResolutionsPerSecond :: rat

definition GetSnapshot :: "int \<Rightarrow> metrics \<Rightarrow> metrics_snapshot" where
  "GetSnapshot now m =
     (let uptime = now - mt_StartTime m;
          uptimeSeconds = rat_of_int uptime / 1000000000;
          totalCacheOps = wrap64 (mt_CacheHits m + mt_CacheMisses m)
      in \<lparr> ms_Metrics = m, ms_Timestamp = now, ms_Uptime = uptime,
           ms_CacheHitRate = (if totalCacheOps > 0 then rat_of_int (mt_CacheHits m) / rat_of_int totalCacheOps * 100 else 0),
           ms_EventsPerSecond = (if uptimeSeconds > 0 then rat_of_int (mt_EventsReceived m) / uptimeSeconds else 0),
           ms_ResolutionsPerSecond = (if uptimeSeconds > 0 then rat_of_int (mt_NamesResolved m) / uptimeSeconds else 0) \<rparr>)"

section \<open>Averages\<close>

lemma keep_last_snoc: "0 < n \<Longrightarrow> keep_last n (keep_last n xs @ [x]) = keep_last n (xs @ [x])"
  by (auto simp: keep_last_def Suc_diff_le)

lemma keep_last_length: "length (keep_last n xs) \<le> n"
  by (simp add: keep_last_def)

lemma keep_last_set: "set (keep_last n xs) \<subseteq> set xs"
  by (simp add: keep_last_def set_drop_subset)

text \<open>After any recordings the window is the last thousand of them and the average is theirs.\<close>

lemma resolution_window:
  assumes "m' = foldl (\<lambda>m d. RecordResolutionTime d m) (NewMetrics now) (ds @ [d])"
  shows "mt_resolutionTimes m' = keep_last 1000 (ds @ [d]) \<and> mt_AverageResolutionTime m' = calculateAverage (keep_last 1000 (ds @ [d]))"
proof -
  have "mt_resolutionTimes (foldl (\<lambda>m d. RecordResolutionTime d m) (NewMetrics now) ds) = keep_last 1000 ds" for ds
  proof (induction ds rule: rev_induct)
    case Nil
    then show ?case by (simp add: NewMetrics_def keep_last_def)
  next
    case (snoc d ds)
    then show ?case by (simp add: RecordResolutionTime_def Let_def keep_last_snoc)
  qed
  then show ?thesis using assms by (simp add: RecordResolutionTime_def Let_def keep_last_snoc)
qed

text \<open>Without overflow the sum is exact, and the average lies between the least and the greatest time.\<close>

lemma exact_total:
  assumes "\<forall>t \<in> set ts. 0 \<le> t" "0 \<le> a" "a + sum_list ts \<le> MaxInt64"
  shows "foldl (\<lambda>total t. wrap64 (total + t)) a ts = a + sum_list ts"
  using assms
proof (induction ts arbitrary: a)
  case (Cons t ts)
  have "0 \<le> sum_list ts" using Cons.prems(1) by (intro sum_list_nonneg) auto
  then have "in64 (a + t)" using Cons.prems by (simp add: in64_def)
  then show ?case using Cons.IH[of "a + t"] Cons.prems by (simp add: wrap64_id add.assoc)
qed simp

lemma average_between:
  assumes "ts \<noteq> []" "\<forall>t \<in> set ts. lo \<le> t \<and> t \<le> hi" "0 \<le> lo" "sum_list ts \<le> MaxInt64"
  shows "lo \<le> calculateAverage ts \<and> calculateAverage ts \<le> hi"
proof -
  have total: "foldl (\<lambda>total t. wrap64 (total + t)) 0 ts = sum_list ts"
    using exact_total[of ts 0] assms by fastforce
  have "\<forall>t \<in> set us. lo \<le> t \<and> t \<le> hi \<Longrightarrow> lo * int (length us) \<le> sum_list us \<and> sum_list us \<le> hi * int (length us)" for us
    by (induction us) (auto simp: algebra_simps)
  then have b: "lo * int (length ts) \<le> sum_list ts" "sum_list ts \<le> hi * int (length ts)" using assms(2) by auto
  have l: "0 < int (length ts)" using assms(1) by simp
  have "0 \<le> sum_list ts" using b(1) assms(3) by (smt (verit) mult_nonneg_nonneg of_nat_0_le_iff)
  then have "calculateAverage ts = sum_list ts div int (length ts)"
    using assms(1) l total by (cases "sum_list ts = 0") (simp_all add: calculateAverage_def signed_divide_int_def sgn_if)
  moreover have "lo \<le> sum_list ts div int (length ts)" using zdiv_mono1[OF b(1) l] l by simp
  moreover have "sum_list ts div int (length ts) \<le> hi"
    using zdiv_mono1[OF b(2) l] l by simp
  ultimately show ?thesis by simp
qed

section \<open>Peers and resets\<close>

text \<open>The gauge of the peers is never negative while only connections change it.\<close>

lemma peer_gauge:
  "foldl (\<lambda>m c. if c then PeerConnected m else PeerDisconnected m) (NewMetrics now) cs = m \<Longrightarrow> length cs < 1000000000
   \<Longrightarrow> 0 \<le> mt_CurrentPeers m \<and> mt_CurrentPeers m \<le> int (length cs) \<and> mt_PeersConnected m = int (length (filter id cs))
     \<and> mt_PeersConnected m - mt_PeersDisconnected m \<le> mt_CurrentPeers m
     \<and> mt_PeersDisconnected m = int (length (filter Not cs))"
proof (induction cs arbitrary: m rule: rev_induct)
  case Nil
  then show ?case by (auto simp: NewMetrics_def)
next
  case (snoc c cs)
  obtain m0 where m0: "foldl (\<lambda>m c. if c then PeerConnected m else PeerDisconnected m) (NewMetrics now) cs = m0" by simp
  have f: "length (filter P cs) \<le> length cs" for P by simp
  note IH = snoc.IH[OF m0]
  have small: "0 \<le> x \<Longrightarrow> x \<le> 2000000000 \<Longrightarrow> wrap64 x = x" for x by (rule wrap64_id) (simp add: in64_def)
  have n: "int (length (filter id cs)) \<le> 1000000000" "int (length (filter Not cs)) \<le> 1000000000" "int (length cs) \<le> 1000000000"
    using snoc.prems(2) f[of id] f[of Not] by (simp_all del: length_filter_le)
  show ?case
  proof (cases c)
    case True
    then have "m = PeerConnected m0" using snoc.prems(1) m0 by simp
    then show ?thesis using IH snoc.prems(2) True n by (simp add: PeerConnected_def small)
  next
    case False
    then have "m = PeerDisconnected m0" using snoc.prems(1) m0 by simp
    then show ?thesis using IH snoc.prems(2) False n by (auto simp: PeerDisconnected_def Let_def small)
  qed
qed

text \<open>A reset empties the windows but keeps the averages, the gauges and the time of the last sync.\<close>

lemma reset_keeps_averages:
  "mt_AverageResolutionTime (Reset now m) = mt_AverageResolutionTime m \<and> mt_AverageSyncTime (Reset now m) = mt_AverageSyncTime m
   \<and> mt_CurrentPeers (Reset now m) = mt_CurrentPeers m \<and> mt_resolutionTimes (Reset now m) = []"
  by (simp add: Reset_def)

text \<open>The rate of cache hits is a percentage.\<close>

lemma hit_rate_bounds:
  assumes "0 \<le> mt_CacheHits m" "0 \<le> mt_CacheMisses m" "mt_CacheHits m + mt_CacheMisses m \<le> MaxInt64"
  shows "0 \<le> ms_CacheHitRate (GetSnapshot now m) \<and> ms_CacheHitRate (GetSnapshot now m) \<le> 100"
proof -
  have w: "wrap64 (mt_CacheHits m + mt_CacheMisses m) = mt_CacheHits m + mt_CacheMisses m"
    using assms by (intro wrap64_id) (simp add: in64_def)
  show ?thesis
  proof (cases "0 < mt_CacheHits m + mt_CacheMisses m")
    case True
    then have "rat_of_int (mt_CacheHits m) \<le> rat_of_int (mt_CacheHits m + mt_CacheMisses m)" "0 < rat_of_int (mt_CacheHits m + mt_CacheMisses m)"
      "0 \<le> rat_of_int (mt_CacheHits m)" using assms by linarith+
    then have "rat_of_int (mt_CacheHits m) / rat_of_int (mt_CacheHits m + mt_CacheMisses m) \<in> {0..1}" by simp
    moreover have "ms_CacheHitRate (GetSnapshot now m) = rat_of_int (mt_CacheHits m) / rat_of_int (mt_CacheHits m + mt_CacheMisses m) * 100"
      using True by (simp add: GetSnapshot_def Let_def w)
    moreover have "q \<in> {0..1} \<Longrightarrow> 0 \<le> q * 100 \<and> q * 100 \<le> 100" for q :: rat by simp
    ultimately show ?thesis by metis
  qed (simp add: GetSnapshot_def Let_def w)
qed

end
