(* ===== verification/Hub.thy ===== *)
theory Hub
  imports Relay
begin

text \<open>
  \<^verbatim>\<open>src/internal/websocket/client.go\<close>: the hub of the WebSocket clients, their send channels and the
  messages they send.  A channel holds 256 messages; sending on a full one blocks, on a closed one
  panics.  The decoders of events and filters and the signature check of go-nostr are arguments, as is
  the connection, which gives the incoming messages and takes the outgoing ones.
\<close>

section \<open>Clients and the hub\<close>

datatype ws_message = WsEvent string event | WsOk string bool string | WsEose string | WsError string string | WsRaw string

record ws_client =
  wc_Send :: "ws_message list"
  wc_closed :: bool
  wc_Subscriptions :: "(string \<times> nostr_filter list) list"

text \<open>Clients are numbered; \<open>hb_clients\<close> is the set the hub keeps.\<close>

record hub =
  hb_clients :: "nat list"
  hb_client :: "nat \<Rightarrow> ws_client"

definition NewClient :: ws_client where
  "NewClient = \<lparr> wc_Send = [], wc_closed = False, wc_Subscriptions = [] \<rparr>"

definition NewHub :: hub where
  "NewHub = \<lparr> hb_clients = [], hb_client = (\<lambda>_. NewClient) \<rparr>"

definition capacity :: nat where
  "capacity = 256"

definition set_client :: "nat \<Rightarrow> ws_client \<Rightarrow> hub \<Rightarrow> hub" where
  "set_client c x h = h\<lparr>hb_client := (hb_client h)(c := x)\<rparr>"

datatype 'a channel = Sent 'a | Full | SendPanic

text \<open>A send: in a \<^verbatim>\<open>select\<close> with a default, \<open>Full\<close> takes the default; otherwise it waits.\<close>

definition send_to :: "nat \<Rightarrow> ws_message \<Rightarrow> hub \<Rightarrow> hub channel" where
  "send_to c m h =
     (let x = hb_client h c in
      if wc_closed x then SendPanic
      else if length (wc_Send x) \<ge> capacity then Full
      else Sent (set_client c (x\<lparr>wc_Send := wc_Send x @ [m]\<rparr>) h))"

section \<open>The loop of the hub\<close>

definition register_client :: "nat \<Rightarrow> hub \<Rightarrow> hub" where
  "register_client c h = (if c \<in> set (hb_clients h) then h else h\<lparr>hb_clients := hb_clients h @ [c]\<rparr>)"

definition close_client :: "nat \<Rightarrow> hub \<Rightarrow> hub" where
  "close_client c h = (set_client c ((hb_client h c)\<lparr>wc_closed := True\<rparr>) h)\<lparr>hb_clients := filter (\<lambda>x. x \<noteq> c) (hb_clients h)\<rparr>"

definition unregister_client :: "nat \<Rightarrow> hub \<Rightarrow> hub" where
  "unregister_client c h = (if c \<in> set (hb_clients h) then close_client c h else h)"

text \<open>A broadcast to the clients in turn; one whose channel is full is closed.  \<open>None\<close> is a panic.\<close>

fun broadcast_to :: "nat list \<Rightarrow> ws_message \<Rightarrow> hub \<Rightarrow> hub option" where
  "broadcast_to [] m h = Some h"
| "broadcast_to (c # cs) m h =
     (case send_to c m h of
        Sent h' \<Rightarrow> broadcast_to cs m h'
      | Full \<Rightarrow> broadcast_to cs m (close_client c h)
      | SendPanic \<Rightarrow> None)"

definition hub_broadcast :: "string \<Rightarrow> hub \<Rightarrow> hub option" where
  "hub_broadcast message h = broadcast_to (hb_clients h) (WsRaw message) h"

definition matchesFilter :: "event \<Rightarrow> nostr_filter \<Rightarrow> bool" where
  "matchesFilter ev f \<longleftrightarrow>
     (f_IDs f = [] \<or> ev_id ev \<in> set (f_IDs f)) \<and> (f_Kinds f = [] \<or> ev_kind ev \<in> set (f_Kinds f))
     \<and> (f_Authors f = [] \<or> ev_pubkey ev \<in> set (f_Authors f))
     \<and> \<not> (case f_Since f of None \<Rightarrow> False | Some s \<Rightarrow> ev_created_at ev < s)
     \<and> \<not> (case f_Until f of None \<Rightarrow> False | Some u \<Rightarrow> ev_created_at ev > u)"

text \<open>One event per matching subscription; a full channel drops it.\<close>

fun event_to :: "(nat \<times> string) list \<Rightarrow> event \<Rightarrow> hub \<Rightarrow> hub option" where
  "event_to [] ev h = Some h"
| "event_to ((c, subID) # ds) ev h =
     (case send_to c (WsEvent subID ev) h of Sent h' \<Rightarrow> event_to ds ev h' | Full \<Rightarrow> event_to ds ev h | SendPanic \<Rightarrow> None)"

definition matching_subs :: "event \<Rightarrow> hub \<Rightarrow> (nat \<times> string) list" where
  "matching_subs ev h = concat (map (\<lambda>c. map (\<lambda>s. (c, fst s))
     (filter (\<lambda>s. list_ex (matchesFilter ev) (snd s)) (wc_Subscriptions (hb_client h c)))) (hb_clients h))"

definition hub_BroadcastEvent :: "event \<Rightarrow> hub \<Rightarrow> hub option" where
  "hub_BroadcastEvent ev h = event_to (matching_subs ev h) ev h"

definition GetClientCount :: "hub \<Rightarrow> nat" where
  "GetClientCount h = length (hb_clients h)"

section \<open>Messages of a client\<close>

record ws_lib =
  wl_filter :: "json \<Rightarrow> nostr_filter option"
  wl_event :: "json \<Rightarrow> event option"
  wl_signed :: "event \<Rightarrow> bool"

text \<open>What a handler does: an error for the client, a reply to send, or nothing.\<close>

datatype reply = Refused string | Answer ws_message | Silent

definition json_text :: "json \<Rightarrow> string option" where
  "json_text j = (case j of JStr s \<Rightarrow> Some s | JNull \<Rightarrow> Some [] | _ \<Rightarrow> None)"

fun decode_filters :: "ws_lib \<Rightarrow> json list \<Rightarrow> nostr_filter list option" where
  "decode_filters lib [] = Some []"
| "decode_filters lib (j # js) =
     (case wl_filter lib j of None \<Rightarrow> None | Some f \<Rightarrow> map_option (Cons f) (decode_filters lib js))"

definition handleReq :: "ws_lib \<Rightarrow> json list \<Rightarrow> ws_client \<Rightarrow> reply \<times> ws_client" where
  "handleReq lib msg x =
     (if length msg < 3 then (Refused ''REQ message missing subscription ID or filters'', x)
      else case json_text (msg ! 1) of
        None \<Rightarrow> (Refused ''invalid subscription ID'', x)
      | Some subID \<Rightarrow>
          (case decode_filters lib (drop 2 msg) of
             None \<Rightarrow> (Refused ''invalid filter format'', x)
           | Some fs \<Rightarrow> (Answer (WsEose subID), x\<lparr>wc_Subscriptions := map_put subID fs (wc_Subscriptions x)\<rparr>)))"

definition handleClose_msg :: "json list \<Rightarrow> ws_client \<Rightarrow> reply \<times> ws_client" where
  "handleClose_msg msg x =
     (if length msg < 2 then (Refused ''CLOSE message missing subscription ID'', x)
      else case json_text (msg ! 1) of
        None \<Rightarrow> (Refused ''invalid subscription ID'', x)
      | Some subID \<Rightarrow> (Silent, x\<lparr>wc_Subscriptions := filter (\<lambda>s. fst s \<noteq> subID) (wc_Subscriptions x)\<rparr>))"

text \<open>A signed event is acknowledged and dropped.\<close>

definition handleEvent_msg :: "ws_lib \<Rightarrow> json list \<Rightarrow> ws_client \<Rightarrow> reply \<times> ws_client" where
  "handleEvent_msg lib msg x =
     (if length msg < 2 then (Refused ''EVENT message missing event data'', x)
      else case wl_event lib (msg ! 1) of
        None \<Rightarrow> (Refused ''invalid event format'', x)
      | Some ev \<Rightarrow>
          (Answer (if wl_signed lib ev then WsOk (ev_id ev) True []
                   else WsOk (ev_id ev) False ''invalid: signature verification failed''), x))"

definition handleMessage :: "ws_lib \<Rightarrow> string \<Rightarrow> ws_client \<Rightarrow> reply \<times> ws_client" where
  "handleMessage lib message x =
     (case parse_json message of
        Some JNull \<Rightarrow> (Refused ''empty message'', x)
      | Some (JArr msg) \<Rightarrow>
          if length msg < 1 then (Refused ''empty message'', x)
          else (case json_text (hd msg) of
             None \<Rightarrow> (Refused ''invalid message type'', x)
           | Some msgType \<Rightarrow>
               if msgType = ''REQ'' then handleReq lib msg x
               else if msgType = ''CLOSE'' then handleClose_msg msg x
               else if msgType = ''EVENT'' then handleEvent_msg lib msg x
               else (Refused (''unknown message type: '' @ msgType), x))
      | _ \<Rightarrow> (Refused ''invalid message format'', x))"

text \<open>
  One message in the loop of \<^verbatim>\<open>ReadPump\<close>.  The subscription is stored before the reply is sent; a full
  channel blocks the loop until \<^verbatim>\<open>WritePump\<close> has taken a message.
\<close>

definition read_message :: "ws_lib \<Rightarrow> nat \<Rightarrow> string \<Rightarrow> hub \<Rightarrow> hub channel" where
  "read_message lib c message h =
     (case handleMessage lib message (hb_client h c) of
        (Refused e, x) \<Rightarrow> send_to c (WsError ''NOTICE'' e) (set_client c x h)
      | (Answer m, x) \<Rightarrow> send_to c m (set_client c x h)
      | (Silent, x) \<Rightarrow> Sent (set_client c x h))"

text \<open>\<^verbatim>\<open>WritePump\<close> takes a message; on a closed and empty channel it ends and closes the connection.\<close>

definition write_message :: "nat \<Rightarrow> hub \<Rightarrow> (ws_message option \<times> hub) option" where
  "write_message c h =
     (case wc_Send (hb_client h c) of
        m # ms \<Rightarrow> Some (Some m, set_client c ((hb_client h c)\<lparr>wc_Send := ms\<rparr>) h)
      | [] \<Rightarrow> if wc_closed (hb_client h c) then Some (None, h) else None)"

section \<open>Runs\<close>

text \<open>
  The pumps and the hub take turns.  A client is registered once, with a new channel; it may leave, and
  its \<^verbatim>\<open>ReadPump\<close> may deliver messages also after the hub has closed its channel.
\<close>

inductive hub_run :: "ws_lib \<Rightarrow> nat \<Rightarrow> hub \<Rightarrow> bool" for lib where
  hub_new: "hub_run lib 0 NewHub"
| hub_join: "hub_run lib n h \<Longrightarrow> hub_run lib (Suc n) (register_client n h)"
| hub_leave: "hub_run lib n h \<Longrightarrow> c < n \<Longrightarrow> hub_run lib n (unregister_client c h)"
| hub_message: "hub_run lib n h \<Longrightarrow> hub_broadcast m h = Some h' \<Longrightarrow> hub_run lib n h'"
| hub_event: "hub_run lib n h \<Longrightarrow> hub_BroadcastEvent ev h = Some h' \<Longrightarrow> hub_run lib n h'"
| hub_read: "hub_run lib n h \<Longrightarrow> c < n \<Longrightarrow> read_message lib c text h = Sent h' \<Longrightarrow> hub_run lib n h'"
| hub_write: "hub_run lib n h \<Longrightarrow> c < n \<Longrightarrow> write_message c h = Some (out, h') \<Longrightarrow> hub_run lib n h'"

definition hub_ok :: "nat \<Rightarrow> hub \<Rightarrow> bool" where
  "hub_ok n h \<longleftrightarrow> distinct (hb_clients h) \<and> (\<forall>c \<in> set (hb_clients h). c < n \<and> \<not> wc_closed (hb_client h c))
     \<and> (\<forall>c. length (wc_Send (hb_client h c)) \<le> capacity) \<and> (\<forall>c \<ge> n. hb_client h c = NewClient)"

lemma send_ok: "hub_ok n h \<Longrightarrow> c < n \<Longrightarrow> send_to c m h = Sent h' \<Longrightarrow> hub_ok n h' \<and> hb_clients h' = hb_clients h"
  by (auto simp: hub_ok_def send_to_def set_client_def Let_def split: if_splits)

lemma close_ok: "hub_ok n h \<Longrightarrow> c < n \<Longrightarrow> hub_ok n (close_client c h)"
  by (auto simp: hub_ok_def close_client_def set_client_def)

lemma broadcast_ok:
  "hub_ok n h \<Longrightarrow> set cs \<subseteq> set (hb_clients h) \<Longrightarrow> distinct cs \<Longrightarrow> \<exists>h'. broadcast_to cs m h = Some h' \<and> hub_ok n h'"
proof (induction cs arbitrary: h)
  case (Cons c cs)
  have c: "c < n" "\<not> wc_closed (hb_client h c)" using Cons.prems(1,2) by (auto simp: hub_ok_def)
  show ?case
  proof (cases "send_to c m h")
    case (Sent h')
    then show ?thesis using Cons.IH[of h'] Cons.prems send_ok[OF Cons.prems(1) c(1) Sent] by auto
  next
    case Full
    have "set cs \<subseteq> set (hb_clients (close_client c h))" using Cons.prems(2,3) by (auto simp: close_client_def set_client_def)
    then show ?thesis using Full Cons.IH[OF close_ok[OF Cons.prems(1) c(1)]] Cons.prems(3) by simp
  next
    case SendPanic
    then show ?thesis using c(2) by (simp add: send_to_def Let_def split: if_splits)
  qed
qed simp

lemma event_ok:
  "hub_ok n h \<Longrightarrow> fst ` set ds \<subseteq> set (hb_clients h) \<Longrightarrow> \<exists>h'. event_to ds ev h = Some h' \<and> hub_ok n h'"
proof (induction ds arbitrary: h)
  case (Cons d ds)
  obtain c s where d: "d = (c, s)" by (cases d)
  have c: "c < n" "\<not> wc_closed (hb_client h c)" using Cons.prems by (auto simp: hub_ok_def d)
  show ?case
  proof (cases "send_to c (WsEvent s ev) h")
    case (Sent h')
    then show ?thesis using Cons.IH[of h'] Cons.prems send_ok[OF Cons.prems(1) c(1) Sent] by (auto simp: d)
  next
    case Full
    then show ?thesis using Cons.IH[OF Cons.prems(1)] Cons.prems(2) by (auto simp: d)
  next
    case SendPanic
    then show ?thesis using c(2) by (simp add: send_to_def Let_def split: if_splits)
  qed
qed simp

lemma subs_of_clients: "fst ` set (matching_subs ev h) \<subseteq> set (hb_clients h)"
  by (auto simp: matching_subs_def)

lemma handled_channel:
  "handleMessage lib text x = (r, x') \<Longrightarrow> wc_Send x' = wc_Send x \<and> wc_closed x' = wc_closed x"
  by (auto simp: handleMessage_def handleReq_def handleClose_msg_def handleEvent_msg_def split: option.splits json.splits if_splits)

lemma read_ok:
  assumes "hub_ok n h" "c < n" "read_message lib c text h = Sent h'"
  shows "hub_ok n h'"
proof -
  obtain r x where r: "handleMessage lib text (hb_client h c) = (r, x)" by fastforce
  have "hub_ok n (set_client c x h)"
    using handled_channel[OF r] assms(1,2) by (auto simp: hub_ok_def set_client_def)
  then show ?thesis using assms(2,3) r send_ok by (auto simp: read_message_def split: reply.splits)
qed

lemma write_ok:
  assumes ok: "hub_ok n h" and c: "c < n" and w: "write_message c h = Some (out, h')"
  shows "hub_ok n h'"
proof (cases "wc_Send (hb_client h c)")
  case Nil
  then show ?thesis using ok w by (simp add: write_message_def split: if_splits)
next
  case (Cons m ms)
  have "length (wc_Send (hb_client h c)) \<le> capacity" using ok by (simp add: hub_ok_def)
  then have "length ms \<le> capacity" using Cons by simp
  then show ?thesis using ok c w Cons by (auto simp: hub_ok_def write_message_def set_client_def split: if_splits)
qed

lemma broadcast_keeps: "hub_ok n h \<Longrightarrow> \<exists>h'. hub_broadcast m h = Some h' \<and> hub_ok n h'"
  unfolding hub_broadcast_def by (rule broadcast_ok) (simp_all add: hub_ok_def)

lemma event_keeps: "hub_ok n h \<Longrightarrow> \<exists>h'. hub_BroadcastEvent ev h = Some h' \<and> hub_ok n h'"
  unfolding hub_BroadcastEvent_def by (rule event_ok) (simp_all add: subs_of_clients)

lemma hub_run_ok: "hub_run lib n h \<Longrightarrow> hub_ok n h"
proof (induction rule: hub_run.induct)
  case hub_new
  show ?case by (simp add: hub_ok_def NewHub_def NewClient_def)
next
  case (hub_join n h)
  then show ?case by (auto simp: hub_ok_def register_client_def NewClient_def less_Suc_eq)
next
  case (hub_leave n h c)
  then show ?case using close_ok by (simp add: unregister_client_def)
next
  case (hub_message n h m h')
  then show ?case using broadcast_keeps[of n h m] by auto
next
  case (hub_event n h ev h')
  then show ?case using event_keeps[of n h ev] by auto
next
  case (hub_read n h c message h')
  then show ?case using read_ok by blast
next
  case (hub_write n h c out h')
  then show ?case using write_ok by blast
qed

text \<open>
  In every run the hub itself never sends on a closed channel, whatever it broadcasts; every
  registered client can still be sent to, and no channel holds more than its capacity.
\<close>

lemma hub_never_panics:
  assumes "hub_run lib n h"
  shows "(\<exists>h'. hub_broadcast message h = Some h') \<and> (\<exists>h'. hub_BroadcastEvent ev h = Some h')
    \<and> (\<forall>c \<in> set (hb_clients h). \<not> wc_closed (hb_client h c)) \<and> length (wc_Send (hb_client h c)) \<le> 256"
proof -
  have ok: "hub_ok n h" by (rule hub_run_ok[OF assms])
  then have "(\<forall>c \<in> set (hb_clients h). \<not> wc_closed (hb_client h c)) \<and> length (wc_Send (hb_client h c)) \<le> 256"
    by (simp add: hub_ok_def capacity_def)
  then show ?thesis using broadcast_keeps[OF ok, of message] event_keeps[OF ok, of ev] by blast
qed

definition no_lib :: ws_lib where
  "no_lib = \<lparr> wl_filter = (\<lambda>_. None), wl_event = (\<lambda>_. None), wl_signed = (\<lambda>_. False) \<rparr>"

lemma hub_never_panics_example:
  "\<exists>h. hub_run no_lib 1 h \<and> hb_clients h = [0] \<and> (\<exists>h'. hub_broadcast ''hello'' h = Some h')"
proof -
  have r: "hub_run no_lib 1 (register_client 0 NewHub)" using hub_join[OF hub_new] by simp
  then show ?thesis
    using hub_never_panics[OF r] by (intro exI[of _ "register_client 0 NewHub"]) (auto simp: register_client_def NewHub_def)
qed

section \<open>What a client can do\<close>

text \<open>
  A client that the hub has closed and that sends one more message stops the process: the reply goes to
  the closed channel.
\<close>

lemma closed_client_panics:
  assumes "wc_closed (hb_client h c)" "handleMessage lib text (hb_client h c) = (r, x)" "r \<noteq> Silent"
  shows "read_message lib c text h = SendPanic"
  using handled_channel[OF assms(2)] assms
  by (cases r) (simp_all add: read_message_def send_to_def set_client_def Let_def)

lemma left_client_panics:
  "hub_run no_lib 1 (unregister_client 0 (register_client 0 NewHub))
   \<and> read_message no_lib 0 ''?'' (unregister_client 0 (register_client 0 NewHub)) = SendPanic"
proof
  show "hub_run no_lib 1 (unregister_client 0 (register_client 0 NewHub))"
    using hub_leave[OF hub_join[OF hub_new], of 0] by simp
  have "parse_json ''?'' = None" by code_simp
  then show "read_message no_lib 0 ''?'' (unregister_client 0 (register_client 0 NewHub)) = SendPanic"
    by (intro closed_client_panics[where r = "Refused ''invalid message format''"
          and x = "hb_client (unregister_client 0 (register_client 0 NewHub)) 0"])
      (simp_all add: unregister_client_def register_client_def NewHub_def close_client_def set_client_def handleMessage_def)
qed

text \<open>The filters of the hub ignore tags, those of the relay do not.\<close>

lemma hub_filter_weaker: "eventMatchesFilter ev f \<Longrightarrow> matchesFilter ev f"
  by (auto simp: eventMatchesFilter_def matchesFilter_def matches_list_def list_ex_iff)

lemma tags_are_ignored: "matchesFilter ev (f\<lparr>f_Tags := ts\<rparr>) = matchesFilter ev f"
  by (simp add: matchesFilter_def)

end
