(* ===== verification/Connection.thy ===== *)
theory Connection
  imports System Dashboard Hub Marshal
begin

text \<open>
  \<^verbatim>\<open>HandleConnection\<close> of \<^verbatim>\<open>src/internal/relay/relay.go\<close> and \<^verbatim>\<open>handleWebSocket\<close> of
  \<^verbatim>\<open>src/internal/node/node.go\<close>: what a connection of the relay reads, how messages are dispatched, what
  is written back, and what is left when the connection ends.  The decoders of events and filters of
  go-nostr are arguments, as in \<open>Hub\<close>.
\<close>

section \<open>Frames and messages\<close>

text \<open>What \<^verbatim>\<open>ReadMessage\<close> returns.\<close>

datatype frame = TextFrame string | OtherFrame | ReadFailed

text \<open>
  A handler gives the messages written, the new state, and whether the loop goes on: a panic of
  \<^verbatim>\<open>handleEvent\<close> ends it.
\<close>

type_synonym handled = "(nat \<times> relay_msg) list \<times> relay_state \<times> bool"

definition event_panics :: "relay_env \<Rightarrow> policy_enforcer \<Rightarrow> event \<Rightarrow> relay_state \<Rightarrow> bool" where
  "event_panics env pe ev st \<longleftrightarrow> length (ev_id ev) < 8 \<or> length (ev_pubkey ev) < 8
     \<or> policy_checks env pe ev (rs_db st) \<and> store_by_kind env ev (rs_db st) = Some (Inl (StoreFailed DPanic))"

definition sendError :: "nat \<Rightarrow> string \<Rightarrow> relay_state \<Rightarrow> handled" where
  "sendError conn message st = ([(conn, Notice message)], st, True)"

definition event_message :: "ws_lib \<Rightarrow> relay_env \<Rightarrow> policy_enforcer \<Rightarrow> nat \<Rightarrow> json list \<Rightarrow> relay_state \<Rightarrow> handled" where
  "event_message lib env pe conn msg st =
     (if length msg < 2 then sendError conn ''EVENT message missing event data'' st
      else case wl_event lib (msg ! 1) of
        None \<Rightarrow> sendError conn ''Invalid event format'' st
      | Some ev \<Rightarrow> (case handleEvent env pe conn ev st of (out, st') \<Rightarrow> (out, st', \<not> event_panics env pe ev st)))"

definition request_message :: "ws_lib \<Rightarrow> relay_env \<Rightarrow> nat \<Rightarrow> json list \<Rightarrow> relay_state \<Rightarrow> handled" where
  "request_message lib env conn msg st =
     (if length msg < 3 then sendError conn ''REQ message missing subscription ID or filters'' st
      else case json_text (msg ! 1) of
        None \<Rightarrow> sendError conn ''Invalid subscription ID'' st
      | Some subID \<Rightarrow>
          (case decode_filters lib (drop 2 msg) of
             None \<Rightarrow> sendError conn ''Invalid filter format'' st
           | Some filters \<Rightarrow> (case handleRequest env conn subID filters st of (out, st') \<Rightarrow> (out, st', True))))"

definition close_message :: "nat \<Rightarrow> json list \<Rightarrow> relay_state \<Rightarrow> handled" where
  "close_message conn msg st =
     (if length msg < 2 then sendError conn ''CLOSE message missing subscription ID'' st
      else case json_text (msg ! 1) of
        None \<Rightarrow> sendError conn ''Invalid subscription ID'' st
      | Some subID \<Rightarrow> ([], handleClose subID st, True))"

definition serve_message :: "ws_lib \<Rightarrow> relay_env \<Rightarrow> policy_enforcer \<Rightarrow> nat \<Rightarrow> json list \<Rightarrow> relay_state \<Rightarrow> handled" where
  "serve_message lib env pe conn msg st =
     (if length msg < 1 then sendError conn ''Empty message'' st
      else case json_text (msg ! 0) of
        None \<Rightarrow> sendError conn ''Invalid message type'' st
      | Some msgType \<Rightarrow>
          if msgType = ''EVENT'' then event_message lib env pe conn msg st
          else if msgType = ''REQ'' then request_message lib env conn msg st
          else if msgType = ''CLOSE'' then close_message conn msg st
          else sendError conn (''Unknown message type: '' @ msgType) st)"

text \<open>\<^verbatim>\<open>null\<close> decodes into an empty slice.\<close>

definition client_message :: "string \<Rightarrow> json list option" where
  "client_message body = (case parse_json body of Some (JArr msg) \<Rightarrow> Some msg | Some JNull \<Rightarrow> Some [] | _ \<Rightarrow> None)"

definition handle_frame :: "ws_lib \<Rightarrow> relay_env \<Rightarrow> policy_enforcer \<Rightarrow> nat \<Rightarrow> frame \<Rightarrow> relay_state \<Rightarrow> handled" where
  "handle_frame lib env pe conn f st =
     (case f of
        ReadFailed \<Rightarrow> ([], st, False)
      | OtherFrame \<Rightarrow> ([], st, True)
      | TextFrame body \<Rightarrow>
          (case client_message body of
             None \<Rightarrow> sendError conn ''Invalid message format'' st
           | Some msg \<Rightarrow> serve_message lib env pe conn msg st))"

text \<open>The loop, with the frames a connection delivers and the environment at each of them.\<close>

fun HandleConnection :: "ws_lib \<Rightarrow> policy_enforcer \<Rightarrow> nat \<Rightarrow> (relay_env \<times> frame) list \<Rightarrow> relay_state \<Rightarrow> handled" where
  "HandleConnection lib pe conn [] st = ([], st, True)"
| "HandleConnection lib pe conn ((env, f) # fs) st =
     (case handle_frame lib env pe conn f st of
        (out, st', False) \<Rightarrow> (out, st', False)
      | (out, st', True) \<Rightarrow>
          (case HandleConnection lib pe conn fs st' of (out', st'', alive) \<Rightarrow> (out @ out', st'', alive)))"

section \<open>The server\<close>

text \<open>
  Connections take turns.  \<^verbatim>\<open>handleWebSocket\<close> adds a connection to the clients of the node and removes it
  when the loop ends; the subscriptions belong to the relay.
\<close>

datatype arrival = Upgraded | Arrived frame

record relay_server =
  sr_state :: relay_state
  sr_sockets :: node_sockets

definition handleWebSocket ::
  "ws_lib \<Rightarrow> policy_enforcer \<Rightarrow> relay_env \<times> nat \<times> arrival \<Rightarrow> relay_server \<Rightarrow> (nat \<times> relay_msg) list \<times> relay_server" where
  "handleWebSocket lib pe x s =
     (case x of (env, conn, a) \<Rightarrow>
        (case a of
           Upgraded \<Rightarrow> ([], s\<lparr>sr_sockets := add_client conn (sr_sockets s)\<rparr>)
         | Arrived f \<Rightarrow>
             if conn \<in> set (n_clients (sr_sockets s)) then
               (case handle_frame lib env pe conn f (sr_state s) of
                  (out, st', alive) \<Rightarrow>
                    (out, s\<lparr>sr_state := st', sr_sockets := (if alive then sr_sockets s else remove_client conn (sr_sockets s))\<rparr>))
             else ([], s)))"

definition server_run :: "ws_lib \<Rightarrow> policy_enforcer \<Rightarrow> (relay_env \<times> nat \<times> arrival) list \<Rightarrow> relay_server \<Rightarrow> relay_server" where
  "server_run lib pe xs s = foldl (\<lambda>s x. snd (handleWebSocket lib pe x s)) s xs"

section \<open>What a frame does\<close>

lemma request_answers: "(conn, Eose subID) \<in> set (fst (handleRequest env conn subID filters st))"
  by (simp add: handleRequest_def Let_def)

lemma event_answered: "\<not> event_panics env pe ev st \<Longrightarrow> (\<exists>b. (conn, OkMsg (ev_id ev) b) \<in> set (fst (handleEvent env pe conn ev st)))"
  by (auto simp: event_panics_def handleEvent_def Let_def split: option.splits sum.splits anchor_error.splits db_error.splits)

text \<open>Who may be sent what.\<close>

definition addressed :: "nat \<Rightarrow> relay_state \<Rightarrow> nat \<times> relay_msg \<Rightarrow> bool" where
  "addressed conn st x =
     (case snd x of
        EventMsg s ev \<Rightarrow> (\<exists>(k, sub) \<in> set (rs_subs st). sub_id sub = s \<and> sub_conn sub = fst x)
      | Eose s \<Rightarrow> fst x = conn \<and> (\<exists>(k, sub) \<in> set (rs_subs st). sub_id sub = s \<and> sub_conn sub = conn)
      | _ \<Rightarrow> fst x = conn)"

lemma broadcast_addressed: "x \<in> set (broadcastEvent ev st) \<Longrightarrow> addressed conn st x"
  by (force simp: broadcastEvent_def addressed_def split: if_splits)

lemma event_addressed: "x \<in> set (fst (handleEvent env pe conn ev st)) \<Longrightarrow> addressed conn (snd (handleEvent env pe conn ev st)) x"
  using broadcast_exact[of ev st env pe conn] broadcast_addressed[of x ev "snd (handleEvent env pe conn ev st)" conn]
  by (auto simp: addressed_def)

lemma request_addressed:
  "x \<in> set (fst (handleRequest env conn subID filters st)) \<Longrightarrow> addressed conn (snd (handleRequest env conn subID filters st)) x"
  by (force simp: handleRequest_def Let_def addressed_def map_put_def)

lemma sent_error: "sendError conn m st = (out, st', alive) \<longleftrightarrow> out = [(conn, Notice m)] \<and> st' = st \<and> alive"
  by (auto simp: sendError_def)

lemmas message_defs = serve_message_def event_message_def request_message_def close_message_def

lemma message_cases [consumes 1, case_names refused event request close]:
  assumes "serve_message lib env pe conn msg st = (out, st', alive)"
  obtains m where "out = [(conn, Notice m)]" "st' = st" "alive"
  | ev where "out = fst (handleEvent env pe conn ev st)" "st' = snd (handleEvent env pe conn ev st)" "alive = (\<not> event_panics env pe ev st)"
      "msg ! 0 = JStr ''EVENT''" "wl_event lib (msg ! 1) = Some ev"
  | s fs where "out = fst (handleRequest env conn s fs st)" "st' = snd (handleRequest env conn s fs st)" "alive" "json_text (msg ! 1) = Some s"
      "msg ! 0 = JStr ''REQ''"
  | s where "out = []" "st' = handleClose s st" "alive" "json_text (msg ! 1) = Some s" "msg ! 0 = JStr ''CLOSE''"
  using assms
  by (auto simp: message_defs sent_error json_text_def case_prod_beta split: if_splits option.splits json.splits)

lemma frame_cases [consumes 1, case_names ended ignored refused event request close]:
  assumes "handle_frame lib env pe conn f st = (out, st', alive)"
  obtains "out = []" "st' = st" "\<not> alive" "f = ReadFailed"
  | "out = []" "st' = st" "alive" "f = OtherFrame"
  | m where "out = [(conn, Notice m)]" "st' = st" "alive"
  | ev where "out = fst (handleEvent env pe conn ev st)" "st' = snd (handleEvent env pe conn ev st)" "alive = (\<not> event_panics env pe ev st)"
  | s fs body msg where "out = fst (handleRequest env conn s fs st)" "st' = snd (handleRequest env conn s fs st)" "alive"
      "f = TextFrame body" "client_message body = Some msg" "json_text (msg ! 1) = Some s" "msg ! 0 = JStr ''REQ''"
  | s body msg where "out = []" "st' = handleClose s st" "alive"
      "f = TextFrame body" "client_message body = Some msg" "json_text (msg ! 1) = Some s" "msg ! 0 = JStr ''CLOSE''"
proof (cases f)
  case (TextFrame body)
  show ?thesis
  proof (cases "client_message body")
    case None
    then show ?thesis using assms TextFrame that(3) by (simp add: handle_frame_def sent_error)
  next
    case (Some msg)
    have "serve_message lib env pe conn msg st = (out, st', alive)" using assms TextFrame Some by (simp add: handle_frame_def)
    then show ?thesis using that(3-6) TextFrame Some by (cases rule: message_cases) blast+
  qed
next
  case OtherFrame
  then show ?thesis using assms by (intro that(2)) (simp_all add: handle_frame_def)
next
  case ReadFailed
  then show ?thesis using assms by (intro that(1)) (simp_all add: handle_frame_def)
qed

lemma panic_keeps: "event_panics env pe ev st \<Longrightarrow> handleEvent env pe conn ev st = ([], st)"
  by (auto simp: event_panics_def handleEvent_def)

lemma relay_frame_reachable:
  assumes "reachable net st" "handle_frame lib env pe conn f st = (out, st', alive)"
  shows "reachable net st'"
  using assms(2)
proof (cases rule: frame_cases)
  case (event ev)
  show ?thesis unfolding event(2) by (rule reachable.step[OF assms(1) publish])
next
  case (request s fs body msg)
  show ?thesis unfolding request(2) by (rule reachable.step[OF assms(1) subscribe])
next
  case (close s body msg)
  show ?thesis unfolding close(2) by (rule reachable.step[OF assms(1) unsubscribe])
qed (use assms(1) in simp_all)

text \<open>Frames that name a subscription: its id in a request or a close.\<close>

definition frame_names :: "string \<Rightarrow> string \<Rightarrow> frame \<Rightarrow> bool" where
  "frame_names k s f \<longleftrightarrow> (case f of
     TextFrame body \<Rightarrow>
       (case client_message body of None \<Rightarrow> False | Some msg \<Rightarrow> msg ! 0 = JStr k \<and> json_text (msg ! 1) = Some s)
   | _ \<Rightarrow> False)"

text \<open>
  C36.  Every frame of a connection, whatever its bytes, keeps the node in a reachable state.  A message goes
  to the connection that sent the frame, or is an event for the connection of a subscription that exists; a
  text frame that does not end the connection is answered unless it closes a subscription; and the end of a
  connection changes nothing.
\<close>

theorem relay_answers_every_frame:
  assumes "reachable net st" "handle_frame lib env pe conn f st = (out, st', alive)"
  shows "reachable net st' \<and> (\<forall>x\<in>set out. addressed conn st' x) \<and> (\<not> alive \<longrightarrow> out = [] \<and> st' = st)
    \<and> (alive \<longrightarrow> f = OtherFrame \<or> (\<exists>m. (conn, m) \<in> set out) \<or> (\<exists>s. frame_names ''CLOSE'' s f \<and> st' = handleClose s st))"
  using assms(2)
proof (cases rule: frame_cases)
  case (event ev)
  have "\<forall>x\<in>set out. addressed conn st' x" unfolding event(1,2) using event_addressed by blast
  moreover have "\<not> alive \<longrightarrow> out = [] \<and> st' = st" using panic_keeps[of env pe ev st conn] event by simp
  moreover have "alive \<longrightarrow> (\<exists>m. (conn, m) \<in> set out)" using event_answered[of env pe ev st conn] event by auto
  ultimately show ?thesis using relay_frame_reachable[OF assms] by blast
next
  case (request s fs body msg)
  have "\<forall>x\<in>set out. addressed conn st' x" unfolding request(1,2) using request_addressed by blast
  moreover have "\<exists>m. (conn, m) \<in> set out" unfolding request(1) using request_answers by blast
  ultimately show ?thesis using relay_frame_reachable[OF assms] request(3) by blast
next
  case (close s body msg)
  have "frame_names ''CLOSE'' s f" using close by (simp add: frame_names_def)
  then show ?thesis using relay_frame_reachable[OF assms] close by auto
qed (use assms(1) in \<open>auto simp: addressed_def\<close>)

lemma connection_keeps_node:
  "reachable net st \<Longrightarrow> HandleConnection lib pe conn fs st = (out, st', alive) \<Longrightarrow> reachable net st'"
proof (induction lib pe conn fs st arbitrary: out st' alive rule: HandleConnection.induct)
  case (2 lib pe conn env f fs st)
  obtain o1 s1 a1 where h: "handle_frame lib env pe conn f st = (o1, s1, a1)" by (cases "handle_frame lib env pe conn f st") auto
  have "reachable net s1" using relay_frame_reachable[OF 2(2) h] .
  then show ?case using 2(1)[OF h[symmetric] refl] 2(3) h by (cases a1) (auto split: prod.splits)
qed simp

lemma server_stays_reachable:
  "reachable net (sr_state s) \<Longrightarrow> reachable net (sr_state (server_run lib pe xs s))"
proof (induction xs arbitrary: s)
  case (Cons x xs)
  obtain env conn a where x: "x = (env, conn, a)" by (cases x)
  have "reachable net (sr_state (snd (handleWebSocket lib pe x s)))"
    using Cons.prems x relay_frame_reachable by (auto simp: handleWebSocket_def split: arrival.splits prod.splits)
  then show ?case using Cons.IH by (simp add: server_run_def)
qed (simp add: server_run_def)

definition any_lib :: ws_lib where
  "any_lib = \<lparr> wl_filter = (\<lambda>_. Some events_filter), wl_event = (\<lambda>_. None), wl_signed = (\<lambda>_. False) \<rparr>"

theorem relay_answers_every_frame_witness:
  "\<exists>out st'. handle_frame any_lib open_env (NewPolicyEnforcer ''mainnet'') 5 (TextFrame (marshal_strings [''REQ'', ''s'', ''f''])) initial_state
      = (out, st', True) \<and> reachable ''mainnet'' st' \<and> map fst (rs_subs st') = [''s''] \<and> (\<exists>m. (5, m) \<in> set out)"
proof -
  let ?f = "TextFrame (marshal_strings [''REQ'', ''s'', ''f''])"
  have m: "client_message (marshal_strings [''REQ'', ''s'', ''f'']) = Some [JStr ''REQ'', JStr ''s'', JStr ''f'']" by code_simp
  obtain out st' where h: "handle_frame any_lib open_env (NewPolicyEnforcer ''mainnet'') 5 ?f initial_state = (out, st', True)"
    "map fst (rs_subs st') = [''s'']"
    by (simp add: handle_frame_def m message_defs json_text_def any_lib_def handleRequest_def Let_def map_put_def initial_state_def)
  have "\<not> frame_names ''CLOSE'' s ?f" for s by (simp add: frame_names_def m)
  then have "reachable ''mainnet'' st' \<and> (\<exists>m. (5, m) \<in> set out)"
    using relay_answers_every_frame[OF reachable.start h(1), of "''mainnet''"] by simp
  then show ?thesis using h by (intro exI[of _ out] exI[of _ st'] conjI) simp_all
qed

section \<open>Connections that have ended\<close>

lemma frame_keeps_subscription:
  assumes "handle_frame lib env pe conn f st = (out, st', alive)" "(k, sub) \<in> set (rs_subs st)"
    and "\<not> frame_names ''REQ'' k f" "\<not> frame_names ''CLOSE'' k f"
  shows "(k, sub) \<in> set (rs_subs st')"
  using assms(1)
proof (cases rule: frame_cases)
  case (request s fs body msg)
  then have "s \<noteq> k" using assms(3) by (auto simp: frame_names_def)
  then show ?thesis using assms(2) request(2) by (simp add: handleRequest_def Let_def map_put_def)
next
  case (close s body msg)
  then have "s \<noteq> k" using assms(4) by (auto simp: frame_names_def)
  then show ?thesis using assms(2) close(2) by (simp add: handleClose_def)
qed (use assms(2) in \<open>simp_all add: handleEvent_others\<close>)

definition arrival_names :: "string \<Rightarrow> arrival \<Rightarrow> bool" where
  "arrival_names k a \<longleftrightarrow> (case a of Upgraded \<Rightarrow> False | Arrived f \<Rightarrow> frame_names ''REQ'' k f \<or> frame_names ''CLOSE'' k f)"

lemma arrival_keeps_subscription:
  assumes "(k, sub) \<in> set (rs_subs (sr_state s))" "\<not> arrival_names k a"
  shows "(k, sub) \<in> set (rs_subs (sr_state (snd (handleWebSocket lib pe (env, conn, a) s))))"
proof (cases a)
  case (Arrived f)
  obtain out st' alive where h: "handle_frame lib env pe conn f (sr_state s) = (out, st', alive)" by (cases "handle_frame lib env pe conn f (sr_state s)") auto
  have "(k, sub) \<in> set (rs_subs st')"
    using frame_keeps_subscription[OF h assms(1)] assms(2) Arrived by (simp add: arrival_names_def)
  then show ?thesis using assms(1) h Arrived by (simp add: handleWebSocket_def)
qed (use assms in \<open>simp add: handleWebSocket_def\<close>)

lemma run_keeps_subscription:
  "(k, sub) \<in> set (rs_subs (sr_state s)) \<Longrightarrow> \<forall>(env, conn, a)\<in>set xs. \<not> arrival_names k a
    \<Longrightarrow> (k, sub) \<in> set (rs_subs (sr_state (server_run lib pe xs s)))"
proof (induction xs arbitrary: s)
  case (Cons x xs)
  obtain env conn a where x: "x = (env, conn, a)" by (cases x)
  show ?case
    using Cons.IH[of "snd (handleWebSocket lib pe x s)"] arrival_keeps_subscription[of k sub s a lib pe env conn] Cons.prems x
    by (simp add: server_run_def)
qed (simp add: server_run_def)

lemma ended_stays_away:
  "conn \<notin> set (n_clients (sr_sockets s)) \<Longrightarrow> \<forall>(env, c, a)\<in>set xs. c = conn \<longrightarrow> a \<noteq> Upgraded
    \<Longrightarrow> conn \<notin> set (n_clients (sr_sockets (server_run lib pe xs s)))"
proof (induction xs arbitrary: s)
  case (Cons x xs)
  obtain env c a where x: "x = (env, c, a)" by (cases x)
  have "conn \<notin> set (n_clients (sr_sockets (snd (handleWebSocket lib pe x s))))"
    using Cons.prems x by (auto simp: handleWebSocket_def add_client_def remove_client_def split: arrival.splits prod.splits if_splits)
  then show ?case using Cons.IH Cons.prems(2) by (simp add: server_run_def)
qed (simp add: server_run_def)

text \<open>
  The subscriptions of a connection outlive it: as long as no other client uses the id, every matching
  event is still written to the connection that has ended.
\<close>

lemma dead_subscriptions_stay:
  assumes "(k, sub) \<in> set (rs_subs (sr_state s))" "\<forall>(env, conn, a)\<in>set xs. \<not> arrival_names k a"
    and "\<forall>(env, c, a)\<in>set xs. c = sub_conn sub \<longrightarrow> a \<noteq> Upgraded" "list_ex (eventMatchesFilter ev) (sub_filters sub)"
    and s': "s' = server_run lib pe ((env, sub_conn sub, Arrived ReadFailed) # xs) s"
  shows "sub_conn sub \<notin> set (n_clients (sr_sockets s')) \<and> (sub_conn sub, EventMsg (sub_id sub) ev) \<in> set (broadcastEvent ev (sr_state s'))"
proof -
  let ?s1 = "snd (handleWebSocket lib pe (env, sub_conn sub, Arrived ReadFailed) s)"
  have r: "s' = server_run lib pe xs ?s1" by (simp add: s' server_run_def)
  have "sub_conn sub \<notin> set (n_clients (sr_sockets ?s1))" "sr_state ?s1 = sr_state s"
    by (auto simp: handleWebSocket_def handle_frame_def remove_client_def)
  then show ?thesis
    using ended_stays_away[OF _ assms(3), of ?s1] run_keeps_subscription[of k sub ?s1 xs] assms(1,2,4) r
    by (force simp: broadcast_exact)
qed

section \<open>What is written\<close>

definition marshal_array :: "string list \<Rightarrow> string" where
  "marshal_array xs = CHR ''['' # join_on '','' xs @ '']''"

text \<open>
  The text of a message: \<^verbatim>\<open>sendError\<close>, \<^verbatim>\<open>sendOK\<close>, \<^verbatim>\<open>sendEvent\<close> and \<^verbatim>\<open>sendEOSE\<close>.  The reason of an \<^verbatim>\<open>OK\<close>
  and the marshaller of go-nostr for events are arguments.
\<close>

definition reply_text :: "(event \<Rightarrow> string) \<Rightarrow> string \<Rightarrow> relay_msg \<Rightarrow> string" where
  "reply_text marshal reason m =
     (case m of
        Notice msg \<Rightarrow> marshal_array [marshal_string ''NOTICE'', marshal_string msg]
      | OkMsg eventID accepted \<Rightarrow>
          marshal_array [marshal_string ''OK'', marshal_string eventID, if accepted then ''true'' else ''false'', marshal_string reason]
      | EventMsg subID ev \<Rightarrow> marshal_array [marshal_string ''EVENT'', marshal_string subID, marshal ev]
      | Eose subID \<Rightarrow> marshal_array [marshal_string ''EOSE'', marshal_string subID])"

definition reply_doc :: "(event \<Rightarrow> json) \<Rightarrow> string \<Rightarrow> relay_msg \<Rightarrow> json" where
  "reply_doc doc reason m =
     (case m of
        Notice msg \<Rightarrow> JArr [JStr ''NOTICE'', JStr (valid_part msg)]
      | OkMsg eventID accepted \<Rightarrow> JArr [JStr ''OK'', JStr (valid_part eventID), JBool accepted, JStr (valid_part reason)]
      | EventMsg subID ev \<Rightarrow> JArr [JStr ''EVENT'', JStr (valid_part subID), doc ev]
      | Eose subID \<Rightarrow> JArr [JStr ''EOSE'', JStr (valid_part subID)])"

text \<open>A text that the decoder reads as a value wherever it stands in an array.\<close>

definition reads :: "string \<Rightarrow> json \<Rightarrow> bool" where
  "reads s j \<longleftrightarrow> s \<noteq> [] \<and> \<not> is_ws (hd s) \<and> hd s \<noteq> CHR '']''
     \<and> (\<forall>k t. length s < k \<and> t \<noteq> [] \<and> hd t \<in> {CHR '','', CHR '']''} \<longrightarrow> p_value k (s @ t) = Ok (j, t))"

lemma reads_string: "reads (marshal_string s) (JStr (valid_part s))"
proof -
  have "p_value k (marshal_string s @ t) = Ok (JStr (valid_part s), t)" if "length (marshal_string s) < k" for k t
    using that p_value_string[of "k - 1" s t] by (cases k) simp_all
  then show ?thesis by (simp add: reads_def marshal_string_def is_ws_def byte_of_def)
qed

lemma reads_bool: "reads (if b then ''true'' else ''false'') (JBool b)"
proof -
  have "p_value k ((if b then ''true'' else ''false'') @ t) = Ok (JBool b, t)" if "0 < k" for k t
    using that by (cases k) (auto simp: skip_ws_def is_ws_def byte_of_def p_literal_def has_prefix_def)
  then show ?thesis by (auto simp: reads_def is_ws_def byte_of_def)
qed

lemma reads_starts: "reads s j \<Longrightarrow> skip_ws (s @ t) = s @ t \<and> \<not> next_is (CHR '']'') (s @ t)"
  by (cases s) (auto simp: reads_def skip_ws_kept next_is_def)

lemma p_elems_texts:
  "list_all2 reads xs js \<Longrightarrow> xs \<noteq> [] \<Longrightarrow> length (join_on '','' xs) + 1 < k
    \<Longrightarrow> p_elems k (join_on '','' xs @ CHR '']'' # t) acc = Ok (JArr (acc @ js), t)"
proof (induction xs js arbitrary: k acc rule: list_all2_induct)
  case (Cons x xs j js)
  obtain m where k: "k = Suc m" using Cons.prems(2) by (cases k) auto
  show ?case
  proof (cases xs)
    case Nil
    then have "length x < m" using Cons.prems(2) k by simp
    then have "p_value m (x @ CHR '']'' # t) = Ok (j, CHR '']'' # t)" using Cons.hyps(1) by (auto simp: reads_def)
    then show ?thesis using Nil Cons.hyps(2) k by simp
  next
    case (Cons y ys)
    then have l: "length x < m" "length (join_on '','' xs) + 1 < m" using Cons.prems(2) k Cons.hyps(1) by (auto simp: reads_def)
    then have "p_value m (x @ CHR '','' # u) = Ok (j, CHR '','' # u)" for u using Cons.hyps(1) by (auto simp: reads_def)
    then show ?thesis using Cons.IH[OF _ l(2), of "acc @ [j]"] Cons k by simp
  qed
qed simp

lemma parse_array:
  assumes "list_all2 reads xs js" "xs \<noteq> []"
  shows "parse_json (marshal_array xs) = Some (JArr js)"
proof -
  obtain x ys where xs: "xs = x # ys" using assms(2) by (cases xs) auto
  then obtain j where "reads x j" using assms(1) by (auto simp: list_all2_Cons1)
  moreover have "\<exists>u. join_on '','' xs @ '']'' = x @ u" using xs by (cases ys) auto
  ultimately have "skip_ws (join_on '','' xs @ '']'') = join_on '','' xs @ '']''" "\<not> next_is (CHR '']'') (join_on '','' xs @ '']'')"
    using reads_starts by metis+
  then have "p_value (Suc (2 * length (marshal_array xs))) (marshal_array xs)
      = p_elems (2 * length (marshal_array xs)) (join_on '','' xs @ '']'') []"
    by (simp add: marshal_array_def)
  also have "\<dots> = Ok (JArr js, [])"
    using p_elems_texts[OF assms, of "2 * length (marshal_array xs)" "[]" "[]"] by (simp add: marshal_array_def)
  finally show ?thesis by (simp add: parse_json_def)
qed

lemma reads_labels:
  "reads (marshal_string ''NOTICE'') (JStr ''NOTICE'')" "reads (marshal_string ''OK'') (JStr ''OK'')"
  "reads (marshal_string ''EVENT'') (JStr ''EVENT'')" "reads (marshal_string ''EOSE'') (JStr ''EOSE'')"
proof -
  have "valid_part ''NOTICE'' = ''NOTICE''" "valid_part ''OK'' = ''OK''" "valid_part ''EVENT'' = ''EVENT''" "valid_part ''EOSE'' = ''EOSE''"
    by code_simp+
  then show "reads (marshal_string ''NOTICE'') (JStr ''NOTICE'')" "reads (marshal_string ''OK'') (JStr ''OK'')"
    "reads (marshal_string ''EVENT'') (JStr ''EVENT'')" "reads (marshal_string ''EOSE'') (JStr ''EOSE'')"
    by (metis reads_string)+
qed

text \<open>
  C37.  Every message of the relay is read back as the array it was written from, with invalid UTF-8 replaced,
  whatever the strings contain, when the events are written as values the decoder can read.
\<close>

theorem replies_are_read_back:
  assumes "\<And>ev. reads (marshal ev) (doc ev)"
  shows "parse_json (reply_text marshal reason m) = Some (reply_doc doc reason m)"
  using assms reads_bool by (cases m) (simp_all add: reply_text_def reply_doc_def parse_array reads_labels reads_string)

theorem replies_are_read_back_witness:
  "parse_json (reply_text (\<lambda>ev. marshal_string (ev_id ev)) [] (EventMsg ''s'' bob_event))
    = Some (JArr [JStr ''EVENT'', JStr (valid_part ''s''), JStr (valid_part (ev_id bob_event))])"
  using replies_are_read_back[of "\<lambda>ev. marshal_string (ev_id ev)" "\<lambda>ev. JStr (valid_part (ev_id ev))" "[]" "EventMsg ''s'' bob_event", OF reads_string]
  by (simp add: reply_doc_def)

end
