(* ===== verification/Lifecycle.thy ===== *)
theory Lifecycle
  imports Service
begin

text \<open>
  \<^verbatim>\<open>Start\<close>, \<^verbatim>\<open>Stop\<close> and the goroutines of \<^verbatim>\<open>src/internal/sync/syncer.go\<close>: the first round, the loop over
  the ticker, the flag that keeps rounds apart, and the health checks of the peers.  What a round does is
  \<open>performSync\<close> of \<open>Service\<close>; here a round is a goroutine that is inside it.
\<close>

section \<open>The goroutines\<close>

text \<open>
  \<open>lf_inside\<close> lists the goroutines inside a round: \<open>FirstRound\<close>, started by \<^verbatim>\<open>Start\<close>, and \<open>SyncLoop\<close>.  A ticker
  has room for one tick.  \<open>lf_shutdown\<close> says that the channel is closed.
\<close>

datatype goroutine = FirstRound | SyncLoop

record lifecycle =
  lf_started :: bool
  lf_syncing :: bool
  lf_lastSync :: "int option"
  lf_inside :: "goroutine list"
  lf_first :: bool
  lf_loop :: bool
  lf_ticking :: bool
  lf_tick :: bool
  lf_shutdown :: bool

definition new_syncer :: lifecycle where
  "new_syncer = \<lparr> lf_started = False, lf_syncing = False, lf_lastSync = None, lf_inside = [], lf_first = False,
     lf_loop = False, lf_ticking = False, lf_tick = False, lf_shutdown = False \<rparr>"

definition syncer_Start :: "lifecycle \<Rightarrow> lifecycle" where
  "syncer_Start s = s\<lparr>lf_started := True, lf_ticking := True, lf_first := True, lf_loop := True\<rparr>"

text \<open>Closing the channel a second time panics.\<close>

definition syncer_Stop :: "lifecycle \<Rightarrow> lifecycle option" where
  "syncer_Stop s = (if lf_shutdown s then None else Some (s\<lparr>lf_shutdown := True, lf_ticking := False\<rparr>))"

text \<open>The beginning of \<^verbatim>\<open>performSync\<close>, which returns when another goroutine is inside, and its deferred end.\<close>

definition enter_round :: "goroutine \<Rightarrow> lifecycle \<Rightarrow> lifecycle" where
  "enter_round g s = (if lf_syncing s then s else s\<lparr>lf_syncing := True, lf_inside := g # lf_inside s\<rparr>)"

definition leave_round :: "goroutine \<Rightarrow> int \<Rightarrow> lifecycle \<Rightarrow> lifecycle" where
  "leave_round g now s = s\<lparr>lf_syncing := False, lf_lastSync := Some now, lf_inside := remove1 g (lf_inside s)\<rparr>"

inductive life_step :: "lifecycle \<Rightarrow> lifecycle \<Rightarrow> bool" where
  life_start: "\<not> lf_started s \<Longrightarrow> life_step s (syncer_Start s)"
| life_stop: "syncer_Stop s = Some s' \<Longrightarrow> life_step s s'"
| life_first: "lf_first s \<Longrightarrow> life_step s (enter_round FirstRound (s\<lparr>lf_first := False\<rparr>))"
| life_tick: "lf_ticking s \<Longrightarrow> life_step s (s\<lparr>lf_tick := True\<rparr>)"
| life_round: "lf_loop s \<Longrightarrow> SyncLoop \<notin> set (lf_inside s) \<Longrightarrow> lf_tick s
    \<Longrightarrow> life_step s (enter_round SyncLoop (s\<lparr>lf_tick := False\<rparr>))"
| life_quit: "lf_loop s \<Longrightarrow> SyncLoop \<notin> set (lf_inside s) \<Longrightarrow> lf_shutdown s \<Longrightarrow> life_step s (s\<lparr>lf_loop := False\<rparr>)"
| life_leave: "g \<in> set (lf_inside s) \<Longrightarrow> life_step s (leave_round g now s)"

inductive_cases life_stepE: "life_step s s'"

inductive life_reach :: "lifecycle \<Rightarrow> bool" where
  life_new: "life_reach new_syncer"
| life_next: "life_reach s \<Longrightarrow> life_step s s' \<Longrightarrow> life_reach s'"

definition one_inside :: "lifecycle \<Rightarrow> bool" where
  "one_inside s \<longleftrightarrow> (case lf_inside s of
       [] \<Rightarrow> \<not> lf_syncing s
     | [g] \<Rightarrow> lf_syncing s \<and> lf_started s \<and> (g = SyncLoop \<longrightarrow> lf_loop s)
     | _ \<Rightarrow> False)"

definition needs_start :: "lifecycle \<Rightarrow> bool" where
  "needs_start s \<longleftrightarrow> lf_started s \<or> \<not> lf_ticking s \<and> \<not> lf_first s \<and> \<not> lf_loop s \<and> \<not> lf_tick s"

lemma enter_inside:
  "one_inside s \<Longrightarrow> lf_started s \<Longrightarrow> g = SyncLoop \<longrightarrow> lf_loop s \<Longrightarrow> one_inside (enter_round g s)"
  by (auto simp: one_inside_def enter_round_def split: list.splits)

lemma leave_inside: "one_inside s \<Longrightarrow> g \<in> set (lf_inside s) \<Longrightarrow> lf_inside s = [g] \<and> one_inside (leave_round g now s)"
  by (auto simp: one_inside_def leave_round_def split: list.splits)

lemma fields_inside [simp]:
  "one_inside (s\<lparr>lf_first := a\<rparr>) = one_inside s" "one_inside (s\<lparr>lf_tick := a\<rparr>) = one_inside s"
  "one_inside (s\<lparr>lf_shutdown := a, lf_ticking := b\<rparr>) = one_inside s"
  "one_inside (s\<lparr>lf_shutdown := a\<rparr>) = one_inside s"
  by (simp_all add: one_inside_def cong: list.case_cong)

lemma enter_fields [simp]:
  "lf_started (enter_round g s) = lf_started s" "lf_ticking (enter_round g s) = lf_ticking s" "lf_first (enter_round g s) = lf_first s"
  "lf_loop (enter_round g s) = lf_loop s" "lf_tick (enter_round g s) = lf_tick s" "lf_shutdown (enter_round g s) = lf_shutdown s"
  "length (lf_inside (enter_round g s)) \<le> Suc (length (lf_inside s))"
  by (simp_all add: enter_round_def)

lemma leave_fields [simp]:
  "lf_started (leave_round g now s) = lf_started s" "lf_ticking (leave_round g now s) = lf_ticking s" "lf_first (leave_round g now s) = lf_first s"
  "lf_loop (leave_round g now s) = lf_loop s" "lf_tick (leave_round g now s) = lf_tick s" "lf_shutdown (leave_round g now s) = lf_shutdown s"
  by (simp_all add: leave_round_def)

lemma step_inside: "life_step s s' \<Longrightarrow> one_inside s \<Longrightarrow> needs_start s \<Longrightarrow> one_inside s' \<and> needs_start s'"
proof (induction rule: life_step.induct)
  case (life_start s)
  then show ?case by (auto simp: one_inside_def needs_start_def syncer_Start_def split: list.splits)
next
  case (life_quit s)
  then show ?case by (auto simp: one_inside_def needs_start_def split: list.splits)
qed (auto simp: needs_start_def syncer_Stop_def enter_inside leave_inside split: if_splits)

lemma reach_inside: "life_reach s \<Longrightarrow> one_inside s \<and> needs_start s"
  by (induction rule: life_reach.induct) (auto simp: step_inside, simp_all add: one_inside_def needs_start_def new_syncer_def)

text \<open>At most one round runs at a time, and the flag says whether one does.\<close>

lemma one_round_at_a_time: "life_reach s \<Longrightarrow> length (lf_inside s) \<le> 1 \<and> (lf_syncing s \<longleftrightarrow> lf_inside s \<noteq> [])"
  using reach_inside[of s] by (auto simp: one_inside_def split: list.splits)

lemma second_stop_panics: "syncer_Stop s = Some s' \<Longrightarrow> syncer_Stop s' = None"
  by (auto simp: syncer_Stop_def split: if_splits)

section \<open>Stopping\<close>

text \<open>
  \<^verbatim>\<open>Stop\<close>, one step here, does not wait: the goroutines go on.  A measure of what they still do, and runs of their steps.
\<close>

definition still_to_do :: "lifecycle \<Rightarrow> nat" where
  "still_to_do s = (if lf_first s then 2 else 0) + (if lf_tick s then 2 else 0) + (if lf_loop s then 1 else 0) + length (lf_inside s)"

inductive life_run :: "lifecycle \<Rightarrow> nat \<Rightarrow> lifecycle \<Rightarrow> bool" where
  run_end: "life_run s 0 s"
| run_step: "life_step s s' \<Longrightarrow> life_run s' n s'' \<Longrightarrow> life_run s (Suc n) s''"

definition stopped :: "lifecycle \<Rightarrow> bool" where
  "stopped s \<longleftrightarrow> lf_started s \<and> lf_shutdown s \<and> \<not> lf_ticking s \<and> one_inside s"

lemma stopped_step: "life_step s s' \<Longrightarrow> stopped s \<Longrightarrow> stopped s' \<and> still_to_do s' < still_to_do s"
proof (induction rule: life_step.induct)
  case (life_first s)
  have "length (lf_inside (enter_round FirstRound (s\<lparr>lf_first := False\<rparr>))) \<le> Suc (length (lf_inside s))"
    using enter_fields(7)[of FirstRound "s\<lparr>lf_first := False\<rparr>"] by simp
  then show ?case using life_first by (simp add: stopped_def still_to_do_def enter_inside)
next
  case (life_round s)
  have "length (lf_inside (enter_round SyncLoop (s\<lparr>lf_tick := False\<rparr>))) \<le> Suc (length (lf_inside s))"
    using enter_fields(7)[of SyncLoop "s\<lparr>lf_tick := False\<rparr>"] by simp
  then show ?case using life_round by (simp add: stopped_def still_to_do_def enter_inside)
next
  case (life_quit s)
  then show ?case by (auto simp: stopped_def one_inside_def still_to_do_def split: list.splits)
next
  case (life_leave g s now)
  then have "lf_inside s = [g]" "one_inside (leave_round g now s)" using leave_inside by (auto simp: stopped_def)
  then show ?case using life_leave by (simp add: stopped_def still_to_do_def) (simp add: leave_round_def)
qed (auto simp: stopped_def syncer_Stop_def split: if_splits)

lemma stopped_run: "life_run s n s' \<Longrightarrow> stopped s \<Longrightarrow> n + still_to_do s' \<le> still_to_do s \<and> stopped s'"
  by (induction rule: life_run.induct) (auto dest!: stopped_step)

lemma stopped_moves: "stopped s \<Longrightarrow> lf_first s \<or> lf_loop s \<or> lf_inside s \<noteq> [] \<Longrightarrow> \<exists>s'. life_step s s'"
proof -
  assume s: "stopped s" and w: "lf_first s \<or> lf_loop s \<or> lf_inside s \<noteq> []"
  consider g gs where "lf_inside s = g # gs" | "lf_inside s = []" "lf_first s" | "lf_inside s = []" "lf_loop s"
    using w by (cases "lf_inside s") auto
  then show ?thesis
  proof cases
    case 1
    then show ?thesis using life_leave[of g s] by auto
  next
    case 2
    then show ?thesis using life_first by blast
  next
    case 3
    then show ?thesis using life_quit[of s] s by (auto simp: stopped_def)
  qed
qed



text \<open>
  A round can begin after \<^verbatim>\<open>Stop\<close> has returned, when the program closes the database: \<^verbatim>\<open>Start\<close> runs in a
  goroutine of its own, and nothing waits for the rounds.
\<close>

lemma rounds_after_stop:
  "\<exists>s s0 s'. life_reach s \<and> lf_inside s = [] \<and> syncer_Stop s = Some s0 \<and> life_step s0 s' \<and> lf_syncing s'"
proof -
  let ?s = "syncer_Start new_syncer"
  let ?t = "?s\<lparr>lf_shutdown := True, lf_ticking := False\<rparr>"
  have "life_reach ?s" by (rule life_next[OF life_new life_start]) (simp add: new_syncer_def)
  moreover have "lf_inside ?s = []" "syncer_Stop ?s = Some ?t" by (simp_all add: syncer_Stop_def syncer_Start_def new_syncer_def)
  moreover have "life_step ?t (enter_round FirstRound (?t\<lparr>lf_first := False\<rparr>))" by (rule life_first) (simp add: syncer_Start_def)
  moreover have "lf_syncing (enter_round FirstRound (?t\<lparr>lf_first := False\<rparr>))" by (simp add: enter_round_def syncer_Start_def new_syncer_def)
  ultimately show ?thesis by blast
qed

section \<open>Health checks\<close>

text \<open>The times of the checks after the start, in seconds, and the checks of the first \<open>n\<close> of them.\<close>

definition check_time :: "nat \<Rightarrow> int" where
  "check_time k = 300 + int k * 21600"

definition startPeerHealthChecks ::
  "int \<Rightarrow> (nat \<Rightarrow> string \<Rightarrow> (string \<times> string \<times> string) option) \<Rightarrow> nat \<Rightarrow> awareness_db \<Rightarrow> awareness_db" where
  "startPeerHealthChecks start probe n d =
     foldl (\<lambda>d k. runPeerHealthChecks (start + check_time k) (probe k) d) d [0..<n]"

text \<open>
  A peer that never answers is forgotten with the fourth check, less than nineteen hours after the start.
\<close>

lemma silent_peer_is_forgotten:
  assumes "unique_rows pn_clash (peer_nodes d)" "\<And>k. k < 4 \<Longrightarrow> probe k a = None"
  shows "\<not> PeerAddressExists a (startPeerHealthChecks start probe 4 d) \<and> check_time 3 = 65100"
proof -
  have "[0..<4] = [0, 1, 2, 3::nat]" by code_simp
  then show ?thesis
    using health_checks[OF assms(1), where a = a and ?probe1.0 = "probe 0" and ?probe2.0 = "probe 1" and ?probe3.0 = "probe 2" and ?probe4.0 = "probe 3"] assms(2)
    by (simp add: startPeerHealthChecks_def check_time_def)
qed

end
