(* ===== verification/Spec2Isabelle.thy ===== *)
theory Spec2Isabelle
  imports System Blocks CatchUp Dialing Rest Dashboard Resolver Program Metrics Connection Lifecycle
begin

text \<open>
  A model of the DNN node (\<^verbatim>\<open>src/internal\<close>, package by package): a relay for Nostr events of the kinds
  60600 (anchor), 61600 (name), 62600 (connection) and 63600 (metadata) that finds self-transfers in
  the Bitcoin chain, numbers them, connects them with anchor events and resolves the names so
  registered over HTTP and DNS.

  \<^bold>\<open>How the parts interact.\<close>  The synchroniser asks the Bitcoin client for blocks, numbers their
  self-transfers, stores them, asks other relays for anchors of them and stores what it finds; its
  subscriptions deliver further events, peers and propagation requests.  Clients publish to the relay,
  which checks an event against the validators, the policy and the stored transactions, stores it and
  sends it to subscribers; the HTTP route for local events stores without most checks.  The name
  lookups of the HTTP and DNS interfaces read what was stored, except what the operator blocked.  All
  of them share one database and one set of marks and peers; \<open>System\<close> puts their operations together
  as the steps of one node.

  \<^bold>\<open>Theories.\<close>
  \<open>Prelude\<close> (results \<open>'e + 'a\<close>, 64-bit wrap-around, Go's string functions and number formats) and
  \<open>Tables\<close> (SQL tables as row lists: insert or replace, insert or ignore, update, delete, order by; the
  locale \<open>unique_table\<close>) are shared by all.  \<open>Json\<close>, \<open>Marshal\<close> and \<open>Indent\<close> model the decoder and the
  encoders of \<^verbatim>\<open>encoding/json\<close>.
  \<open>Constants\<close> models \<^verbatim>\<open>constants/constants.go\<close>, \<open>Wordlist\<close> \<^verbatim>\<open>encoder/bip39_wordlist.go\<close>, \<open>Encoder\<close>
  \<^verbatim>\<open>encoder/encoder.go\<close> (locales \<open>codebook\<close>, \<open>encoder_codebook\<close>), \<open>Events\<close> the event type, \<open>Validation\<close>
  \<^verbatim>\<open>validation/validator.go\<close>, \<open>Policy\<close> \<^verbatim>\<open>policy/policy.go\<close>.
  \<open>Migrations\<close> models the schema and \<^verbatim>\<open>database/migrations.go\<close>, \<open>Database\<close> and \<open>DatabaseFacts\<close> the tables
  that result and the operations of \<^verbatim>\<open>database/database.go\<close> and \<^verbatim>\<open>queries.go\<close> that change them,
  \<open>RelayQueries\<close> \<^verbatim>\<open>database/relay_queries.go\<close> (locale \<open>rate_limit_db\<close>), \<open>Lookup\<close> the queries that
  resolve names, \<open>Listings\<close> the searches, listings and statistics of \<^verbatim>\<open>queries.go\<close> with their routes,
  \<open>Retention\<close> the clean-up, \<open>Awareness\<close> marks and peers, \<open>Admin\<close> the routes that read and change the marks
  and the debugging routes.
  \<open>Relay\<close> models the handlers of \<^verbatim>\<open>relay/relay.go\<close>, \<open>Connection\<close> its loop over the frames of a connection
  and the texts it writes.  \<open>Ordering\<close>, \<open>Sync\<close>, \<open>CatchUp\<close>, \<open>Pending\<close>, \<open>Updates\<close>, \<open>Service\<close> and \<open>Lifecycle\<close> model
  \<^verbatim>\<open>sync/syncer.go\<close>: the numbering of a block, the rounds over the chain and why they reach its height, the
  transactions that wait for an anchor, the events of the subscriptions, the relay connections and
  announcements, and the goroutines that Start and Stop begin and end (the locale \<open>ranking\<close> is shared by the order of transactions and the choice between
  claims).  \<open>Reorg\<close> models \<^verbatim>\<open>reorg/reorg.go\<close>.
  \<open>Address\<close> models \<^verbatim>\<open>bitcoin/address.go\<close>; \<open>Wire\<close>, \<open>Peers\<close>, \<open>Blocks\<close> and \<open>Dialing\<close> model
  \<^verbatim>\<open>bitcoin/p2p_client.go\<close>, \<open>Rest\<close> \<^verbatim>\<open>rest_client.go\<close>, \<^verbatim>\<open>client.go\<close> and what the reorganisation check
  makes of an explorer's answers.
  \<open>Content\<close> models \<^verbatim>\<open>node/parsers.go\<close>, \<open>Dns\<close> \<^verbatim>\<open>dns/server.go\<close>; \<open>Resolve\<close>, \<open>LocalStore\<close>, \<open>Details\<close> and
  \<open>Dashboard\<close> model routes of \<^verbatim>\<open>node/node.go\<close>: those that resolve, store, show single events and report on
  the node.  \<open>Config\<close> models \<^verbatim>\<open>config/config.go\<close>, \<open>Program\<close> the start in \<^verbatim>\<open>main.go\<close>.  \<open>Resolver\<close>, \<open>Metrics\<close> and
  \<open>Hub\<close> model \<^verbatim>\<open>resolver/resolver.go\<close>, \<^verbatim>\<open>metrics/metrics.go\<close> and \<^verbatim>\<open>websocket/client.go\<close>, which the program
  does not import.
  Definitions carry the names of the Go functions; a name in lower case with underscores is a part of
  one, or a helper.

  \<^bold>\<open>State.\<close>  \<open>database\<close> holds the tables after the migrations, \<open>awareness_db\<close> marks and peers,
  \<open>relay_state\<close> both with the subscriptions, \<open>relay_server\<close> adds the sockets, \<open>syncer_state\<close> adds the
  discovered relays and the rebroadcast cache, \<open>service_state\<close> the relay connections; \<open>p2p\<close> is the
  Bitcoin client, \<open>sqlite\<close> a database file with its \<open>schema\<close> and recorded versions, \<open>machine\<close> a computer
  with its files and databases, \<open>hub\<close> the clients of a WebSocket hub.  What the program does not decide
  (the chain, other relays and peers, the web, the clock, the resolver of the operating system) and
  third-party code (signatures, bech32, curve arithmetic, hashes, block messages, the decoders of
  go-nostr) are the fields of environment records (\<open>relay_env\<close>, \<open>chain_env\<close>, \<open>sync_env\<close>, \<open>update_env\<close>,
  \<open>service_env\<close>, \<open>announce_env\<close>, \<open>details_env\<close>, \<open>listing_env\<close>, \<open>btc_lib\<close>, \<open>wire_lib\<close>, \<open>ws_lib\<close>, \<open>net_env\<close>,
  \<open>dns_env\<close>, \<open>http_env\<close>) or arguments; properties that rely on their behaviour state it as a hypothesis.

  \<^bold>\<open>Properties.\<close>  Codes and texts: \<open>encode_decode_roundtrip\<close>, \<open>replies_are_read_back\<close>.
  What is accepted: \<open>connection_event_accepted_iff\<close>, \<open>accepted_event_sound\<close>, \<open>relay_admission\<close>,
  \<open>author_check_exact\<close>, \<open>relay_answers_every_frame\<close>, and where it is not checked:
  \<open>local_store_bypasses_checks\<close>, \<open>short_transaction_id_crashes\<close>.
  What is kept: \<open>stores_keep_the_newest\<close> (refinement of the set of newest events),
  \<open>cleanup_keeps_referenced\<close>, \<open>cleanup_bounds\<close>.  What is shown: \<open>query_sound\<close>,
  \<open>transaction_pages_complete\<close>, \<open>search_pages\<close>, \<open>newest_version_is_fetched\<close>.
  Numbering and synchronisation: \<open>self_transfer_iff\<close>, \<open>numbering_is_the_ranking\<close>,
  \<open>positions_are_canonical\<close>, \<open>sync_leaves_no_gap\<close>, \<open>sync_catches_up\<close>, \<open>latest_claim_wins\<close>,
  \<open>new_transactions_are_asked_for\<close>, \<open>recovery_repairs_hashes\<close>, \<open>one_explorer_decides\<close>.
  The network: \<open>blocks_come_from_the_network\<close>, \<open>first_answer_decides\<close> (refinement of a single request),
  \<open>merkle_binds_transactions\<close>, \<open>witnesses_are_not_checked\<close>, \<open>counted_blocks_have_hashes\<close>,
  \<open>peers_are_vouched_for\<close>, \<open>rebroadcast_once\<close>, \<open>announcements_are_discovered\<close>.
  Resolution: \<open>encoded_names_resolve\<close>, \<open>resolution_sound\<close>.  Starting: \<open>every_start_serves\<close>,
  \<open>interrupted_run_resumes\<close>, \<open>node_keeps_its_identity\<close>; stopping:
  \<open>stopped_syncer_ends\<close>.  The whole node: \<open>reachable_node_invariant\<close>.
  Further results are lemmas of their theories, among them \<open>name_event_accepted_iff\<close>,
  \<open>testnet_blocks_publishing\<close>, \<open>rate_limits_make_room\<close>, \<open>block_positions_are_stored\<close>,
  \<open>reorg_starts_at_first_difference\<close>, \<open>header_sync_waits_for_an_answer\<close>, \<open>connection_served_iff\<close>,
  \<open>foreign_names_swallowed\<close>, \<open>marks_need_no_authority\<close>, \<open>unpaid_anchor_by_request\<close>,
  \<open>configuration_persists\<close>, \<open>hub_never_panics\<close>, \<open>announcements_are_spaced\<close> and \<open>dead_subscriptions_stay\<close>.

  \<^bold>\<open>Bounds.\<close>  The JSON parser has as much fuel as twice the characters of its input and one, which is
  enough (\<open>Json.parse_json_fuel\<close>).  The loop over pending transactions has the hundred iterations of the
  code.  \<open>sync_catches_up\<close> takes as many rounds as batches up to the height of the chain.
  \<open>sort.Slice\<close> is modelled as the insertion sort it is up to twelve elements; for longer lists only its
  result, which does not depend on the algorithm, is claimed.  Event ids and keys have at least eight
  characters, transaction ids and block hashes sixteen, where the code slices them for a log line and
  the property is not about that.  SQL statements succeed, except in \<open>Migrations\<close>.  The lists of network
  events of a block request are complete: every goroutine finishes.

  \<^bold>\<open>Not modelled.\<close>  The wiring in \<^verbatim>\<open>New\<close>, \<^verbatim>\<open>Start\<close> and \<^verbatim>\<open>Stop\<close> of the node and the DNS server; HTTP
  routing and the embedded pages of the dashboard; WebSocket framing, pings and deadlines; log lines, except for the slices in them that can panic; the
  command line programs under \<^verbatim>\<open>cmd\<close>, which parse flags, print and call the HTTP interface; functions
  without callers that only read.  Indexes and column types of the schema are left out.
\<close>

section \<open>Who may publish\<close>

lemma author_has_tx_iff:
  "author_has_tx env ev d \<longleftrightarrow> (\<exists>as. env_derive env (ev_pubkey ev) = Some as
     \<and> (\<exists>r\<in>set (bitcoin_transactions d). t_address r \<in> set as))"
  by (auto simp: author_has_tx_def HasValidTransactionForAddresses_def count_where_def filter_empty_conv split: option.splits)

lemma stored_addresses:
  "reachable net st \<Longrightarrow> r \<in> set (bitcoin_transactions (rs_db st)) \<Longrightarrow> has_prefix (to_lower (t_address r)) ''bc1q''"
  using reachable_ok by (fastforce simp: node_ok_def node_db_def paid_mainnet_def list_all_iff)

lemma relay_derive_iff:
  "relay_derive lib net pk = Some as \<longleftrightarrow>
     (\<exists>ds. DeriveAddresses lib (NewAddressDeriver (net = ''testnet'' \<or> net = ''dev'')) pk = Inr ds \<and> as = map da_Address ds)"
  by (auto simp: relay_derive_def Let_def split: sum.splits)

text \<open>
  C3.  In every reachable state of a node the shared database satisfies its uniqueness
  constraints, every block row carries the DNN number of its height, every stored transaction
  was paid to a mainnet P2WPKH address, marks are valid and unique, and subscription ids are
  unique; whatever the chain, the other relays, the clients and the peers answer.
\<close>

theorem reachable_node_invariant:
  assumes "reachable net st"
  shows "db_keys (rs_db st) \<and> aligned (GetGenesisBlock net) (rs_db st) \<and> paid_mainnet (rs_db st)
    \<and> marks_ok (rs_marks st) \<and> distinct (map fst (rs_subs st))"
  using reachable_ok[OF assms] by (simp add: node_ok_def node_db_def)

text \<open>A node that has synchronised one transaction.\<close>

definition paid_env :: sync_env where
  "paid_env = quiet_env\<lparr>ch_network := ''mainnet'', ch_GetBlockWithInputs := (\<lambda>_. Some two_txs)\<rparr>"

definition paid_state :: relay_state where
  "paid_state = initial_state\<lparr>rs_db := snd (SyncSpecificTransaction paid_env (id_of CHR ''2'' CHR ''1'') (rs_db initial_state))\<rparr>"

lemma paid_state_reachable: "reachable ''mainnet'' paid_state"
proof (rule reachable.step)
  have "ch_network paid_env = ''mainnet''" by (simp add: paid_env_def)
  from node_step.sync_tx[OF this, of initial_state] show "node_step ''mainnet'' initial_state paid_state"
    unfolding paid_state_def .
qed (rule reachable.start)

lemma paid_state_rows: "length (bitcoin_transactions (rs_db paid_state)) = 1"
proof -
  have "isValidDNNTransaction (pay_tx (id_of CHR ''2'' CHR ''1'')) = Some addr_a" by code_simp
  moreover have "find (\<lambda>tx. tx_TxID tx = id_of CHR ''2'' CHR ''1'') (bk_Transactions two_txs) = Some (pay_tx (id_of CHR ''2'' CHR ''1''))"
    by (simp add: two_txs_def block_of_def pay_tx_def id_of_def)
  ultimately have "fst (SyncSpecificTransaction paid_env (id_of CHR ''2'' CHR ''1'') empty_db) = SyncDone"
    by (auto simp: SyncSpecificTransaction_def paid_env_def quiet_env_def Let_def)
  then have "length (bitcoin_transactions (snd (SyncSpecificTransaction paid_env (id_of CHR ''2'' CHR ''1'') empty_db))) = 1"
    by (elim SyncSpecificTransaction_effect[OF disjI1])
      (simp add: StoreBitcoinTransaction_def CreateOrUpdateDNNBlock_def empty_db_def insert_or_ignore_def)
  then have "length (bitcoin_transactions (rs_db paid_state)) = 1" by (simp add: paid_state_def initial_state_def)
  then show ?thesis by simp
qed

theorem reachable_node_invariant_witness:
  "db_keys (rs_db paid_state) \<and> length (bitcoin_transactions (rs_db paid_state)) = 1"
  using reachable_node_invariant[OF paid_state_reachable] paid_state_rows by simp

text \<open>
  C2.  On the main network the author check of names, connections and metadata is exact: the
  author passes precisely when a stored transaction was paid to one of the two P2WPKH addresses
  (even and odd) of the key; the other address kinds the code derives never matter.
\<close>

theorem author_check_exact:
  assumes "reachable net st" "address_formats lib" "net \<noteq> ''testnet''" "net \<noteq> ''dev''"
    and "env_derive env = relay_derive lib net" "hex_decode (ev_pubkey ev) = Some bytes" "length bytes = 32"
  shows "author_has_tx env ev (rs_db st) \<longleftrightarrow>
    (\<exists>r\<in>set (bitcoin_transactions (rs_db st)). t_address r \<in> witness_addresses lib chain_params.MainNetParams bytes)"
proof -
  have derive: "env_derive env (ev_pubkey ev) = Some as \<longleftrightarrow>
      (\<exists>ds. DeriveAddresses lib chain_params.MainNetParams (ev_pubkey ev) = Inr ds \<and> as = map da_Address ds)" for as
    using assms(3,4) by (simp add: assms(5) relay_derive_iff NewAddressDeriver_def)
  have "author_has_tx env ev (rs_db st) \<longleftrightarrow> (\<exists>ds. DeriveAddresses lib chain_params.MainNetParams (ev_pubkey ev) = Inr ds
      \<and> (\<exists>r\<in>set (bitcoin_transactions (rs_db st)). t_address r \<in> da_Address ` set ds))"
    unfolding author_has_tx_iff derive set_map[symmetric] by blast
  also have "\<dots> \<longleftrightarrow> (\<exists>r\<in>set (bitcoin_transactions (rs_db st)). t_address r \<in> witness_addresses lib chain_params.MainNetParams bytes)"
    using stored_addresses[OF assms(1)] derived_witness[OF assms(2,6,7)] witness_derived[OF assms(6,7)] by (metis (no_types, lifting) Inr_inject)
  finally show ?thesis .
qed

definition keyed_event :: event where
  "keyed_event = bob_event\<lparr>ev_pubkey := key_hex\<rparr>"

theorem author_check_exact_witness:
  "author_has_tx (open_env\<lparr>env_derive := relay_derive plain_lib ''mainnet''\<rparr>) keyed_event (rs_db paid_state)
     \<longleftrightarrow> t_address (hd (bitcoin_transactions (rs_db paid_state))) \<in> witness_addresses plain_lib chain_params.MainNetParams (replicate 32 0)"
proof -
  let ?env = "open_env\<lparr>env_derive := relay_derive plain_lib ''mainnet''\<rparr>"
  have "hex_decode (ev_pubkey keyed_event) = Some (replicate 32 0)" using key_hex_bytes(1) by (simp add: keyed_event_def)
  moreover have "set (bitcoin_transactions (rs_db paid_state)) = {hd (bitcoin_transactions (rs_db paid_state))}"
    using paid_state_rows by (cases "bitcoin_transactions (rs_db paid_state)") auto
  moreover have "env_derive ?env = relay_derive plain_lib ''mainnet''" by simp
  ultimately show ?thesis
    using author_check_exact[OF paid_state_reachable plain_lib_formats, of ?env keyed_event "replicate 32 0"] key_hex_bytes(2)
    by simp
qed

text \<open>
  A node of the test or development network accepts no name, connection or metadata event:
  its chain client and the transaction rule only admit mainnet addresses, its author check
  derives testnet addresses.
\<close>

lemma testnet_blocks_publishing:
  assumes "reachable net st" "address_formats lib" "net = ''testnet'' \<or> net = ''dev''"
    and "env_derive env = relay_derive lib net" "ev_kind ev \<in> {61600, 62600, 63600}"
  shows "snd (handleEvent env pe conn ev st) = st \<and> (conn, OkMsg (ev_id ev) True) \<notin> set (fst (handleEvent env pe conn ev st))"
proof -
  have "\<not> author_has_tx env ev (rs_db st)"
  proof
    assume "author_has_tx env ev (rs_db st)"
    then obtain ds r where "DeriveAddresses lib chain_params.TestNet3Params (ev_pubkey ev) = Inr ds"
      "r \<in> set (bitcoin_transactions (rs_db st))" "t_address r \<in> da_Address ` set ds"
      using assms(3) by (auto simp: author_has_tx_iff assms(4) relay_derive_iff NewAddressDeriver_def)
    then show False
      using DeriveAddresses_ok derived_witness[OF assms(2)] stored_addresses[OF assms(1)] by blast
  qed
  then have "\<not> policy_checks env pe ev (rs_db st)" using assms(5) by (auto simp: policy_checks_def)
  then show ?thesis using handleEvent_accepts[of conn ev env pe st] by blast
qed


lemma testnet_blocks_publishing_example:
  "snd (handleEvent (open_env\<lparr>env_derive := relay_derive plain_lib ''testnet''\<rparr>) (NewPolicyEnforcer ''testnet'') 3 bob_event initial_state) = initial_state"
  using testnet_blocks_publishing[OF reachable.start plain_lib_formats, of "''testnet''" "open_env\<lparr>env_derive := relay_derive plain_lib ''testnet''\<rparr>"
      bob_event] by (simp add: bob_event_def)

end
